(* ===== verification/Prelude.thy ===== *)
theory Prelude
  imports Main "HOL-Library.AList" "HOL-Library.Multiset"
begin

text \<open>
  Shared vocabulary of the development. A JavaScript \<open>Map\<close> is an association
  list: \<open>set\<close> on a present key rewrites the entry in place, on a new key appends,
  so insertion order is kept, as in the language. \<open>Array.prototype.sort\<close> with a
  comparator is stable; it is modelled by stable insertion, whose result is the
  same list as any stable sort when the comparator is a total preorder (the
  locale \<open>comparator\<close>). Errors are the left summand of a sum, and a handler that
  threads a state returns the state it leaves together with the error it throws,
  if any (\<open>and_then\<close> is the sequencing of two awaited calls).
\<close>

named_theorems jsmap_simps "lookup laws of JavaScript maps"
named_theorems contract_defs "definitions of contract-level tables"

section \<open>JavaScript maps\<close>

type_synonym ('k, 'v) jsmap = "('k \<times> 'v) list"

definition jm_get :: "('k, 'v) jsmap \<Rightarrow> 'k \<Rightarrow> 'v option" where
  "jm_get m k = map_of m k"

definition jm_set :: "'k \<Rightarrow> 'v \<Rightarrow> ('k, 'v) jsmap \<Rightarrow> ('k, 'v) jsmap" where
  "jm_set k v m = AList.update k v m"

definition jm_delete :: "'k \<Rightarrow> ('k, 'v) jsmap \<Rightarrow> ('k, 'v) jsmap" where
  "jm_delete k m = AList.delete k m"

definition jm_keys :: "('k, 'v) jsmap \<Rightarrow> 'k list" where
  "jm_keys m = map fst m"

abbreviation jm_has :: "('k, 'v) jsmap \<Rightarrow> 'k \<Rightarrow> bool" where
  "jm_has m k \<equiv> jm_get m k \<noteq> None"

lemma jm_get_empty [jsmap_simps, simp]: "jm_get [] k = None"
  by (simp add: jm_get_def)

lemma jm_get_set [jsmap_simps, simp]:
  "jm_get (jm_set k v m) k' = (if k' = k then Some v else jm_get m k')"
  by (simp add: jm_get_def jm_set_def AList.update_conv)

lemma jm_get_delete [jsmap_simps, simp]:
  "jm_get (jm_delete k m) k' = (if k' = k then None else jm_get m k')"
  by (simp add: jm_get_def jm_delete_def AList.delete_conv)

lemma jm_keys_set: "set (jm_keys (jm_set k v m)) = insert k (set (jm_keys m))"
  by (simp add: jm_keys_def jm_set_def AList.dom_update)

lemma jm_keys_delete: "set (jm_keys (jm_delete k m)) = set (jm_keys m) - {k}"
  by (simp add: jm_keys_def jm_delete_def AList.delete_keys)

lemma jm_has_iff: "jm_has m k \<longleftrightarrow> k \<in> set (jm_keys m)"
  by (auto simp: jm_get_def jm_keys_def map_of_eq_None_iff)

lemma jm_get_None_iff: "jm_get m k = None \<longleftrightarrow> k \<notin> set (jm_keys m)"
  by (auto simp: jm_get_def jm_keys_def map_of_eq_None_iff)

lemma jm_distinct_set: "distinct (jm_keys m) \<Longrightarrow> distinct (jm_keys (jm_set k v m))"
  by (simp add: jm_keys_def jm_set_def AList.distinct_update)

lemma jm_distinct_delete: "distinct (jm_keys m) \<Longrightarrow> distinct (jm_keys (jm_delete k m))"
  by (simp add: jm_keys_def jm_delete_def AList.distinct_delete)

lemma jm_set_fresh: "jm_get m k = None \<Longrightarrow> jm_set k v m = m @ [(k, v)]"
  unfolding jm_get_def jm_set_def by (induction m) (auto split: if_splits)

section \<open>The interface of a keyed store\<close>

text \<open>
  The operations the components ask of a \<open>Map\<close> or of a table with a primary key,
  and the laws they rely on.
\<close>

locale keyed_store =
  fixes lookup :: "'s \<Rightarrow> 'k \<Rightarrow> 'v option"
    and put :: "'k \<Rightarrow> 'v \<Rightarrow> 's \<Rightarrow> 's"
    and remove :: "'k \<Rightarrow> 's \<Rightarrow> 's"
  assumes lookup_put: "lookup (put k v s) k' = (if k' = k then Some v else lookup s k')"
    and lookup_remove: "lookup (remove k s) k' = (if k' = k then None else lookup s k')"
begin

lemma put_put_same: "lookup (put k v (put k w s)) = lookup (put k v s)"
  by (rule ext) (simp add: lookup_put)

lemma put_commute: "k \<noteq> l \<Longrightarrow> lookup (put k v (put l w s)) = lookup (put l w (put k v s))"
  by (rule ext) (simp add: lookup_put)

lemma remove_put: "lookup (remove k (put k v s)) = lookup (remove k s)"
  by (rule ext) (simp add: lookup_put lookup_remove)

lemma put_other: "k \<noteq> l \<Longrightarrow> lookup (put k v s) l = lookup s l"
  by (simp add: lookup_put)

end

interpretation jm: keyed_store jm_get jm_set jm_delete
  by unfold_locales simp_all

section \<open>Sequencing of handlers that may throw\<close>

type_synonym ('s, 'e) outcome = "'s \<times> 'e option"

fun and_then :: "('s, 'e) outcome \<Rightarrow> ('s \<Rightarrow> ('s, 'e) outcome) \<Rightarrow> ('s, 'e) outcome" where
  "and_then (s, None) f = f s"
| "and_then (s, Some e) f = (s, Some e)"

lemma and_then_inv:
  assumes "P (fst r)" and "\<And>s. P s \<Longrightarrow> P (fst (f s))"
  shows "P (fst (and_then r f))"
  using assms by (cases "(r, f)" rule: and_then.cases) auto

lemma and_then_split:
  "and_then r f = (case snd r of None \<Rightarrow> f (fst r) | Some e \<Rightarrow> r)"
  by (cases "(r, f)" rule: and_then.cases) auto

text \<open>For evaluation: the continuation is entered only when the first call has returned.\<close>

lemma and_then_unfold [code_unfold]:
  "and_then r f = (case r of (s, e) \<Rightarrow> (case e of None \<Rightarrow> f s | Some x \<Rightarrow> (s, Some x)))"
  by (cases "(r, f)" rule: and_then.cases) auto

fun ebind :: "('e + 'a) \<Rightarrow> ('a \<Rightarrow> 'e + 'b) \<Rightarrow> 'e + 'b" where
  "ebind (Inl e) f = Inl e"
| "ebind (Inr a) f = f a"

lemma ebind_Inr_iff: "ebind r f = Inr b \<longleftrightarrow> (\<exists>a. r = Inr a \<and> f a = Inr b)"
  by (cases r) auto

section \<open>Stable sorting by a comparator\<close>

text \<open>
  \<open>before x y\<close> is "the comparator returns a value that does not put \<open>x\<close> after
  \<open>y\<close>". The element inserted came earlier in the array than everything it is
  inserted into, so on a tie it goes in front.
\<close>

fun js_insort :: "('a \<Rightarrow> 'a \<Rightarrow> bool) \<Rightarrow> 'a \<Rightarrow> 'a list \<Rightarrow> 'a list" where
  "js_insort before x [] = [x]"
| "js_insort before x (y # ys) =
     (if before x y then x # y # ys else y # js_insort before x ys)"

fun js_sort :: "('a \<Rightarrow> 'a \<Rightarrow> bool) \<Rightarrow> 'a list \<Rightarrow> 'a list" where
  "js_sort before [] = []"
| "js_sort before (x # xs) = js_insort before x (js_sort before xs)"

lemma mset_js_insort [simp]: "mset (js_insort b x xs) = add_mset x (mset xs)"
  by (induction xs) auto

lemma mset_js_sort [simp]: "mset (js_sort b xs) = mset xs"
  by (induction xs) auto

lemma set_js_sort [simp]: "set (js_sort b xs) = set xs"
  using mset_js_sort[of b xs] by (metis set_mset_mset)

lemma length_js_sort [simp]: "length (js_sort b xs) = length xs"
  using mset_js_sort[of b xs] by (metis size_mset)

lemma distinct_js_sort [simp]: "distinct (js_sort b xs) = distinct xs"
  using mset_js_sort[of b xs] by (metis distinct_count_atmost_1 set_mset_mset)

locale comparator =
  fixes before :: "'a \<Rightarrow> 'a \<Rightarrow> bool"
  assumes total: "before x y \<or> before y x"
    and trans: "before x y \<Longrightarrow> before y z \<Longrightarrow> before x z"
begin

lemma insort_sorted: "sorted_wrt before xs \<Longrightarrow> sorted_wrt before (js_insort before x xs)"
proof (induction xs)
  case (Cons y ys)
  have set_ins: "set (js_insort before x ys) = insert x (set ys)"
    using mset_js_insort[of before x ys] by (metis set_mset_add_mset_insert set_mset_mset)
  show ?case
    using Cons total[of x y] trans by (auto simp: set_ins)
qed simp

lemma sort_sorted: "sorted_wrt before (js_sort before xs)"
  by (induction xs) (auto intro: insort_sorted)

lemma insort_head: "sorted_wrt before (x # xs) \<Longrightarrow> js_insort before x xs = x # xs"
  by (cases xs) auto

lemma sort_idem: "sorted_wrt before xs \<Longrightarrow> js_sort before xs = xs"
  by (induction xs) (auto simp: insort_head)

text \<open>Stability: elements that tie with each other keep their order.\<close>

lemma insort_filter:
  assumes "\<And>y. y \<in> set xs \<Longrightarrow> P y \<Longrightarrow> P x \<Longrightarrow> before x y"
  shows "filter P (js_insort before x xs) = (if P x then x # filter P xs else filter P xs)"
  using assms by (induction xs) auto

lemma sort_stable:
  assumes "\<And>x y. x \<in> set xs \<Longrightarrow> y \<in> set xs \<Longrightarrow> P x \<Longrightarrow> P y \<Longrightarrow> before x y"
  shows "filter P (js_sort before xs) = filter P xs"
  using assms
proof (induction xs)
  case (Cons x xs)
  have "filter P (js_insort before x (js_sort before xs)) =
        (if P x then x # filter P (js_sort before xs) else filter P (js_sort before xs))"
    by (rule insort_filter) (use Cons.prems in auto)
  then show ?case using Cons by auto
qed simp

end

section \<open>Lists\<close>

text \<open>JavaScript \<open>Array.prototype.find\<close> is the library's \<open>find\<close>.\<close>

lemma find_Some_mem: "find P xs = Some x \<Longrightarrow> x \<in> set xs \<and> P x"
  by (auto simp: find_Some_iff)

text \<open>Numbering from one, as in a \<open>forEach\<close> that assigns \<open>index + 1\<close>.\<close>

fun number_from :: "nat \<Rightarrow> 'a list \<Rightarrow> (nat \<times> 'a) list" where
  "number_from n [] = []"
| "number_from n (x # xs) = (n, x) # number_from (Suc n) xs"

lemma number_from_fst: "map fst (number_from n xs) = [n..<n + length xs]"
proof (induction xs arbitrary: n)
  case (Cons x xs)
  then show ?case by (simp add: upt_conv_Cons del: upt_Suc)
qed simp

lemma number_from_snd: "map snd (number_from n xs) = xs"
  by (induction xs arbitrary: n) auto

lemma length_number_from [simp]: "length (number_from n xs) = length xs"
  by (induction xs arbitrary: n) auto

lemma sum_list_filter_split:
  "mset xs = mset (filter P xs) + mset (filter (\<lambda>x. \<not> P x) xs)"
  by (induction xs) auto

section \<open>Runs of a step relation\<close>

text \<open>
  The shape every state machine of the development has: a start predicate, a
  step relation and a state predicate preserved by the steps.
\<close>

inductive reach :: "('s \<Rightarrow> bool) \<Rightarrow> ('s \<Rightarrow> 's \<Rightarrow> bool) \<Rightarrow> 's \<Rightarrow> bool"
  for start :: "'s \<Rightarrow> bool" and step :: "'s \<Rightarrow> 's \<Rightarrow> bool" where
  reach_start: "start s \<Longrightarrow> reach start step s"
| reach_step: "reach start step s \<Longrightarrow> step s t \<Longrightarrow> reach start step t"

lemma reach_initial_step: "step i t \<Longrightarrow> reach (\<lambda>s. s = i) step t"
  by (rule reach_step[where s = i]) (auto intro: reach_start)

locale step_invariant =
  fixes start :: "'s \<Rightarrow> bool" and step :: "'s \<Rightarrow> 's \<Rightarrow> bool" and inv :: "'s \<Rightarrow> bool"
  assumes inv_start: "start s \<Longrightarrow> inv s"
    and inv_step: "inv s \<Longrightarrow> step s t \<Longrightarrow> inv t"
begin

lemma reachable_inv: "reach start step s \<Longrightarrow> inv s"
  by (induction rule: reach.induct) (auto intro: inv_start inv_step)

lemma run_inv: "inv s \<Longrightarrow> step\<^sup>*\<^sup>* s t \<Longrightarrow> inv t"
  by (rotate_tac 1, induction rule: rtranclp_induct) (auto intro: inv_step)

end

end
