(* ===== verification/Float64.thy ===== *)
theory Float64
  imports Prelude Complex_Main "HOL-Library.Log_Nat"
begin

text \<open>
  JavaScript numbers. A finite double is a rational; every arithmetic operation of
  the source rounds its exact result to 53 significant bits, ties to even
  (\<open>fl64\<close>). The exponent range is unbounded here: no quantity of the modelled code
  comes near the overflow or underflow thresholds of binary64. \<open>js_round\<close> is
  \<open>Math.round\<close> (ties towards plus infinity), exact on doubles of this size. The
  locale \<open>rounding\<close> states what the clients use of the rounding; it is interpreted
  on \<open>fl64\<close>.
\<close>

section \<open>Binary exponent of a positive rational\<close>

definition ilog2 :: "rat \<Rightarrow> int" where
  "ilog2 x = (if 1 \<le> x then bitlen \<lfloor>x\<rfloor> - 1 else - bitlen (\<lceil>1 / x\<rceil> - 1))"

definition pow2 :: "int \<Rightarrow> rat" where
  "pow2 e = (if 0 \<le> e then 2 ^ nat e else 1 / 2 ^ nat (- e))"

lemma pow2_pos [simp]: "0 < pow2 e"
  by (simp add: pow2_def)

lemma pow2_nonzero [simp]: "pow2 e \<noteq> 0"
  using pow2_pos[of e] by linarith

lemma pow2_Suc: "pow2 (e + 1) = 2 * pow2 e"
proof (cases "0 \<le> e")
  case True
  then show ?thesis by (simp add: pow2_def nat_add_distrib)
next
  case False
  then have "nat (- e) = Suc (nat (- (e + 1)))" by simp
  then show ?thesis using False by (auto simp: pow2_def)
qed

lemma pow2_add_nat: "pow2 (e + int n) = 2 ^ n * pow2 e"
proof (induction n)
  case (Suc n)
  have "e + int (Suc n) = (e + int n) + 1" by simp
  then have "pow2 (e + int (Suc n)) = pow2 ((e + int n) + 1)" by (rule arg_cong)
  also have "\<dots> = 2 * pow2 (e + int n)" by (rule pow2_Suc)
  finally show ?case using Suc by simp
qed simp

lemma pow2_mono: "d \<le> e \<Longrightarrow> pow2 d \<le> pow2 e"
proof -
  assume "d \<le> e"
  then have "e = d + int (nat (e - d))" by simp
  then have "pow2 e = 2 ^ nat (e - d) * pow2 d" by (metis pow2_add_nat)
  moreover have "(1::rat) * pow2 d \<le> 2 ^ nat (e - d) * pow2 d"
    by (rule mult_right_mono) (auto intro: less_imp_le)
  ultimately show ?thesis by simp
qed

lemma pow2_add: "pow2 (d + e) = pow2 d * pow2 e"
proof (cases "0 \<le> e")
  case True
  then have "d + e = d + int (nat e)" and "pow2 e = 2 ^ nat e" by (auto simp: pow2_def)
  then show ?thesis by (metis pow2_add_nat mult.commute)
next
  case False
  then have "d = d + e + int (nat (- e))" and e: "pow2 e = 1 / 2 ^ nat (- e)"
    by (auto simp: pow2_def)
  then have "pow2 d = 2 ^ nat (- e) * pow2 (d + e)" by (metis pow2_add_nat)
  then show ?thesis by (simp add: e)
qed

lemma bitlen_rat_bounds:
  assumes "0 < (n::int)"
  shows "pow2 (bitlen n - 1) \<le> of_int n" and "of_int n < pow2 (bitlen n)"
proof -
  have b: "2 ^ nat (bitlen n - 1) \<le> n" "n < 2 ^ nat (bitlen n)"
    using bitlen_bounds[OF assms] by auto
  have p: "0 < bitlen n"
    using assms b(2) by (cases "bitlen n \<le> 0") auto
  have "rat_of_int (2 ^ nat (bitlen n - 1)) \<le> of_int n" by (simp only: of_int_le_iff) (rule b)
  then show "pow2 (bitlen n - 1) \<le> of_int n" using p by (simp add: pow2_def)
  have "of_int n < rat_of_int (2 ^ nat (bitlen n))" by (simp only: of_int_less_iff) (rule b)
  then show "of_int n < pow2 (bitlen n)" using p by (simp add: pow2_def)
qed

lemma ilog2_bounds:
  assumes "0 < x"
  shows "pow2 (ilog2 x) \<le> x" and "x < pow2 (ilog2 x + 1)"
proof -
  have "pow2 (ilog2 x) \<le> x \<and> x < pow2 (ilog2 x + 1)"
  proof (cases "1 \<le> x")
    case True
    let ?n = "\<lfloor>x\<rfloor>"
    have n: "0 < ?n" using True by linarith
    have "pow2 (bitlen ?n - 1) \<le> x"
      using bitlen_rat_bounds(1)[OF n] of_int_floor_le[of x] by linarith
    moreover have "?n + 1 \<le> 2 ^ nat (bitlen ?n)"
      using bitlen_bounds[OF n] by linarith
    then have "rat_of_int (?n + 1) \<le> of_int (2 ^ nat (bitlen ?n))"
      by (simp only: of_int_le_iff)
    then have "of_int ?n + 1 \<le> pow2 (bitlen ?n)"
      by (simp add: pow2_def bitlen_nonneg)
    then have "x < pow2 (bitlen ?n)"
      using real_of_int_floor_add_one_gt floor_correct[of x] by linarith
    ultimately show ?thesis using True by (simp add: ilog2_def)
  next
    case False
    let ?n = "\<lceil>1 / x\<rceil> - 1"
    have x1: "1 < 1 / x" using False assms by simp
    then have n: "0 < ?n" by linarith
    have c: "of_int ?n < 1 / x" "1 / x \<le> of_int ?n + 1"
      using ceiling_correct[of "1 / x"] by auto
    have "?n + 1 \<le> 2 ^ nat (bitlen ?n)" using bitlen_bounds[OF n] by linarith
    then have "rat_of_int (?n + 1) \<le> of_int (2 ^ nat (bitlen ?n))"
      by (simp only: of_int_le_iff)
    moreover have "1 / x \<le> rat_of_int (?n + 1)"
      using c(2) by (simp only: of_int_add of_int_1)
    ultimately have "1 / x \<le> rat_of_int (2 ^ nat (bitlen ?n))" by (rule order_trans[rotated])
    then have "1 / x \<le> 2 ^ nat (bitlen ?n)" by simp
    then have lo: "1 \<le> 2 ^ nat (bitlen ?n) * x" using assms by (simp add: field_simps)
    have "pow2 (bitlen ?n - 1) < 1 / x"
      using bitlen_rat_bounds(1)[OF n] c(1) by linarith
    then have hi: "pow2 (bitlen ?n - 1) * x < 1" using assms by (simp add: field_simps)
    have p1: "pow2 (- bitlen ?n) * 2 ^ nat (bitlen ?n) = 1"
      using bitlen_nonneg[of ?n] by (cases "bitlen ?n = 0") (auto simp: pow2_def)
    have p2: "pow2 (- bitlen ?n + 1) * pow2 (bitlen ?n - 1) = 1"
      by (simp add: pow2_add[symmetric]) (simp add: pow2_def)
    have "pow2 (- bitlen ?n) * 1 \<le> pow2 (- bitlen ?n) * (2 ^ nat (bitlen ?n) * x)"
      by (rule mult_left_mono[OF lo]) (simp add: less_imp_le)
    then have "pow2 (- bitlen ?n) \<le> x" using p1 by (simp add: mult.assoc[symmetric])
    moreover have "pow2 (- bitlen ?n + 1) * (pow2 (bitlen ?n - 1) * x) < pow2 (- bitlen ?n + 1) * 1"
      by (rule mult_strict_left_mono[OF hi]) simp
    then have "pow2 (- bitlen ?n + 1) * pow2 (bitlen ?n - 1) * x < pow2 (- bitlen ?n + 1)"
      by (simp only: mult.assoc mult_1_right)
    then have "x < pow2 (- bitlen ?n + 1)" by (simp only: p2 mult_1)
    ultimately show ?thesis using False by (simp add: ilog2_def)
  qed
  then show "pow2 (ilog2 x) \<le> x" and "x < pow2 (ilog2 x + 1)" by auto
qed

lemma ilog2_unique:
  assumes "pow2 e \<le> x" and "x < pow2 (e + 1)"
  shows "ilog2 x = e"
proof -
  have x: "0 < x" using assms(1) pow2_pos[of e] by linarith
  have "\<not> ilog2 x + 1 \<le> e"
    using pow2_mono[of "ilog2 x + 1" e] ilog2_bounds(2)[OF x] assms(1) by linarith
  moreover have "\<not> e + 1 \<le> ilog2 x"
    using pow2_mono[of "e + 1" "ilog2 x"] ilog2_bounds(1)[OF x] assms(2) by linarith
  ultimately show ?thesis by linarith
qed

lemma ilog2_mono: "0 < x \<Longrightarrow> x \<le> y \<Longrightarrow> ilog2 x \<le> ilog2 y"
proof (rule ccontr)
  assume a: "0 < x" "x \<le> y" "\<not> ilog2 x \<le> ilog2 y"
  then have "pow2 (ilog2 y + 1) \<le> pow2 (ilog2 x)" by (intro pow2_mono) simp
  then show False using ilog2_bounds(1)[of x] ilog2_bounds(2)[of y] a by linarith
qed

section \<open>Rounding to an integer, ties to even\<close>

definition rne :: "rat \<Rightarrow> int" where
  "rne y = (let n = \<lfloor>y\<rfloor>; d = y - of_int n in
     if d < 1 / 2 then n else if 1 / 2 < d then n + 1 else if even n then n else n + 1)"

lemma rne_int [simp]: "rne (of_int n) = n"
  by (simp add: rne_def)

lemma rne_near: "\<bar>of_int (rne y) - y\<bar> \<le> 1 / 2"
  unfolding rne_def Let_def using floor_correct[of y] by (auto simp: abs_le_iff)

lemma rne_mono:
  assumes "x \<le> y" shows "rne x \<le> rne y"
proof (cases "\<lfloor>x\<rfloor> = \<lfloor>y\<rfloor>")
  case True
  then show ?thesis using assms unfolding rne_def Let_def by auto
next
  case False
  then have "\<lfloor>x\<rfloor> + 1 \<le> \<lfloor>y\<rfloor>" using floor_mono[OF assms] by linarith
  then show ?thesis unfolding rne_def Let_def by auto
qed

lemma rne_minus: "rne (- y) = - rne y"
proof (cases "y = of_int \<lfloor>y\<rfloor>")
  case True
  then show ?thesis using rne_int[of "- \<lfloor>y\<rfloor>"] rne_int[of "\<lfloor>y\<rfloor>"] by simp
next
  case False
  then have "\<lfloor>- y\<rfloor> = - \<lfloor>y\<rfloor> - 1"
    using floor_correct[of y] by (intro floor_unique) (auto simp: less_le)
  then have fl: "\<lfloor>- y\<rfloor> = - \<lfloor>y\<rfloor> - 1" .
  have "even \<lfloor>- y\<rfloor> \<longleftrightarrow> odd \<lfloor>y\<rfloor>" by (simp add: fl)
  moreover have "- y - of_int \<lfloor>- y\<rfloor> = 1 - (y - of_int \<lfloor>y\<rfloor>)" by (simp add: fl)
  ultimately show ?thesis unfolding rne_def Let_def by (auto simp: fl)
qed

section \<open>Rounding to a double\<close>

definition ulp :: "rat \<Rightarrow> rat" where
  "ulp x = pow2 (ilog2 \<bar>x\<bar> - 52)"

definition fl64 :: "rat \<Rightarrow> rat" where
  "fl64 x = (if x = 0 then 0 else of_int (rne (x / ulp x)) * ulp x)"

lemma ulp_pos [simp]: "0 < ulp x" by (simp add: ulp_def)

lemma ulp_minus [simp]: "ulp (- x) = ulp x" by (simp add: ulp_def)

lemma fl64_0 [simp]: "fl64 0 = 0" by (simp add: fl64_def)

lemma fl64_minus: "fl64 (- x) = - fl64 x"
  by (simp add: fl64_def rne_minus)

lemma scaled_bounds:
  assumes "0 < x"
  shows "2 ^ 52 \<le> x / ulp x" and "x / ulp x < 2 ^ 53"
proof -
  have p: "2 ^ 52 * ulp x = pow2 (ilog2 x)" "2 ^ 53 * ulp x = pow2 (ilog2 x + 1)"
    using assms pow2_add_nat[of "ilog2 x - 52" 52] pow2_add_nat[of "ilog2 x - 52" 53]
    by (auto simp: ulp_def algebra_simps)
  show "2 ^ 52 \<le> x / ulp x"
    using ilog2_bounds(1)[OF assms] p(1) by (simp add: pos_le_divide_eq)
  show "x / ulp x < 2 ^ 53"
    using ilog2_bounds(2)[OF assms] p(2) by (simp add: pos_divide_less_eq)
qed

lemma rne_scaled_bounds:
  assumes "0 < x"
  shows "2 ^ 52 \<le> rne (x / ulp x)" and "rne (x / ulp x) \<le> 2 ^ 53"
proof -
  have "rne (of_int (2 ^ 52)) \<le> rne (x / ulp x)"
    using scaled_bounds(1)[OF assms] by (intro rne_mono) simp
  then show "2 ^ 52 \<le> rne (x / ulp x)" by (simp only: rne_int)
  have "rne (x / ulp x) \<le> rne (of_int (2 ^ 53))"
    using scaled_bounds(2)[OF assms] by (intro rne_mono) simp
  then show "rne (x / ulp x) \<le> 2 ^ 53" by (simp only: rne_int)
qed

lemma fl64_pos: "0 < x \<Longrightarrow> 0 < fl64 x"
  using rne_scaled_bounds(1)[of x] by (simp add: fl64_def)

text \<open>A multiple of a power of two with at most 53 bits is a double.\<close>

lemma fl64_exact_pos:
  assumes x: "x = of_int m * pow2 k" and m: "0 < m" "m \<le> 2 ^ 53"
  shows "fl64 x = x"
proof -
  have x0: "0 < x" using x m by simp
  define e where "e = ilog2 x"
  have u: "ulp x = pow2 (e - 52)" using x0 by (simp add: ulp_def e_def)
  have "\<exists>n::int. x = of_int n * pow2 (e - 52)"
  proof (cases "e - 52 \<le> k")
    case True
    then have "k = e - 52 + int (nat (k - (e - 52)))" by simp
    then have "pow2 k = 2 ^ nat (k - (e - 52)) * pow2 (e - 52)" by (metis pow2_add_nat)
    then have "x = of_int (m * 2 ^ nat (k - (e - 52))) * pow2 (e - 52)" using x by simp
    then show ?thesis by blast
  next
    case False
    have "rat_of_int m \<le> of_int (2 ^ 53)" using m(2) by (simp only: of_int_le_iff)
    then have "x \<le> 2 ^ 53 * pow2 k" using x by (simp add: mult_right_mono less_imp_le)
    also have "\<dots> = pow2 (k + int 53)" by (rule pow2_add_nat[symmetric])
    also have "\<dots> \<le> pow2 e" using False by (intro pow2_mono) simp
    finally have "x = pow2 e" using ilog2_bounds(1)[OF x0] by (simp add: e_def)
    also have "\<dots> = 2 ^ 52 * pow2 (e - 52)" using pow2_add_nat[of "e - 52" 52] by simp
    finally have "x = of_int (2 ^ 52) * pow2 (e - 52)" by simp
    then show ?thesis by blast
  qed
  then obtain n :: int where n: "x = of_int n * pow2 (e - 52)" by blast
  have "x / ulp x = of_int n" unfolding u by (subst n) simp
  then have "fl64 x = of_int n * ulp x" using x0 by (simp add: fl64_def)
  then show ?thesis using n u by simp
qed

lemma fl64_exact:
  assumes "x = of_int m * pow2 k" and "\<bar>m\<bar> \<le> 2 ^ 53"
  shows "fl64 x = x"
proof -
  consider "m = 0" | "0 < m" | "m < 0" by linarith
  then show ?thesis
  proof cases
    case 3
    have "fl64 (- x) = - x"
      by (rule fl64_exact_pos[of "- x" "- m" k]) (use 3 assms in auto)
    then show ?thesis by (simp add: fl64_minus)
  qed (use assms fl64_exact_pos in auto)
qed

lemma fl64_int [simp]: "\<bar>n\<bar> \<le> 2 ^ 53 \<Longrightarrow> fl64 (of_int n) = of_int n"
  by (rule fl64_exact[of _ n 0]) (auto simp: pow2_def)

lemma fl64_1 [simp]: "fl64 1 = 1"
  using fl64_int[of 1] by simp

lemma fl64_form:
  obtains m where "fl64 x = of_int m * ulp x" and "\<bar>m\<bar> \<le> 2 ^ 53"
proof (cases x "0 :: rat" rule: linorder_cases)
  case less
  then have "\<bar>rne (- x / ulp x)\<bar> \<le> 2 ^ 53" using rne_scaled_bounds[of "- x"] by auto
  then have "\<bar>rne (x / ulp x)\<bar> \<le> 2 ^ 53" by (simp add: rne_minus)
  then show ?thesis using less that by (auto simp: fl64_def)
next
  case equal
  then show ?thesis using that[of 0] by simp
next
  case greater
  then have "\<bar>rne (x / ulp x)\<bar> \<le> 2 ^ 53" using rne_scaled_bounds[of x] by auto
  then show ?thesis using greater that by (auto simp: fl64_def)
qed

lemma fl64_idem [simp]: "fl64 (fl64 x) = fl64 x"
proof -
  obtain m where "fl64 x = of_int m * ulp x" "\<bar>m\<bar> \<le> 2 ^ 53" by (rule fl64_form)
  then show ?thesis by (intro fl64_exact) (auto simp: ulp_def)
qed

lemma fl64_mono_pos:
  assumes "0 < x" and "x \<le> y" shows "fl64 x \<le> fl64 y"
proof (cases "ilog2 x = ilog2 y")
  case True
  then have u: "ulp x = ulp y" using assms by (simp add: ulp_def)
  have "rne (x / ulp x) \<le> rne (y / ulp y)"
    using assms u by (intro rne_mono) (simp add: divide_right_mono less_imp_le)
  then have "rat_of_int (rne (x / ulp x)) * ulp x \<le> of_int (rne (y / ulp y)) * ulp x"
    by (intro mult_right_mono) (auto intro: less_imp_le)
  then show ?thesis using assms u by (simp add: fl64_def)
next
  case False
  then have lt: "ilog2 x + 1 \<le> ilog2 y" using ilog2_mono[OF assms] by linarith
  have "rat_of_int (rne (x / ulp x)) \<le> of_int (2 ^ 53)"
    using rne_scaled_bounds(2)[OF assms(1)] by (simp only: of_int_le_iff)
  then have "fl64 x \<le> 2 ^ 53 * ulp x"
    using assms by (simp add: fl64_def mult_right_mono less_imp_le)
  also have "\<dots> = pow2 (ilog2 x + 1)"
    using assms pow2_add_nat[of "ilog2 x - 52" 53] by (simp add: ulp_def add.commute)
  also have "\<dots> \<le> pow2 (ilog2 y)" using lt by (rule pow2_mono)
  also have "\<dots> = 2 ^ 52 * ulp y"
    using assms pow2_add_nat[of "ilog2 y - 52" 52] by (simp add: ulp_def)
  also have "\<dots> \<le> of_int (rne (y / ulp y)) * ulp y"
  proof (rule mult_right_mono)
    have "rat_of_int (2 ^ 52) \<le> of_int (rne (y / ulp y))"
      using rne_scaled_bounds(1)[of y] assms by (simp only: of_int_le_iff)
    then show "2 ^ 52 \<le> rat_of_int (rne (y / ulp y))" by simp
  qed (simp add: less_imp_le)
  finally show ?thesis using assms by (simp add: fl64_def)
qed

lemma fl64_mono: "x \<le> y \<Longrightarrow> fl64 x \<le> fl64 y"
proof -
  assume xy: "x \<le> y"
  consider "0 < x" | "x \<le> 0" "0 \<le> y" | "y < 0" by linarith
  then show ?thesis
  proof cases
    case 1
    then show ?thesis using xy by (rule fl64_mono_pos)
  next
    case 2
    have "0 \<le> fl64 y" using 2 fl64_pos[of y] by (cases "y = 0") auto
    moreover have "0 \<le> fl64 (- x)" using 2 fl64_pos[of "- x"] by (cases "x = 0") auto
    ultimately show ?thesis by (simp add: fl64_minus)
  next
    case 3
    then have "fl64 (- y) \<le> fl64 (- x)" using xy by (intro fl64_mono_pos) auto
    then show ?thesis by (simp add: fl64_minus)
  qed
qed

text \<open>The relative error of one rounding.\<close>

lemma fl64_error: "\<bar>fl64 x - x\<bar> \<le> \<bar>x\<bar> / 2 ^ 53"
proof (cases "x = 0")
  case False
  have r: "\<bar>of_int (rne (x / ulp x)) - x / ulp x\<bar> * ulp x \<le> 1 / 2 * ulp x"
    by (rule mult_right_mono[OF rne_near]) (simp add: less_imp_le)
  have "fl64 x - x = (of_int (rne (x / ulp x)) - x / ulp x) * ulp x"
    using False ulp_pos[of x] by (simp add: fl64_def left_diff_distrib del: ulp_pos)
  then have "\<bar>fl64 x - x\<bar> = \<bar>of_int (rne (x / ulp x)) - x / ulp x\<bar> * ulp x"
    by (simp add: abs_mult abs_of_pos)
  moreover have "2 ^ 52 * ulp x \<le> \<bar>x\<bar>"
    using scaled_bounds(1)[of "\<bar>x\<bar>"] False by (simp add: ulp_def pos_le_divide_eq)
  ultimately have "\<bar>fl64 x - x\<bar> \<le> 1 / 2 * ulp x" "2 ^ 52 * ulp x \<le> \<bar>x\<bar>"
    using r by (simp_all only:)
  then have "\<bar>fl64 x - x\<bar> * 2 ^ 53 \<le> \<bar>x\<bar>" by simp
  then show ?thesis by (simp add: pos_le_divide_eq)
qed simp

section \<open>The interface the arithmetic of the program relies on\<close>

locale rounding =
  fixes fl :: "rat \<Rightarrow> rat"
  assumes fl_mono: "x \<le> y \<Longrightarrow> fl x \<le> fl y"
    and fl_zero: "fl 0 = 0"
    and fl_one: "fl 1 = 1"
    and fl_idem: "fl (fl x) = fl x"
begin

lemma nonneg: "0 \<le> x \<Longrightarrow> 0 \<le> fl x"
  using fl_mono[of 0 x] fl_zero by simp

lemma unit: "0 \<le> x \<Longrightarrow> x \<le> 1 \<Longrightarrow> 0 \<le> fl x \<and> fl x \<le> 1"
  using fl_mono[of x 1] fl_one nonneg by auto

lemma add_ge: "fl a = a \<Longrightarrow> 0 \<le> b \<Longrightarrow> a \<le> fl (a + b)"
  using fl_mono[of a "a + b"] by simp

lemma mult_unit_le: "fl a = a \<Longrightarrow> 0 \<le> a \<Longrightarrow> b \<le> 1 \<Longrightarrow> fl (a * b) \<le> a"
  using fl_mono[of "a * b" a] mult_left_mono[of b 1 a] by simp

lemma below: "fl b = b \<Longrightarrow> x \<le> b \<Longrightarrow> fl x \<le> b"
  using fl_mono[of x b] by simp

lemma above: "fl b = b \<Longrightarrow> b \<le> x \<Longrightarrow> b \<le> fl x"
  using fl_mono[of b x] by simp

end

interpretation dbl: rounding fl64
  by unfold_locales (auto intro: fl64_mono)

section \<open>Math.round, Math.min and Math.max\<close>

definition js_round :: "rat \<Rightarrow> int" where
  "js_round x = \<lfloor>x + 1 / 2\<rfloor>"

lemma js_round_int [simp]: "js_round (of_int n) = n"
  by (simp add: js_round_def floor_unique)

lemma js_round_mono: "x \<le> y \<Longrightarrow> js_round x \<le> js_round y"
  by (simp add: js_round_def floor_mono)

lemma js_round_close: "\<bar>x - of_int n\<bar> < 1 / 2 \<Longrightarrow> js_round x = n"
  unfolding js_round_def by (rule floor_unique) (linarith+)

definition clamp :: "rat \<Rightarrow> rat \<Rightarrow> rat \<Rightarrow> rat" where
  "clamp lo hi x = max lo (min hi x)"

lemma clamp_bounds: "lo \<le> hi \<Longrightarrow> lo \<le> clamp lo hi x \<and> clamp lo hi x \<le> hi"
  by (simp add: clamp_def)

lemma clamp_id: "lo \<le> x \<Longrightarrow> x \<le> hi \<Longrightarrow> clamp lo hi x = x"
  by (simp add: clamp_def)

end
