(* ===== verification/Contracts.thy ===== *)
theory Contracts
  imports Prelude Float64 "HOL-Library.Char_ord" "HOL-Library.List_Lexorder"
begin

text \<open>
  The shared data model of \<open>packages/contracts/src\<close>: enumerations, error taxonomy,
  scan and cost records, queue contracts, findings, fixes, compliance taxonomy and
  model rate card. Optional fields are options; identifiers, timestamps and paths
  are strings; token counts are integers (the schemas ask for non-negative
  integers) and money is a rational holding the value of a double.
\<close>

section \<open>Enumerations (enums.ts)\<close>

datatype scan_mode = Full | Diff

datatype exposure = Public | Authed

datatype proof_type = StaticProofT | LiveProofT

datatype risk_class = Auto_eligible | Human_required

datatype fix_status = Proposed | Pr_open | Merged | Fix_rejected

datatype finding_status = Candidate | Probable | Confirmed | Unconfirmed

datatype severity = Info | Low | Medium | High | Critical

datatype role = Operator | Approver | Viewer

datatype gate_state = Not_started | Estimate_pending | Estimate_approved | Gate_running
  | Fix_gate_pending | Auto_approved | Approved | Gate_rejected | Blocked

datatype scan_status = Queued | Running | Paused | Completed | Failed | Cancelled | Partial

datatype layer_id = Layer0 | Layer1 | Layer2 | Layer3 | Layer4 | Layer5

datatype http_method = GET | POST | PUT | PATCH | DELETE | OPTIONS | HEAD | ALL_METHODS

datatype auth_state = Auth_public | Authenticated | Role_gated | Auth_unknown

datatype tool_source = Semgrep | Gitleaks | Osv | Ghsa | Trivy | Custom | Llm_triage

datatype taint_source_kind = Http_request | Query_param | Path_param | Request_body
  | Request_header | Cookie | Env | File_read | Cli_arg | Websocket | Third_party_response

datatype taint_sink_kind = Sql_query | Orm_raw_query | Command_exec | Fs_write | Fs_read
  | Http_response | Template_render | Html_render | Redirect | Eval | Deserialize | Logger
  | Http_client | Crypto

fun layer_index :: "layer_id \<Rightarrow> nat" where
  "layer_index Layer0 = 0"
| "layer_index Layer1 = 1"
| "layer_index Layer2 = 2"
| "layer_index Layer3 = 3"
| "layer_index Layer4 = 4"
| "layer_index Layer5 = 5"

fun layer_str :: "layer_id \<Rightarrow> string" where
  "layer_str Layer0 = ''layer0''"
| "layer_str Layer1 = ''layer1''"
| "layer_str Layer2 = ''layer2''"
| "layer_str Layer3 = ''layer3''"
| "layer_str Layer4 = ''layer4''"
| "layer_str Layer5 = ''layer5''"

fun severity_index :: "severity \<Rightarrow> nat" where
  "severity_index Info = 0"
| "severity_index Low = 1"
| "severity_index Medium = 2"
| "severity_index High = 3"
| "severity_index Critical = 4"

fun mode_str :: "scan_mode \<Rightarrow> string" where
  "mode_str Full = ''full''"
| "mode_str Diff = ''diff''"

fun gate_str :: "gate_state \<Rightarrow> string" where
  "gate_str Not_started = ''not_started''"
| "gate_str Estimate_pending = ''estimate_pending''"
| "gate_str Estimate_approved = ''estimate_approved''"
| "gate_str Gate_running = ''running''"
| "gate_str Fix_gate_pending = ''fix_gate_pending''"
| "gate_str Auto_approved = ''auto_approved''"
| "gate_str Approved = ''approved''"
| "gate_str Gate_rejected = ''rejected''"
| "gate_str Blocked = ''blocked''"

lemma layer_index_inj: "layer_index l = layer_index m \<longleftrightarrow> l = m"
  by (cases l; cases m) auto

lemma layer_str_inj: "layer_str l = layer_str m \<longleftrightarrow> l = m"
  by (cases l; cases m) auto

lemma severity_index_inj: "severity_index l = severity_index m \<longleftrightarrow> l = m"
  by (cases l; cases m) auto

instantiation layer_id :: linorder
begin

definition less_eq_layer_id :: "layer_id \<Rightarrow> layer_id \<Rightarrow> bool" where
  "less_eq_layer_id l m \<longleftrightarrow> layer_index l \<le> layer_index m"

definition less_layer_id :: "layer_id \<Rightarrow> layer_id \<Rightarrow> bool" where
  "less_layer_id l m \<longleftrightarrow> layer_index l < layer_index m"

instance
  by intro_classes (auto simp: less_eq_layer_id_def less_layer_id_def layer_index_inj)

end

instantiation severity :: linorder
begin

definition less_eq_severity :: "severity \<Rightarrow> severity \<Rightarrow> bool" where
  "less_eq_severity l m \<longleftrightarrow> severity_index l \<le> severity_index m"

definition less_severity :: "severity \<Rightarrow> severity \<Rightarrow> bool" where
  "less_severity l m \<longleftrightarrow> severity_index l < severity_index m"

instance
  by intro_classes (auto simp: less_eq_severity_def less_severity_def severity_index_inj)

end

section \<open>JSON values\<close>

text \<open>
  \<open>JUndef\<close> is a property present with the value \<open>undefined\<close>, which
  serialization drops. Object properties keep their insertion order.
\<close>

datatype json = JNull | JUndef | JBool bool | JNum rat | JStr string | JArr "json list"
  | JObj "(string \<times> json) list"

section \<open>Error taxonomy (errors.ts)\<close>

datatype error_code = BUDGET_EXCEEDED | EGRESS_BLOCKED | DAST_TARGET_NOT_ALLOWLISTED
  | GATE_NOT_PASSED | KEY_TIER_REJECTED | MODEL_BELOW_FLOOR | KILL_SWITCH_ACTIVATED
  | SCAN_NOT_RESUMABLE | CONFIG_VALIDATION | PROVIDER_NOT_CONFIGURED
  | HUMAN_APPROVAL_REQUIRED | RATE_LIMIT_EXCEEDED | NOT_IMPLEMENTED
  | REQUIRED_DETECTOR_UNAVAILABLE | INTERNAL

fun error_code_str :: "error_code \<Rightarrow> string" where
  "error_code_str BUDGET_EXCEEDED = ''BUDGET_EXCEEDED''"
| "error_code_str EGRESS_BLOCKED = ''EGRESS_BLOCKED''"
| "error_code_str DAST_TARGET_NOT_ALLOWLISTED = ''DAST_TARGET_NOT_ALLOWLISTED''"
| "error_code_str GATE_NOT_PASSED = ''GATE_NOT_PASSED''"
| "error_code_str KEY_TIER_REJECTED = ''KEY_TIER_REJECTED''"
| "error_code_str MODEL_BELOW_FLOOR = ''MODEL_BELOW_FLOOR''"
| "error_code_str KILL_SWITCH_ACTIVATED = ''KILL_SWITCH_ACTIVATED''"
| "error_code_str SCAN_NOT_RESUMABLE = ''SCAN_NOT_RESUMABLE''"
| "error_code_str CONFIG_VALIDATION = ''CONFIG_VALIDATION''"
| "error_code_str PROVIDER_NOT_CONFIGURED = ''PROVIDER_NOT_CONFIGURED''"
| "error_code_str HUMAN_APPROVAL_REQUIRED = ''HUMAN_APPROVAL_REQUIRED''"
| "error_code_str RATE_LIMIT_EXCEEDED = ''RATE_LIMIT_EXCEEDED''"
| "error_code_str NOT_IMPLEMENTED = ''NOT_IMPLEMENTED''"
| "error_code_str REQUIRED_DETECTOR_UNAVAILABLE = ''REQUIRED_DETECTOR_UNAVAILABLE''"
| "error_code_str INTERNAL = ''INTERNAL''"

record montr_error =
  me_code :: error_code
  me_message :: string
  me_retriable :: bool
  me_details :: "(string \<times> json) list option"

record error_envelope =
  env_code :: error_code
  env_message :: string
  env_retriable :: bool
  env_details :: "(string \<times> json) list option"

text \<open>Anything may be thrown: a typed error, or an \<open>Error\<close> with a message.\<close>

datatype js_error = Typed montr_error | Untyped string

definition to_envelope :: "montr_error \<Rightarrow> error_envelope" where
  "to_envelope e = \<lparr>env_code = me_code e, env_message = me_message e,
                    env_retriable = me_retriable e, env_details = me_details e\<rparr>"

fun is_montr_error :: "js_error \<Rightarrow> bool" where
  "is_montr_error (Typed e) = True"
| "is_montr_error (Untyped m) = False"

definition MontrError :: "error_code \<Rightarrow> string \<Rightarrow> bool option \<Rightarrow> (string \<times> json) list option
    \<Rightarrow> montr_error" where
  "MontrError c m r d = \<lparr>me_code = c, me_message = m,
                         me_retriable = (case r of None \<Rightarrow> False | Some b \<Rightarrow> b), me_details = d\<rparr>"

definition BudgetExceededError :: "string \<Rightarrow> (string \<times> json) list option \<Rightarrow> montr_error" where
  "BudgetExceededError m d = MontrError BUDGET_EXCEEDED m (Some False) d"

definition EgressBlockedError :: "string \<Rightarrow> (string \<times> json) list option \<Rightarrow> montr_error" where
  "EgressBlockedError m d = MontrError EGRESS_BLOCKED m (Some False) d"

definition DastTargetNotAllowlistedError :: "string \<Rightarrow> (string \<times> json) list option \<Rightarrow> montr_error" where
  "DastTargetNotAllowlistedError m d = MontrError DAST_TARGET_NOT_ALLOWLISTED m (Some False) d"

definition GateNotPassedError :: "string \<Rightarrow> (string \<times> json) list option \<Rightarrow> montr_error" where
  "GateNotPassedError m d = MontrError GATE_NOT_PASSED m (Some False) d"

definition KeyTierRejectedError :: "string \<Rightarrow> (string \<times> json) list option \<Rightarrow> montr_error" where
  "KeyTierRejectedError m d = MontrError KEY_TIER_REJECTED m (Some False) d"

definition ModelBelowFloorError :: "string \<Rightarrow> (string \<times> json) list option \<Rightarrow> montr_error" where
  "ModelBelowFloorError m d = MontrError MODEL_BELOW_FLOOR m (Some False) d"

definition KillSwitchActivatedError :: "string \<Rightarrow> (string \<times> json) list option \<Rightarrow> montr_error" where
  "KillSwitchActivatedError m d = MontrError KILL_SWITCH_ACTIVATED m (Some False) d"

definition ScanNotResumableError :: "string \<Rightarrow> (string \<times> json) list option \<Rightarrow> montr_error" where
  "ScanNotResumableError m d = MontrError SCAN_NOT_RESUMABLE m (Some False) d"

definition ConfigValidationError :: "string \<Rightarrow> (string \<times> json) list option \<Rightarrow> montr_error" where
  "ConfigValidationError m d = MontrError CONFIG_VALIDATION m (Some False) d"

definition ProviderNotConfiguredError :: "string \<Rightarrow> (string \<times> json) list option \<Rightarrow> montr_error" where
  "ProviderNotConfiguredError m d = MontrError PROVIDER_NOT_CONFIGURED m (Some False) d"

definition NotImplementedError :: "string \<Rightarrow> (string \<times> json) list option \<Rightarrow> montr_error" where
  "NotImplementedError m d = MontrError NOT_IMPLEMENTED m (Some False) d"

definition HumanApprovalRequiredError :: "string \<Rightarrow> (string \<times> json) list option \<Rightarrow> montr_error" where
  "HumanApprovalRequiredError m d = MontrError HUMAN_APPROVAL_REQUIRED m (Some False) d"

definition RateLimitExceededError :: "string \<Rightarrow> (string \<times> json) list option \<Rightarrow> montr_error" where
  "RateLimitExceededError m d = MontrError RATE_LIMIT_EXCEEDED m (Some True) d"

definition RequiredDetectorUnavailableError :: "string \<Rightarrow> (string \<times> json) list option \<Rightarrow> montr_error" where
  "RequiredDetectorUnavailableError m d = MontrError REQUIRED_DETECTOR_UNAVAILABLE m (Some False) d"

lemmas montr_error_defs = MontrError_def ConfigValidationError_def ProviderNotConfiguredError_def
  NotImplementedError_def BudgetExceededError_def EgressBlockedError_def
  DastTargetNotAllowlistedError_def GateNotPassedError_def KeyTierRejectedError_def
  ModelBelowFloorError_def KillSwitchActivatedError_def ScanNotResumableError_def
  HumanApprovalRequiredError_def RateLimitExceededError_def RequiredDetectorUnavailableError_def

section \<open>Model providers, usage and rate card (llm.ts)\<close>

datatype provider = Anthropic | Bedrock | Vertex | Azure | Openai | Google | Xai | Moonshot
  | Zhipu | Deepseek

datatype model_tier = Triage | Default_tier | Confirmation

datatype key_tier = Enterprise | Key_unknown | Data_retaining

record token_usage =
  inputTokens :: int
  outputTokens :: int
  cacheReadTokens :: "int option"
  cacheWriteTokens :: "int option"
  totalTokens :: int

definition usage_valid :: "token_usage \<Rightarrow> bool" where
  "usage_valid u \<longleftrightarrow> 0 \<le> inputTokens u \<and> 0 \<le> outputTokens u \<and> 0 \<le> totalTokens u
     \<and> (\<forall>n \<in> set_option (cacheReadTokens u). 0 \<le> n)
     \<and> (\<forall>n \<in> set_option (cacheWriteTokens u). 0 \<le> n)"

record model_cost_rate =
  rate_provider :: provider
  rate_modelId :: string
  inputPerMillionUsd :: rat
  outputPerMillionUsd :: rat

definition mk_rate :: "provider \<Rightarrow> string \<Rightarrow> rat \<Rightarrow> rat \<Rightarrow> model_cost_rate" where
  "mk_rate p m i u = \<lparr>rate_provider = p, rate_modelId = m, inputPerMillionUsd = i,
                       outputPerMillionUsd = u\<rparr>"

definition MODEL_COST_RATES :: "model_cost_rate list" where
  "MODEL_COST_RATES =
     [mk_rate Anthropic ''claude-opus-5'' 5 25,
      mk_rate Anthropic ''claude-opus-4-8'' 5 25,
      mk_rate Anthropic ''claude-fable-5'' 10 50,
      mk_rate Anthropic ''claude-sonnet-5'' 3 15,
      mk_rate Anthropic ''claude-haiku-4-5-20251001'' 1 5]"

definition UNKNOWN_MODEL_FALLBACK_RATE :: model_cost_rate where
  "UNKNOWN_MODEL_FALLBACK_RATE = mk_rate Anthropic ''__unknown_model_fallback__'' 10 50"

fun RECOMMENDED_MODEL :: "model_tier \<Rightarrow> string" where
  "RECOMMENDED_MODEL Triage = ''claude-haiku-4-5''"
| "RECOMMENDED_MODEL Default_tier = ''claude-sonnet-5''"
| "RECOMMENDED_MODEL Confirmation = ''claude-opus-5''"

lemma rate_card_ceiling:
  "r \<in> set MODEL_COST_RATES \<Longrightarrow>
     0 \<le> inputPerMillionUsd r \<and> inputPerMillionUsd r \<le> inputPerMillionUsd UNKNOWN_MODEL_FALLBACK_RATE
     \<and> 0 \<le> outputPerMillionUsd r \<and> outputPerMillionUsd r \<le> outputPerMillionUsd UNKNOWN_MODEL_FALLBACK_RATE"
  by (auto simp: MODEL_COST_RATES_def UNKNOWN_MODEL_FALLBACK_RATE_def mk_rate_def)

section \<open>Cost and budget (cost.ts)\<close>

datatype budget_enforcement = Hard_halt | Warn_only

record cost_line_item =
  cl_key :: string
  cl_usage :: token_usage
  cl_usd :: rat

record cost_estimate =
  ce_scanId :: "string option"
  ce_mode :: scan_mode
  projectedInputTokens :: int
  projectedOutputTokens :: int
  projectedTotalTokens :: int
  projectedUsd :: rat
  projectedWallClockSeconds :: rat
  ce_byLayer :: "cost_line_item list"
  ce_createdAt :: string

record cost_actual =
  ca_scanId :: string
  ca_usage :: token_usage
  actualUsd :: rat
  wallClockSeconds :: rat
  ca_byLayer :: "cost_line_item list"
  ca_byModel :: "cost_line_item list"
  ca_updatedAt :: string

record budget_policy =
  maxUsd :: "rat option"
  maxTotalTokens :: "int option"
  enforcement :: budget_enforcement
  requireEstimateApproval :: bool
  warnThresholdPct :: rat

definition budget_policy_valid :: "budget_policy \<Rightarrow> bool" where
  "budget_policy_valid p \<longleftrightarrow>
     (\<forall>m \<in> set_option (maxUsd p). 0 < m) \<and> (\<forall>m \<in> set_option (maxTotalTokens p). 0 < m)
     \<and> 0 \<le> warnThresholdPct p \<and> warnThresholdPct p \<le> 1"

end
