(* ===== verification/Taxonomy.thy ===== *)
theory Taxonomy
  imports Contracts
begin

text \<open>
  \<open>packages/contracts/src/compliance.ts\<close>: the normalized finding categories, their
  CWE and OWASP mapping, and the JSON values that audit metadata is made of.
\<close>

section \<open>OWASP Top 10\<close>

datatype owasp_id = A01 | A02 | A03 | A04 | A05 | A06 | A07 | A08 | A09 | A10

fun OWASP_TITLES :: "owasp_id \<Rightarrow> string" where
  "OWASP_TITLES A01 = ''Broken Access Control''"
| "OWASP_TITLES A02 = ''Cryptographic Failures''"
| "OWASP_TITLES A03 = ''Injection''"
| "OWASP_TITLES A04 = ''Insecure Design''"
| "OWASP_TITLES A05 = ''Security Misconfiguration''"
| "OWASP_TITLES A06 = ''Vulnerable and Outdated Components''"
| "OWASP_TITLES A07 = ''Identification and Authentication Failures''"
| "OWASP_TITLES A08 = ''Software and Data Integrity Failures''"
| "OWASP_TITLES A09 = ''Security Logging and Monitoring Failures''"
| "OWASP_TITLES A10 = ''Server-Side Request Forgery (SSRF)''"

section \<open>Categories\<close>

datatype category = Sql_injection | Nosql_injection | Command_injection | Xss | Ssrf
  | Path_traversal | Insecure_deserialization | Hardcoded_secret | Vulnerable_dependency
  | Permissive_cors | Missing_security_headers | Insecure_cookie | Weak_crypto
  | Broken_access_control | Broken_authentication | Open_redirect | Xxe | Csrf
  | Sensitive_data_exposure | Insufficient_logging | Idor | Mass_assignment
  | Rate_limit_missing | Prompt_injection | Insecure_configuration | Other_category

record taxonomy_entry =
  tx_title :: string
  tx_cwe :: "string list"
  tx_owasp :: owasp_id

definition tx :: "string \<Rightarrow> string list \<Rightarrow> owasp_id \<Rightarrow> taxonomy_entry" where
  "tx t c w = \<lparr>tx_title = t, tx_cwe = c, tx_owasp = w\<rparr>"

fun CATEGORY_TAXONOMY :: "category \<Rightarrow> taxonomy_entry" where
  "CATEGORY_TAXONOMY Sql_injection = tx ''SQL Injection'' [''CWE-89''] A03"
| "CATEGORY_TAXONOMY Nosql_injection = tx ''NoSQL Injection'' [''CWE-943''] A03"
| "CATEGORY_TAXONOMY Command_injection = tx ''OS Command Injection'' [''CWE-78''] A03"
| "CATEGORY_TAXONOMY Xss = tx ''Cross-Site Scripting'' [''CWE-79''] A03"
| "CATEGORY_TAXONOMY Ssrf = tx ''Server-Side Request Forgery'' [''CWE-918''] A10"
| "CATEGORY_TAXONOMY Path_traversal = tx ''Path Traversal'' [''CWE-22''] A01"
| "CATEGORY_TAXONOMY Insecure_deserialization = tx ''Insecure Deserialization'' [''CWE-502''] A08"
| "CATEGORY_TAXONOMY Hardcoded_secret = tx ''Use of Hard-coded Credentials'' [''CWE-798''] A07"
| "CATEGORY_TAXONOMY Vulnerable_dependency =
     tx ''Vulnerable / Outdated Component'' [''CWE-1104'', ''CWE-937''] A06"
| "CATEGORY_TAXONOMY Permissive_cors = tx ''Permissive CORS'' [''CWE-942''] A05"
| "CATEGORY_TAXONOMY Missing_security_headers = tx ''Missing Security Headers'' [''CWE-693''] A05"
| "CATEGORY_TAXONOMY Insecure_cookie =
     tx ''Insecure Cookie Configuration'' [''CWE-614'', ''CWE-1004''] A05"
| "CATEGORY_TAXONOMY Weak_crypto = tx ''Weak Cryptography'' [''CWE-327''] A02"
| "CATEGORY_TAXONOMY Broken_access_control = tx ''Broken Access Control'' [''CWE-284''] A01"
| "CATEGORY_TAXONOMY Broken_authentication = tx ''Broken Authentication'' [''CWE-287''] A07"
| "CATEGORY_TAXONOMY Open_redirect = tx ''Open Redirect'' [''CWE-601''] A01"
| "CATEGORY_TAXONOMY Xxe = tx ''XML External Entities'' [''CWE-611''] A05"
| "CATEGORY_TAXONOMY Csrf = tx ''Cross-Site Request Forgery'' [''CWE-352''] A01"
| "CATEGORY_TAXONOMY Sensitive_data_exposure = tx ''Sensitive Data Exposure'' [''CWE-200''] A02"
| "CATEGORY_TAXONOMY Insufficient_logging =
     tx ''Insufficient Logging & Monitoring'' [''CWE-778''] A09"
| "CATEGORY_TAXONOMY Idor = tx ''Insecure Direct Object Reference'' [''CWE-639''] A01"
| "CATEGORY_TAXONOMY Mass_assignment = tx ''Mass Assignment'' [''CWE-915''] A08"
| "CATEGORY_TAXONOMY Rate_limit_missing = tx ''Missing Rate Limiting'' [''CWE-770''] A04"
| "CATEGORY_TAXONOMY Prompt_injection = tx ''Prompt Injection'' [''CWE-1427''] A03"
| "CATEGORY_TAXONOMY Insecure_configuration = tx ''Insecure Configuration'' [''CWE-16''] A05"
| "CATEGORY_TAXONOMY Other_category = tx ''Other'' [] A04"

record compliance_mapping =
  cm_category :: category
  cm_cwe :: "string list"
  cm_owasp :: owasp_id
  cm_owaspTitle :: string

definition complianceForCategory :: "category \<Rightarrow> compliance_mapping" where
  "complianceForCategory c = (let entry = CATEGORY_TAXONOMY c in
     \<lparr>cm_category = c, cm_cwe = tx_cwe entry, cm_owasp = tx_owasp entry,
      cm_owaspTitle = OWASP_TITLES (tx_owasp entry)\<rparr>)"

end
