(* ===== verification/ScanContracts.thy ===== *)
theory ScanContracts
  imports Contracts Taxonomy
begin

text \<open>
  \<open>scan.ts\<close>, \<open>queue.ts\<close>, \<open>findings.ts\<close>, \<open>fix.ts\<close>, \<open>layers.ts\<close>,
  \<open>audit.ts\<close> and the part of \<open>packages/config/src/schema.ts\<close> that the modelled
  components read: the scan row, job payloads, retry policies and queue names,
  pipeline events, the kill signal, the resume token, the finding tiers, fixes and
  pull requests, layer outputs and audit records.
\<close>

section \<open>Scan (scan.ts)\<close>

record scan_scope =
  scope_mode :: scan_mode
  includePaths :: "string list"
  excludePaths :: "string list"
  changedFiles :: "string list"
  reachableFromChanges :: bool
  routeCount :: "nat option"
  fileCount :: "nat option"
  stagingUrl :: "string option"

record scan =
  sc_id :: string
  sc_clientId :: string
  sc_appMapId :: "string option"
  sc_repo :: string
  sc_branch :: string
  sc_commitSha :: "string option"
  sc_mode :: scan_mode
  sc_scope :: scan_scope
  sc_status :: scan_status
  sc_gateState :: gate_state
  sc_operator :: string
  sc_approver :: "string option"
  sc_budgetPolicy :: "budget_policy option"
  sc_costEstimate :: "cost_estimate option"
  sc_costActual :: "cost_actual option"
  sc_startedAt :: "string option"
  sc_finishedAt :: "string option"
  sc_createdAt :: string

text \<open>The string checks of \<open>ScanSchema.parse\<close> that a typed caller can still violate.\<close>

definition scan_parse :: "scan \<Rightarrow> js_error + scan" where
  "scan_parse s =
     (if sc_id s = [] \<or> sc_clientId s = [] \<or> sc_repo s = [] \<or> sc_branch s = []
         \<or> sc_operator s = [] \<or> sc_approver s = Some [] \<or> sc_appMapId s = Some []
      then Inl (Untyped ''ZodError'') else Inr s)"

section \<open>Configuration (config/src/schema.ts)\<close>

record budget_config =
  bc_maxUsdPerScan :: "rat option"
  bc_maxTokensPerScan :: "int option"
  bc_enforcement :: budget_enforcement
  bc_requireEstimateApproval :: bool
  bc_warnThresholdPct :: rat

record auto_fix_config =
  af_enabled :: bool
  af_allowedRiskClasses :: "risk_class list"
  af_humanRequiredCategoriesAlways :: "category list"

record dast_scope_contract =
  maxRequestsPerScan :: nat
  maxConcurrentRequests :: nat
  maxRequestsPerSecond :: rat
  maxMutatingRequests :: nat

record dast_config =
  dc_enabled :: bool
  dc_allowlist :: "string list"
  dc_scope :: dast_scope_contract
  dc_requireApprover :: bool

record rbac_config =
  approverRequiredForGate :: bool
  approverRequiredForDast :: bool
  sessionTtlMinutes :: nat

record montr_config =
  cfg_clientId :: string
  cfg_budget :: budget_config
  cfg_autoFix :: auto_fix_config
  cfg_dast :: dast_config
  cfg_rbac :: rbac_config

definition default_budget_config :: budget_config where
  "default_budget_config = \<lparr>bc_maxUsdPerScan = None, bc_maxTokensPerScan = None,
     bc_enforcement = Hard_halt, bc_requireEstimateApproval = True,
     bc_warnThresholdPct = fl64 (4 / 5)\<rparr>"

definition default_auto_fix_config :: auto_fix_config where
  "default_auto_fix_config = \<lparr>af_enabled = False, af_allowedRiskClasses = [Auto_eligible],
     af_humanRequiredCategoriesAlways =
       [Broken_access_control, Broken_authentication, Weak_crypto, Idor, Csrf]\<rparr>"

definition default_dast_scope :: dast_scope_contract where
  "default_dast_scope = \<lparr>maxRequestsPerScan = 500, maxConcurrentRequests = 2,
     maxRequestsPerSecond = 5, maxMutatingRequests = 0\<rparr>"

definition default_dast_config :: dast_config where
  "default_dast_config = \<lparr>dc_enabled = False, dc_allowlist = [],
     dc_scope = default_dast_scope, dc_requireApprover = True\<rparr>"

definition default_rbac_config :: rbac_config where
  "default_rbac_config = \<lparr>approverRequiredForGate = True, approverRequiredForDast = True,
     sessionTtlMinutes = 60\<rparr>"

definition default_config :: "string \<Rightarrow> montr_config" where
  "default_config client = \<lparr>cfg_clientId = client, cfg_budget = default_budget_config,
     cfg_autoFix = default_auto_fix_config, cfg_dast = default_dast_config,
     cfg_rbac = default_rbac_config\<rparr>"

section \<open>Findings (findings.ts)\<close>

record source_location =
  loc_file :: string
  loc_line :: nat
  loc_endLine :: "nat option"
  loc_column :: "nat option"
  loc_endColumn :: "nat option"
  loc_symbol :: "string option"

record candidate_finding =
  cf_id :: string
  cf_scanId :: string
  cf_clientId :: string
  cf_source :: tool_source
  cf_ruleId :: string
  cf_category :: category
  cf_cwe :: "string list"
  cf_location :: source_location
  cf_rawSeverity :: severity
  cf_evidenceSnippet :: string
  cf_title :: "string option"
  cf_createdAt :: string
  cf_metadata :: "(string \<times> json) list option"

record probable_finding =
  pf_id :: string
  pf_scanId :: string
  pf_clientId :: string
  pf_rootCauseId :: string
  pf_category :: category
  pf_mergedCandidateIds :: "string list"
  pf_reachabilityHypothesis :: string
  pf_exploitHypothesis :: string
  pf_exposure :: exposure
  pf_authGate :: "string option"
  pf_routeId :: "string option"
  pf_location :: source_location
  pf_reachabilityScore :: rat
  pf_exposureScore :: rat
  pf_impactScore :: rat
  pf_rank :: nat
  pf_createdAt :: string

record data_flow_hop =
  hop_location :: source_location
  hop_authState :: auth_state
  hop_transform :: "string option"
  hop_note :: "string option"

record http_request =
  rq_method :: string
  rq_url :: string
  rq_headers :: "(string \<times> string) list option"
  rq_bodySnippet :: "string option"

record http_response =
  rs_status :: int
  rs_headers :: "(string \<times> string) list option"
  rs_bodySnippet :: "string option"

record http_exchange =
  ex_request :: http_request
  ex_response :: http_response
  ex_note :: "string option"

datatype proof_artifact =
    Static_proof string "data_flow_hop list" "string list"
  | Live_proof string "http_exchange list"

fun proof_kind :: "proof_artifact \<Rightarrow> proof_type" where
  "proof_kind (Static_proof a d s) = StaticProofT"
| "proof_kind (Live_proof t x) = LiveProofT"

record confirmed_finding =
  cn_id :: string
  cn_scanId :: string
  cn_clientId :: string
  cn_probableId :: "string option"
  cn_title :: string
  cn_category :: category
  cn_cwe :: "string list"
  cn_owasp :: "owasp_id option"
  cn_severity :: severity
  cn_exposure :: exposure
  cn_location :: source_location
  cn_impact :: string
  cn_proofType :: proof_type
  cn_proofArtifact :: proof_artifact
  cn_createdAt :: string

text \<open>The \<open>superRefine\<close> clause of the schema.\<close>

definition confirmed_ok :: "confirmed_finding \<Rightarrow> bool" where
  "confirmed_ok f \<longleftrightarrow> cn_proofType f = proof_kind (cn_proofArtifact f)"

record unconfirmed_finding =
  uf_probable :: probable_finding
  uf_unconfirmedReason :: string

section \<open>Fixes and pull requests (fix.ts)\<close>

record replay_side =
  rp_exploitSucceeded :: bool
  rp_exchange :: http_exchange

datatype replay_harness = Dockerfile | Synthesized_node

record container_replay =
  cy_attempted :: bool
  cy_replayed :: bool
  cy_category :: "string option"
  cy_harness :: "replay_harness option"
  cy_probeReplayed :: "(string \<times> string) option"
  cy_prePatch :: "replay_side option"
  cy_postPatch :: "replay_side option"
  cy_reason :: "string option"
  cy_error :: "string option"

record proof_of_fix_test =
  pt_filePath :: "string option"
  pt_framework :: "string option"
  pt_code :: string
  pt_failsPrePatch :: bool
  pt_passesPostPatch :: bool
  pt_containerReplay :: "container_replay option"

record fix_record =
  fx_id :: string
  fx_scanId :: string
  fx_clientId :: string
  fx_confirmedFindingId :: string
  fx_patch :: string
  fx_rationale :: string
  fx_proofOfFixTest :: proof_of_fix_test
  fx_riskClass :: risk_class
  fx_riskClassRationale :: string
  fx_status :: fix_status
  fx_pullRequestId :: "string option"
  fx_createdAt :: string
  fx_updatedAt :: "string option"

datatype vcs_provider = Github | Gitlab

datatype pr_status = Pr_draft | Pr_opened | Pr_merged | Pr_closed

record pull_request =
  pr_id :: string
  pr_scanId :: string
  pr_clientId :: string
  pr_provider :: vcs_provider
  pr_url :: "string option"
  pr_number :: "nat option"
  pr_branch :: string
  pr_baseBranch :: string
  pr_title :: string
  pr_bodySummary :: string
  pr_fixIds :: "string list"
  pr_status :: pr_status
  pr_createdAt :: string

end
