(* ===== verification/QueueContracts.thy ===== *)
theory QueueContracts
  imports ScanContracts
begin

text \<open>
  \<open>queue.ts\<close>, \<open>layers.ts\<close> and \<open>audit.ts\<close>: queue names and their per-tenant
  variant, job payloads, retry policies, idempotency keys, pipeline events, the kill
  signal, the resume token, layer outputs and the audit record.
\<close>

section \<open>Queue names\<close>

fun QUEUE_NAMES :: "layer_id \<Rightarrow> string" where
  "QUEUE_NAMES Layer0 = ''montr.layer0''"
| "QUEUE_NAMES Layer1 = ''montr.layer1''"
| "QUEUE_NAMES Layer2 = ''montr.layer2''"
| "QUEUE_NAMES Layer3 = ''montr.layer3''"
| "QUEUE_NAMES Layer4 = ''montr.layer4''"
| "QUEUE_NAMES Layer5 = ''montr.layer5''"

text \<open>The character class \<open>[A-Za-z0-9_-]\<close> and the anchored, non-empty match.\<close>

definition queue_name_char :: "char \<Rightarrow> bool" where
  "queue_name_char c \<longleftrightarrow>
     (CHR ''A'' \<le> c \<and> c \<le> CHR ''Z'') \<or> (CHR ''a'' \<le> c \<and> c \<le> CHR ''z'')
     \<or> (CHR ''0'' \<le> c \<and> c \<le> CHR ''9'') \<or> c = CHR ''_'' \<or> c = CHR ''-''"

definition sanitizeClientIdForQueueName :: "string \<Rightarrow> js_error + string" where
  "sanitizeClientIdForQueueName clientId =
     (if clientId \<noteq> [] \<and> list_all queue_name_char clientId then Inr clientId
      else Inl (Untyped (''resolveQueueName: clientId '' @ clientId @
             '' contains characters outside [A-Za-z0-9_-], which is unsafe to use in a BullMQ/Redis queue name'')))"

definition resolveQueueName :: "layer_id \<Rightarrow> string \<Rightarrow> bool \<Rightarrow> js_error + string" where
  "resolveQueueName layer clientId tenantIsolation =
     (if \<not> tenantIsolation then Inr (QUEUE_NAMES layer)
      else ebind (sanitizeClientIdForQueueName clientId)
             (\<lambda>c. Inr (QUEUE_NAMES layer @ ''.'' @ c)))"

section \<open>Retry policies and idempotency keys\<close>

datatype backoff_type = Exponential | Fixed

record retry_policy =
  rp_attempts :: nat
  rp_type :: backoff_type
  rp_delay :: nat
  rp_removeOnComplete :: nat

fun RETRY_POLICIES :: "layer_id \<Rightarrow> retry_policy" where
  "RETRY_POLICIES Layer3 =
     \<lparr>rp_attempts = 2, rp_type = Fixed, rp_delay = 5000, rp_removeOnComplete = 100\<rparr>"
| "RETRY_POLICIES _ =
     \<lparr>rp_attempts = 3, rp_type = Exponential, rp_delay = 2000, rp_removeOnComplete = 100\<rparr>"

definition buildIdempotencyKey :: "string \<Rightarrow> layer_id \<Rightarrow> string \<Rightarrow> string" where
  "buildIdempotencyKey scanId layer discriminator =
     scanId @ '':'' @ layer_str layer @ '':'' @ discriminator"

section \<open>Job payloads\<close>

datatype layer_payload =
    P0 string string scan_mode scan_scope
  | P1 string
  | P2
  | P3 bool "string option"
  | P4
  | P5 bool

record layer_job =
  jb_scanId :: string
  jb_clientId :: string
  jb_idempotencyKey :: string
  jb_attempt :: nat
  jb_resumeTokenRef :: "string option"
  jb_payload :: layer_payload

fun payload_layer :: "layer_payload \<Rightarrow> layer_id" where
  "payload_layer (P0 r b m s) = Layer0"
| "payload_layer (P1 a) = Layer1"
| "payload_layer P2 = Layer2"
| "payload_layer (P3 a u) = Layer3"
| "payload_layer P4 = Layer4"
| "payload_layer (P5 a) = Layer5"

abbreviation jb_layer :: "layer_job \<Rightarrow> layer_id" where
  "jb_layer j \<equiv> payload_layer (jb_payload j)"

section \<open>Pipeline events\<close>

datatype gate_kind = Estimate_gate | Fix_gate

datatype pipeline_event =
    Scan_started string string
  | Layer_started string layer_id string
  | Progress string layer_id rat string string
  | Layer_completed string layer_id string
  | Gate_required string gate_kind string
  | Budget_warning string rat "rat option" string
  | Budget_exceeded string rat "rat option" string
  | Killed string string string
  | Failed_event string "layer_id option" error_envelope string
  | Resumed string layer_id string
  | Scan_completed string bool string

fun event_scanId :: "pipeline_event \<Rightarrow> string" where
  "event_scanId (Scan_started s t) = s"
| "event_scanId (Layer_started s l t) = s"
| "event_scanId (Progress s l p ph t) = s"
| "event_scanId (Layer_completed s l t) = s"
| "event_scanId (Gate_required s g t) = s"
| "event_scanId (Budget_warning s u c t) = s"
| "event_scanId (Budget_exceeded s u c t) = s"
| "event_scanId (Killed s r t) = s"
| "event_scanId (Failed_event s l e t) = s"
| "event_scanId (Resumed s l t) = s"
| "event_scanId (Scan_completed s p t) = s"

section \<open>Kill signal and resume token\<close>

datatype kill_scope = Scan_scope | Global_scope

record kill_signal =
  ks_scope :: kill_scope
  ks_scanId :: "string option"
  ks_reason :: string
  ks_requestedBy :: string
  ks_requestedByRole :: "role option"
  ks_at :: string

record resume_token =
  rt_id :: "string option"
  rt_scanId :: string
  rt_completedLayers :: "layer_id list"
  rt_lastCompletedLayer :: "layer_id option"
  rt_checkpointRef :: "string option"
  rt_updatedAt :: string

section \<open>Layer outputs (layers.ts)\<close>

text \<open>
  Of the application map the orchestrator reads the id and the commit; its other
  properties, the purple-team entries of layer 3 and the report of layer 5 are carried as
  they are, as JSON.
\<close>

record app_map_ref =
  am_id :: string
  am_commitSha :: "string option"
  am_rest :: json

datatype layer_output =
    Layer0_output app_map_ref scan_scope cost_estimate
  | Layer1_output "candidate_finding list"
  | Layer2_output "probable_finding list" "candidate_finding list"
  | Layer3_output "confirmed_finding list" "unconfirmed_finding list" "json list"
  | Layer4_output "fix_record list"
  | Layer5_output json "pull_request list"

fun output_layer :: "layer_output \<Rightarrow> layer_id" where
  "output_layer (Layer0_output m s e) = Layer0"
| "output_layer (Layer1_output c) = Layer1"
| "output_layer (Layer2_output p d) = Layer2"
| "output_layer (Layer3_output c u t) = Layer3"
| "output_layer (Layer4_output f) = Layer4"
| "output_layer (Layer5_output r p) = Layer5"

section \<open>Audit (audit.ts)\<close>

datatype actor_type = User | Agent | System

record audit_actor =
  ac_type :: actor_type
  ac_id :: string
  ac_role :: "role option"

text \<open>Actions are the string literals of the source; this is their enumeration.\<close>

definition AUDIT_ACTIONS :: "string list" where
  "AUDIT_ACTIONS =
    [''scan.created'', ''scan.started'', ''scan.paused'', ''scan.resumed'', ''scan.cancelled'',
     ''scan.completed'', ''scan.failed'', ''gate.estimate_presented'', ''gate.estimate_approved'',
     ''gate.fix_approved'', ''gate.rejected'', ''llm.call'', ''appmap.built'',
     ''appmap.invalidated'', ''finding.candidate_created'', ''finding.promoted_probable'',
     ''finding.confirmed'', ''finding.demoted'', ''finding.marked_false_positive'',
     ''fix.generated'', ''fix.pr_opened'', ''fix.merged'', ''fix.rejected'', ''dast.authorized'',
     ''dast.probe'', ''dast.kill_switch'', ''budget.warning'', ''budget.exceeded'',
     ''config.changed'', ''auth.login'', ''auth.logout'', ''auth.role_changed'',
     ''export.generated'', ''rule.created'', ''rule.updated'', ''rule.deleted'',
     ''scenario.created'', ''scenario.updated'', ''scenario.deleted'', ''scenario.run'',
     ''scenario.authorized'', ''scenario.live_run_enqueued'', ''scenario.live_run_rejected'',
     ''scenario.live_run_executed'', ''schedule.created'', ''schedule.updated'',
     ''schedule.deleted'', ''schedule.triggered'', ''posture.snapshot'',
     ''learned_fact.recorded'', ''detection_rule.push_target_configured'',
     ''detection_rule.push_target_deleted'', ''detection_rule.pushed'',
     ''detection_rule.push_failed'']"

record audit_input =
  ai_clientId :: string
  ai_scanId :: "string option"
  ai_actor :: audit_actor
  ai_action :: string
  ai_targetType :: "string option"
  ai_targetId :: "string option"
  ai_summary :: string
  ai_metadata :: "(string \<times> json) list"

record audit_event =
  ae_id :: string
  ae_clientId :: string
  ae_sequence :: nat
  ae_scanId :: "string option"
  ae_actor :: audit_actor
  ae_action :: string
  ae_targetType :: "string option"
  ae_targetId :: "string option"
  ae_summary :: string
  ae_metadata :: "(string \<times> json) list"
  ae_prevHash :: string
  ae_hash :: string
  ae_at :: string

section \<open>Lemmas\<close>

lemma sanitize_ok: "sanitizeClientIdForQueueName c = Inr d \<Longrightarrow> d = c \<and> c \<noteq> [] \<and> list_all queue_name_char c"
  by (auto simp: sanitizeClientIdForQueueName_def split: if_splits)

lemma dot_not_queue_name_char: "\<not> queue_name_char (CHR ''.'')"
  by code_simp

lemma QUEUE_NAMES_length: "length (QUEUE_NAMES l) = 12"
  by (cases l) auto

lemma QUEUE_NAMES_inj: "QUEUE_NAMES l = QUEUE_NAMES m \<longleftrightarrow> l = m"
  by (cases l; cases m) auto

section \<open>Properties\<close>

text \<open>Tenant isolation of the queues: with isolation on, two jobs share a queue
  name only when they are for the same layer of the same client, and a queue of an
  isolated client is never one of the shared queues.\<close>

lemma tenant_queues_disjoint:
  assumes "resolveQueueName l c True = Inr q" and "resolveQueueName m d tenanted = Inr q"
  shows "l = m \<and> tenanted \<and> c = d"
proof -
  have q: "q = QUEUE_NAMES l @ ''.'' @ c"
    using assms(1) sanitize_ok
    by (auto simp: resolveQueueName_def ebind_Inr_iff)
  show ?thesis
  proof (cases tenanted)
    case True
    then have "q = QUEUE_NAMES m @ ''.'' @ d"
      using assms(2) sanitize_ok by (auto simp: resolveQueueName_def ebind_Inr_iff)
    then show ?thesis using q True QUEUE_NAMES_inj by (auto simp: QUEUE_NAMES_length)
  next
    case False
    then have "length q = 12" using assms(2) by (auto simp: resolveQueueName_def QUEUE_NAMES_length)
    then show ?thesis by (simp add: q QUEUE_NAMES_length)
  qed
qed

lemma tenant_queues_disjoint_witness:
  "resolveQueueName Layer3 ''acme'' True = Inr ''montr.layer3.acme''
   \<and> (Layer3 = Layer3 \<and> True \<and> ''acme'' = ''acme'')"
proof -
  have r: "resolveQueueName Layer3 ''acme'' True = Inr ''montr.layer3.acme''" by code_simp
  from tenant_queues_disjoint[OF r r] r show ?thesis by simp
qed

end
