(* ===== verification/JsString.thy ===== *)
theory JsString
  imports Prelude "HOL-Library.Char_ord" "HOL-Library.Sublist"
begin

text \<open>
  The string operations of the source on lists of characters (code points up to
  255; the identifiers, model names, hosts and messages handled here stay in it).
\<close>

definition js_white :: "char \<Rightarrow> bool" where
  "js_white c \<longleftrightarrow> (of_char c :: nat) \<in> {9, 10, 11, 12, 13, 32, 160}"

definition js_trim :: "string \<Rightarrow> string" where
  "js_trim s = rev (dropWhile js_white (rev (dropWhile js_white s)))"

definition js_startsWith :: "string \<Rightarrow> string \<Rightarrow> bool" where
  "js_startsWith s p \<longleftrightarrow> take (length p) s = p"

definition js_endsWith :: "string \<Rightarrow> string \<Rightarrow> bool" where
  "js_endsWith s p \<longleftrightarrow> length p \<le> length s \<and> drop (length s - length p) s = p"

fun js_includes :: "string \<Rightarrow> string \<Rightarrow> bool" where
  "js_includes [] p \<longleftrightarrow> p = []"
| "js_includes (c # s) p \<longleftrightarrow> js_startsWith (c # s) p \<or> js_includes s p"

text \<open>\<open>s.slice(s.lastIndexOf(c) + 1)\<close> and \<open>s.slice(0, s.indexOf(c))\<close>, or \<open>s\<close> when absent.\<close>

definition after_last :: "char \<Rightarrow> string \<Rightarrow> string" where
  "after_last c s = rev (takeWhile (\<lambda>x. x \<noteq> c) (rev s))"

definition before_first :: "char \<Rightarrow> string \<Rightarrow> string" where
  "before_first c s = takeWhile (\<lambda>x. x \<noteq> c) s"

definition strip_prefix :: "string \<Rightarrow> string \<Rightarrow> string" where
  "strip_prefix p s = (if js_startsWith s p then drop (length p) s else s)"

definition strip_suffix :: "string \<Rightarrow> string \<Rightarrow> string" where
  "strip_suffix p s = (if js_endsWith s p then take (length s - length p) s else s)"

definition is_digit_char :: "char \<Rightarrow> bool" where
  "is_digit_char c \<longleftrightarrow> CHR ''0'' \<le> c \<and> c \<le> CHR ''9''"

definition lower_char :: "char \<Rightarrow> char" where
  "lower_char c = (let n = (of_char c :: nat) in
     if (65 \<le> n \<and> n \<le> 90) \<or> (192 \<le> n \<and> n \<le> 222 \<and> n \<noteq> 215) then char_of (n + 32) else c)"

definition js_lower :: "string \<Rightarrow> string" where
  "js_lower = map lower_char"

fun js_join :: "string \<Rightarrow> string list \<Rightarrow> string" where
  "js_join sep [] = []"
| "js_join sep [x] = x"
| "js_join sep (x # y # xs) = x @ sep @ js_join sep (y # xs)"

fun js_split_char :: "char \<Rightarrow> string \<Rightarrow> string list" where
  "js_split_char c [] = [[]]"
| "js_split_char c (x # xs) =
     (if x = c then [] # js_split_char c xs
      else (case js_split_char c xs of [] \<Rightarrow> [[x]] | w # ws \<Rightarrow> (x # w) # ws))"

fun digit_str :: "nat \<Rightarrow> string" where
  "digit_str n = [char_of (48 + n mod 10)]"

text \<open>Decimal rendering of a natural number in a template literal.\<close>

function nat_str :: "nat \<Rightarrow> string" where
  "nat_str n = (if n < 10 then digit_str n else nat_str (n div 10) @ digit_str n)"
  by auto

termination by (relation "measure id") auto

declare nat_str.simps [simp del]

text \<open>An optional string is truthy when it is present and not empty.\<close>

fun truthy :: "string option \<Rightarrow> bool" where
  "truthy None = False"
| "truthy (Some s) = (s \<noteq> [])"

lemma truthy_iff: "truthy x \<longleftrightarrow> (\<exists>s. x = Some s \<and> s \<noteq> [])"
  by (cases x) auto

lemma startsWith_iff: "js_startsWith s p \<longleftrightarrow> (\<exists>t. s = p @ t)"
  unfolding js_startsWith_def by (metis append_eq_conv_conj append_take_drop_id)

lemma endsWith_iff: "js_endsWith s p \<longleftrightarrow> (\<exists>t. s = t @ p)"
proof
  assume "js_endsWith s p"
  then show "\<exists>t. s = t @ p" unfolding js_endsWith_def by (metis append_take_drop_id)
qed (auto simp: js_endsWith_def)

lemma includes_iff: "js_includes s p \<longleftrightarrow> (\<exists>a b. s = a @ p @ b)"
proof (induction s)
  case (Cons c s)
  have "(\<exists>a b. c # s = a @ p @ b) \<longleftrightarrow> (\<exists>b. c # s = p @ b) \<or> (\<exists>a b. s = a @ p @ b)"
    by (auto simp: Cons_eq_append_conv)
  then show ?case using Cons by (auto simp: startsWith_iff)
qed auto

lemma lower_char_idem [simp]: "lower_char (lower_char c) = lower_char c"
proof -
  have "(of_char c :: nat) < 256" by (rule nat_of_char_less_256)
  then show ?thesis
    by (auto simp: lower_char_def Let_def of_char_of mod_less)
qed

lemma js_lower_idem [simp]: "js_lower (js_lower s) = js_lower s"
  by (simp add: js_lower_def comp_def)

end
