(* ===== verification/Fsm.thy ===== *)
theory Fsm
  imports QueueContracts JsString
begin

text \<open>
  \<open>packages/orchestrator/src/fsm.ts\<close>: the pure decisions of the pipeline state
  machine.
\<close>

section \<open>Definitions\<close>

definition LAYER_ORDER :: "layer_id list" where
  "LAYER_ORDER = [Layer0, Layer1, Layer2, Layer3, Layer4, Layer5]"

definition nextLayer :: "layer_id list \<Rightarrow> layer_id option" where
  "nextLayer completed = find (\<lambda>l. l \<notin> set completed) LAYER_ORDER"

definition index_of :: "'a \<Rightarrow> 'a list \<Rightarrow> nat option" where
  "index_of x xs = (let n = length (takeWhile (\<lambda>y. y \<noteq> x) xs) in
     if n < length xs then Some n else None)"

definition layerAfter :: "layer_id \<Rightarrow> layer_id option" where
  "layerAfter layer =
     (case index_of layer LAYER_ORDER of
        None \<Rightarrow> None
      | Some idx \<Rightarrow> if idx \<ge> length LAYER_ORDER - 1 then None else Some (LAYER_ORDER ! (idx + 1)))"

definition TERMINAL_STATUSES :: "scan_status set" where
  "TERMINAL_STATUSES = {Completed, Failed, Cancelled, Partial}"

definition isTerminalStatus :: "scan_status \<Rightarrow> bool" where
  "isTerminalStatus s \<longleftrightarrow> s \<in> TERMINAL_STATUSES"

definition effectiveBudgetPolicy :: "scan \<Rightarrow> montr_config \<Rightarrow> budget_policy" where
  "effectiveBudgetPolicy scan config =
     (case sc_budgetPolicy scan of
        Some p \<Rightarrow> p
      | None \<Rightarrow> \<lparr>maxUsd = bc_maxUsdPerScan (cfg_budget config),
                 maxTotalTokens = bc_maxTokensPerScan (cfg_budget config),
                 enforcement = bc_enforcement (cfg_budget config),
                 requireEstimateApproval = bc_requireEstimateApproval (cfg_budget config),
                 warnThresholdPct = bc_warnThresholdPct (cfg_budget config)\<rparr>)"

definition estimateGateRequired :: "scan \<Rightarrow> montr_config \<Rightarrow> bool" where
  "estimateGateRequired scan config = requireEstimateApproval (effectiveBudgetPolicy scan config)"

record fix_gate_decision =
  wouldOpenPrs :: bool
  autoEligibleFixIds :: "string list"

definition autoEligible :: "fix_record list \<Rightarrow> montr_config \<Rightarrow> fix_record list" where
  "autoEligible fixs config =
     filter (\<lambda>f. fx_riskClass f = Auto_eligible
               \<and> fx_riskClass f \<in> set (af_allowedRiskClasses (cfg_autoFix config))) fixs"

definition evaluateFixGate :: "fix_record list \<Rightarrow> montr_config \<Rightarrow> fix_gate_decision" where
  "evaluateFixGate fixs config =
     \<lparr>wouldOpenPrs = (af_enabled (cfg_autoFix config) \<and> length (autoEligible fixs config) > 0),
      autoEligibleFixIds = map fx_id (autoEligible fixs config)\<rparr>"

definition computeAllowLive :: "scan \<Rightarrow> montr_config \<Rightarrow> bool" where
  "computeAllowLive scan config =
     (let dast = cfg_dast config
      in if \<not> dc_enabled dast then False
         else (case stagingUrl (sc_scope scan) of
                 None \<Rightarrow> False
               | Some url \<Rightarrow>
                   if url = [] then False
                   else if dc_allowlist dast = [] then False
                   else if \<not> (\<exists>entry \<in> set (dc_allowlist dast). url = entry \<or> js_startsWith url entry)
                   then False
                   else if dc_requireApprover dast \<and> \<not> truthy (sc_approver scan) then False
                   else True))"

text \<open>A scan used as a concrete instance.\<close>

definition example_scope :: scan_scope where
  "example_scope = \<lparr>scope_mode = Full, includePaths = [], excludePaths = [], changedFiles = [],
     reachableFromChanges = False, routeCount = None, fileCount = None, stagingUrl = None\<rparr>"

definition example_scan :: scan where
  "example_scan = \<lparr>sc_id = ''s1'', sc_clientId = ''acme'', sc_appMapId = None, sc_repo = ''repo'',
     sc_branch = ''main'', sc_commitSha = None, sc_mode = Full, sc_scope = example_scope,
     sc_status = Queued, sc_gateState = Not_started, sc_operator = ''olga'', sc_approver = None,
     sc_budgetPolicy = None, sc_costEstimate = None, sc_costActual = None, sc_startedAt = None,
     sc_finishedAt = None, sc_createdAt = ''t0''\<rparr>"

section \<open>Lemmas\<close>

lemma LAYER_ORDER_all: "set LAYER_ORDER = UNIV"
  by (auto simp: LAYER_ORDER_def) (metis layer_id.exhaust)

lemma LAYER_ORDER_sorted: "sorted LAYER_ORDER" "distinct LAYER_ORDER"
  by (simp_all add: LAYER_ORDER_def less_eq_layer_id_def)

lemma layerAfter_simps [simp]:
  "layerAfter Layer0 = Some Layer1" "layerAfter Layer1 = Some Layer2"
  "layerAfter Layer2 = Some Layer3" "layerAfter Layer3 = Some Layer4"
  "layerAfter Layer4 = Some Layer5" "layerAfter Layer5 = None"
  by (simp_all add: layerAfter_def index_of_def LAYER_ORDER_def Let_def)

lemma nextLayer_None: "nextLayer completed = None \<longleftrightarrow> set completed = UNIV"
  unfolding nextLayer_def find_None_iff LAYER_ORDER_all by blast

lemma nextLayer_fresh: "nextLayer completed = Some l \<Longrightarrow> l \<notin> set completed"
  unfolding nextLayer_def by (auto dest: find_Some_mem)

lemma find_sorted_least:
  "sorted xs \<Longrightarrow> find P xs = Some x \<Longrightarrow> y \<in> set xs \<Longrightarrow> P y \<Longrightarrow> x \<le> y"
  by (induction xs) (auto split: if_splits)

lemma nextLayer_least:
  assumes "nextLayer completed = Some l" and "m \<notin> set completed" shows "l \<le> m"
  using assms LAYER_ORDER_all
  by (intro find_sorted_least[OF LAYER_ORDER_sorted(1), of "\<lambda>l. l \<notin> set completed"])
    (auto simp: nextLayer_def)

lemma isTerminalStatus_simps [simp]:
  "isTerminalStatus Completed" "isTerminalStatus Failed" "isTerminalStatus Cancelled"
  "isTerminalStatus Partial" "\<not> isTerminalStatus Queued" "\<not> isTerminalStatus Running"
  "\<not> isTerminalStatus Paused"
  by (simp_all add: isTerminalStatus_def TERMINAL_STATUSES_def)

section \<open>Properties\<close>

text \<open>The next layer to run is the first one, in pipeline order, that has not
  completed: it is never a completed layer, every earlier layer has completed, and there
  is none exactly when all six have.\<close>

lemma nextLayer_first_incomplete:
  "(nextLayer completed = None \<longleftrightarrow> (\<forall>l. l \<in> set completed))
   \<and> (nextLayer completed = Some l \<longleftrightarrow> l \<notin> set completed \<and> (\<forall>m < l. m \<in> set completed))"
proof (intro conjI)
  show "nextLayer completed = Some l \<longleftrightarrow> l \<notin> set completed \<and> (\<forall>m < l. m \<in> set completed)"
  proof
    assume "nextLayer completed = Some l"
    then show "l \<notin> set completed \<and> (\<forall>m < l. m \<in> set completed)"
      using nextLayer_fresh nextLayer_least by (meson leD)
  next
    assume a: "l \<notin> set completed \<and> (\<forall>m < l. m \<in> set completed)"
    then obtain k where k: "nextLayer completed = Some k"
      using nextLayer_None[of completed] by (cases "nextLayer completed") auto
    then have "k = l"
      using a nextLayer_fresh[OF k] nextLayer_least[OF k] by (meson linorder_less_linear leD)
    then show "nextLayer completed = Some l" using k by simp
  qed
qed (use nextLayer_None[of completed] in auto)

lemma nextLayer_first_incomplete_witness:
  "nextLayer [Layer0, Layer1] = Some Layer2"
proof -
  have "m \<in> set [Layer0, Layer1]" if "m < Layer2" for m
    using that by (cases m) (auto simp: less_layer_id_def)
  then have "Layer2 \<notin> set [Layer0, Layer1] \<and> (\<forall>m < Layer2. m \<in> set [Layer0, Layer1])" by auto
  then show ?thesis using nextLayer_first_incomplete[of "[Layer0, Layer1]" Layer2] by blast
qed

text \<open>The fix gate never lets a human-required fix through: pull requests would be
  opened only when auto-fix is on and at least one listed fix is auto-eligible, the class is
  permitted by policy, and the ids handed on are exactly those of the auto-eligible fixes.\<close>

lemma fix_gate_only_auto_eligible:
  "(wouldOpenPrs (evaluateFixGate fixs config) \<longleftrightarrow>
      af_enabled (cfg_autoFix config) \<and> Auto_eligible \<in> set (af_allowedRiskClasses (cfg_autoFix config))
      \<and> (\<exists>f \<in> set fixs. fx_riskClass f = Auto_eligible))
   \<and> set (autoEligibleFixIds (evaluateFixGate fixs config)) \<subseteq>
       {fx_id f | f. f \<in> set fixs \<and> fx_riskClass f \<noteq> Human_required}"
  by (auto simp: evaluateFixGate_def autoEligible_def filter_empty_conv)

text \<open>Live probing is off unless every guard holds: DAST enabled, a non-empty staging
  URL that an entry of a non-empty allowlist equals or prefixes, and, when the policy asks
  for one, an approver on record. The hardened default configuration never allows it.\<close>

lemma live_dast_guarded:
  "(computeAllowLive scan config \<longleftrightarrow>
      dc_enabled (cfg_dast config)
      \<and> (\<exists>url entry. stagingUrl (sc_scope scan) = Some url \<and> url \<noteq> []
           \<and> entry \<in> set (dc_allowlist (cfg_dast config)) \<and> (\<exists>rest. url = entry @ rest))
      \<and> (dc_requireApprover (cfg_dast config) \<longrightarrow> (\<exists>a. sc_approver scan = Some a \<and> a \<noteq> [])))
   \<and> \<not> computeAllowLive scan (default_config client)"
  unfolding computeAllowLive_def Let_def
  by (auto simp: startsWith_iff truthy_iff default_config_def default_dast_config_def
      split: option.splits)

lemma live_dast_guarded_witness:
  "computeAllowLive
     (example_scan\<lparr>sc_scope := example_scope\<lparr>stagingUrl := Some ''https://staging.acme.io.evil.net''\<rparr>,
                   sc_approver := Some ''ann''\<rparr>)
     ((default_config ''acme'')\<lparr>cfg_dast := default_dast_config\<lparr>dc_enabled := True,
        dc_allowlist := [''https://staging.acme.io'']\<rparr>\<rparr>)"
  by (subst live_dast_guarded[THEN conjunct1, of _ _])
    (auto simp: example_scan_def example_scope_def default_config_def default_dast_config_def)

end
