(* ===== verification/StateStore.thy ===== *)
theory StateStore
  imports QueueContracts
begin

text \<open>
  The repositories of \<open>packages/state-store/src\<close> that the orchestrator calls. A
  table is a map from its primary key; the database driver is the map, its
  uniqueness violation and the scope error of an update that matches no row are
  errors. Every access is scoped to a client: \<open>findFirst\<close> and \<open>updateMany\<close> match on
  the id and the client id. An update writes exactly the columns the mapper lists.
\<close>

section \<open>Tables\<close>

record resume_row =
  rr_id :: string
  rr_layer :: layer_id
  rr_status :: scan_status
  rr_completedLayers :: "layer_id list"
  rr_checkpointRef :: "string option"
  rr_updatedAt :: string

text \<open>
  The finding tables. A column that holds a value of the contract keeps it here; the
  location has the columns \<open>file\<close> and \<open>line\<close> only. The metadata column of a candidate holds
  the caller's properties and, under the reserved key, the title and the full location.
  Probable and unconfirmed findings share one table, told apart by \<open>status\<close>.
\<close>

datatype meta_value = User_meta json | Montr_ext "string option" "source_location option"

record candidate_row =
  kw_id :: string
  kw_clientId :: string
  kw_scanId :: string
  kw_source :: tool_source
  kw_ruleId :: string
  kw_category :: category
  kw_cwe :: "string list"
  kw_file :: string
  kw_line :: nat
  kw_rawSeverity :: severity
  kw_evidenceSnippet :: string
  kw_metadata :: "(string, meta_value) jsmap option"
  kw_createdAt :: string

record probable_row =
  pw_finding :: probable_finding
  pw_status :: finding_status
  pw_unconfirmedReason :: "string option"

record state_store =
  st_scans :: "(string, scan) jsmap"
  st_resume :: "(string \<times> string, resume_row) jsmap"
  st_fixes :: "(string, fix_record) jsmap"
  st_appMaps :: "(string, string \<times> app_map_ref) jsmap"
  st_candidates :: "(string, candidate_row) jsmap"
  st_probable :: "(string, probable_row) jsmap"
  st_confirmed :: "(string, confirmed_finding) jsmap"

definition unique_violation :: js_error where
  "unique_violation = Untyped ''P2002''"

definition scope_error :: js_error where
  "scope_error = Untyped ''RepositoryScopeError''"

section \<open>Scans\<close>

definition scans_create :: "string \<Rightarrow> scan \<Rightarrow> state_store \<Rightarrow> js_error + state_store" where
  "scans_create clientId scan st =
     (if jm_has (st_scans st) (sc_id scan) then Inl unique_violation
      else Inr (st\<lparr>st_scans := jm_set (sc_id scan) (scan\<lparr>sc_clientId := clientId\<rparr>) (st_scans st)\<rparr>))"

definition scans_get :: "state_store \<Rightarrow> string \<Rightarrow> string \<Rightarrow> scan option" where
  "scans_get st clientId i =
     (case jm_get (st_scans st) i of
        None \<Rightarrow> None
      | Some row \<Rightarrow> if sc_clientId row = clientId then Some row else None)"

text \<open>The columns of \<open>scanToUpdate\<close>.\<close>

definition scanToUpdate :: "scan \<Rightarrow> scan \<Rightarrow> scan" where
  "scanToUpdate row s = row\<lparr>sc_appMapId := sc_appMapId s, sc_commitSha := sc_commitSha s,
     sc_mode := sc_mode s, sc_status := sc_status s, sc_gateState := sc_gateState s,
     sc_approver := sc_approver s, sc_scope := sc_scope s, sc_budgetPolicy := sc_budgetPolicy s,
     sc_costEstimate := sc_costEstimate s, sc_costActual := sc_costActual s,
     sc_startedAt := sc_startedAt s, sc_finishedAt := sc_finishedAt s\<rparr>"

definition scans_update :: "string \<Rightarrow> scan \<Rightarrow> state_store \<Rightarrow> js_error + state_store" where
  "scans_update clientId s st =
     (case scans_get st clientId (sc_id s) of
        None \<Rightarrow> Inl scope_error
      | Some row \<Rightarrow> Inr (st\<lparr>st_scans := jm_set (sc_id s) (scanToUpdate row s) (st_scans st)\<rparr>))"

section \<open>Resume tokens\<close>

definition resumeTokenFromState :: "string \<Rightarrow> resume_row \<Rightarrow> resume_token" where
  "resumeTokenFromState scanId row = \<lparr>rt_id = Some (rr_id row), rt_scanId = scanId,
     rt_completedLayers = rr_completedLayers row, rt_lastCompletedLayer = Some (rr_layer row),
     rt_checkpointRef = rr_checkpointRef row, rt_updatedAt = rr_updatedAt row\<rparr>"

definition resume_get :: "state_store \<Rightarrow> string \<Rightarrow> string \<Rightarrow> resume_token option" where
  "resume_get st clientId scanId =
     map_option (resumeTokenFromState scanId) (jm_get (st_resume st) (clientId, scanId))"

text \<open>\<open>genId\<close> is the id the database gives a row created without one.\<close>

definition resume_save :: "string \<Rightarrow> string \<Rightarrow> resume_token \<Rightarrow> state_store \<Rightarrow> state_store" where
  "resume_save genId clientId t st =
     (let completed = rt_completedLayers t;
          layer = (case rt_lastCompletedLayer t of Some l \<Rightarrow> l
                   | None \<Rightarrow> if completed = [] then Layer0 else last completed);
          status = (if Layer5 \<in> set completed then Completed else Running);
          rowId = (case jm_get (st_resume st) (clientId, rt_scanId t) of
                     Some row \<Rightarrow> rr_id row
                   | None \<Rightarrow> (case rt_id t of Some i \<Rightarrow> i | None \<Rightarrow> genId))
      in st\<lparr>st_resume := jm_set (clientId, rt_scanId t)
            \<lparr>rr_id = rowId, rr_layer = layer, rr_status = status, rr_completedLayers = completed,
             rr_checkpointRef = rt_checkpointRef t, rr_updatedAt = rt_updatedAt t\<rparr> (st_resume st)\<rparr>)"

section \<open>Fixes\<close>

definition fixes_create :: "string \<Rightarrow> fix_record \<Rightarrow> state_store \<Rightarrow> js_error + state_store" where
  "fixes_create clientId f st =
     (if jm_has (st_fixes st) (fx_id f) then Inl unique_violation
      else Inr (st\<lparr>st_fixes := jm_set (fx_id f) (f\<lparr>fx_clientId := clientId\<rparr>) (st_fixes st)\<rparr>))"

definition fixes_get :: "state_store \<Rightarrow> string \<Rightarrow> string \<Rightarrow> fix_record option" where
  "fixes_get st clientId i =
     (case jm_get (st_fixes st) i of
        None \<Rightarrow> None
      | Some row \<Rightarrow> if fx_clientId row = clientId then Some row else None)"

definition fixToUpdate :: "fix_record \<Rightarrow> fix_record \<Rightarrow> fix_record" where
  "fixToUpdate row f = row\<lparr>fx_patch := fx_patch f, fx_rationale := fx_rationale f,
     fx_proofOfFixTest := fx_proofOfFixTest f, fx_riskClass := fx_riskClass f,
     fx_riskClassRationale := fx_riskClassRationale f, fx_status := fx_status f,
     fx_pullRequestId := fx_pullRequestId f\<rparr>"

definition fixes_update :: "string \<Rightarrow> fix_record \<Rightarrow> state_store \<Rightarrow> js_error + state_store" where
  "fixes_update clientId f st =
     (case fixes_get st clientId (fx_id f) of
        None \<Rightarrow> Inl scope_error
      | Some row \<Rightarrow> Inr (st\<lparr>st_fixes := jm_set (fx_id f) (fixToUpdate row f) (st_fixes st)\<rparr>))"

text \<open>
  The database stamps \<open>updatedAt\<close> by itself; nothing modelled reads it and the column keeps
  its value here. \<open>orderBy: createdAt asc\<close>; rows created at the same instant keep table order.\<close>

definition fixes_listByScan :: "state_store \<Rightarrow> string \<Rightarrow> string \<Rightarrow> fix_record list" where
  "fixes_listByScan st clientId scanId =
     js_sort (\<lambda>a b. fx_createdAt a \<le> fx_createdAt b)
       (filter (\<lambda>f. fx_clientId f = clientId \<and> fx_scanId f = scanId) (map snd (st_fixes st)))"

section \<open>Findings: mappers\<close>

definition RESERVED_META_KEY :: string where
  "RESERVED_META_KEY = ''__montr''"

definition row_location :: "string \<Rightarrow> nat \<Rightarrow> source_location" where
  "row_location f l = \<lparr>loc_file = f, loc_line = l, loc_endLine = None, loc_column = None,
     loc_endColumn = None, loc_symbol = None\<rparr>"

definition locationHasExtras :: "source_location \<Rightarrow> bool" where
  "locationHasExtras loc \<longleftrightarrow> loc_endLine loc \<noteq> None \<or> loc_column loc \<noteq> None
     \<or> loc_endColumn loc \<noteq> None \<or> loc_symbol loc \<noteq> None"

definition candidateToCreate :: "string \<Rightarrow> candidate_finding \<Rightarrow> candidate_row" where
  "candidateToCreate clientId f =
     (let loc = (if locationHasExtras (cf_location f) then Some (cf_location f) else None);
          user = map (\<lambda>(k, v). (k, User_meta v)) (case cf_metadata f of None \<Rightarrow> [] | Some m \<Rightarrow> m);
          metadata = (if cf_title f \<noteq> None \<or> loc \<noteq> None
                      then jm_set RESERVED_META_KEY (Montr_ext (cf_title f) loc) user else user)
      in \<lparr>kw_id = cf_id f, kw_clientId = clientId, kw_scanId = cf_scanId f, kw_source = cf_source f,
          kw_ruleId = cf_ruleId f, kw_category = cf_category f, kw_cwe = cf_cwe f,
          kw_file = loc_file (cf_location f), kw_line = loc_line (cf_location f),
          kw_rawSeverity = cf_rawSeverity f, kw_evidenceSnippet = cf_evidenceSnippet f,
          kw_metadata = (if metadata \<noteq> [] then Some metadata else None), kw_createdAt = cf_createdAt f\<rparr>)"

text \<open>Caller's metadata under the reserved key is read as the extension; it is not modelled and has none.\<close>

fun meta_ext :: "meta_value option \<Rightarrow> string option \<times> source_location option" where
  "meta_ext (Some (Montr_ext t l)) = (t, l)"
| "meta_ext _ = (None, None)"

fun user_entry :: "string \<times> meta_value \<Rightarrow> (string \<times> json) list" where
  "user_entry (k, User_meta v) = (if k \<noteq> RESERVED_META_KEY then [(k, v)] else [])"
| "user_entry (k, Montr_ext t l) = []"

definition candidateFromRow :: "candidate_row \<Rightarrow> candidate_finding" where
  "candidateFromRow row =
     (let raw = (case kw_metadata row of None \<Rightarrow> [] | Some m \<Rightarrow> m);
          ext = meta_ext (jm_get raw RESERVED_META_KEY);
          userMeta = concat (map user_entry raw)
      in \<lparr>cf_id = kw_id row, cf_scanId = kw_scanId row, cf_clientId = kw_clientId row,
          cf_source = kw_source row, cf_ruleId = kw_ruleId row, cf_category = kw_category row,
          cf_cwe = kw_cwe row,
          cf_location = (case snd ext of Some l \<Rightarrow> l | None \<Rightarrow> row_location (kw_file row) (kw_line row)),
          cf_rawSeverity = kw_rawSeverity row, cf_evidenceSnippet = kw_evidenceSnippet row,
          cf_title = fst ext, cf_createdAt = kw_createdAt row,
          cf_metadata = (if userMeta \<noteq> [] then Some userMeta else None)\<rparr>)"

definition probable_columns :: "string \<Rightarrow> probable_finding \<Rightarrow> probable_finding" where
  "probable_columns clientId f = f\<lparr>pf_clientId := clientId,
     pf_location := row_location (loc_file (pf_location f)) (loc_line (pf_location f))\<rparr>"

definition probableToCreate :: "string \<Rightarrow> probable_finding \<Rightarrow> probable_row" where
  "probableToCreate clientId f = \<lparr>pw_finding = probable_columns clientId f, pw_status = Probable,
     pw_unconfirmedReason = None\<rparr>"

definition unconfirmedToCreate :: "string \<Rightarrow> unconfirmed_finding \<Rightarrow> probable_row" where
  "unconfirmedToCreate clientId f = \<lparr>pw_finding = probable_columns clientId (uf_probable f),
     pw_status = Unconfirmed, pw_unconfirmedReason = Some (uf_unconfirmedReason f)\<rparr>"

definition probableFromRow :: "probable_row \<Rightarrow> probable_finding" where
  "probableFromRow row = pw_finding row"

definition unconfirmedFromRow :: "probable_row \<Rightarrow> unconfirmed_finding" where
  "unconfirmedFromRow row = \<lparr>uf_probable = pw_finding row,
     uf_unconfirmedReason = (case pw_unconfirmedReason row of None \<Rightarrow> ''unconfirmed'' | Some r \<Rightarrow> r)\<rparr>"

definition confirmedToCreate :: "string \<Rightarrow> confirmed_finding \<Rightarrow> confirmed_finding" where
  "confirmedToCreate clientId f = f\<lparr>cn_clientId := clientId,
     cn_location := row_location (loc_file (cn_location f)) (loc_line (cn_location f))\<rparr>"

section \<open>Findings: bulk creation (skipDuplicates) and listing; application maps\<close>

definition bulkCreate :: "('r \<Rightarrow> string) \<Rightarrow> ('r \<Rightarrow> 'row) \<Rightarrow> 'r list \<Rightarrow> (string, 'row) jsmap \<Rightarrow> (string, 'row) jsmap" where
  "bulkCreate key toCreate rows tab =
     fold (\<lambda>r t. if jm_has t (key r) then t else jm_set (key r) (toCreate r) t) rows tab"

definition candidates_bulkCreate :: "string \<Rightarrow> candidate_finding list \<Rightarrow> state_store \<Rightarrow> state_store" where
  "candidates_bulkCreate c fs st =
     st\<lparr>st_candidates := bulkCreate cf_id (candidateToCreate c) fs (st_candidates st)\<rparr>"

definition probable_bulkCreate :: "string \<Rightarrow> probable_finding list \<Rightarrow> state_store \<Rightarrow> state_store" where
  "probable_bulkCreate c fs st =
     st\<lparr>st_probable := bulkCreate pf_id (probableToCreate c) fs (st_probable st)\<rparr>"

definition confirmed_bulkCreate :: "string \<Rightarrow> confirmed_finding list \<Rightarrow> state_store \<Rightarrow> state_store" where
  "confirmed_bulkCreate c fs st =
     st\<lparr>st_confirmed := bulkCreate cn_id (confirmedToCreate c) fs (st_confirmed st)\<rparr>"

definition unconfirmed_bulkCreate :: "string \<Rightarrow> unconfirmed_finding list \<Rightarrow> state_store \<Rightarrow> state_store" where
  "unconfirmed_bulkCreate c fs st =
     st\<lparr>st_probable := bulkCreate (\<lambda>f. pf_id (uf_probable f)) (unconfirmedToCreate c) fs (st_probable st)\<rparr>"

definition probable_listByScan :: "state_store \<Rightarrow> string \<Rightarrow> string \<Rightarrow> probable_finding list" where
  "probable_listByScan st clientId scanId =
     map probableFromRow (js_sort (\<lambda>a b. pf_createdAt (pw_finding a) \<le> pf_createdAt (pw_finding b))
       (filter (\<lambda>r. pw_status r = Probable \<and> pf_clientId (pw_finding r) = clientId
                  \<and> pf_scanId (pw_finding r) = scanId) (map snd (st_probable st))))"

definition unconfirmed_listByScan :: "state_store \<Rightarrow> string \<Rightarrow> string \<Rightarrow> unconfirmed_finding list" where
  "unconfirmed_listByScan st clientId scanId =
     map unconfirmedFromRow (js_sort (\<lambda>a b. pf_createdAt (pw_finding a) \<le> pf_createdAt (pw_finding b))
       (filter (\<lambda>r. pw_status r = Unconfirmed \<and> pf_clientId (pw_finding r) = clientId
                  \<and> pf_scanId (pw_finding r) = scanId) (map snd (st_probable st))))"

definition appMaps_create :: "string \<Rightarrow> app_map_ref \<Rightarrow> state_store \<Rightarrow> js_error + state_store" where
  "appMaps_create c m st =
     (if jm_has (st_appMaps st) (am_id m) then Inl unique_violation
      else Inr (st\<lparr>st_appMaps := jm_set (am_id m) (c, m) (st_appMaps st)\<rparr>))"

section \<open>The contract of a client-scoped repository\<close>

locale scoped_repository =
  fixes fetch :: "'s \<Rightarrow> string \<Rightarrow> string \<Rightarrow> 'r option"
    and upd :: "string \<Rightarrow> 'r \<Rightarrow> 's \<Rightarrow> js_error + 's"
    and ident :: "'r \<Rightarrow> string"
    and columns :: "'r \<Rightarrow> 'r \<Rightarrow> 'r"
  assumes upd_ok: "upd c r s = Inr s' \<Longrightarrow> \<exists>r0. fetch s c (ident r) = Some r0 \<and>
      (\<forall>d i. fetch s' d i = (if d = c \<and> i = ident r then Some (columns r0 r) else fetch s d i))"
    and upd_missing: "fetch s c (ident r) = None \<Longrightarrow> \<exists>e. upd c r s = Inl e"
    and upd_present: "fetch s c (ident r) = Some r0 \<Longrightarrow> \<exists>s'. upd c r s = Inr s'"
begin

lemma upd_cases:
  obtains (missing) e where "fetch s c (ident r) = None" "upd c r s = Inl e"
  | (written) r0 s' where "fetch s c (ident r) = Some r0" "upd c r s = Inr s'"
      "fetch s' c (ident r) = Some (columns r0 r)"
proof (cases "fetch s c (ident r)")
  case None
  then show ?thesis using upd_missing[of s c r] missing by blast
next
  case (Some r0)
  then obtain s' where s': "upd c r s = Inr s'" using upd_present by blast
  from upd_ok[OF s'] Some have "fetch s' c (ident r) = Some (columns r0 r)" by auto
  then show ?thesis using Some s' written by blast
qed

lemma upd_tenant_isolated: "upd c r s = Inr s' \<Longrightarrow> d \<noteq> c \<Longrightarrow> fetch s' d i = fetch s d i"
  using upd_ok[of c r s s'] by auto

lemma upd_other: "upd c r s = Inr s' \<Longrightarrow> i \<noteq> ident r \<Longrightarrow> fetch s' d i = fetch s d i"
  using upd_ok[of c r s s'] by auto

end

interpretation scans: scoped_repository scans_get scans_update sc_id scanToUpdate
proof
  fix c r s s' assume a: "scans_update c r s = Inr s'"
  then obtain r0 where r0: "scans_get s c (sc_id r) = Some r0"
    and s': "s' = s\<lparr>st_scans := jm_set (sc_id r) (scanToUpdate r0 r) (st_scans s)\<rparr>"
    by (auto simp: scans_update_def split: option.splits)
  have "jm_get (st_scans s) (sc_id r) = Some r0" "sc_clientId r0 = c"
    using r0 by (auto simp: scans_get_def split: option.splits if_splits)
  then have "\<forall>d i. scans_get s' d i =
      (if d = c \<and> i = sc_id r then Some (scanToUpdate r0 r) else scans_get s d i)"
    by (auto simp: s' scans_get_def scanToUpdate_def)
  then show "\<exists>r0. scans_get s c (sc_id r) = Some r0 \<and> (\<forall>d i. scans_get s' d i =
      (if d = c \<and> i = sc_id r then Some (scanToUpdate r0 r) else scans_get s d i))"
    using r0 by blast
qed (auto simp: scans_update_def)

interpretation fixrows: scoped_repository fixes_get fixes_update fx_id fixToUpdate
proof
  fix c r s s' assume a: "fixes_update c r s = Inr s'"
  then obtain r0 where r0: "fixes_get s c (fx_id r) = Some r0"
    and s': "s' = s\<lparr>st_fixes := jm_set (fx_id r) (fixToUpdate r0 r) (st_fixes s)\<rparr>"
    by (auto simp: fixes_update_def split: option.splits)
  have "jm_get (st_fixes s) (fx_id r) = Some r0" "fx_clientId r0 = c"
    using r0 by (auto simp: fixes_get_def split: option.splits if_splits)
  then have "\<forall>d i. fixes_get s' d i =
      (if d = c \<and> i = fx_id r then Some (fixToUpdate r0 r) else fixes_get s d i)"
    by (auto simp: s' fixes_get_def fixToUpdate_def)
  then show "\<exists>r0. fixes_get s c (fx_id r) = Some r0 \<and> (\<forall>d i. fixes_get s' d i =
      (if d = c \<and> i = fx_id r then Some (fixToUpdate r0 r) else fixes_get s d i))"
    using r0 by blast
qed (auto simp: fixes_update_def)

interpretation fix_order: comparator "\<lambda>a b. fx_createdAt a \<le> fx_createdAt b"
  by unfold_locales auto

section \<open>Lemmas\<close>

lemma listByScan_oldest_first:
  "sorted_wrt (\<lambda>a b. fx_createdAt a \<le> fx_createdAt b) (fixes_listByScan st c i)"
  unfolding fixes_listByScan_def by (rule fix_order.sort_sorted)

lemma resume_get_save:
  "resume_get (resume_save g c t st) d i =
     (if d = c \<and> i = rt_scanId t then
        Some (resumeTokenFromState i (the (jm_get (st_resume (resume_save g c t st)) (c, i))))
      else resume_get st d i)"
  by (auto simp: resume_get_def resume_save_def Let_def)

lemma resume_completed_save:
  "map_option rt_completedLayers (resume_get (resume_save g c t st) d i) =
     (if d = c \<and> i = rt_scanId t then Some (rt_completedLayers t)
      else map_option rt_completedLayers (resume_get st d i))"
  by (auto simp: resume_get_def resume_save_def Let_def resumeTokenFromState_def)

lemma bulkCreate_get:
  "jm_get (bulkCreate key f rows tab) k =
     (case jm_get tab k of Some r \<Rightarrow> Some r
      | None \<Rightarrow> map_option f (find (\<lambda>r. key r = k) rows))"
  unfolding bulkCreate_def
  by (induction rows arbitrary: tab) (auto split: option.splits)

lemma bulkCreate_has: "jm_has (bulkCreate key f rows tab) k \<longleftrightarrow> jm_has tab k \<or> k \<in> key ` set rows"
proof (cases "jm_get tab k")
  case None
  have "find (\<lambda>r. key r = k) rows = None \<longleftrightarrow> k \<notin> key ` set rows" by (auto simp: find_None_iff)
  then show ?thesis using None by (simp add: bulkCreate_get)
qed (simp add: bulkCreate_get)

lemma bulkCreate_all_present: "\<forall>r \<in> set rows. jm_has tab (key r) \<Longrightarrow> bulkCreate key f rows tab = tab"
  unfolding bulkCreate_def by (induction rows arbitrary: tab) auto

lemma user_entries_of_user: "RESERVED_META_KEY \<notin> fst ` set m \<Longrightarrow>
    concat (map user_entry (map (\<lambda>(k, v). (k, User_meta v)) m)) = m"
  by (induction m) auto

lemma user_meta_no_ext: "RESERVED_META_KEY \<notin> fst ` set m \<Longrightarrow>
    jm_get (map (\<lambda>(k, v). (k, User_meta v)) m) RESERVED_META_KEY = None"
  by (induction m) (auto simp: jm_get_def)

section \<open>Properties\<close>

text \<open>Persisting a tier is idempotent: writing the same findings again, as a redelivered
  job does, changes no row, and rows already present are never overwritten.\<close>

lemma bulk_create_idempotent:
  "jm_get (bulkCreate key f rows (bulkCreate key f rows tab)) k = jm_get (bulkCreate key f rows tab) k
   \<and> (jm_get tab k = Some r \<longrightarrow> jm_get (bulkCreate key f rows tab) k = Some r)"
  by (auto simp: bulkCreate_get split: option.splits)

lemma bulk_create_idempotent_witness:
  "jm_get (bulkCreate id id [''a''] [(''a'', ''a'')]) ''a'' = Some ''a''"
  using bulk_create_idempotent[where key = id and f = id and rows = "[''a'']"
      and tab = "[(''a'', ''a'')]" and k = "''a''" and r = "''a''"]
  by (simp add: jm_get_def)

text \<open>A candidate survives the round trip through its row: the reserved metadata key carries
  the title and the full location, so what is read back is the finding as it was, filed under
  the writing client, provided its own metadata does not use the reserved key and is not an
  empty object.\<close>

lemma candidate_row_roundtrip:
  assumes "\<And>m. cf_metadata f = Some m \<Longrightarrow> m \<noteq> [] \<and> RESERVED_META_KEY \<notin> fst ` set m"
  shows "candidateFromRow (candidateToCreate c f) = f\<lparr>cf_clientId := c\<rparr>"
proof -
  let ?m = "case cf_metadata f of None \<Rightarrow> [] | Some m \<Rightarrow> m"
  let ?u = "map (\<lambda>(k, v). (k, User_meta v)) ?m"
  have fresh: "RESERVED_META_KEY \<notin> fst ` set ?m" using assms by (cases "cf_metadata f") auto
  have meta: "(if ?m \<noteq> [] then Some ?m else None) = cf_metadata f"
    using assms by (auto split: option.splits)
  have no_ext: "jm_get ?u RESERVED_META_KEY = None" by (rule user_meta_no_ext[OF fresh])
  have user: "concat (map user_entry ?u) = ?m" by (rule user_entries_of_user[OF fresh])
  define loc where "loc = (if locationHasExtras (cf_location f) then Some (cf_location f) else None)"
  define M where "M = (if cf_title f \<noteq> None \<or> loc \<noteq> None
    then jm_set RESERVED_META_KEY (Montr_ext (cf_title f) loc) ?u else ?u)"
  have row: "kw_metadata (candidateToCreate c f) = (if M \<noteq> [] then Some M else None)"
    unfolding candidateToCreate_def Let_def M_def loc_def by (simp only: candidate_row.simps)
  then have raw: "(case kw_metadata (candidateToCreate c f) of None \<Rightarrow> [] | Some m \<Rightarrow> m) = M"
    by (simp split: option.splits)
  have ext: "meta_ext (jm_get M RESERVED_META_KEY) = (cf_title f, loc)"
    using no_ext by (simp add: M_def)
  have um: "concat (map user_entry M) = ?m"
    using user by (simp add: M_def jm_set_fresh[OF no_ext])
  have lc: "(case loc of Some l \<Rightarrow> l | None \<Rightarrow> row_location (loc_file (cf_location f)) (loc_line (cf_location f)))
      = cf_location f"
    by (cases "cf_location f") (simp add: loc_def locationHasExtras_def row_location_def)
  have kf: "kw_file (candidateToCreate c f) = loc_file (cf_location f)"
    "kw_line (candidateToCreate c f) = loc_line (cf_location f)"
    by (simp_all add: candidateToCreate_def Let_def)
  show ?thesis unfolding candidateFromRow_def Let_def raw ext um meta kf snd_conv lc
    by (cases f) (simp add: candidateToCreate_def Let_def)
qed

lemma candidate_row_roundtrip_witness:
  "\<exists>f. cf_title f = Some ''SQL injection'' \<and> cf_metadata f = Some [(''k'', JBool True)]
     \<and> candidateFromRow (candidateToCreate ''acme'' f) = (f :: candidate_finding)"
proof -
  let ?f = "\<lparr>cf_id = ''c1'', cf_scanId = ''s1'', cf_clientId = ''acme'', cf_source = Semgrep, cf_ruleId = ''r'',
     cf_category = Sql_injection, cf_cwe = [''CWE-89''], cf_location = row_location ''a.ts'' 3,
     cf_rawSeverity = High, cf_evidenceSnippet = '''', cf_title = Some ''SQL injection'', cf_createdAt = ''t'',
     cf_metadata = Some [(''k'', JBool True)]\<rparr>"
  have "candidateFromRow (candidateToCreate ''acme'' ?f) = ?f\<lparr>cf_clientId := ''acme''\<rparr>"
    by (rule candidate_row_roundtrip) (simp add: RESERVED_META_KEY_def)
  then show ?thesis by (intro exI[of _ ?f]) simp
qed

text \<open>Demoted findings are never stored. Layer 3 demotes a probable finding by keeping its id,
  and unconfirmed findings go to the table that already holds the probable ones; creation skips
  a row whose id exists, so persisting the demotions changes nothing: the appendix stays as it
  was and every demoted finding is still listed as probable.\<close>

lemma demoted_findings_are_dropped:
  assumes "\<forall>u \<in> set us. uf_probable u \<in> set ps"
  shows "unconfirmed_bulkCreate c us (probable_bulkCreate c ps st) = probable_bulkCreate c ps st
    \<and> unconfirmed_listByScan (unconfirmed_bulkCreate c us (probable_bulkCreate c ps st)) d i =
        unconfirmed_listByScan (probable_bulkCreate c ps st) d i"
proof -
  have "unconfirmed_bulkCreate c us (probable_bulkCreate c ps st) = probable_bulkCreate c ps st"
    unfolding unconfirmed_bulkCreate_def probable_bulkCreate_def
    using assms bulkCreate_has[of pf_id "probableToCreate c" ps "st_probable st"]
    by (simp add: bulkCreate_all_present)
  then show ?thesis by simp
qed

lemma demoted_findings_are_dropped_witness:
  "\<exists>u::unconfirmed_finding. uf_unconfirmedReason u = ''no route'' \<and>
     unconfirmed_listByScan (unconfirmed_bulkCreate ''acme'' [u] (probable_bulkCreate ''acme'' [uf_probable u]
       \<lparr>st_scans = [], st_resume = [], st_fixes = [], st_appMaps = [], st_candidates = [], st_probable = [],
        st_confirmed = []\<rparr>)) ''acme'' ''s1'' = []"
proof -
  let ?p = "\<lparr>pf_id = ''p1'', pf_scanId = ''s1'', pf_clientId = ''acme'', pf_rootCauseId = ''r'',
    pf_category = Sql_injection, pf_mergedCandidateIds = [], pf_reachabilityHypothesis = '''',
    pf_exploitHypothesis = '''', pf_exposure = Public, pf_authGate = None, pf_routeId = None,
    pf_location = row_location ''a.ts'' 3, pf_reachabilityScore = 1, pf_exposureScore = 1,
    pf_impactScore = 1, pf_rank = 1, pf_createdAt = ''t''\<rparr>"
  let ?u = "\<lparr>uf_probable = ?p, uf_unconfirmedReason = ''no route''\<rparr>"
  let ?st = "\<lparr>st_scans = [], st_resume = [], st_fixes = [], st_appMaps = [], st_candidates = [], st_probable = [],
        st_confirmed = []\<rparr> :: state_store"
  have "\<forall>u \<in> set [?u]. uf_probable u \<in> set [?p]" by simp
  note demoted_findings_are_dropped[OF this, of "''acme''" ?st "''acme''" "''s1''"]
  moreover have "unconfirmed_listByScan (probable_bulkCreate ''acme'' [?p] ?st) ''acme'' ''s1'' = []"
    by (simp add: unconfirmed_listByScan_def probable_bulkCreate_def bulkCreate_def probableToCreate_def jm_set_def)
  ultimately show ?thesis by (intro exI[of _ ?u]) simp
qed

end
