(* ===== verification/KillSwitch.thy ===== *)
theory KillSwitch
  imports QueueContracts
begin

text \<open>
  \<open>packages/orchestrator/src/kill-switch.ts\<close>. An \<open>AbortController\<close> is an object
  identity (a number); \<open>kr_aborted\<close> maps the aborted ones to their reason. A layer
  that runs holds the identity it was given, so the registry forgetting a scan does
  not un-abort it.
\<close>

section \<open>State and operations\<close>

record kill_registry =
  kr_controllers :: "(string, nat) jsmap"
  kr_killed :: "string set"
  kr_global :: bool
  kr_aborted :: "(nat, montr_error) jsmap"
  kr_next :: nat

definition kr_empty :: kill_registry where
  "kr_empty = \<lparr>kr_controllers = [], kr_killed = {}, kr_global = False,
               kr_aborted = [], kr_next = 0\<rparr>"

definition kr_isKilled :: "kill_registry \<Rightarrow> string \<Rightarrow> bool" where
  "kr_isKilled kr scanId \<longleftrightarrow> kr_global kr \<or> scanId \<in> kr_killed kr"

definition kr_isGlobalKilled :: "kill_registry \<Rightarrow> bool" where
  "kr_isGlobalKilled kr = kr_global kr"

definition signal_aborted :: "kill_registry \<Rightarrow> nat \<Rightarrow> bool" where
  "signal_aborted kr c \<longleftrightarrow> jm_has (kr_aborted kr) c"

definition kr_register :: "string \<Rightarrow> kill_registry \<Rightarrow> nat \<times> kill_registry" where
  "kr_register scanId kr =
     (case jm_get (kr_controllers kr) scanId of
        Some c \<Rightarrow> (c, kr)
      | None \<Rightarrow> (kr_next kr,
          kr\<lparr>kr_controllers := jm_set scanId (kr_next kr) (kr_controllers kr),
             kr_next := Suc (kr_next kr)\<rparr>))"

definition kr_signalFor :: "string \<Rightarrow> kill_registry \<Rightarrow> nat \<times> kill_registry" where
  "kr_signalFor scanId kr =
     (if kr_isKilled kr scanId then
        (kr_next kr,
         kr\<lparr>kr_aborted := jm_set (kr_next kr)
              (KillSwitchActivatedError ''scan already killed'' None) (kr_aborted kr),
            kr_next := Suc (kr_next kr)\<rparr>)
      else kr_register scanId kr)"

text \<open>Aborting keeps the reason of the first abort.\<close>

definition abort_controller :: "montr_error \<Rightarrow> nat \<Rightarrow> kill_registry \<Rightarrow> kill_registry" where
  "abort_controller reason c kr =
     (if signal_aborted kr c then kr else kr\<lparr>kr_aborted := jm_set c reason (kr_aborted kr)\<rparr>)"

definition kr_abortScan :: "string \<Rightarrow> string \<Rightarrow> kill_registry \<Rightarrow> kill_registry" where
  "kr_abortScan scanId reason kr =
     (let kr' = kr\<lparr>kr_killed := insert scanId (kr_killed kr)\<rparr>
      in case jm_get (kr_controllers kr') scanId of
           None \<Rightarrow> kr'
         | Some c \<Rightarrow> abort_controller (KillSwitchActivatedError reason None) c kr')"

definition kr_abortAll :: "string \<Rightarrow> kill_registry \<Rightarrow> kill_registry" where
  "kr_abortAll reason kr =
     fold (\<lambda>(scanId, c) k. abort_controller (KillSwitchActivatedError reason None) c
             (k\<lparr>kr_killed := insert scanId (kr_killed k)\<rparr>))
       (kr_controllers kr) (kr\<lparr>kr_global := True\<rparr>)"

definition kr_activeScanIds :: "kill_registry \<Rightarrow> string list" where
  "kr_activeScanIds kr = jm_keys (kr_controllers kr)"

definition kr_clear :: "string \<Rightarrow> kill_registry \<Rightarrow> kill_registry" where
  "kr_clear scanId kr = kr\<lparr>kr_controllers := jm_delete scanId (kr_controllers kr)\<rparr>"

inductive kr_step :: "kill_registry \<Rightarrow> kill_registry \<Rightarrow> bool" where
  kr_step_register: "kr_step kr (snd (kr_register i kr))"
| kr_step_signal: "kr_step kr (snd (kr_signalFor i kr))"
| kr_step_abort: "kr_step kr (kr_abortScan i r kr)"
| kr_step_abort_all: "kr_step kr (kr_abortAll r kr)"
| kr_step_clear: "kr_step kr (kr_clear i kr)"

inductive_cases kr_stepE: "kr_step kr kr'"

section \<open>Invariant\<close>

text \<open>
  Controllers are distinct objects, already allocated, and the controller of a scan
  that is still registered is aborted only if the scan is killed.
\<close>

definition kr_ok :: "kill_registry \<Rightarrow> bool" where
  "kr_ok kr \<longleftrightarrow> distinct (jm_keys (kr_controllers kr))
     \<and> (\<forall>i c. jm_get (kr_controllers kr) i = Some c \<longrightarrow> c < kr_next kr)
     \<and> (\<forall>i j c. jm_get (kr_controllers kr) i = Some c \<longrightarrow> jm_get (kr_controllers kr) j = Some c \<longrightarrow> i = j)
     \<and> (\<forall>c. signal_aborted kr c \<longrightarrow> c < kr_next kr)
     \<and> (\<forall>i c. jm_get (kr_controllers kr) i = Some c \<longrightarrow> signal_aborted kr c \<longrightarrow> kr_isKilled kr i)"

lemma kr_ok_empty: "kr_ok kr_empty"
  by (simp add: kr_ok_def kr_empty_def signal_aborted_def jm_keys_def)

lemma kr_ok_register: "kr_ok kr \<Longrightarrow> kr_ok (snd (kr_register i kr))"
proof (cases "jm_get (kr_controllers kr) i")
  case None
  assume ok: "kr_ok kr"
  then show ?thesis using None
    unfolding kr_ok_def kr_register_def signal_aborted_def kr_isKilled_def
    by (fastforce simp: jm_distinct_set split: if_splits)
qed (simp add: kr_register_def)

lemma kr_ok_signal: "kr_ok kr \<Longrightarrow> kr_ok (snd (kr_signalFor i kr))"
proof (cases "kr_isKilled kr i")
  case True
  assume ok: "kr_ok kr"
  then show ?thesis using True
    unfolding kr_ok_def kr_signalFor_def signal_aborted_def kr_isKilled_def
    by (fastforce split: if_splits)
qed (simp add: kr_signalFor_def kr_ok_register)

lemma abort_controller_killed [simp]:
  "kr_killed (abort_controller r c kr) = kr_killed kr"
  "kr_global (abort_controller r c kr) = kr_global kr"
  "kr_controllers (abort_controller r c kr) = kr_controllers kr"
  "kr_next (abort_controller r c kr) = kr_next kr"
  by (simp_all add: abort_controller_def)

lemma signal_aborted_abort [simp]:
  "signal_aborted (abort_controller r c kr) d \<longleftrightarrow> d = c \<or> signal_aborted kr d"
  by (auto simp: abort_controller_def signal_aborted_def)

lemma signal_aborted_update [simp]:
  "signal_aborted (kr\<lparr>kr_killed := K\<rparr>) d = signal_aborted kr d"
  "signal_aborted (kr\<lparr>kr_global := b\<rparr>) d = signal_aborted kr d"
  by (simp_all add: signal_aborted_def)

lemma abortScan_fields [simp]:
  "kr_controllers (kr_abortScan i r kr) = kr_controllers kr"
  "kr_killed (kr_abortScan i r kr) = insert i (kr_killed kr)"
  "kr_global (kr_abortScan i r kr) = kr_global kr"
  "kr_next (kr_abortScan i r kr) = kr_next kr"
  by (simp_all add: kr_abortScan_def Let_def split: option.splits)

lemma abortScan_aborted [simp]:
  "signal_aborted (kr_abortScan i r kr) c \<longleftrightarrow>
     jm_get (kr_controllers kr) i = Some c \<or> signal_aborted kr c"
  by (auto simp: kr_abortScan_def Let_def split: option.splits)

lemma kr_ok_abort: "kr_ok kr \<Longrightarrow> kr_ok (kr_abortScan i r kr)"
  unfolding kr_ok_def kr_isKilled_def by (simp only: abortScan_fields abortScan_aborted) blast

lemma abortAll_fields:
  "kr_controllers (fold (\<lambda>(i, c) k. abort_controller e c (k\<lparr>kr_killed := insert i (kr_killed k)\<rparr>)) cs k)
     = kr_controllers k"
  "kr_global (fold (\<lambda>(i, c) k. abort_controller e c (k\<lparr>kr_killed := insert i (kr_killed k)\<rparr>)) cs k)
     = kr_global k"
  "kr_next (fold (\<lambda>(i, c) k. abort_controller e c (k\<lparr>kr_killed := insert i (kr_killed k)\<rparr>)) cs k)
     = kr_next k"
  "kr_killed (fold (\<lambda>(i, c) k. abort_controller e c (k\<lparr>kr_killed := insert i (kr_killed k)\<rparr>)) cs k)
     = kr_killed k \<union> fst ` set cs"
  "signal_aborted (fold (\<lambda>(i, c) k. abort_controller e c (k\<lparr>kr_killed := insert i (kr_killed k)\<rparr>)) cs k) d
     \<longleftrightarrow> signal_aborted k d \<or> d \<in> snd ` set cs"
  by (induction cs arbitrary: k) auto

lemma abortAll_simps [simp]:
  "kr_controllers (kr_abortAll r kr) = kr_controllers kr"
  "kr_global (kr_abortAll r kr)"
  "kr_next (kr_abortAll r kr) = kr_next kr"
  "kr_killed (kr_abortAll r kr) = kr_killed kr \<union> set (jm_keys (kr_controllers kr))"
  "signal_aborted (kr_abortAll r kr) c \<longleftrightarrow>
     signal_aborted kr c \<or> c \<in> snd ` set (kr_controllers kr)"
  by (simp_all add: kr_abortAll_def abortAll_fields jm_keys_def)

lemma controller_entries:
  "distinct (jm_keys m) \<Longrightarrow> c \<in> snd ` set m \<longleftrightarrow> (\<exists>i. jm_get m i = Some c)"
  by (auto simp: jm_get_def jm_keys_def intro: map_of_SomeD rev_image_eqI)

lemma kr_ok_abort_all: "kr_ok kr \<Longrightarrow> kr_ok (kr_abortAll r kr)"
  unfolding kr_ok_def kr_isKilled_def by (simp add: controller_entries) blast

lemma kr_ok_clear: "kr_ok kr \<Longrightarrow> kr_ok (kr_clear i kr)"
  unfolding kr_ok_def kr_clear_def signal_aborted_def kr_isKilled_def
  by (simp add: jm_distinct_delete)

interpretation kr: step_invariant "\<lambda>k. k = kr_empty" kr_step kr_ok
  by unfold_locales
    (auto simp: kr_ok_empty elim!: kr_stepE
      intro: kr_ok_register kr_ok_signal kr_ok_abort kr_ok_abort_all kr_ok_clear)

section \<open>A kill is never taken back\<close>

lemma register_keeps [simp]:
  "kr_killed (snd (kr_register i kr)) = kr_killed kr"
  "kr_global (snd (kr_register i kr)) = kr_global kr"
  "signal_aborted (snd (kr_register i kr)) c = signal_aborted kr c"
  by (simp_all add: kr_register_def signal_aborted_def split: option.splits)

lemma signal_keeps [simp]:
  "kr_killed (snd (kr_signalFor i kr)) = kr_killed kr"
  "kr_global (snd (kr_signalFor i kr)) = kr_global kr"
  by (simp_all add: kr_signalFor_def)

lemma clear_keeps [simp]:
  "kr_killed (kr_clear i kr) = kr_killed kr"
  "kr_global (kr_clear i kr) = kr_global kr"
  "signal_aborted (kr_clear i kr) c = signal_aborted kr c"
  by (simp_all add: kr_clear_def signal_aborted_def)

lemma signal_keeps_aborted [simp]:
  "signal_aborted kr c \<Longrightarrow> signal_aborted (snd (kr_signalFor i kr)) c"
proof (cases "kr_isKilled kr i")
  case True
  assume "signal_aborted kr c"
  then show ?thesis using True by (simp add: kr_signalFor_def signal_aborted_def)
qed (simp add: kr_signalFor_def)

lemma kr_step_mono:
  assumes "kr_step kr kr'"
  shows "kr_isKilled kr i \<Longrightarrow> kr_isKilled kr' i" and "signal_aborted kr c \<Longrightarrow> signal_aborted kr' c"
  using assms by (auto simp: kr_isKilled_def elim!: kr_stepE)

lemma kr_run_mono:
  assumes "kr_step\<^sup>*\<^sup>* kr kr'"
  shows "(kr_isKilled kr i \<longrightarrow> kr_isKilled kr' i) \<and> (signal_aborted kr c \<longrightarrow> signal_aborted kr' c)"
  using assms by (induction rule: rtranclp_induct) (auto dest: kr_step_mono)

section \<open>Properties\<close>

text \<open>Killing a scan takes effect and stays in effect: the signal the running
  layer holds is aborted, and in every later state of the registry, whatever was
  registered, cleared or killed in between, the scan is still killed, that signal is
  still aborted, and any new signal handed out for the scan is already aborted.\<close>

lemma kill_is_permanent:
  assumes "reach (\<lambda>k. k = kr_empty) kr_step kr" and "kr_step\<^sup>*\<^sup>* (kr_abortScan i reason kr) kr'"
  shows "kr_isKilled kr' i
    \<and> (\<forall>c. jm_get (kr_controllers kr) i = Some c \<longrightarrow> signal_aborted kr' c)
    \<and> signal_aborted (snd (kr_signalFor i kr')) (fst (kr_signalFor i kr'))"
proof -
  have k: "kr_isKilled kr' i"
    using kr_run_mono[OF assms(2), of i] by (simp add: kr_isKilled_def)
  moreover have "signal_aborted kr' c" if "jm_get (kr_controllers kr) i = Some c" for c
    using kr_run_mono[OF assms(2), of i c] that by simp
  ultimately show ?thesis by (simp add: kr_signalFor_def signal_aborted_def)
qed

lemma kill_is_permanent_witness:
  "\<exists>(kr::kill_registry) (kr'::kill_registry). jm_get (kr_controllers kr) ''s1'' = Some 0 \<and> kr_controllers kr' = []
     \<and> kr_isKilled kr' ''s1'' \<and> signal_aborted kr' 0"
proof -
  let ?kr = "snd (kr_register ''s1'' kr_empty)"
  let ?kr' = "kr_clear ''s1'' (kr_abortScan ''s1'' ''stop'' ?kr)"
  have "reach (\<lambda>k. k = kr_empty) kr_step ?kr"
    by (rule reach_initial_step, rule kr_step_register)
  moreover have "kr_step\<^sup>*\<^sup>* (kr_abortScan ''s1'' ''stop'' ?kr) ?kr'"
    by (rule r_into_rtranclp[of kr_step, OF kr_step_clear])
  ultimately have "kr_isKilled ?kr' ''s1''
    \<and> (\<forall>c. jm_get (kr_controllers ?kr) ''s1'' = Some c \<longrightarrow> signal_aborted ?kr' c)"
    using kill_is_permanent[of ?kr "''s1''" "''stop''" ?kr'] by blast
  moreover have g: "jm_get (kr_controllers ?kr) ''s1'' = Some 0"
    by (simp add: kr_register_def kr_empty_def)
  moreover have "kr_controllers ?kr' = []"
    by (simp add: kr_clear_def kr_register_def kr_empty_def jm_set_def jm_delete_def)
  ultimately show ?thesis by (intro exI[of _ ?kr] exI[of _ ?kr']) simp
qed

text \<open>Killing one scan stops only that scan: no other scan becomes killed and the
  signal of no other registered scan is aborted.\<close>

lemma kill_is_selective:
  assumes "reach (\<lambda>k. k = kr_empty) kr_step kr" and "j \<noteq> i"
    and "jm_get (kr_controllers kr) j = Some c"
  shows "kr_isKilled (kr_abortScan i reason kr) j = kr_isKilled kr j
    \<and> signal_aborted (kr_abortScan i reason kr) c = signal_aborted kr c"
proof -
  have ok: "kr_ok kr" by (rule kr.reachable_inv[OF assms(1)])
  have "jm_get (kr_controllers kr) i \<noteq> Some c"
    using ok assms(2,3) unfolding kr_ok_def by blast
  then show ?thesis using assms(2) by (simp add: kr_isKilled_def)
qed

lemma kill_is_selective_witness:
  "\<exists>kr::kill_registry. jm_get (kr_controllers kr) ''b'' = Some 1
     \<and> \<not> signal_aborted (kr_abortScan ''a'' ''stop'' kr) 1
     \<and> signal_aborted (kr_abortScan ''a'' ''stop'' kr) 0"
proof -
  let ?kr = "snd (kr_register ''b'' (snd (kr_register ''a'' kr_empty)))"
  have r: "reach (\<lambda>k. k = kr_empty) kr_step ?kr"
    by (rule reach_step[OF reach_initial_step]; rule kr_step_register)
  have b: "jm_get (kr_controllers ?kr) ''b'' = Some 1" "jm_get (kr_controllers ?kr) ''a'' = Some 0"
    by (simp_all add: kr_register_def kr_empty_def)
  have "signal_aborted (kr_abortScan ''a'' ''stop'' ?kr) 1 = signal_aborted ?kr 1"
    using kill_is_selective[OF r _ b(1), of "''a''"] by simp
  moreover have "\<not> signal_aborted ?kr 1" by (simp add: kr_register_def signal_aborted_def kr_empty_def)
  ultimately show ?thesis using b by (intro exI[of _ ?kr]) simp
qed

text \<open>The global kill switch reaches everything: afterwards every scan, known or
  not, is killed, the signal of every registered scan is aborted, and the scans it
  reports as active are exactly the registered ones.\<close>

lemma global_kill_reaches_all:
  assumes "reach (\<lambda>k. k = kr_empty) kr_step kr"
  shows "kr_isKilled (kr_abortAll reason kr) i
    \<and> (\<forall>j c. jm_get (kr_controllers kr) j = Some c \<longrightarrow> signal_aborted (kr_abortAll reason kr) c)
    \<and> (j \<in> set (kr_activeScanIds kr) \<longleftrightarrow> jm_has (kr_controllers kr) j)"
proof -
  have "distinct (jm_keys (kr_controllers kr))"
    using kr.reachable_inv[OF assms] by (simp add: kr_ok_def)
  then show ?thesis
    by (auto simp: kr_isKilled_def controller_entries kr_activeScanIds_def jm_has_iff[symmetric])
qed

lemma global_kill_reaches_all_witness:
  "kr_isKilled (kr_abortAll ''stop'' (snd (kr_register ''a'' kr_empty))) ''unknown''
   \<and> signal_aborted (kr_abortAll ''stop'' (snd (kr_register ''a'' kr_empty))) 0"
proof -
  let ?kr = "snd (kr_register ''a'' kr_empty)"
  have r: "reach (\<lambda>k. k = kr_empty) kr_step ?kr"
    by (rule reach_initial_step, rule kr_step_register)
  have "jm_get (kr_controllers ?kr) ''a'' = Some 0" by (simp add: kr_register_def kr_empty_def)
  then show ?thesis using global_kill_reaches_all[OF r] by blast
qed

end
