(* ===== verification/EventBus.thy ===== *)
theory EventBus
  imports QueueContracts
begin

text \<open>
  \<open>packages/orchestrator/src/events.ts\<close>. The bus keeps per scan the events emitted
  so far, the parked consumers and whether the stream has ended. An iterator is a
  consumer record; \<open>cons_poll\<close> is one round of the \<open>for (;;)\<close> loop of \<open>next()\<close>: it
  yields the event at its index, or reports the end, or parks the consumer until it
  is woken. A consumer is identified by a number, its place in \<open>waiters\<close> is the
  promise it awaits.
\<close>

section \<open>State and operations\<close>

record event_bus =
  eb_history :: "(string, pipeline_event list) jsmap"
  eb_waiters :: "(string, nat list) jsmap"
  eb_ended :: "string set"

definition eb_empty :: event_bus where
  "eb_empty = \<lparr>eb_history = [], eb_waiters = [], eb_ended = {}\<rparr>"

definition eb_events :: "event_bus \<Rightarrow> string \<Rightarrow> pipeline_event list" where
  "eb_events b scanId = (case jm_get (eb_history b) scanId of None \<Rightarrow> [] | Some es \<Rightarrow> es)"

definition eb_waiting :: "event_bus \<Rightarrow> string \<Rightarrow> nat list" where
  "eb_waiting b scanId = (case jm_get (eb_waiters b) scanId of None \<Rightarrow> [] | Some ws \<Rightarrow> ws)"

text \<open>\<open>wake\<close> empties the waiter list and returns the consumers whose promise resolves.\<close>

definition eb_wake :: "string \<Rightarrow> event_bus \<Rightarrow> nat list \<times> event_bus" where
  "eb_wake scanId b =
     (case jm_get (eb_waiters b) scanId of
        None \<Rightarrow> ([], b)
      | Some [] \<Rightarrow> ([], b)
      | Some ws \<Rightarrow> (ws, b\<lparr>eb_waiters := jm_set scanId [] (eb_waiters b)\<rparr>))"

definition eb_push :: "pipeline_event \<Rightarrow> event_bus \<Rightarrow> event_bus" where
  "eb_push ev b =
     (case jm_get (eb_history b) (event_scanId ev) of
        Some arr \<Rightarrow> b\<lparr>eb_history := jm_set (event_scanId ev) (arr @ [ev]) (eb_history b)\<rparr>
      | None \<Rightarrow> b\<lparr>eb_history := jm_set (event_scanId ev) [ev] (eb_history b)\<rparr>)"

definition eb_emit :: "pipeline_event \<Rightarrow> event_bus \<Rightarrow> nat list \<times> event_bus" where
  "eb_emit ev b = eb_wake (event_scanId ev) (eb_push ev b)"

definition eb_end :: "string \<Rightarrow> event_bus \<Rightarrow> nat list \<times> event_bus" where
  "eb_end scanId b = eb_wake scanId (b\<lparr>eb_ended := insert scanId (eb_ended b)\<rparr>)"

definition eb_clear :: "string \<Rightarrow> event_bus \<Rightarrow> event_bus" where
  "eb_clear scanId b = b\<lparr>eb_history := jm_delete scanId (eb_history b),
     eb_waiters := jm_delete scanId (eb_waiters b), eb_ended := eb_ended b - {scanId}\<rparr>"

datatype iter_result = Yield pipeline_event | Done | Park

definition cons_poll :: "event_bus \<Rightarrow> string \<Rightarrow> nat \<Rightarrow> iter_result" where
  "cons_poll b scanId index =
     (let arr = eb_events b scanId
      in if index < length arr then Yield (arr ! index)
         else if scanId \<in> eb_ended b then Done
         else Park)"

definition eb_park :: "string \<Rightarrow> nat \<Rightarrow> event_bus \<Rightarrow> event_bus" where
  "eb_park scanId w b =
     b\<lparr>eb_waiters := jm_set scanId (eb_waiting b scanId @ [w]) (eb_waiters b)\<rparr>"

section \<open>Producers and consumers together\<close>

text \<open>
  A consumer has taken \<open>co_taken\<close> (its \<open>index\<close> is the length), and is running,
  parked or finished.
\<close>

datatype co_mode = Co_running | Co_parked | Co_finished

record consumer =
  co_scan :: string
  co_taken :: "pipeline_event list"
  co_mode :: co_mode

record bus_system =
  bs_bus :: event_bus
  bs_consumers :: "consumer list"

definition wake_consumers :: "nat list \<Rightarrow> consumer list \<Rightarrow> consumer list" where
  "wake_consumers ws cs =
     map (\<lambda>(i, c). if i \<in> set ws \<and> co_mode c = Co_parked then c\<lparr>co_mode := Co_running\<rparr> else c)
       (number_from 0 cs)"

definition bs_emit :: "pipeline_event \<Rightarrow> bus_system \<Rightarrow> bus_system" where
  "bs_emit ev s = (case eb_emit ev (bs_bus s) of (ws, b) \<Rightarrow>
     \<lparr>bs_bus = b, bs_consumers = wake_consumers ws (bs_consumers s)\<rparr>)"

definition bs_end :: "string \<Rightarrow> bus_system \<Rightarrow> bus_system" where
  "bs_end i s = (case eb_end i (bs_bus s) of (ws, b) \<Rightarrow>
     \<lparr>bs_bus = b, bs_consumers = wake_consumers ws (bs_consumers s)\<rparr>)"

definition bs_subscribe :: "string \<Rightarrow> bus_system \<Rightarrow> bus_system" where
  "bs_subscribe i s = s\<lparr>bs_consumers := bs_consumers s @
     [\<lparr>co_scan = i, co_taken = [], co_mode = Co_running\<rparr>]\<rparr>"

definition bs_poll :: "nat \<Rightarrow> bus_system \<Rightarrow> bus_system" where
  "bs_poll k s =
     (let c = bs_consumers s ! k
      in case cons_poll (bs_bus s) (co_scan c) (length (co_taken c)) of
           Yield ev \<Rightarrow> s\<lparr>bs_consumers := (bs_consumers s)[k := c\<lparr>co_taken := co_taken c @ [ev]\<rparr>]\<rparr>
         | Done \<Rightarrow> s\<lparr>bs_consumers := (bs_consumers s)[k := c\<lparr>co_mode := Co_finished\<rparr>]\<rparr>
         | Park \<Rightarrow> \<lparr>bs_bus = eb_park (co_scan c) k (bs_bus s),
                    bs_consumers = (bs_consumers s)[k := c\<lparr>co_mode := Co_parked\<rparr>]\<rparr>)"

inductive bus_step :: "bus_system \<Rightarrow> bus_system \<Rightarrow> bool" where
  bus_emit: "bus_step s (bs_emit ev s)"
| bus_end: "bus_step s (bs_end i s)"
| bus_subscribe: "bus_step s (bs_subscribe i s)"
| bus_poll: "k < length (bs_consumers s) \<Longrightarrow> co_mode (bs_consumers s ! k) = Co_running
    \<Longrightarrow> bus_step s (bs_poll k s)"

inductive_cases bus_stepE: "bus_step s t"

definition bus_init :: bus_system where
  "bus_init = \<lparr>bs_bus = eb_empty, bs_consumers = []\<rparr>"

section \<open>Lemmas\<close>

lemma events_push [simp]:
  "eb_events (eb_push ev b) i = (if i = event_scanId ev then eb_events b i @ [ev] else eb_events b i)"
  by (auto simp: eb_push_def eb_events_def split: option.splits)

lemma events_wake [simp]:
  "eb_events (snd (eb_wake j b)) i = eb_events b i" "eb_ended (snd (eb_wake j b)) = eb_ended b"
  by (auto simp: eb_wake_def eb_events_def split: option.splits list.splits)

lemma waiting_wake [simp]:
  "eb_waiting (snd (eb_wake j b)) i = (if i = j then [] else eb_waiting b i)"
  by (auto simp: eb_wake_def eb_waiting_def split: option.splits list.splits)

lemma woken_wake [simp]: "fst (eb_wake j b) = eb_waiting b j"
  by (auto simp: eb_wake_def eb_waiting_def split: option.splits list.splits)

lemma push_other [simp]:
  "eb_ended (eb_push ev b) = eb_ended b" "eb_waiting (eb_push ev b) i = eb_waiting b i"
  by (auto simp: eb_push_def eb_waiting_def split: option.splits)

lemma ended_update [simp]:
  "eb_events (b\<lparr>eb_ended := E\<rparr>) i = eb_events b i"
  "eb_waiting (b\<lparr>eb_ended := E\<rparr>) i = eb_waiting b i"
  by (simp_all add: eb_events_def eb_waiting_def)

lemma park_simps [simp]:
  "eb_events (eb_park j w b) i = eb_events b i" "eb_ended (eb_park j w b) = eb_ended b"
  "eb_waiting (eb_park j w b) i = (if i = j then eb_waiting b j @ [w] else eb_waiting b i)"
  by (auto simp: eb_park_def eb_events_def eb_waiting_def)

lemma number_from_nth: "k < length xs \<Longrightarrow> number_from n xs ! k = (n + k, xs ! k)"
  by (induction xs arbitrary: n k) (auto simp: nth_Cons split: nat.splits)

lemma wake_length [simp]: "length (wake_consumers ws cs) = length cs"
  by (simp add: wake_consumers_def)

lemma wake_nth:
  "k < length cs \<Longrightarrow> wake_consumers ws cs ! k =
     (if k \<in> set ws \<and> co_mode (cs ! k) = Co_parked then (cs ! k)\<lparr>co_mode := Co_running\<rparr> else cs ! k)"
  by (simp add: wake_consumers_def number_from_nth)

text \<open>
  What a consumer knows: it has taken a prefix of the history; when parked, it has
  taken everything, the stream has not ended and its promise is in the waiter list;
  when finished, it has taken everything and the stream has ended.
\<close>

definition consumer_ok :: "event_bus \<Rightarrow> nat \<Rightarrow> consumer \<Rightarrow> bool" where
  "consumer_ok b k c \<longleftrightarrow>
     co_taken c = take (length (co_taken c)) (eb_events b (co_scan c))
     \<and> (co_mode c = Co_parked \<longrightarrow> co_taken c = eb_events b (co_scan c)
          \<and> co_scan c \<notin> eb_ended b \<and> k \<in> set (eb_waiting b (co_scan c)))
     \<and> (co_mode c = Co_finished \<longrightarrow> co_scan c \<in> eb_ended b)"

definition bus_ok :: "bus_system \<Rightarrow> bool" where
  "bus_ok s \<longleftrightarrow> (\<forall>k < length (bs_consumers s). consumer_ok (bs_bus s) k (bs_consumers s ! k))"

lemma take_prefix_length: "xs = take (length xs) ys \<Longrightarrow> length xs \<le> length ys"
  by (metis length_take min.cobounded1 min.commute)

lemma bs_emit_fields:
  "bs_bus (bs_emit ev s) = snd (eb_wake (event_scanId ev) (eb_push ev (bs_bus s)))"
  "bs_consumers (bs_emit ev s) =
     wake_consumers (eb_waiting (bs_bus s) (event_scanId ev)) (bs_consumers s)"
  by (simp_all add: bs_emit_def eb_emit_def case_prod_unfold)

lemma bs_end_fields:
  "bs_bus (bs_end i s) = snd (eb_wake i ((bs_bus s)\<lparr>eb_ended := insert i (eb_ended (bs_bus s))\<rparr>))"
  "bs_consumers (bs_end i s) = wake_consumers (eb_waiting (bs_bus s) i) (bs_consumers s)"
  by (simp_all add: bs_end_def eb_end_def case_prod_unfold)

lemma consumer_ok_emit:
  assumes "consumer_ok (bs_bus s) k (bs_consumers s ! k)" and "k < length (bs_consumers s)"
  shows "consumer_ok (bs_bus (bs_emit ev s)) k (bs_consumers (bs_emit ev s) ! k)"
  using assms unfolding bs_emit_fields wake_nth[OF assms(2)] consumer_ok_def
  by (auto intro: take_prefix_length)

lemma consumer_ok_end:
  assumes "consumer_ok (bs_bus s) k (bs_consumers s ! k)" and "k < length (bs_consumers s)"
  shows "consumer_ok (bs_bus (bs_end i s)) k (bs_consumers (bs_end i s) ! k)"
  using assms unfolding bs_end_fields wake_nth[OF assms(2)] consumer_ok_def by auto

lemma consumer_ok_park_other:
  "consumer_ok b k c \<Longrightarrow> consumer_ok (eb_park j w b) k c"
  by (auto simp: consumer_ok_def)

lemma consumer_ok_poll:
  assumes ok: "\<And>m. m < length (bs_consumers s) \<Longrightarrow> consumer_ok (bs_bus s) m (bs_consumers s ! m)"
    and k: "k < length (bs_consumers s)" "co_mode (bs_consumers s ! k) = Co_running"
    and m: "m < length (bs_consumers s)"
  shows "consumer_ok (bs_bus (bs_poll k s)) m (bs_consumers (bs_poll k s) ! m)"
proof (cases "m = k")
  case True
  let ?c = "bs_consumers s ! k" and ?h = "eb_events (bs_bus s) (co_scan (bs_consumers s ! k))"
  have pre: "co_taken ?c = take (length (co_taken ?c)) ?h" and c: "consumer_ok (bs_bus s) k ?c"
    using ok[OF k(1)] by (auto simp: consumer_ok_def)
  show ?thesis
  proof (cases "length (co_taken ?c) < length ?h")
    case True
    then have "co_taken ?c @ [?h ! length (co_taken ?c)] = take (Suc (length (co_taken ?c))) ?h"
      using pre by (simp add: take_Suc_conv_app_nth)
    then show ?thesis using \<open>m = k\<close> k True
      by (simp add: bs_poll_def Let_def cons_poll_def consumer_ok_def)
  next
    case False
    then have all: "co_taken ?c = ?h" using pre by simp
    then show ?thesis using \<open>m = k\<close> k
      by (simp add: bs_poll_def Let_def cons_poll_def consumer_ok_def)
  qed
next
  case False
  then show ?thesis using ok[OF m]
    by (auto simp: bs_poll_def Let_def consumer_ok_park_other split: iter_result.splits)
qed

lemma bus_ok_step:
  assumes "bus_ok s" and "bus_step s t" shows "bus_ok t"
  using assms(2)
proof cases
  case (bus_emit ev)
  then show ?thesis using assms(1) consumer_ok_emit[of s _ ev]
    by (simp add: bus_ok_def bs_emit_fields)
next
  case (bus_end i)
  then show ?thesis using assms(1) consumer_ok_end[of s _ i]
    by (simp add: bus_ok_def bs_end_fields)
next
  case (bus_subscribe i)
  then show ?thesis using assms(1)
    by (auto simp: bus_ok_def bs_subscribe_def nth_append less_Suc_eq consumer_ok_def)
next
  case (bus_poll k)
  then have "length (bs_consumers t) = length (bs_consumers s)"
    by (auto simp: bs_poll_def Let_def split: iter_result.splits)
  then show ?thesis using assms(1) bus_poll consumer_ok_poll[of s k]
    by (simp add: bus_ok_def)
qed

interpretation bus: step_invariant "\<lambda>s. s = bus_init" bus_step bus_ok
  by unfold_locales (simp add: bus_ok_def bus_init_def, rule bus_ok_step)

section \<open>Properties\<close>

text \<open>Replay-then-live delivery: whatever the order in which events are emitted,
  streams ended and consumers attached, polled and parked, every consumer has received
  a prefix of its scan's events in emission order; a consumer finishes only on an
  ended stream; and no wake-up is lost: a parked consumer
  has nothing left to receive, its stream has not ended, and its promise is still in
  the waiter list that the next \<open>emit\<close> or \<open>end\<close> resolves.\<close>

lemma replay_then_live:
  assumes "reach (\<lambda>s. s = bus_init) bus_step s" and "k < length (bs_consumers s)"
  defines "c \<equiv> bs_consumers s ! k"
  shows "co_taken c = take (length (co_taken c)) (eb_events (bs_bus s) (co_scan c))
    \<and> (co_mode c = Co_parked \<longrightarrow> co_taken c = eb_events (bs_bus s) (co_scan c)
         \<and> co_scan c \<notin> eb_ended (bs_bus s) \<and> k \<in> set (eb_waiting (bs_bus s) (co_scan c)))
    \<and> (co_mode c = Co_finished \<longrightarrow> co_scan c \<in> eb_ended (bs_bus s))"
  using bus.reachable_inv[OF assms(1)] assms(2) by (simp add: bus_ok_def consumer_ok_def c_def)

lemma replay_then_live_witness:
  "\<exists>s::bus_system. bs_consumers s ! 0 = \<lparr>co_scan = ''s'', co_taken = [], co_mode = Co_parked\<rparr>
     \<and> 0 \<in> set (eb_waiting (bs_bus s) ''s'')"
proof -
  let ?t = "bs_subscribe ''s'' bus_init"
  let ?s = "bs_poll 0 ?t"
  have c: "bs_consumers ?s = [\<lparr>co_scan = ''s'', co_taken = [], co_mode = Co_parked\<rparr>]"
    by (simp add: bs_poll_def bs_subscribe_def bus_init_def cons_poll_def eb_empty_def eb_events_def)
  have "reach (\<lambda>s. s = bus_init) bus_step ?t" by (rule reach_initial_step, rule bus_subscribe)
  moreover have "bus_step ?t ?s"
    by (rule bus_poll) (simp_all add: bs_subscribe_def bus_init_def)
  ultimately have "reach (\<lambda>s. s = bus_init) bus_step ?s" by (rule reach_step)
  from replay_then_live[OF this, of 0] c show ?thesis by (intro exI[of _ ?s]) simp
qed

text \<open>Progress of a consumer: a consumer polled after it was woken (or when it has
  never parked) receives the next event if there is one, in particular emitting to a
  scan makes every consumer parked on it runnable again and its next poll yields the
  event just emitted.\<close>

lemma emit_wakes_parked:
  assumes "reach (\<lambda>s. s = bus_init) bus_step s" and "k < length (bs_consumers s)"
    and "co_mode (bs_consumers s ! k) = Co_parked"
    and "co_scan (bs_consumers s ! k) = event_scanId ev"
  shows "co_mode (bs_consumers (bs_emit ev s) ! k) = Co_running
    \<and> co_taken (bs_consumers (bs_poll k (bs_emit ev s)) ! k) = co_taken (bs_consumers s ! k) @ [ev]"
proof -
  let ?c = "bs_consumers s ! k" and ?t = "bs_emit ev s"
  have "consumer_ok (bs_bus s) k ?c"
    using bus.reachable_inv[OF assms(1)] assms(2) by (simp add: bus_ok_def)
  then have p: "co_taken ?c = eb_events (bs_bus s) (event_scanId ev)"
    "k \<in> set (eb_waiting (bs_bus s) (event_scanId ev))"
    using assms(3,4) by (auto simp: consumer_ok_def)
  then have n: "bs_consumers ?t ! k = ?c\<lparr>co_mode := Co_running\<rparr>"
    using assms(2,3) by (simp add: bs_emit_fields wake_nth)
  moreover have "eb_events (bs_bus ?t) (event_scanId ev) = co_taken ?c @ [ev]"
    using p by (simp add: bs_emit_fields)
  moreover have "k < length (bs_consumers ?t)" using assms(2) by (simp add: bs_emit_fields)
  ultimately show ?thesis using assms(4) by (simp add: bs_poll_def Let_def cons_poll_def)
qed

lemma emit_wakes_parked_witness:
  "\<exists>s::bus_system. co_mode (bs_consumers s ! 0) = Co_parked
     \<and> co_taken (bs_consumers (bs_poll 0 (bs_emit (Scan_started ''s'' ''t0'') s)) ! 0)
         = [Scan_started ''s'' ''t0'']"
proof -
  let ?t = "bs_subscribe ''s'' bus_init"
  let ?s = "bs_poll 0 ?t"
  have c: "bs_consumers ?s = [\<lparr>co_scan = ''s'', co_taken = [], co_mode = Co_parked\<rparr>]"
    by (simp add: bs_poll_def bs_subscribe_def bus_init_def cons_poll_def eb_empty_def eb_events_def)
  have "reach (\<lambda>s. s = bus_init) bus_step ?t" by (rule reach_initial_step, rule bus_subscribe)
  moreover have "bus_step ?t ?s"
    by (rule bus_poll) (simp_all add: bs_subscribe_def bus_init_def)
  ultimately have "reach (\<lambda>s. s = bus_init) bus_step ?s" by (rule reach_step)
  from emit_wakes_parked[OF this, of 0 "Scan_started ''s'' ''t0''"] c
  show ?thesis by (intro exI[of _ ?s]) simp
qed

end
