(* ===== verification/Retry.thy ===== *)
theory Retry
  imports QueueContracts
begin

text \<open>
  \<open>packages/orchestrator/src/retry.ts\<close>. The abort signal is read at three
  instants of every round: before attempt \<open>i\<close> (instant \<open>3 * i\<close>), after it has
  failed (\<open>3 * i + 1\<close>) and while sleeping (\<open>3 * i + 2\<close>); \<open>sg t\<close> is its abort
  reason at instant \<open>t\<close>, if it is aborted by then. The attempt function is called
  with its 0-based index. Beside the outcome the loop returns the attempts it made
  and the delays it asked the sleep function for.
\<close>

definition backoffDelayMs :: "retry_policy \<Rightarrow> nat \<Rightarrow> nat" where
  "backoffDelayMs p retryIndex =
     (case rp_type p of Exponential \<Rightarrow> rp_delay p * 2 ^ retryIndex | Fixed \<Rightarrow> rp_delay p)"

fun isRetriable :: "js_error \<Rightarrow> bool" where
  "isRetriable (Typed e) = me_retriable e"
| "isRetriable (Untyped m) = True"

text \<open>The body of the \<open>for\<close> loop; the last argument is the number of rounds left.\<close>

fun retry_loop :: "retry_policy \<Rightarrow> (nat \<Rightarrow> js_error option) \<Rightarrow> (nat \<Rightarrow> js_error + 'a) \<Rightarrow> nat \<Rightarrow> nat
    \<Rightarrow> (js_error + 'a) \<times> nat list \<times> nat list" where
  "retry_loop p sg fn i 0 = (Inl (Untyped ''undefined''), [], [])"
| "retry_loop p sg fn i (Suc r) =
     (case sg (3 * i) of
        Some reason \<Rightarrow> (Inl reason, [], [])
      | None \<Rightarrow>
          (case fn i of
             Inr a \<Rightarrow> (Inr a, [i], [])
           | Inl err \<Rightarrow>
               if sg (3 * i + 1) \<noteq> None \<or> \<not> isRetriable err then (Inl err, [i], [])
               else if r = 0 then (Inl err, [i], [])
               else (case sg (3 * i + 2) of
                       Some reason \<Rightarrow> (Inl reason, [i], [backoffDelayMs p i])
                     | None \<Rightarrow>
                         (case retry_loop p sg fn (i + 1) r of
                            (res, calls, sleeps) \<Rightarrow>
                              (res, i # calls, backoffDelayMs p i # sleeps)))))"

definition runWithRetry :: "retry_policy \<Rightarrow> (nat \<Rightarrow> js_error option) \<Rightarrow> (nat \<Rightarrow> js_error + 'a)
    \<Rightarrow> (js_error + 'a) \<times> nat list \<times> nat list" where
  "runWithRetry p sg fn = retry_loop p sg fn 0 (max 1 (rp_attempts p))"

section \<open>Lemmas\<close>

lemma retry_loop_calls:
  "retry_loop p sg fn i r = (res, calls, sleeps) \<Longrightarrow>
     calls = [i..<i + length calls] \<and> length calls \<le> r
     \<and> sleeps = map (backoffDelayMs p) [i..<i + length sleeps]
     \<and> length sleeps \<le> length calls \<and> length sleeps < max 1 r"
proof (induction r arbitrary: i res calls sleeps)
  case (Suc r)
  show ?case
  proof (cases "sg (3 * i) = None \<and> (\<exists>err. fn i = Inl err \<and> sg (3 * i + 1) = None \<and>
      isRetriable err) \<and> r \<noteq> 0 \<and> sg (3 * i + 2) = None")
    case True
    obtain res' cs ss where eq: "retry_loop p sg fn (i + 1) r = (res', cs, ss)"
      by (cases "retry_loop p sg fn (i + 1) r") auto
    have shape: "calls = i # cs" "sleeps = backoffDelayMs p i # ss"
      using Suc.prems True eq by auto
    have "cs = [Suc i..<Suc i + length cs]" "length cs \<le> r" "length ss \<le> length cs"
      "ss = map (backoffDelayMs p) [Suc i..<Suc i + length ss]" "length ss < max 1 r"
      using Suc.IH[OF eq] by auto
    moreover have "[i..<i + Suc n] = i # [Suc i..<Suc i + n]" for n
      by (simp add: upt_conv_Cons del: upt_Suc)
    ultimately show ?thesis using shape True by simp
  next
    case False
    then show ?thesis using Suc.prems
      by (auto split: option.splits sum.splits if_splits)
  qed
qed auto

lemma retry_loop_earlier_failed:
  "retry_loop p sg fn i r = (res, calls, sleeps) \<Longrightarrow> i \<le> k \<Longrightarrow> Suc k < i + length calls \<Longrightarrow>
     \<exists>err. fn k = Inl err \<and> isRetriable err \<and> sg (3 * k) = None"
proof (induction r arbitrary: i res calls sleeps)
  case (Suc r)
  show ?case
  proof (cases "sg (3 * i) = None \<and> (\<exists>err. fn i = Inl err \<and> sg (3 * i + 1) = None \<and>
      isRetriable err) \<and> r \<noteq> 0 \<and> sg (3 * i + 2) = None")
    case True
    obtain res' cs ss where eq: "retry_loop p sg fn (i + 1) r = (res', cs, ss)"
      by (cases "retry_loop p sg fn (i + 1) r") auto
    then have "calls = i # cs" using Suc.prems(1) True by auto
    then show ?thesis using True Suc.IH[OF eq] Suc.prems(2,3) by (cases "k = i") auto
  next
    case False
    then have "length calls \<le> 1"
      using Suc.prems(1) by (auto split: option.splits sum.splits if_splits)
    then show ?thesis using Suc.prems(2,3) by simp
  qed
qed simp

lemma retry_loop_result:
  "retry_loop p sg fn i r = (res, calls, sleeps) \<Longrightarrow> r \<noteq> 0 \<Longrightarrow>
     (calls \<noteq> [] \<and> res = fn (last calls))
     \<or> (\<exists>t. \<exists>e. sg t = Some e \<and> res = Inl e \<and> 3 * i \<le> t)"
proof (induction r arbitrary: i res calls sleeps)
  case (Suc r)
  show ?case
  proof (cases "sg (3 * i) = None \<and> (\<exists>err. fn i = Inl err \<and> sg (3 * i + 1) = None \<and>
      isRetriable err) \<and> r \<noteq> 0 \<and> sg (3 * i + 2) = None")
    case True
    obtain res' cs ss where eq: "retry_loop p sg fn (i + 1) r = (res', cs, ss)"
      by (cases "retry_loop p sg fn (i + 1) r") auto
    then have "calls = i # cs" "res = res'" using Suc.prems(1) True by auto
    moreover have "(cs \<noteq> [] \<and> res' = fn (last cs))
       \<or> (\<exists>t. \<exists>e. sg t = Some e \<and> res' = Inl e \<and> 3 * (i + 1) \<le> t)"
      using Suc.IH[OF eq] True by blast
    moreover have "\<And>t. 3 * (i + 1) \<le> t \<Longrightarrow> 3 * i \<le> t" by simp
    ultimately show ?thesis by (metis last_ConsR list.distinct(1))
  next
    case False
    then show ?thesis using Suc.prems(1)
      by (cases "sg (3 * i)"; cases "fn i")
        (auto split: option.splits if_splits intro: exI[of _ "3 * i"] exI[of _ "3 * i + 2"])
  qed
qed simp

lemma retry_loop_exhausts:
  assumes "\<And>k. isRetriable (er k)" and "r \<noteq> 0"
  shows "retry_loop p (\<lambda>t. None) (\<lambda>k. Inl (er k) :: js_error + 'a) i r =
     (Inl (er (i + r - 1)), [i..<i + r], map (backoffDelayMs p) [i..<i + r - 1])"
  using assms(2)
proof (induction r arbitrary: i)
  case (Suc r)
  show ?case
  proof (cases "r = 0")
    case False
    then have "retry_loop p (\<lambda>t. None) (\<lambda>k. Inl (er k) :: js_error + 'a) (i + 1) r =
        (Inl (er (i + r)), [Suc i..<Suc (i + r)], map (backoffDelayMs p) [Suc i..<i + r])"
      using Suc.IH[of "i + 1"] by simp
    moreover have "[i..<i + Suc r] = i # [Suc i..<Suc (i + r)]" "[i..<i + r] = i # [Suc i..<i + r]"
      using False by (simp_all add: upt_conv_Cons del: upt_Suc)
    ultimately show ?thesis using False assms(1)[of i] by (simp del: upt_Suc)
  qed (simp add: assms)
qed simp

lemma retry_loop_definitive:
  "retry_loop p sg fn i r = (res, calls, sleeps) \<Longrightarrow> i + length calls = Suc k \<Longrightarrow> i \<le> k \<Longrightarrow>
     fn k = Inl (Typed e) \<Longrightarrow> \<not> me_retriable e \<Longrightarrow> res = Inl (Typed e)"
proof (induction r arbitrary: i res calls sleeps)
  case (Suc r)
  show ?case
  proof (cases "sg (3 * i) = None \<and> (\<exists>err. fn i = Inl err \<and> sg (3 * i + 1) = None \<and>
      isRetriable err) \<and> r \<noteq> 0 \<and> sg (3 * i + 2) = None")
    case True
    obtain res' cs ss where eq: "retry_loop p sg fn (i + 1) r = (res', cs, ss)"
      by (cases "retry_loop p sg fn (i + 1) r") auto
    then have shape: "calls = i # cs" "res = res'" using Suc.prems(1) True by auto
    have "k \<noteq> i" using True Suc.prems(4,5) by auto
    then show ?thesis using Suc.IH[OF eq] Suc.prems shape by simp
  next
    case False
    then show ?thesis using Suc.prems
      by (auto split: option.splits sum.splits if_splits)
  qed
qed simp

section \<open>Properties\<close>

text \<open>A layer is attempted with the indices 0, 1, 2, ... in order, never more
  than the policy allows; every attempt but the last failed with a retriable error
  while the signal was clear; the delays slept are the backoff of each retry and
  there is none after the last attempt; and the outcome is the one of the last
  attempt, or the abort reason of the kill switch.\<close>

lemma retry_attempts_bounded:
  assumes "runWithRetry p sg fn = (res, calls, sleeps)"
  shows "calls = [0..<length calls] \<and> length calls \<le> max 1 (rp_attempts p)
    \<and> sleeps = map (backoffDelayMs p) [0..<length sleeps] \<and> length sleeps < max 1 (rp_attempts p)
    \<and> (\<forall>k. Suc k < length calls \<longrightarrow> (\<exists>err. fn k = Inl err \<and> isRetriable err \<and> sg (3 * k) = None))
    \<and> ((calls \<noteq> [] \<and> res = fn (last calls)) \<or> (\<exists>t e. sg t = Some e \<and> res = Inl e))"
proof -
  have eq: "retry_loop p sg fn 0 (max 1 (rp_attempts p)) = (res, calls, sleeps)"
    using assms by (simp add: runWithRetry_def)
  from retry_loop_calls[OF eq] retry_loop_earlier_failed[OF eq] retry_loop_result[OF eq]
  show ?thesis by auto
qed

lemma retry_attempts_bounded_witness:
  "\<exists>fn :: nat \<Rightarrow> js_error + nat.
     runWithRetry (RETRY_POLICIES Layer1) (\<lambda>t. None) fn = (Inr 1, [0, 1], [2000])
     \<and> length [0, 1::nat] \<le> max 1 (rp_attempts (RETRY_POLICIES Layer1))"
proof -
  let ?fn = "\<lambda>k::nat. if k = 0 then Inl (Untyped ''reset'') else Inr k"
  have r: "runWithRetry (RETRY_POLICIES Layer1) (\<lambda>t. None) ?fn = (Inr 1, [0, 1], [2000])"
    by code_simp
  show ?thesis using retry_attempts_bounded[OF r] r by blast
qed

text \<open>A definitive failure is surfaced at once: when an attempt that is made
  fails with a typed error that does not mark itself retriable (a spent budget, a
  gate not passed, a kill), it is the last attempt and its error is the outcome.\<close>

lemma definitive_error_not_retried:
  assumes "runWithRetry p sg fn = (res, calls, sleeps)"
    and "k \<in> set calls" and "fn k = Inl (Typed e)" and "\<not> me_retriable e"
  shows "calls = [0..<Suc k] \<and> res = Inl (Typed e)"
proof -
  have eq: "retry_loop p sg fn 0 (max 1 (rp_attempts p)) = (res, calls, sleeps)"
    using assms(1) by (simp add: runWithRetry_def)
  have calls: "calls = [0..<length calls]" using retry_loop_calls[OF eq] by simp
  have k: "k < length calls" using assms(2) calls by (metis atLeastLessThan_iff set_upt)
  have "\<not> Suc k < length calls"
    using retry_loop_earlier_failed[OF eq, of k] assms(3,4) by auto
  then have len: "length calls = Suc k" using k by simp
  then have "calls = [0..<Suc k]" using calls by simp
  moreover have "res = Inl (Typed e)"
    using retry_loop_definitive[OF eq, of k e] assms(3,4) len by simp
  ultimately show ?thesis by simp
qed

lemma definitive_error_not_retried_witness:
  "runWithRetry (RETRY_POLICIES Layer3) (\<lambda>t. None)
     (\<lambda>k. Inl (Typed (GateNotPassedError ''no'' None)) :: js_error + nat)
     = (Inl (Typed (GateNotPassedError ''no'' None)), [0], [])
   \<and> [0] = [0..<Suc 0]"
proof -
  let ?fn = "\<lambda>k::nat. Inl (Typed (GateNotPassedError ''no'' None)) :: js_error + nat"
  have r: "runWithRetry (RETRY_POLICIES Layer3) (\<lambda>t. None) ?fn
     = (Inl (Typed (GateNotPassedError ''no'' None)), [0], [])"
    by code_simp
  have "[0] = [0..<Suc 0] \<and> Inl (Typed (GateNotPassedError ''no'' None)) =
      (Inl (Typed (GateNotPassedError ''no'' None)) :: js_error + nat)"
    by (rule definitive_error_not_retried[OF r, of 0]) (auto simp: montr_error_defs)
  then show ?thesis using r by simp
qed

text \<open>Persistence: when every attempt fails with a retriable error and the kill
  switch is never pressed, the layer is attempted exactly as often as the policy says
  (at least once), it sleeps between attempts for the backoff of each retry, and the
  error of the last attempt is the one reported.\<close>

lemma retriable_errors_exhaust_policy:
  assumes "\<And>k. isRetriable (er k)"
  shows "runWithRetry p (\<lambda>t. None) (\<lambda>k. Inl (er k) :: js_error + 'a) =
    (Inl (er (max 1 (rp_attempts p) - 1)), [0..<max 1 (rp_attempts p)],
     map (backoffDelayMs p) [0..<max 1 (rp_attempts p) - 1])"
  using retry_loop_exhausts[of er "max 1 (rp_attempts p)" p 0] assms
  by (simp add: runWithRetry_def)

lemma retriable_errors_exhaust_policy_witness:
  "runWithRetry (RETRY_POLICIES Layer1) (\<lambda>t. None)
     (\<lambda>k. Inl (Typed (RateLimitExceededError ''slow'' None)) :: js_error + nat)
   = (Inl (Typed (RateLimitExceededError ''slow'' None)), [0, 1, 2], [2000, 4000])"
proof -
  have "[0..<3] = [0, 1, 2::nat]" "[0..<3 - 1] = [0, 1::nat]" by (simp_all add: upt_rec)
  then show ?thesis
    using retriable_errors_exhaust_policy[where er = "\<lambda>k. Typed (RateLimitExceededError ''slow'' None)"
        and p = "RETRY_POLICIES Layer1" and 'a = nat]
    by (simp add: montr_error_defs backoffDelayMs_def)
qed

end
