(* ===== verification/Pricing.thy ===== *)
theory Pricing
  imports Contracts JsString
begin

text \<open>
  \<open>packages/cost-meter/src/pricing.ts\<close>: rounding to micro-dollars, adding token
  usages, resolving a model id against the rate card and pricing a usage. Every
  arithmetic step on money is rounded to a double; token counts stay below 2^53,
  where integer addition of doubles is exact.
\<close>

section \<open>Definitions\<close>

definition roundUsd :: "rat \<Rightarrow> rat" where
  "roundUsd usd = fl64 (of_int (js_round (fl64 (usd * 1000000))) / 1000000)"

definition zeroUsage :: token_usage where
  "zeroUsage = \<lparr>inputTokens = 0, outputTokens = 0, cacheReadTokens = None,
                cacheWriteTokens = None, totalTokens = 0\<rparr>"

fun or_zero :: "int option \<Rightarrow> int" where
  "or_zero None = 0"
| "or_zero (Some n) = n"

definition addUsage :: "token_usage \<Rightarrow> token_usage \<Rightarrow> token_usage" where
  "addUsage a b =
     (let cacheRead = or_zero (cacheReadTokens a) + or_zero (cacheReadTokens b);
          cacheWrite = or_zero (cacheWriteTokens a) + or_zero (cacheWriteTokens b)
      in \<lparr>inputTokens = inputTokens a + inputTokens b,
          outputTokens = outputTokens a + outputTokens b,
          cacheReadTokens = (if cacheRead > 0 then Some cacheRead else None),
          cacheWriteTokens = (if cacheWrite > 0 then Some cacheWrite else None),
          totalTokens = totalTokens a + totalTokens b\<rparr>)"

text \<open>The suffix pattern \<open>-20\<close> followed by six digits at the end of the string.\<close>

definition strip_snapshot :: "string \<Rightarrow> string" where
  "strip_snapshot s =
     (let t = drop (length s - 9) s
      in if 9 \<le> length s \<and> js_startsWith t ''-20'' \<and> list_all is_digit_char (drop 3 t)
         then take (length s - 9) s else s)"

definition normalizeModelId :: "string \<Rightarrow> string" where
  "normalizeModelId modelId =
     strip_snapshot (strip_suffix ''-fast'' (before_first (CHR ''@'')
       (strip_prefix ''anthropic.'' (after_last (CHR ''/'') (js_trim modelId)))))"

definition findModelRate :: "string \<Rightarrow> model_cost_rate option" where
  "findModelRate modelId =
     (let norm = normalizeModelId modelId
      in case find (\<lambda>r. rate_modelId r = modelId) MODEL_COST_RATES of
           Some r \<Rightarrow> Some r
         | None \<Rightarrow>
             (case find (\<lambda>r. rate_modelId r = norm) MODEL_COST_RATES of
                Some r \<Rightarrow> Some r
              | None \<Rightarrow> find (\<lambda>r. normalizeModelId (rate_modelId r) = norm) MODEL_COST_RATES))"

definition BATCH_DISCOUNT_MULTIPLIER :: rat where
  "BATCH_DISCOUNT_MULTIPLIER = 1 / 2"

text \<open>The price expression, with the rounding of each operation and literal.\<close>

definition price_at :: "token_usage \<Rightarrow> model_cost_rate \<Rightarrow> rat" where
  "price_at u rate =
     (let rin = inputPerMillionUsd rate; rout = outputPerMillionUsd rate;
          fresh = fl64 (fl64 (of_int (inputTokens u) / 1000000) * rin);
          cread = fl64 (fl64 (fl64 (of_int (or_zero (cacheReadTokens u)) / 1000000) * rin)
                        * fl64 (1 / 10));
          cwrite = fl64 (fl64 (fl64 (of_int (or_zero (cacheWriteTokens u)) / 1000000) * rin)
                        * (5 / 4));
          outp = fl64 (fl64 (of_int (outputTokens u) / 1000000) * rout)
      in fl64 (fl64 (fl64 (fresh + cread) + cwrite) + outp))"

definition priceUsageUsd :: "token_usage \<Rightarrow> string \<Rightarrow> bool \<Rightarrow> rat" where
  "priceUsageUsd u modelId batch =
     (let rate = findModelRate modelId;
          effectiveRate = (case rate of Some r \<Rightarrow> r | None \<Rightarrow> UNKNOWN_MODEL_FALLBACK_RATE);
          usd = price_at u effectiveRate
      in roundUsd (if batch then fl64 (usd * BATCH_DISCOUNT_MULTIPLIER) else usd))"

section \<open>Rounding to micro-dollars\<close>

lemma roundUsd_0 [simp]: "roundUsd 0 = 0"
  using js_round_int[of 0] by (simp add: roundUsd_def)

lemma roundUsd_mono: "x \<le> y \<Longrightarrow> roundUsd x \<le> roundUsd y"
  unfolding roundUsd_def
  by (intro fl64_mono divide_right_mono of_int_le_iff[THEN iffD2] js_round_mono mult_right_mono) auto

lemma roundUsd_nonneg: "0 \<le> x \<Longrightarrow> 0 \<le> roundUsd x"
  using roundUsd_mono[of 0 x] by simp

lemma roundUsd_dbl [simp]: "fl64 (roundUsd x) = roundUsd x"
  by (simp add: roundUsd_def)

text \<open>An amount of at most 2^50 micro-dollars (over a billion dollars) is a fixed point.\<close>

lemma roundUsd_micro:
  assumes "\<bar>k\<bar> \<le> 2 ^ 50"
  shows "roundUsd (fl64 (of_int k / 1000000)) = fl64 (of_int k / 1000000)"
proof -
  let ?x = "fl64 (of_int k / 1000000)" and ?k = "rat_of_int k"
  have K: "\<bar>?k\<bar> \<le> 2 ^ 50"
  proof -
    have "rat_of_int \<bar>k\<bar> \<le> of_int (2 ^ 50)" using assms by (simp only: of_int_le_iff)
    then show ?thesis by simp
  qed
  have e1: "\<bar>?x - ?k / 1000000\<bar> \<le> \<bar>?k / 1000000\<bar> / 2 ^ 53" by (rule fl64_error)
  then have "\<bar>?x - ?k / 1000000\<bar> * 1000000 \<le> \<bar>?k / 1000000\<bar> / 2 ^ 53 * 1000000"
    by (rule mult_right_mono) simp
  moreover have "\<bar>?x - ?k / 1000000\<bar> * 1000000 = \<bar>?x * 1000000 - ?k\<bar>"
    using abs_mult[of "?x - ?k / 1000000" 1000000] by (simp add: left_diff_distrib)
  ultimately have d1: "\<bar>?x * 1000000 - ?k\<bar> \<le> \<bar>?k\<bar> / 2 ^ 53" by simp
  have d2: "\<bar>fl64 (?x * 1000000) - ?x * 1000000\<bar> \<le> \<bar>?x * 1000000\<bar> / 2 ^ 53"
    by (rule fl64_error)
  have "\<bar>fl64 (?x * 1000000) - ?k\<bar> < 1 / 2"
  proof -
    have "\<bar>?k\<bar> / 2 ^ 53 \<le> 2 ^ 50 / 2 ^ 53" by (rule divide_right_mono[OF K]) simp
    then have s1: "\<bar>?x * 1000000 - ?k\<bar> \<le> 1 / 8" using d1 by simp
    moreover have "\<bar>?x * 1000000\<bar> \<le> \<bar>?x * 1000000 - ?k\<bar> + \<bar>?k\<bar>"
      using abs_triangle_ineq[of "?x * 1000000 - ?k" ?k] by simp
    ultimately have "\<bar>?x * 1000000\<bar> \<le> 2 ^ 51" using K by simp
    then have "\<bar>?x * 1000000\<bar> / 2 ^ 53 \<le> 2 ^ 51 / 2 ^ 53" by (rule divide_right_mono) simp
    then have s2: "\<bar>fl64 (?x * 1000000) - ?x * 1000000\<bar> \<le> 1 / 4" using d2 by simp
    have "\<bar>fl64 (?x * 1000000) - ?k\<bar>
        \<le> \<bar>fl64 (?x * 1000000) - ?x * 1000000\<bar> + \<bar>?x * 1000000 - ?k\<bar>"
      using abs_triangle_ineq[of "fl64 (?x * 1000000) - ?x * 1000000" "?x * 1000000 - ?k"] by simp
    then show ?thesis using s1 s2 by simp
  qed
  then have "js_round (fl64 (?x * 1000000)) = k" by (rule js_round_close)
  then show ?thesis by (simp add: roundUsd_def)
qed

definition micro :: "rat \<Rightarrow> bool" where
  "micro x \<longleftrightarrow> (\<exists>k. \<bar>k\<bar> \<le> 2 ^ 50 \<and> x = fl64 (of_int k / 1000000))"

lemma micro_fixed: "micro x \<Longrightarrow> roundUsd x = x"
  by (auto simp: micro_def roundUsd_micro)

lemma micro_0 [simp]: "micro 0"
  unfolding micro_def by (rule exI[of _ 0]) simp

lemma micro_roundUsd:
  assumes "0 \<le> roundUsd x" and "roundUsd x \<le> 10 ^ 9" shows "micro (roundUsd x)"
proof -
  let ?k = "js_round (fl64 (x * 1000000))"
  have r: "roundUsd x = fl64 (of_int ?k / 1000000)" by (simp add: roundUsd_def)
  have "?k \<le> 2 ^ 50"
  proof (rule ccontr)
    assume "\<not> ?k \<le> 2 ^ 50"
    then have "rat_of_int (2 ^ 50) < of_int ?k" by (simp only: of_int_less_iff)
    then have "(1100000000::rat) \<le> of_int ?k / 1000000" by simp
    then have "fl64 1100000000 \<le> roundUsd x" unfolding r by (rule fl64_mono)
    moreover have "fl64 1100000000 = 1100000000" using fl64_int[of 1100000000] by simp
    ultimately show False using assms(2) by simp
  qed
  moreover have "- 1 \<le> ?k"
  proof (rule ccontr)
    assume "\<not> - 1 \<le> ?k"
    then have "rat_of_int ?k < 0" by simp
    then have "0 < fl64 (- (of_int ?k / 1000000))" by (intro fl64_pos) simp
    then have "roundUsd x < 0" unfolding r fl64_minus by simp
    then show False using assms(1) by simp
  qed
  ultimately show ?thesis unfolding micro_def r by (intro exI[of _ ?k]) auto
qed

section \<open>Usages\<close>

lemma addUsage_comm: "addUsage a b = addUsage b a"
  by (simp add: addUsage_def Let_def add.commute)

lemma or_zero_positive: "or_zero (if n > 0 then Some n else None) = max 0 n"
  by auto

lemma or_zero_valid: "usage_valid u \<Longrightarrow> 0 \<le> or_zero (cacheReadTokens u) \<and> 0 \<le> or_zero (cacheWriteTokens u)"
  by (cases "cacheReadTokens u"; cases "cacheWriteTokens u") (auto simp: usage_valid_def)

lemma addUsage_valid: "usage_valid a \<Longrightarrow> usage_valid b \<Longrightarrow> usage_valid (addUsage a b)"
  by (auto simp: usage_valid_def addUsage_def Let_def)

lemma zeroUsage_valid [simp]: "usage_valid zeroUsage"
  by (simp add: usage_valid_def zeroUsage_def)

lemma addUsage_fields [simp]:
  "inputTokens (addUsage a b) = inputTokens a + inputTokens b"
  "outputTokens (addUsage a b) = outputTokens a + outputTokens b"
  "totalTokens (addUsage a b) = totalTokens a + totalTokens b"
  "or_zero (cacheReadTokens (addUsage a b)) =
     max 0 (or_zero (cacheReadTokens a) + or_zero (cacheReadTokens b))"
  "or_zero (cacheWriteTokens (addUsage a b)) =
     max 0 (or_zero (cacheWriteTokens a) + or_zero (cacheWriteTokens b))"
  by (simp_all add: addUsage_def Let_def or_zero_positive)

lemma addUsage_assoc:
  assumes "usage_valid a" "usage_valid b" "usage_valid c"
  shows "addUsage (addUsage a b) c = addUsage a (addUsage b c)"
proof -
  have "0 \<le> or_zero (cacheReadTokens x) \<and> 0 \<le> or_zero (cacheWriteTokens x)" if "x \<in> {a, b, c}" for x
    using that assms or_zero_valid by blast
  then have "or_zero (cacheReadTokens (addUsage a b)) = or_zero (cacheReadTokens a) + or_zero (cacheReadTokens b)"
    "or_zero (cacheWriteTokens (addUsage a b)) = or_zero (cacheWriteTokens a) + or_zero (cacheWriteTokens b)"
    "or_zero (cacheReadTokens (addUsage b c)) = or_zero (cacheReadTokens b) + or_zero (cacheReadTokens c)"
    "or_zero (cacheWriteTokens (addUsage b c)) = or_zero (cacheWriteTokens b) + or_zero (cacheWriteTokens c)"
    by simp_all
  then show ?thesis
    unfolding addUsage_def[of "addUsage a b" c] addUsage_def[of a "addUsage b c"] Let_def
    by (simp add: add.assoc)
qed

section \<open>Prices\<close>

lemma price_at_mono:
  assumes "usage_valid u" and "0 \<le> inputPerMillionUsd r" "0 \<le> outputPerMillionUsd r"
    and "inputPerMillionUsd r \<le> inputPerMillionUsd r'"
    and "outputPerMillionUsd r \<le> outputPerMillionUsd r'"
  shows "price_at u r \<le> price_at u r'"
proof -
  have n: "0 \<le> fl64 (of_int i / 1000000)" if "0 \<le> i" for i
    using that by (intro dbl.nonneg) simp
  have t: "0 \<le> fl64 (1 / 10)" by (intro dbl.nonneg) simp
  have v: "0 \<le> inputTokens u" "0 \<le> outputTokens u" "0 \<le> or_zero (cacheReadTokens u)"
    "0 \<le> or_zero (cacheWriteTokens u)"
    using assms(1) or_zero_valid[OF assms(1)] by (auto simp: usage_valid_def)
  show ?thesis unfolding price_at_def Let_def
    by (intro fl64_mono add_mono mult_left_mono mult_right_mono n v t assms) simp_all
qed

lemma price_at_nonneg:
  assumes "usage_valid u" and "0 \<le> inputPerMillionUsd r" "0 \<le> outputPerMillionUsd r"
  shows "0 \<le> price_at u r"
proof -
  have v: "0 \<le> inputTokens u" "0 \<le> outputTokens u" "0 \<le> or_zero (cacheReadTokens u)"
    "0 \<le> or_zero (cacheWriteTokens u)"
    using assms(1) or_zero_valid[OF assms(1)] by (auto simp: usage_valid_def)
  show ?thesis unfolding price_at_def Let_def
    by (intro dbl.nonneg add_nonneg_nonneg mult_nonneg_nonneg assms) (use v in auto)
qed

lemma findModelRate_card: "findModelRate m = Some r \<Longrightarrow> r \<in> set MODEL_COST_RATES"
  by (auto simp: findModelRate_def Let_def dest: find_Some_mem split: option.splits)

lemma fallback_nonneg: "0 \<le> inputPerMillionUsd UNKNOWN_MODEL_FALLBACK_RATE"
    "0 \<le> outputPerMillionUsd UNKNOWN_MODEL_FALLBACK_RATE"
  by (simp_all add: UNKNOWN_MODEL_FALLBACK_RATE_def mk_rate_def)

lemma priceUsageUsd_nonneg: "usage_valid u \<Longrightarrow> 0 \<le> priceUsageUsd u m b"
proof -
  assume u: "usage_valid u"
  have "0 \<le> price_at u (case findModelRate m of Some r \<Rightarrow> r | None \<Rightarrow> UNKNOWN_MODEL_FALLBACK_RATE)"
    by (intro price_at_nonneg u)
      (auto split: option.splits dest!: findModelRate_card rate_card_ceiling simp: fallback_nonneg)
  then show ?thesis
    unfolding priceUsageUsd_def Let_def BATCH_DISCOUNT_MULTIPLIER_def
    by (auto intro!: roundUsd_nonneg dbl.nonneg)
qed

lemma priceUsageUsd_dbl: "fl64 (priceUsageUsd u m b) = priceUsageUsd u m b"
  by (simp add: priceUsageUsd_def Let_def)

section \<open>Properties\<close>

text \<open>Unknown models fail closed: a usage billed to a model that is not on the rate
  card costs at least as much as the same usage billed to any model on it, with or
  without the batch discount, in the double arithmetic of the program; so an unlisted
  model never defeats a budget that a listed one would hit.\<close>

lemma unknown_model_never_cheaper:
  assumes "usage_valid u" and "findModelRate unknown = None"
  shows "priceUsageUsd u known batch \<le> priceUsageUsd u unknown batch"
proof -
  let ?k = "case findModelRate known of Some r \<Rightarrow> r | None \<Rightarrow> UNKNOWN_MODEL_FALLBACK_RATE"
  have "price_at u ?k \<le> price_at u UNKNOWN_MODEL_FALLBACK_RATE"
    by (cases "findModelRate known")
      (auto intro!: price_at_mono assms dest!: findModelRate_card rate_card_ceiling)
  then show ?thesis
    unfolding priceUsageUsd_def Let_def assms(2)
    by (auto intro!: roundUsd_mono fl64_mono simp: BATCH_DISCOUNT_MULTIPLIER_def)
qed

lemma unknown_model_never_cheaper_witness:
  "findModelRate ''gpt-x'' = None
   \<and> priceUsageUsd (zeroUsage\<lparr>inputTokens := 2000000, totalTokens := 2000000\<rparr>) ''claude-opus-5'' False
     \<le> priceUsageUsd (zeroUsage\<lparr>inputTokens := 2000000, totalTokens := 2000000\<rparr>) ''gpt-x'' False"
proof -
  have f: "findModelRate ''gpt-x'' = None" by code_simp
  have u: "usage_valid (zeroUsage\<lparr>inputTokens := 2000000, totalTokens := 2000000\<rparr>)"
    by (simp add: usage_valid_def zeroUsage_def)
  show ?thesis using unknown_model_never_cheaper[OF u f] f by simp
qed

text \<open>Accumulated usage does not depend on how it is grouped or ordered:
  \<open>addUsage\<close> is associative and commutative on valid usages and keeps them valid.\<close>

lemma addUsage_monoid:
  assumes "usage_valid a" "usage_valid b" "usage_valid c"
  shows "addUsage (addUsage a b) c = addUsage a (addUsage b c) \<and> addUsage a b = addUsage b a
    \<and> usage_valid (addUsage a b) \<and> totalTokens (addUsage a b) = totalTokens a + totalTokens b"
  using addUsage_assoc[OF assms] addUsage_comm addUsage_valid assms by simp

lemma addUsage_monoid_witness:
  "addUsage (addUsage zeroUsage zeroUsage) zeroUsage = addUsage zeroUsage (addUsage zeroUsage zeroUsage)"
  using addUsage_monoid[of zeroUsage zeroUsage zeroUsage] by simp

end
