(* ===== verification/CostMeter.thy ===== *)
theory CostMeter
  imports Pricing
begin

text \<open>
  \<open>packages/cost-meter/src\<close>: the live meter (\<open>meter.ts\<close>), the pre-scan estimate
  (\<open>estimate.ts\<close>), the reconciliation and hard-halt helper (\<open>variance.ts\<close>) and the
  registry the gateway reads before a call (\<open>registry.ts\<close>). Clock readings are
  arguments (milliseconds).
\<close>

section \<open>The live meter\<close>

record meter_entry =
  en_modelId :: string
  en_usage :: token_usage
  en_layer :: "layer_id option"
  en_batch :: bool

record bucket =
  bk_usage :: token_usage
  bk_usd :: rat

record cost_meter =
  mt_scanId :: string
  mt_startedAt :: int
  mt_byLayer :: "(string, bucket) jsmap"
  mt_byModel :: "(string, bucket) jsmap"
  mt_total :: token_usage
  mt_totalUsd :: rat

definition createCostMeter :: "string \<Rightarrow> int \<Rightarrow> cost_meter" where
  "createCostMeter scanId now = \<lparr>mt_scanId = scanId, mt_startedAt = now, mt_byLayer = [],
     mt_byModel = [], mt_total = zeroUsage, mt_totalUsd = 0\<rparr>"

definition mt_merge :: "string \<Rightarrow> token_usage \<Rightarrow> rat \<Rightarrow> (string, bucket) jsmap \<Rightarrow> (string, bucket) jsmap" where
  "mt_merge key usage usd m =
     (case jm_get m key of
        Some prev \<Rightarrow> jm_set key \<lparr>bk_usage = addUsage (bk_usage prev) usage,
                                bk_usd = roundUsd (fl64 (bk_usd prev + usd))\<rparr> m
      | None \<Rightarrow> jm_set key \<lparr>bk_usage = usage, bk_usd = usd\<rparr> m)"

definition mt_record :: "meter_entry \<Rightarrow> cost_meter \<Rightarrow> cost_meter" where
  "mt_record e m =
     (let usd = priceUsageUsd (en_usage e) (en_modelId e) (en_batch e)
      in m\<lparr>mt_total := addUsage (mt_total m) (en_usage e),
           mt_totalUsd := roundUsd (fl64 (mt_totalUsd m + usd)),
           mt_byLayer := mt_merge
             (case en_layer e of None \<Rightarrow> ''unattributed'' | Some l \<Rightarrow> layer_str l)
             (en_usage e) usd (mt_byLayer m),
           mt_byModel := mt_merge (en_modelId e) (en_usage e) usd (mt_byModel m)\<rparr>)"

definition toLineItems :: "(string, bucket) jsmap \<Rightarrow> cost_line_item list" where
  "toLineItems m = map (\<lambda>(k, b). \<lparr>cl_key = k, cl_usage = bk_usage b, cl_usd = roundUsd (bk_usd b)\<rparr>) m"

definition mt_actual :: "cost_meter \<Rightarrow> int \<Rightarrow> string \<Rightarrow> cost_actual" where
  "mt_actual m now nowIso =
     \<lparr>ca_scanId = mt_scanId m, ca_usage = mt_total m, actualUsd = roundUsd (mt_totalUsd m),
      wallClockSeconds = max 0 (fl64 (of_int (now - mt_startedAt m) / 1000)),
      ca_byLayer = toLineItems (mt_byLayer m), ca_byModel = toLineItems (mt_byModel m),
      ca_updatedAt = nowIso\<rparr>"

record budget_check =
  withinBudget :: bool
  exceeded :: bool
  bc_warn :: bool
  spentUsd :: rat
  spentTokens :: int

text \<open>One ceiling: does the amount exceed it, does it reach the warning threshold?\<close>

definition ceiling_check :: "rat \<Rightarrow> rat option \<Rightarrow> rat \<Rightarrow> bool \<times> bool" where
  "ceiling_check spent ceil pct =
     (case ceil of None \<Rightarrow> (False, False)
      | Some c \<Rightarrow> if spent > c then (True, False)
                   else if spent \<ge> fl64 (c * pct) then (False, True) else (False, False))"

definition mt_checkBudget :: "cost_meter \<Rightarrow> budget_policy \<Rightarrow> budget_check" where
  "mt_checkBudget m p =
     (let usd = roundUsd (mt_totalUsd m);
          tokens = totalTokens (mt_total m);
          c1 = ceiling_check usd (maxUsd p) (warnThresholdPct p);
          c2 = ceiling_check (of_int tokens) (map_option of_int (maxTotalTokens p))
                 (warnThresholdPct p);
          ex = fst c1 \<or> fst c2;
          wn = snd c1 \<or> snd c2
      in \<lparr>withinBudget = (\<not> ex), exceeded = ex, bc_warn = (wn \<and> \<not> ex),
          spentUsd = usd, spentTokens = tokens\<rparr>)"

section \<open>The pre-scan estimate\<close>

fun MODE_MULTIPLIER :: "scan_mode \<Rightarrow> rat" where
  "MODE_MULTIPLIER Full = 1"
| "MODE_MULTIPLIER Diff = fl64 (7 / 20)"

record estimate_input =
  ei_scanId :: string
  ei_mode :: scan_mode
  ei_routeCount :: rat
  ei_sinkCount :: rat
  ei_fileCount :: rat

record estimate_options =
  eo_defaultModelId :: "string option"
  eo_confirmationModelId :: "string option"
  eo_outputRatio :: "rat option"
  eo_tokensPerSecond :: "rat option"

definition lineItem :: "string \<Rightarrow> int \<Rightarrow> rat \<Rightarrow> string \<Rightarrow> cost_line_item" where
  "lineItem key inTok ratio modelId =
     (let outTok = js_round (fl64 (of_int inTok * ratio));
          usage = \<lparr>inputTokens = inTok, outputTokens = outTok, cacheReadTokens = None,
                   cacheWriteTokens = None, totalTokens = inTok + outTok\<rparr>
      in \<lparr>cl_key = key, cl_usage = usage, cl_usd = priceUsageUsd usage modelId False\<rparr>)"

definition count_of :: "rat \<Rightarrow> rat" where
  "count_of x = max 0 (of_int \<lfloor>x\<rfloor>)"

definition estimate_lines :: "estimate_input \<Rightarrow> estimate_options \<Rightarrow> cost_line_item list" where
  "estimate_lines inp opts =
     (let mult = MODE_MULTIPLIER (ei_mode inp);
          ratio = (case eo_outputRatio opts of Some r \<Rightarrow> r | None \<Rightarrow> 1 / 4);
          dm = (case eo_defaultModelId opts of Some m \<Rightarrow> m | None \<Rightarrow> RECOMMENDED_MODEL Default_tier);
          cm = (case eo_confirmationModelId opts of Some m \<Rightarrow> m | None \<Rightarrow> RECOMMENDED_MODEL Confirmation);
          files = count_of (ei_fileCount inp);
          routes = count_of (ei_routeCount inp);
          sinks = count_of (ei_sinkCount inp);
          layer0In = js_round (fl64 (fl64 (fl64 (files * 300) + fl64 (routes * 250)) * mult));
          layer2In = js_round (fl64 (fl64 (fl64 (sinks * 700) + fl64 (routes * 400)) * mult));
          layer3In = js_round (fl64 (fl64 (sinks * 900) * mult));
          layer5In = js_round (fl64 (fl64 (fl64 (routes * 120) + 2000) * mult))
      in [lineItem ''layer0'' layer0In ratio dm, lineItem ''layer2'' layer2In ratio dm,
          lineItem ''layer3'' layer3In ratio cm, lineItem ''layer5'' layer5In ratio dm])"

definition estimateScanCost :: "estimate_input \<Rightarrow> estimate_options \<Rightarrow> string \<Rightarrow> cost_estimate" where
  "estimateScanCost inp opts nowIso =
     (let byLayer = estimate_lines inp opts;
          tps = (case eo_tokensPerSecond opts of Some t \<Rightarrow> t | None \<Rightarrow> 2000);
          usage = fold (\<lambda>l acc. addUsage acc (cl_usage l)) byLayer zeroUsage;
          usd = roundUsd (fold (\<lambda>l acc. fl64 (acc + cl_usd l)) byLayer 0);
          secs = js_round (fl64 (fl64 (of_int (totalTokens usage) / tps) + 30))
      in \<lparr>ce_scanId = Some (ei_scanId inp), ce_mode = ei_mode inp,
          projectedInputTokens = inputTokens usage, projectedOutputTokens = outputTokens usage,
          projectedTotalTokens = totalTokens usage, projectedUsd = usd,
          projectedWallClockSeconds = of_int secs, ce_byLayer = byLayer,
          ce_createdAt = nowIso\<rparr>)"

section \<open>Reconciliation and enforcement\<close>

definition VARIANCE_TARGET_PCT :: rat where
  "VARIANCE_TARGET_PCT = fl64 (3 / 20)"

definition computeVariancePct :: "cost_estimate \<Rightarrow> cost_actual \<Rightarrow> rat" where
  "computeVariancePct est act =
     (if projectedUsd est \<le> 0 then 0
      else fl64 (fl64 (actualUsd act - projectedUsd est) / projectedUsd est))"

definition isWithinVarianceTarget :: "rat \<Rightarrow> rat \<Rightarrow> bool" where
  "isWithinVarianceTarget v target \<longleftrightarrow> \<bar>v\<bar> \<le> target"

definition costPerFindingUsd :: "rat \<Rightarrow> int \<Rightarrow> rat option" where
  "costPerFindingUsd usd n =
     (if n \<le> 0 then None else Some (roundUsd (fl64 (usd / of_int n))))"

record cost_rollup =
  cr_scanId :: string
  cr_estimate :: cost_estimate
  cr_actual :: "cost_actual option"
  cr_costPerFindingUsd :: "rat option"
  cr_variancePct :: "rat option"

definition buildCostRollup :: "string \<Rightarrow> cost_estimate \<Rightarrow> cost_actual option \<Rightarrow> int option \<Rightarrow> cost_rollup" where
  "buildCostRollup scanId est act n =
     (case act of
        None \<Rightarrow> \<lparr>cr_scanId = scanId, cr_estimate = est, cr_actual = None,
                 cr_costPerFindingUsd = None, cr_variancePct = None\<rparr>
      | Some a \<Rightarrow> \<lparr>cr_scanId = scanId, cr_estimate = est, cr_actual = Some a,
                   cr_costPerFindingUsd =
                     (case n of None \<Rightarrow> None | Some k \<Rightarrow> costPerFindingUsd (actualUsd a) k),
                   cr_variancePct = Some (computeVariancePct est a)\<rparr>)"

definition enforceBudget :: "budget_check \<Rightarrow> budget_policy \<Rightarrow> js_error + budget_check" where
  "enforceBudget chk p =
     (if exceeded chk \<and> enforcement p = Hard_halt
      then Inl (Typed (BudgetExceededError ''Budget ceiling exceeded - hard halt''
        (Some [(''spentUsd'', JNum (spentUsd chk)), (''spentTokens'', JNum (of_int (spentTokens chk))),
               (''maxUsd'', (case maxUsd p of None \<Rightarrow> JUndef | Some c \<Rightarrow> JNum c)),
               (''maxTotalTokens'', (case maxTotalTokens p of None \<Rightarrow> JUndef | Some c \<Rightarrow> JNum (of_int c)))])))
      else Inr chk)"

section \<open>The budget registry\<close>

text \<open>A context holds a reference to the live meter, so the type of meters is open.\<close>

record 'm budget_context =
  bx_meter :: 'm
  bx_policy :: budget_policy

type_synonym 'm budget_registry = "(string, 'm budget_context) jsmap"

definition br_register :: "string \<Rightarrow> 'm \<Rightarrow> budget_policy \<Rightarrow> 'm budget_registry \<Rightarrow> 'm budget_registry" where
  "br_register scanId m p r = jm_set scanId \<lparr>bx_meter = m, bx_policy = p\<rparr> r"

definition br_unregister :: "string \<Rightarrow> 'm budget_registry \<Rightarrow> 'm budget_registry" where
  "br_unregister scanId r = jm_delete scanId r"

definition br_get :: "'m budget_registry \<Rightarrow> string \<Rightarrow> 'm budget_context option" where
  "br_get r scanId = jm_get r scanId"

interpretation br: keyed_store br_get
    "\<lambda>k c. br_register k (bx_meter c) (bx_policy c)" br_unregister
  by unfold_locales (simp_all add: br_get_def br_register_def br_unregister_def)

section \<open>Lemmas\<close>

abbreviation bucket_sum :: "(token_usage \<Rightarrow> int) \<Rightarrow> (string, bucket) jsmap \<Rightarrow> int" where
  "bucket_sum f m \<equiv> sum_list (map (\<lambda>p. f (bk_usage (snd p))) m)"

lemma jm_set_sum:
  fixes f :: "'v \<Rightarrow> int"
  assumes "distinct (jm_keys m)"
  shows "sum_list (map (\<lambda>p. f (snd p)) (jm_set k v m)) =
    sum_list (map (\<lambda>p. f (snd p)) m) + f v - (case jm_get m k of None \<Rightarrow> 0 | Some w \<Rightarrow> f w)"
  using assms
proof (induction m)
  case (Cons p m)
  obtain k' w where p: "p = (k', w)" by (cases p)
  have "map_of m k' = None" using Cons.prems by (simp add: p jm_keys_def map_of_eq_None_iff)
  then show ?case using Cons by (auto simp: p jm_set_def jm_get_def jm_keys_def)
qed (simp add: jm_set_def)

lemma merge_sum:
  assumes "distinct (jm_keys m)" and add: "\<And>a b. f (addUsage a b) = f a + f b"
  shows "bucket_sum f (mt_merge key u usd m) = bucket_sum f m + f u"
  using jm_set_sum[OF assms(1), of "\<lambda>b. f (bk_usage b)" key]
  by (auto simp: mt_merge_def add split: option.splits)

lemma merge_distinct: "distinct (jm_keys m) \<Longrightarrow> distinct (jm_keys (mt_merge key u usd m))"
  by (auto simp: mt_merge_def jm_distinct_set split: option.splits)

text \<open>The accounting invariant of a meter.\<close>

definition meter_ok :: "cost_meter \<Rightarrow> bool" where
  "meter_ok m \<longleftrightarrow> distinct (jm_keys (mt_byLayer m)) \<and> distinct (jm_keys (mt_byModel m))
     \<and> (\<forall>f \<in> {totalTokens, inputTokens, outputTokens}.
          bucket_sum f (mt_byLayer m) = f (mt_total m) \<and> bucket_sum f (mt_byModel m) = f (mt_total m))"

lemma meter_ok_create: "meter_ok (createCostMeter i t)"
  by (simp add: meter_ok_def createCostMeter_def jm_keys_def zeroUsage_def)

lemma meter_ok_record: "meter_ok m \<Longrightarrow> meter_ok (mt_record e m)"
  unfolding meter_ok_def by (simp add: mt_record_def Let_def merge_distinct merge_sum)

inductive meter_step :: "cost_meter \<Rightarrow> cost_meter \<Rightarrow> bool" where
  meter_record: "usage_valid (en_usage e) \<Longrightarrow> meter_step m (mt_record e m)"

inductive_cases meter_stepE: "meter_step m m'"

definition meter_inv :: "cost_meter \<Rightarrow> bool" where
  "meter_inv m \<longleftrightarrow> meter_ok m \<and> usage_valid (mt_total m) \<and> 0 \<le> mt_totalUsd m
     \<and> (\<exists>x. mt_totalUsd m = roundUsd x)"

lemma meter_inv_record:
  assumes "meter_inv m" and "usage_valid (en_usage e)" shows "meter_inv (mt_record e m)"
proof -
  have "0 \<le> roundUsd (fl64 (mt_totalUsd m + priceUsageUsd (en_usage e) (en_modelId e) (en_batch e)))"
    using assms by (intro roundUsd_nonneg dbl.nonneg add_nonneg_nonneg priceUsageUsd_nonneg)
      (auto simp: meter_inv_def)
  moreover have "meter_ok (mt_record e m)" using assms meter_ok_record by (simp add: meter_inv_def)
  moreover have "usage_valid (mt_total (mt_record e m))"
    using assms by (simp add: mt_record_def Let_def meter_inv_def addUsage_valid)
  ultimately show ?thesis by (auto simp: meter_inv_def mt_record_def Let_def)
qed

interpretation meter: step_invariant "\<lambda>m. \<exists>i t. m = createCostMeter i t" meter_step meter_inv
proof
  fix s :: cost_meter assume "\<exists>i t. s = createCostMeter i t"
  then obtain i t where s: "s = createCostMeter i t" by blast
  have "mt_totalUsd s = roundUsd 0" by (simp add: s createCostMeter_def)
  moreover have "0 \<le> mt_totalUsd s" "usage_valid (mt_total s)"
    by (simp_all add: s createCostMeter_def)
  ultimately show "meter_inv s" unfolding meter_inv_def using meter_ok_create s by blast
next
  fix s t assume "meter_inv s" and "meter_step s t"
  then show "meter_inv t" by (auto elim!: meter_stepE intro: meter_inv_record)
qed

lemma ceiling_mono: "a \<le> b \<Longrightarrow> fst (ceiling_check a c p) \<Longrightarrow> fst (ceiling_check b c p)"
  by (auto simp: ceiling_check_def split: option.splits if_splits)

lemma record_grows:
  assumes "meter_inv m" and "usage_valid (en_usage e)" and "mt_totalUsd m \<le> 10 ^ 9"
  shows "roundUsd (mt_totalUsd m) = mt_totalUsd m \<and> mt_totalUsd m \<le> mt_totalUsd (mt_record e m)
    \<and> totalTokens (mt_total m) \<le> totalTokens (mt_total (mt_record e m))"
proof -
  obtain x where x: "mt_totalUsd m = roundUsd x" using assms(1) by (auto simp: meter_inv_def)
  have mic: "micro (mt_totalUsd m)"
    using micro_roundUsd[of x] assms x by (simp add: meter_inv_def)
  have "mt_totalUsd m \<le> fl64 (mt_totalUsd m + priceUsageUsd (en_usage e) (en_modelId e) (en_batch e))"
    using x priceUsageUsd_nonneg[OF assms(2)] by (intro dbl.add_ge) auto
  then have "roundUsd (mt_totalUsd m) \<le> mt_totalUsd (mt_record e m)"
    unfolding mt_record_def Let_def by (simp add: roundUsd_mono)
  then show ?thesis using micro_fixed[OF mic] assms(2)
    by (simp add: mt_record_def Let_def usage_valid_def)
qed

lemma roundUsd_total_mono:
  assumes "meter_inv m" and "usage_valid (en_usage e)" and "mt_totalUsd m \<le> 10 ^ 9"
  shows "roundUsd (mt_totalUsd m) \<le> roundUsd (mt_totalUsd (mt_record e m))"
  using record_grows[OF assms] by (intro roundUsd_mono) simp

lemma fold_addUsage_fields:
  "totalTokens (fold (\<lambda>l acc. addUsage acc (cl_usage l)) ls u) =
     totalTokens u + sum_list (map (\<lambda>l. totalTokens (cl_usage l)) ls)"
  "inputTokens (fold (\<lambda>l acc. addUsage acc (cl_usage l)) ls u) =
     inputTokens u + sum_list (map (\<lambda>l. inputTokens (cl_usage l)) ls)"
  "outputTokens (fold (\<lambda>l acc. addUsage acc (cl_usage l)) ls u) =
     outputTokens u + sum_list (map (\<lambda>l. outputTokens (cl_usage l)) ls)"
  by (induction ls arbitrary: u) auto

text \<open>More input tokens never make a line cheaper.\<close>

lemma price_at_usage_mono:
  assumes "inputTokens u \<le> inputTokens v" "outputTokens u \<le> outputTokens v"
    and "cacheReadTokens u = cacheReadTokens v" "cacheWriteTokens u = cacheWriteTokens v"
    and "0 \<le> inputPerMillionUsd r" "0 \<le> outputPerMillionUsd r"
  shows "price_at u r \<le> price_at v r"
  unfolding price_at_def Let_def assms(3,4)
  by (intro fl64_mono add_mono mult_right_mono divide_right_mono order_refl)
    (use assms in auto)

lemma priceUsageUsd_usage_mono:
  assumes "inputTokens u \<le> inputTokens v" "outputTokens u \<le> outputTokens v"
    and "cacheReadTokens u = cacheReadTokens v" "cacheWriteTokens u = cacheWriteTokens v"
  shows "priceUsageUsd u m False \<le> priceUsageUsd v m False"
proof -
  let ?r = "case findModelRate m of Some r \<Rightarrow> r | None \<Rightarrow> UNKNOWN_MODEL_FALLBACK_RATE"
  have "0 \<le> inputPerMillionUsd ?r" "0 \<le> outputPerMillionUsd ?r"
    by (auto split: option.splits dest!: findModelRate_card rate_card_ceiling simp: fallback_nonneg)
  then show ?thesis unfolding priceUsageUsd_def Let_def
    by (auto intro!: roundUsd_mono price_at_usage_mono assms)
qed

definition line_le :: "cost_line_item \<Rightarrow> cost_line_item \<Rightarrow> bool" where
  "line_le k l \<longleftrightarrow> totalTokens (cl_usage k) \<le> totalTokens (cl_usage l) \<and> cl_usd k \<le> cl_usd l"

lemma lineItem_mono:
  assumes "i \<le> j" and "0 \<le> ratio" shows "line_le (lineItem k i ratio m) (lineItem k j ratio m)"
proof -
  have "js_round (fl64 (of_int i * ratio)) \<le> js_round (fl64 (of_int j * ratio))"
    using assms by (intro js_round_mono fl64_mono mult_right_mono) auto
  then show ?thesis using assms(1)
    by (auto simp: line_le_def lineItem_def Let_def intro!: priceUsageUsd_usage_mono)
qed

lemma MODE_MULTIPLIER_bounds: "0 \<le> MODE_MULTIPLIER m \<and> MODE_MULTIPLIER m \<le> MODE_MULTIPLIER Full"
  using dbl.unit[of "7 / 20"] by (cases m) auto

lemma count_of_mono: "x \<le> y \<Longrightarrow> count_of x \<le> count_of y"
  by (auto simp: count_of_def floor_mono le_max_iff_disj)

lemma count_of_nonneg [simp]: "0 \<le> count_of x"
  by (simp add: count_of_def)

lemma estimate_lines_mono:
  assumes "ei_fileCount a \<le> ei_fileCount b" "ei_routeCount a \<le> ei_routeCount b"
    and "ei_sinkCount a \<le> ei_sinkCount b" and "ei_mode a = ei_mode b \<or> ei_mode b = Full"
    and "0 \<le> (case eo_outputRatio opts of Some r \<Rightarrow> r | None \<Rightarrow> 1 / 4)"
  shows "list_all2 line_le (estimate_lines a opts) (estimate_lines b opts)"
proof -
  have mm: "MODE_MULTIPLIER (ei_mode a) \<le> MODE_MULTIPLIER (ei_mode b)" "0 \<le> MODE_MULTIPLIER (ei_mode a)"
    using assms(4) MODE_MULTIPLIER_bounds[of "ei_mode a"] by auto
  have cm: "count_of (ei_fileCount a) \<le> count_of (ei_fileCount b)"
    "count_of (ei_routeCount a) \<le> count_of (ei_routeCount b)"
    "count_of (ei_sinkCount a) \<le> count_of (ei_sinkCount b)"
    using assms by (auto intro: count_of_mono)
  show ?thesis unfolding estimate_lines_def Let_def list_all2_Cons list_all2_Nil
    by (intro conjI TrueI lineItem_mono js_round_mono fl64_mono mult_mono add_mono mm cm order_refl
        dbl.nonneg add_nonneg_nonneg mult_nonneg_nonneg assms(5) count_of_nonneg) simp_all
qed

lemma line_sums_mono:
  "list_all2 line_le ks ls \<Longrightarrow>
     sum_list (map (\<lambda>l. totalTokens (cl_usage l)) ks) \<le> sum_list (map (\<lambda>l. totalTokens (cl_usage l)) ls)"
  by (induction rule: list_all2_induct) (auto simp: line_le_def)

lemma fold_usd_mono:
  "list_all2 line_le ks ls \<Longrightarrow> x \<le> y \<Longrightarrow>
     fold (\<lambda>l acc. fl64 (acc + cl_usd l)) ks x \<le> fold (\<lambda>l acc. fl64 (acc + cl_usd l)) ls y"
proof (induction ks ls arbitrary: x y rule: list_all2_induct)
  case (Cons k ks l ls)
  have "fl64 (x + cl_usd k) \<le> fl64 (y + cl_usd l)"
    using Cons.hyps(1) Cons.prems by (intro fl64_mono add_mono) (auto simp: line_le_def)
  then show ?case using Cons.IH by simp
qed simp

section \<open>Properties\<close>

text \<open>No usage is lost or counted twice in the breakdowns: after any sequence of
  recorded calls, the input, output and total tokens summed over the per-layer lines, and
  summed over the per-model lines, of the reported actuals are the totals of the scan.\<close>

lemma meter_breakdowns_conserve_usage:
  assumes "reach (\<lambda>m. \<exists>i t. m = createCostMeter i t) meter_step m"
    and "f \<in> {totalTokens, inputTokens, outputTokens}"
  shows "sum_list (map (\<lambda>l. f (cl_usage l)) (ca_byLayer (mt_actual m now ts))) = f (ca_usage (mt_actual m now ts))
    \<and> sum_list (map (\<lambda>l. f (cl_usage l)) (ca_byModel (mt_actual m now ts))) = f (ca_usage (mt_actual m now ts))"
proof -
  have "meter_ok m" using meter.reachable_inv[OF assms(1)] by (simp add: meter_inv_def)
  moreover have "map (\<lambda>l. f (cl_usage l)) (toLineItems bs) = map (\<lambda>p. f (bk_usage (snd p))) bs" for bs
    by (simp add: toLineItems_def case_prod_unfold)
  ultimately show ?thesis using assms(2) unfolding meter_ok_def mt_actual_def by auto
qed

lemma meter_breakdowns_conserve_usage_witness:
  "sum_list (map (\<lambda>l. totalTokens (cl_usage l)) (ca_byLayer (mt_actual
     (mt_record \<lparr>en_modelId = ''claude-opus-5'', en_usage = zeroUsage\<lparr>totalTokens := 7\<rparr>,
                  en_layer = Some Layer2, en_batch = False\<rparr> (createCostMeter ''s'' 0)) 5 ''t''))) = 7"
proof -
  let ?e = "\<lparr>en_modelId = ''claude-opus-5'', en_usage = zeroUsage\<lparr>totalTokens := 7\<rparr>,
             en_layer = Some Layer2, en_batch = False\<rparr>"
  let ?m = "mt_record ?e (createCostMeter ''s'' 0)"
  have "reach (\<lambda>m. \<exists>i t. m = createCostMeter i t) meter_step ?m"
    by (rule reach_step[OF reach_start]; (rule meter_record)?)
      (auto simp: usage_valid_def zeroUsage_def)
  from meter_breakdowns_conserve_usage[OF this, of totalTokens 5 "''t''"]
  show ?thesis by (simp add: mt_actual_def mt_record_def Let_def createCostMeter_def zeroUsage_def)
qed

text \<open>A spent budget stays spent: once the check says the ceiling (in dollars or in
  tokens) is exceeded, recording a further call cannot make it pass again, whatever the
  policy; the reported spend never goes down. This holds in double arithmetic for a spend
  of up to a billion dollars, where micro-dollar rounding is stable.\<close>

lemma exceeded_is_permanent:
  assumes "reach (\<lambda>m. \<exists>i t. m = createCostMeter i t) meter_step m" and "meter_step m m'"
    and "mt_totalUsd m \<le> 10 ^ 9"
  shows "(exceeded (mt_checkBudget m p) \<longrightarrow> exceeded (mt_checkBudget m' p))
    \<and> spentUsd (mt_checkBudget m p) \<le> spentUsd (mt_checkBudget m' p)
    \<and> spentTokens (mt_checkBudget m p) \<le> spentTokens (mt_checkBudget m' p)"
proof -
  from assms(2) obtain e where m': "m' = mt_record e m" and v: "usage_valid (en_usage e)"
    by (rule meter_stepE)
  note inv = meter.reachable_inv[OF assms(1)]
  have u: "roundUsd (mt_totalUsd m) \<le> roundUsd (mt_totalUsd m')"
    using roundUsd_total_mono[OF inv v assms(3)] m' by simp
  have t: "totalTokens (mt_total m) \<le> totalTokens (mt_total m')"
    using record_grows[OF inv v assms(3)] m' by simp
  then have "rat_of_int (totalTokens (mt_total m)) \<le> of_int (totalTokens (mt_total m'))"
    by (simp only: of_int_le_iff)
  note c = ceiling_mono[OF u] ceiling_mono[OF this]
  have "exceeded (mt_checkBudget m p) \<Longrightarrow> exceeded (mt_checkBudget m' p)"
    unfolding mt_checkBudget_def Let_def budget_check.simps by (erule disj_forward) (erule c)+
  then show ?thesis using u t by (simp add: mt_checkBudget_def Let_def)
qed

lemma exceeded_is_permanent_witness:
  "\<exists>m m'. meter_step m m' \<and> spentTokens (mt_checkBudget m
       \<lparr>maxUsd = None, maxTotalTokens = Some 5, enforcement = Hard_halt,
        requireEstimateApproval = True, warnThresholdPct = 1\<rparr>) \<le> spentTokens (mt_checkBudget m'
       \<lparr>maxUsd = None, maxTotalTokens = Some 5, enforcement = Hard_halt,
        requireEstimateApproval = True, warnThresholdPct = 1\<rparr>)"
proof -
  let ?e = "\<lparr>en_modelId = ''claude-opus-5'', en_usage = zeroUsage\<lparr>totalTokens := 7\<rparr>,
             en_layer = Some Layer2, en_batch = False\<rparr>"
  let ?m = "createCostMeter ''s'' 0"
  have "reach (\<lambda>m. \<exists>i t. m = createCostMeter i t) meter_step ?m" by (rule reach_start) blast
  moreover have st: "meter_step ?m (mt_record ?e ?m)"
    by (rule meter_record) (simp add: usage_valid_def zeroUsage_def)
  moreover have "mt_totalUsd ?m \<le> 10 ^ 9" by (simp add: createCostMeter_def)
  ultimately show ?thesis using exceeded_is_permanent[of ?m "mt_record ?e ?m"] by blast
qed

text \<open>The budget check means what the policy says: it is exceeded exactly when the
  rounded spend is strictly above the dollar ceiling or the tokens above the token ceiling;
  it never warns and halts at once; and enforcing it throws exactly for an exceeded check
  under \<open>hard_halt\<close>, with the non-retriable budget error, and otherwise passes it on.\<close>

lemma budget_check_and_enforcement:
  "(exceeded (mt_checkBudget m p) \<longleftrightarrow>
      (\<exists>c. maxUsd p = Some c \<and> c < roundUsd (mt_totalUsd m))
      \<or> (\<exists>c. maxTotalTokens p = Some c \<and> c < totalTokens (mt_total m)))
   \<and> withinBudget (mt_checkBudget m p) = (\<not> exceeded (mt_checkBudget m p))
   \<and> \<not> (bc_warn (mt_checkBudget m p) \<and> exceeded (mt_checkBudget m p))
   \<and> (if exceeded (mt_checkBudget m p) \<and> enforcement p = Hard_halt
        then \<exists>e. enforceBudget (mt_checkBudget m p) p = Inl (Typed e)
               \<and> me_code e = BUDGET_EXCEEDED \<and> \<not> me_retriable e
        else enforceBudget (mt_checkBudget m p) p = Inr (mt_checkBudget m p))"
proof -
  have "fst (ceiling_check s c q) \<longleftrightarrow> (\<exists>k. c = Some k \<and> k < s)" for s c q
    by (auto simp: ceiling_check_def split: option.splits)
  then show ?thesis by (auto simp: mt_checkBudget_def Let_def enforceBudget_def montr_error_defs)
qed

text \<open>The estimate is consistent and monotone: the projected tokens are the sums of
  its lines and total is input plus output; and a scan with at least as many files, routes
  and sinks, in full instead of diff mode or in the same mode, is never projected to need
  fewer tokens, less money or less time (with the same models and non-negative ratios).\<close>

lemma estimate_monotone:
  fixes ts :: string
  assumes "ei_fileCount a \<le> ei_fileCount b" "ei_routeCount a \<le> ei_routeCount b"
    and "ei_sinkCount a \<le> ei_sinkCount b"
    and "ei_mode a = ei_mode b \<or> ei_mode b = Full"
    and "\<forall>r \<in> set_option (eo_outputRatio opts). 0 \<le> r"
    and "\<forall>t \<in> set_option (eo_tokensPerSecond opts). 0 < t"
  defines "ea \<equiv> estimateScanCost a opts ts" and "eb \<equiv> estimateScanCost b opts ts"
  shows "projectedTotalTokens ea = projectedInputTokens ea + projectedOutputTokens ea
    \<and> projectedInputTokens ea = sum_list (map (\<lambda>l. inputTokens (cl_usage l)) (ce_byLayer ea))
    \<and> projectedTotalTokens ea \<le> projectedTotalTokens eb
    \<and> projectedUsd ea \<le> projectedUsd eb
    \<and> projectedWallClockSeconds ea \<le> projectedWallClockSeconds eb"
proof -
  let ?ratio = "case eo_outputRatio opts of Some r \<Rightarrow> r | None \<Rightarrow> 1 / 4"
  let ?tps = "case eo_tokensPerSecond opts of Some t \<Rightarrow> t | None \<Rightarrow> 2000"
  have r: "0 \<le> ?ratio" using assms(5) by (auto split: option.splits)
  have tp: "0 < ?tps" using assms(6) by (auto split: option.splits)
  have le: "list_all2 line_le (estimate_lines a opts) (estimate_lines b opts)"
    by (rule estimate_lines_mono[OF assms(1-4) r])
  then have tok: "projectedTotalTokens ea \<le> projectedTotalTokens eb"
    by (simp add: ea_def eb_def estimateScanCost_def Let_def fold_addUsage_fields line_sums_mono)
  have "fold (\<lambda>l acc. fl64 (acc + cl_usd l)) (estimate_lines a opts) 0
      \<le> fold (\<lambda>l acc. fl64 (acc + cl_usd l)) (estimate_lines b opts) 0"
    by (rule fold_usd_mono[OF le]) simp
  then have usd: "projectedUsd ea \<le> projectedUsd eb"
    by (simp add: ea_def eb_def estimateScanCost_def Let_def roundUsd_mono)
  have w: "projectedWallClockSeconds e =
      of_int (js_round (fl64 (fl64 (of_int (projectedTotalTokens e) / ?tps) + 30)))"
    if "e = estimateScanCost x opts ts" for e x
    using that by (simp add: estimateScanCost_def Let_def)
  have "fl64 (fl64 (of_int (projectedTotalTokens ea) / ?tps) + 30)
      \<le> fl64 (fl64 (of_int (projectedTotalTokens eb) / ?tps) + 30)"
    using tok tp by (intro fl64_mono add_mono divide_right_mono) (auto intro: less_imp_le)
  then have "projectedWallClockSeconds ea \<le> projectedWallClockSeconds eb"
    using w[of ea a] w[of eb b] js_round_mono by (simp add: ea_def eb_def)
  moreover have "projectedTotalTokens ea = projectedInputTokens ea + projectedOutputTokens ea
    \<and> projectedInputTokens ea = sum_list (map (\<lambda>l. inputTokens (cl_usage l)) (ce_byLayer ea))"
    by (simp add: ea_def estimateScanCost_def Let_def fold_addUsage_fields)
      (simp add: estimate_lines_def Let_def lineItem_def zeroUsage_def)
  ultimately show ?thesis using tok usd by simp
qed

lemma estimate_monotone_witness:
  "projectedTotalTokens (estimateScanCost \<lparr>ei_scanId = ''s'', ei_mode = Diff, ei_routeCount = 1,
      ei_sinkCount = 1, ei_fileCount = 1\<rparr> \<lparr>eo_defaultModelId = None, eo_confirmationModelId = None,
      eo_outputRatio = None, eo_tokensPerSecond = None\<rparr> ''t'')
   \<le> projectedTotalTokens (estimateScanCost \<lparr>ei_scanId = ''s'', ei_mode = Full, ei_routeCount = 2,
      ei_sinkCount = 1, ei_fileCount = 1\<rparr> \<lparr>eo_defaultModelId = None, eo_confirmationModelId = None,
      eo_outputRatio = None, eo_tokensPerSecond = None\<rparr> ''t'')"
  using estimate_monotone[of "\<lparr>ei_scanId = ''s'', ei_mode = Diff, ei_routeCount = 1,
      ei_sinkCount = 1, ei_fileCount = 1\<rparr>" "\<lparr>ei_scanId = ''s'', ei_mode = Full, ei_routeCount = 2,
      ei_sinkCount = 1, ei_fileCount = 1\<rparr>" "\<lparr>eo_defaultModelId = None, eo_confirmationModelId = None,
      eo_outputRatio = None, eo_tokensPerSecond = None\<rparr>" "''t''"] by simp

end
