(* ===== verification/Controller.thy ===== *)
theory Controller
  imports Fsm StateStore KillSwitch EventBus Retry CostMeter
begin

text \<open>
  \<open>packages/orchestrator/src/controller.ts\<close>, with \<open>persist.ts\<close> and the in-process
  \<open>InlineJobScheduler\<close> of \<open>scheduler.ts\<close>. Every public operation is one step on the
  controller's state; a layer job takes two: \<open>runLayerJob\<close> up to the call of the layer
  runner (\<open>beginLayerJob\<close>) and from its outcome to the end (\<open>finishLayerJob\<close>), so that
  every operation may land while a layer runs. The row the job read at its start is kept
  in \<open>oc_running\<close>: it goes stale exactly as the captured object does. Cost meters are
  shared objects and live in a heap. \<open>op_ctx\<close> holds what an operation reads from outside:
  the clock, a fresh id, and whether the audit backend accepts an append.
\<close>

section \<open>State\<close>

record op_ctx =
  cx_now :: string
  cx_ms :: int
  cx_id :: string
  cx_auditOk :: bool

record running_job =
  rj_job :: layer_job
  rj_scan :: scan
  rj_signal :: nat
  rj_meter :: nat

record orch =
  oc_store :: state_store
  oc_audit :: "audit_input list"
  oc_bus :: event_bus
  oc_kills :: kill_registry
  oc_heap :: "nat \<Rightarrow> cost_meter"
  oc_nextMeter :: nat
  oc_meters :: "(string, nat) jsmap"
  oc_caches :: "(string, (layer_id, layer_output) jsmap) jsmap"
  oc_warned :: "string set"
  oc_scanClient :: "(string, string) jsmap"
  oc_registry :: "nat budget_registry"
  oc_queue :: "layer_job list"
  oc_closed :: bool
  oc_schedulerStarted :: bool
  oc_running :: "running_job option"

type_synonym oc_result = "(orch, js_error) outcome"

section \<open>Support operations\<close>

definition oc_emit :: "pipeline_event \<Rightarrow> orch \<Rightarrow> orch" where
  "oc_emit ev s = s\<lparr>oc_bus := snd (eb_emit ev (oc_bus s))\<rparr>"

definition safeAudit :: "op_ctx \<Rightarrow> audit_input \<Rightarrow> orch \<Rightarrow> orch" where
  "safeAudit cx inp s = (if cx_auditOk cx then s\<lparr>oc_audit := oc_audit s @ [inp]\<rparr> else s)"

definition SYSTEM_ACTOR :: audit_actor where
  "SYSTEM_ACTOR = \<lparr>ac_type = System, ac_id = ''orchestrator'', ac_role = None\<rparr>"

definition userActor :: "string \<Rightarrow> role \<Rightarrow> audit_actor" where
  "userActor i r = \<lparr>ac_type = User, ac_id = i, ac_role = Some r\<rparr>"

definition killActor :: "kill_signal \<Rightarrow> audit_actor" where
  "killActor sg = \<lparr>ac_type = User, ac_id = ks_requestedBy sg, ac_role = ks_requestedByRole sg\<rparr>"

fun err_envelope :: "js_error \<Rightarrow> error_envelope" where
  "err_envelope (Typed e) = to_envelope e"
| "err_envelope (Untyped m) = \<lparr>env_code = INTERNAL, env_message = m, env_retriable = False,
     env_details = None\<rparr>"

definition clampPct :: "rat \<Rightarrow> rat" where
  "clampPct n = max 0 (min 100 n)"

text \<open>An audit record of the controller: client, scan, action, actor, summary, metadata.\<close>

definition mk_audit :: "string \<Rightarrow> string option \<Rightarrow> string \<Rightarrow> audit_actor \<Rightarrow> string
    \<Rightarrow> (string \<times> json) list \<Rightarrow> audit_input" where
  "mk_audit c i a act sm md = \<lparr>ai_clientId = c, ai_scanId = i, ai_actor = act, ai_action = a,
     ai_targetType = None, ai_targetId = None, ai_summary = sm, ai_metadata = md\<rparr>"

definition j_nat :: "nat option \<Rightarrow> json" where
  "j_nat n = (case n of None \<Rightarrow> JUndef | Some k \<Rightarrow> JNum (of_nat k))"

definition j_rat :: "rat option \<Rightarrow> json" where
  "j_rat n = (case n of None \<Rightarrow> JUndef | Some k \<Rightarrow> JNum k)"

definition estimateMeta :: "scan \<Rightarrow> (string \<times> json) list" where
  "estimateMeta scan =
     [(''projectedUsd'', j_rat (map_option projectedUsd (sc_costEstimate scan))),
      (''projectedTotalTokens'',
         j_rat (map_option (\<lambda>e. of_int (projectedTotalTokens e)) (sc_costEstimate scan)))]"

definition getMeter :: "op_ctx \<Rightarrow> string \<Rightarrow> orch \<Rightarrow> nat \<times> orch" where
  "getMeter cx scanId s =
     (case jm_get (oc_meters s) scanId of
        Some m \<Rightarrow> (m, s)
      | None \<Rightarrow> (oc_nextMeter s,
          s\<lparr>oc_heap := (oc_heap s)(oc_nextMeter s := createCostMeter scanId (cx_ms cx)),
            oc_meters := jm_set scanId (oc_nextMeter s) (oc_meters s),
            oc_nextMeter := Suc (oc_nextMeter s)\<rparr>))"

definition getCache :: "string \<Rightarrow> orch \<Rightarrow> (layer_id, layer_output) jsmap" where
  "getCache scanId s = (case jm_get (oc_caches s) scanId of None \<Rightarrow> [] | Some c \<Rightarrow> c)"

definition safeActual :: "op_ctx \<Rightarrow> string \<Rightarrow> orch \<Rightarrow> cost_actual option" where
  "safeActual cx scanId s =
     (case jm_get (oc_meters s) scanId of
        None \<Rightarrow> None
      | Some m \<Rightarrow> Some (mt_actual (oc_heap s m) (cx_ms cx) (cx_now cx)))"

definition oc_cleanup :: "string \<Rightarrow> orch \<Rightarrow> orch" where
  "oc_cleanup scanId s =
     s\<lparr>oc_meters := jm_delete scanId (oc_meters s), oc_caches := jm_delete scanId (oc_caches s),
       oc_warned := oc_warned s - {scanId}, oc_registry := br_unregister scanId (oc_registry s),
       oc_kills := kr_clear scanId (oc_kills s), oc_bus := snd (eb_end scanId (oc_bus s))\<rparr>"

definition resolveClientId :: "montr_config \<Rightarrow> string \<Rightarrow> orch \<Rightarrow> string" where
  "resolveClientId cfg scanId s =
     (case jm_get (oc_scanClient s) scanId of Some c \<Rightarrow> c | None \<Rightarrow> cfg_clientId cfg)"

definition load_scan :: "montr_config \<Rightarrow> string \<Rightarrow> orch \<Rightarrow> js_error + scan \<times> orch" where
  "load_scan cfg scanId s =
     (case scans_get (oc_store s) (resolveClientId cfg scanId s) scanId of
        None \<Rightarrow> Inl (Typed (MontrError INTERNAL (''scan not found: '' @ scanId) None None))
      | Some scan \<Rightarrow>
          Inr (scan, s\<lparr>oc_scanClient := jm_set scanId (sc_clientId scan) (oc_scanClient s)\<rparr>))"

definition with_scan :: "montr_config \<Rightarrow> string \<Rightarrow> orch \<Rightarrow> (scan \<Rightarrow> orch \<Rightarrow> oc_result) \<Rightarrow> oc_result" where
  "with_scan cfg scanId s k =
     (case load_scan cfg scanId s of Inl e \<Rightarrow> (s, Some e) | Inr (scan, s') \<Rightarrow> k scan s')"

lemma with_scan_unfold [code_unfold]:
  "with_scan cfg scanId s k =
     (case load_scan cfg scanId s of Inl e \<Rightarrow> (s, Some e) | Inr x \<Rightarrow> (case x of (scan, s') \<Rightarrow> k scan s'))"
  by (simp add: with_scan_def)

text \<open>\<open>store.scans.update(clientId, scan)\<close> as a handler.\<close>

definition oc_updateScan :: "string \<Rightarrow> scan \<Rightarrow> orch \<Rightarrow> oc_result" where
  "oc_updateScan clientId scan s =
     (case scans_update clientId scan (oc_store s) of
        Inl e \<Rightarrow> (s, Some e)
      | Inr st \<Rightarrow> (s\<lparr>oc_store := st\<rparr>, None))"

definition oc_saveResume :: "op_ctx \<Rightarrow> string \<Rightarrow> resume_token \<Rightarrow> orch \<Rightarrow> orch" where
  "oc_saveResume cx clientId t s = s\<lparr>oc_store := resume_save (cx_id cx) clientId t (oc_store s)\<rparr>"

section \<open>The in-process scheduler (scheduler.ts)\<close>

definition sched_start :: "orch \<Rightarrow> orch" where
  "sched_start s = s\<lparr>oc_closed := False\<rparr>"

definition sched_enqueue :: "layer_job \<Rightarrow> orch \<Rightarrow> orch" where
  "sched_enqueue job s = (if oc_closed s then s else s\<lparr>oc_queue := oc_queue s @ [job]\<rparr>)"

definition sched_close :: "orch \<Rightarrow> orch" where
  "sched_close s = s\<lparr>oc_closed := True, oc_queue := []\<rparr>"

text \<open>The drain loop takes the next job, one at a time, unless the scheduler is closed.\<close>

definition sched_next :: "orch \<Rightarrow> (layer_job \<times> orch) option" where
  "sched_next s =
     (if oc_closed s \<or> oc_running s \<noteq> None then None
      else (case oc_queue s of [] \<Rightarrow> None | j # js \<Rightarrow> Some (j, s\<lparr>oc_queue := js\<rparr>)))"

definition ensureSchedulerStarted :: "orch \<Rightarrow> orch" where
  "ensureSchedulerStarted s =
     (if oc_schedulerStarted s then s else sched_start (s\<lparr>oc_schedulerStarted := True\<rparr>))"

section \<open>Scheduling a layer\<close>

definition buildJob :: "montr_config \<Rightarrow> scan \<Rightarrow> layer_id \<Rightarrow> bool option \<Rightarrow> js_error + layer_job" where
  "buildJob cfg scan layer autoApply =
     (let mk = (\<lambda>p. \<lparr>jb_scanId = sc_id scan, jb_clientId = sc_clientId scan,
                     jb_idempotencyKey = buildIdempotencyKey (sc_id scan) layer ''0'',
                     jb_attempt = 0, jb_resumeTokenRef = Some (sc_id scan), jb_payload = p\<rparr>)
      in if sc_id scan = [] \<or> sc_clientId scan = [] then Inl (Untyped ''ZodError'')
         else (case layer of
            Layer0 \<Rightarrow> if sc_repo scan = [] \<or> sc_branch scan = [] then Inl (Untyped ''ZodError'')
                     else Inr (mk (P0 (sc_repo scan) (sc_branch scan) (sc_mode scan) (sc_scope scan)))
          | Layer1 \<Rightarrow> (case sc_appMapId scan of
                        None \<Rightarrow> Inl (Untyped ''ZodError'')
                      | Some a \<Rightarrow> if a = [] then Inl (Untyped ''ZodError'') else Inr (mk (P1 a)))
          | Layer2 \<Rightarrow> Inr (mk P2)
          | Layer3 \<Rightarrow> Inr (mk (P3 (computeAllowLive scan cfg) (stagingUrl (sc_scope scan))))
          | Layer4 \<Rightarrow> Inr (mk P4)
          | Layer5 \<Rightarrow> Inr (mk (P5 (case autoApply of None \<Rightarrow> False | Some b \<Rightarrow> b)))))"

definition enqueueLayer :: "montr_config \<Rightarrow> scan \<Rightarrow> layer_id \<Rightarrow> bool option \<Rightarrow> orch \<Rightarrow> oc_result" where
  "enqueueLayer cfg scan layer autoApply s =
     (case buildJob cfg scan layer autoApply of
        Inl e \<Rightarrow> (s, Some e)
      | Inr job \<Rightarrow> (sched_enqueue job s, None))"

definition scheduleLayer :: "montr_config \<Rightarrow> scan \<Rightarrow> layer_id \<Rightarrow> bool option \<Rightarrow> orch \<Rightarrow> oc_result" where
  "scheduleLayer cfg scan layer autoApply s =
     (if layer = Layer1 \<and> sc_gateState scan \<noteq> Gate_running then
        (let scan' = scan\<lparr>sc_gateState := Gate_running\<rparr>
         in and_then (oc_updateScan (sc_clientId scan) scan' s)
              (enqueueLayer cfg scan' layer autoApply))
      else enqueueLayer cfg scan layer autoApply s)"

section \<open>Outcomes\<close>

definition finalizeComplete :: "op_ctx \<Rightarrow> scan \<Rightarrow> bool \<Rightarrow> orch \<Rightarrow> oc_result" where
  "finalizeComplete cx scan partial s =
     (let scan' = scan\<lparr>sc_status := (if partial then Partial else Completed),
                       sc_finishedAt := Some (cx_now cx),
                       sc_costActual := safeActual cx (sc_id scan) s\<rparr>
      in and_then (oc_updateScan (sc_clientId scan) scan' s) (\<lambda>s.
         (oc_cleanup (sc_id scan)
           (safeAudit cx (mk_audit (sc_clientId scan) (Some (sc_id scan)) ''scan.completed'' SYSTEM_ACTOR
              (if partial then ''Scan completed (partial report).'' else ''Scan completed.'')
              [(''partial'', JBool partial), (''gateState'', JStr (gate_str (sc_gateState scan)))])
             (oc_emit (Scan_completed (sc_id scan) partial (cx_now cx)) s)), None)))"

definition oc_enforceBudget :: "op_ctx \<Rightarrow> montr_config \<Rightarrow> scan \<Rightarrow> nat \<Rightarrow> orch \<Rightarrow> oc_result \<times> bool" where
  "oc_enforceBudget cx cfg scan meter s =
     (let policy = effectiveBudgetPolicy scan cfg;
          chk = mt_checkBudget (oc_heap s meter) policy;
          ceiling = maxUsd policy;
          md = [(''spentUsd'', JNum (spentUsd chk)), (''ceilingUsd'', j_rat ceiling)];
          s1 = (if bc_warn chk \<and> sc_id scan \<notin> oc_warned s then
                  safeAudit cx (mk_audit (sc_clientId scan) (Some (sc_id scan)) ''budget.warning''
                      SYSTEM_ACTOR ''Budget warning threshold reached.'' md)
                    (oc_emit (Budget_warning (sc_id scan) (spentUsd chk) ceiling (cx_now cx))
                      (s\<lparr>oc_warned := insert (sc_id scan) (oc_warned s)\<rparr>))
                else s)
      in if exceeded chk then
           (let s2 = safeAudit cx (mk_audit (sc_clientId scan) (Some (sc_id scan)) ''budget.exceeded''
                         SYSTEM_ACTOR ''Budget ceiling exceeded.'' md)
                       (oc_emit (Budget_exceeded (sc_id scan) (spentUsd chk) ceiling (cx_now cx)) s1)
            in if enforcement policy = Hard_halt
               then (finalizeComplete cx (scan\<lparr>sc_gateState := Blocked\<rparr>) True s2, True)
               else ((s2, None), False))
         else ((s1, None), False))"

definition failScan :: "op_ctx \<Rightarrow> scan \<Rightarrow> layer_id \<Rightarrow> js_error \<Rightarrow> orch \<Rightarrow> oc_result" where
  "failScan cx scan layer err s =
     (let code = error_code_str (env_code (err_envelope err));
          scan' = scan\<lparr>sc_status := Failed, sc_finishedAt := Some (cx_now cx),
                       sc_costActual := safeActual cx (sc_id scan) s\<rparr>
      in and_then (oc_updateScan (sc_clientId scan) scan' s) (\<lambda>s.
         (safeAudit cx (mk_audit (sc_clientId scan) (Some (sc_id scan)) ''scan.failed'' SYSTEM_ACTOR
              (''Layer '' @ layer_str layer @ '' failed: '' @ code)
              [(''layer'', JStr (layer_str layer)), (''code'', JStr code)])
            (oc_emit (Failed_event (sc_id scan) (Some layer) (err_envelope err) (cx_now cx)) s), None)))"

definition blockKilled :: "op_ctx \<Rightarrow> montr_config \<Rightarrow> string \<Rightarrow> kill_signal \<Rightarrow> orch \<Rightarrow> oc_result" where
  "blockKilled cx cfg scanId sg s =
     (case scans_get (oc_store s) (resolveClientId cfg scanId s) scanId of
        None \<Rightarrow> (s, None)
      | Some scan \<Rightarrow>
          (let s0 = s\<lparr>oc_scanClient := jm_set scanId (sc_clientId scan) (oc_scanClient s)\<rparr>;
               r = (if isTerminalStatus (sc_status scan) then (s0, None)
                    else oc_updateScan (sc_clientId scan)
                           (scan\<lparr>sc_status := Cancelled, sc_gateState := Blocked,
                                 sc_finishedAt := Some (cx_now cx),
                                 sc_costActual := safeActual cx scanId s0\<rparr>) s0)
           in and_then r (\<lambda>s.
              (oc_cleanup scanId
                (safeAudit cx (mk_audit (sc_clientId scan) (Some scanId) ''scan.cancelled''
                    (killActor sg) ''Scan halted by kill switch.'' [])
                  (safeAudit cx (mk_audit (sc_clientId scan) (Some scanId) ''dast.kill_switch''
                      (killActor sg) (''Kill switch halted scan: '' @ ks_reason sg)
                      [(''scope'', JStr (case ks_scope sg of Scan_scope \<Rightarrow> ''scan'' | Global_scope \<Rightarrow> ''global''))])
                    (oc_emit (Killed scanId (ks_reason sg) (cx_now cx)) s))), None))))"

fun block_all :: "op_ctx \<Rightarrow> montr_config \<Rightarrow> string list \<Rightarrow> kill_signal \<Rightarrow> orch \<Rightarrow> oc_result" where
  "block_all cx cfg [] sg s = (s, None)"
| "block_all cx cfg (i # is) sg s = and_then (blockKilled cx cfg i sg s) (block_all cx cfg is sg)"

section \<open>Persisting a layer's output (persist.ts)\<close>

text \<open>Link the fixes of one opened pull request to it; a fix that is not found is skipped.\<close>

fun link_fixes :: "string \<Rightarrow> string \<Rightarrow> string list \<Rightarrow> state_store \<Rightarrow> (state_store, js_error) outcome" where
  "link_fixes clientId prId [] st = (st, None)"
| "link_fixes clientId prId (i # is) st =
     (case fixes_get st clientId i of
        None \<Rightarrow> link_fixes clientId prId is st
      | Some f \<Rightarrow>
          (case fixes_update clientId (f\<lparr>fx_status := Pr_open, fx_pullRequestId := Some prId\<rparr>) st of
             Inl e \<Rightarrow> (st, Some e)
           | Inr st' \<Rightarrow> link_fixes clientId prId is st'))"

fun link_prs :: "string \<Rightarrow> pull_request list \<Rightarrow> state_store \<Rightarrow> (state_store, js_error) outcome" where
  "link_prs clientId [] st = (st, None)"
| "link_prs clientId (p # ps) st =
     and_then (link_fixes clientId (pr_id p) (pr_fixIds p) st) (link_prs clientId ps)"

fun create_fixes :: "string \<Rightarrow> fix_record list \<Rightarrow> state_store \<Rightarrow> (state_store, js_error) outcome" where
  "create_fixes clientId [] st = (st, None)"
| "create_fixes clientId (f # fs) st =
     (case fixes_create clientId f st of
        Inl e \<Rightarrow> (st, Some e)
      | Inr st' \<Rightarrow> create_fixes clientId fs st')"

text \<open>
  The store and the scan object afterwards, and the error, if any. The schema check
  accepts an output only for its own layer.
\<close>

definition persistLayerOutput :: "string \<Rightarrow> layer_id \<Rightarrow> layer_output \<Rightarrow> scan \<Rightarrow> state_store
    \<Rightarrow> state_store \<times> scan \<times> js_error option" where
  "persistLayerOutput clientId layer raw scan st =
     (if output_layer raw \<noteq> layer then (st, scan, Some (Untyped ''ZodError''))
      else (case raw of
         Layer0_output m sc est \<Rightarrow>
           (case appMaps_create clientId m st of
              Inl e \<Rightarrow> (st, scan, Some e)
            | Inr st1 \<Rightarrow>
                (let scan1 = scan\<lparr>sc_appMapId := Some (am_id m), sc_costEstimate := Some est, sc_scope := sc\<rparr>;
                     scan2 = (if truthy (am_commitSha m) then scan1\<lparr>sc_commitSha := am_commitSha m\<rparr> else scan1)
                 in (case scans_update clientId scan2 st1 of
                       Inl e \<Rightarrow> (st1, scan2, Some e)
                     | Inr st2 \<Rightarrow> (st2, scan2, None))))
       | Layer1_output cs \<Rightarrow>
           ((if cs \<noteq> [] then candidates_bulkCreate clientId cs st else st), scan, None)
       | Layer2_output ps ds \<Rightarrow>
           ((if ps \<noteq> [] then probable_bulkCreate clientId ps st else st), scan, None)
       | Layer3_output cs us purple \<Rightarrow>
           (let st1 = (if cs \<noteq> [] then confirmed_bulkCreate clientId cs st else st)
            in ((if us \<noteq> [] then unconfirmed_bulkCreate clientId us st1 else st1), scan, None))
       | Layer4_output fs \<Rightarrow> (case create_fixes clientId fs st of (st', e) \<Rightarrow> (st', scan, e))
       | Layer5_output report prs \<Rightarrow>
           (case link_prs clientId prs st of (st', e) \<Rightarrow> (st', scan, e))))"

definition advanceResumeToken :: "op_ctx \<Rightarrow> string \<Rightarrow> string \<Rightarrow> layer_id \<Rightarrow> orch \<Rightarrow> orch" where
  "advanceResumeToken cx clientId scanId layer s =
     (let existing = resume_get (oc_store s) clientId scanId;
          completed = insert layer (case existing of None \<Rightarrow> {} | Some t \<Rightarrow> set (rt_completedLayers t));
          token = \<lparr>rt_id = (case existing of None \<Rightarrow> None | Some t \<Rightarrow> rt_id t), rt_scanId = scanId,
                   rt_completedLayers = filter (\<lambda>l. l \<in> completed) LAYER_ORDER,
                   rt_lastCompletedLayer = Some layer, rt_checkpointRef = Some scanId,
                   rt_updatedAt = cx_now cx\<rparr>
      in oc_saveResume cx clientId token s)"

definition auditLayer :: "op_ctx \<Rightarrow> scan \<Rightarrow> layer_id \<Rightarrow> orch \<Rightarrow> orch" where
  "auditLayer cx scan layer s =
     (if layer = Layer0 then
        safeAudit cx
          ((mk_audit (sc_clientId scan) (Some (sc_id scan)) ''appmap.built'' SYSTEM_ACTOR
             ''App Map built and persisted.''
             [(''routeCount'', j_nat (routeCount (sc_scope scan))),
              (''fileCount'', j_nat (fileCount (sc_scope scan)))])
            \<lparr>ai_targetType := Some ''AppMap'', ai_targetId := sc_appMapId scan\<rparr>) s
      else s)"

section \<open>The transition after a layer\<close>

definition advanceAfterLayer :: "op_ctx \<Rightarrow> montr_config \<Rightarrow> scan \<Rightarrow> layer_id \<Rightarrow> orch \<Rightarrow> oc_result" where
  "advanceAfterLayer cx cfg scan layer s =
     (let scanId = sc_id scan; clientId = sc_clientId scan in
      case layer of
        Layer0 \<Rightarrow>
          if estimateGateRequired scan cfg then
            (let scan' = scan\<lparr>sc_gateState := Estimate_pending\<rparr>
             in and_then (oc_updateScan clientId scan' s) (\<lambda>s.
                (safeAudit cx (mk_audit clientId (Some scanId) ''gate.estimate_presented'' SYSTEM_ACTOR
                     ''Cost estimate presented; awaiting approval before Layer 1.'' (estimateMeta scan'))
                   (oc_emit (Gate_required scanId Estimate_gate (cx_now cx)) s), None)))
          else
            (let scan' = scan\<lparr>sc_gateState := Estimate_approved\<rparr>
             in and_then (oc_updateScan clientId scan' s) (\<lambda>s.
                scheduleLayer cfg scan' Layer1 None
                  (safeAudit cx (mk_audit clientId (Some scanId) ''gate.estimate_approved'' SYSTEM_ACTOR
                     ''Estimate approval not required by policy; proceeding to Layer 1.''
                     (estimateMeta scan')) s)))
      | Layer4 \<Rightarrow>
          (let fixs = fixes_listByScan (oc_store s) clientId scanId;
               decision = evaluateFixGate fixs cfg
           in if wouldOpenPrs decision \<and> approverRequiredForGate (cfg_rbac cfg) then
                (let scan' = scan\<lparr>sc_gateState := Fix_gate_pending\<rparr>
                 in and_then (oc_updateScan clientId scan' s) (\<lambda>s.
                    (oc_emit (Gate_required scanId Fix_gate (cx_now cx)) s, None)))
              else if wouldOpenPrs decision then
                (let scan' = scan\<lparr>sc_gateState := Auto_approved\<rparr>
                 in and_then (oc_updateScan clientId scan' s) (\<lambda>s.
                    scheduleLayer cfg scan' Layer5 (Some True)
                      (safeAudit cx (mk_audit clientId (Some scanId) ''gate.fix_approved'' SYSTEM_ACTOR
                         ''Auto-eligible fixes passed the bar; opening PRs.''
                         [(''mode'', JStr ''auto''),
                          (''autoEligibleFixIds'', JArr (map JStr (autoEligibleFixIds decision)))]) s)))
              else
                (let scan' = scan\<lparr>sc_gateState := Auto_approved\<rparr>
                 in and_then (oc_updateScan clientId scan' s) (\<lambda>s.
                    scheduleLayer cfg scan' Layer5 (Some False)
                      (safeAudit cx (mk_audit clientId (Some scanId) ''gate.fix_approved'' SYSTEM_ACTOR
                         ''Report-first run; fixes are recommendations, no PRs opened.''
                         [(''mode'', JStr ''report_only'')]) s))))
      | Layer5 \<Rightarrow> finalizeComplete cx scan False s
      | _ \<Rightarrow> (case layerAfter layer of
                None \<Rightarrow> (s, None)
              | Some next \<Rightarrow> scheduleLayer cfg scan next None s))"

section \<open>Lifecycle operations\<close>

record create_input =
  in_clientId :: string
  in_repo :: string
  in_branch :: string
  in_mode :: scan_mode
  in_scope :: scan_scope
  in_operator :: string
  in_budgetPolicy :: "budget_policy option"

definition createScan :: "op_ctx \<Rightarrow> create_input \<Rightarrow> orch \<Rightarrow> oc_result" where
  "createScan cx inp s =
     (case scan_parse \<lparr>sc_id = cx_id cx, sc_clientId = in_clientId inp, sc_appMapId = None,
          sc_repo = in_repo inp, sc_branch = in_branch inp, sc_commitSha = None,
          sc_mode = in_mode inp, sc_scope = in_scope inp, sc_status = Queued,
          sc_gateState = Not_started, sc_operator = in_operator inp, sc_approver = None,
          sc_budgetPolicy = in_budgetPolicy inp, sc_costEstimate = None, sc_costActual = None,
          sc_startedAt = None, sc_finishedAt = None, sc_createdAt = cx_now cx\<rparr> of
        Inl e \<Rightarrow> (s, Some e)
      | Inr scan \<Rightarrow>
          (case scans_create (in_clientId inp) scan (oc_store s) of
             Inl e \<Rightarrow> (s, Some e)
           | Inr st \<Rightarrow>
               (safeAudit cx (mk_audit (in_clientId inp) (Some (sc_id scan)) ''scan.created''
                    (userActor (in_operator inp) Operator) ''Scan created.''
                    [(''repo'', JStr (sc_repo scan)), (''branch'', JStr (sc_branch scan)),
                     (''mode'', JStr (mode_str (sc_mode scan)))])
                  (s\<lparr>oc_store := st,
                     oc_scanClient := jm_set (sc_id scan) (in_clientId inp) (oc_scanClient s)\<rparr>), None)))"

definition oc_start :: "op_ctx \<Rightarrow> montr_config \<Rightarrow> string \<Rightarrow> orch \<Rightarrow> oc_result" where
  "oc_start cx cfg scanId s = with_scan cfg scanId s (\<lambda>scan s.
     if sc_status scan \<noteq> Queued then (s, None)
     else if kr_isGlobalKilled (oc_kills s)
     then (s, Some (Typed (KillSwitchActivatedError ''global kill switch active'' None)))
     else
       (let s1 = ensureSchedulerStarted (s\<lparr>oc_kills := snd (kr_register scanId (oc_kills s))\<rparr>);
            scan' = scan\<lparr>sc_status := Running, sc_startedAt := Some (cx_now cx)\<rparr>
        in and_then (oc_updateScan (sc_clientId scan) scan' s1) (\<lambda>s.
           scheduleLayer cfg scan' Layer0 None
             (safeAudit cx (mk_audit (sc_clientId scan) (Some scanId) ''scan.started''
                  (userActor (sc_operator scan) Operator) ''Scan started.''
                  [(''mode'', JStr (mode_str (sc_mode scan)))])
               (oc_emit (Scan_started scanId (cx_now cx))
                 (oc_saveResume cx (sc_clientId scan)
                    \<lparr>rt_id = None, rt_scanId = scanId, rt_completedLayers = [],
                     rt_lastCompletedLayer = None, rt_checkpointRef = Some scanId,
                     rt_updatedAt = cx_now cx\<rparr> s))))))"

definition oc_pause :: "op_ctx \<Rightarrow> montr_config \<Rightarrow> string \<Rightarrow> orch \<Rightarrow> oc_result" where
  "oc_pause cx cfg scanId s = with_scan cfg scanId s (\<lambda>scan s.
     if isTerminalStatus (sc_status scan) then (s, None)
     else and_then (oc_updateScan (sc_clientId scan) (scan\<lparr>sc_status := Paused\<rparr>) s) (\<lambda>s.
       (safeAudit cx (mk_audit (sc_clientId scan) (Some scanId) ''scan.paused''
            (userActor (sc_operator scan) Operator) ''Scan paused.'' []) s, None)))"

definition resume_completed :: "orch \<Rightarrow> string \<Rightarrow> string \<Rightarrow> layer_id list" where
  "resume_completed s clientId scanId =
     (case resume_get (oc_store s) clientId scanId of None \<Rightarrow> [] | Some t \<Rightarrow> rt_completedLayers t)"

definition oc_resume :: "op_ctx \<Rightarrow> montr_config \<Rightarrow> string \<Rightarrow> orch \<Rightarrow> oc_result" where
  "oc_resume cx cfg scanId s = with_scan cfg scanId s (\<lambda>scan s.
     if kr_isKilled (oc_kills s) scanId
     then (s, Some (Typed (ScanNotResumableError ''scan was killed'' None)))
     else if sc_status scan = Completed \<or> sc_status scan = Cancelled then (s, None)
     else
       (let completed = resume_completed s (sc_clientId scan) scanId;
            s1 = ensureSchedulerStarted (s\<lparr>oc_kills := snd (kr_register scanId (oc_kills s))\<rparr>);
            scan' = scan\<lparr>sc_status := Running\<rparr>
        in and_then (oc_updateScan (sc_clientId scan) scan' s1) (\<lambda>s.
           (let s2 = safeAudit cx (mk_audit (sc_clientId scan) (Some scanId) ''scan.resumed''
                       (userActor (sc_operator scan) Operator) ''Scan resumed.''
                       [(''completedLayers'', JArr (map (\<lambda>l. JStr (layer_str l)) completed))]) s
            in if sc_gateState scan = Estimate_pending
               then (oc_emit (Gate_required scanId Estimate_gate (cx_now cx)) s2, None)
               else if sc_gateState scan = Fix_gate_pending
               then (oc_emit (Gate_required scanId Fix_gate (cx_now cx)) s2, None)
               else (case nextLayer completed of
                       None \<Rightarrow> finalizeComplete cx scan' False s2
                     | Some next \<Rightarrow>
                         scheduleLayer cfg scan' next None
                           (oc_emit (Resumed scanId next (cx_now cx)) s2))))))"

definition oc_cancel :: "op_ctx \<Rightarrow> montr_config \<Rightarrow> string \<Rightarrow> orch \<Rightarrow> oc_result" where
  "oc_cancel cx cfg scanId s = with_scan cfg scanId s (\<lambda>scan s.
     if isTerminalStatus (sc_status scan) then (s, None)
     else
       (let s1 = s\<lparr>oc_kills := kr_abortScan scanId ''cancelled by operator'' (oc_kills s)\<rparr>;
            scan' = scan\<lparr>sc_status := Cancelled,
                         sc_gateState := (if sc_gateState scan = Estimate_pending
                                             \<or> sc_gateState scan = Fix_gate_pending
                                          then Gate_rejected else sc_gateState scan),
                         sc_finishedAt := Some (cx_now cx),
                         sc_costActual := safeActual cx scanId s1\<rparr>
        in and_then (oc_updateScan (sc_clientId scan) scan' s1) (\<lambda>s.
           (oc_cleanup scanId
             (safeAudit cx (mk_audit (sc_clientId scan) (Some scanId) ''scan.cancelled''
                (userActor (sc_operator scan) Operator) ''Scan cancelled.'' []) s), None))))"

definition oc_kill :: "op_ctx \<Rightarrow> montr_config \<Rightarrow> kill_signal \<Rightarrow> orch \<Rightarrow> oc_result" where
  "oc_kill cx cfg sg s =
     (case ks_scope sg of
        Global_scope \<Rightarrow>
          (let ids = kr_activeScanIds (oc_kills s)
           in and_then (block_all cx cfg ids sg
                          (s\<lparr>oc_kills := kr_abortAll (ks_reason sg) (oc_kills s)\<rparr>)) (\<lambda>s.
                (safeAudit cx (mk_audit (cfg_clientId cfg) None ''dast.kill_switch'' (killActor sg)
                     (''Global kill switch: '' @ ks_reason sg)
                     [(''scope'', JStr ''global''), (''scanCount'', JNum (of_nat (length ids)))]) s, None)))
      | Scan_scope \<Rightarrow>
          (case ks_scanId sg of
             None \<Rightarrow> (s, Some (Typed (MontrError INTERNAL ''scoped kill requires a scanId'' None None)))
           | Some i \<Rightarrow>
               if i = [] then (s, Some (Typed (MontrError INTERNAL ''scoped kill requires a scanId'' None None)))
               else blockKilled cx cfg i sg
                      (s\<lparr>oc_kills := kr_abortScan i (ks_reason sg) (oc_kills s)\<rparr>)))"

definition handleRemoteKill :: "op_ctx \<Rightarrow> montr_config \<Rightarrow> kill_signal \<Rightarrow> orch \<Rightarrow> oc_result" where
  "handleRemoteKill cx cfg sg s =
     (case ks_scope sg of
        Global_scope \<Rightarrow>
          block_all cx cfg (kr_activeScanIds (oc_kills s)) sg
            (s\<lparr>oc_kills := kr_abortAll (ks_reason sg) (oc_kills s)\<rparr>)
      | Scan_scope \<Rightarrow>
          (case ks_scanId sg of
             None \<Rightarrow> (s, None)
           | Some i \<Rightarrow> if i = [] then (s, None)
               else blockKilled cx cfg i sg
                      (s\<lparr>oc_kills := kr_abortScan i (ks_reason sg) (oc_kills s)\<rparr>)))"

definition approveGate :: "op_ctx \<Rightarrow> montr_config \<Rightarrow> string \<Rightarrow> gate_kind \<Rightarrow> string \<Rightarrow> orch \<Rightarrow> oc_result" where
  "approveGate cx cfg scanId gate approver s = with_scan cfg scanId s (\<lambda>scan0 s.
     if isTerminalStatus (sc_status scan0) then (s, None)
     else (let scan = scan0\<lparr>sc_approver := Some approver\<rparr> in
       case gate of
         Estimate_gate \<Rightarrow>
           if sc_gateState scan \<noteq> Estimate_pending then (s, None)
           else
             (let scan' = scan\<lparr>sc_gateState := Estimate_approved, sc_status := Running\<rparr>
              in and_then (oc_updateScan (sc_clientId scan) scan' s) (\<lambda>s.
                 scheduleLayer cfg scan' Layer1 None
                   (safeAudit cx (mk_audit (sc_clientId scan) (Some scanId) ''gate.estimate_approved''
                      (userActor approver Approver) ''Cost estimate approved.'' (estimateMeta scan')) s)))
       | Fix_gate \<Rightarrow>
           if sc_gateState scan \<noteq> Fix_gate_pending then (s, None)
           else
             (let scan' = scan\<lparr>sc_gateState := Approved\<rparr>
              in and_then (oc_updateScan (sc_clientId scan) scan' s) (\<lambda>s.
                 scheduleLayer cfg scan' Layer5 (Some True)
                   (safeAudit cx (mk_audit (sc_clientId scan) (Some scanId) ''gate.fix_approved''
                      (userActor approver Approver)
                      ''Fix gate approved by approver; PRs will open for auto-eligible fixes only.'' []) s)))))"

section \<open>Running a layer job\<close>

definition beginLayerJob :: "op_ctx \<Rightarrow> montr_config \<Rightarrow> layer_job \<Rightarrow> orch \<Rightarrow> orch" where
  "beginLayerJob cx cfg job s =
     (let scanId = jb_scanId job; clientId = jb_clientId job in
      if kr_isKilled (oc_kills s) scanId then s
      else (case scans_get (oc_store s) clientId scanId of
              None \<Rightarrow> s
            | Some scan \<Rightarrow>
                (let s1 = s\<lparr>oc_scanClient := jm_set scanId (sc_clientId scan) (oc_scanClient s)\<rparr> in
                 if isTerminalStatus (sc_status scan) \<or> sc_status scan = Paused then s1
                 else
                   (case kr_signalFor scanId (oc_kills s1) of (signal, kills) \<Rightarrow>
                    (case getMeter cx scanId (s1\<lparr>oc_kills := kills\<rparr>) of (meter, s2) \<Rightarrow>
                      (oc_emit (Layer_started scanId (jb_layer job) (cx_now cx))
                        (s2\<lparr>oc_registry := br_register scanId meter (effectiveBudgetPolicy scan cfg)
                                             (oc_registry s2)\<rparr>))
                      \<lparr>oc_running := Some \<lparr>rj_job = job, rj_scan = scan, rj_signal = signal,
                                           rj_meter = meter\<rparr>\<rparr>)))))"

text \<open>What the layer runner did: the attempts, the calls it metered, the progress it reported.\<close>

record layer_run =
  lr_attempts :: "nat \<Rightarrow> js_error + layer_output"
  lr_abort :: "nat \<Rightarrow> js_error option"
  lr_usage :: "meter_entry list"
  lr_progress :: "(string \<times> rat) list"

definition executeLayer :: "op_ctx \<Rightarrow> layer_job \<Rightarrow> nat \<Rightarrow> layer_run \<Rightarrow> orch \<Rightarrow> (js_error + layer_output) \<times> orch" where
  "executeLayer cx job meter run s =
     (fst (runWithRetry (RETRY_POLICIES (jb_layer job)) (lr_abort run) (lr_attempts run)),
      fold (\<lambda>(ph, pct). oc_emit (Progress (jb_scanId job) (jb_layer job) (clampPct pct) ph (cx_now cx)))
        (lr_progress run)
        (s\<lparr>oc_heap := (oc_heap s)(meter := fold mt_record (lr_usage run) (oc_heap s meter))\<rparr>))"

definition afterPersist :: "op_ctx \<Rightarrow> montr_config \<Rightarrow> running_job \<Rightarrow> scan \<Rightarrow> orch \<Rightarrow> oc_result" where
  "afterPersist cx cfg rj scan s =
     (let scanId = jb_scanId (rj_job rj); clientId = jb_clientId (rj_job rj); layer = jb_layer (rj_job rj);
          s1 = auditLayer cx scan layer (oc_emit (Layer_completed scanId layer (cx_now cx)) s)
      in case oc_enforceBudget cx cfg scan (rj_meter rj) s1 of
           (r, True) \<Rightarrow> r
         | (r, False) \<Rightarrow> and_then r (\<lambda>s.
             (let fresh = (case scans_get (oc_store s) clientId scanId of Some f \<Rightarrow> f | None \<Rightarrow> scan)
              in if kr_isKilled (oc_kills s) scanId then (s, None)
                 else if sc_status fresh = Paused \<or> isTerminalStatus (sc_status fresh) then (s, None)
                 else advanceAfterLayer cx cfg fresh layer s)))"

definition finishLayerJob :: "op_ctx \<Rightarrow> montr_config \<Rightarrow> layer_run \<Rightarrow> orch \<Rightarrow> oc_result" where
  "finishLayerJob cx cfg run s =
     (case oc_running s of
        None \<Rightarrow> (s, None)
      | Some rj \<Rightarrow>
          (let scanId = jb_scanId (rj_job rj); clientId = jb_clientId (rj_job rj);
               layer = jb_layer (rj_job rj) in
           (case executeLayer cx (rj_job rj) (rj_meter rj) run (s\<lparr>oc_running := None\<rparr>) of
              (Inl err, s1) \<Rightarrow>
                if signal_aborted (oc_kills s1) (rj_signal rj) \<or> kr_isKilled (oc_kills s1) scanId
                then (s1, None)
                else failScan cx (rj_scan rj) layer err s1
            | (Inr out, s1) \<Rightarrow>
                (case persistLayerOutput clientId layer out (rj_scan rj) (oc_store s1) of
                   (st, scan, Some err) \<Rightarrow> failScan cx scan layer err (s1\<lparr>oc_store := st\<rparr>)
                 | (st, scan, None) \<Rightarrow>
                     afterPersist cx cfg rj scan
                       (advanceResumeToken cx clientId scanId layer
                          (s1\<lparr>oc_store := st,
                             oc_caches := jm_set scanId (jm_set layer out (getCache scanId s1)) (oc_caches s1)\<rparr>))))))"

end
