(* ===== verification/ControllerFacts.thy ===== *)
theory ControllerFacts
  imports Controller
begin

text \<open>
  The controller as a labelled transition system, the field-by-field effect of its support
  operations, and the frame every operation obeys: it touches the rows of the scans it is
  about, only extends the job queue, never revives a killed scan and never marks a layer
  as started (only \<open>beginLayerJob\<close> does).
\<close>

section \<open>The transition system\<close>

datatype orch_label = Lbl_create | Lbl_start string | Lbl_pause string | Lbl_resume string
  | Lbl_cancel string | Lbl_kill kill_signal | Lbl_remote_kill kill_signal
  | Lbl_approve string gate_kind string | Lbl_begin layer_job | Lbl_finish layer_job
  | Lbl_close

definition orch_init :: orch where
  "orch_init = \<lparr>oc_store = \<lparr>st_scans = [], st_resume = [], st_fixes = [], st_appMaps = [],
       st_candidates = [], st_probable = [], st_confirmed = []\<rparr>,
     oc_audit = [], oc_bus = eb_empty, oc_kills = kr_empty,
     oc_heap = (\<lambda>_. createCostMeter [] 0), oc_nextMeter = 0, oc_meters = [], oc_caches = [],
     oc_warned = {}, oc_scanClient = [], oc_registry = [], oc_queue = [], oc_closed = False,
     oc_schedulerStarted = False, oc_running = None\<rparr>"

text \<open>The runner sees an abort only if the signal it was given has been aborted.\<close>

definition run_sound :: "orch \<Rightarrow> running_job \<Rightarrow> layer_run \<Rightarrow> bool" where
  "run_sound s rj run \<longleftrightarrow>
     (\<forall>t. lr_abort run t \<noteq> None \<longrightarrow> signal_aborted (oc_kills s) (rj_signal rj))
     \<and> (\<forall>e \<in> set (lr_usage run). usage_valid (en_usage e))"

inductive orch_step :: "montr_config \<Rightarrow> orch_label \<Rightarrow> orch \<Rightarrow> orch \<Rightarrow> bool"
  for cfg :: montr_config where
  st_create: "orch_step cfg Lbl_create s (fst (createScan cx inp s))"
| st_start: "orch_step cfg (Lbl_start i) s (fst (oc_start cx cfg i s))"
| st_pause: "orch_step cfg (Lbl_pause i) s (fst (oc_pause cx cfg i s))"
| st_resume: "orch_step cfg (Lbl_resume i) s (fst (oc_resume cx cfg i s))"
| st_cancel: "orch_step cfg (Lbl_cancel i) s (fst (oc_cancel cx cfg i s))"
| st_kill: "orch_step cfg (Lbl_kill sg) s (fst (oc_kill cx cfg sg s))"
| st_remote_kill: "orch_step cfg (Lbl_remote_kill sg) s (fst (handleRemoteKill cx cfg sg s))"
| st_approve: "orch_step cfg (Lbl_approve i g a) s (fst (approveGate cx cfg i g a s))"
| st_begin: "sched_next s = Some (job, s') \<Longrightarrow>
    orch_step cfg (Lbl_begin job) s (beginLayerJob cx cfg job s')"
| st_finish: "oc_running s = Some rj \<Longrightarrow> run_sound s rj run \<Longrightarrow>
    orch_step cfg (Lbl_finish (rj_job rj)) s (fst (finishLayerJob cx cfg run s))"
| st_close: "orch_step cfg Lbl_close s (sched_close s)"

inductive_cases orch_stepE: "orch_step cfg l s t"

definition orch_any :: "montr_config \<Rightarrow> orch \<Rightarrow> orch \<Rightarrow> bool" where
  "orch_any cfg s t \<longleftrightarrow> (\<exists>l. orch_step cfg l s t)"

section \<open>Effects of the support operations\<close>

named_theorems oc_fields "fields of the controller state after a support operation"

lemma oc_emit_fields [simp, oc_fields]:
  "oc_store (oc_emit e s) = oc_store s" "oc_audit (oc_emit e s) = oc_audit s"
  "oc_kills (oc_emit e s) = oc_kills s" "oc_heap (oc_emit e s) = oc_heap s"
  "oc_meters (oc_emit e s) = oc_meters s" "oc_queue (oc_emit e s) = oc_queue s"
  "oc_closed (oc_emit e s) = oc_closed s" "oc_running (oc_emit e s) = oc_running s"
  "oc_scanClient (oc_emit e s) = oc_scanClient s" "oc_nextMeter (oc_emit e s) = oc_nextMeter s"
  "oc_registry (oc_emit e s) = oc_registry s"
  by (simp_all add: oc_emit_def)

lemma safeAudit_fields [simp, oc_fields]:
  "oc_store (safeAudit cx a s) = oc_store s" "oc_bus (safeAudit cx a s) = oc_bus s"
  "oc_kills (safeAudit cx a s) = oc_kills s" "oc_heap (safeAudit cx a s) = oc_heap s"
  "oc_meters (safeAudit cx a s) = oc_meters s" "oc_queue (safeAudit cx a s) = oc_queue s"
  "oc_closed (safeAudit cx a s) = oc_closed s" "oc_running (safeAudit cx a s) = oc_running s"
  "oc_scanClient (safeAudit cx a s) = oc_scanClient s"
  "oc_nextMeter (safeAudit cx a s) = oc_nextMeter s"
  "oc_registry (safeAudit cx a s) = oc_registry s"
  by (simp_all add: safeAudit_def)

lemma cleanup_fields [simp, oc_fields]:
  "oc_store (oc_cleanup i s) = oc_store s" "oc_audit (oc_cleanup i s) = oc_audit s"
  "oc_kills (oc_cleanup i s) = kr_clear i (oc_kills s)" "oc_heap (oc_cleanup i s) = oc_heap s"
  "oc_queue (oc_cleanup i s) = oc_queue s" "oc_closed (oc_cleanup i s) = oc_closed s"
  "oc_running (oc_cleanup i s) = oc_running s" "oc_scanClient (oc_cleanup i s) = oc_scanClient s"
  "oc_nextMeter (oc_cleanup i s) = oc_nextMeter s"
  by (simp_all add: oc_cleanup_def)

lemma ensureSched_fields [simp, oc_fields]:
  "oc_store (ensureSchedulerStarted s) = oc_store s" "oc_audit (ensureSchedulerStarted s) = oc_audit s"
  "oc_bus (ensureSchedulerStarted s) = oc_bus s" "oc_kills (ensureSchedulerStarted s) = oc_kills s"
  "oc_queue (ensureSchedulerStarted s) = oc_queue s"
  "oc_running (ensureSchedulerStarted s) = oc_running s"
  "oc_scanClient (ensureSchedulerStarted s) = oc_scanClient s"
  by (simp_all add: ensureSchedulerStarted_def sched_start_def)

lemma sched_enqueue_fields [simp, oc_fields]:
  "oc_store (sched_enqueue j s) = oc_store s" "oc_audit (sched_enqueue j s) = oc_audit s"
  "oc_bus (sched_enqueue j s) = oc_bus s" "oc_kills (sched_enqueue j s) = oc_kills s"
  "oc_running (sched_enqueue j s) = oc_running s"
  "oc_scanClient (sched_enqueue j s) = oc_scanClient s"
  by (simp_all add: sched_enqueue_def)

lemma saveResume_fields [simp, oc_fields]:
  "oc_audit (oc_saveResume cx c t s) = oc_audit s" "oc_bus (oc_saveResume cx c t s) = oc_bus s"
  "oc_kills (oc_saveResume cx c t s) = oc_kills s" "oc_queue (oc_saveResume cx c t s) = oc_queue s"
  "oc_running (oc_saveResume cx c t s) = oc_running s"
  "oc_scanClient (oc_saveResume cx c t s) = oc_scanClient s"
  "oc_store (oc_saveResume cx c t s) = resume_save (cx_id cx) c t (oc_store s)"
  by (simp_all add: oc_saveResume_def)

lemma advanceResume_fields [simp, oc_fields]:
  "oc_audit (advanceResumeToken cx c i l s) = oc_audit s"
  "oc_bus (advanceResumeToken cx c i l s) = oc_bus s"
  "oc_kills (advanceResumeToken cx c i l s) = oc_kills s"
  "oc_queue (advanceResumeToken cx c i l s) = oc_queue s"
  "oc_running (advanceResumeToken cx c i l s) = oc_running s"
  "oc_heap (advanceResumeToken cx c i l s) = oc_heap s"
  "oc_scanClient (advanceResumeToken cx c i l s) = oc_scanClient s"
  by (simp_all add: advanceResumeToken_def Let_def oc_saveResume_def)

lemma auditLayer_fields [simp, oc_fields]:
  "oc_store (auditLayer cx sc l s) = oc_store s" "oc_bus (auditLayer cx sc l s) = oc_bus s"
  "oc_kills (auditLayer cx sc l s) = oc_kills s" "oc_queue (auditLayer cx sc l s) = oc_queue s"
  "oc_running (auditLayer cx sc l s) = oc_running s" "oc_heap (auditLayer cx sc l s) = oc_heap s"
  "oc_scanClient (auditLayer cx sc l s) = oc_scanClient s"
  by (simp_all add: auditLayer_def)

lemma updateScan_fields [simp, oc_fields]:
  "oc_audit (fst (oc_updateScan c r s)) = oc_audit s" "oc_bus (fst (oc_updateScan c r s)) = oc_bus s"
  "oc_kills (fst (oc_updateScan c r s)) = oc_kills s" "oc_queue (fst (oc_updateScan c r s)) = oc_queue s"
  "oc_running (fst (oc_updateScan c r s)) = oc_running s" "oc_heap (fst (oc_updateScan c r s)) = oc_heap s"
  "oc_scanClient (fst (oc_updateScan c r s)) = oc_scanClient s"
  "oc_closed (fst (oc_updateScan c r s)) = oc_closed s"
  by (simp_all add: oc_updateScan_def split: sum.splits)

section \<open>Rows carry their own id and client\<close>

definition rows_keyed :: "state_store \<Rightarrow> bool" where
  "rows_keyed st \<longleftrightarrow> (\<forall>i r. jm_get (st_scans st) i = Some r \<longrightarrow> sc_id r = i)"

lemma scans_get_id: "rows_keyed st \<Longrightarrow> scans_get st c i = Some r \<Longrightarrow> sc_id r = i \<and> sc_clientId r = c"
  by (auto simp: scans_get_def rows_keyed_def split: option.splits if_splits)

lemma scanToUpdate_fields [simp]:
  "sc_id (scanToUpdate r s) = sc_id r" "sc_clientId (scanToUpdate r s) = sc_clientId r"
  "sc_status (scanToUpdate r s) = sc_status s" "sc_gateState (scanToUpdate r s) = sc_gateState s"
  "sc_approver (scanToUpdate r s) = sc_approver s" "sc_appMapId (scanToUpdate r s) = sc_appMapId s"
  "sc_budgetPolicy (scanToUpdate r s) = sc_budgetPolicy s"
  by (simp_all add: scanToUpdate_def)

lemma scans_update_keyed: "rows_keyed st \<Longrightarrow> scans_update c r st = Inr st' \<Longrightarrow> rows_keyed st'"
  by (auto simp: scans_update_def rows_keyed_def scans_get_def split: option.splits if_splits)

lemma scans_update_rest:
  "scans_update c r st = Inr st' \<Longrightarrow> st_resume st' = st_resume st \<and> st_fixes st' = st_fixes st"
  by (auto simp: scans_update_def split: option.splits)

lemma resume_save_rest [simp]:
  "st_scans (resume_save g c t st) = st_scans st" "st_fixes (resume_save g c t st) = st_fixes st"
  by (simp_all add: resume_save_def Let_def)

lemma scans_get_cong: "st_scans st = st_scans st' \<Longrightarrow> scans_get st c i = scans_get st' c i"
  by (simp add: scans_get_def)

lemma rows_keyed_cong: "st_scans st = st_scans st' \<Longrightarrow> rows_keyed st = rows_keyed st'"
  by (simp add: rows_keyed_def)

text \<open>The checkpoints list completed layers in pipeline order, without repetition.\<close>

definition layers_ordered :: "layer_id list \<Rightarrow> bool" where
  "layers_ordered ls \<longleftrightarrow> ls = filter (\<lambda>l. l \<in> set ls) LAYER_ORDER"

definition resume_ordered :: "state_store \<Rightarrow> bool" where
  "resume_ordered st \<longleftrightarrow> (\<forall>c i t. resume_get st c i = Some t \<longrightarrow> layers_ordered (rt_completedLayers t))"

lemma layers_ordered_simps [simp]:
  "layers_ordered []" "layers_ordered (filter (\<lambda>l. l \<in> S) LAYER_ORDER)"
proof -
  show "layers_ordered []" by (simp add: layers_ordered_def)
  have "set (filter (\<lambda>l. l \<in> S) LAYER_ORDER) = S" using LAYER_ORDER_all by auto
  then show "layers_ordered (filter (\<lambda>l. l \<in> S) LAYER_ORDER)" unfolding layers_ordered_def by simp
qed

lemma resume_ordered_save:
  "resume_ordered st \<Longrightarrow> layers_ordered (rt_completedLayers t) \<Longrightarrow> resume_ordered (resume_save g c t st)"
  by (auto simp: resume_ordered_def resume_get_def resume_save_def Let_def resumeTokenFromState_def
      split: if_splits)

lemma resume_ordered_cong: "st_resume st = st_resume st' \<Longrightarrow> resume_ordered st = resume_ordered st'"
  by (simp add: resume_ordered_def resume_get_def)

section \<open>The frame of an operation\<close>

fun is_start :: "pipeline_event \<Rightarrow> bool" where
  "is_start (Layer_started i l t) = True"
| "is_start _ = False"

definition layer_starts :: "orch \<Rightarrow> string \<Rightarrow> pipeline_event list" where
  "layer_starts s i = filter is_start (eb_events (oc_bus s) i)"

definition frame :: "string set \<Rightarrow> (layer_job \<Rightarrow> bool) \<Rightarrow> orch \<Rightarrow> orch \<Rightarrow> bool" where
  "frame I P s t \<longleftrightarrow>
     (rows_keyed (oc_store s) \<longrightarrow> rows_keyed (oc_store t))
     \<and> (resume_ordered (oc_store s) \<longrightarrow> resume_ordered (oc_store t))
     \<and> (\<forall>c j. scans_get (oc_store s) c j \<noteq> None \<longrightarrow> scans_get (oc_store t) c j \<noteq> None)
     \<and> (\<forall>c j. j \<notin> I \<longrightarrow> scans_get (oc_store t) c j = scans_get (oc_store s) c j
          \<and> resume_get (oc_store t) c j = resume_get (oc_store s) c j)
     \<and> (\<forall>j. kr_isKilled (oc_kills s) j \<longrightarrow> kr_isKilled (oc_kills t) j)
     \<and> (\<exists>js. oc_queue t = oc_queue s @ js \<and> (\<forall>job \<in> set js. P job))
     \<and> (\<forall>j. layer_starts t j = layer_starts s j)
     \<and> (oc_running t = oc_running s \<or> oc_running t = None)"

named_theorems frame_intros "peeling rules for frame"

lemma frame_refl [frame_intros]: "frame I P s s"
  by (simp add: frame_def)

lemma frame_trans: "frame I P s t \<Longrightarrow> frame I P t u \<Longrightarrow> frame I P s u"
  unfolding frame_def by (elim conjE exE, intro conjI) (auto | metis)+

lemma frame_weaken:
  "frame I P s t \<Longrightarrow> I \<subseteq> J \<Longrightarrow> (\<And>job. P job \<Longrightarrow> Q job) \<Longrightarrow> frame J Q s t"
  unfolding frame_def by (elim conjE exE, intro conjI) (auto 0 4)

text \<open>A step that changes none of the framed parts.\<close>

lemma frame_same:
  assumes "frame I P s t" and "st_scans (oc_store u) = st_scans (oc_store t)"
    and "st_resume (oc_store u) = st_resume (oc_store t)"
    and "\<And>j. kr_isKilled (oc_kills t) j \<Longrightarrow> kr_isKilled (oc_kills u) j"
    and "oc_queue u = oc_queue t" and "\<And>j. layer_starts u j = layer_starts t j"
    and "oc_running u = oc_running t \<or> oc_running u = None"
  shows "frame I P s u"
proof (rule frame_trans[OF assms(1)])
  show "frame I P t u"
    using assms(2-) scans_get_cong[OF assms(2)] rows_keyed_cong[OF assms(2)]
      resume_ordered_cong[OF assms(3)]
    by (simp add: frame_def resume_get_def)
qed

lemma layer_starts_emit [simp]: "\<not> is_start e \<Longrightarrow> layer_starts (oc_emit e s) i = layer_starts s i"
  by (simp add: layer_starts_def oc_emit_def eb_emit_def)

lemma frame_emit [frame_intros]: "\<not> is_start e \<Longrightarrow> frame I P s t \<Longrightarrow> frame I P s (oc_emit e t)"
  by (erule frame_same) simp_all

lemma frame_audit [frame_intros]: "frame I P s t \<Longrightarrow> frame I P s (safeAudit cx a t)"
  by (erule frame_same) (simp_all add: layer_starts_def)

lemma frame_auditLayer [frame_intros]: "frame I P s t \<Longrightarrow> frame I P s (auditLayer cx sc l t)"
  by (erule frame_same) (simp_all add: layer_starts_def)

lemma isKilled_keeps [simp]:
  "kr_isKilled (kr_clear i k) j = kr_isKilled k j"
  "kr_isKilled (snd (kr_register i k)) j = kr_isKilled k j"
  "kr_isKilled (snd (kr_signalFor i k)) j = kr_isKilled k j"
  by (simp_all add: kr_isKilled_def)

lemma isKilled_abort: "kr_isKilled k j \<Longrightarrow> kr_isKilled (kr_abortScan i r k) j"
  "kr_isKilled k j \<Longrightarrow> kr_isKilled (kr_abortAll r k) j"
  by (auto simp: kr_isKilled_def)

lemma frame_cleanup [frame_intros]: "frame I P s t \<Longrightarrow> frame I P s (oc_cleanup i t)"
  by (erule frame_same) (simp_all add: layer_starts_def oc_cleanup_def eb_end_def)

lemma frame_ensure [frame_intros]: "frame I P s t \<Longrightarrow> frame I P s (ensureSchedulerStarted t)"
  by (erule frame_same) (simp_all add: layer_starts_def)

lemma frame_register [frame_intros]:
  "frame I P s t \<Longrightarrow> frame I P s (t\<lparr>oc_kills := snd (kr_register i (oc_kills t))\<rparr>)"
  by (erule frame_same) (simp_all add: layer_starts_def)

lemma frame_abort [frame_intros]:
  "frame I P s t \<Longrightarrow> frame I P s (t\<lparr>oc_kills := kr_abortScan i r (oc_kills t)\<rparr>)"
  by (erule frame_same) (simp_all add: layer_starts_def isKilled_abort)

lemma frame_abort_all [frame_intros]:
  "frame I P s t \<Longrightarrow> frame I P s (t\<lparr>oc_kills := kr_abortAll r (oc_kills t)\<rparr>)"
  by (erule frame_same) (simp_all add: layer_starts_def isKilled_abort)

lemma frame_client [frame_intros]:
  "frame I P s t \<Longrightarrow> frame I P s (t\<lparr>oc_scanClient := m\<rparr>)"
  by (erule frame_same) (simp_all add: layer_starts_def)

lemma frame_warned [frame_intros]:
  "frame I P s t \<Longrightarrow> frame I P s (t\<lparr>oc_warned := m\<rparr>)"
  by (erule frame_same) (simp_all add: layer_starts_def)

lemma frame_caches [frame_intros]:
  "frame I P s t \<Longrightarrow> frame I P s (t\<lparr>oc_caches := m\<rparr>)"
  by (erule frame_same) (simp_all add: layer_starts_def)

lemma frame_heap [frame_intros]:
  "frame I P s t \<Longrightarrow> frame I P s (t\<lparr>oc_heap := h\<rparr>)"
  by (erule frame_same) (simp_all add: layer_starts_def)

lemma frame_stop_running [frame_intros]:
  "frame I P s t \<Longrightarrow> frame I P s (t\<lparr>oc_running := None\<rparr>)"
  by (erule frame_same) (simp_all add: layer_starts_def)

text \<open>Changes of the store.\<close>

definition store_frame :: "string set \<Rightarrow> state_store \<Rightarrow> state_store \<Rightarrow> bool" where
  "store_frame I st st' \<longleftrightarrow> (rows_keyed st \<longrightarrow> rows_keyed st')
     \<and> (resume_ordered st \<longrightarrow> resume_ordered st')
     \<and> (\<forall>c j. scans_get st c j \<noteq> None \<longrightarrow> scans_get st' c j \<noteq> None)
     \<and> (\<forall>c j. j \<notin> I \<longrightarrow> scans_get st' c j = scans_get st c j \<and> resume_get st' c j = resume_get st c j)"

lemma frame_store:
  assumes "frame I P s t" and "store_frame I (oc_store t) st"
  shows "frame I P s (t\<lparr>oc_store := st\<rparr>)"
proof (rule frame_trans[OF assms(1)])
  show "frame I P t (t\<lparr>oc_store := st\<rparr>)"
    using assms(2) by (simp add: frame_def store_frame_def layer_starts_def)
qed

lemma store_frame_refl [simp]: "store_frame I st st"
  by (simp add: store_frame_def)

lemma store_frame_trans: "store_frame I a b \<Longrightarrow> store_frame I b c \<Longrightarrow> store_frame I a c"
  by (simp add: store_frame_def)

lemma store_frame_same:
  "st_scans st' = st_scans st \<Longrightarrow> st_resume st' = st_resume st \<Longrightarrow> store_frame I st st'"
  using scans_get_cong[of st' st] rows_keyed_cong[of st' st] resume_ordered_cong[of st' st]
  by (simp add: store_frame_def resume_get_def)

lemma store_frame_scans_update:
  assumes "scans_update c r st = Inr st'" and "sc_id r \<in> I" shows "store_frame I st st'"
proof -
  have "scans_get st' d j = scans_get st d j" if "j \<notin> I" for d j
    using scans.upd_other[OF assms(1), of j d] assms(2) that by auto
  moreover have "resume_get st' d j = resume_get st d j" for d j
    using scans_update_rest[OF assms(1)] by (simp add: resume_get_def)
  moreover have "rows_keyed st \<longrightarrow> rows_keyed st'"
    using scans_update_keyed[OF _ assms(1)] by blast
  moreover have "resume_ordered st = resume_ordered st'"
    using scans_update_rest[OF assms(1)] by (intro resume_ordered_cong) simp
  moreover have "scans_get st d j \<noteq> None \<longrightarrow> scans_get st' d j \<noteq> None" for d j
    using scans.upd_ok[OF assms(1)] by auto
  ultimately show ?thesis by (simp add: store_frame_def)
qed

lemma frame_updateScan [frame_intros]:
  assumes "frame I P s t" and "sc_id r \<in> I" shows "frame I P s (fst (oc_updateScan c r t))"
proof (cases "scans_update c r (oc_store t)")
  case (Inr st)
  then show ?thesis
    using frame_store[OF assms(1) store_frame_scans_update[OF Inr assms(2)]]
    by (simp add: oc_updateScan_def)
qed (use assms in \<open>simp add: oc_updateScan_def\<close>)

lemma frame_saveResume [frame_intros]:
  assumes "frame I P s t" and "rt_scanId tok \<in> I" and "layers_ordered (rt_completedLayers tok)" shows "frame I P s (oc_saveResume cx c tok t)"
proof -
  have "store_frame I (oc_store t) (resume_save (cx_id cx) c tok (oc_store t))"
    using assms(2) scans_get_cong[of "resume_save (cx_id cx) c tok (oc_store t)" "oc_store t"]
      rows_keyed_cong[of "resume_save (cx_id cx) c tok (oc_store t)" "oc_store t"]
      resume_ordered_save[OF _ assms(3)]
    by (auto simp: store_frame_def resume_get_save)
  from frame_store[OF assms(1) this] show ?thesis by (simp add: oc_saveResume_def)
qed

lemma frame_advanceResume [frame_intros]:
  "frame I P s t \<Longrightarrow> i \<in> I \<Longrightarrow> frame I P s (advanceResumeToken cx c i l t)"
  unfolding advanceResumeToken_def Let_def
  by (rule frame_saveResume) (simp_all only: resume_token.simps layers_ordered_simps)

lemma frame_and_then [frame_intros]:
  assumes "frame I P s (fst r)" and "\<And>u. frame I P s u \<Longrightarrow> frame I P s (fst (f u))"
  shows "frame I P s (fst (and_then r f))"
  using assms by (rule and_then_inv)

section \<open>Frames of the composed operations\<close>

lemma buildJob_facts:
  "buildJob cfg scan layer auto = Inr job \<Longrightarrow>
     jb_scanId job = sc_id scan \<and> jb_clientId job = sc_clientId scan \<and> jb_layer job = layer
     \<and> (jb_payload job = P5 True \<longrightarrow> auto = Some True)"
  by (cases layer) (auto simp: buildJob_def Let_def split: if_splits option.splits)

text \<open>The jobs an operation may add: for a scan, a layer and a value of \<open>autoApply\<close>.\<close>

definition job_for :: "string \<Rightarrow> layer_id \<Rightarrow> bool option \<Rightarrow> layer_job \<Rightarrow> bool" where
  "job_for i layer auto job \<longleftrightarrow> jb_scanId job = i \<and> jb_layer job = layer
     \<and> (jb_payload job = P5 True \<longrightarrow> auto = Some True)"

lemma frame_enqueueLayer [frame_intros]:
  assumes "frame I P s t" and "\<And>job. job_for (sc_id scan) layer auto job \<Longrightarrow> P job"
  shows "frame I P s (fst (enqueueLayer cfg scan layer auto t))"
proof (cases "buildJob cfg scan layer auto")
  case (Inr job)
  have "P job" using buildJob_facts[OF Inr] by (intro assms(2)) (simp add: job_for_def)
  then have "frame I P t (sched_enqueue job t)"
    by (simp add: frame_def sched_enqueue_def layer_starts_def)
  from frame_trans[OF assms(1) this] show ?thesis by (simp add: enqueueLayer_def Inr)
qed (use assms in \<open>simp add: enqueueLayer_def\<close>)

lemma frame_scheduleLayer [frame_intros]:
  assumes "frame I P s t" and "sc_id scan \<in> I"
    and "\<And>job. job_for (sc_id scan) layer auto job \<Longrightarrow> P job"
  shows "frame I P s (fst (scheduleLayer cfg scan layer auto t))"
  unfolding scheduleLayer_def Let_def using assms
  by (auto intro!: frame_and_then frame_updateScan frame_enqueueLayer)

lemma frame_finalize [frame_intros]:
  "frame I P s t \<Longrightarrow> sc_id scan \<in> I \<Longrightarrow> frame I P s (fst (finalizeComplete cx scan b t))"
  unfolding finalizeComplete_def Let_def
  by (auto intro!: frame_and_then frame_updateScan frame_cleanup frame_audit frame_emit)

lemma frame_enforceBudget [frame_intros]:
  "frame I P s t \<Longrightarrow> sc_id scan \<in> I \<Longrightarrow> frame I P s (fst (fst (oc_enforceBudget cx cfg scan m t)))"
  unfolding oc_enforceBudget_def Let_def
  by (auto intro!: frame_finalize frame_audit frame_emit frame_warned)

lemma frame_failScan [frame_intros]:
  "frame I P s t \<Longrightarrow> sc_id scan \<in> I \<Longrightarrow> frame I P s (fst (failScan cx scan l e t))"
  unfolding failScan_def Let_def
  by (auto intro!: frame_and_then frame_updateScan frame_audit frame_emit)

section \<open>Frames of the public operations\<close>

lemma frame_with_scan:
  assumes "rows_keyed (oc_store s)"
    and "\<And>scan u. frame I P s u \<Longrightarrow> scans_get (oc_store s) (resolveClientId cfg i s) i = Some scan \<Longrightarrow>
      sc_id scan = i \<Longrightarrow> oc_store u = oc_store s \<Longrightarrow> frame I P s (fst (k scan u))"
  shows "frame I P s (fst (with_scan cfg i s k))"
proof (cases "scans_get (oc_store s) (resolveClientId cfg i s) i")
  case None
  then show ?thesis by (simp add: with_scan_def load_scan_def frame_refl)
next
  case (Some scan)
  have "frame I P s (s\<lparr>oc_scanClient := jm_set i (sc_clientId scan) (oc_scanClient s)\<rparr>)"
    by (rule frame_client[OF frame_refl])
  from assms(2)[OF this Some] scans_get_id[OF assms(1) Some]
  show ?thesis by (simp add: with_scan_def load_scan_def Some)
qed

lemma frame_start:
  assumes "rows_keyed (oc_store s)"
  shows "frame {i} (job_for i Layer0 None) s (fst (oc_start cx cfg i s))"
  unfolding oc_start_def Let_def
  by (rule frame_with_scan[OF assms])
    (auto intro!: frame_and_then frame_updateScan frame_ensure frame_register frame_scheduleLayer
      frame_audit frame_emit frame_saveResume)

lemma frame_pause:
  assumes "rows_keyed (oc_store s)"
  shows "frame {i} (\<lambda>_. False) s (fst (oc_pause cx cfg i s))"
  unfolding oc_pause_def
  by (rule frame_with_scan[OF assms]) (auto intro!: frame_and_then frame_updateScan frame_audit)

lemma frame_cancel:
  assumes "rows_keyed (oc_store s)"
  shows "frame {i} (\<lambda>_. False) s (fst (oc_cancel cx cfg i s))"
  unfolding oc_cancel_def Let_def
  by (rule frame_with_scan[OF assms])
    (auto intro!: frame_and_then frame_updateScan frame_audit frame_cleanup frame_abort)

text \<open>What \<open>resume\<close> may schedule, read off the state it starts from.\<close>

definition resume_job :: "montr_config \<Rightarrow> orch \<Rightarrow> string \<Rightarrow> layer_job \<Rightarrow> bool" where
  "resume_job cfg s i job \<longleftrightarrow> (\<exists>scan l. scans_get (oc_store s) (resolveClientId cfg i s) i = Some scan
     \<and> sc_gateState scan \<noteq> Estimate_pending \<and> sc_gateState scan \<noteq> Fix_gate_pending
     \<and> nextLayer (resume_completed s (sc_clientId scan) i) = Some l \<and> job_for i l None job)"

lemma resume_completed_store: "oc_store u = oc_store s \<Longrightarrow> resume_completed u c i = resume_completed s c i"
  by (simp add: resume_completed_def)

lemma frame_resume:
  assumes "rows_keyed (oc_store s)"
  shows "frame {i} (resume_job cfg s i) s (fst (oc_resume cx cfg i s))"
  unfolding oc_resume_def Let_def
proof (rule frame_with_scan[OF assms], goal_cases)
  case (1 scan u)
  have "resume_job cfg s i job"
    if "job_for i l None job" "nextLayer (resume_completed u (sc_clientId scan) i) = Some l"
      "sc_gateState scan \<noteq> Estimate_pending" "sc_gateState scan \<noteq> Fix_gate_pending" for l job
    using 1 that resume_completed_store[of u s] unfolding resume_job_def by auto
  then show ?case using 1
    by (auto intro!: frame_and_then frame_updateScan frame_ensure frame_register frame_scheduleLayer
        frame_finalize frame_audit frame_emit split: option.splits)
qed

definition approve_job :: "montr_config \<Rightarrow> orch \<Rightarrow> string \<Rightarrow> gate_kind \<Rightarrow> layer_job \<Rightarrow> bool" where
  "approve_job cfg s i g job \<longleftrightarrow> (\<exists>scan. scans_get (oc_store s) (resolveClientId cfg i s) i = Some scan
     \<and> \<not> isTerminalStatus (sc_status scan)
     \<and> (case g of Estimate_gate \<Rightarrow> sc_gateState scan = Estimate_pending \<and> job_for i Layer1 None job
        | Fix_gate \<Rightarrow> sc_gateState scan = Fix_gate_pending \<and> job_for i Layer5 (Some True) job))"

lemma frame_approve:
  assumes "rows_keyed (oc_store s)"
  shows "frame {i} (approve_job cfg s i g) s (fst (approveGate cx cfg i g a s))"
  unfolding approveGate_def Let_def
proof (rule frame_with_scan[OF assms], goal_cases)
  case (1 scan u)
  then show ?case
    by (cases g) (auto simp: approve_job_def intro!: frame_and_then frame_updateScan
        frame_scheduleLayer frame_audit)
qed

lemma frame_blockKilled [frame_intros]:
  assumes "frame I P s t" and "rows_keyed (oc_store t)" and "i \<in> I"
  shows "frame I P s (fst (blockKilled cx cfg i sg t))"
proof (cases "scans_get (oc_store t) (resolveClientId cfg i t) i")
  case None
  then show ?thesis using assms by (simp add: blockKilled_def)
next
  case (Some scan)
  then have "sc_id scan = i" using scans_get_id[OF assms(2)] by simp
  then show ?thesis using assms(1,3) Some
    by (auto simp: blockKilled_def Let_def intro!: frame_and_then frame_updateScan frame_cleanup
        frame_audit frame_emit frame_client)
qed

lemma frame_block_all:
  "frame I P s t \<Longrightarrow> rows_keyed (oc_store s) \<Longrightarrow> set ids \<subseteq> I \<Longrightarrow>
     frame I P s (fst (block_all cx cfg ids sg t))"
proof (induction ids arbitrary: t)
  case (Cons i ids)
  have keyed: "rows_keyed (oc_store u)" if "frame I P s u" for u
    using that Cons.prems(2) by (simp add: frame_def)
  have "frame I P s (fst (blockKilled cx cfg i sg t))"
    using Cons.prems keyed by (intro frame_blockKilled) auto
  then show ?case using Cons by (auto intro: frame_and_then)
qed simp

text \<open>The scans a kill signal is about.\<close>

definition kill_targets :: "kill_signal \<Rightarrow> orch \<Rightarrow> string set" where
  "kill_targets sg s = (case ks_scope sg of
      Global_scope \<Rightarrow> set (kr_activeScanIds (oc_kills s))
    | Scan_scope \<Rightarrow> set_option (ks_scanId sg))"

lemma frame_kill:
  assumes "rows_keyed (oc_store s)"
  shows "frame (kill_targets sg s) (\<lambda>_. False) s (fst (oc_kill cx cfg sg s))"
  using assms unfolding oc_kill_def kill_targets_def Let_def
  by (auto intro!: frame_and_then frame_block_all frame_audit frame_blockKilled frame_abort
      frame_abort_all frame_refl split: kill_scope.splits option.splits)

lemma frame_remote_kill:
  assumes "rows_keyed (oc_store s)"
  shows "frame (kill_targets sg s) (\<lambda>_. False) s (fst (handleRemoteKill cx cfg sg s))"
  using assms unfolding handleRemoteKill_def kill_targets_def Let_def
  by (auto intro!: frame_block_all frame_blockKilled frame_abort frame_abort_all frame_refl
      split: kill_scope.splits option.splits)

lemma frame_create:
  "frame {cx_id cx} (\<lambda>_. False) s (fst (createScan cx inp s))"
proof -
  have "store_frame {cx_id cx} (oc_store s) st"
    if "scans_create c r (oc_store s) = Inr st" "sc_id r = cx_id cx" for c r st
  proof -
    have st: "st = (oc_store s)\<lparr>st_scans := jm_set (cx_id cx) (r\<lparr>sc_clientId := c\<rparr>) (st_scans (oc_store s))\<rparr>"
      using that by (auto simp: scans_create_def split: if_splits)
    have "\<not> jm_has (st_scans (oc_store s)) (cx_id cx)"
      using that by (auto simp: scans_create_def split: if_splits)
    then show ?thesis using that(2)
      by (auto simp: st store_frame_def rows_keyed_def scans_get_def resume_get_def resume_ordered_def)
  qed
  then show ?thesis unfolding createScan_def
    by (auto simp: scan_parse_def intro!: frame_audit frame_client[OF frame_store, OF frame_refl]
        frame_refl split: sum.splits if_splits)
qed

section \<open>The frame of a finishing layer\<close>

lemma fixes_update_rest:
  "fixes_update c r st = Inr st' \<Longrightarrow> st_scans st' = st_scans st \<and> st_resume st' = st_resume st"
  by (auto simp: fixes_update_def split: option.splits)

lemma link_fixes_rest:
  "st_scans (fst (link_fixes c p is st)) = st_scans st \<and> st_resume (fst (link_fixes c p is st)) = st_resume st"
  by (induction c p "is" st rule: link_fixes.induct)
    (auto split: option.splits sum.splits dest: fixes_update_rest)

lemma link_prs_rest:
  "st_scans (fst (link_prs c ps st)) = st_scans st \<and> st_resume (fst (link_prs c ps st)) = st_resume st"
proof (induction ps arbitrary: st)
  case (Cons p ps)
  have "(\<lambda>u. st_scans u = st_scans st \<and> st_resume u = st_resume st)
      (fst (and_then (link_fixes c (pr_id p) (pr_fixIds p) st) (link_prs c ps)))"
    by (rule and_then_inv) (use Cons link_fixes_rest in auto)
  then show ?case by simp
qed simp

lemma fixes_create_rest:
  "fixes_create c f st = Inr st' \<Longrightarrow> st_scans st' = st_scans st \<and> st_resume st' = st_resume st"
  by (auto simp: fixes_create_def split: if_splits)

lemma create_fixes_rest:
  "st_scans (fst (create_fixes c fs st)) = st_scans st \<and> st_resume (fst (create_fixes c fs st)) = st_resume st"
proof (induction fs arbitrary: st)
  case (Cons f fs)
  then show ?case by (cases "fixes_create c f st") (auto dest: fixes_create_rest)
qed simp

lemma appMaps_create_rest:
  "appMaps_create c m st = Inr st' \<Longrightarrow> st_scans st' = st_scans st \<and> st_resume st' = st_resume st"
  by (auto simp: appMaps_create_def split: if_splits)

text \<open>
  Persisting: the store outside the scan is kept, the scan object keeps its identity and
  policy, and for layer 0 the row afterwards carries the columns of the captured object.
\<close>

lemma persist_facts:
  assumes "persistLayerOutput c layer out scan st = (st', scan', e)"
  shows "store_frame {sc_id scan} st st' \<and> sc_id scan' = sc_id scan \<and> sc_clientId scan' = sc_clientId scan
    \<and> sc_budgetPolicy scan' = sc_budgetPolicy scan \<and> sc_gateState scan' = sc_gateState scan
    \<and> sc_status scan' = sc_status scan
    \<and> (layer \<noteq> Layer0 \<longrightarrow> scan' = scan \<and> st_scans st' = st_scans st)
    \<and> (layer = Layer0 \<and> e = None \<longrightarrow>
         (\<exists>row. scans_get st c (sc_id scan) = Some row
            \<and> scans_get st' c (sc_id scan) = Some (scanToUpdate row scan')))"
proof (cases "output_layer out = layer")
  case False
  then show ?thesis using assms by (auto simp: persistLayerOutput_def)
next
  case True
  show ?thesis
  proof (cases out)
    case (Layer0_output m scope est)
    show ?thesis
    proof (cases "appMaps_create c m st")
      case (Inl err)
      then show ?thesis using assms True Layer0_output by (auto simp: persistLayerOutput_def)
    next
      case (Inr st1)
      note rest = appMaps_create_rest[OF Inr]
      define scan2 where "scan2 = (let s1 = scan\<lparr>sc_appMapId := Some (am_id m), sc_costEstimate := Some est,
          sc_scope := scope\<rparr> in if truthy (am_commitSha m) then s1\<lparr>sc_commitSha := am_commitSha m\<rparr> else s1)"
      have s2: "sc_id scan2 = sc_id scan" "sc_clientId scan2 = sc_clientId scan"
        "sc_budgetPolicy scan2 = sc_budgetPolicy scan" "sc_gateState scan2 = sc_gateState scan"
        "sc_status scan2 = sc_status scan"
        by (simp_all add: scan2_def Let_def)
      have f1: "store_frame {sc_id scan} st st1" using rest by (intro store_frame_same) simp_all
      have layer: "layer = Layer0" using True Layer0_output by simp
      have P: "persistLayerOutput c layer out scan st = (case scans_update c scan2 st1 of
          Inl e \<Rightarrow> (st1, scan2, Some e) | Inr st2 \<Rightarrow> (st2, scan2, None))"
        using Layer0_output Inr layer unfolding scan2_def Let_def
        by (cases "truthy (am_commitSha m)") (simp_all add: persistLayerOutput_def Let_def)
      show ?thesis
      proof (cases "scans_update c scan2 st1")
        case (Inl e)
        then show ?thesis using P assms s2 f1 layer by auto
      next
        case (Inr st2)
        have "store_frame {sc_id scan} st1 st2"
          using store_frame_scans_update[OF Inr] s2 by simp
        moreover obtain row where "scans_get st1 c (sc_id scan2) = Some row"
          "scans_get st2 c (sc_id scan2) = Some (scanToUpdate row scan2)"
          using scans.upd_ok[OF Inr] by auto
        moreover have "scans_get st1 c (sc_id scan) = scans_get st c (sc_id scan)"
          using scans_get_cong rest by blast
        ultimately show ?thesis using P assms s2 f1 Inr layer store_frame_trans by auto
      qed
    qed
  next
    case (Layer4_output fs)
    then show ?thesis using assms True create_fixes_rest[of c fs st]
      by (auto simp: persistLayerOutput_def split: prod.splits intro!: store_frame_same)
  next
    case (Layer5_output report prs)
    then show ?thesis using assms True link_prs_rest[of c prs st]
      by (auto simp: persistLayerOutput_def split: prod.splits intro!: store_frame_same)
  qed (use assms True in \<open>auto simp: persistLayerOutput_def candidates_bulkCreate_def
      probable_bulkCreate_def confirmed_bulkCreate_def unconfirmed_bulkCreate_def Let_def
      intro!: store_frame_same split: if_splits\<close>)
qed

lemma executeLayer_state:
  "frame I P s t \<Longrightarrow> frame I P s (snd (executeLayer cx job m run t))"
proof -
  assume a: "frame I P s t"
  have "frame I P s (fold (\<lambda>(ph, pct). oc_emit (Progress i l (clampPct pct) ph n)) ps u)"
    if "frame I P s u" for i l n ps u
    using that
  proof (induction ps arbitrary: u)
    case (Cons p ps)
    have "frame I P s (oc_emit (Progress i l (clampPct (snd p)) (fst p) n) u)"
      by (rule frame_emit[OF _ Cons.prems]) simp
    from Cons.IH[OF this] show ?case by (simp add: case_prod_unfold)
  qed simp
  then show ?thesis using a by (simp add: executeLayer_def frame_heap)
qed

lemma progress_fields:
  "oc_store (fold (\<lambda>(ph, pct). oc_emit (Progress i l (clampPct pct) ph n)) ps u) = oc_store u"
  "oc_kills (fold (\<lambda>(ph, pct). oc_emit (Progress i l (clampPct pct) ph n)) ps u) = oc_kills u"
  "oc_heap (fold (\<lambda>(ph, pct). oc_emit (Progress i l (clampPct pct) ph n)) ps u) = oc_heap u"
  "oc_queue (fold (\<lambda>(ph, pct). oc_emit (Progress i l (clampPct pct) ph n)) ps u) = oc_queue u"
  by (induction ps arbitrary: u) auto

lemma executeLayer_fields [simp]:
  "oc_store (snd (executeLayer cx job m run t)) = oc_store t"
  "oc_kills (snd (executeLayer cx job m run t)) = oc_kills t"
  "oc_queue (snd (executeLayer cx job m run t)) = oc_queue t"
  "oc_heap (snd (executeLayer cx job m run t)) m = fold mt_record (lr_usage run) (oc_heap t m)"
  by (simp_all add: executeLayer_def progress_fields)

lemma enforceBudget_continue:
  assumes "oc_enforceBudget cx cfg scan m s = (r, False)"
  shows "oc_store (fst r) = oc_store s \<and> snd r = None"
  using assms by (auto simp: oc_enforceBudget_def Let_def split: if_splits)

text \<open>What the transition after a layer may schedule.\<close>

definition advance_job :: "montr_config \<Rightarrow> scan \<Rightarrow> layer_id \<Rightarrow> layer_job \<Rightarrow> bool" where
  "advance_job cfg scan layer job \<longleftrightarrow>
     (layer = Layer0 \<and> \<not> estimateGateRequired scan cfg \<and> job_for (sc_id scan) Layer1 None job)
     \<or> (layer \<in> {Layer1, Layer2, Layer3} \<and> (\<exists>l. layerAfter layer = Some l \<and> job_for (sc_id scan) l None job))
     \<or> (layer = Layer4 \<and> (\<exists>auto. job_for (sc_id scan) Layer5 (Some auto) job
           \<and> (auto \<longrightarrow> af_enabled (cfg_autoFix cfg) \<and> Auto_eligible \<in> set (af_allowedRiskClasses (cfg_autoFix cfg))
                \<and> \<not> approverRequiredForGate (cfg_rbac cfg))))"

lemma wouldOpenPrs_config:
  "wouldOpenPrs (evaluateFixGate fs cfg) \<Longrightarrow>
     af_enabled (cfg_autoFix cfg) \<and> Auto_eligible \<in> set (af_allowedRiskClasses (cfg_autoFix cfg))"
  by (auto simp: evaluateFixGate_def autoEligible_def filter_empty_conv)

lemma frame_advance:
  assumes "frame I P s t" and "sc_id scan \<in> I"
    and "\<And>job. advance_job cfg scan layer job \<Longrightarrow> P job"
  shows "frame I P s (fst (advanceAfterLayer cx cfg scan layer t))"
proof (cases layer)
  case Layer4
  have P5: "P job" if "job_for (sc_id scan) Layer5 (Some auto) job"
    "auto \<longrightarrow> wouldOpenPrs (evaluateFixGate fs cfg) \<and> \<not> approverRequiredForGate (cfg_rbac cfg)" for job auto fs
    using assms(3)[of job] that wouldOpenPrs_config[of fs cfg] Layer4 by (auto simp: advance_job_def)
  show ?thesis
    using assms(1,2) Layer4 unfolding advanceAfterLayer_def Let_def
    by (auto intro!: frame_and_then frame_updateScan frame_emit frame_audit frame_scheduleLayer
        intro: P5)
qed (use assms in \<open>auto simp: advanceAfterLayer_def Let_def advance_job_def
      intro!: frame_and_then frame_updateScan frame_emit frame_audit frame_scheduleLayer frame_finalize\<close>)

definition run_ok :: "orch \<Rightarrow> bool" where
  "run_ok s \<longleftrightarrow> (\<forall>rj. oc_running s = Some rj \<longrightarrow>
     sc_id (rj_scan rj) = jb_scanId (rj_job rj) \<and> sc_clientId (rj_scan rj) = jb_clientId (rj_job rj)
     \<and> scans_get (oc_store s) (jb_clientId (rj_job rj)) (jb_scanId (rj_job rj)) \<noteq> None)"

lemma advance_job_policy:
  "advance_job cfg scan layer job \<Longrightarrow> sc_id scan = sc_id scan' \<Longrightarrow>
     (layer = Layer0 \<longrightarrow> sc_budgetPolicy scan = sc_budgetPolicy scan') \<Longrightarrow> advance_job cfg scan' layer job"
  by (auto simp: advance_job_def estimateGateRequired_def effectiveBudgetPolicy_def split: option.splits)

lemma frame_afterPersist:
  assumes "frame I P s t" and "rows_keyed (oc_store t)" and "sc_id scan = jb_scanId (rj_job rj)"
    and "sc_id scan \<in> I" and "\<And>job. advance_job cfg scan (jb_layer (rj_job rj)) job \<Longrightarrow> P job"
    and pol: "\<And>row. jb_layer (rj_job rj) = Layer0 \<Longrightarrow>
      scans_get (oc_store t) (jb_clientId (rj_job rj)) (sc_id scan) = Some row \<Longrightarrow>
      sc_budgetPolicy row = sc_budgetPolicy scan"
  shows "frame I P s (fst (afterPersist cx cfg rj scan t))"
proof -
  let ?job = "rj_job rj"
  let ?s1 = "auditLayer cx scan (jb_layer ?job) (oc_emit (Layer_completed (jb_scanId ?job) (jb_layer ?job) (cx_now cx)) t)"
  obtain r b where rb: "oc_enforceBudget cx cfg scan (rj_meter rj) ?s1 = (r, b)" by fastforce
  have "frame I P s ?s1" using assms(1) by (auto intro!: frame_auditLayer frame_emit)
  then have fr: "frame I P s (fst r)"
    using frame_enforceBudget[of I P s ?s1 scan cx cfg "rj_meter rj"] assms(4) rb by simp
  show ?thesis
  proof (cases b)
    case True
    then show ?thesis using rb fr by (simp add: afterPersist_def Let_def)
  next
    case False
    then have st: "oc_store (fst r) = oc_store t" "snd r = None"
      using enforceBudget_continue[of cx cfg scan "rj_meter rj" ?s1 r] rb by simp_all
    let ?f = "case scans_get (oc_store t) (jb_clientId ?job) (jb_scanId ?job) of Some f \<Rightarrow> f | None \<Rightarrow> scan"
    have "sc_id ?f = sc_id scan \<and> (jb_layer ?job = Layer0 \<longrightarrow> sc_budgetPolicy ?f = sc_budgetPolicy scan)"
      using scans_get_id[OF assms(2)] pol assms(3) by (auto split: option.splits)
    then have "P job" if "advance_job cfg ?f (jb_layer ?job) job" for job
      using advance_job_policy[OF that] assms(5) by blast
    then have "frame I P s (fst (advanceAfterLayer cx cfg ?f (jb_layer ?job) (fst r)))"
      using fr assms(4) \<open>sc_id ?f = sc_id scan \<and> _\<close> by (intro frame_advance) auto
    then show ?thesis using rb False fr st
      by (simp add: afterPersist_def Let_def and_then_split)
  qed
qed

lemma frame_finish:
  assumes "rows_keyed (oc_store s)" and "run_ok s" and "oc_running s = Some rj"
  shows "frame {jb_scanId (rj_job rj)} (advance_job cfg (rj_scan rj) (jb_layer (rj_job rj)))
    s (fst (finishLayerJob cx cfg run s))"
proof -
  let ?i = "jb_scanId (rj_job rj)" and ?l = "jb_layer (rj_job rj)" and ?c = "jb_clientId (rj_job rj)"
  let ?P = "advance_job cfg (rj_scan rj) ?l"
  obtain res s1 where x: "executeLayer cx (rj_job rj) (rj_meter rj) run (s\<lparr>oc_running := None\<rparr>) = (res, s1)"
    by fastforce
  have id: "sc_id (rj_scan rj) = ?i" using assms(2,3) by (simp add: run_ok_def)
  have f1: "frame {?i} ?P s s1"
    using executeLayer_state[OF frame_stop_running[OF frame_refl], where s = s and m = "rj_meter rj"
        and run = run and job = "rj_job rj" and cx = cx] x by simp
  have st1: "oc_store s1 = oc_store s"
    using executeLayer_fields(1)[of cx "rj_job rj" "rj_meter rj" run "s\<lparr>oc_running := None\<rparr>"] x by simp
  show ?thesis
  proof (cases res)
    case (Inl err)
    then show ?thesis using f1 assms(3) x id
      by (auto simp: finishLayerJob_def Let_def intro: frame_failScan)
  next
    case (Inr out)
    obtain st scan e where p: "persistLayerOutput ?c ?l out (rj_scan rj) (oc_store s1) = (st, scan, e)"
      by (cases "persistLayerOutput ?c ?l out (rj_scan rj) (oc_store s1)") auto
    note pf = persist_facts[OF p]
    have sf: "store_frame {?i} (oc_store s1) st" and scid: "sc_id scan = ?i" using pf id by auto
    have f2: "frame {?i} ?P s (s1\<lparr>oc_store := st\<rparr>)" by (rule frame_store[OF f1 sf])
    show ?thesis
    proof (cases e)
      case (Some err)
      then show ?thesis using f2 assms(3) x Inr p scid
        by (auto simp: finishLayerJob_def Let_def intro: frame_failScan)
    next
      case None
      let ?s2 = "advanceResumeToken cx ?c ?i ?l (s1\<lparr>oc_store := st,
          oc_caches := jm_set ?i (jm_set ?l out (getCache ?i s1)) (oc_caches s1)\<rparr>)"
      have f3: "frame {?i} ?P s ?s2" using frame_caches[OF f2] by (intro frame_advanceResume) auto
      have "rows_keyed (oc_store ?s2)" using f3 assms(1) by (simp add: frame_def)
      moreover have "sc_budgetPolicy row = sc_budgetPolicy scan"
        if "?l = Layer0" "scans_get (oc_store ?s2) ?c (sc_id scan) = Some row" for row
      proof -
        have "st_scans (oc_store ?s2) = st_scans st"
          by (simp add: advanceResumeToken_def Let_def)
        then have "scans_get st ?c (sc_id scan) = Some row"
          using that(2) scans_get_cong[of "oc_store ?s2" st] by simp
        then show ?thesis using pf None that(1) id scid by auto
      qed
      moreover have "?P job" if "advance_job cfg scan ?l job" for job
        using advance_job_policy[OF that, of "rj_scan rj"] pf id scid by auto
      ultimately have "frame {?i} ?P s (fst (afterPersist cx cfg rj scan ?s2))"
        using f3 scid by (intro frame_afterPersist) auto
      then show ?thesis using None assms(3) x Inr p by (simp add: finishLayerJob_def Let_def)
    qed
  qed
qed

end
