(* ===== verification/ControllerProps.thy ===== *)
theory ControllerProps
  imports ControllerFacts
begin

text \<open>
  The invariant of the controller over all interleavings of operations with the running
  layer, and its properties: gates, kill switch, resume, budget halt, and the runs that
  show where the code departs from what it documents.
\<close>

section \<open>The invariant\<close>

definition orch_ok :: "orch \<Rightarrow> bool" where
  "orch_ok s \<longleftrightarrow> rows_keyed (oc_store s) \<and> run_ok s \<and> resume_ordered (oc_store s)"

text \<open>The jobs a step may add to the queue.\<close>

definition new_job :: "montr_config \<Rightarrow> orch_label \<Rightarrow> orch \<Rightarrow> layer_job \<Rightarrow> bool" where
  "new_job cfg l s job \<longleftrightarrow> (case l of
      Lbl_start i \<Rightarrow> job_for i Layer0 None job
    | Lbl_resume i \<Rightarrow> resume_job cfg s i job
    | Lbl_approve i g a \<Rightarrow> approve_job cfg s i g job
    | Lbl_finish j \<Rightarrow> (\<exists>rj. oc_running s = Some rj \<and> rj_job rj = j
                      \<and> advance_job cfg (rj_scan rj) (jb_layer j) job)
    | _ \<Rightarrow> False)"

text \<open>The scans a step is about.\<close>

definition step_scans :: "orch_label \<Rightarrow> orch \<Rightarrow> orch \<Rightarrow> string set" where
  "step_scans l s t = (case l of
      Lbl_create \<Rightarrow> {i. \<exists>c. scans_get (oc_store s) c i \<noteq> scans_get (oc_store t) c i}
    | Lbl_start i \<Rightarrow> {i} | Lbl_pause i \<Rightarrow> {i} | Lbl_resume i \<Rightarrow> {i} | Lbl_cancel i \<Rightarrow> {i}
    | Lbl_kill sg \<Rightarrow> kill_targets sg s | Lbl_remote_kill sg \<Rightarrow> kill_targets sg s
    | Lbl_approve i g a \<Rightarrow> {i} | Lbl_begin j \<Rightarrow> {} | Lbl_finish j \<Rightarrow> {jb_scanId j} | Lbl_close \<Rightarrow> {})"

lemma step_frame:
  assumes "orch_step cfg l s t" and "orch_ok s" and "\<forall>j. l \<noteq> Lbl_begin j" and "l \<noteq> Lbl_close"
  shows "\<exists>I. frame I (new_job cfg l s) s t \<and> (l \<noteq> Lbl_create \<longrightarrow> I = step_scans l s t)"
proof -
  have k: "rows_keyed (oc_store s)" "run_ok s" using assms(2) by (simp_all add: orch_ok_def)
  show ?thesis using assms(1)
  proof cases
    case (st_create cx inp)
    then show ?thesis using frame_weaken[OF frame_create[of cx s inp], of "{cx_id cx}"] by fastforce
  next
    case (st_start i cx)
    then show ?thesis using frame_start[OF k(1), of i cx cfg]
      by (intro exI[of _ "{i}"]) (auto simp: step_scans_def elim!: frame_weaken simp: new_job_def)
  next
    case (st_pause i cx)
    then show ?thesis using frame_pause[OF k(1), of i cx cfg]
      by (intro exI[of _ "{i}"]) (auto simp: step_scans_def elim!: frame_weaken simp: new_job_def)
  next
    case (st_resume i cx)
    then show ?thesis using frame_resume[OF k(1), of i cfg cx]
      by (intro exI[of _ "{i}"]) (auto simp: step_scans_def elim!: frame_weaken simp: new_job_def)
  next
    case (st_cancel i cx)
    then show ?thesis using frame_cancel[OF k(1), of i cx cfg]
      by (intro exI[of _ "{i}"]) (auto simp: step_scans_def elim!: frame_weaken simp: new_job_def)
  next
    case (st_kill sg cx)
    then show ?thesis using frame_kill[OF k(1), of sg cx cfg]
      by (intro exI[of _ "kill_targets sg s"])
        (auto simp: step_scans_def elim!: frame_weaken simp: new_job_def)
  next
    case (st_remote_kill sg cx)
    then show ?thesis using frame_remote_kill[OF k(1), of sg cx cfg]
      by (intro exI[of _ "kill_targets sg s"])
        (auto simp: step_scans_def elim!: frame_weaken simp: new_job_def)
  next
    case (st_approve i g a cx)
    then show ?thesis using frame_approve[OF k(1), of i cfg g cx a]
      by (intro exI[of _ "{i}"]) (auto simp: step_scans_def elim!: frame_weaken simp: new_job_def)
  next
    case (st_finish rj run cx)
    then show ?thesis using frame_finish[OF k st_finish(3), of cfg cx run]
      by (intro exI[of _ "{jb_scanId (rj_job rj)}"])
        (auto simp: step_scans_def elim!: frame_weaken simp: new_job_def)
  qed (use assms(3,4) in auto)
qed

lemma begin_facts:
  assumes "rows_keyed (oc_store s)"
  shows "oc_store (beginLayerJob cx cfg job s) = oc_store s
    \<and> oc_queue (beginLayerJob cx cfg job s) = oc_queue s
    \<and> (\<forall>j. kr_isKilled (oc_kills (beginLayerJob cx cfg job s)) j = kr_isKilled (oc_kills s) j)
    \<and> (\<forall>j. kr_isKilled (oc_kills s) j \<longrightarrow>
          layer_starts (beginLayerJob cx cfg job s) j = layer_starts s j)
    \<and> (run_ok s \<longrightarrow> run_ok (beginLayerJob cx cfg job s))"
proof -
  let ?i = "jb_scanId job" and ?c = "jb_clientId job"
  show ?thesis
  proof (cases "kr_isKilled (oc_kills s) ?i \<or> scans_get (oc_store s) ?c ?i = None")
    case True
    then show ?thesis by (auto simp: beginLayerJob_def Let_def)
  next
    case False
    then obtain scan where sc: "scans_get (oc_store s) ?c ?i = Some scan"
      and nk: "\<not> kr_isKilled (oc_kills s) ?i" by auto
    have id: "sc_id scan = ?i" "sc_clientId scan = ?c" using scans_get_id[OF assms sc] by auto
    show ?thesis
    proof (cases "isTerminalStatus (sc_status scan) \<or> sc_status scan = Paused")
      case True
      then show ?thesis using sc nk
        by (auto simp: beginLayerJob_def Let_def layer_starts_def run_ok_def)
    next
      case False
      let ?s1 = "s\<lparr>oc_scanClient := jm_set ?i (sc_clientId scan) (oc_scanClient s)\<rparr>"
      obtain sg k where k: "kr_signalFor ?i (oc_kills ?s1) = (sg, k)" by fastforce
      obtain m s2 where m: "getMeter cx ?i (?s1\<lparr>oc_kills := k\<rparr>) = (m, s2)" by fastforce
      have s2: "oc_store s2 = oc_store s" "oc_queue s2 = oc_queue s" "oc_kills s2 = k" "oc_bus s2 = oc_bus s"
        using m by (auto simp: getMeter_def split: option.splits)
      have kk: "kr_isKilled k j = kr_isKilled (oc_kills s) j" for j
      proof -
        have "k = snd (kr_signalFor ?i (oc_kills s))" using k by simp
        then show ?thesis by (simp only: isKilled_keeps)
      qed
      have ls: "layer_starts (oc_emit (Layer_started ?i l n) (s2\<lparr>oc_registry := r\<rparr>)) j = layer_starts s j"
        if "j \<noteq> ?i" for j l n r
        using that s2 by (simp add: layer_starts_def oc_emit_def eb_emit_def)
      have B: "beginLayerJob cx cfg job s =
          (oc_emit (Layer_started ?i (jb_layer job) (cx_now cx))
            (s2\<lparr>oc_registry := br_register ?i m (effectiveBudgetPolicy scan cfg) (oc_registry s2)\<rparr>))
          \<lparr>oc_running := Some \<lparr>rj_job = job, rj_scan = scan, rj_signal = sg, rj_meter = m\<rparr>\<rparr>"
        using sc nk False k m by (simp add: beginLayerJob_def Let_def)
      have "layer_starts (beginLayerJob cx cfg job s) j = layer_starts s j"
        if "kr_isKilled (oc_kills s) j" for j
        using that nk ls[of j] unfolding B layer_starts_def by auto
      then show ?thesis unfolding B by (simp add: s2 kk id sc run_ok_def)
    qed
  qed
qed

lemma close_facts:
  "oc_store (sched_close s) = oc_store s" "oc_queue (sched_close s) = []"
  "oc_kills (sched_close s) = oc_kills s" "oc_bus (sched_close s) = oc_bus s"
  "oc_running (sched_close s) = oc_running s"
  by (simp_all add: sched_close_def)

lemma sched_next_fields:
  "sched_next s = Some (job, s') \<Longrightarrow> oc_store s' = oc_store s \<and> oc_kills s' = oc_kills s
     \<and> oc_bus s' = oc_bus s \<and> oc_running s' = oc_running s \<and> oc_queue s = job # oc_queue s'"
  by (auto simp: sched_next_def split: if_splits list.splits)

lemma orch_ok_step:
  assumes "orch_ok s" and "orch_step cfg l s t" shows "orch_ok t"
proof (cases "(\<exists>j. l = Lbl_begin j) \<or> l = Lbl_close")
  case False
  then obtain I where "frame I (new_job cfg l s) s t" using step_frame[OF assms(2,1)] by blast
  then show ?thesis using assms(1) unfolding frame_def orch_ok_def run_ok_def
    by (elim conjE, intro conjI) (blast | metis option.distinct(1))+
next
  case True
  show ?thesis using assms(2) True
  proof cases
    case (st_begin job s' cx)
    note nx = sched_next_fields[OF st_begin(3)]
    have "rows_keyed (oc_store s')" "run_ok s'" "resume_ordered (oc_store s')"
      using nx assms(1) by (auto simp: orch_ok_def run_ok_def)
    then show ?thesis using begin_facts[of s' cx cfg job] st_begin by (simp add: orch_ok_def)
  next
    case st_close
    then show ?thesis using assms(1) by (simp add: orch_ok_def run_ok_def close_facts)
  qed auto
qed

lemma orch_ok_init: "orch_ok orch_init"
  by (simp add: orch_ok_def rows_keyed_def run_ok_def orch_init_def resume_ordered_def resume_get_def)

interpretation orch: step_invariant "\<lambda>s. s = orch_init" "orch_any cfg" orch_ok for cfg
  by unfold_locales (auto simp: orch_ok_init orch_any_def intro: orch_ok_step)

section \<open>Steps and the queue\<close>

lemma step_queue:
  assumes "orch_step cfg l s t" and "orch_ok s"
  shows "(\<exists>js. oc_queue t = oc_queue s @ js \<and> (\<forall>job \<in> set js. new_job cfg l s job))
    \<or> set (oc_queue t) \<subseteq> set (oc_queue s)"
proof (cases "(\<exists>j. l = Lbl_begin j) \<or> l = Lbl_close")
  case False
  then obtain I where "frame I (new_job cfg l s) s t" using step_frame[OF assms] by blast
  then show ?thesis by (simp add: frame_def)
next
  case True
  show ?thesis using assms(1) True
  proof cases
    case (st_begin job s' cx)
    note nx = sched_next_fields[OF st_begin(3)]
    have "rows_keyed (oc_store s')" using nx assms(2) by (auto simp: orch_ok_def)
    then have "oc_queue t = oc_queue s'" using begin_facts[of s' cx cfg job] st_begin by simp
    then show ?thesis using nx by auto
  qed (auto simp: close_facts)
qed

text \<open>The jobs a step appends.\<close>

definition appended :: "orch \<Rightarrow> orch \<Rightarrow> layer_job list" where
  "appended s t = drop (length (oc_queue s)) (oc_queue t)"

lemma appended_new:
  assumes "orch_step cfg l s t" and "orch_ok s" and "job \<in> set (appended s t)"
  shows "new_job cfg l s job"
proof (cases "(\<exists>j. l = Lbl_begin j) \<or> l = Lbl_close")
  case False
  then obtain I where "frame I (new_job cfg l s) s t" using step_frame[OF assms(1,2)] by blast
  then show ?thesis using assms(3) by (auto simp: frame_def appended_def)
next
  case True
  have "length (oc_queue t) \<le> length (oc_queue s)" using assms(1) True
  proof cases
    case (st_begin j s' cx)
    note nx = sched_next_fields[OF st_begin(3)]
    have "rows_keyed (oc_store s')" using nx assms(2) by (auto simp: orch_ok_def)
    then have "oc_queue t = oc_queue s'" using begin_facts[of s' cx cfg j] st_begin by simp
    then show ?thesis using nx by simp
  qed (auto simp: close_facts)
  then show ?thesis using assms(3) by (simp add: appended_def)
qed

lemma step_killed:
  assumes "orch_step cfg l s t" and "orch_ok s" and "kr_isKilled (oc_kills s) i"
  shows "kr_isKilled (oc_kills t) i \<and> layer_starts t i = layer_starts s i"
proof (cases "(\<exists>j. l = Lbl_begin j) \<or> l = Lbl_close")
  case False
  then obtain I where "frame I (new_job cfg l s) s t" using step_frame[OF assms(1,2)] by blast
  then show ?thesis using assms(3) by (auto simp: frame_def)
next
  case True
  show ?thesis using assms(1) True
  proof cases
    case (st_begin job s' cx)
    note nx = sched_next_fields[OF st_begin(3)]
    have "rows_keyed (oc_store s')" "oc_kills s' = oc_kills s" "layer_starts s' i = layer_starts s i"
      using nx assms(2) by (auto simp: orch_ok_def layer_starts_def)
    then show ?thesis using begin_facts[of s' cx cfg job] st_begin assms(3) by simp
  qed (use assms(3) in \<open>auto simp: close_facts layer_starts_def\<close>)
qed

lemma run_killed:
  assumes "(orch_any cfg)\<^sup>*\<^sup>* s t" and "orch_ok s" and "kr_isKilled (oc_kills s) i"
  shows "orch_ok t \<and> kr_isKilled (oc_kills t) i \<and> layer_starts t i = layer_starts s i"
  using assms(1)
proof (induction rule: rtranclp_induct)
  case (step t u)
  then obtain l where l: "orch_step cfg l t u" by (auto simp: orch_any_def)
  from step_killed[OF l, of i] orch_ok_step[OF _ l] step.IH show ?case by auto
qed (use assms in simp)

end
