(* ===== verification/OrchestratorProps.thy ===== *)
theory OrchestratorProps
  imports ControllerProps
begin

text \<open>
  The properties of the orchestrator, and concrete runs: the witnesses of the properties
  and the runs where the code departs from its documentation.
\<close>

section \<open>Concrete runs\<close>

definition ex_cfg :: montr_config where
  "ex_cfg = default_config ''acme''"

definition ex_cx :: op_ctx where
  "ex_cx = \<lparr>cx_now = ''t'', cx_ms = 0, cx_id = ''s1'', cx_auditOk = True\<rparr>"

definition ex_input :: create_input where
  "ex_input = \<lparr>in_clientId = ''acme'', in_repo = ''repo'', in_branch = ''main'', in_mode = Full,
     in_scope = example_scope, in_operator = ''olga'', in_budgetPolicy = None\<rparr>"

definition ex_estimate :: cost_estimate where
  "ex_estimate = \<lparr>ce_scanId = None, ce_mode = Full, projectedInputTokens = 1, projectedOutputTokens = 0,
     projectedTotalTokens = 1, projectedUsd = 0, projectedWallClockSeconds = 0, ce_byLayer = [],
     ce_createdAt = ''t''\<rparr>"

text \<open>A run of a layer that succeeds at once with the given output and usage.\<close>

definition ex_run :: "layer_output \<Rightarrow> meter_entry list \<Rightarrow> layer_run" where
  "ex_run out us = \<lparr>lr_attempts = (\<lambda>_. Inr out), lr_abort = (\<lambda>_. None), lr_usage = us, lr_progress = []\<rparr>"

definition ex_fail :: "js_error \<Rightarrow> layer_run" where
  "ex_fail e = \<lparr>lr_attempts = (\<lambda>_. Inl e), lr_abort = (\<lambda>_. None), lr_usage = [], lr_progress = []\<rparr>"

definition ex_out0 :: layer_output where
  "ex_out0 = Layer0_output \<lparr>am_id = ''map1'', am_commitSha = None, am_rest = JNull\<rparr> example_scope ex_estimate"

text \<open>Deliver the next job, if the scheduler has one.\<close>

definition ex_begin :: "montr_config \<Rightarrow> orch \<Rightarrow> orch" where
  "ex_begin cfg s = (case sched_next s of None \<Rightarrow> s | Some (j, s') \<Rightarrow> beginLayerJob ex_cx cfg j s')"

definition ex_finish :: "montr_config \<Rightarrow> layer_run \<Rightarrow> orch \<Rightarrow> orch" where
  "ex_finish cfg run s = fst (finishLayerJob ex_cx cfg run s)"

definition ex_started :: "montr_config \<Rightarrow> orch" where
  "ex_started cfg = fst (oc_start ex_cx cfg ''s1'' (fst (createScan ex_cx ex_input orch_init)))"

definition ex_row :: "orch \<Rightarrow> scan option" where
  "ex_row s = scans_get (oc_store s) ''acme'' ''s1''"

lemma reach_any: "reach (\<lambda>s. s = orch_init) (orch_any cfg) s \<Longrightarrow> orch_step cfg l s t \<Longrightarrow>
    reach (\<lambda>s. s = orch_init) (orch_any cfg) t"
  by (erule reach_step) (auto simp: orch_any_def)

lemma reach_started: "reach (\<lambda>s. s = orch_init) (orch_any cfg) (ex_started cfg)"
  unfolding ex_started_def
  by (rule reach_any[OF reach_any[OF reach_start st_create] st_start]) simp

lemma reach_begin:
  "reach (\<lambda>s. s = orch_init) (orch_any cfg) s \<Longrightarrow> reach (\<lambda>s. s = orch_init) (orch_any cfg) (ex_begin cfg s)"
  by (auto simp: ex_begin_def split: option.splits intro: reach_any st_begin)

lemma ex_run_sound: "\<forall>e \<in> set us. usage_valid (en_usage e) \<Longrightarrow> run_sound s rj (ex_run out us)"
  "run_sound s rj (ex_fail e)"
  by (simp_all add: run_sound_def ex_run_def ex_fail_def)

lemma reach_finish:
  assumes "reach (\<lambda>s. s = orch_init) (orch_any cfg) s" and "\<And>rj. run_sound s rj run"
  shows "reach (\<lambda>s. s = orch_init) (orch_any cfg) (ex_finish cfg run s)"
proof (cases "oc_running s")
  case None
  then show ?thesis using assms(1) by (simp add: ex_finish_def finishLayerJob_def)
next
  case (Some rj)
  show ?thesis unfolding ex_finish_def
    by (rule reach_any[OF assms(1) st_finish[OF Some assms(2)]])
qed

section \<open>Kill switch\<close>

text \<open>C2. Once a scan is killed (by an operator's cancel, a kill signal or the global kill
  switch) no sequence of operations and layer outcomes ever starts a layer for it again,
  resumes included, and it stays killed.\<close>

theorem killed_scan_never_starts_layer:
  assumes "reach (\<lambda>s. s = orch_init) (orch_any cfg) s" and "kr_isKilled (oc_kills s) i"
    and "(orch_any cfg)\<^sup>*\<^sup>* s t"
  shows "kr_isKilled (oc_kills t) i \<and> layer_starts t i = layer_starts s i"
  using run_killed[OF assms(3) orch.reachable_inv[OF assms(1)] assms(2)] by simp

lemma killed_scan_never_starts_layer_witness:
  "\<exists>s t. (orch_any ex_cfg)\<^sup>*\<^sup>* s t \<and> oc_queue s \<noteq> [] \<and> kr_isKilled (oc_kills t) ''s1''
     \<and> layer_starts t ''s1'' = []"
proof -
  let ?s = "fst (oc_cancel ex_cx ex_cfg ''s1'' (ex_started ex_cfg))"
  let ?t = "ex_begin ex_cfg ?s"
  have r: "reach (\<lambda>s. s = orch_init) (orch_any ex_cfg) ?s"
    by (rule reach_any[OF reach_started st_cancel])
  have k: "kr_isKilled (oc_kills ?s) ''s1'' \<and> layer_starts ?s ''s1'' = [] \<and> oc_queue ?s \<noteq> []"
    by code_simp
  have "(orch_any ex_cfg)\<^sup>*\<^sup>* ?s ?t"
    unfolding ex_begin_def by (auto simp: orch_any_def split: option.splits intro!: r_into_rtranclp) (blast intro: st_begin)
  from killed_scan_never_starts_layer[OF r _ this, of "''s1''"] this k show ?thesis by auto
qed

section \<open>Gates\<close>

text \<open>C3. Layer 1, the first expensive layer, is scheduled only past the estimate gate: a step
  that queues a layer-1 job is an approver's acknowledgement of the pending estimate of a live
  scan, or the end of layer 0 of a scan whose policy asks for no acknowledgement, or a resume
  whose checkpoint already holds layer 0 and where no gate is pending.\<close>

theorem layer1_only_past_estimate_gate:
  assumes "reach (\<lambda>s. s = orch_init) (orch_any cfg) s" and "orch_step cfg l s t"
    and "job \<in> set (appended s t)" and "jb_layer job = Layer1"
  shows "(\<exists>a scan. l = Lbl_approve (jb_scanId job) Estimate_gate a
        \<and> scans_get (oc_store s) (resolveClientId cfg (jb_scanId job) s) (jb_scanId job) = Some scan
        \<and> sc_gateState scan = Estimate_pending \<and> \<not> isTerminalStatus (sc_status scan))
    \<or> (\<exists>rj. oc_running s = Some rj \<and> l = Lbl_finish (rj_job rj) \<and> jb_layer (rj_job rj) = Layer0
        \<and> jb_scanId (rj_job rj) = jb_scanId job \<and> \<not> estimateGateRequired (rj_scan rj) cfg)
    \<or> (\<exists>scan. l = Lbl_resume (jb_scanId job)
        \<and> scans_get (oc_store s) (resolveClientId cfg (jb_scanId job) s) (jb_scanId job) = Some scan
        \<and> sc_gateState scan \<notin> {Estimate_pending, Fix_gate_pending}
        \<and> Layer0 \<in> set (resume_completed s (sc_clientId scan) (jb_scanId job)))"
proof -
  have ok: "orch_ok s" by (rule orch.reachable_inv[OF assms(1)])
  note n = appended_new[OF assms(2) ok assms(3)]
  show ?thesis
  proof (cases l)
    case (Lbl_resume i)
    have "Layer0 \<in> set c" if "nextLayer c = Some Layer1" for c
      using nextLayer_least[OF that, of Layer0] by (auto simp: less_eq_layer_id_def)
    then show ?thesis using n assms(4) Lbl_resume
      by (auto simp: new_job_def resume_job_def job_for_def)
  next
    case (Lbl_approve i g a)
    then show ?thesis using n assms(4)
      by (cases g) (auto simp: new_job_def approve_job_def job_for_def)
  next
    case (Lbl_finish j)
    then obtain rj where rj: "oc_running s = Some rj" "rj_job rj = j"
      "advance_job cfg (rj_scan rj) (jb_layer j) job"
      using n by (auto simp: new_job_def)
    moreover have "sc_id (rj_scan rj) = jb_scanId j" using ok rj by (auto simp: orch_ok_def run_ok_def)
    ultimately show ?thesis using assms(4) Lbl_finish by (auto simp: advance_job_def job_for_def)
  qed (use n assms(4) in \<open>auto simp: new_job_def job_for_def\<close>)
qed

text \<open>The estimate gate in a run: layer 0 ends and its estimate awaits the approver.\<close>

definition ex_at_estimate :: "montr_config \<Rightarrow> orch" where
  "ex_at_estimate cfg = ex_finish cfg (ex_run ex_out0 []) (ex_begin cfg (ex_started cfg))"

lemma reach_at_estimate: "reach (\<lambda>s. s = orch_init) (orch_any cfg) (ex_at_estimate cfg)"
  unfolding ex_at_estimate_def
  by (intro reach_finish reach_begin reach_started ex_run_sound) simp

lemma layer1_only_past_estimate_gate_witness:
  "\<exists>s t job. job \<in> set (appended s t) \<and> jb_layer job = Layer1
     \<and> map_option sc_gateState (ex_row s) = Some Estimate_pending
     \<and> map_option sc_gateState (ex_row t) = Some Gate_running"
proof -
  let ?s = "ex_at_estimate ex_cfg"
  let ?t = "fst (approveGate ex_cx ex_cfg ''s1'' Estimate_gate ''ann'' ?s)"
  let ?job = "hd (appended ?s ?t)"
  have st: "orch_step ex_cfg (Lbl_approve ''s1'' Estimate_gate ''ann'') ?s ?t" by (rule st_approve)
  have ne: "appended ?s ?t \<noteq> []" by code_simp
  have j: "jb_layer ?job = Layer1" and i: "jb_scanId ?job = ''s1''" by code_simp+
  have c: "resolveClientId ex_cfg ''s1'' ?s = ''acme''" by code_simp
  have g: "map_option sc_gateState (ex_row ?t) = Some Gate_running" by code_simp
  have m: "?job \<in> set (appended ?s ?t)" using ne by simp
  have "map_option sc_gateState (ex_row ?s) = Some Estimate_pending"
    using layer1_only_past_estimate_gate[OF reach_at_estimate st m j] i c by (auto simp: ex_row_def)
  then show ?thesis using m j g by blast
qed

end
