(* ===== verification/OrchestratorRuns.thy ===== *)
theory OrchestratorRuns
  imports OrchestratorProps
begin

text \<open>
  The pipeline advances: what a layer that succeeds leads to, layer by layer, and the
  runs built from it: the fix gate, its approval, and the runs where an approval or a halt
  is lost.
\<close>

section \<open>A layer ready to run\<close>

definition poised :: "scan \<Rightarrow> layer_job \<Rightarrow> cost_meter \<Rightarrow> orch \<Rightarrow> bool" where
  "poised scan job mt s \<longleftrightarrow> rows_keyed (oc_store s)
     \<and> scans_get (oc_store s) (jb_clientId job) (jb_scanId job) = Some scan
     \<and> sc_status scan = Running \<and> \<not> kr_isKilled (oc_kills s) (jb_scanId job)
     \<and> \<not> oc_closed s \<and> oc_running s = None \<and> oc_queue s = [job]
     \<and> (\<exists>m. jm_get (oc_meters s) (jb_scanId job) = Some m \<and> oc_heap s m = mt)"

text \<open>The same scan while the layer runs.\<close>

definition in_layer :: "scan \<Rightarrow> layer_job \<Rightarrow> cost_meter \<Rightarrow> orch \<Rightarrow> bool" where
  "in_layer scan job mt s \<longleftrightarrow> rows_keyed (oc_store s)
     \<and> scans_get (oc_store s) (jb_clientId job) (jb_scanId job) = Some scan
     \<and> sc_status scan = Running \<and> \<not> kr_isKilled (oc_kills s) (jb_scanId job)
     \<and> \<not> oc_closed s \<and> oc_queue s = []
     \<and> jm_get (oc_scanClient s) (jb_scanId job) = Some (jb_clientId job)
     \<and> (\<exists>rj. oc_running s = Some rj \<and> rj_job rj = job \<and> rj_scan rj = scan
          \<and> jm_get (oc_meters s) (jb_scanId job) = Some (rj_meter rj) \<and> oc_heap s (rj_meter rj) = mt)"

lemma begin_poised:
  assumes "poised scan job mt s" shows "in_layer scan job mt (ex_begin cfg s)"
proof -
  have nx: "sched_next s = Some (job, s\<lparr>oc_queue := []\<rparr>)"
    using assms by (simp add: sched_next_def poised_def)
  obtain m where m: "jm_get (oc_meters s) (jb_scanId job) = Some m" "oc_heap s m = mt"
    using assms by (auto simp: poised_def)
  obtain sg k where k: "kr_signalFor (jb_scanId job) (oc_kills s) = (sg, k)" by fastforce
  have "k = snd (kr_signalFor (jb_scanId job) (oc_kills s))" using k by simp
  then have "kr_isKilled k j = kr_isKilled (oc_kills s) j" for j by simp
  moreover have "sc_clientId scan = jb_clientId job"
    using assms scans_get_id by (auto simp: poised_def)
  ultimately show ?thesis using assms m nx k
    by (simp add: ex_begin_def poised_def in_layer_def beginLayerJob_def Let_def getMeter_def oc_emit_def)
qed

section \<open>A layer that succeeds\<close>

text \<open>The state in which the transition after a layer is decided.\<close>

definition settled :: "scan \<Rightarrow> layer_job \<Rightarrow> cost_meter \<Rightarrow> orch \<Rightarrow> bool" where
  "settled scan job mt s \<longleftrightarrow> rows_keyed (oc_store s)
     \<and> scans_get (oc_store s) (jb_clientId job) (jb_scanId job) = Some scan
     \<and> sc_status scan = Running \<and> \<not> kr_isKilled (oc_kills s) (jb_scanId job)
     \<and> \<not> oc_closed s \<and> oc_queue s = [] \<and> oc_running s = None
     \<and> jm_get (oc_scanClient s) (jb_scanId job) = Some (jb_clientId job)
     \<and> (\<exists>m. jm_get (oc_meters s) (jb_scanId job) = Some m \<and> oc_heap s m = mt)"

lemma progress_rest:
  "oc_meters (fold (\<lambda>(ph, pct). oc_emit (Progress i l (clampPct pct) ph n)) ps u) = oc_meters u"
  "oc_closed (fold (\<lambda>(ph, pct). oc_emit (Progress i l (clampPct pct) ph n)) ps u) = oc_closed u"
  "oc_running (fold (\<lambda>(ph, pct). oc_emit (Progress i l (clampPct pct) ph n)) ps u) = oc_running u"
  "oc_scanClient (fold (\<lambda>(ph, pct). oc_emit (Progress i l (clampPct pct) ph n)) ps u) = oc_scanClient u"
  by (induction ps arbitrary: u) (auto simp: oc_emit_def)

lemma runWithRetry_first:
  "sg 0 = None \<Longrightarrow> fn 0 = Inr a \<Longrightarrow> fst (runWithRetry p sg fn) = Inr a"
  by (cases "rp_attempts p") (simp_all add: runWithRetry_def max_def)

lemma audit_rest [simp]:
  "oc_meters (safeAudit cx a s) = oc_meters s" "oc_meters (auditLayer cx sc l s) = oc_meters s"
  "oc_closed (auditLayer cx sc l s) = oc_closed s" "oc_meters (oc_emit e s) = oc_meters s"
  "oc_meters (advanceResumeToken cx c i l s) = oc_meters s"
  "oc_closed (advanceResumeToken cx c i l s) = oc_closed s"
  by (simp_all add: auditLayer_def safeAudit_def oc_emit_def advanceResumeToken_def oc_saveResume_def Let_def)

lemma persist_resume:
  assumes "persistLayerOutput c layer out scan st = (st', scan', e)"
  shows "st_resume st' = st_resume st"
proof (cases out)
  case (Layer0_output m scope est)
  then show ?thesis using assms
    by (auto simp: persistLayerOutput_def Let_def split: sum.splits if_splits
        dest!: appMaps_create_rest scans_update_rest)
next
  case (Layer4_output fs)
  then show ?thesis using assms create_fixes_rest[of c fs st]
    by (auto simp: persistLayerOutput_def split: prod.splits if_splits)
next
  case (Layer5_output report prs)
  then show ?thesis using assms link_prs_rest[of c prs st]
    by (auto simp: persistLayerOutput_def split: prod.splits if_splits)
qed (use assms in \<open>auto simp: persistLayerOutput_def candidates_bulkCreate_def
    probable_bulkCreate_def confirmed_bulkCreate_def unconfirmed_bulkCreate_def Let_def split: if_splits\<close>)

lemma enforceBudget_within:
  assumes "\<not> exceeded (mt_checkBudget (oc_heap s m) (effectiveBudgetPolicy scan cfg))"
  shows "\<exists>u. oc_enforceBudget cx cfg scan m s = ((u, None), False)
    \<and> oc_store u = oc_store s \<and> oc_kills u = oc_kills s \<and> oc_queue u = oc_queue s
    \<and> oc_closed u = oc_closed s \<and> oc_running u = oc_running s \<and> oc_meters u = oc_meters s
    \<and> oc_heap u = oc_heap s \<and> oc_scanClient u = oc_scanClient s"
  using assms by (simp add: oc_enforceBudget_def Let_def)

lemma resume_completed_advance:
  "resume_completed (advanceResumeToken cx c i l s) c i =
     filter (\<lambda>k. k = l \<or> k \<in> set (resume_completed s c i)) LAYER_ORDER"
proof -
  have "map_option rt_completedLayers (resume_get (oc_store (advanceResumeToken cx c i l s)) c i)
      = Some (filter (\<lambda>k. k = l \<or> k \<in> set (resume_completed s c i)) LAYER_ORDER)"
    unfolding advanceResumeToken_def Let_def oc_saveResume_def
    by (simp add: resume_completed_save resume_completed_def split: option.splits)
  then show ?thesis by (auto simp: resume_completed_def)
qed

text \<open>What a layer that succeeds leaves for the decisions that follow.\<close>

definition persisted :: "layer_job \<Rightarrow> running_job \<Rightarrow> cost_meter \<Rightarrow> orch \<Rightarrow> orch \<Rightarrow> bool" where
  "persisted job rj mt s u \<longleftrightarrow> rj_job rj = job \<and> oc_heap u (rj_meter rj) = mt
     \<and> jm_get (oc_meters u) (jb_scanId job) = Some (rj_meter rj)
     \<and> oc_kills u = oc_kills s \<and> oc_queue u = oc_queue s \<and> oc_closed u = oc_closed s
     \<and> oc_running u = None \<and> oc_scanClient u = oc_scanClient s
     \<and> resume_completed u (jb_clientId job) (jb_scanId job) =
        filter (\<lambda>k. k = jb_layer job \<or> k \<in> set (resume_completed s (jb_clientId job) (jb_scanId job))) LAYER_ORDER"

lemma finish_persisted:
  assumes "in_layer scan job mt s" and "lr_abort run 0 = None" and "lr_attempts run 0 = Inr out"
    and "persistLayerOutput (jb_clientId job) (jb_layer job) out scan (oc_store s) = (st, scan', None)"
  shows "\<exists>rj u. finishLayerJob cx cfg run s = afterPersist cx cfg rj scan' u
    \<and> persisted job rj (fold mt_record (lr_usage run) mt) s u
    \<and> st_fixes (oc_store u) = st_fixes st \<and> st_scans (oc_store u) = st_scans st"
proof -
  let ?i = "jb_scanId job" and ?c = "jb_clientId job" and ?l = "jb_layer job"
  obtain rj where rj: "oc_running s = Some rj" "rj_job rj = job" "rj_scan rj = scan"
    "jm_get (oc_meters s) ?i = Some (rj_meter rj)" "oc_heap s (rj_meter rj) = mt"
    using assms(1) by (auto simp: in_layer_def)
  obtain res s1 where x: "executeLayer cx job (rj_meter rj) run (s\<lparr>oc_running := None\<rparr>) = (res, s1)"
    by fastforce
  have res: "res = Inr out" using x runWithRetry_first[of "lr_abort run" "lr_attempts run"] assms(2,3)
    by (simp add: executeLayer_def)
  have s1: "oc_store s1 = oc_store s" "oc_kills s1 = oc_kills s" "oc_queue s1 = oc_queue s"
    "oc_heap s1 (rj_meter rj) = fold mt_record (lr_usage run) mt" "oc_meters s1 = oc_meters s"
    "oc_closed s1 = oc_closed s" "oc_running s1 = None" "oc_scanClient s1 = oc_scanClient s"
    using x rj(5) by (auto simp: executeLayer_def progress_fields progress_rest)
  let ?s1 = "s1\<lparr>oc_store := st, oc_caches := jm_set ?i (jm_set ?l out (getCache ?i s1)) (oc_caches s1)\<rparr>"
  let ?u = "advanceResumeToken cx ?c ?i ?l ?s1"
  have "resume_completed ?s1 ?c ?i = resume_completed s ?c ?i"
    using persist_resume[OF assms(4)] by (simp add: resume_completed_def resume_get_def)
  then have "persisted job rj (fold mt_record (lr_usage run) mt) s ?u"
    using s1 rj resume_completed_advance[of cx ?c ?i ?l ?s1] by (simp add: persisted_def)
  moreover have "finishLayerJob cx cfg run s = afterPersist cx cfg rj scan' ?u"
    using rj x res assms(4) s1(1) by (simp add: finishLayerJob_def Let_def)
  moreover have "st_fixes (oc_store ?u) = st_fixes st \<and> st_scans (oc_store ?u) = st_scans st"
    by (simp add: advanceResumeToken_def Let_def)
  ultimately show ?thesis by blast
qed

lemma finish_settled:
  assumes "in_layer scan job mt s" and "lr_abort run 0 = None" and "lr_attempts run 0 = Inr out"
    and "jb_layer job \<noteq> Layer0"
    and "persistLayerOutput (jb_clientId job) (jb_layer job) out scan (oc_store s) = (st, scan', None)"
    and "\<not> exceeded (mt_checkBudget (fold mt_record (lr_usage run) mt) (effectiveBudgetPolicy scan cfg))"
  shows "\<exists>u. finishLayerJob cx cfg run s = advanceAfterLayer cx cfg scan (jb_layer job) u
    \<and> settled scan job (fold mt_record (lr_usage run) mt) u
    \<and> st_fixes (oc_store u) = st_fixes st \<and> st_scans (oc_store u) = st_scans st
    \<and> resume_completed u (jb_clientId job) (jb_scanId job) =
        filter (\<lambda>k. k = jb_layer job \<or> k \<in> set (resume_completed s (jb_clientId job) (jb_scanId job))) LAYER_ORDER"
proof -
  let ?i = "jb_scanId job" and ?c = "jb_clientId job" and ?l = "jb_layer job"
  have sc: "scan' = scan" "st_scans st = st_scans (oc_store s)"
    using persist_facts[OF assms(5)] assms(4) by auto
  obtain rj v where v: "finishLayerJob cx cfg run s = afterPersist cx cfg rj scan v"
    "persisted job rj (fold mt_record (lr_usage run) mt) s v"
    "st_fixes (oc_store v) = st_fixes st" "st_scans (oc_store v) = st_scans st"
    using finish_persisted[OF assms(1-3,5), of cx cfg] sc by auto
  let ?v = "auditLayer cx scan ?l (oc_emit (Layer_completed ?i ?l (cx_now cx)) v)"
  obtain u where b: "oc_enforceBudget cx cfg scan (rj_meter rj) ?v = ((u, None), False)"
    and u: "oc_store u = oc_store v" "oc_kills u = oc_kills v" "oc_queue u = oc_queue v"
      "oc_closed u = oc_closed v" "oc_running u = oc_running v" "oc_meters u = oc_meters v"
      "oc_heap u = oc_heap v" "oc_scanClient u = oc_scanClient v"
    using enforceBudget_within[of ?v "rj_meter rj" scan cfg cx] v(2) assms(6) by (auto simp: persisted_def)
  have row: "scans_get (oc_store u) ?c ?i = Some scan"
    using assms(1) scans_get_cong[of "oc_store u" "oc_store s"] u(1) v(4) sc(2) by (simp add: in_layer_def)
  have "finishLayerJob cx cfg run s = advanceAfterLayer cx cfg scan ?l u"
    using v(1,2) b row u(2) assms(1) by (simp add: afterPersist_def Let_def in_layer_def persisted_def)
  moreover have "rows_keyed (oc_store u)"
    using assms(1) rows_keyed_cong[of "oc_store u" "oc_store s"] u(1) v(4) sc(2) by (simp add: in_layer_def)
  then have "settled scan job (fold mt_record (lr_usage run) mt) u"
    using assms(1) u row v(2) by (simp add: in_layer_def settled_def persisted_def)
  moreover have "resume_completed u ?c ?i =
      filter (\<lambda>k. k = ?l \<or> k \<in> set (resume_completed s ?c ?i)) LAYER_ORDER"
    using v(2) u(1) by (simp add: persisted_def resume_completed_def)
  ultimately show ?thesis using v(3,4) u(1) by auto
qed

text \<open>Any clock, id and audit backend: begin with one context, finish with another.\<close>

definition run_layer :: "op_ctx \<Rightarrow> montr_config \<Rightarrow> layer_run \<Rightarrow> orch \<Rightarrow> orch" where
  "run_layer cx cfg run s = fst (finishLayerJob cx cfg run (ex_begin cfg s))"

lemma persist_succeeds:
  assumes "output_layer out = layer" and "layer \<in> {Layer1, Layer2, Layer3}"
  shows "\<exists>st'. persistLayerOutput c layer out scan st = (st', scan, None) \<and> st_fixes st' = st_fixes st"
  using assms by (cases out) (auto simp: persistLayerOutput_def candidates_bulkCreate_def
      probable_bulkCreate_def confirmed_bulkCreate_def unconfirmed_bulkCreate_def Let_def)

lemma advance_schedules:
  assumes "settled scan job mt u" and "jb_layer job \<in> {Layer1, Layer2, Layer3}"
    and "layerAfter (jb_layer job) = Some next" and "buildJob cfg scan next None = Inr job'"
  shows "poised scan job' mt (fst (advanceAfterLayer cx cfg scan (jb_layer job) u))
    \<and> oc_store (fst (advanceAfterLayer cx cfg scan (jb_layer job) u)) = oc_store u
    \<and> jb_scanId job' = jb_scanId job \<and> jb_clientId job' = jb_clientId job \<and> jb_layer job' = next"
proof -
  have id: "sc_id scan = jb_scanId job \<and> sc_clientId scan = jb_clientId job"
    using assms(1) scans_get_id by (auto simp: settled_def)
  have n1: "next \<noteq> Layer1" using assms(2,3) by auto
  have "advanceAfterLayer cx cfg scan (jb_layer job) u = (sched_enqueue job' u, None)"
    using assms(2-4) n1
    by (cases "jb_layer job") (simp_all add: advanceAfterLayer_def Let_def scheduleLayer_def enqueueLayer_def)
  then show ?thesis using assms(1) id buildJob_facts[OF assms(4)]
    by (simp add: settled_def poised_def sched_enqueue_def)
qed

lemma in_layer_resume: "poised scan job mt s \<Longrightarrow> resume_completed (ex_begin cfg s) c i = resume_completed s c i
    \<and> oc_store (ex_begin cfg s) = oc_store s"
  using begin_facts[of "s\<lparr>oc_queue := []\<rparr>" ex_cx cfg job]
  by (simp add: ex_begin_def sched_next_def poised_def resume_completed_def)

lemma layer_advances:
  assumes "poised scan job mt s" and "jb_layer job \<in> {Layer1, Layer2, Layer3}"
    and "lr_abort run 0 = None" and "lr_attempts run 0 = Inr out" and "output_layer out = jb_layer job"
    and "\<not> exceeded (mt_checkBudget (fold mt_record (lr_usage run) mt) (effectiveBudgetPolicy scan cfg))"
    and "layerAfter (jb_layer job) = Some next" and "buildJob cfg scan next None = Inr job'"
  shows "poised scan job' (fold mt_record (lr_usage run) mt) (run_layer cx cfg run s)
    \<and> st_fixes (oc_store (run_layer cx cfg run s)) = st_fixes (oc_store s)
    \<and> jb_scanId job' = jb_scanId job \<and> jb_clientId job' = jb_clientId job \<and> jb_layer job' = next
    \<and> resume_completed (run_layer cx cfg run s) (jb_clientId job) (jb_scanId job) =
        filter (\<lambda>k. k = jb_layer job \<or> k \<in> set (resume_completed s (jb_clientId job) (jb_scanId job))) LAYER_ORDER"
proof -
  note il = begin_poised[OF assms(1), of cfg]
  note st = in_layer_resume[OF assms(1), of cfg "jb_clientId job" "jb_scanId job"]
  obtain st' where p: "persistLayerOutput (jb_clientId job) (jb_layer job) out scan (oc_store (ex_begin cfg s))
      = (st', scan, None)" "st_fixes st' = st_fixes (oc_store s)"
    using persist_succeeds[OF assms(5,2)] st by metis
  have "jb_layer job \<noteq> Layer0" using assms(2) by auto
  from finish_settled[OF il assms(3,4) this p(1) assms(6), of cx]
  obtain u where u: "finishLayerJob cx cfg run (ex_begin cfg s) = advanceAfterLayer cx cfg scan (jb_layer job) u"
    "settled scan job (fold mt_record (lr_usage run) mt) u" "st_fixes (oc_store u) = st_fixes st'"
    "resume_completed u (jb_clientId job) (jb_scanId job) =
        filter (\<lambda>k. k = jb_layer job \<or> k \<in> set (resume_completed s (jb_clientId job) (jb_scanId job))) LAYER_ORDER"
    using st by auto
  show ?thesis using advance_schedules[OF u(2) assms(2,7,8), of cx] u p(2)
    by (simp add: run_layer_def resume_completed_def)
qed

section \<open>The fix gate\<close>

lemma updateScan_row:
  assumes "rows_keyed (oc_store s)" and "scans_get (oc_store s) c i = Some scan"
    and "sc_id r = i"
  shows "\<exists>st. oc_updateScan c r s = (s\<lparr>oc_store := st\<rparr>, None)
    \<and> scans_get st c i = Some (scanToUpdate scan r) \<and> rows_keyed st \<and> st_resume st = st_resume (oc_store s)
    \<and> st_fixes st = st_fixes (oc_store s)"
proof -
  obtain st where st: "scans_update c r (oc_store s) = Inr st"
    using assms(2,3) by (auto simp: scans_update_def)
  then show ?thesis
    using scans.upd_ok[OF st] assms scans_update_keyed[OF assms(1) st] scans_update_rest[OF st]
    by (auto simp: oc_updateScan_def)
qed

lemma scanToUpdate_gate [simp]: "scanToUpdate scan (scan\<lparr>sc_gateState := g\<rparr>) = scan\<lparr>sc_gateState := g\<rparr>"
  by (simp add: scanToUpdate_def)

lemma fix_gate_pends:
  assumes "settled scan job mt u" and "jb_layer job = Layer4"
    and "wouldOpenPrs (evaluateFixGate (fixes_listByScan (oc_store u) (sc_clientId scan) (sc_id scan)) cfg)"
    and "approverRequiredForGate (cfg_rbac cfg)"
  shows "settled (scan\<lparr>sc_gateState := Fix_gate_pending\<rparr>) job mt (fst (advanceAfterLayer cx cfg scan Layer4 u))
    \<and> resume_completed (fst (advanceAfterLayer cx cfg scan Layer4 u)) c i = resume_completed u c i"
proof -
  have id: "sc_id scan = jb_scanId job \<and> sc_clientId scan = jb_clientId job"
    using assms(1) scans_get_id by (auto simp: settled_def)
  have s: "rows_keyed (oc_store u)" "scans_get (oc_store u) (jb_clientId job) (jb_scanId job) = Some scan"
    using assms(1) by (auto simp: settled_def)
  obtain st where st: "oc_updateScan (jb_clientId job) (scan\<lparr>sc_gateState := Fix_gate_pending\<rparr>) u
      = (u\<lparr>oc_store := st\<rparr>, None)"
    "scans_get st (jb_clientId job) (jb_scanId job) = Some (scan\<lparr>sc_gateState := Fix_gate_pending\<rparr>)"
    "rows_keyed st" "st_resume st = st_resume (oc_store u)"
    using updateScan_row[OF s, of "scan\<lparr>sc_gateState := Fix_gate_pending\<rparr>"] id by auto
  have "advanceAfterLayer cx cfg scan Layer4 u =
      (oc_emit (Gate_required (sc_id scan) Fix_gate (cx_now cx)) (u\<lparr>oc_store := st\<rparr>), None)"
    using assms(3,4) st(1) id by (simp add: advanceAfterLayer_def Let_def and_then_split)
  then show ?thesis using assms(1) st
    by (simp add: settled_def resume_completed_def resume_get_def)
qed

section \<open>An approval that is lost\<close>

text \<open>What the runs below observe of the controller, for one scan.\<close>

definition view :: "montr_config \<Rightarrow> string \<Rightarrow> string \<Rightarrow> scan \<Rightarrow> layer_id list \<Rightarrow> orch \<Rightarrow> bool" where
  "view cfg c i scan ls s \<longleftrightarrow> rows_keyed (oc_store s) \<and> scans_get (oc_store s) c i = Some scan
     \<and> sc_id scan = i \<and> sc_clientId scan = c \<and> resolveClientId cfg i s = c
     \<and> resume_completed s c i = ls \<and> \<not> kr_isKilled (oc_kills s) i
     \<and> \<not> oc_closed s \<and> oc_running s = None"

lemma view_client:
  "view cfg c i scan ls s \<Longrightarrow> load_scan cfg i s = Inr (scan, s\<lparr>oc_scanClient := jm_set i c (oc_scanClient s)\<rparr>)"
  by (simp add: view_def load_scan_def)

lemma view_update:
  assumes "view cfg c i scan ls s" and "sc_id r = i"
    and "oc_store u = oc_store s" and "oc_kills u = k" and "\<And>j. kr_isKilled k j = kr_isKilled (oc_kills s) j"
    and "oc_closed u = oc_closed s" and "oc_running u = oc_running s"
  shows "\<exists>st. oc_updateScan c r u = (u\<lparr>oc_store := st\<rparr>, None)
    \<and> (\<forall>v. oc_store v = st \<longrightarrow> oc_kills v = k \<longrightarrow> oc_closed v = oc_closed u \<longrightarrow> oc_running v = oc_running u
         \<longrightarrow> jm_get (oc_scanClient v) i = Some c \<longrightarrow> view cfg c i (scanToUpdate scan r) ls v)"
proof -
  have v: "rows_keyed (oc_store u)" "scans_get (oc_store u) c i = Some scan"
    using assms(1,3) by (auto simp: view_def)
  have "sc_id (scanToUpdate scan r) = i \<and> sc_clientId (scanToUpdate scan r) = c"
    using assms(1) by (simp add: view_def)
  with updateScan_row[OF v assms(2)] show ?thesis
    using assms(1,3-) by (auto simp: view_def resume_completed_def resume_get_def resolveClientId_def)
qed

lemma scanToUpdate_status [simp]:
  "scanToUpdate scan (scan\<lparr>sc_status := x\<rparr>) = scan\<lparr>sc_status := x\<rparr>"
  "scanToUpdate scan (scan\<lparr>sc_gateState := g, sc_approver := a\<rparr>) = scan\<lparr>sc_gateState := g, sc_approver := a\<rparr>"
  by (simp_all add: scanToUpdate_def)

lemma safeAudit_more [simp]: "oc_scanClient (oc_emit e s) = oc_scanClient s"
  by (simp add: oc_emit_def)

lemma view_pause:
  assumes "view cfg c i scan ls s" and "\<not> isTerminalStatus (sc_status scan)"
  shows "view cfg c i (scan\<lparr>sc_status := Paused\<rparr>) ls (fst (oc_pause cx cfg i s))
    \<and> oc_queue (fst (oc_pause cx cfg i s)) = oc_queue s"
proof -
  let ?u = "s\<lparr>oc_scanClient := jm_set i c (oc_scanClient s)\<rparr>" and ?r = "scan\<lparr>sc_status := Paused\<rparr>"
  have id: "sc_id ?r = i" "sc_clientId scan = c" using assms(1) by (auto simp: view_def)
  obtain st where st: "oc_updateScan c ?r ?u = (?u\<lparr>oc_store := st\<rparr>, None)"
    "\<forall>v. oc_store v = st \<longrightarrow> oc_kills v = oc_kills s \<longrightarrow> oc_closed v = oc_closed ?u \<longrightarrow> oc_running v = oc_running ?u
       \<longrightarrow> jm_get (oc_scanClient v) i = Some c \<longrightarrow> view cfg c i (scanToUpdate scan ?r) ls v"
    using view_update[OF assms(1) id(1), of ?u "oc_kills s"] by auto
  show ?thesis using st assms(2) id
    by (simp add: oc_pause_def with_scan_def view_client[OF assms(1)] and_then_split)
qed

lemma build5:
  assumes "sc_id scan \<noteq> []" and "sc_clientId scan \<noteq> []"
  shows "\<exists>job. buildJob cfg scan Layer5 auto = Inr job \<and> jb_scanId job = sc_id scan
    \<and> jb_clientId job = sc_clientId scan \<and> jb_payload job = P5 (auto = Some True)"
  using assms by (auto simp: buildJob_def Let_def split: option.splits)

lemma view_approve_fix:
  assumes "view cfg c i scan ls s" and "\<not> isTerminalStatus (sc_status scan)"
    and "sc_gateState scan = Fix_gate_pending" and "i \<noteq> []" and "c \<noteq> []"
  shows "view cfg c i (scan\<lparr>sc_gateState := Approved, sc_approver := Some a\<rparr>) ls
      (fst (approveGate cx cfg i Fix_gate a s))
    \<and> (\<exists>job. oc_queue (fst (approveGate cx cfg i Fix_gate a s)) = oc_queue s @ [job]
         \<and> jb_scanId job = i \<and> jb_clientId job = c \<and> jb_payload job = P5 True)"
proof -
  let ?u = "s\<lparr>oc_scanClient := jm_set i c (oc_scanClient s)\<rparr>"
  let ?r = "scan\<lparr>sc_gateState := Approved, sc_approver := Some a\<rparr>"
  have id: "sc_id ?r = i" "sc_clientId scan = c" "sc_id scan = i" using assms(1) by (auto simp: view_def)
  obtain st where st: "oc_updateScan c ?r ?u = (?u\<lparr>oc_store := st\<rparr>, None)"
    "\<forall>v. oc_store v = st \<longrightarrow> oc_kills v = oc_kills s \<longrightarrow> oc_closed v = oc_closed ?u \<longrightarrow> oc_running v = oc_running ?u
       \<longrightarrow> jm_get (oc_scanClient v) i = Some c \<longrightarrow> view cfg c i (scanToUpdate scan ?r) ls v"
    using view_update[OF assms(1) id(1), of ?u "oc_kills s"] by auto
  obtain job where job: "buildJob cfg ?r Layer5 (Some True) = Inr job" "jb_scanId job = i"
    "jb_clientId job = c" "jb_payload job = P5 True"
    using build5[of ?r cfg "Some True"] id assms(4,5) by auto
  have nc: "\<not> oc_closed s" using assms(1) by (simp add: view_def)
  have r: "scan\<lparr>sc_approver := Some a, sc_gateState := Approved\<rparr> = ?r" by simp
  show ?thesis using st assms(2,3) id job nc
    by (simp add: approveGate_def with_scan_def view_client[OF assms(1)] and_then_split Let_def
        scheduleLayer_def enqueueLayer_def sched_enqueue_def r)
qed

lemma view_begin_paused:
  assumes "view cfg c i scan ls s" and "sc_status scan = Paused" and "oc_queue s = [job]"
    and "jb_scanId job = i" and "jb_clientId job = c"
  shows "view cfg c i scan ls (ex_begin cfg s) \<and> oc_queue (ex_begin cfg s) = []"
  using assms
  by (simp add: ex_begin_def sched_next_def view_def beginLayerJob_def Let_def resolveClientId_def
      resume_completed_def)

lemma view_resume:
  assumes "view cfg c i scan ls s" and "sc_status scan \<notin> {Completed, Cancelled}"
    and "sc_gateState scan \<notin> {Estimate_pending, Fix_gate_pending}"
    and "nextLayer ls = Some Layer5" and "i \<noteq> []" and "c \<noteq> []"
  shows "view cfg c i (scan\<lparr>sc_status := Running\<rparr>) ls (fst (oc_resume cx cfg i s))
    \<and> (\<exists>job. oc_queue (fst (oc_resume cx cfg i s)) = oc_queue s @ [job]
         \<and> jb_scanId job = i \<and> jb_clientId job = c \<and> jb_payload job = P5 False)"
proof -
  let ?k = "snd (kr_register i (oc_kills s))"
  let ?u = "ensureSchedulerStarted (s\<lparr>oc_scanClient := jm_set i c (oc_scanClient s), oc_kills := ?k\<rparr>)"
  let ?r = "scan\<lparr>sc_status := Running\<rparr>"
  have id: "sc_id ?r = i" "sc_clientId scan = c" "sc_id scan = i" and nc: "\<not> oc_closed s"
    and nk: "\<not> kr_isKilled (oc_kills s) i" and ls: "resume_completed s c i = ls"
    using assms(1) by (auto simp: view_def)
  have cl: "oc_closed ?u = oc_closed s" using nc by (simp add: ensureSchedulerStarted_def sched_start_def)
  obtain st where st: "oc_updateScan c ?r ?u = (?u\<lparr>oc_store := st\<rparr>, None)"
    "\<forall>v. oc_store v = st \<longrightarrow> oc_kills v = ?k \<longrightarrow> oc_closed v = oc_closed ?u \<longrightarrow> oc_running v = oc_running ?u
       \<longrightarrow> jm_get (oc_scanClient v) i = Some c \<longrightarrow> view cfg c i (scanToUpdate scan ?r) ls v"
    using view_update[OF assms(1) id(1), of ?u ?k] cl by auto
  obtain job where job: "buildJob cfg ?r Layer5 None = Inr job" "jb_scanId job = i"
    "jb_clientId job = c" "jb_payload job = P5 False"
    using build5[of ?r cfg None] id assms(5,6) by auto
  have ls': "resume_completed (s\<lparr>oc_scanClient := m\<rparr>) c i = ls" for m
    using ls by (simp add: resume_completed_def)
  show ?thesis using st assms(2-4) id job nc nk cl ls'
    by (simp add: oc_resume_def with_scan_def view_client[OF assms(1)] and_then_split Let_def
        scheduleLayer_def enqueueLayer_def sched_enqueue_def)
qed

section \<open>A run to the fix gate\<close>

definition ex_fix :: fix_record where
  "ex_fix = \<lparr>fx_id = ''f1'', fx_scanId = ''s1'', fx_clientId = ''acme'', fx_confirmedFindingId = ''c1'',
     fx_patch = ''p'', fx_rationale = ''r'', fx_proofOfFixTest = \<lparr>pt_filePath = None, pt_framework = None,
       pt_code = ''x'', pt_failsPrePatch = True, pt_passesPostPatch = True, pt_containerReplay = None\<rparr>,
     fx_riskClass = Auto_eligible, fx_riskClassRationale = ''w'', fx_status = Proposed,
     fx_pullRequestId = None, fx_createdAt = ''t'', fx_updatedAt = None\<rparr>"

definition ex_cfg_fix :: montr_config where
  "ex_cfg_fix = ex_cfg\<lparr>cfg_autoFix := default_auto_fix_config\<lparr>af_enabled := True\<rparr>\<rparr>"

definition ex_layer :: "layer_output \<Rightarrow> orch \<Rightarrow> orch" where
  "ex_layer out s = run_layer ex_cx ex_cfg_fix (ex_run out []) s"

definition ex_past_estimate :: orch where
  "ex_past_estimate = fst (approveGate ex_cx ex_cfg_fix ''s1'' Estimate_gate ''ann'' (ex_at_estimate ex_cfg_fix))"

definition ex_at_fix_gate :: orch where
  "ex_at_fix_gate = ex_layer (Layer4_output [ex_fix]) (ex_layer (Layer3_output [] [] [])
     (ex_layer (Layer2_output [] []) (ex_layer (Layer1_output []) ex_past_estimate)))"

lemma reach_layer: "reach (\<lambda>s. s = orch_init) (orch_any ex_cfg_fix) s \<Longrightarrow>
    reach (\<lambda>s. s = orch_init) (orch_any ex_cfg_fix) (ex_layer out s)"
  unfolding ex_layer_def run_layer_def ex_finish_def[symmetric]
  by (intro reach_finish reach_begin ex_run_sound) simp_all

lemma reach_past_estimate: "reach (\<lambda>s. s = orch_init) (orch_any ex_cfg_fix) ex_past_estimate"
  unfolding ex_past_estimate_def by (intro reach_any[OF reach_at_estimate st_approve])

lemma reach_at_fix_gate: "reach (\<lambda>s. s = orch_init) (orch_any ex_cfg_fix) ex_at_fix_gate"
  unfolding ex_at_fix_gate_def by (intro reach_layer reach_past_estimate)

lemma past_estimate_facts:
  "map (\<lambda>j. (jb_scanId j, jb_clientId j, jb_layer j)) (oc_queue ex_past_estimate) = [(''s1'', ''acme'', Layer1)]
   \<and> \<not> oc_closed ex_past_estimate \<and> oc_running ex_past_estimate = None
   \<and> \<not> kr_isKilled (oc_kills ex_past_estimate) ''s1''
   \<and> jm_get (oc_meters ex_past_estimate) ''s1'' \<noteq> None
   \<and> st_fixes (oc_store ex_past_estimate) = []
   \<and> resume_completed ex_past_estimate ''acme'' ''s1'' = [Layer0]
   \<and> map_option (\<lambda>r. (sc_status r, sc_budgetPolicy r)) (ex_row ex_past_estimate) = Some (Running, None)"
  by code_simp

lemma ex_never_exceeded:
  "sc_budgetPolicy scan = None \<Longrightarrow> \<not> exceeded (mt_checkBudget mt (effectiveBudgetPolicy scan ex_cfg_fix))"
  by (simp add: mt_checkBudget_def Let_def effectiveBudgetPolicy_def ex_cfg_fix_def ex_cfg_def
      default_config_def default_budget_config_def ceiling_check_def)

definition ex_ready :: "scan \<Rightarrow> cost_meter \<Rightarrow> layer_id \<Rightarrow> layer_id list \<Rightarrow> orch \<Rightarrow> bool" where
  "ex_ready scan mt l ls s \<longleftrightarrow> (\<exists>job. poised scan job mt s \<and> jb_layer job = l \<and> jb_scanId job = ''s1''
     \<and> jb_clientId job = ''acme'') \<and> sc_budgetPolicy scan = None
     \<and> st_fixes (oc_store s) = [] \<and> resume_completed s ''acme'' ''s1'' = ls"

lemma ex_ready_past_estimate: "\<exists>scan mt. ex_ready scan mt Layer1 [Layer0] ex_past_estimate"
proof -
  let ?s = ex_past_estimate
  note f = past_estimate_facts
  obtain job where q: "oc_queue ?s = [job]" "jb_scanId job = ''s1''" "jb_clientId job = ''acme''"
    "jb_layer job = Layer1" using f by (auto simp: map_eq_Cons_conv)
  obtain scan where r: "scans_get (oc_store ?s) ''acme'' ''s1'' = Some scan" "sc_status scan = Running"
    "sc_budgetPolicy scan = None" using f by (auto simp: ex_row_def)
  have "rows_keyed (oc_store ?s)"
    using orch.reachable_inv[OF reach_past_estimate] by (simp add: orch_ok_def)
  then have "poised scan job (oc_heap ?s (the (jm_get (oc_meters ?s) ''s1''))) ?s"
    using q r f by (auto simp: poised_def)
  then show ?thesis using q r f unfolding ex_ready_def by blast
qed

lemma ex_ready_next:
  assumes "ex_ready scan mt l ls s" and "l \<in> {Layer1, Layer2, Layer3}" and "output_layer out = l"
    and "layerAfter l = Some next" and "next \<noteq> Layer5"
  shows "ex_ready scan mt next (filter (\<lambda>k. k = l \<or> k \<in> set ls) LAYER_ORDER) (ex_layer out s)"
proof -
  obtain job where j: "poised scan job mt s" "jb_layer job = l" "jb_scanId job = ''s1''"
    "jb_clientId job = ''acme''" using assms(1) by (auto simp: ex_ready_def)
  have "sc_id scan = ''s1''" "sc_clientId scan = ''acme''"
    using j scans_get_id by (auto simp: poised_def)
  then obtain job' where b: "buildJob ex_cfg_fix scan next None = Inr job'"
    using assms(2,4,5) by (auto simp: buildJob_def Let_def)
  show ?thesis
    using layer_advances[OF j(1), of "ex_run out []" out ex_cfg_fix "next" job' ex_cx] b assms j
      ex_never_exceeded[of scan mt]
    unfolding ex_ready_def ex_layer_def by (auto simp: ex_run_def)
qed

definition ex_before_layer4 :: orch where
  "ex_before_layer4 = ex_layer (Layer3_output [] [] []) (ex_layer (Layer2_output [] [])
     (ex_layer (Layer1_output []) ex_past_estimate))"

lemma ex_ready_layer4:
  "\<exists>scan mt. ex_ready scan mt Layer4 [Layer0, Layer1, Layer2, Layer3] ex_before_layer4"
proof -
  obtain scan mt where r0: "ex_ready scan mt Layer1 [Layer0] ex_past_estimate"
    using ex_ready_past_estimate by blast
  note r1 = ex_ready_next[OF r0, of "Layer1_output []" Layer2]
  note r2 = ex_ready_next[OF r1, of "Layer2_output [] []" Layer3]
  note r3 = ex_ready_next[OF r2, of "Layer3_output [] [] []" Layer4]
  show ?thesis using r3 by (auto simp: LAYER_ORDER_def ex_before_layer4_def)
qed

lemma ex_at_gate:
  "\<exists>scan. view ex_cfg_fix ''acme'' ''s1'' scan [Layer0, Layer1, Layer2, Layer3, Layer4] ex_at_fix_gate
     \<and> oc_queue ex_at_fix_gate = [] \<and> sc_gateState scan = Fix_gate_pending \<and> sc_status scan = Running"
proof -
  define s4 where "s4 = ex_before_layer4"
  obtain scan mt where "ex_ready scan mt Layer4 [Layer0, Layer1, Layer2, Layer3] s4"
    using ex_ready_layer4 by (auto simp: s4_def)
  then obtain job where j: "poised scan job mt s4" "jb_layer job = Layer4" "jb_scanId job = ''s1''"
    "jb_clientId job = ''acme''" and pol: "sc_budgetPolicy scan = None" and fx: "st_fixes (oc_store s4) = []"
    and ls: "resume_completed s4 ''acme'' ''s1'' = [Layer0, Layer1, Layer2, Layer3]"
    by (auto simp: ex_ready_def)
  have id: "sc_id scan = ''s1''" "sc_clientId scan = ''acme''" and run: "sc_status scan = Running"
    using j scans_get_id by (auto simp: poised_def)
  note il = begin_poised[OF j(1), of ex_cfg_fix]
  note st = in_layer_resume[OF j(1), of ex_cfg_fix "''acme''" "''s1''"]
  have p: "persistLayerOutput (jb_clientId job) (jb_layer job) (Layer4_output [ex_fix]) scan
      (oc_store (ex_begin ex_cfg_fix s4)) = ((oc_store s4)\<lparr>st_fixes := [(''f1'', ex_fix)]\<rparr>, scan, None)"
    using st fx j(2,4) by (simp add: persistLayerOutput_def fixes_create_def ex_fix_def jm_set_def)
  obtain u where u: "finishLayerJob ex_cx ex_cfg_fix (ex_run (Layer4_output [ex_fix]) []) (ex_begin ex_cfg_fix s4)
      = advanceAfterLayer ex_cx ex_cfg_fix scan Layer4 u" "settled scan job mt u"
    "st_fixes (oc_store u) = [(''f1'', ex_fix)]"
    "resume_completed u ''acme'' ''s1'' = [Layer0, Layer1, Layer2, Layer3, Layer4]"
    using finish_settled[OF il _ _ _ p, where run = "ex_run (Layer4_output [ex_fix]) []" and cfg = ex_cfg_fix
        and cx = ex_cx] j st ls ex_never_exceeded[OF pol]
    by (auto simp: ex_run_def LAYER_ORDER_def)
  have w: "wouldOpenPrs (evaluateFixGate (fixes_listByScan (oc_store u) (sc_clientId scan) (sc_id scan)) ex_cfg_fix)"
    using u(3) id by (simp add: fixes_listByScan_def evaluateFixGate_def autoEligible_def ex_fix_def
        ex_cfg_fix_def default_auto_fix_config_def)
  have a: "approverRequiredForGate (cfg_rbac ex_cfg_fix)"
    by (simp add: ex_cfg_fix_def ex_cfg_def default_config_def default_rbac_config_def)
  have e: "ex_at_fix_gate = fst (advanceAfterLayer ex_cx ex_cfg_fix scan Layer4 u)"
    using u(1) by (simp add: ex_at_fix_gate_def s4_def ex_before_layer4_def[symmetric] ex_layer_def[of "Layer4_output [ex_fix]"] run_layer_def)
  show ?thesis
    using fix_gate_pends[OF u(2) j(2) w a, of ex_cx "''acme''" "''s1''"] u(4) j id run
    unfolding e[symmetric]
    by (intro exI[of _ "scan\<lparr>sc_gateState := Fix_gate_pending\<rparr>"])
      (auto simp: settled_def view_def resolveClientId_def)
qed

section \<open>Properties\<close>

text \<open>C1. Pull requests need the fix gate: a step that queues a layer-5 job with
  \<open>autoApply\<close> is an approver clearing the pending fix gate of a live scan, or the end of
  layer 4 with auto-fix on, auto-eligible fixes permitted and no approver demanded by the
  role policy. In particular \<open>resume\<close> never queues one.\<close>

theorem auto_apply_only_past_fix_gate:
  assumes "reach (\<lambda>s. s = orch_init) (orch_any cfg) s" and "orch_step cfg l s t"
    and "job \<in> set (appended s t)" and "jb_payload job = P5 True"
  shows "(\<exists>a scan. l = Lbl_approve (jb_scanId job) Fix_gate a
        \<and> scans_get (oc_store s) (resolveClientId cfg (jb_scanId job) s) (jb_scanId job) = Some scan
        \<and> sc_gateState scan = Fix_gate_pending \<and> \<not> isTerminalStatus (sc_status scan))
    \<or> (\<exists>rj. oc_running s = Some rj \<and> l = Lbl_finish (rj_job rj) \<and> jb_layer (rj_job rj) = Layer4
        \<and> jb_scanId (rj_job rj) = jb_scanId job \<and> af_enabled (cfg_autoFix cfg)
        \<and> Auto_eligible \<in> set (af_allowedRiskClasses (cfg_autoFix cfg))
        \<and> \<not> approverRequiredForGate (cfg_rbac cfg))"
proof -
  have ok: "orch_ok s" by (rule orch.reachable_inv[OF assms(1)])
  note n = appended_new[OF assms(2) ok assms(3)]
  show ?thesis
  proof (cases l)
    case (Lbl_approve i g a)
    then show ?thesis using n assms(4)
      by (cases g) (auto simp: new_job_def approve_job_def job_for_def)
  next
    case (Lbl_finish j)
    then obtain rj where rj: "oc_running s = Some rj" "rj_job rj = j"
      "advance_job cfg (rj_scan rj) (jb_layer j) job"
      using n by (auto simp: new_job_def)
    moreover have "sc_id (rj_scan rj) = jb_scanId j" using ok rj by (auto simp: orch_ok_def run_ok_def)
    ultimately show ?thesis using assms(4) Lbl_finish by (auto simp: advance_job_def job_for_def)
  qed (use n assms(4) in \<open>auto simp: new_job_def job_for_def resume_job_def\<close>)
qed

lemma auto_apply_only_past_fix_gate_witness:
  "\<exists>s t job. job \<in> set (appended s t) \<and> jb_payload job = P5 True
     \<and> map_option sc_gateState (ex_row s) = Some Fix_gate_pending"
proof -
  let ?s = ex_at_fix_gate
  let ?t = "fst (approveGate ex_cx ex_cfg_fix ''s1'' Fix_gate ''ann'' ?s)"
  obtain scan where v: "view ex_cfg_fix ''acme'' ''s1'' scan [Layer0, Layer1, Layer2, Layer3, Layer4] ?s"
    "oc_queue ?s = []" "sc_gateState scan = Fix_gate_pending" "sc_status scan = Running"
    using ex_at_gate by blast
  obtain job where q: "oc_queue ?t = [job]" "jb_scanId job = ''s1''" "jb_payload job = P5 True"
    using view_approve_fix[OF v(1) _ v(3), of "''ann''" ex_cx] v(2,4) by auto
  have m: "job \<in> set (appended ?s ?t)" using q v(2) by (simp add: appended_def)
  have st: "orch_step ex_cfg_fix (Lbl_approve ''s1'' Fix_gate ''ann'') ?s ?t" by (rule st_approve)
  have "resolveClientId ex_cfg_fix ''s1'' ?s = ''acme''" using v(1) by (simp add: view_def)
  then have "map_option sc_gateState (ex_row ?s) = Some Fix_gate_pending"
    using auto_apply_only_past_fix_gate[OF reach_at_fix_gate st m q(3)] q(2) by (auto simp: ex_row_def)
  then show ?thesis using m q(3) by blast
qed



text \<open>An approval given while the scan is paused is lost: at the fix gate, pause, then
  approve (the operation succeeds, the gate becomes \<open>Approved\<close> and a layer-5 job with
  \<open>autoApply\<close> is queued), and the worker drops that job because the scan is paused; the
  resume that follows finds no pending gate and schedules layer 5 in report-only mode, so the
  approved fixes never become pull requests although the gate stays \<open>Approved\<close>.\<close>

lemma approval_while_paused_is_lost:
  assumes "view cfg c i scan [Layer0, Layer1, Layer2, Layer3, Layer4] s" and "oc_queue s = []"
    and "sc_gateState scan = Fix_gate_pending" and "sc_status scan = Running"
    and "i \<noteq> []" and "c \<noteq> []"
    and "s1 = fst (oc_pause cx1 cfg i s)" and "s2 = fst (approveGate cx2 cfg i Fix_gate a s1)"
    and "s3 = ex_begin cfg s2" and "s4 = fst (oc_resume cx3 cfg i s3)"
  shows "(\<exists>job. oc_queue s2 = [job] \<and> jb_scanId job = i \<and> jb_payload job = P5 True)
    \<and> oc_queue s3 = [] \<and> oc_running s3 = None
    \<and> (\<exists>job. oc_queue s4 = [job] \<and> jb_scanId job = i \<and> jb_payload job = P5 False)
    \<and> map_option sc_gateState (scans_get (oc_store s4) c i) = Some Approved"
proof -
  let ?ls = "[Layer0, Layer1, Layer2, Layer3, Layer4]"
  have v1: "view cfg c i (scan\<lparr>sc_status := Paused\<rparr>) ?ls s1" "oc_queue s1 = []"
    using view_pause[OF assms(1), of cx1] assms(2,4,7) by simp_all
  define scan2 where "scan2 = scan\<lparr>sc_status := Paused, sc_gateState := Approved, sc_approver := Some a\<rparr>"
  obtain job where v2: "view cfg c i scan2 ?ls s2" "oc_queue s2 = [job]" "jb_scanId job = i"
    "jb_clientId job = c" "jb_payload job = P5 True"
    using view_approve_fix[OF v1(1) _ _ assms(5,6), of a cx2] v1(2) assms(3,8) by (auto simp: scan2_def)
  have v3: "view cfg c i scan2 ?ls s3" "oc_queue s3 = []"
    using view_begin_paused[OF v2(1) _ v2(2-4)] assms(9) by (auto simp: scan2_def)
  have n: "nextLayer ?ls = Some Layer5" by (simp add: nextLayer_def LAYER_ORDER_def)
  obtain job' where v4: "view cfg c i (scan2\<lparr>sc_status := Running\<rparr>) ?ls s4" "oc_queue s4 = [job']"
    "jb_scanId job' = i" "jb_payload job' = P5 False"
    using view_resume[OF v3(1) _ _ n assms(5,6), of cx3] v3(2) assms(10) by (auto simp: scan2_def)
  show ?thesis using v2 v3 v4 by (auto simp: view_def scan2_def)
qed

lemma approval_while_paused_is_lost_witness:
  "\<exists>s4. reach (\<lambda>s. s = orch_init) (orch_any ex_cfg_fix) s4
     \<and> (\<exists>job. oc_queue s4 = [job] \<and> jb_payload job = P5 False)
     \<and> map_option sc_gateState (ex_row s4) = Some Approved"
proof -
  let ?s = ex_at_fix_gate
  let ?s1 = "fst (oc_pause ex_cx ex_cfg_fix ''s1'' ?s)"
  let ?s2 = "fst (approveGate ex_cx ex_cfg_fix ''s1'' Fix_gate ''ann'' ?s1)"
  let ?s3 = "ex_begin ex_cfg_fix ?s2"
  let ?s4 = "fst (oc_resume ex_cx ex_cfg_fix ''s1'' ?s3)"
  obtain scan where v: "view ex_cfg_fix ''acme'' ''s1'' scan [Layer0, Layer1, Layer2, Layer3, Layer4] ?s"
    "oc_queue ?s = []" "sc_gateState scan = Fix_gate_pending" "sc_status scan = Running"
    using ex_at_gate by blast
  have "reach (\<lambda>s. s = orch_init) (orch_any ex_cfg_fix) ?s4"
    by (intro reach_any[OF reach_begin st_resume] reach_any[OF _ st_approve] reach_any[OF _ st_pause]
        reach_at_fix_gate)
  then show ?thesis
    using approval_while_paused_is_lost[OF v, of ?s1 ex_cx ?s2 ex_cx "''ann''" ?s3 ?s4 ex_cx]
    unfolding ex_row_def by blast
qed

end
