(* ===== verification/OrchestratorOutcomes.thy ===== *)
theory OrchestratorOutcomes
  imports OrchestratorRuns
begin

text \<open>
  How a scan resumes, halts and fails: what resume may schedule, what the budget halt does
  and what a resume after it does, and the isolation of scans from each other.
\<close>

section \<open>Resume\<close>



section \<open>Isolation\<close>



section \<open>The budget halt\<close>

lemma finalize_partial:
  assumes "rows_keyed (oc_store s)" and "scans_get (oc_store s) c i = Some row"
    and "sc_id scan = i" and "sc_clientId scan = c"
  shows "\<exists>st u. finalizeComplete cx scan True s = (u, None) \<and> oc_store u = st \<and> rows_keyed st
    \<and> scans_get st c i = Some (scanToUpdate row (scan\<lparr>sc_status := Partial, sc_finishedAt := Some (cx_now cx),
         sc_costActual := safeActual cx i s\<rparr>))
    \<and> st_resume st = st_resume (oc_store s) \<and> oc_queue u = oc_queue s \<and> jm_get (oc_meters u) i = None
    \<and> oc_closed u = oc_closed s \<and> oc_running u = oc_running s \<and> oc_scanClient u = oc_scanClient s
    \<and> (\<forall>j. kr_isKilled (oc_kills u) j = kr_isKilled (oc_kills s) j)"
proof -
  let ?r = "scan\<lparr>sc_status := Partial, sc_finishedAt := Some (cx_now cx), sc_costActual := safeActual cx i s\<rparr>"
  obtain st where st: "oc_updateScan c ?r s = (s\<lparr>oc_store := st\<rparr>, None)" "rows_keyed st"
    "scans_get st c i = Some (scanToUpdate row ?r)" "st_resume st = st_resume (oc_store s)"
    using updateScan_row[OF assms(1,2), of ?r] assms(3) by auto
  then show ?thesis using assms(3,4)
    by (simp add: finalizeComplete_def Let_def and_then_split oc_cleanup_def)
qed

lemma enforceBudget_exceeded:
  assumes "exceeded (mt_checkBudget (oc_heap s m) (effectiveBudgetPolicy scan cfg))"
    and "enforcement (effectiveBudgetPolicy scan cfg) = Hard_halt"
  shows "\<exists>u. oc_enforceBudget cx cfg scan m s = (finalizeComplete cx (scan\<lparr>sc_gateState := Blocked\<rparr>) True u, True)
    \<and> oc_store u = oc_store s \<and> oc_kills u = oc_kills s \<and> oc_queue u = oc_queue s
    \<and> oc_closed u = oc_closed s \<and> oc_running u = oc_running s \<and> oc_scanClient u = oc_scanClient s"
proof -
  let ?p = "effectiveBudgetPolicy scan cfg"
  let ?chk = "mt_checkBudget (oc_heap s m) ?p"
  let ?u = "safeAudit cx (mk_audit (sc_clientId scan) (Some (sc_id scan)) ''budget.exceeded'' SYSTEM_ACTOR
      ''Budget ceiling exceeded.'' [(''spentUsd'', JNum (spentUsd ?chk)), (''ceilingUsd'', j_rat (maxUsd ?p))])
    (oc_emit (Budget_exceeded (sc_id scan) (spentUsd ?chk) (maxUsd ?p) (cx_now cx)) s)"
  have "\<not> bc_warn ?chk" using assms(1) by (auto simp: mt_checkBudget_def Let_def)
  then have "oc_enforceBudget cx cfg scan m s = (finalizeComplete cx (scan\<lparr>sc_gateState := Blocked\<rparr>) True ?u, True)"
    using assms by (simp add: oc_enforceBudget_def Let_def)
  then show ?thesis by (intro exI[of _ ?u]) simp
qed

lemma budget_halt:
  assumes "in_layer scan job mt s" and "lr_abort run 0 = None" and "lr_attempts run 0 = Inr out"
    and p: "persistLayerOutput (jb_clientId job) (jb_layer job) out scan (oc_store s) = (st, scan', None)"
    and "exceeded (mt_checkBudget (fold mt_record (lr_usage run) mt) (effectiveBudgetPolicy scan cfg))"
    and "enforcement (effectiveBudgetPolicy scan cfg) = Hard_halt"
    and t: "t = fst (finishLayerJob cx cfg run s)"
  shows "oc_queue t = oc_queue s \<and> jm_get (oc_meters t) (jb_scanId job) = None
    \<and> (\<exists>row. view cfg (jb_clientId job) (jb_scanId job) row
          (filter (\<lambda>k. k = jb_layer job \<or> k \<in> set (resume_completed s (jb_clientId job) (jb_scanId job))) LAYER_ORDER) t
        \<and> sc_status row = Partial \<and> sc_gateState row = Blocked
        \<and> sc_appMapId row = sc_appMapId scan' \<and> sc_budgetPolicy row = sc_budgetPolicy scan)"
proof -
  let ?i = "jb_scanId job" and ?c = "jb_clientId job" and ?l = "jb_layer job"
  have id: "sc_id scan = ?i" "sc_clientId scan = ?c"
    using assms(1) scans_get_id by (auto simp: in_layer_def)
  note pf = persist_facts[OF p]
  have id': "sc_id scan' = ?i" "sc_clientId scan' = ?c" "sc_budgetPolicy scan' = sc_budgetPolicy scan"
    using pf id by auto
  then have pol: "effectiveBudgetPolicy scan' cfg = effectiveBudgetPolicy scan cfg"
    by (simp add: effectiveBudgetPolicy_def)
  obtain rj v where v: "finishLayerJob cx cfg run s = afterPersist cx cfg rj scan' v"
    "persisted job rj (fold mt_record (lr_usage run) mt) s v" "st_scans (oc_store v) = st_scans st"
    using finish_persisted[OF assms(1-3) p, of cx cfg] by auto
  have keyed: "rows_keyed (oc_store v)"
    using assms(1) pf rows_keyed_cong[OF v(3)] by (simp add: in_layer_def store_frame_def)
  have "scans_get st ?c ?i \<noteq> None" using assms(1) pf by (auto simp: in_layer_def store_frame_def)
  then obtain row where row: "scans_get (oc_store v) ?c ?i = Some row"
    using scans_get_cong[OF v(3)] by auto
  have rid: "sc_id row = ?i" "sc_clientId row = ?c" using scans_get_id[OF keyed row] by auto
  let ?v = "auditLayer cx scan' ?l (oc_emit (Layer_completed ?i ?l (cx_now cx)) v)"
  obtain w where w: "oc_enforceBudget cx cfg scan' (rj_meter rj) ?v
      = (finalizeComplete cx (scan'\<lparr>sc_gateState := Blocked\<rparr>) True w, True)"
    "oc_store w = oc_store v" "oc_kills w = oc_kills v" "oc_queue w = oc_queue v"
    "oc_closed w = oc_closed v" "oc_running w = oc_running v" "oc_scanClient w = oc_scanClient v"
    using enforceBudget_exceeded[of ?v "rj_meter rj" scan' cfg cx] v(2) assms(5,6) pol
    by (auto simp: persisted_def)
  obtain u where u: "finalizeComplete cx (scan'\<lparr>sc_gateState := Blocked\<rparr>) True w = (u, None)"
    "rows_keyed (oc_store u)"
    "scans_get (oc_store u) ?c ?i = Some (scanToUpdate row (scan'\<lparr>sc_gateState := Blocked, sc_status := Partial,
         sc_finishedAt := Some (cx_now cx), sc_costActual := safeActual cx ?i w\<rparr>))"
    "st_resume (oc_store u) = st_resume (oc_store w)" "oc_queue u = oc_queue w" "jm_get (oc_meters u) ?i = None"
    "oc_closed u = oc_closed w" "oc_running u = oc_running w" "oc_scanClient u = oc_scanClient w"
    "\<forall>j. kr_isKilled (oc_kills u) j = kr_isKilled (oc_kills w) j"
    using finalize_partial[of w ?c ?i row "scan'\<lparr>sc_gateState := Blocked\<rparr>" cx] keyed row w(2) id' by auto
  have "t = u" using t v(1,2) w(1) u(1) by (simp add: afterPersist_def Let_def persisted_def)
  moreover have "resume_completed u ?c ?i = resume_completed v ?c ?i"
    using u(4) w(2) by (simp add: resume_completed_def resume_get_def)
  ultimately show ?thesis
    using u w v(2) assms(1) rid id' by (auto simp: view_def persisted_def in_layer_def resolveClientId_def)
qed

text \<open>The budget halt stops the scan: when a layer ends, its usage has taken the scan
  over a ceiling and the policy is \<open>hard_halt\<close>, the output is kept and the layer is in the
  checkpoint, but no job is queued, the meter is dropped, and the row ends \<open>Partial\<close> with
  its gate \<open>Blocked\<close>.\<close>

lemma budget_exceeded_halts_scan:
  assumes "in_layer scan job mt s" and "lr_abort run 0 = None" and "lr_attempts run 0 = Inr out"
    and "persistLayerOutput (jb_clientId job) (jb_layer job) out scan (oc_store s) = (st, scan', None)"
    and "exceeded (mt_checkBudget (fold mt_record (lr_usage run) mt) (effectiveBudgetPolicy scan cfg))"
    and "enforcement (effectiveBudgetPolicy scan cfg) = Hard_halt"
    and "t = fst (finishLayerJob cx cfg run s)"
  shows "oc_queue t = oc_queue s \<and> jm_get (oc_meters t) (jb_scanId job) = None
    \<and> jb_layer job \<in> set (resume_completed t (jb_clientId job) (jb_scanId job))
    \<and> (\<exists>row. scans_get (oc_store t) (jb_clientId job) (jb_scanId job) = Some row
        \<and> sc_status row = Partial \<and> sc_gateState row = Blocked)"
proof -
  obtain row where "view cfg (jb_clientId job) (jb_scanId job) row
      (filter (\<lambda>k. k = jb_layer job \<or> k \<in> set (resume_completed s (jb_clientId job) (jb_scanId job))) LAYER_ORDER) t"
    "sc_status row = Partial" "sc_gateState row = Blocked"
    "oc_queue t = oc_queue s" "jm_get (oc_meters t) (jb_scanId job) = None"
    using budget_halt[OF assms] by blast
  then show ?thesis using LAYER_ORDER_all by (auto simp: view_def)
qed

lemma build1:
  assumes "sc_id scan \<noteq> []" and "sc_clientId scan \<noteq> []" and "sc_appMapId scan = Some a" and "a \<noteq> []"
  shows "\<exists>job. buildJob cfg scan Layer1 auto = Inr job \<and> jb_scanId job = sc_id scan
    \<and> jb_clientId job = sc_clientId scan \<and> jb_layer job = Layer1"
  using assms by (auto simp: buildJob_def Let_def)

lemma view_resume1:
  assumes "view cfg c i scan ls s" and "sc_status scan = Partial" and "sc_gateState scan = Blocked"
    and "nextLayer ls = Some Layer1" and "i \<noteq> []" and "c \<noteq> []"
    and "sc_appMapId scan = Some a" and "a \<noteq> []"
  shows "(\<exists>job. oc_queue (fst (oc_resume cx cfg i s)) = oc_queue s @ [job]
         \<and> jb_scanId job = i \<and> jb_clientId job = c \<and> jb_layer job = Layer1)
    \<and> map_option sc_gateState (scans_get (oc_store (fst (oc_resume cx cfg i s))) c i) = Some Gate_running
    \<and> oc_meters (fst (oc_resume cx cfg i s)) = oc_meters s"
proof -
  let ?k = "snd (kr_register i (oc_kills s))"
  let ?u = "ensureSchedulerStarted (s\<lparr>oc_scanClient := jm_set i c (oc_scanClient s), oc_kills := ?k\<rparr>)"
  let ?r = "scan\<lparr>sc_status := Running\<rparr>" and ?r2 = "scan\<lparr>sc_status := Running, sc_gateState := Gate_running\<rparr>"
  have id: "sc_id ?r = i" "sc_clientId scan = c" "sc_id scan = i" and nc: "\<not> oc_closed s"
    and nk: "\<not> kr_isKilled (oc_kills s) i" and ls: "resume_completed s c i = ls"
    and keyed: "rows_keyed (oc_store ?u)" and row: "scans_get (oc_store ?u) c i = Some scan"
    using assms(1) by (auto simp: view_def)
  have cl: "oc_closed ?u = oc_closed s" "oc_meters ?u = oc_meters s"
    using nc by (simp_all add: ensureSchedulerStarted_def sched_start_def)
  obtain st where st: "oc_updateScan c ?r ?u = (?u\<lparr>oc_store := st\<rparr>, None)"
    "scans_get st c i = Some ?r" "rows_keyed st"
    using updateScan_row[OF keyed row id(1)] by auto
  let ?v = "oc_emit (Resumed i Layer1 (cx_now cx)) (safeAudit cx (mk_audit c (Some i) ''scan.resumed''
      (userActor (sc_operator scan) Operator) ''Scan resumed.''
      [(''completedLayers'', JArr (map (\<lambda>l. JStr (layer_str l)) ls))]) (?u\<lparr>oc_store := st\<rparr>))"
  have v: "rows_keyed (oc_store ?v)" "scans_get (oc_store ?v) c i = Some ?r" using st by simp_all
  obtain st2 where st2: "oc_updateScan c ?r2 ?v = (?v\<lparr>oc_store := st2\<rparr>, None)"
    "scans_get st2 c i = Some (scanToUpdate ?r ?r2)"
    using updateScan_row[OF v, of ?r2] id by auto
  have up: "scanToUpdate ?r ?r2 = ?r2" by (simp add: scanToUpdate_def)
  obtain job where job: "buildJob cfg ?r2 Layer1 None = Inr job" "jb_scanId job = i"
    "jb_clientId job = c" "jb_layer job = Layer1"
    using build1[of ?r2 a cfg None] id assms(5-8) by auto
  have ls': "resume_completed (s\<lparr>oc_scanClient := m\<rparr>) c i = ls" for m
    using ls by (simp add: resume_completed_def)
  have "oc_resume cx cfg i s = (sched_enqueue job (?v\<lparr>oc_store := st2\<rparr>), None)"
    using st(1) st2(1) assms(2-4) id job nk ls'
    by (simp add: oc_resume_def with_scan_def view_client[OF assms(1)] and_then_split Let_def
        scheduleLayer_def enqueueLayer_def)
  then show ?thesis using job st2(2) up cl nc by (simp add: sched_enqueue_def)
qed

text \<open>A resume after the budget halt passes the estimate gate: when layer 0 itself takes
  the scan over its budget, the scan is halted (\<open>Partial\<close>, gate \<open>Blocked\<close>) before the
  estimate is presented; the resume that follows queues layer 1 and marks the gate
  \<open>running\<close> although the policy asks for an approved estimate and nobody approved one, and
  since the halt dropped the meter the next layer starts counting from zero.\<close>

lemma resume_after_halt_skips_estimate_gate:
  assumes "in_layer scan job mt s" and "lr_abort run 0 = None" and "lr_attempts run 0 = Inr out"
    and "persistLayerOutput (jb_clientId job) (jb_layer job) out scan (oc_store s) = (st, scan', None)"
    and "exceeded (mt_checkBudget (fold mt_record (lr_usage run) mt) (effectiveBudgetPolicy scan cfg))"
    and "enforcement (effectiveBudgetPolicy scan cfg) = Hard_halt"
    and "jb_layer job = Layer0" and "estimateGateRequired scan cfg"
    and "resume_completed s (jb_clientId job) (jb_scanId job) = []"
    and "sc_appMapId scan' = Some a" and "a \<noteq> []" and "jb_scanId job \<noteq> []" and "jb_clientId job \<noteq> []"
    and "t = fst (finishLayerJob cx cfg run s)" and "u = fst (oc_resume cx' cfg (jb_scanId job) t)"
  shows "oc_queue t = []
    \<and> map_option sc_gateState (scans_get (oc_store t) (jb_clientId job) (jb_scanId job)) = Some Blocked
    \<and> (\<exists>j. oc_queue u = [j] \<and> jb_scanId j = jb_scanId job \<and> jb_layer j = Layer1)
    \<and> map_option sc_gateState (scans_get (oc_store u) (jb_clientId job) (jb_scanId job)) = Some Gate_running
    \<and> jm_get (oc_meters u) (jb_scanId job) = None"
proof -
  obtain row where v: "view cfg (jb_clientId job) (jb_scanId job) row [Layer0] t"
    "sc_status row = Partial" "sc_gateState row = Blocked" "sc_appMapId row = Some a"
    "oc_queue t = oc_queue s" "jm_get (oc_meters t) (jb_scanId job) = None"
    using budget_halt[OF assms(1-6,14)] assms(7,9,10) by (auto simp: LAYER_ORDER_def)
  have q: "oc_queue s = []" using assms(1) by (simp add: in_layer_def)
  have n: "nextLayer [Layer0] = Some Layer1" by (simp add: nextLayer_def LAYER_ORDER_def)
  show ?thesis using view_resume1[OF v(1-3) n assms(12,13) v(4) assms(11), of cx'] v q assms(15)
    by (auto simp: view_def)
qed

text \<open>Layer 0 of a run whose token ceiling is five.\<close>

definition ex_cfg_cap :: montr_config where
  "ex_cfg_cap = ex_cfg\<lparr>cfg_budget := default_budget_config\<lparr>bc_maxTokensPerScan := Some 5\<rparr>\<rparr>"

definition ex_entry :: meter_entry where
  "ex_entry = \<lparr>en_modelId = ''claude-opus-5'', en_usage = zeroUsage\<lparr>totalTokens := 7\<rparr>,
     en_layer = Some Layer0, en_batch = False\<rparr>"

definition ex_in_layer0 :: orch where
  "ex_in_layer0 = ex_begin ex_cfg_cap (ex_started ex_cfg_cap)"

lemma in_layer0_facts:
  "oc_queue ex_in_layer0 = [] \<and> \<not> oc_closed ex_in_layer0 \<and> \<not> kr_isKilled (oc_kills ex_in_layer0) ''s1''
   \<and> map_option (\<lambda>rj. (jb_scanId (rj_job rj), jb_clientId (rj_job rj), jb_layer (rj_job rj),
        Some (rj_meter rj) = jm_get (oc_meters ex_in_layer0) ''s1'',
        Some (rj_scan rj) = ex_row ex_in_layer0, sc_status (rj_scan rj), sc_budgetPolicy (rj_scan rj)))
       (oc_running ex_in_layer0) = Some (''s1'', ''acme'', Layer0, True, True, Running, None)
   \<and> jm_get (oc_scanClient ex_in_layer0) ''s1'' = Some ''acme'' \<and> st_appMaps (oc_store ex_in_layer0) = []
   \<and> resume_completed ex_in_layer0 ''acme'' ''s1'' = []
   \<and> map_option (\<lambda>rj. totalTokens (mt_total (oc_heap ex_in_layer0 (rj_meter rj)))) (oc_running ex_in_layer0) = Some 0"
  by code_simp

lemma ex_in_layer0_ready:
  "\<exists>scan job mt. in_layer scan job mt ex_in_layer0 \<and> jb_scanId job = ''s1'' \<and> jb_clientId job = ''acme''
     \<and> jb_layer job = Layer0 \<and> sc_budgetPolicy scan = None \<and> totalTokens (mt_total mt) = 0"
proof -
  note f = in_layer0_facts
  obtain rj where rj: "oc_running ex_in_layer0 = Some rj" using f by auto
  have "reach (\<lambda>s. s = orch_init) (orch_any ex_cfg_cap) ex_in_layer0"
    unfolding ex_in_layer0_def by (intro reach_begin reach_started)
  then have "rows_keyed (oc_store ex_in_layer0)"
    using orch.reachable_inv by (auto simp: orch_ok_def)
  then have "in_layer (rj_scan rj) (rj_job rj) (oc_heap ex_in_layer0 (rj_meter rj)) ex_in_layer0"
    using f rj by (auto simp: in_layer_def ex_row_def)
  then show ?thesis using f rj by auto
qed

lemma ex_in_layer0_exceeds:
  assumes "totalTokens (mt_total mt) = 0" and "sc_budgetPolicy scan = None"
  shows "exceeded (mt_checkBudget (fold mt_record [ex_entry] mt) (effectiveBudgetPolicy scan ex_cfg_cap))"
    and "enforcement (effectiveBudgetPolicy scan ex_cfg_cap) = Hard_halt"
    and "estimateGateRequired scan ex_cfg_cap"
  using assms
  by (simp_all add: mt_checkBudget_def Let_def effectiveBudgetPolicy_def estimateGateRequired_def
      ex_cfg_cap_def ex_cfg_def default_config_def default_budget_config_def ceiling_check_def
      mt_record_def ex_entry_def addUsage_def zeroUsage_def)

lemma ex_persist0:
  assumes "in_layer scan job mt ex_in_layer0" and "jb_scanId job = ''s1''" and "jb_clientId job = ''acme''"
    and "jb_layer job = Layer0"
  shows "\<exists>st scan'. persistLayerOutput (jb_clientId job) (jb_layer job) ex_out0 scan (oc_store ex_in_layer0)
      = (st, scan', None) \<and> sc_appMapId scan' = Some ''map1''"
proof -
  have "scans_get (oc_store ex_in_layer0) ''acme'' ''s1'' = Some scan" "sc_id scan = ''s1''"
    using assms scans_get_id by (auto simp: in_layer_def)
  then show ?thesis using in_layer0_facts assms(3,4)
    by (auto simp: persistLayerOutput_def ex_out0_def appMaps_create_def scans_update_def scans_get_def Let_def
        split: option.splits sum.splits)
qed

lemma budget_exceeded_halts_scan_witness:
  "\<exists>row. scans_get (oc_store (fst (finishLayerJob ex_cx ex_cfg_cap (ex_run ex_out0 [ex_entry]) ex_in_layer0)))
       ''acme'' ''s1'' = Some row \<and> sc_status row = Partial \<and> sc_gateState row = Blocked"
proof -
  obtain scan job mt where r: "in_layer scan job mt ex_in_layer0" "jb_scanId job = ''s1''"
    "jb_clientId job = ''acme''" "jb_layer job = Layer0" "sc_budgetPolicy scan = None"
    "totalTokens (mt_total mt) = 0" using ex_in_layer0_ready by blast
  obtain st scan' where p: "persistLayerOutput (jb_clientId job) (jb_layer job) ex_out0 scan
      (oc_store ex_in_layer0) = (st, scan', None)" using ex_persist0[OF r(1-4)] by blast
  show ?thesis
    using budget_exceeded_halts_scan[OF r(1) _ _ p, of "ex_run ex_out0 [ex_entry]" ex_cfg_cap, OF _ _ _ _ refl]
      ex_in_layer0_exceeds[OF r(6,5)] r(2,3) by (simp add: ex_run_def)
qed

lemma resume_after_halt_skips_estimate_gate_witness:
  "\<exists>u j. reach (\<lambda>s. s = orch_init) (orch_any ex_cfg_cap) u
     \<and> oc_queue u = [j] \<and> jb_layer j = Layer1 \<and> requireEstimateApproval (effectiveBudgetPolicy example_scan ex_cfg_cap)"
proof -
  let ?run = "ex_run ex_out0 [ex_entry]"
  let ?t = "fst (finishLayerJob ex_cx ex_cfg_cap ?run ex_in_layer0)"
  let ?u = "fst (oc_resume ex_cx ex_cfg_cap ''s1'' ?t)"
  obtain scan job mt where r: "in_layer scan job mt ex_in_layer0" "jb_scanId job = ''s1''"
    "jb_clientId job = ''acme''" "jb_layer job = Layer0" "sc_budgetPolicy scan = None"
    "totalTokens (mt_total mt) = 0" using ex_in_layer0_ready by blast
  obtain st scan' where p: "persistLayerOutput (jb_clientId job) (jb_layer job) ex_out0 scan
      (oc_store ex_in_layer0) = (st, scan', None)" "sc_appMapId scan' = Some ''map1''"
    using ex_persist0[OF r(1-4)] by blast
  have "reach (\<lambda>s. s = orch_init) (orch_any ex_cfg_cap) ?u"
    unfolding ex_finish_def[symmetric] ex_in_layer0_def
    by (intro reach_any[OF reach_finish st_resume] reach_begin reach_started ex_run_sound)
      (simp add: ex_entry_def usage_valid_def zeroUsage_def)
  moreover have "\<exists>j. oc_queue ?u = [j] \<and> jb_scanId j = jb_scanId job \<and> jb_layer j = Layer1"
    using resume_after_halt_skips_estimate_gate[OF r(1) _ _ p(1), of ?run ex_cfg_cap "''map1''" ?t ex_cx ?u ex_cx]
      ex_in_layer0_exceeds[OF r(6,5)] r(2-4) p(2) in_layer0_facts by (simp add: ex_run_def)
  moreover have "requireEstimateApproval (effectiveBudgetPolicy example_scan ex_cfg_cap)" by code_simp
  ultimately show ?thesis by blast
qed

section \<open>Failure and stale writes\<close>



text \<open>Persisting layer 0 writes the whole captured row: whatever changed the scan while the
  layer ran (a pause, a cancel, an approver) is overwritten with the status, gate and approver
  the job read when it started. Persisting any other layer leaves the rows alone.\<close>

lemma persisting_layer0_restores_captured_row:
  assumes "persistLayerOutput c layer out scan st = (st', scan', None)"
    and "scans_get st c (sc_id scan) = Some row"
  shows "(layer = Layer0 \<longrightarrow> (\<exists>row'. scans_get st' c (sc_id scan) = Some row'
      \<and> sc_status row' = sc_status scan \<and> sc_gateState row' = sc_gateState scan \<and> sc_id row' = sc_id row))
    \<and> (layer \<noteq> Layer0 \<longrightarrow> (\<forall>d i. scans_get st' d i = scans_get st d i))"
  using persist_facts[OF assms(1)] assms(2) scans_get_cong[of st' st] by auto

lemma persisting_layer0_restores_captured_row_witness:
  "map_option sc_status (ex_row (fst (oc_pause ex_cx ex_cfg_cap ''s1'' ex_in_layer0))) = Some Paused
   \<and> (\<exists>st scan' row'. persistLayerOutput ''acme'' Layer0 ex_out0 (rj_scan (the (oc_running ex_in_layer0)))
          (oc_store (fst (oc_pause ex_cx ex_cfg_cap ''s1'' ex_in_layer0))) = (st, scan', None)
        \<and> scans_get st ''acme'' ''s1'' = Some row' \<and> sc_status row' = Running)"
proof -
  let ?s = "fst (oc_pause ex_cx ex_cfg_cap ''s1'' ex_in_layer0)"
  let ?scan = "rj_scan (the (oc_running ex_in_layer0))"
  have f: "map_option sc_status (ex_row ?s) = Some Paused \<and> sc_id ?scan = ''s1'' \<and> sc_status ?scan = Running
      \<and> snd (snd (persistLayerOutput ''acme'' Layer0 ex_out0 ?scan (oc_store ?s))) = None"
    by code_simp
  obtain st scan' e where p: "persistLayerOutput ''acme'' Layer0 ex_out0 ?scan (oc_store ?s) = (st, scan', e)"
    by (rule prod_cases3)
  then have pn: "persistLayerOutput ''acme'' Layer0 ex_out0 ?scan (oc_store ?s) = (st, scan', None)"
    using f by simp
  obtain row where "scans_get (oc_store ?s) ''acme'' (sc_id ?scan) = Some row"
    using f by (auto simp: ex_row_def)
  from persisting_layer0_restores_captured_row[OF pn this] f pn show ?thesis by auto
qed

end
