(* ===== verification/JsonCanon.thy ===== *)
theory JsonCanon
  imports Contracts JsString
begin

text \<open>
  \<open>packages/state-store/src/hash-chain.ts\<close>, the canonical form: \<open>JSON.stringify\<close> after
  sorting the keys of every object and dropping undefined properties. The text of a number
  is a parameter, \<open>num\<close> (\<open>Number.prototype.toString\<close>). \<open>store_json\<close> is what a JSON column
  gives back.
\<close>

section \<open>Order of object keys\<close>

text \<open>
  An object lists its array-index keys first, in numeric order, then the others in the
  order they were inserted; \<open>sortDeep\<close> inserts them sorted.
\<close>

definition is_index_key :: "string \<Rightarrow> bool" where
  "is_index_key k \<longleftrightarrow> k \<noteq> [] \<and> list_all is_digit_char k \<and> (k = ''0'' \<or> hd k \<noteq> CHR ''0'')
     \<and> (length k < 10 \<or> length k = 10 \<and> k \<le> ''4294967294'')"

definition key_before :: "string \<Rightarrow> string \<Rightarrow> bool" where
  "key_before k l \<longleftrightarrow>
     (if is_index_key k \<and> is_index_key l then length k < length l \<or> (length k = length l \<and> k \<le> l)
      else if is_index_key k \<or> is_index_key l then is_index_key k
      else k \<le> l)"

lemma key_before_antisym: "key_before k l \<Longrightarrow> key_before l k \<Longrightarrow> k = l"
  by (auto simp: key_before_def split: if_splits)

lemma key_before_total: "key_before k l \<or> key_before l k"
  by (auto simp: key_before_def)

lemma key_before_trans: "key_before k l \<Longrightarrow> key_before l m \<Longrightarrow> key_before k m"
  by (auto simp: key_before_def split: if_splits)

interpretation entry_order: comparator "\<lambda>(a :: string \<times> 'v) b. key_before (fst a) (fst b)"
  by unfold_locales (use key_before_total key_before_trans in blast)+

section \<open>Canonical form\<close>

primrec sortDeep :: "json \<Rightarrow> json" where
  "sortDeep JNull = JNull"
| "sortDeep JUndef = JUndef"
| "sortDeep (JBool b) = JBool b"
| "sortDeep (JNum n) = JNum n"
| "sortDeep (JStr s) = JStr s"
| "sortDeep (JArr vs) = JArr (map sortDeep vs)"
| "sortDeep (JObj kvs) = JObj (js_sort (\<lambda>a b. key_before (fst a) (fst b))
     (filter (\<lambda>kv. snd kv \<noteq> JUndef) (map (map_prod id sortDeep) kvs)))"

definition hex_digit :: "nat \<Rightarrow> char" where
  "hex_digit n = ''0123456789abcdef'' ! (n mod 16)"

definition json_escape :: "char \<Rightarrow> string" where
  "json_escape c =
     (if c = CHR 0x22 then [CHR 0x5C, CHR 0x22] else if c = CHR 0x5C then [CHR 0x5C, CHR 0x5C]
      else if c = CHR 0x08 then [CHR 0x5C, CHR ''b''] else if c = CHR 0x0C then [CHR 0x5C, CHR ''f'']
      else if c = CHR 0x0A then [CHR 0x5C, CHR ''n''] else if c = CHR 0x0D then [CHR 0x5C, CHR ''r'']
      else if c = CHR 0x09 then [CHR 0x5C, CHR ''t'']
      else if of_char c < (32 :: nat) then [CHR 0x5C, CHR ''u'', CHR ''0'', CHR ''0'',
             hex_digit (of_char c div 16), hex_digit (of_char c)]
      else [c])"

definition json_quote :: "string \<Rightarrow> string" where
  "json_quote s = [CHR 0x22] @ concat (map json_escape s) @ [CHR 0x22]"

text \<open>\<open>JSON.stringify\<close>: nothing for \<open>undefined\<close>, which an object drops and an array writes as null.\<close>

primrec json_text :: "(rat \<Rightarrow> string) \<Rightarrow> json \<Rightarrow> string option" where
  "json_text num JNull = Some ''null''"
| "json_text num JUndef = None"
| "json_text num (JBool b) = Some (if b then ''true'' else ''false'')"
| "json_text num (JNum n) = Some (num n)"
| "json_text num (JStr s) = Some (json_quote s)"
| "json_text num (JArr vs) = Some (''['' @ js_join '',''
     (map (\<lambda>t. case t of None \<Rightarrow> ''null'' | Some x \<Rightarrow> x) (map (json_text num) vs)) @ '']'')"
| "json_text num (JObj kvs) = Some (''{'' @ js_join '',''
     (concat (map (\<lambda>kt. case snd kt of None \<Rightarrow> [] | Some x \<Rightarrow> [json_quote (fst kt) @ '':'' @ x])
        (map (map_prod id (json_text num)) kvs))) @ ''}'')"

definition canonicalJson :: "(rat \<Rightarrow> string) \<Rightarrow> json \<Rightarrow> string" where
  "canonicalJson num v = (case json_text num (sortDeep v) of None \<Rightarrow> ''undefined'' | Some t \<Rightarrow> t)"

section \<open>The JSON column\<close>

primrec store_json :: "json \<Rightarrow> json" where
  "store_json JNull = JNull"
| "store_json JUndef = JUndef"
| "store_json (JBool b) = JBool b"
| "store_json (JNum n) = JNum n"
| "store_json (JStr s) = JStr s"
| "store_json (JArr vs) = JArr (map (\<lambda>v. if v = JUndef then JNull else v) (map store_json vs))"
| "store_json (JObj kvs) = JObj (filter (\<lambda>kv. snd kv \<noteq> JUndef) (map (map_prod id store_json) kvs))"

section \<open>Lemmas\<close>

abbreviation key_sort :: "(string \<times> 'v) list \<Rightarrow> (string \<times> 'v) list" where
  "key_sort \<equiv> js_sort (\<lambda>a b. key_before (fst a) (fst b))"

definition on_value :: "('a \<Rightarrow> 'b) \<Rightarrow> string \<times> 'a \<Rightarrow> string \<times> 'b" where
  "on_value f kv = (fst kv, f (snd kv))"

lemma on_value_simps [simp]: "fst (on_value f kv) = fst kv" "snd (on_value f kv) = f (snd kv)"
  "on_value f (on_value g kv) = on_value (f \<circ> g) kv"
  by (simp_all add: on_value_def)

lemma map_prod_on_value: "map_prod id f = on_value f"
  by (auto simp: on_value_def)

lemma key_insort_map: "map (on_value f) (js_insort (\<lambda>a b. key_before (fst a) (fst b)) x xs)
    = js_insort (\<lambda>a b. key_before (fst a) (fst b)) (on_value f x) (map (on_value f) xs)"
  by (induction xs) auto

lemma key_sort_map: "map (on_value f) (key_sort xs) = key_sort (map (on_value f) xs)"
  by (induction xs) (auto simp: key_insort_map)

lemma filter_on_value: "(\<And>v. f v = JUndef \<longleftrightarrow> v = JUndef) \<Longrightarrow>
    filter (\<lambda>kv. snd kv \<noteq> JUndef) (map (on_value f) kvs) = map (on_value f) (filter (\<lambda>kv. snd kv \<noteq> JUndef) kvs)"
  by (induction kvs) auto

text \<open>A sorted permutation with distinct keys is unique.\<close>

lemma key_sorted_unique:
  "sorted_wrt (\<lambda>a b. key_before (fst a) (fst b)) xs \<Longrightarrow> sorted_wrt (\<lambda>a b. key_before (fst a) (fst b)) ys
   \<Longrightarrow> mset xs = mset ys \<Longrightarrow> distinct (map fst xs) \<Longrightarrow> xs = ys"
proof (induction xs arbitrary: ys)
  case (Cons x xs)
  then obtain y ys' where ys: "ys = y # ys'" by (cases ys) auto
  have mem: "x \<in> set ys" "y \<in> set (x # xs)" using Cons.prems(3) ys by (metis list.set_intros(1) set_mset_mset)+
  have inj: "a \<in> set (x # xs) \<Longrightarrow> b \<in> set (x # xs) \<Longrightarrow> fst a = fst b \<Longrightarrow> a = b" for a b
    using Cons.prems(4) by (meson distinct_map inj_onD)
  have "fst x = fst y"
  proof (cases "x = y")
    case False
    then have "x \<in> set ys'" "y \<in> set xs" using mem ys by auto
    then have "key_before (fst x) (fst y)" "key_before (fst y) (fst x)"
      using Cons.prems(1,2) ys by auto
    then show ?thesis by (rule key_before_antisym)
  qed simp
  then have "x = y" using inj[of x y] mem by auto
  then show ?case using Cons ys by auto
qed simp

lemma key_sort_perm: "mset xs = mset ys \<Longrightarrow> distinct (map fst xs) \<Longrightarrow> key_sort xs = key_sort ys"
  by (rule key_sorted_unique)
    (auto simp: entry_order.sort_sorted distinct_map mset_js_sort intro: inj_on_subset
      dest: arg_cong[of _ _ set_mset])

lemma sortDeep_undef [simp]: "sortDeep v = JUndef \<longleftrightarrow> v = JUndef"
  by (cases v) auto

lemma store_undef [simp]: "store_json v = JUndef \<longleftrightarrow> v = JUndef"
  by (cases v) auto

definition obj_text :: "(string \<times> string option) list \<Rightarrow> string" where
  "obj_text kts = ''{'' @ js_join '','' (concat (map (\<lambda>kt. case snd kt of None \<Rightarrow> []
     | Some x \<Rightarrow> [json_quote (fst kt) @ '':'' @ x]) kts)) @ ''}''"

abbreviation ctext :: "(rat \<Rightarrow> string) \<Rightarrow> json \<Rightarrow> string option" where
  "ctext num v \<equiv> json_text num (sortDeep v)"

lemma ctext_obj: "ctext num (JObj kvs) =
    Some (obj_text (key_sort (map (on_value (ctext num)) (filter (\<lambda>kv. snd kv \<noteq> JUndef) kvs))))"
proof -
  have "map (on_value (json_text num)) (key_sort (filter (\<lambda>kv. snd kv \<noteq> JUndef) (map (on_value sortDeep) kvs)))
      = key_sort (map (on_value (ctext num)) (filter (\<lambda>kv. snd kv \<noteq> JUndef) kvs))"
    by (simp add: filter_on_value key_sort_map comp_def)
  then show ?thesis unfolding sortDeep.simps json_text.simps map_prod_on_value obj_text_def by simp
qed

lemma ctext_arr: "ctext num (JArr vs) = Some (''['' @ js_join '',''
    (map (\<lambda>v. case ctext num v of None \<Rightarrow> ''null'' | Some x \<Rightarrow> x) vs) @ '']'')"
  by (simp add: comp_def)

lemma ctext_store: "ctext num (store_json v) = ctext num v"
proof (induction v)
  case (JArr vs)
  have "(case ctext num (if store_json v = JUndef then JNull else store_json v) of None \<Rightarrow> ''null'' | Some x \<Rightarrow> x)
      = (case ctext num v of None \<Rightarrow> ''null'' | Some x \<Rightarrow> x)" if "v \<in> set vs" for v
    using JArr that by auto
  then show ?case unfolding store_json.simps ctext_arr by (simp add: comp_def cong: map_cong)
next
  case (JObj kvs)
  have e: "map (on_value (ctext num)) (map (on_value store_json) (filter (\<lambda>kv. snd kv \<noteq> JUndef) kvs))
      = map (on_value (ctext num)) (filter (\<lambda>kv. snd kv \<noteq> JUndef) kvs)"
    using JObj by (auto simp: on_value_def)
  have f: "filter (\<lambda>kv. snd kv \<noteq> JUndef) (filter (\<lambda>kv. snd kv \<noteq> JUndef) xs) = filter (\<lambda>kv. snd kv \<noteq> JUndef) xs"
    for xs :: "(string \<times> json) list" by simp
  show ?case
    by (simp only: store_json.simps ctext_obj map_prod_on_value filter_on_value[of store_json, OF store_undef] f e)
qed simp_all

text \<open>The same JSON value with the keys of its objects listed in another order.\<close>

inductive reordered :: "json \<Rightarrow> json \<Rightarrow> bool" where
  ro_refl: "reordered v v"
| ro_arr: "list_all2 reordered vs ws \<Longrightarrow> reordered (JArr vs) (JArr ws)"
| ro_obj: "list_all2 (\<lambda>a b. fst a = fst b \<and> reordered (snd a) (snd b)) kvs lws \<Longrightarrow> mset lws = mset mws
    \<Longrightarrow> distinct (map fst kvs) \<Longrightarrow> reordered (JObj kvs) (JObj mws)"

lemma reordered_undef: "reordered v w \<Longrightarrow> v = JUndef \<longleftrightarrow> w = JUndef"
  by (cases rule: reordered.cases) auto

lemma ctext_reordered: "reordered v w \<Longrightarrow> ctext num v = ctext num w"
proof (induction rule: reordered.induct)
  case (ro_arr vs ws)
  then have "map (\<lambda>v. case ctext num v of None \<Rightarrow> ''null'' | Some x \<Rightarrow> x) vs
      = map (\<lambda>v. case ctext num v of None \<Rightarrow> ''null'' | Some x \<Rightarrow> x) ws"
    by (induction rule: list_all2_induct) auto
  then show ?case unfolding ctext_arr by simp
next
  case (ro_obj kvs lws mws)
  let ?P = "\<lambda>kv. snd kv \<noteq> JUndef"
  have "map (on_value (ctext num)) (filter ?P kvs) = map (on_value (ctext num)) (filter ?P lws)
      \<and> map fst (filter ?P kvs) = map fst (filter ?P lws)"
    using ro_obj.IH
    by (induction rule: list_all2_induct) (use reordered_undef in \<open>auto simp: on_value_def\<close>)
  moreover have "distinct (map fst (filter ?P kvs))"
    using ro_obj.hyps(2) by (simp add: distinct_map_filter)
  moreover have "mset (map (on_value (ctext num)) (filter ?P lws)) = mset (map (on_value (ctext num)) (filter ?P mws))"
    using ro_obj.hyps(1) by simp
  moreover have "map fst (map (on_value (ctext num)) xs) = map fst xs" for xs by simp
  ultimately have "key_sort (map (on_value (ctext num)) (filter ?P kvs)) = key_sort (map (on_value (ctext num)) (filter ?P mws))"
    by (metis key_sort_perm)
  then show ?case unfolding ctext_obj by simp
qed simp

section \<open>Properties\<close>

text \<open>What the audit log hashes survives storage: after a JSON column has dropped the
  undefined properties, written undefined array items as null and listed the keys of any
  object in an order of its own, the canonical text is the one computed before storing.\<close>

lemma canonical_form_survives_storage:
  assumes "reordered (store_json v) w"
  shows "canonicalJson num w = canonicalJson num v"
  using ctext_reordered[OF assms, of num] ctext_store[of num v] by (simp add: canonicalJson_def)

lemma canonical_form_survives_storage_witness:
  "canonicalJson (\<lambda>n. ''1'') (JObj [(''b'', JArr [JNull]), (''a'', JBool True)])
   = canonicalJson (\<lambda>n. ''1'') (JObj [(''a'', JBool True), (''x'', JUndef), (''b'', JArr [JUndef])])"
proof -
  let ?v = "JObj [(''a'', JBool True), (''x'', JUndef), (''b'', JArr [JUndef])]"
  let ?kvs = "[(''a'', JBool True), (''b'', JArr [JNull])]"
  have "list_all2 (\<lambda>a b. fst a = fst b \<and> reordered (snd a) (snd b)) ?kvs ?kvs"
    by (simp add: ro_refl)
  then have "reordered (JObj ?kvs) (JObj [(''b'', JArr [JNull]), (''a'', JBool True)])"
    by (rule ro_obj) simp_all
  then have "reordered (store_json ?v) (JObj [(''b'', JArr [JNull]), (''a'', JBool True)])" by simp
  then show ?thesis by (rule canonical_form_survives_storage)
qed

end
