(* ===== verification/HashChain.thy ===== *)
theory HashChain
  imports JsonCanon QueueContracts
begin

text \<open>
  \<open>packages/state-store/src/hash-chain.ts\<close> and its copy in \<open>packages/security/src\<close>: the
  hash of an audit event and the verification of a chain. \<open>sha\<close> is SHA-256 in hexadecimal
  and \<open>num\<close> the text of a number, parameters of every definition.
\<close>

section \<open>Definitions\<close>

fun actor_str :: "actor_type \<Rightarrow> string" where
  "actor_str User = ''user''"
| "actor_str Agent = ''agent''"
| "actor_str System = ''system''"

fun role_str :: "role \<Rightarrow> string" where
  "role_str Operator = ''operator''"
| "role_str Approver = ''approver''"
| "role_str Viewer = ''viewer''"

definition j_opt :: "string option \<Rightarrow> json" where
  "j_opt o1 = (case o1 of None \<Rightarrow> JUndef | Some s \<Rightarrow> JStr s)"

definition actor_json :: "audit_actor \<Rightarrow> json" where
  "actor_json a = JObj [(''type'', JStr (actor_str (ac_type a))), (''id'', JStr (ac_id a)),
     (''role'', j_opt (map_option role_str (ac_role a)))]"

definition auditHashPayload :: "audit_event \<Rightarrow> json" where
  "auditHashPayload e = JObj
     [(''id'', JStr (ae_id e)), (''clientId'', JStr (ae_clientId e)),
      (''sequence'', JNum (of_nat (ae_sequence e))), (''scanId'', j_opt (ae_scanId e)),
      (''actor'', actor_json (ae_actor e)), (''action'', JStr (ae_action e)),
      (''targetType'', j_opt (ae_targetType e)), (''targetId'', j_opt (ae_targetId e)),
      (''summary'', JStr (ae_summary e)), (''metadata'', JObj (ae_metadata e)),
      (''prevHash'', JStr (ae_prevHash e)), (''at'', JStr (ae_at e))]"

definition computeAuditHash :: "(string \<Rightarrow> string) \<Rightarrow> (rat \<Rightarrow> string) \<Rightarrow> string \<Rightarrow> json \<Rightarrow> string" where
  "computeAuditHash sha num prevHash payload = sha (prevHash @ canonicalJson num payload)"

definition hashAuditEvent :: "(string \<Rightarrow> string) \<Rightarrow> (rat \<Rightarrow> string) \<Rightarrow> audit_event \<Rightarrow> string \<Rightarrow> string" where
  "hashAuditEvent sha num e prevHash = computeAuditHash sha num prevHash (auditHashPayload e)"

record chain_verification =
  cv_ok :: bool
  cv_brokenAt :: "nat option"
  cv_reason :: "string option"

definition chain_broken :: "nat \<Rightarrow> string \<Rightarrow> chain_verification" where
  "chain_broken i why = \<lparr>cv_ok = False, cv_brokenAt = Some i, cv_reason = Some why\<rparr>"

text \<open>The loop: the previous hash, the expected sequence and the index of the next record.\<close>

fun verify_from :: "(string \<Rightarrow> string) \<Rightarrow> (rat \<Rightarrow> string) \<Rightarrow> string \<Rightarrow> nat \<Rightarrow> nat \<Rightarrow> audit_event list
    \<Rightarrow> chain_verification" where
  "verify_from sha num prevHash expected i [] = \<lparr>cv_ok = True, cv_brokenAt = None, cv_reason = None\<rparr>"
| "verify_from sha num prevHash expected i (e # es) =
     (if ae_sequence e \<noteq> expected
      then chain_broken (i + 1) (''sequence gap: expected '' @ nat_str expected @ '', got '' @ nat_str (ae_sequence e))
      else if ae_prevHash e \<noteq> prevHash then chain_broken (i + 1) ''prevHash does not match prior hash''
      else if hashAuditEvent sha num e prevHash \<noteq> ae_hash e
      then chain_broken (i + 1) ''hash mismatch (record altered)''
      else verify_from sha num (ae_hash e) (expected + 1) (i + 1) es)"

definition verifyChainRecords :: "(string \<Rightarrow> string) \<Rightarrow> (rat \<Rightarrow> string) \<Rightarrow> audit_event list \<Rightarrow> chain_verification" where
  "verifyChainRecords sha num es = verify_from sha num [] 1 0 es"

section \<open>Lemmas\<close>

definition last_hash :: "string \<Rightarrow> audit_event list \<Rightarrow> string" where
  "last_hash h es = (if es = [] then h else ae_hash (last es))"

lemma last_hash_Cons [simp]: "last_hash h [] = h" "last_hash h (e # es) = last_hash (ae_hash e) es"
  by (simp_all add: last_hash_def)

lemma verify_append:
  "cv_ok (verify_from sha num h n i (es @ fs)) \<longleftrightarrow>
     cv_ok (verify_from sha num h n i es)
     \<and> cv_ok (verify_from sha num (last_hash h es) (n + length es) (i + length es) fs)"
  by (induction es arbitrary: h n i) (auto simp: chain_broken_def)

lemma verify_index: "cv_ok (verify_from sha num h n i es) = cv_ok (verify_from sha num h n j es)"
proof (induction es arbitrary: h n i j)
  case (Cons e es)
  then show ?case by (simp only: verify_from.simps chain_broken_def chain_verification.simps split: if_splits) simp
qed simp

lemma verify_sequences:
  "cv_ok (verify_from sha num h n i es) \<Longrightarrow> map ae_sequence es = [n..<n + length es]"
proof (induction es arbitrary: h n i)
  case (Cons e es)
  have "cv_ok (verify_from sha num (ae_hash e) (Suc n) (Suc i) es)" and e: "ae_sequence e = n"
    using Cons.prems by (auto simp: chain_broken_def split: if_splits)
  from Cons.IH[OF this(1)] show ?case by (simp add: e upt_conv_Cons del: upt_Suc)
qed simp

lemma verify_broken_iff:
  "cv_ok (verify_from sha num h n i es) \<longleftrightarrow> cv_brokenAt (verify_from sha num h n i es) = None"
  by (induction es arbitrary: h n i) (auto simp: chain_broken_def)

text \<open>The text that is hashed for each record.\<close>

definition hashed :: "(rat \<Rightarrow> string) \<Rightarrow> audit_event \<Rightarrow> string" where
  "hashed num e = canonicalJson num (auditHashPayload e)"

lemma verify_snoc:
  "cv_ok (verify_from sha num h n i (es @ [e])) \<longleftrightarrow> cv_ok (verify_from sha num h n i es)
     \<and> ae_sequence e = n + length es \<and> ae_prevHash e = last_hash h es
     \<and> ae_hash e = sha (last_hash h es @ hashed num e)"
  by (auto simp: verify_append chain_broken_def hashAuditEvent_def computeAuditHash_def hashed_def)

text \<open>Two verified chains of equal length that end in the same hash agree, or exhibit a collision.\<close>

lemma chains_agree:
  assumes "length es = length fs"
    and "cv_ok (verify_from sha num h n i es)" and "cv_ok (verify_from sha num h n i fs)"
    and "last_hash h es = last_hash h fs" and "\<And>x. length (sha x) = k" and "h = [] \<or> length h = k"
  shows "(map (hashed num) es = map (hashed num) fs \<and> map ae_hash es = map ae_hash fs)
    \<or> (\<exists>x y. x \<noteq> y \<and> sha x = sha y)"
  using assms(1-4)
proof (induction es fs rule: rev_induct2)
  case (4 e es f fs)
  show ?case
  proof (cases "\<exists>x y. x \<noteq> y \<and> sha x = sha y")
    case False
    have s: "cv_ok (verify_from sha num h n i es)" "cv_ok (verify_from sha num h n i fs)"
      "ae_hash e = sha (last_hash h es @ hashed num e)" "ae_hash f = sha (last_hash h fs @ hashed num f)"
      "ae_hash e = ae_hash f" "length es = length fs"
      using "4.prems" by (auto simp: verify_snoc last_hash_def)
    have eq: "last_hash h es @ hashed num e = last_hash h fs @ hashed num f"
      using s(3-5) False by metis
    have hash_of: "\<exists>x. ae_hash g = sha x" if "cv_ok (verify_from sha num h n i (gs @ [g]))" for g gs
      using that by (auto simp: verify_snoc)
    have len: "length (last_hash h gs) = (if gs = [] then length h else k)"
      if "cv_ok (verify_from sha num h n i gs)" for gs
      using that hash_of[of "butlast gs" "last gs"] assms(5)
      by (cases gs rule: rev_cases) (auto simp: last_hash_def)
    have "length (last_hash h es) = length (last_hash h fs)"
      using len[OF s(1)] len[OF s(2)] s(6) by auto
    then have "last_hash h es = last_hash h fs \<and> hashed num e = hashed num f" using eq by auto
    then show ?thesis using "4.IH" s False by simp
  qed simp
qed auto

end
