(* ===== verification/Regex.thy ===== *)
theory Regex
  imports JsString
begin

text \<open>
  The regular expressions of the source, as far as \<open>RegExp.prototype.test\<close> reads them: a
  position in the subject is the character before it and what is left, and an expression
  yields every position a match from there can end at. Which match an engine prefers does
  not matter to \<open>test\<close>, so greedy and lazy repetition are one constructor.
\<close>

datatype regex =
    One "char \<Rightarrow> bool"
  | Lit string
  | Seq regex regex
  | Alt regex regex
  | Rep nat "nat option" regex
  | WordBoundary
  | LineStart
  | TextStart
  | TextEnd

type_synonym rx_pos = "char option \<times> string"

definition word_char :: "char \<Rightarrow> bool" where
  "word_char c \<longleftrightarrow> (CHR ''A'' \<le> c \<and> c \<le> CHR ''Z'') \<or> (CHR ''a'' \<le> c \<and> c \<le> CHR ''z'')
     \<or> is_digit_char c \<or> c = CHR ''_''"

definition opt_word :: "char option \<Rightarrow> bool" where
  "opt_word c = (case c of None \<Rightarrow> False | Some x \<Rightarrow> word_char x)"

definition next_char :: "string \<Rightarrow> char option" where
  "next_char s = (case s of [] \<Rightarrow> None | c # cs \<Rightarrow> Some c)"

text \<open>The position after reading \<open>w\<close> from a position.\<close>

definition after :: "string \<Rightarrow> char option \<Rightarrow> char option" where
  "after w p = (if w = [] then p else Some (last w))"

text \<open>
  Repetition over the positions one round can reach: the required rounds first, then rounds
  that make progress (a round that reads nothing adds no position).
\<close>

definition less_one :: "nat option \<Rightarrow> nat option" where
  "less_one hi = map_option (\<lambda>h. h - 1) hi"

function rep_ends :: "(rx_pos \<Rightarrow> rx_pos list) \<Rightarrow> nat \<Rightarrow> nat option \<Rightarrow> rx_pos \<Rightarrow> rx_pos list" where
  "rep_ends f (Suc n) hi p = concat (map (rep_ends f n (less_one hi)) (f p))"
| "rep_ends f 0 hi p = p # (if hi = Some 0 then []
     else concat (map (rep_ends f 0 (less_one hi))
            (filter (\<lambda>q. length (snd q) < length (snd p)) (f p))))"
  by pat_completeness auto

termination
  by (relation "measures [\<lambda>(f, n, hi, p). n, \<lambda>(f, n, hi, p). length (snd p)]") auto

declare rep_ends.simps [simp del]

lemma rep_ends_more: "q \<in> set (rep_ends f (Suc n) hi p) \<longleftrightarrow>
    (\<exists>m \<in> set (f p). q \<in> set (rep_ends f n (less_one hi) m))"
  by (simp add: rep_ends.simps(1))

lemma rep_ends_extra: "q \<in> set (rep_ends f 0 hi p) \<longleftrightarrow> q = p \<or> hi \<noteq> Some 0 \<and>
    (\<exists>m \<in> set (f p). length (snd m) < length (snd p) \<and> q \<in> set (rep_ends f 0 (less_one hi) m))"
  by (subst rep_ends.simps(2)) auto

primrec rx_ends :: "regex \<Rightarrow> rx_pos \<Rightarrow> rx_pos list" where
  "rx_ends (One P) = (\<lambda>p. case snd p of [] \<Rightarrow> [] | c # cs \<Rightarrow> if P c then [(Some c, cs)] else [])"
| "rx_ends (Lit w) = (\<lambda>p. if js_startsWith (snd p) w then [(after w (fst p), drop (length w) (snd p))] else [])"
| "rx_ends (Seq r t) = (\<lambda>p. concat (map (rx_ends t) (rx_ends r p)))"
| "rx_ends (Alt r t) = (\<lambda>p. rx_ends r p @ rx_ends t p)"
| "rx_ends (Rep lo hi r) = rep_ends (rx_ends r) lo hi"
| "rx_ends WordBoundary = (\<lambda>p. if opt_word (fst p) \<noteq> opt_word (next_char (snd p)) then [p] else [])"
| "rx_ends LineStart = (\<lambda>p. if fst p = None \<or> fst p = Some (CHR 0x0A) \<or> fst p = Some (CHR 0x0D) then [p] else [])"
| "rx_ends TextStart = (\<lambda>p. if fst p = None then [p] else [])"
| "rx_ends TextEnd = (\<lambda>p. if snd p = [] then [p] else [])"

fun rx_from :: "regex \<Rightarrow> char option \<Rightarrow> string \<Rightarrow> bool" where
  "rx_from r prev [] \<longleftrightarrow> rx_ends r (prev, []) \<noteq> []"
| "rx_from r prev (c # cs) \<longleftrightarrow> rx_ends r (prev, c # cs) \<noteq> [] \<or> rx_from r (Some c) cs"

definition rx_test :: "regex \<Rightarrow> string \<Rightarrow> bool" where
  "rx_test r s = rx_from r None s"

text \<open>With the flag \<open>i\<close>: the pattern is written in lower case.\<close>

definition rx_test_i :: "regex \<Rightarrow> string \<Rightarrow> bool" where
  "rx_test_i r s = rx_test r (js_lower s)"

fun rx_seq :: "regex list \<Rightarrow> regex" where
  "rx_seq [] = Lit []"
| "rx_seq [r] = r"
| "rx_seq (r # t # rs) = Seq r (rx_seq (t # rs))"

fun rx_alt :: "regex list \<Rightarrow> regex" where
  "rx_alt [] = One (\<lambda>c. False)"
| "rx_alt [r] = r"
| "rx_alt (r # t # rs) = Alt r (rx_alt (t # rs))"

definition rx_opt :: "regex \<Rightarrow> regex" where
  "rx_opt r = Rep 0 (Some 1) r"

definition rx_words :: "string list \<Rightarrow> regex" where
  "rx_words ws = rx_alt (map Lit ws)"

section \<open>What a match is\<close>

text \<open>Matching a stretch \<open>w\<close> between two contexts, without positions.\<close>

inductive rx_match :: "char option \<Rightarrow> regex \<Rightarrow> string \<Rightarrow> string \<Rightarrow> bool" where
  m_one: "P c \<Longrightarrow> rx_match p (One P) [c] s"
| m_lit: "rx_match p (Lit w) w s"
| m_seq: "rx_match p r v (w @ s) \<Longrightarrow> rx_match (after v p) t w s \<Longrightarrow> rx_match p (Seq r t) (v @ w) s"
| m_alt1: "rx_match p r w s \<Longrightarrow> rx_match p (Alt r t) w s"
| m_alt2: "rx_match p t w s \<Longrightarrow> rx_match p (Alt r t) w s"
| m_rep_more: "rx_match p r v (w @ s) \<Longrightarrow> rx_match (after v p) (Rep n (less_one hi) r) w s
    \<Longrightarrow> rx_match p (Rep (Suc n) hi r) (v @ w) s"
| m_rep_done: "rx_match p (Rep 0 hi r) [] s"
| m_rep_extra: "v \<noteq> [] \<Longrightarrow> hi \<noteq> Some 0 \<Longrightarrow> rx_match p r v (w @ s)
    \<Longrightarrow> rx_match (after v p) (Rep 0 (less_one hi) r) w s
    \<Longrightarrow> rx_match p (Rep 0 hi r) (v @ w) s"
| m_word: "opt_word p \<noteq> opt_word (next_char s) \<Longrightarrow> rx_match p WordBoundary [] s"
| m_line: "p = None \<or> p = Some (CHR 0x0A) \<or> p = Some (CHR 0x0D) \<Longrightarrow> rx_match p LineStart [] s"
| m_start: "rx_match None TextStart [] s"
| m_end: "rx_match p TextEnd [] []"

lemma after_append [simp]: "after (v @ w) p = after w (after v p)" "after [] p = p" "after [c] p = Some c"
  by (auto simp: after_def)

lemma startsWith_append [simp]: "js_startsWith (w @ s) w"
  by (auto simp: startsWith_iff)

lemma rx_ends_complete: "rx_match p r w s \<Longrightarrow> (after w p, s) \<in> set (rx_ends r (p, w @ s))"
proof (induction rule: rx_match.induct)
  case (m_rep_extra v hi p r w s)
  have "length (w @ s) < length ((v @ w) @ s)" using m_rep_extra.hyps(1) by (cases v) auto
  then show ?case using m_rep_extra.IH m_rep_extra.hyps(2)
    by (simp only: rx_ends.simps rep_ends_extra[of _ _ hi] snd_conv after_append(1) append_assoc)
      (metis snd_conv)
next
  case (m_rep_more p r v w s n hi)
  then show ?case by (simp only: rx_ends.simps rep_ends_more after_append(1) append_assoc) blast
next
  case (m_seq p r v w s t)
  then show ?case by force
next
  case (m_rep_done p hi r s)
  then show ?case by (simp add: rep_ends_extra[of _ _ hi])
qed (simp_all add: after_def)

lemma rep_ends_sound:
  assumes "\<And>p q. q \<in> set (rx_ends r p) \<Longrightarrow>
      \<exists>w. snd p = w @ snd q \<and> fst q = after w (fst p) \<and> rx_match (fst p) r w (snd q)"
  shows "q \<in> set (rep_ends (rx_ends r) lo hi p) \<Longrightarrow>
      \<exists>w. snd p = w @ snd q \<and> fst q = after w (fst p) \<and> rx_match (fst p) (Rep lo hi r) w (snd q)"
proof (induction "rx_ends r" lo hi p rule: rep_ends.induct)
  case (1 n hi p)
  then obtain m where m: "m \<in> set (rx_ends r p)"
    "q \<in> set (rep_ends (rx_ends r) n (less_one hi) m)" by (auto simp: rep_ends_more)
  from assms[OF m(1)] "1.hyps"[OF m(1) m(2)] show ?case
    using m_rep_more[of "fst p" r] by fastforce
next
  case (2 hi p)
  show ?case
  proof (cases "q = p")
    case True
    then show ?thesis by (auto intro: m_rep_done)
  next
    case False
    then obtain m where m: "hi \<noteq> Some 0" "m \<in> set (rx_ends r p)" "length (snd m) < length (snd p)"
      "q \<in> set (rep_ends (rx_ends r) 0 (less_one hi) m)"
      using "2.prems" rep_ends_extra[of q "rx_ends r" hi p] by blast
    from assms[OF m(2)] obtain v where v: "snd p = v @ snd m" "fst m = after v (fst p)"
      "rx_match (fst p) r v (snd m)" by auto
    have "v \<noteq> []" using v(1) m(3) by auto
    moreover obtain w where "snd m = w @ snd q" "fst q = after w (fst m)"
      "rx_match (fst m) (Rep 0 (less_one hi) r) w (snd q)"
      using "2.hyps"[OF m(1) _ m(4)] m(2,3) by fastforce
    ultimately have "rx_match (fst p) (Rep 0 hi r) (v @ w) (snd q)"
      using m_rep_extra[of v hi "fst p" r w "snd q"] v m(1) by simp
    then show ?thesis using v \<open>snd m = w @ snd q\<close> \<open>fst q = after w (fst m)\<close> by auto
  qed
qed

lemma rx_ends_sound: "q \<in> set (rx_ends r p) \<Longrightarrow>
    \<exists>w. snd p = w @ snd q \<and> fst q = after w (fst p) \<and> rx_match (fst p) r w (snd q)"
proof (induction r arbitrary: p q)
  case (Seq r t)
  then obtain m where "m \<in> set (rx_ends r p)" "q \<in> set (rx_ends t m)" by auto
  with Seq.IH(1)[of m p] Seq.IH(2)[of q m] show ?case by (auto intro: m_seq)
next
  case (Rep lo hi r)
  then show ?case using rep_ends_sound[of r q lo hi p] by auto
next
  case (One P)
  then show ?case by (cases "snd p") (auto intro: m_one split: if_splits)
next
  case (Lit w)
  then have "q = (after w (fst p), drop (length w) (snd p))" "js_startsWith (snd p) w"
    by (auto split: if_splits)
  then show ?case by (auto simp: startsWith_iff intro: m_lit)
next
  case (Alt r t)
  then consider "q \<in> set (rx_ends r p)" | "q \<in> set (rx_ends t p)" by auto
  then show ?case using Alt.IH[of q p] by cases (auto intro: m_alt1 m_alt2)
next
  case WordBoundary
  then show ?case by (auto intro: m_word split: if_splits)
next
  case LineStart
  then have "q = p" "fst p = None \<or> fst p = Some (CHR 0x0A) \<or> fst p = Some (CHR 0x0D)"
    by (simp_all split: if_splits)
  then show ?case using m_line[of "fst p" "snd p"] by auto
next
  case TextStart
  then show ?case using m_start[of "snd p"] by (auto split: if_splits)
next
  case TextEnd
  then show ?case using m_end[of "fst p"] by (auto split: if_splits)
qed

text \<open>\<open>test\<close> answers whether some stretch of the subject matches.\<close>

lemma rx_here: "rx_ends r (p, s) \<noteq> [] \<longleftrightarrow> (\<exists>w b. s = w @ b \<and> rx_match p r w b)"
proof
  assume "rx_ends r (p, s) \<noteq> []"
  then have "hd (rx_ends r (p, s)) \<in> set (rx_ends r (p, s))" by simp
  from rx_ends_sound[OF this] show "\<exists>w b. s = w @ b \<and> rx_match p r w b" by auto
next
  assume "\<exists>w b. s = w @ b \<and> rx_match p r w b"
  then obtain w b where "s = w @ b" "rx_match p r w b" by blast
  with rx_ends_complete[of p r w b] show "rx_ends r (p, s) \<noteq> []" by auto
qed

lemma ex_prefix: "(\<exists>a. c # s = a @ t \<and> Q (after a p)) \<longleftrightarrow>
    c # s = t \<and> Q p \<or> (\<exists>a. s = a @ t \<and> Q (after a (Some c)))"
proof -
  have "after (c # a) p = after a (Some c)" for a
    using after_append(1)[of "[c]" a p] by simp
  then show ?thesis by (auto simp: Cons_eq_append_conv)
qed

lemma rx_from_iff: "rx_from r p s \<longleftrightarrow> (\<exists>t a. s = a @ t \<and> rx_ends r (after a p, t) \<noteq> [])"
proof (induction r p s rule: rx_from.induct)
  case (2 r p c cs)
  have "(\<exists>a. c # cs = a @ t \<and> rx_ends r (after a p, t) \<noteq> []) \<longleftrightarrow>
      c # cs = t \<and> rx_ends r (p, t) \<noteq> [] \<or> (\<exists>a. cs = a @ t \<and> rx_ends r (after a (Some c), t) \<noteq> [])" for t
    using ex_prefix[where Q = "\<lambda>q. rx_ends r (q, t) \<noteq> []"] .
  then have "(\<exists>t a. c # cs = a @ t \<and> rx_ends r (after a p, t) \<noteq> []) \<longleftrightarrow>
      rx_ends r (p, c # cs) \<noteq> [] \<or> (\<exists>t a. cs = a @ t \<and> rx_ends r (after a (Some c), t) \<noteq> [])"
    by (simp only: ex_disj_distrib simp_thms)
  then show ?case using "2.IH" by simp
qed simp

lemma rx_test_iff: "rx_test r s \<longleftrightarrow> (\<exists>a w b. s = a @ w @ b \<and> rx_match (after a None) r w b)"
proof -
  have "(\<exists>t. s = a @ t \<and> (\<exists>w b. t = w @ b \<and> rx_match (after a None) r w b)) \<longleftrightarrow>
      (\<exists>w b. s = a @ w @ b \<and> rx_match (after a None) r w b)" for a
    by metis
  then show ?thesis unfolding rx_test_def rx_from_iff rx_here by metis
qed

lemma m_chars: "list_all P w \<Longrightarrow> n \<le> length w \<Longrightarrow> (\<forall>h. hi = Some h \<longrightarrow> length w \<le> h) \<Longrightarrow>
    rx_match p (Rep n hi (One P)) w s"
proof (induction w arbitrary: n hi p)
  case Nil
  then show ?case by (auto intro: m_rep_done)
next
  case (Cons c w)
  have one: "rx_match p (One P) [c] (w @ s)" using Cons.prems by (auto intro: m_one)
  show ?case
  proof (cases n)
    case 0
    have "rx_match (after [c] p) (Rep 0 (less_one hi) (One P)) w s"
      by (rule Cons.IH) (use Cons.prems in \<open>auto simp: less_one_def\<close>)
    then have "rx_match p (Rep 0 hi (One P)) ([c] @ w) s"
      by (intro m_rep_extra) (use one Cons.prems in auto)
    then show ?thesis by (simp add: 0)
  next
    case (Suc m)
    have "rx_match (after [c] p) (Rep m (less_one hi) (One P)) w s"
      by (rule Cons.IH) (use Cons.prems Suc in \<open>auto simp: less_one_def\<close>)
    then have "rx_match p (Rep (Suc m) hi (One P)) ([c] @ w) s"
      by (intro m_rep_more) (use one in auto)
    then show ?thesis by (simp add: Suc)
  qed
qed

end
