(* ===== verification/AuditLog.thy ===== *)
theory AuditLog
  imports HashChain Scrubber
begin

text \<open>
  \<open>packages/state-store/src/audit.ts\<close>: the append-only audit log. An append scrubs its
  input, then tries up to five transactions that read the client's last row and insert the
  next one; appends of many writers interleave at those two statements. Parameters: \<open>sha\<close>
  (SHA-256), \<open>num\<close> (text of a number), \<open>db\<close> (what a JSON column returns for the value
  written), and the random id and time of each insert.
\<close>

section \<open>The scrub gate\<close>

primrec val_of_json :: "json \<Rightarrow> jsval" where
  "val_of_json JNull = VNull"
| "val_of_json JUndef = VUndef"
| "val_of_json (JBool b) = VBool b"
| "val_of_json (JNum n) = VNum n"
| "val_of_json (JStr s) = VStr s"
| "val_of_json (JArr vs) = VArr None (map val_of_json vs)"
| "val_of_json (JObj kvs) = VObj None (map (map_prod id val_of_json) kvs)"

text \<open>Back from a redacted clone; what no clone contains goes to \<open>undefined\<close>.\<close>

primrec json_of_val :: "jsval \<Rightarrow> json" where
  "json_of_val VNull = JNull"
| "json_of_val VUndef = JUndef"
| "json_of_val (VBool b) = JBool b"
| "json_of_val (VNum n) = JNum n"
| "json_of_val (VBig i) = JUndef"
| "json_of_val (VStr s) = JStr s"
| "json_of_val (VDate t) = JStr t"
| "json_of_val VFun = JUndef"
| "json_of_val VSymbol = JUndef"
| "json_of_val (VError a n m) = JObj []"
| "json_of_val (VArr a vs) = JArr (map json_of_val vs)"
| "json_of_val (VObj a kvs) = JObj (map (map_prod id json_of_val) kvs)"

definition json_entries :: "json \<Rightarrow> (string \<times> json) list" where
  "json_entries v = (case v of JObj kvs \<Rightarrow> kvs | _ \<Rightarrow> [])"

definition js_unique :: "'a list \<Rightarrow> 'a list" where
  "js_unique xs = rev (remdups (rev xs))"

fun kind_str :: "violation_kind \<Rightarrow> string" where
  "kind_str sensitive_value = ''sensitive_value''"
| "kind_str secret_value = ''secret_value''"
| "kind_str code_body = ''code_body''"
| "kind_str oversize = ''oversize''"
| "kind_str unloggable = ''unloggable''"

definition SCRUB_FAILSAFE_SUMMARY :: string where
  "SCRUB_FAILSAFE_SUMMARY = ''[REDACTED]:audit-scrub-failsafe''"

definition audit_texts :: "jsval \<Rightarrow> jsval \<Rightarrow> jsval" where
  "audit_texts summary metadata = VObj None [(''summary'', summary), (''metadata'', metadata)]"

definition scrubAuditInput :: "audit_input \<Rightarrow> string \<times> (string \<times> json) list" where
  "scrubAuditInput inp =
     (let scrubbedMetadata = redactSensitive no_options (val_of_json (JObj (ai_metadata inp)));
          scrubbedSummary = redactSensitive no_options (VStr (ai_summary inp));
          violations = findLogViolations no_options (audit_texts scrubbedSummary scrubbedMetadata)
      in if violations \<noteq> []
         then (SCRUB_FAILSAFE_SUMMARY,
               [(''auditScrubFailsafe'', JBool True), (''violationCount'', JNum (of_nat (length violations))),
                (''violationKinds'', JArr (map (JStr \<circ> kind_str) (js_unique (map lv_kind violations))))])
         else (case scrubbedSummary of VStr s \<Rightarrow> s | _ \<Rightarrow> [], json_entries (json_of_val scrubbedMetadata)))"

section \<open>Rows\<close>

record audit_row =
  ar_id :: string
  ar_clientId :: string
  ar_sequence :: nat
  ar_scanId :: "string option"
  ar_actorType :: actor_type
  ar_actorId :: string
  ar_actorRole :: "role option"
  ar_action :: string
  ar_targetType :: "string option"
  ar_targetId :: "string option"
  ar_summary :: string
  ar_metadata :: json
  ar_prevHash :: string
  ar_hash :: string
  ar_at :: string

definition rowToEvent :: "audit_row \<Rightarrow> audit_event" where
  "rowToEvent r = \<lparr>ae_id = ar_id r, ae_clientId = ar_clientId r, ae_sequence = ar_sequence r,
     ae_scanId = ar_scanId r,
     ae_actor = \<lparr>ac_type = ar_actorType r, ac_id = ar_actorId r, ac_role = ar_actorRole r\<rparr>,
     ae_action = ar_action r, ae_targetType = ar_targetType r, ae_targetId = ar_targetId r,
     ae_summary = ar_summary r, ae_metadata = json_entries (ar_metadata r),
     ae_prevHash = ar_prevHash r, ae_hash = ar_hash r, ae_at = ar_at r\<rparr>"

definition client_rows :: "string \<Rightarrow> audit_row list \<Rightarrow> audit_row list" where
  "client_rows c rows = filter (\<lambda>r. ar_clientId r = c) rows"

text \<open>\<open>findFirst\<close> by descending sequence, \<open>findMany\<close> by ascending sequence.\<close>

definition last_row :: "string \<Rightarrow> audit_row list \<Rightarrow> audit_row option" where
  "last_row c rows = (case js_sort (\<lambda>a b. ar_sequence b \<le> ar_sequence a) (client_rows c rows) of
      [] \<Rightarrow> None | r # _ \<Rightarrow> Some r)"

definition fullChain :: "string \<Rightarrow> audit_row list \<Rightarrow> audit_event list" where
  "fullChain c rows = map rowToEvent (js_sort (\<lambda>a b. ar_sequence a \<le> ar_sequence b) (client_rows c rows))"

record audit_list_options =
  lo_scanId :: "string option"
  lo_fromSequence :: "nat option"
  lo_limit :: "nat option"

definition audit_list :: "string \<Rightarrow> audit_list_options \<Rightarrow> audit_row list \<Rightarrow> audit_event list" where
  "audit_list c opts rows =
     (let matching = filter (\<lambda>r. ar_clientId r = c
            \<and> (truthy (lo_scanId opts) \<longrightarrow> ar_scanId r = lo_scanId opts)
            \<and> (case lo_fromSequence opts of Some n \<Rightarrow> n \<noteq> 0 \<longrightarrow> n \<le> ar_sequence r | None \<Rightarrow> True)) rows;
          found = js_sort (\<lambda>a b. ar_sequence a \<le> ar_sequence b) matching
      in map rowToEvent (case lo_limit opts of Some n \<Rightarrow> if n = 0 then found else take n found | None \<Rightarrow> found))"

definition verifyChainDetailed ::
    "(string \<Rightarrow> string) \<Rightarrow> (rat \<Rightarrow> string) \<Rightarrow> string \<Rightarrow> audit_row list \<Rightarrow> chain_verification" where
  "verifyChainDetailed sha num c rows = verifyChainRecords sha num (fullChain c rows)"

section \<open>Appending\<close>

definition MAX_APPEND_ATTEMPTS :: nat where "MAX_APPEND_ATTEMPTS = 5"

datatype db_error = UniqueViolation | OtherDbError string | NoUniqueSequence

datatype append_result = Appended audit_event | AppendFailed db_error

text \<open>An append under way: its scrubbed input, the attempt and what the transaction has read.\<close>

record audit_append =
  ap_input :: audit_input
  ap_summary :: string
  ap_metadata :: "(string \<times> json) list"
  ap_attempt :: nat
  ap_read :: "audit_row option option"

record audit_sys =
  au_rows :: "audit_row list"
  au_appends :: "(nat, audit_append) jsmap"
  au_results :: "(nat, append_result) jsmap"

definition draft_event :: "audit_append \<Rightarrow> audit_row option \<Rightarrow> string \<Rightarrow> string \<Rightarrow> audit_event" where
  "draft_event ap prior ident at1 =
     (let inp = ap_input ap in
      \<lparr>ae_id = ident, ae_clientId = ai_clientId inp,
       ae_sequence = (case prior of None \<Rightarrow> 0 | Some r \<Rightarrow> ar_sequence r) + 1,
       ae_scanId = ai_scanId inp, ae_actor = ai_actor inp, ae_action = ai_action inp,
       ae_targetType = ai_targetType inp, ae_targetId = ai_targetId inp,
       ae_summary = ap_summary ap, ae_metadata = ap_metadata ap,
       ae_prevHash = (case prior of None \<Rightarrow> [] | Some r \<Rightarrow> ar_hash r), ae_hash = [], ae_at = at1\<rparr>)"

definition row_of_draft :: "(json \<Rightarrow> json) \<Rightarrow> audit_event \<Rightarrow> string \<Rightarrow> audit_row" where
  "row_of_draft db d h =
     \<lparr>ar_id = ae_id d, ar_clientId = ae_clientId d, ar_sequence = ae_sequence d, ar_scanId = ae_scanId d,
      ar_actorType = ac_type (ae_actor d), ar_actorId = ac_id (ae_actor d), ar_actorRole = ac_role (ae_actor d),
      ar_action = ae_action d, ar_targetType = ae_targetType d, ar_targetId = ae_targetId d,
      ar_summary = ae_summary d, ar_metadata = db (JObj (ae_metadata d)), ar_prevHash = ae_prevHash d,
      ar_hash = h, ar_at = ae_at d\<rparr>"

text \<open>The primary key and the unique index on client and sequence.\<close>

definition violates_unique :: "audit_row \<Rightarrow> audit_row list \<Rightarrow> bool" where
  "violates_unique r rows \<longleftrightarrow>
     list_ex (\<lambda>q. ar_id q = ar_id r \<or> (ar_clientId q = ar_clientId r \<and> ar_sequence q = ar_sequence r)) rows"

definition finish_append :: "nat \<Rightarrow> append_result \<Rightarrow> audit_sys \<Rightarrow> audit_sys" where
  "finish_append k res s = s\<lparr>au_appends := jm_delete k (au_appends s), au_results := jm_set k res (au_results s)\<rparr>"

text \<open>The handler of an exception in attempt \<open>ap_attempt\<close>, and the head of the next round.\<close>

definition append_catch :: "nat \<Rightarrow> audit_append \<Rightarrow> db_error \<Rightarrow> audit_sys \<Rightarrow> audit_sys" where
  "append_catch k ap err s =
     (if err = UniqueViolation \<and> ap_attempt ap < MAX_APPEND_ATTEMPTS - 1
      then if ap_attempt ap + 1 < MAX_APPEND_ATTEMPTS
           then s\<lparr>au_appends := jm_set k (ap\<lparr>ap_attempt := ap_attempt ap + 1, ap_read := None\<rparr>) (au_appends s)\<rparr>
           else finish_append k (AppendFailed NoUniqueSequence) s
      else finish_append k (AppendFailed err) s)"

definition append_begin :: "nat \<Rightarrow> audit_input \<Rightarrow> audit_sys \<Rightarrow> audit_sys" where
  "append_begin k inp s =
     (let (summary, metadata) = scrubAuditInput inp in
      s\<lparr>au_appends := jm_set k \<lparr>ap_input = inp, ap_summary = summary, ap_metadata = metadata,
          ap_attempt = 0, ap_read = None\<rparr> (au_appends s)\<rparr>)"

definition append_read :: "nat \<Rightarrow> audit_append \<Rightarrow> audit_sys \<Rightarrow> audit_sys" where
  "append_read k ap s = s\<lparr>au_appends :=
     jm_set k (ap\<lparr>ap_read := Some (last_row (ai_clientId (ap_input ap)) (au_rows s))\<rparr>) (au_appends s)\<rparr>"

definition append_create :: "(string \<Rightarrow> string) \<Rightarrow> (rat \<Rightarrow> string) \<Rightarrow> (json \<Rightarrow> json) \<Rightarrow> string \<Rightarrow> string
    \<Rightarrow> nat \<Rightarrow> audit_append \<Rightarrow> audit_row option \<Rightarrow> audit_sys \<Rightarrow> audit_sys" where
  "append_create sha num db ident at1 k ap prior s =
     (let d = draft_event ap prior ident at1;
          h = hashAuditEvent sha num d (ae_prevHash d);
          row = row_of_draft db d h
      in if violates_unique row (au_rows s) then append_catch k ap UniqueViolation s
         else finish_append k (Appended (rowToEvent row)) (s\<lparr>au_rows := au_rows s @ [row]\<rparr>))"

text \<open>
  One statement of one append. An error of the database other than the unique index
  (a serialization failure, a lost connection) can hit any statement and rolls back.
\<close>

datatype audit_act =
    BeginAppend nat audit_input
  | ReadLast nat
  | InsertNext nat string string
  | DbFailure nat string

fun audit_apply :: "(string \<Rightarrow> string) \<Rightarrow> (rat \<Rightarrow> string) \<Rightarrow> (json \<Rightarrow> json) \<Rightarrow> audit_act \<Rightarrow> audit_sys \<Rightarrow> audit_sys" where
  "audit_apply sha num db (BeginAppend k inp) s =
     (if jm_has (au_appends s) k \<or> jm_has (au_results s) k then s else append_begin k inp s)"
| "audit_apply sha num db (ReadLast k) s =
     (case jm_get (au_appends s) k of
        Some ap \<Rightarrow> if ap_read ap = None then append_read k ap s else s
      | None \<Rightarrow> s)"
| "audit_apply sha num db (InsertNext k ident at1) s =
     (case jm_get (au_appends s) k of
        Some ap \<Rightarrow> (case ap_read ap of
            Some prior \<Rightarrow> append_create sha num db ident at1 k ap prior s
          | None \<Rightarrow> s)
      | None \<Rightarrow> s)"
| "audit_apply sha num db (DbFailure k msg) s =
     (case jm_get (au_appends s) k of
        Some ap \<Rightarrow> append_catch k ap (OtherDbError msg) s
      | None \<Rightarrow> s)"

definition audit_start :: "audit_sys \<Rightarrow> bool" where
  "audit_start s \<longleftrightarrow> s = \<lparr>au_rows = [], au_appends = [], au_results = []\<rparr>"

inductive audit_step :: "(string \<Rightarrow> string) \<Rightarrow> (rat \<Rightarrow> string) \<Rightarrow> (json \<Rightarrow> json) \<Rightarrow> audit_sys \<Rightarrow> audit_sys \<Rightarrow> bool"
  for sha num db where
  astep: "audit_step sha num db s (audit_apply sha num db act s)"

section \<open>Lemmas\<close>

text \<open>What the store must give back for a JSON column: the value, its keys in any order.\<close>

definition json_store :: "(json \<Rightarrow> json) \<Rightarrow> bool" where
  "json_store db \<longleftrightarrow> (\<forall>v. reordered (store_json v) (db v))"

lemma json_store_ctext: "json_store db \<Longrightarrow> ctext num (db v) = ctext num v"
  using ctext_reordered[of "store_json v" "db v" num] ctext_store[of num v] by (simp add: json_store_def)

lemma json_store_obj: "json_store db \<Longrightarrow> db (JObj kvs) = JObj (json_entries (db (JObj kvs)))"
proof -
  assume "json_store db"
  then have "reordered (store_json (JObj kvs)) (db (JObj kvs))" unfolding json_store_def by blast
  then show ?thesis by (cases rule: reordered.cases) (auto simp: json_entries_def)
qed

lemma ctext_swap:
  assumes "ctext num v = ctext num w" and "v \<noteq> JUndef" and "w \<noteq> JUndef"
  shows "ctext num (JObj (xs @ (k, v) # ys)) = ctext num (JObj (xs @ (k, w) # ys))"
  using assms unfolding ctext_obj by (simp add: on_value_def)

lemma ctext_payload:
  assumes "ctext num (JObj m) = ctext num (JObj n)"
  shows "ctext num (auditHashPayload (e\<lparr>ae_metadata := m\<rparr>)) = ctext num (auditHashPayload (e\<lparr>ae_metadata := n\<rparr>))"
proof -
  have "auditHashPayload (e\<lparr>ae_metadata := l\<rparr>) = JObj
     ([(''id'', JStr (ae_id e)), (''clientId'', JStr (ae_clientId e)),
      (''sequence'', JNum (of_nat (ae_sequence e))), (''scanId'', j_opt (ae_scanId e)),
      (''actor'', actor_json (ae_actor e)), (''action'', JStr (ae_action e)),
      (''targetType'', j_opt (ae_targetType e)), (''targetId'', j_opt (ae_targetId e)),
      (''summary'', JStr (ae_summary e))] @ (''metadata'', JObj l) #
      [(''prevHash'', JStr (ae_prevHash e)), (''at'', JStr (ae_at e))])" for l
    by (simp add: auditHashPayload_def)
  then show ?thesis using ctext_swap[OF assms] by (simp only: json.distinct not_False_eq_True)
qed

text \<open>The event a row reads back as is the draft, but for its hash and the order of its metadata.\<close>

lemma rowToEvent_row:
  "rowToEvent (row_of_draft db d h) = d\<lparr>ae_metadata := json_entries (db (JObj (ae_metadata d))), ae_hash := h\<rparr>"
  by (simp add: rowToEvent_def row_of_draft_def)

lemma hashed_row:
  assumes "json_store db"
  shows "hashed num (rowToEvent (row_of_draft db d h)) = hashed num d"
proof -
  let ?n = "json_entries (db (JObj (ae_metadata d)))"
  have "ctext num (JObj ?n) = ctext num (JObj (ae_metadata d))"
    using json_store_ctext[OF assms] json_store_obj[OF assms] by metis
  from ctext_payload[OF this, of d]
  have "ctext num (auditHashPayload (d\<lparr>ae_metadata := ?n\<rparr>)) = ctext num (auditHashPayload d)" by simp
  moreover have "auditHashPayload (d\<lparr>ae_metadata := ?n, ae_hash := h\<rparr>) = auditHashPayload (d\<lparr>ae_metadata := ?n\<rparr>)"
    by (simp add: auditHashPayload_def)
  ultimately show ?thesis by (simp add: hashed_def canonicalJson_def rowToEvent_row)
qed

interpretation sequence_order: comparator "\<lambda>a b. ar_sequence a \<le> ar_sequence b"
  by unfold_locales auto

interpretation sequence_desc: comparator "\<lambda>a b. ar_sequence b \<le> ar_sequence a"
  by unfold_locales auto

lemma upt_last_elem:
  assumes "map f xs = [1..<1 + length xs]" and "x \<in> set xs" and "f x + 1 \<notin> f ` set xs"
  shows "x = last xs \<and> f x = length xs"
proof -
  have im: "f ` set xs = {1..<1 + length xs}" using assms(1) by (metis set_map set_upt)
  then have "f x \<in> {1..<1 + length xs}" "f x + 1 \<notin> {1..<1 + length xs}" using assms(2,3) by blast+
  then have fx: "f x = length xs" by simp
  have "xs \<noteq> []" using assms(2) by auto
  then have "f (last xs) = last (map f xs)" by (simp add: last_map)
  also have "\<dots> = length xs"
    unfolding assms(1) using \<open>xs \<noteq> []\<close> by (simp add: last_upt Suc_le_eq del: upt_Suc)
  finally have "f (last xs) = length xs" .
  moreover have "inj_on f (set xs)" using assms(1) by (metis distinct_map distinct_upt)
  moreover have "last xs \<in> set xs" using \<open>xs \<noteq> []\<close> by simp
  ultimately show ?thesis using fx assms(2) by (metis inj_onD)
qed

abbreviation chain :: "string \<Rightarrow> audit_row list \<Rightarrow> audit_event list" where
  "chain c rows \<equiv> map rowToEvent (client_rows c rows)"

text \<open>A client's rows, in the order they were inserted, are a verified chain.\<close>

definition chains_ok :: "(string \<Rightarrow> string) \<Rightarrow> (rat \<Rightarrow> string) \<Rightarrow> audit_row list \<Rightarrow> bool" where
  "chains_ok sha num rows \<longleftrightarrow> (\<forall>c. cv_ok (verify_from sha num [] 1 0 (chain c rows)))"

lemma chain_sequences:
  "chains_ok sha num rows \<Longrightarrow> map ar_sequence (client_rows c rows) = [1..<1 + length (client_rows c rows)]"
  using verify_sequences[of sha num "[]" 1 0 "chain c rows"]
  by (simp add: chains_ok_def comp_def rowToEvent_def del: upt_Suc)

lemma fullChain_chain: "chains_ok sha num rows \<Longrightarrow> fullChain c rows = chain c rows"
proof -
  assume "chains_ok sha num rows"
  then have "sorted_wrt (\<lambda>a b. ar_sequence a \<le> ar_sequence b) (client_rows c rows)"
    using chain_sequences[of sha num rows c] by (metis sorted_map sorted_upt)
  then show ?thesis by (simp add: fullChain_def sequence_order.sort_idem)
qed

lemma last_row_mem: "last_row c rows = Some r \<Longrightarrow> r \<in> set rows \<and> ar_clientId r = c"
proof -
  assume "last_row c rows = Some r"
  then have "r \<in> set (js_sort (\<lambda>a b. ar_sequence b \<le> ar_sequence a) (client_rows c rows))"
    by (cases "js_sort (\<lambda>a b. ar_sequence b \<le> ar_sequence a) (client_rows c rows)")
      (simp_all add: last_row_def del: set_js_sort)
  then show ?thesis by (auto simp: client_rows_def)
qed

text \<open>The insert that no unique index refuses extends the chain of its client.\<close>

lemma insert_extends_chain:
  assumes ok: "chains_ok sha num rows" and db: "json_store db"
    and prior: "\<forall>r. prior = Some r \<longrightarrow> r \<in> set rows \<and> ar_clientId r = ai_clientId (ap_input ap)"
    and d: "d = draft_event ap prior ident at1" and h: "h = hashAuditEvent sha num d (ae_prevHash d)"
    and free: "\<not> violates_unique (row_of_draft db d h) rows"
  shows "chains_ok sha num (rows @ [row_of_draft db d h])"
  unfolding chains_ok_def
proof
  fix c
  let ?row = "row_of_draft db d h" and ?rs = "client_rows c rows"
  have okc: "cv_ok (verify_from sha num [] 1 0 (chain c rows))" using ok by (simp add: chains_ok_def)
  have client: "ar_clientId ?row = ai_clientId (ap_input ap)"
    by (simp add: row_of_draft_def d draft_event_def Let_def)
  show "cv_ok (verify_from sha num [] 1 0 (chain c (rows @ [?row])))"
  proof (cases "ai_clientId (ap_input ap) = c")
    case True
    have seqs: "map ar_sequence ?rs = [1..<1 + length ?rs]" by (rule chain_sequences[OF ok])
    have fresh: "ar_sequence ?row \<notin> ar_sequence ` set ?rs"
      using free client True by (force simp: violates_unique_def list_ex_iff client_rows_def)
    have "ae_sequence d = 1 + length ?rs \<and> ae_prevHash d = last_hash [] (chain c rows)"
    proof (cases prior)
      case None
      have "?rs = []"
      proof (rule ccontr)
        assume "?rs \<noteq> []"
        then have "1 \<in> set (map ar_sequence ?rs)" unfolding seqs by (simp add: Suc_le_eq del: upt_Suc)
        then show False using fresh None by (simp add: row_of_draft_def d draft_event_def Let_def)
      qed
      then show ?thesis using None by (simp add: d draft_event_def Let_def)
    next
      case (Some r)
      then have mem: "r \<in> set ?rs" using prior True by (simp add: client_rows_def)
      have "ar_sequence r + 1 \<notin> ar_sequence ` set ?rs"
        using fresh Some by (simp add: row_of_draft_def d draft_event_def Let_def)
      from upt_last_elem[OF seqs mem this] have "r = last ?rs" "ar_sequence r = length ?rs" by auto
      moreover have "?rs \<noteq> []" using mem by auto
      ultimately show ?thesis
        using Some by (simp add: d draft_event_def Let_def last_hash_def last_map rowToEvent_def)
    qed
    moreover have "ae_hash (rowToEvent ?row) = sha (ae_prevHash d @ hashed num (rowToEvent ?row))"
      using hashed_row[OF db, of num d h]
      by (simp add: rowToEvent_row h hashAuditEvent_def computeAuditHash_def hashed_def)
    moreover have "ae_sequence (rowToEvent ?row) = ae_sequence d" "ae_prevHash (rowToEvent ?row) = ae_prevHash d"
      by (simp_all add: rowToEvent_row)
    ultimately show ?thesis using okc client True by (simp add: client_rows_def verify_snoc)
  next
    case False
    then show ?thesis using okc client by (simp add: client_rows_def)
  qed
qed

text \<open>What holds in every state the log can reach.\<close>

definition reads_ok :: "audit_sys \<Rightarrow> bool" where
  "reads_ok s \<longleftrightarrow> (\<forall>k ap r. jm_get (au_appends s) k = Some ap \<longrightarrow> ap_read ap = Some (Some r) \<longrightarrow>
     r \<in> set (au_rows s) \<and> ar_clientId r = ai_clientId (ap_input ap))"

definition appends_ok :: "audit_sys \<Rightarrow> bool" where
  "appends_ok s \<longleftrightarrow> (\<forall>k ap. jm_get (au_appends s) k = Some ap \<longrightarrow> ap_attempt ap < MAX_APPEND_ATTEMPTS
     \<and> (ap_summary ap, ap_metadata ap) = scrubAuditInput (ap_input ap))"

definition results_ok :: "audit_sys \<Rightarrow> bool" where
  "results_ok s \<longleftrightarrow> (\<forall>k res. jm_get (au_results s) k = Some res \<longrightarrow> res \<noteq> AppendFailed NoUniqueSequence
     \<and> (\<forall>e. res = Appended e \<longrightarrow> e \<in> rowToEvent ` set (au_rows s)))"

definition audit_inv :: "(string \<Rightarrow> string) \<Rightarrow> (rat \<Rightarrow> string) \<Rightarrow> (json \<Rightarrow> json) \<Rightarrow> audit_sys \<Rightarrow> bool" where
  "audit_inv sha num db s \<longleftrightarrow> (json_store db \<longrightarrow> chains_ok sha num (au_rows s))
     \<and> reads_ok s \<and> appends_ok s \<and> results_ok s"

lemmas audit_inv_defs = audit_inv_def reads_ok_def appends_ok_def results_ok_def

lemma catch_inv:
  assumes "audit_inv sha num db s" and "jm_get (au_appends s) k = Some ap" and "err \<noteq> NoUniqueSequence"
  shows "audit_inv sha num db (append_catch k ap err s)"
  using assms
  by (auto simp: append_catch_def finish_append_def audit_inv_defs MAX_APPEND_ATTEMPTS_def)

lemma begin_inv: "audit_inv sha num db s \<Longrightarrow> audit_inv sha num db (append_begin k inp s)"
  by (auto simp: append_begin_def audit_inv_defs MAX_APPEND_ATTEMPTS_def split: prod.splits)

lemma read_inv: "audit_inv sha num db s \<Longrightarrow> jm_get (au_appends s) k = Some ap
    \<Longrightarrow> audit_inv sha num db (append_read k ap s)"
  by (auto simp: append_read_def audit_inv_defs dest: last_row_mem)

lemma create_inv:
  assumes inv: "audit_inv sha num db s" and ap: "jm_get (au_appends s) k = Some ap" and read: "ap_read ap = Some prior"
  shows "audit_inv sha num db (append_create sha num db ident at1 k ap prior s)"
proof -
  define d where "d = draft_event ap prior ident at1"
  define h where "h = hashAuditEvent sha num d (ae_prevHash d)"
  show ?thesis
  proof (cases "violates_unique (row_of_draft db d h) (au_rows s)")
    case True
    then show ?thesis
      using catch_inv[OF inv ap, of UniqueViolation] by (simp add: append_create_def Let_def d_def h_def)
  next
    case False
    have "chains_ok sha num (au_rows s @ [row_of_draft db d h])" if "json_store db"
      by (rule insert_extends_chain[OF _ that _ d_def h_def False])
        (use inv ap read that in \<open>auto simp: audit_inv_defs\<close>)
    moreover have "append_create sha num db ident at1 k ap prior s =
        finish_append k (Appended (rowToEvent (row_of_draft db d h))) (s\<lparr>au_rows := au_rows s @ [row_of_draft db d h]\<rparr>)"
      using False by (simp add: append_create_def Let_def d_def h_def)
    ultimately show ?thesis
      using inv by (auto simp: finish_append_def audit_inv_defs)
  qed
qed

lemma apply_inv: "audit_inv sha num db s \<Longrightarrow> audit_inv sha num db (audit_apply sha num db act s)"
  by (cases act) (auto simp: begin_inv read_inv create_inv catch_inv split: option.splits)

interpretation audit_log: step_invariant audit_start "audit_step sha num db" "audit_inv sha num db" for sha num db
proof unfold_locales
  fix s assume "audit_start s"
  then show "audit_inv sha num db s"
    by (simp add: audit_start_def audit_inv_defs chains_ok_def client_rows_def)
next
  fix s t assume "audit_inv sha num db s" and "audit_step sha num db s t"
  then show "audit_inv sha num db t" by (auto elim: audit_step.cases intro: apply_inv)
qed

text \<open>The table only grows.\<close>

lemma catch_rows [simp]: "au_rows (append_catch k ap err s) = au_rows s"
  by (simp add: append_catch_def finish_append_def)

lemma step_rows: "audit_step sha num db s t \<Longrightarrow> \<exists>more. au_rows t = au_rows s @ more"
proof (erule audit_step.cases)
  fix s' act assume "s = s'" "t = audit_apply sha num db act s'"
  then show ?thesis
    by (cases act) (auto simp: append_begin_def append_read_def append_create_def finish_append_def Let_def
        split: option.splits prod.splits)
qed

lemma run_rows: "(audit_step sha num db)\<^sup>*\<^sup>* s t \<Longrightarrow> \<exists>more. au_rows t = au_rows s @ more"
  by (induction rule: rtranclp_induct) (auto dest!: step_rows)

lemma last_row_chain:
  assumes "chains_ok sha num rows"
  shows "last_row c rows = (if client_rows c rows = [] then None else Some (last (client_rows c rows)))"
proof (cases "client_rows c rows = []")
  case False
  let ?rs = "client_rows c rows" and ?s = "js_sort (\<lambda>a b. ar_sequence b \<le> ar_sequence a) (client_rows c rows)"
  obtain r qs where r: "?s = r # qs" using False by (metis length_js_sort length_0_conv neq_Nil_conv)
  have seqs: "map ar_sequence ?rs = [1..<1 + length ?rs]" by (rule chain_sequences[OF assms])
  have mem: "r \<in> set ?rs" using r set_js_sort[of _ ?rs] by (metis list.set_intros(1))
  have top: "ar_sequence q \<le> ar_sequence r" if "q \<in> set ?rs" for q
    using sequence_desc.sort_sorted[of ?rs] r that set_js_sort[of _ ?rs] by (metis order_refl set_ConsD sorted_wrt.simps(2))
  have "ar_sequence r + 1 \<notin> ar_sequence ` set ?rs" using top by fastforce
  from upt_last_elem[OF seqs mem this] show ?thesis using False r by (simp add: last_row_def)
qed (simp add: last_row_def)

text \<open>The values JSON text denotes; the redactor stays within them.\<close>

fun jsonish :: "jsval \<Rightarrow> bool" where
  "jsonish (VArr a vs) = (a = None \<and> list_all jsonish vs)"
| "jsonish (VObj a kvs) = (a = None \<and> list_all (\<lambda>kv. jsonish (snd kv)) kvs)"
| "jsonish (VNum n) = True"
| "jsonish (VStr s) = True"
| "jsonish (VBool b) = True"
| "jsonish VNull = True"
| "jsonish VUndef = True"
| "jsonish v = False"

lemma jsonish_val: "jsonish (val_of_json v)" "plain (val_of_json v)"
  by (induction v) (auto simp: list_all_iff)

lemma val_json_val: "jsonish w \<Longrightarrow> val_of_json (json_of_val w) = w"
  by (induction w rule: jsonish.induct) (auto simp: list_all_iff intro!: map_idI)

lemma redact_jsonish:
  "jsonish v \<Longrightarrow> jsonish (fst (redactWalk o1 sens d v seen))"
  "list_all jsonish vs \<Longrightarrow> list_all jsonish (fst (redact_items o1 sens d vs seen))"
  "list_all (\<lambda>kv. jsonish (snd kv)) kvs \<Longrightarrow> list_all (\<lambda>kv. jsonish (snd kv)) (fst (redact_entries o1 sens d kvs seen))"
  by (induction o1 sens d v seen and o1 sens d vs seen and o1 sens d kvs seen
      rule: redactWalk_redact_items_redact_entries.induct)
    (auto split: prod.splits)

lemma audit_keys_not_sensitive:
  "\<not> so_sensitiveKey (resolve_opts no_options) ''summary'' \<and> \<not> so_sensitiveKey (resolve_opts no_options) ''metadata''"
  by code_simp

lemma scrubbed_texts_pass:
  "findLogViolations no_options (audit_texts (redactSensitive no_options (VStr s))
     (redactSensitive no_options (val_of_json m))) = []"
proof -
  let ?o = "resolve_opts no_options"
  have "walk ?o path False 1 (redactSensitive no_options (VStr s)) seen = ([], seen)" for path seen
    by (simp add: redactSensitive_def)
  moreover have "walk ?o path False 1 (redactSensitive no_options (val_of_json m)) seen = ([], seen)" for path seen
    unfolding redactSensitive_def by (rule redacted_passes(1)) (simp_all add: jsonish_val)
  ultimately show ?thesis
    using audit_keys_not_sensitive
    by (simp add: findLogViolations_def audit_texts_def addr_seen_def addr_mark_def HARD_MAX_DEPTH_def)
qed

lemma redact_object: "\<exists>kvs. redactSensitive opts (VObj None m) = VObj None kvs"
  by (simp add: redactSensitive_def addr_seen_def HARD_MAX_DEPTH_def split: prod.split)

lemma redact_text: "redactSensitive opts (VStr s) = VStr (redactString (resolve_opts opts) s False)"
  by (simp add: redactSensitive_def)

section \<open>Properties\<close>

text \<open>The scrub gate of the audit log: for every input, the fail-safe is not needed, and
  the summary and metadata handed to the hash and the insert are the redacted ones, in which
  the verifier finds nothing.\<close>

lemma scrub_gate_holds:
  "\<exists>summary metadata. scrubAuditInput inp = (summary, metadata)
     \<and> VStr summary = redactSensitive no_options (VStr (ai_summary inp))
     \<and> val_of_json (JObj metadata) = redactSensitive no_options (val_of_json (JObj (ai_metadata inp)))
     \<and> findLogViolations no_options (audit_texts (VStr summary) (val_of_json (JObj metadata))) = []"
proof -
  let ?s = "redactString (resolve_opts no_options) (ai_summary inp) False"
  let ?w = "redactSensitive no_options (val_of_json (JObj (ai_metadata inp)))"
  have "jsonish ?w" unfolding redactSensitive_def by (rule redact_jsonish(1)) (rule jsonish_val)
  then have trip: "val_of_json (json_of_val ?w) = ?w" by (rule val_json_val)
  obtain kvs where "?w = VObj None kvs" using redact_object[of no_options] by auto
  then have obj: "json_of_val ?w = JObj (json_entries (json_of_val ?w))" by (simp add: json_entries_def)
  have pass: "findLogViolations no_options (audit_texts (VStr ?s) ?w) = []"
    using scrubbed_texts_pass[of "ai_summary inp" "JObj (ai_metadata inp)"] by (simp add: redact_text)
  have "scrubAuditInput inp = (?s, json_entries (json_of_val ?w))"
    using pass by (simp add: scrubAuditInput_def Let_def redact_text)
  moreover have "val_of_json (JObj (json_entries (json_of_val ?w))) = ?w" using obj trip by metis
  ultimately show ?thesis using pass by (simp add: redact_text)
qed

text \<open>C31. Whatever appends run, however their reads and inserts interleave, whichever fail: in
  every state the audit log reaches, the chain of every client verifies and its sequence
  numbers are one to its length, without gaps.\<close>

theorem audit_chain_always_verifies:
  assumes "reach audit_start (audit_step sha num db) s" and "json_store db"
  shows "cv_ok (verifyChainDetailed sha num c (au_rows s))
       \<and> map ae_sequence (fullChain c (au_rows s)) = [1..<1 + length (fullChain c (au_rows s))]"
proof -
  have ok: "chains_ok sha num (au_rows s)"
    using audit_log.reachable_inv[OF assms(1)] assms(2) by (simp add: audit_inv_def)
  then have "cv_ok (verify_from sha num [] 1 0 (fullChain c (au_rows s)))"
    by (simp add: fullChain_chain[OF ok]) (simp add: chains_ok_def)
  then show ?thesis using verify_sequences by (auto simp: verifyChainDetailed_def verifyChainRecords_def)
qed

definition ex_audit_input :: audit_input where
  "ex_audit_input = \<lparr>ai_clientId = ''acme'', ai_scanId = Some ''s1'',
     ai_actor = \<lparr>ac_type = User, ac_id = ''u1'', ac_role = Some Operator\<rparr>, ai_action = ''scan.created'',
     ai_targetType = None, ai_targetId = None, ai_summary = ''created'', ai_metadata = [(''mode'', JStr ''full'')]\<rparr>"

text \<open>Two appends that read the same last row; the second insert conflicts and is retried.\<close>

definition ex_audit_acts :: "audit_act list" where
  "ex_audit_acts = [BeginAppend 0 ex_audit_input, BeginAppend 1 ex_audit_input, ReadLast 0, ReadLast 1,
     InsertNext 0 ''e0'' ''t0'', InsertNext 1 ''e1'' ''t1'', ReadLast 1, InsertNext 1 ''e2'' ''t2'']"

definition audit_run :: "(string \<Rightarrow> string) \<Rightarrow> (rat \<Rightarrow> string) \<Rightarrow> (json \<Rightarrow> json) \<Rightarrow> audit_act list \<Rightarrow> audit_sys" where
  "audit_run sha num db acts =
     fold (audit_apply sha num db) acts \<lparr>au_rows = [], au_appends = [], au_results = []\<rparr>"

lemma audit_run_reach: "reach audit_start (audit_step sha num db) (audit_run sha num db acts)"
proof (induction acts rule: rev_induct)
  case Nil
  show ?case by (auto simp: audit_run_def audit_start_def intro: reach_start)
next
  case (snoc act acts)
  then show ?case by (auto simp: audit_run_def intro: reach_step astep)
qed

lemma json_store_plain: "json_store store_json"
  by (simp add: json_store_def ro_refl)

lemma ex_audit_rows:
  "map (\<lambda>r. (ar_id r, ar_sequence r)) (au_rows (audit_run rev (\<lambda>n. ''1'') store_json ex_audit_acts)) = [(''e0'', 1), (''e2'', 2)]"
  by code_simp

lemma audit_chain_always_verifies_witness:
  "cv_ok (verifyChainDetailed rev (\<lambda>n. ''1'') ''acme'' (au_rows (audit_run rev (\<lambda>n. ''1'') store_json ex_audit_acts)))
   \<and> map (\<lambda>r. (ar_id r, ar_sequence r)) (au_rows (audit_run rev (\<lambda>n. ''1'') store_json ex_audit_acts)) = [(''e0'', 1), (''e2'', 2)]"
  using audit_chain_always_verifies[OF audit_run_reach json_store_plain] ex_audit_rows by blast


lemma audit_fold_steps: "(audit_step sha num db)\<^sup>*\<^sup>* s (fold (audit_apply sha num db) acts s)"
  by (induction acts arbitrary: s) (auto intro: converse_rtranclp_into_rtranclp astep)

lemma audit_run_steps: "(audit_step sha num db)\<^sup>*\<^sup>* (audit_run sha num db acts) (audit_run sha num db (acts @ acts2))"
  by (simp add: audit_run_def audit_fold_steps)

definition is_appended :: "append_result option \<Rightarrow> bool" where
  "is_appended r = (case r of Some (Appended e) \<Rightarrow> True | _ \<Rightarrow> False)"

lemma ex_audit_appended:
  "is_appended (jm_get (au_results (audit_run rev (\<lambda>n. ''1'') store_json (take 5 ex_audit_acts))) 0)"
  by code_simp


text \<open>An attempt no other writer gets in between succeeds: reading the last row and
  inserting with an unused id appends exactly one event, with the next sequence number, the
  previous hash of the chain's end and the scrubbed summary, and returns it.\<close>

lemma uncontended_attempt_appends:
  assumes "reach audit_start (audit_step sha num db) s" and "json_store db"
    and "jm_get (au_appends s) k = Some ap" and "ap_read ap = None"
    and "ident \<notin> ar_id ` set (au_rows s)" and "c = ai_clientId (ap_input ap)"
    and "t = audit_apply sha num db (InsertNext k ident at1) (audit_apply sha num db (ReadLast k) s)"
  shows "\<exists>e. jm_get (au_results t) k = Some (Appended e)
     \<and> fullChain c (au_rows t) = fullChain c (au_rows s) @ [e]
     \<and> ae_sequence e = length (fullChain c (au_rows s)) + 1
     \<and> ae_prevHash e = last_hash [] (fullChain c (au_rows s))
     \<and> (ae_summary e, ae_action e) = (fst (scrubAuditInput (ap_input ap)), ai_action (ap_input ap))
     \<and> json_entries (db (JObj (snd (scrubAuditInput (ap_input ap))))) = ae_metadata e"
proof -
  have inv: "audit_inv sha num db s" by (rule audit_log.reachable_inv[OF assms(1)])
  let ?u = "audit_apply sha num db (ReadLast k) s" and ?rs = "client_rows c (au_rows s)"
  have ok: "chains_ok sha num (au_rows s)" using inv assms(2) by (simp add: audit_inv_def)
  define prior where "prior = (if ?rs = [] then None else Some (last ?rs))"
  have u: "?u = s\<lparr>au_appends := jm_set k (ap\<lparr>ap_read := Some prior\<rparr>) (au_appends s)\<rparr>"
    using assms(3,4,6) last_row_chain[OF ok, of c] by (simp add: append_read_def prior_def)
  define d where "d = draft_event (ap\<lparr>ap_read := Some prior\<rparr>) prior ident at1"
  define h where "h = hashAuditEvent sha num d (ae_prevHash d)"
  have scrubbed: "scrubAuditInput (ap_input ap) = (ap_summary ap, ap_metadata ap)"
    using inv assms(3) by (metis appends_ok_def audit_inv_def)
  have seqs: "map ar_sequence ?rs = [1..<1 + length ?rs]" by (rule chain_sequences[OF ok])
  have seq: "ae_sequence d = length ?rs + 1"
  proof (cases "?rs = []")
    case False
    then have "ar_sequence (last ?rs) = last (map ar_sequence ?rs)" by (simp add: last_map)
    also have "\<dots> = length ?rs" unfolding seqs using False by (simp add: last_upt Suc_le_eq del: upt_Suc)
    finally show ?thesis using False by (simp add: d_def draft_event_def prior_def Let_def)
  qed (simp add: d_def draft_event_def prior_def Let_def)
  have "\<not> violates_unique (row_of_draft db d h) (au_rows s)"
  proof
    assume "violates_unique (row_of_draft db d h) (au_rows s)"
    then obtain q where q: "q \<in> set (au_rows s)" "ar_clientId q = c" "ar_sequence q = length ?rs + 1"
      using assms(5,6) seq
      by (auto simp: violates_unique_def list_ex_iff row_of_draft_def d_def draft_event_def Let_def)
    then have "length ?rs + 1 \<in> set (map ar_sequence ?rs)" by (force simp: client_rows_def)
    then show False unfolding seqs by simp
  qed
  then have t: "t = finish_append k (Appended (rowToEvent (row_of_draft db d h)))
      (?u\<lparr>au_rows := au_rows s @ [row_of_draft db d h]\<rparr>)"
    unfolding assms(7) u by (simp add: append_create_def Let_def d_def h_def)
  have "audit_inv sha num db t" unfolding assms(7) by (intro apply_inv inv)
  then have okt: "chains_ok sha num (au_rows t)" using assms(2) by (simp add: audit_inv_def)
  have rows: "au_rows t = au_rows s @ [row_of_draft db d h]" by (simp add: t finish_append_def)
  have client: "ar_clientId (row_of_draft db d h) = c"
    by (simp add: row_of_draft_def d_def draft_event_def Let_def assms(6))
  let ?e = "rowToEvent (row_of_draft db d h)"
  have "fullChain c (au_rows t) = fullChain c (au_rows s) @ [?e]"
    unfolding fullChain_chain[OF ok] fullChain_chain[OF okt] by (simp add: rows client_rows_def client)
  moreover have "ae_prevHash ?e = last_hash [] (fullChain c (au_rows s))"
    by (simp add: fullChain_chain[OF ok] rowToEvent_row d_def draft_event_def prior_def Let_def last_hash_def
        last_map) (simp add: rowToEvent_def)
  moreover have "ae_sequence ?e = length (fullChain c (au_rows s)) + 1"
    by (simp add: fullChain_chain[OF ok] rowToEvent_row seq)
  moreover have "ae_summary ?e = fst (scrubAuditInput (ap_input ap))" "ae_action ?e = ai_action (ap_input ap)"
    "ae_metadata ?e = json_entries (db (JObj (snd (scrubAuditInput (ap_input ap)))))"
    by (simp_all add: rowToEvent_row scrubbed) (simp_all add: d_def draft_event_def Let_def)
  moreover have "jm_get (au_results t) k = Some (Appended ?e)" by (simp add: t finish_append_def)
  ultimately show ?thesis by auto
qed

lemma ex_audit_begun:
  "jm_get (au_appends (audit_run rev (\<lambda>n. ''1'') store_json [BeginAppend 0 ex_audit_input])) 0
     = Some \<lparr>ap_input = ex_audit_input, ap_summary = ''created'', ap_metadata = [(''mode'', JStr ''full'')],
             ap_attempt = 0, ap_read = None\<rparr>
   \<and> au_rows (audit_run rev (\<lambda>n. ''1'') store_json [BeginAppend 0 ex_audit_input]) = []"
  by code_simp

lemma uncontended_attempt_appends_witness:
  "\<exists>e. jm_get (au_results (audit_apply rev (\<lambda>n. ''1'') store_json (InsertNext 0 ''e0'' ''t0'')
         (audit_apply rev (\<lambda>n. ''1'') store_json (ReadLast 0)
           (audit_run rev (\<lambda>n. ''1'') store_json [BeginAppend 0 ex_audit_input])))) 0 = Some (Appended e)"
proof -
  have "jm_get (au_appends (audit_run rev (\<lambda>n. ''1'') store_json [BeginAppend 0 ex_audit_input])) 0
     = Some \<lparr>ap_input = ex_audit_input, ap_summary = ''created'', ap_metadata = [(''mode'', JStr ''full'')],
             ap_attempt = 0, ap_read = None\<rparr>" using ex_audit_begun by blast
  from uncontended_attempt_appends[OF audit_run_reach json_store_plain this _ _ refl refl, of "''e0''" "''t0''"]
  show ?thesis using ex_audit_begun by auto
qed

end
