(* ===== verification/AuditVerify.thy ===== *)
theory AuditVerify
  imports AuditLog
begin

text \<open>
  \<open>packages/security/src/audit-verify.ts\<close> and its command line: the verification of an
  exported log, per client; and the exporters of \<open>packages/state-store/src/audit.ts\<close>, with a
  reader of comma-separated values as the reference their text is checked against. The text of
  the JSON export is not modelled, only the events in it.
\<close>

section \<open>Verification of an export\<close>

record client_chain_result =
  cc_clientId :: string
  cc_count :: nat
  cc_ok :: bool
  cc_brokenAt :: "nat option"
  cc_reason :: "string option"
  cc_firstSequence :: "nat option"
  cc_lastSequence :: "nat option"

record audit_verify_report =
  vr_ok :: bool
  vr_totalEvents :: nat
  vr_clients :: "client_chain_result list"

text \<open>The grouping loop: an event of another client than the one asked for is passed over.\<close>

definition group_event :: "string option \<Rightarrow> audit_event \<Rightarrow> (string, audit_event list) jsmap
    \<Rightarrow> (string, audit_event list) jsmap" where
  "group_event client e groups =
     (if truthy client \<and> Some (ae_clientId e) \<noteq> client then groups
      else jm_set (ae_clientId e) ((case jm_get groups (ae_clientId e) of None \<Rightarrow> [] | Some es \<Rightarrow> es) @ [e]) groups)"

definition group_events :: "string option \<Rightarrow> audit_event list \<Rightarrow> (string, audit_event list) jsmap" where
  "group_events client es = fold (group_event client) es []"

definition by_sequence :: "audit_event list \<Rightarrow> audit_event list" where
  "by_sequence es = js_sort (\<lambda>a b. ae_sequence a \<le> ae_sequence b) es"

definition client_result :: "(string \<Rightarrow> string) \<Rightarrow> (rat \<Rightarrow> string) \<Rightarrow> string \<times> audit_event list \<Rightarrow> client_chain_result" where
  "client_result sha num g =
     (let sorted1 = by_sequence (snd g); res = verifyChainRecords sha num sorted1 in
      \<lparr>cc_clientId = fst g, cc_count = length sorted1, cc_ok = cv_ok res, cc_brokenAt = cv_brokenAt res,
       cc_reason = cv_reason res,
       cc_firstSequence = (if sorted1 = [] then None else Some (ae_sequence (hd sorted1))),
       cc_lastSequence = (if sorted1 = [] then None else Some (ae_sequence (last sorted1)))\<rparr>)"

definition missing_client :: "string \<Rightarrow> client_chain_result" where
  "missing_client c = \<lparr>cc_clientId = c, cc_count = 0, cc_ok = False, cc_brokenAt = None,
     cc_reason = Some ''no events for client'', cc_firstSequence = None, cc_lastSequence = None\<rparr>"

text \<open>\<open>locale\<close> is the order of \<open>localeCompare\<close>; it only orders the report.\<close>

definition verifyAuditEvents :: "(string \<Rightarrow> string) \<Rightarrow> (rat \<Rightarrow> string) \<Rightarrow> (string \<Rightarrow> string \<Rightarrow> bool)
    \<Rightarrow> string option \<Rightarrow> audit_event list \<Rightarrow> audit_verify_report" where
  "verifyAuditEvents sha num locale_le client es =
     (let groups = group_events client es;
          results = map (client_result sha num) groups;
          absent = (case client of Some c \<Rightarrow> c \<noteq> [] \<and> \<not> jm_has groups c | None \<Rightarrow> False);
          clients = results @ (if absent then [missing_client (the client)] else [])
      in \<lparr>vr_ok = list_all cc_ok results \<and> \<not> absent,
          vr_totalEvents = sum_list (map cc_count results),
          vr_clients = js_sort (\<lambda>a b. locale_le (cc_clientId a) (cc_clientId b)) clients\<rparr>)"

section \<open>The command line\<close>

record cli_args =
  ca_file :: "string option"
  ca_client :: "string option"
  ca_json :: bool
  ca_help :: bool

fun parseArgs :: "string list \<Rightarrow> cli_args \<Rightarrow> string + cli_args" where
  "parseArgs [] args = Inr args"
| "parseArgs (a # as) args =
     (if a = ''--file'' \<or> a = ''--client'' then
        (case as of
           [] \<Rightarrow> Inl (''option '' @ a @ '' requires a value'')
         | v # rest \<Rightarrow> parseArgs rest (if a = ''--file'' then args\<lparr>ca_file := Some v\<rparr> else args\<lparr>ca_client := Some v\<rparr>))
      else if a = ''--json'' then parseArgs as (args\<lparr>ca_json := True\<rparr>)
      else if a = ''-h'' \<or> a = ''--help'' then parseArgs as (args\<lparr>ca_help := True\<rparr>)
      else Inl (''unknown option: '' @ a))"

datatype exit_code = EXIT_OK | CHAIN_BROKEN | USAGE | INPUT_ERROR | RUNTIME_ERROR

fun SEC_EXIT :: "exit_code \<Rightarrow> nat" where
  "SEC_EXIT EXIT_OK = 0"
| "SEC_EXIT CHAIN_BROKEN = 1"
| "SEC_EXIT USAGE = 2"
| "SEC_EXIT INPUT_ERROR = 3"
| "SEC_EXIT RUNTIME_ERROR = 4"

text \<open>
  \<open>source\<close> is what reading and parsing the file, or standard input, gives: an
  \<open>AuditInputError\<close> or the validated events.
\<close>

definition cli_run :: "(string \<Rightarrow> string) \<Rightarrow> (rat \<Rightarrow> string) \<Rightarrow> (string \<Rightarrow> string \<Rightarrow> bool)
    \<Rightarrow> (string option \<Rightarrow> string + audit_event list) \<Rightarrow> string list \<Rightarrow> exit_code" where
  "cli_run sha num locale_le source argv =
     (case parseArgs argv \<lparr>ca_file = None, ca_client = None, ca_json = False, ca_help = False\<rparr> of
        Inl e \<Rightarrow> USAGE
      | Inr args \<Rightarrow>
          if ca_help args then EXIT_OK
          else case source (if truthy (ca_file args) then ca_file args else None) of
              Inl e \<Rightarrow> INPUT_ERROR
            | Inr events \<Rightarrow>
                let report = verifyAuditEvents sha num locale_le
                      (if truthy (ca_client args) then ca_client args else None) events
                in if vr_ok report then EXIT_OK else CHAIN_BROKEN)"

section \<open>Comma-separated values\<close>

definition csvCell :: "string \<Rightarrow> string" where
  "csvCell s =
     (if list_ex (\<lambda>c. c = CHR 0x22 \<or> c = CHR '','' \<or> c = CHR 0x0A \<or> c = CHR 0x0D) s
      then [CHR 0x22] @ concat (map (\<lambda>c. if c = CHR 0x22 then [CHR 0x22, CHR 0x22] else [c]) s) @ [CHR 0x22]
      else s)"

definition csv_header :: "string list" where
  "csv_header = [''sequence'', ''at'', ''action'', ''actorType'', ''actorId'', ''actorRole'', ''scanId'',
     ''targetType'', ''targetId'', ''summary'', ''prevHash'', ''hash'', ''metadata'']"

definition opt_text :: "string option \<Rightarrow> string" where
  "opt_text o1 = (case o1 of None \<Rightarrow> [] | Some s \<Rightarrow> s)"

definition event_cells :: "(rat \<Rightarrow> string) \<Rightarrow> audit_event \<Rightarrow> string list" where
  "event_cells num e =
     [nat_str (ae_sequence e), ae_at e, ae_action e, actor_str (ac_type (ae_actor e)), ac_id (ae_actor e),
      opt_text (map_option role_str (ac_role (ae_actor e))), opt_text (ae_scanId e), opt_text (ae_targetType e),
      opt_text (ae_targetId e), ae_summary e, ae_prevHash e, ae_hash e,
      opt_text (json_text num (JObj (ae_metadata e)))]"

definition exportCsv :: "(rat \<Rightarrow> string) \<Rightarrow> string \<Rightarrow> audit_row list \<Rightarrow> string" where
  "exportCsv num c rows =
     js_join [CHR 0x0A] (js_join '','' csv_header #
       map (\<lambda>e. js_join '','' (map csvCell (event_cells num e))) (fullChain c rows))"

text \<open>The reader: a quoted cell ends at a quote that is not doubled.\<close>

fun csv_quoted :: "string \<Rightarrow> string \<times> string" where
  "csv_quoted [] = ([], [])"
| "csv_quoted [c] = (if c = CHR 0x22 then ([], []) else ([c], []))"
| "csv_quoted (c # d # s) =
     (if c = CHR 0x22
      then if d = CHR 0x22 then (CHR 0x22 # fst (csv_quoted s), snd (csv_quoted s)) else ([], d # s)
      else (c # fst (csv_quoted (d # s)), snd (csv_quoted (d # s))))"

definition plain_csv_char :: "char \<Rightarrow> bool" where
  "plain_csv_char c \<longleftrightarrow> c \<noteq> CHR '','' \<and> c \<noteq> CHR 0x0A"

definition csv_field :: "string \<Rightarrow> string \<times> string" where
  "csv_field s = (if s \<noteq> [] \<and> hd s = CHR 0x22 then csv_quoted (tl s)
     else (takeWhile plain_csv_char s, dropWhile plain_csv_char s))"

definition on_first :: "('a \<Rightarrow> 'a) \<Rightarrow> 'a list \<Rightarrow> 'a list" where
  "on_first f xs = (case xs of [] \<Rightarrow> [] | x # ys \<Rightarrow> f x # ys)"

lemma csv_quoted_length: "length (snd (csv_quoted s)) \<le> length s"
  by (induction s rule: csv_quoted.induct) auto

lemma csv_field_length: "length (snd (csv_field s)) \<le> length s"
  using csv_quoted_length[of "tl s"] length_dropWhile_le[of plain_csv_char s]
  by (auto simp: csv_field_def intro: le_trans)

function csv_read :: "string \<Rightarrow> string list list" where
  "csv_read s =
     (let f = fst (csv_field s); rest = snd (csv_field s)
      in case rest of
           [] \<Rightarrow> [[f]]
         | c # t \<Rightarrow> if c = CHR '','' then on_first ((#) f) (csv_read t) else [f] # csv_read t)"
  by auto

termination
proof (relation "measure length")
  fix s f rest c t
  assume "f = fst (csv_field s)" "rest = snd (csv_field s)" "rest = c # t"
  then have "length (c # t) \<le> length s" using csv_field_length[of s] by metis
  then have "(t, s) \<in> measure length" by simp
  then show "(t, s) \<in> measure length" "(t, s) \<in> measure length" by blast+
qed simp

declare csv_read.simps [simp del]

section \<open>Lemmas\<close>

definition cell_end :: "string \<Rightarrow> bool" where
  "cell_end t \<longleftrightarrow> t = [] \<or> \<not> plain_csv_char (hd t)"

lemma cell_end_cases: "cell_end t \<longleftrightarrow> t = [] \<or> (\<exists>r. t = CHR '','' # r) \<or> (\<exists>r. t = CHR 0x0A # r)"
  by (cases t) (auto simp: cell_end_def plain_csv_char_def)

lemma csv_quoted_other: "c \<noteq> CHR 0x22 \<Longrightarrow> csv_quoted (c # s) = (c # fst (csv_quoted s), snd (csv_quoted s))"
  by (cases s) auto

lemma csv_quoted_end: "cell_end t \<Longrightarrow> csv_quoted (CHR 0x22 # t) = ([], t)"
  by (auto simp: cell_end_cases)

lemma csv_quoted_escaped: "cell_end t \<Longrightarrow>
    csv_quoted (concat (map (\<lambda>c. if c = CHR 0x22 then [CHR 0x22, CHR 0x22] else [c]) s) @ CHR 0x22 # t) = (s, t)"
  by (induction s) (auto simp: csv_quoted_end csv_quoted_other)

lemma csv_field_cell: "cell_end t \<Longrightarrow> csv_field (csvCell s @ t) = (s, t)"
proof (cases "list_ex (\<lambda>c. c = CHR 0x22 \<or> c = CHR '','' \<or> c = CHR 0x0A \<or> c = CHR 0x0D) s")
  case True
  moreover assume "cell_end t"
  ultimately show ?thesis by (simp add: csvCell_def csv_field_def csv_quoted_escaped)
next
  case False
  then have "\<forall>c \<in> set s. c \<noteq> CHR 0x22 \<and> plain_csv_char c"
    unfolding list_ex_iff plain_csv_char_def by blast
  then have "\<forall>c \<in> set s. plain_csv_char c" "s = [] \<or> hd s \<noteq> CHR 0x22" by (simp, cases s, simp_all)
  moreover assume "cell_end t"
  then have "takeWhile plain_csv_char t = []" "dropWhile plain_csv_char t = t" "t = [] \<or> hd t \<noteq> CHR 0x22"
    by (auto simp: cell_end_cases plain_csv_char_def)
  ultimately have "takeWhile plain_csv_char (s @ t) = s" "dropWhile plain_csv_char (s @ t) = t"
    "\<not> (s @ t \<noteq> [] \<and> hd (s @ t) = CHR 0x22)"
    by (simp, simp, cases s) auto
  moreover have "csvCell s = s" using False by (simp add: csvCell_def)
  ultimately show ?thesis unfolding csv_field_def by (simp only: if_False)
qed

text \<open>A line of cells, at the end of the text or before a further line.\<close>

lemma csv_read_cells:
  assumes "ss \<noteq> []"
  shows "csv_read (js_join '','' (map csvCell ss)) = [ss]"
    and "csv_read (js_join '','' (map csvCell ss) @ CHR 0x0A # t) = ss # csv_read t"
proof -
  have "csv_read (js_join '','' (map csvCell ss)) = [ss]
      \<and> csv_read (js_join '','' (map csvCell ss) @ CHR 0x0A # t) = ss # csv_read t"
    using assms
  proof (induction ss rule: list_nonempty_induct)
    case (single s)
    have "csv_field (csvCell s) = (s, [])" using csv_field_cell[of "[]" s] by (simp add: cell_end_def)
    moreover have "csv_field (csvCell s @ CHR 0x0A # t) = (s, CHR 0x0A # t)"
      by (rule csv_field_cell) (simp add: cell_end_cases)
    ultimately show ?case by (simp add: csv_read.simps[of "csvCell s"] csv_read.simps[of "csvCell s @ _"])
  next
    case (cons s ss)
    then obtain s2 ss' where ss: "ss = s2 # ss'" by (cases ss) auto
    let ?l = "js_join '','' (map csvCell ss)"
    have "csv_field (csvCell s @ CHR '','' # ?l @ u) = (s, CHR '','' # ?l @ u)" for u
      by (rule csv_field_cell) (simp add: cell_end_cases)
    then have "csv_read (csvCell s @ CHR '','' # ?l @ u) = on_first ((#) s) (csv_read (?l @ u))" for u
      by (simp add: csv_read.simps[of "csvCell s @ _"])
    from this[of "[]"] this[of "CHR 0x0A # t"] show ?case
      using cons by (simp add: ss on_first_def)
  qed
  then show "csv_read (js_join '','' (map csvCell ss)) = [ss]"
    and "csv_read (js_join '','' (map csvCell ss) @ CHR 0x0A # t) = ss # csv_read t" by auto
qed

lemma csv_read_lines:
  "ss \<noteq> [] \<Longrightarrow> \<forall>l \<in> set ls. l \<noteq> [] \<Longrightarrow>
   csv_read (js_join [CHR 0x0A] (js_join '','' (map csvCell ss) # map (\<lambda>l. js_join '','' (map csvCell l)) ls)) = ss # ls"
  by (induction ls arbitrary: ss) (auto simp: csv_read_cells)

lemma header_cells: "map csvCell csv_header = csv_header"
  by code_simp

lemma groups_get: "jm_get (fold (group_event client) es groups) c =
    (if truthy client \<and> Some c \<noteq> client \<or> filter (\<lambda>e. ae_clientId e = c) es = [] then jm_get groups c
     else Some ((case jm_get groups c of None \<Rightarrow> [] | Some fs \<Rightarrow> fs) @ filter (\<lambda>e. ae_clientId e = c) es))"
proof (induction es arbitrary: groups)
  case (Cons e es)
  show ?case unfolding fold_Cons comp_apply Cons.IH
    by (auto simp: group_event_def)
qed simp

lemma groups_distinct: "distinct (jm_keys groups) \<Longrightarrow> distinct (jm_keys (fold (group_event client) es groups))"
  by (induction es arbitrary: groups) (auto simp: group_event_def jm_distinct_set)

lemma group_entries: "(c, fs) \<in> set (group_events client es) \<longleftrightarrow>
    (truthy client \<longrightarrow> Some c = client) \<and> fs \<noteq> [] \<and> fs = filter (\<lambda>e. ae_clientId e = c) es"
proof -
  have "distinct (map fst (group_events client es))"
    using groups_distinct[of "[]" client es] by (simp add: group_events_def jm_keys_def)
  then have "(c, fs) \<in> set (group_events client es) \<longleftrightarrow> jm_get (group_events client es) c = Some fs"
    by (simp add: jm_get_def)
  then show ?thesis using groups_get[of client es "[]" c] by (auto simp: group_events_def)
qed

text \<open>A list in sequence order without repetition is what sorting any arrangement of it gives.\<close>

interpretation event_order: comparator "\<lambda>a b. ae_sequence a \<le> ae_sequence b"
  by unfold_locales auto

lemma by_sequence_unique:
  assumes "mset es = mset fs" and "map ae_sequence fs = [n..<m]"
  shows "by_sequence es = fs"
proof -
  have s: "sorted (map ae_sequence (by_sequence es))"
    unfolding by_sequence_def sorted_map using event_order.sort_sorted by blast
  have m: "mset (by_sequence es) = mset fs" by (simp add: by_sequence_def assms(1))
  then have "sort (map ae_sequence fs) = map ae_sequence (by_sequence es)"
    using s by (intro properties_for_sort) (simp_all add: mset_map[symmetric] del: mset_map, metis mset_map)
  then have e: "map ae_sequence (by_sequence es) = map ae_sequence fs"
    using assms(2) by (metis sorted_sort_id sorted_upt)
  have "inj_on ae_sequence (set (by_sequence es) \<union> set fs)"
    using assms(2) mset_eq_setD[OF m] by (metis Un_absorb distinct_map distinct_upt)
  then show ?thesis using e by (metis map_inj_on)
qed

lemma report_ok: "vr_ok (verifyAuditEvents sha num le client es) \<longleftrightarrow>
    (\<forall>c. (truthy client \<longrightarrow> Some c = client) \<longrightarrow>
       cv_ok (verifyChainRecords sha num (by_sequence (filter (\<lambda>e. ae_clientId e = c) es))))
    \<and> (truthy client \<longrightarrow> (\<exists>e \<in> set es. Some (ae_clientId e) = client))"
proof -
  have all: "list_all cc_ok (map (client_result sha num) (group_events client es)) \<longleftrightarrow>
      (\<forall>c. (truthy client \<longrightarrow> Some c = client) \<longrightarrow>
        cv_ok (verifyChainRecords sha num (by_sequence (filter (\<lambda>e. ae_clientId e = c) es))))"
  proof -
    have "cv_ok (verifyChainRecords sha num (by_sequence []))"
      by (simp add: by_sequence_def verifyChainRecords_def)
    let ?ok = "\<lambda>fs. cv_ok (verifyChainRecords sha num (by_sequence fs))"
    have "list_all cc_ok (map (client_result sha num) (group_events client es)) \<longleftrightarrow>
        (\<forall>c fs. (c, fs) \<in> set (group_events client es) \<longrightarrow> ?ok fs)"
      by (auto simp: list_all_iff client_result_def Let_def)
    also have "\<dots> \<longleftrightarrow> (\<forall>c. (truthy client \<longrightarrow> Some c = client) \<longrightarrow> filter (\<lambda>e. ae_clientId e = c) es \<noteq> []
        \<longrightarrow> ?ok (filter (\<lambda>e. ae_clientId e = c) es))"
      unfolding group_entries by blast
    finally show ?thesis using \<open>?ok []\<close> by metis
  qed
  have "(case client of Some c \<Rightarrow> c \<noteq> [] \<and> \<not> jm_has (group_events client es) c | None \<Rightarrow> False) \<longleftrightarrow>
      truthy client \<and> \<not> (\<exists>e \<in> set es. Some (ae_clientId e) = client)"
    using groups_get[of client es "[]"]
    by (cases client) (auto simp: group_events_def filter_empty_conv split: if_splits)
  then show ?thesis by (simp add: verifyAuditEvents_def Let_def all)
qed

lemma client_events:
  assumes "mset es = mset (map rowToEvent rows)"
  shows "mset (filter (\<lambda>e. ae_clientId e = c) es) = mset (chain c rows)"
proof -
  have "mset (filter (\<lambda>e. ae_clientId e = c) es) = mset (filter (\<lambda>e. ae_clientId e = c) (map rowToEvent rows))"
    using assms by (metis mset_filter)
  moreover have "filter (\<lambda>e. ae_clientId e = c) (map rowToEvent rows) = chain c rows"
    by (induction rows) (auto simp: client_rows_def rowToEvent_def)
  ultimately show ?thesis by simp
qed

section \<open>Properties\<close>

text \<open>C35. The CSV export can be read back: a reader of comma-separated values gets the header
  and, for every event of the chain, the thirteen texts that were written, whatever commas,
  quotes and line breaks the summary or the metadata contain.\<close>

theorem csv_export_roundtrip:
  "csv_read (exportCsv num c rows) = csv_header # map (event_cells num) (fullChain c rows)"
proof -
  have "exportCsv num c rows = js_join [CHR 0x0A] (js_join '','' (map csvCell csv_header) #
      map (\<lambda>l. js_join '','' (map csvCell l)) (map (event_cells num) (fullChain c rows)))"
    by (simp add: exportCsv_def header_cells comp_def)
  moreover have "csv_header \<noteq> []" "\<forall>l \<in> set (map (event_cells num) (fullChain c rows)). l \<noteq> []"
    by (auto simp: csv_header_def event_cells_def)
  ultimately show ?thesis using csv_read_lines by metis
qed

text \<open>The verdict of the verifier: a report is ok exactly when the events of every client
  it covers, put in sequence order, form a valid chain, and the client asked for has events.
  The command line exits with 0 in that case and with 1 otherwise.\<close>

lemma audit_report_exact:
  "cli_run sha num le (\<lambda>f. Inr es) argv =
     (case parseArgs argv \<lparr>ca_file = None, ca_client = None, ca_json = False, ca_help = False\<rparr> of
        Inl e \<Rightarrow> USAGE
      | Inr args \<Rightarrow> if ca_help args
          \<or> ((\<forall>c. (truthy (ca_client args) \<longrightarrow> Some c = ca_client args) \<longrightarrow>
                cv_ok (verifyChainRecords sha num (by_sequence (filter (\<lambda>e. ae_clientId e = c) es))))
             \<and> (truthy (ca_client args) \<longrightarrow> (\<exists>e \<in> set es. Some (ae_clientId e) = ca_client args)))
          then EXIT_OK else CHAIN_BROKEN)"
proof (cases "parseArgs argv \<lparr>ca_file = None, ca_client = None, ca_json = False, ca_help = False\<rparr>")
  case (Inr args)
  have "(if truthy (ca_client args) then ca_client args else None) = ca_client args
      \<or> \<not> truthy (ca_client args)" by simp
  then show ?thesis
    by (cases "truthy (ca_client args)") (simp_all add: cli_run_def Inr report_ok)
qed (simp add: cli_run_def)

lemma audit_report_exact_witness:
  "cli_run rev (\<lambda>n. ''1'') (\<le>) (\<lambda>f. Inr []) [''--client'', ''acme''] = CHAIN_BROKEN"
  using audit_report_exact[of rev "\<lambda>n. ''1''" "(\<le>)" "[]" "[''--client'', ''acme'']"] by simp



text \<open>Cutting events off the end of a log goes unnoticed: a prefix of the chain of any
  client, even the empty one, still gets an ok report.\<close>

lemma tail_truncation_unnoticed:
  assumes "reach audit_start (audit_step sha num db) s" and "json_store db"
  shows "vr_ok (verifyAuditEvents sha num le None (take n (fullChain c (au_rows s))))"
proof -
  have ok: "chains_ok sha num (au_rows s)"
    using audit_log.reachable_inv[OF assms(1)] assms(2) by (simp add: audit_inv_def)
  let ?es = "take n (chain c (au_rows s))"
  have valid: "cv_ok (verify_from sha num [] 1 0 ?es)"
    using ok verify_append[of sha num "[]" 1 0 ?es "drop n (chain c (au_rows s))"] by (simp add: chains_ok_def)
  have same: "\<forall>e \<in> set ?es. ae_clientId e = c"
    by (auto simp: client_rows_def rowToEvent_def dest!: in_set_takeD)
  have "by_sequence ?es = ?es"
    by (rule by_sequence_unique[OF refl verify_sequences[OF valid]])
  moreover have "filter (\<lambda>e. ae_clientId e = d) ?es = (if d = c then ?es else [])" for d
    using same by (auto simp: filter_empty_conv)
  moreover have "by_sequence [] = []" by (simp add: by_sequence_def)
  ultimately show ?thesis
    using valid by (simp add: fullChain_chain[OF ok] report_ok verifyChainRecords_def)
qed

lemma tail_truncation_unnoticed_witness:
  "vr_ok (verifyAuditEvents rev (\<lambda>n. ''1'') (\<le>) None
     (take 1 (fullChain ''acme'' (au_rows (audit_run rev (\<lambda>n. ''1'') store_json ex_audit_acts)))))"
  by (rule tail_truncation_unnoticed[OF audit_run_reach json_store_plain])


definition ex_chain_event :: audit_event where
  "ex_chain_event = \<lparr>ae_id = ''e0'', ae_clientId = ''acme'', ae_sequence = 1, ae_scanId = None,
     ae_actor = \<lparr>ac_type = System, ac_id = ''worker'', ac_role = None\<rparr>, ae_action = ''scan.created'',
     ae_targetType = None, ae_targetId = None, ae_summary = ''created'', ae_metadata = [],
     ae_prevHash = [], ae_hash = ''0'', ae_at = ''t0''\<rparr>"


end
