(* ===== verification/EgressGuard.thy ===== *)
theory EgressGuard
  imports Regex Contracts
begin

text \<open>
  \<open>packages/security/src/egress-guard.ts\<close>: the default-deny policy compiled from the
  configuration and the check made before an outbound request. The URL parser of the
  platform is a parameter: \<open>hostname u\<close> is \<open>new URL(u).hostname\<close>, or none when the
  constructor throws.
\<close>

section \<open>Configuration and policy\<close>

fun PROVIDER_DEFAULT_HOSTS :: "provider \<Rightarrow> string list" where
  "PROVIDER_DEFAULT_HOSTS Anthropic = [''api.anthropic.com'']"
| "PROVIDER_DEFAULT_HOSTS Bedrock = [''.amazonaws.com'']"
| "PROVIDER_DEFAULT_HOSTS Vertex = [''.googleapis.com'']"
| "PROVIDER_DEFAULT_HOSTS Azure = [''.openai.azure.com'']"
| "PROVIDER_DEFAULT_HOSTS Openai = [''api.openai.com'']"
| "PROVIDER_DEFAULT_HOSTS Google = [''generativelanguage.googleapis.com'']"
| "PROVIDER_DEFAULT_HOSTS Xai = [''api.x.ai'']"
| "PROVIDER_DEFAULT_HOSTS Moonshot = [''api.moonshot.ai'']"
| "PROVIDER_DEFAULT_HOSTS Zhipu = [''open.bigmodel.cn'']"
| "PROVIDER_DEFAULT_HOSTS Deepseek = [''api.deepseek.com'']"

fun provider_str :: "provider \<Rightarrow> string" where
  "provider_str Anthropic = ''anthropic''"
| "provider_str Bedrock = ''bedrock''"
| "provider_str Vertex = ''vertex''"
| "provider_str Azure = ''azure''"
| "provider_str Openai = ''openai''"
| "provider_str Google = ''google''"
| "provider_str Xai = ''xai''"
| "provider_str Moonshot = ''moonshot''"
| "provider_str Zhipu = ''zhipu''"
| "provider_str Deepseek = ''deepseek''"

record egress_config =
  ec_provider :: "provider option"
  ec_endpoint :: "string option"
  ec_egressPolicy :: "string option"
  ec_allowedEgressHosts :: "string list"
  ec_telemetryEnabled :: bool
  ec_telemetryEndpoint :: "string option"
  ec_dastAllowlist :: "string list"

datatype egress_source = llm_endpoint | provider_default | config_allowlist | telemetry_source | dast_target

record egress_entry =
  ee_host :: string
  ee_source :: egress_source
  ee_suffix :: bool

record egress_policy =
  ep_entries :: "egress_entry list"
  ep_warnings :: "string list"
  ep_llmHost :: "string option"

text \<open>The derived fields \<open>allowedHosts\<close>, a set, and \<open>allowedSuffixes\<close>.\<close>

definition allowedHosts :: "egress_policy \<Rightarrow> string set" where
  "allowedHosts p = set (map ee_host (filter (\<lambda>e. \<not> ee_suffix e) (ep_entries p)))"

definition allowedSuffixes :: "egress_policy \<Rightarrow> string list" where
  "allowedSuffixes p = map ee_host (filter ee_suffix (ep_entries p))"

record derive_egress_options =
  do_includeDastTargets :: bool
  do_extraHosts :: "string list"

section \<open>Hosts\<close>

definition scheme_start :: regex where
  "scheme_start = rx_seq [One (\<lambda>c. c \<in> set ''abcdefghijklmnopqrstuvwxyzABCDEFGHIJKLMNOPQRSTUVWXYZ''),
     Rep 0 None (One (\<lambda>c. word_char c \<and> c \<noteq> CHR ''_'' \<or> c \<in> set ''+.-'')), Lit ''://'']"

definition has_scheme :: "string \<Rightarrow> bool" where
  "has_scheme t \<longleftrightarrow> rx_ends scheme_start (None, t) \<noteq> []"

definition normalizeHost :: "(string \<Rightarrow> string option) \<Rightarrow> string \<Rightarrow> montr_error + string" where
  "normalizeHost hostname target =
     (let t = js_trim target in
      if t = [] then Inl (EgressBlockedError ''empty egress target'' (Some [(''target'', JStr target)]))
      else case hostname (if has_scheme t then t
               else if js_startsWith t ''//'' then ''http:'' @ t else ''http://'' @ t) of
             Some h \<Rightarrow> Inr (js_lower h)
           | None \<Rightarrow> Inl (EgressBlockedError (''invalid egress target: '' @ t) (Some [(''target'', JStr t)])))"

section \<open>Compiling the policy\<close>

definition exact_entry :: "egress_source \<Rightarrow> string \<Rightarrow> egress_entry" where
  "exact_entry src h = \<lparr>ee_host = h, ee_source = src, ee_suffix = False\<rparr>"

text \<open>\<open>addExact\<close> for a list of hosts; the first malformed one throws.\<close>

fun add_exact :: "(string \<Rightarrow> string option) \<Rightarrow> egress_source \<Rightarrow> string list \<Rightarrow> montr_error + egress_entry list" where
  "add_exact hostname src [] = Inr []"
| "add_exact hostname src (raw # raws) =
     ebind (normalizeHost hostname raw) (\<lambda>h.
     ebind (add_exact hostname src raws) (\<lambda>es. Inr (exact_entry src h # es)))"

text \<open>The DAST allowlist, where malformed entries are skipped.\<close>

fun add_dast :: "(string \<Rightarrow> string option) \<Rightarrow> string list \<Rightarrow> egress_entry list" where
  "add_dast hostname [] = []"
| "add_dast hostname (raw # raws) =
     (case normalizeHost hostname raw of
        Inl e \<Rightarrow> add_dast hostname raws
      | Inr h \<Rightarrow> exact_entry dast_target h # add_dast hostname raws)"

definition suffix_warning :: "provider \<Rightarrow> string \<Rightarrow> string" where
  "suffix_warning p d = ''egress: provider '' @ [CHR 0x27] @ provider_str p @ [CHR 0x27]
     @ '' has no explicit llm.endpoint; allowing broad suffix '' @ [CHR 0x27] @ d @ [CHR 0x27]
     @ ''. Set llm.endpoint to narrow egress to a single host.''"

text \<open>The provider's default hosts: entries, warnings and the last exact host.\<close>

definition default_entries :: "provider \<Rightarrow> egress_entry list \<times> string list \<times> string option" where
  "default_entries p =
     (let ds = PROVIDER_DEFAULT_HOSTS p; exact = filter (\<lambda>d. \<not> js_startsWith d ''.'') ds in
      (map (\<lambda>d. \<lparr>ee_host = js_lower d, ee_source = provider_default, ee_suffix = js_startsWith d ''.''\<rparr>) ds,
       map (suffix_warning p) (filter (\<lambda>d. js_startsWith d ''.'') ds),
       if exact = [] then None else Some (js_lower (last exact))))"

definition llm_entries :: "(string \<Rightarrow> string option) \<Rightarrow> egress_config
    \<Rightarrow> montr_error + (egress_entry list \<times> string list \<times> string option)" where
  "llm_entries hostname cfg =
     (if truthy (ec_endpoint cfg)
      then ebind (normalizeHost hostname (the (ec_endpoint cfg)))
             (\<lambda>h. Inr ([exact_entry llm_endpoint h], [], Some h))
      else Inr (default_entries (case ec_provider cfg of None \<Rightarrow> Anthropic | Some p \<Rightarrow> p)))"

definition configured_policy :: "egress_config \<Rightarrow> string" where
  "configured_policy cfg = (case ec_egressPolicy cfg of None \<Rightarrow> ''default-deny'' | Some p \<Rightarrow> p)"

definition deriveEgressPolicy :: "(string \<Rightarrow> string option) \<Rightarrow> egress_config \<Rightarrow> derive_egress_options
    \<Rightarrow> montr_error + egress_policy" where
  "deriveEgressPolicy hostname cfg opts =
     ebind (llm_entries hostname cfg) (\<lambda>(llm, warnings, llmHost).
     ebind (add_exact hostname config_allowlist (ec_allowedEgressHosts cfg)) (\<lambda>allow.
     ebind (add_exact hostname config_allowlist (do_extraHosts opts)) (\<lambda>extra.
     ebind (if ec_telemetryEnabled cfg \<and> truthy (ec_telemetryEndpoint cfg)
            then add_exact hostname telemetry_source [the (ec_telemetryEndpoint cfg)] else Inr []) (\<lambda>tele.
     Inr \<lparr>ep_entries = llm @ allow @ extra @ tele
            @ (if do_includeDastTargets opts then add_dast hostname (ec_dastAllowlist cfg) else []),
          ep_warnings = warnings @ (if configured_policy cfg \<noteq> ''default-deny''
            then [''egress policy is '' @ [CHR 0x27] @ configured_policy cfg @ [CHR 0x27] @ '', expected ''
                  @ [CHR 0x27] @ ''default-deny'' @ [CHR 0x27] @ '' (golden rule #1).''] else []),
          ep_llmHost = llmHost\<rparr>))))"

section \<open>Checking a request\<close>

definition isEgressAllowed :: "(string \<Rightarrow> string option) \<Rightarrow> egress_policy \<Rightarrow> string \<Rightarrow> bool" where
  "isEgressAllowed hostname p target =
     (case normalizeHost hostname target of
        Inl e \<Rightarrow> False
      | Inr host \<Rightarrow> host \<in> allowedHosts p
          \<or> list_ex (\<lambda>s. host = drop 1 s \<or> js_endsWith host s) (allowedSuffixes p))"

definition assertEgressAllowed :: "(string \<Rightarrow> string option) \<Rightarrow> egress_policy \<Rightarrow> string \<Rightarrow> montr_error + unit" where
  "assertEgressAllowed hostname p target =
     (if \<not> isEgressAllowed hostname p target
      then Inl (EgressBlockedError (''egress denied: '' @ target @ '' is not the configured LLM endpoint'')
             (Some [(''target'', JStr target), (''allowedHostCount'', JNum (of_nat (card (allowedHosts p)))),
                    (''allowedSuffixCount'', JNum (of_nat (length (allowedSuffixes p))))]))
      else Inr ())"

definition assertStartupEgress :: "(string \<Rightarrow> string option) \<Rightarrow> egress_config \<Rightarrow> derive_egress_options
    \<Rightarrow> montr_error + egress_policy" where
  "assertStartupEgress hostname cfg opts =
     ebind (deriveEgressPolicy hostname cfg opts) (\<lambda>p.
       if configured_policy cfg \<noteq> ''default-deny''
       then Inl (EgressBlockedError (''egress policy must be '' @ [CHR 0x27] @ ''default-deny'' @ [CHR 0x27]
              @ '', got '' @ [CHR 0x27] @ configured_policy cfg @ [CHR 0x27] @ '' (golden rule #1).'')
              (Some [(''egressPolicy'', JStr (configured_policy cfg))]))
       else if allowedHosts p = {} \<and> allowedSuffixes p = []
       then Inl (EgressBlockedError ''no egress destination resolved - configure llm.endpoint or a provider so the LLM is reachable.'' None)
       else Inr p)"

text \<open>\<open>createEgressGuard\<close>: the compiled policy with its two checks.\<close>

record egress_guard =
  eg_policy :: egress_policy
  eg_isAllowed :: "string \<Rightarrow> bool"
  eg_assert :: "string \<Rightarrow> montr_error + unit"

definition createEgressGuard :: "(string \<Rightarrow> string option) \<Rightarrow> egress_config \<Rightarrow> derive_egress_options
    \<Rightarrow> montr_error + egress_guard" where
  "createEgressGuard hostname cfg opts =
     ebind (assertStartupEgress hostname cfg opts) (\<lambda>p.
       Inr \<lparr>eg_policy = p, eg_isAllowed = isEgressAllowed hostname p, eg_assert = assertEgressAllowed hostname p\<rparr>)"

section \<open>Lemmas\<close>

lemma add_exact_hosts: "add_exact hostname src raws = Inr es \<Longrightarrow>
    set es = {exact_entry src h |h. \<exists>raw \<in> set raws. normalizeHost hostname raw = Inr h}"
  by (induction raws arbitrary: es) (force simp: ebind_Inr_iff)+

lemma add_dast_hosts: "set (add_dast hostname raws)
    = {exact_entry dast_target h |h. \<exists>raw \<in> set raws. normalizeHost hostname raw = Inr h}"
  by (induction raws) (auto split: sum.splits)

lemma defaults_lower: "map js_lower (PROVIDER_DEFAULT_HOSTS p) = PROVIDER_DEFAULT_HOSTS p"
  by (cases p; hypsubst; code_simp)

lemma default_exact: "map ee_host (filter (\<lambda>e. \<not> ee_suffix e) (fst (default_entries p)))
      = filter (\<lambda>d. \<not> js_startsWith d ''.'') (PROVIDER_DEFAULT_HOSTS p)"
    "map ee_host (filter ee_suffix (fst (default_entries p)))
      = filter (\<lambda>d. js_startsWith d ''.'') (PROVIDER_DEFAULT_HOSTS p)"
proof -
  have low: "js_lower d = d" if "d \<in> set (PROVIDER_DEFAULT_HOSTS p)" for d
    using defaults_lower[of p] that by (metis map_eq_conv map_ident)
  have *: "map js_lower (filter Q (PROVIDER_DEFAULT_HOSTS p)) = filter Q (PROVIDER_DEFAULT_HOSTS p)" for Q
    by (rule map_idI) (use low in auto)
  then show "map ee_host (filter (\<lambda>e. \<not> ee_suffix e) (fst (default_entries p)))
      = filter (\<lambda>d. \<not> js_startsWith d ''.'') (PROVIDER_DEFAULT_HOSTS p)"
    and "map ee_host (filter ee_suffix (fst (default_entries p)))
      = filter (\<lambda>d. js_startsWith d ''.'') (PROVIDER_DEFAULT_HOSTS p)"
    by (simp_all add: default_entries_def Let_def filter_map comp_def)
qed

text \<open>A suffix rule \<open>.d\<close> admits the domain \<open>d\<close> and its subdomains.\<close>

lemma suffix_rule: "(host = drop 1 (CHR ''.'' # d) \<or> js_endsWith host (CHR ''.'' # d)) \<longleftrightarrow>
    host = d \<or> (\<exists>sub. host = sub @ ''.'' @ d)"
  by (auto simp: endsWith_iff)

text \<open>What the operator has approved, beside the language model.\<close>

definition approved_raw :: "egress_config \<Rightarrow> derive_egress_options \<Rightarrow> string list" where
  "approved_raw cfg opts = ec_allowedEgressHosts cfg @ do_extraHosts opts
     @ (if ec_telemetryEnabled cfg \<and> truthy (ec_telemetryEndpoint cfg) then [the (ec_telemetryEndpoint cfg)] else [])
     @ (if do_includeDastTargets opts then ec_dastAllowlist cfg else [])"

definition llm_raw_allows :: "(string \<Rightarrow> string option) \<Rightarrow> egress_config \<Rightarrow> string \<Rightarrow> bool" where
  "llm_raw_allows hostname cfg host =
     (if truthy (ec_endpoint cfg) then normalizeHost hostname (the (ec_endpoint cfg)) = Inr host
      else let ds = PROVIDER_DEFAULT_HOSTS (case ec_provider cfg of None \<Rightarrow> Anthropic | Some p \<Rightarrow> p)
           in host \<in> set ds \<and> \<not> js_startsWith host ''.''
              \<or> list_ex (\<lambda>d. js_startsWith d ''.'' \<and> (host = drop 1 d \<or> js_endsWith host d)) ds)"

lemma exact_entry_simps [simp]: "ee_host (exact_entry src h) = h" "\<not> ee_suffix (exact_entry src h)"
  by (simp_all add: exact_entry_def)

lemma exact_only: "\<forall>e \<in> set es. \<not> ee_suffix e \<Longrightarrow> filter ee_suffix es = [] \<and> filter (\<lambda>e. \<not> ee_suffix e) es = es"
  by (induction es) auto

lemma add_exact_image: "add_exact hostname src raws = Inr es \<Longrightarrow>
    host \<in> ee_host ` set es \<longleftrightarrow> (\<exists>raw \<in> set raws. normalizeHost hostname raw = Inr host)"
  unfolding add_exact_hosts by force

lemma add_dast_image: "host \<in> ee_host ` set (add_dast hostname raws) \<longleftrightarrow>
    (\<exists>raw \<in> set raws. normalizeHost hostname raw = Inr host)"
  unfolding add_dast_hosts by force

lemma derived_hosts:
  assumes "deriveEgressPolicy hostname cfg opts = Inr p"
  shows "host \<in> allowedHosts p \<or> list_ex (\<lambda>s. host = drop 1 s \<or> js_endsWith host s) (allowedSuffixes p)
    \<longleftrightarrow> llm_raw_allows hostname cfg host \<or> (\<exists>raw \<in> set (approved_raw cfg opts). normalizeHost hostname raw = Inr host)"
proof -
  obtain llm warnings llmHost allow extra tele where
    llm: "llm_entries hostname cfg = Inr (llm, warnings, llmHost)" and
    allow: "add_exact hostname config_allowlist (ec_allowedEgressHosts cfg) = Inr allow" and
    extra: "add_exact hostname config_allowlist (do_extraHosts opts) = Inr extra" and
    tele: "(if ec_telemetryEnabled cfg \<and> truthy (ec_telemetryEndpoint cfg)
            then add_exact hostname telemetry_source [the (ec_telemetryEndpoint cfg)] else Inr []) = Inr tele" and
    p: "ep_entries p = llm @ allow @ extra @ tele
            @ (if do_includeDastTargets opts then add_dast hostname (ec_dastAllowlist cfg) else [])"
    using assms by (fastforce simp: deriveEgressPolicy_def ebind_Inr_iff)
  let ?dast = "if do_includeDastTargets opts then add_dast hostname (ec_dastAllowlist cfg) else []"
  have ex: "\<forall>e \<in> set allow. \<not> ee_suffix e" "\<forall>e \<in> set extra. \<not> ee_suffix e" "\<forall>e \<in> set tele. \<not> ee_suffix e"
    "\<forall>e \<in> set ?dast. \<not> ee_suffix e"
    using add_exact_hosts[OF allow] add_exact_hosts[OF extra] tele add_exact_hosts[of hostname telemetry_source]
      add_dast_hosts[of hostname "ec_dastAllowlist cfg"]
    by (auto simp: ebind_Inr_iff split: if_splits)
  have hosts: "allowedHosts p = set (map ee_host (filter (\<lambda>e. \<not> ee_suffix e) llm))
      \<union> ee_host ` set allow \<union> ee_host ` set extra \<union> ee_host ` set tele \<union> ee_host ` set ?dast"
    using ex[THEN exact_only] unfolding allowedHosts_def p by (auto simp del: if_split)
  have suff: "allowedSuffixes p = map ee_host (filter ee_suffix llm)"
    using ex[THEN exact_only] unfolding allowedSuffixes_def p by (simp del: if_split)
  have rest: "host \<in> ee_host ` set allow \<union> ee_host ` set extra \<union> ee_host ` set tele \<union> ee_host ` set ?dast
      \<longleftrightarrow> (\<exists>raw \<in> set (approved_raw cfg opts). normalizeHost hostname raw = Inr host)"
  proof -
    have "host \<in> ee_host ` set tele \<longleftrightarrow> ec_telemetryEnabled cfg \<and> truthy (ec_telemetryEndpoint cfg)
        \<and> normalizeHost hostname (the (ec_telemetryEndpoint cfg)) = Inr host"
      using tele add_exact_image[of hostname telemetry_source "[the (ec_telemetryEndpoint cfg)]" tele host]
      by (auto split: if_splits)
    then show ?thesis
      unfolding Un_iff add_exact_image[OF allow] add_exact_image[OF extra]
      by (cases "do_includeDastTargets opts"; cases "ec_telemetryEnabled cfg \<and> truthy (ec_telemetryEndpoint cfg)";
          simp only: approved_raw_def set_append bex_Un add_dast_image if_True if_False simp_thms set_simps
          empty_iff image_empty insert_iff bex_simps disj_assoc; blast?)
  qed
  have "host \<in> set (map ee_host (filter (\<lambda>e. \<not> ee_suffix e) llm))
      \<or> list_ex (\<lambda>s. host = drop 1 s \<or> js_endsWith host s) (map ee_host (filter ee_suffix llm))
      \<longleftrightarrow> llm_raw_allows hostname cfg host"
  proof (cases "truthy (ec_endpoint cfg)")
    case True
    then obtain h where "normalizeHost hostname (the (ec_endpoint cfg)) = Inr h" "llm = [exact_entry llm_endpoint h]"
      using llm by (auto simp: llm_entries_def ebind_Inr_iff)
    moreover from this(2) have "filter (\<lambda>e. \<not> ee_suffix e) llm = llm" "filter ee_suffix llm = []" by simp_all
    ultimately show ?thesis using True by (auto simp: llm_raw_allows_def)
  next
    case False
    then have "llm = fst (default_entries (case ec_provider cfg of None \<Rightarrow> Anthropic | Some p \<Rightarrow> p))"
      using llm by (simp add: llm_entries_def)
    then show ?thesis using False
      by (simp only: default_exact llm_raw_allows_def if_False Let_def) (auto simp: list_ex_iff)
  qed
  then show ?thesis unfolding suff hosts using rest by blast
qed

section \<open>Properties\<close>


definition ex_hostname :: "string \<Rightarrow> string option" where
  "ex_hostname u = (case js_split_char (CHR ''/'') u of
      s # e # h # _ \<Rightarrow> if h = [] then None else Some (before_first (CHR '':'') h)
    | _ \<Rightarrow> None)"

definition ex_egress_config :: egress_config where
  "ex_egress_config = \<lparr>ec_provider = Some Bedrock, ec_endpoint = None, ec_egressPolicy = None,
     ec_allowedEgressHosts = [''mirror.acme.io''], ec_telemetryEnabled = False, ec_telemetryEndpoint = None,
     ec_dastAllowlist = [''https://staging.acme.io'']\<rparr>"

definition ex_egress_guard :: egress_guard where
  "ex_egress_guard = (case createEgressGuard ex_hostname ex_egress_config
       \<lparr>do_includeDastTargets = False, do_extraHosts = []\<rparr> of Inr g \<Rightarrow> g)"

definition is_ok :: "'e + 'a \<Rightarrow> bool" where
  "is_ok r = (case r of Inl e \<Rightarrow> False | Inr x \<Rightarrow> True)"

lemma ex_egress_built: "createEgressGuard ex_hostname ex_egress_config
    \<lparr>do_includeDastTargets = False, do_extraHosts = []\<rparr> = Inr ex_egress_guard"
proof -
  have "is_ok (createEgressGuard ex_hostname ex_egress_config \<lparr>do_includeDastTargets = False, do_extraHosts = []\<rparr>)"
    by code_simp
  then show ?thesis by (auto simp: is_ok_def ex_egress_guard_def split: sum.splits)
qed

lemma ex_egress_facts:
  "normalizeHost ex_hostname ''https://s3.amazonaws.com/x'' = Inr ''s3.amazonaws.com''"
  "llm_raw_allows ex_hostname ex_egress_config ''s3.amazonaws.com''"
  "normalizeHost ex_hostname ''https://evilamazonaws.com/x'' = Inr ''evilamazonaws.com''"
  "\<not> llm_raw_allows ex_hostname ex_egress_config ''evilamazonaws.com''"
  "approved_raw ex_egress_config \<lparr>do_includeDastTargets = False, do_extraHosts = []\<rparr> = [''mirror.acme.io'']"
  "normalizeHost ex_hostname ''mirror.acme.io'' = Inr ''mirror.acme.io''"
  by code_simp+


end
