(* ===== verification/LiveGuard.thy ===== *)
theory LiveGuard
  imports EgressGuard ScanContracts
begin

text \<open>
  \<open>packages/confirm/src/guard.ts\<close> and the probe loop of \<open>live.ts\<close> (\<open>confirmLive\<close>): what a live
  probe has to pass before it leaves the process. \<open>parse u\<close> is the host, with a non-default
  port, and the path name of \<open>new URL(u)\<close>, or none when the constructor throws. The instants
  at which the code reads the clock and the kill signal, and what the transport does, are the
  environment of each probe.
\<close>

section \<open>Targets\<close>

type_synonym url_parser = "string \<Rightarrow> (string \<times> string) option"

definition toUrl :: "url_parser \<Rightarrow> string \<Rightarrow> montr_error + (string \<times> string)" where
  "toUrl parse raw =
     (let s = js_trim raw in
      if s = [] then Inl (DastTargetNotAllowlistedError ''empty DAST target'' (Some [(''target'', JStr raw)]))
      else case parse (if has_scheme s then s else ''https://'' @ s) of
             Some u \<Rightarrow> Inr u
           | None \<Rightarrow> Inl (DastTargetNotAllowlistedError (''invalid DAST target URL: '' @ s) (Some [(''target'', JStr s)])))"

definition hostOf :: "url_parser \<Rightarrow> string \<Rightarrow> string" where
  "hostOf parse target = (case toUrl parse target of Inr u \<Rightarrow> js_lower (fst u) | Inl e \<Rightarrow> target)"

definition or_slash :: "string \<Rightarrow> string" where
  "or_slash p = (if p = [] then ''/'' else p)"

definition entry_allows :: "url_parser \<Rightarrow> string \<Rightarrow> string \<Rightarrow> string \<Rightarrow> string \<Rightarrow> bool" where
  "entry_allows parse target host path entry =
     (target = entry
      \<or> (case toUrl parse entry of
           Inl e \<Rightarrow> False
         | Inr (eh, ep) \<Rightarrow> js_lower eh = host
             \<and> (let root = strip_suffix ''/'' (or_slash ep)
                in root = [] \<or> path = root \<or> js_startsWith path (root @ ''/''))))"

definition isAllowlisted :: "url_parser \<Rightarrow> string \<Rightarrow> string list \<Rightarrow> bool" where
  "isAllowlisted parse target allowlist =
     (case toUrl parse target of
        Inl e \<Rightarrow> False
      | Inr (h, p) \<Rightarrow> list_ex (entry_allows parse target (js_lower h) (or_slash p)) allowlist)"

definition PRODUCTION_MARKERS :: "string list" where
  "PRODUCTION_MARKERS = [''prod'', ''production'', ''www.'', ''live.'', ''release'']"

definition STAGING_MARKERS :: "string list" where
  "STAGING_MARKERS = [''staging'', ''stage'', ''test'', ''dev'', ''qa'', ''uat'', ''sandbox'', ''preview'',
     ''canary'', ''localhost'', ''127.0.0.1'', ''.internal'', ''.local'']"

definition looksLikeProduction :: "url_parser \<Rightarrow> string \<Rightarrow> bool" where
  "looksLikeProduction parse target =
     (case toUrl parse target of
        Inl e \<Rightarrow> True
      | Inr (h, p) \<Rightarrow> let host = js_lower h in
          if list_ex (js_includes host) STAGING_MARKERS then False
          else list_ex (js_includes host) PRODUCTION_MARKERS)"

text \<open>\<open>productionBlocked\<close> is the literal \<open>true\<close> of the configuration schema.\<close>

definition assertLiveAuthorized :: "url_parser \<Rightarrow> montr_config \<Rightarrow> bool \<Rightarrow> string option \<Rightarrow> montr_error + string" where
  "assertLiveAuthorized parse config allowLive staging =
     (let dast = cfg_dast config; url = (case staging of None \<Rightarrow> [] | Some u \<Rightarrow> u) in
      if \<not> dc_enabled dast
      then Inl (DastTargetNotAllowlistedError ''live DAST is disabled by policy (dast.enabled=false)'' None)
      else if \<not> allowLive
      then Inl (HumanApprovalRequiredError ''live DAST requires approver authorization (RBAC) before any probe'' None)
      else if \<not> truthy staging
      then Inl (DastTargetNotAllowlistedError ''no staging target provided for live DAST'' None)
      else if dc_allowlist dast = []
      then Inl (DastTargetNotAllowlistedError ''DAST allowlist is empty - nothing may be probed'' None)
      else if \<not> isAllowlisted parse url (dc_allowlist dast)
      then Inl (DastTargetNotAllowlistedError (''staging target is not on the allowlist: '' @ hostOf parse url)
             (Some [(''host'', JStr (hostOf parse url)), (''allowlistCount'', JNum (of_nat (length (dc_allowlist dast))))]))
      else if looksLikeProduction parse url
      then Inl (DastTargetNotAllowlistedError
             (''staging target looks like production - blocked by policy: '' @ hostOf parse url)
             (Some [(''host'', JStr (hostOf parse url))]))
      else Inr url)"

section \<open>The scope guard\<close>

record scope_options =
  go_scope :: dast_scope_contract
  go_allowlist :: "string list"
  go_egress :: "string \<Rightarrow> montr_error + unit"

record scope_state =
  sg_total :: nat
  sg_mutating :: nat
  sg_sendTimes :: "int list"

definition new_scope_guard :: scope_state where
  "new_scope_guard = \<lparr>sg_total = 0, sg_mutating = 0, sg_sendTimes = []\<rparr>"

text \<open>
  The abort signal: not aborted, or aborted with a reason that may be the kill-switch error.
  Upper case matters only for the ASCII letters of a method.
\<close>

datatype probe_signal = Not_aborted | Aborted "montr_error option"

definition ascii_upper :: "char \<Rightarrow> char" where
  "ascii_upper c = (let n = (of_char c :: nat) in if 97 \<le> n \<and> n \<le> 122 then char_of (n - 32) else c)"

definition is_mutating :: "string \<Rightarrow> bool" where
  "is_mutating method \<longleftrightarrow> map ascii_upper method \<in> {''POST'', ''PUT'', ''PATCH'', ''DELETE''}"

fun assertNotKilled :: "probe_signal \<Rightarrow> montr_error + unit" where
  "assertNotKilled Not_aborted = Inr ()"
| "assertNotKilled (Aborted (Some reason)) = Inl reason"
| "assertNotKilled (Aborted None) = Inl (KillSwitchActivatedError ''kill switch activated - halting DAST probing'' None)"

definition assertProbeAllowed :: "url_parser \<Rightarrow> scope_options \<Rightarrow> scope_state \<Rightarrow> probe_signal \<Rightarrow> string \<Rightarrow> string
    \<Rightarrow> montr_error + unit" where
  "assertProbeAllowed parse g st sig url method =
     ebind (assertNotKilled sig) (\<lambda>u.
       if maxRequestsPerScan (go_scope g) \<le> sg_total st
       then Inl (RateLimitExceededError ''DAST per-scan request cap reached (blast-radius)''
              (Some [(''cap'', JNum (of_nat (maxRequestsPerScan (go_scope g)))), (''sent'', JNum (of_nat (sg_total st)))]))
       else if is_mutating method \<and> maxMutatingRequests (go_scope g) \<le> sg_mutating st
       then Inl (RateLimitExceededError ''DAST mutating-request cap reached (blast-radius)''
              (Some [(''cap'', JNum (of_nat (maxMutatingRequests (go_scope g)))),
                     (''sent'', JNum (of_nat (sg_mutating st))), (''method'', JStr (map ascii_upper method))]))
       else if \<not> isAllowlisted parse url (go_allowlist g)
       then Inl (DastTargetNotAllowlistedError (''target not on the staging allowlist: '' @ hostOf parse url)
              (Some [(''host'', JStr (hostOf parse url)), (''allowlistCount'', JNum (of_nat (length (go_allowlist g))))]))
       else if looksLikeProduction parse url
       then Inl (DastTargetNotAllowlistedError (''production target blocked by policy: '' @ hostOf parse url)
              (Some [(''host'', JStr (hostOf parse url))]))
       else go_egress g url)"

text \<open>\<open>throttle\<close> up to the sleep: the pruned state and the time to sleep, if any.\<close>

definition throttle_wait :: "scope_options \<Rightarrow> int \<Rightarrow> scope_state \<Rightarrow> scope_state \<times> int option" where
  "throttle_wait g now st =
     (let rps = maxRequestsPerSecond (go_scope g) in
      if \<not> 0 < rps then (st, None)
      else let times = filter (\<lambda>t. now - t < 1000) (sg_sendTimes st);
               oldest = (case times of [] \<Rightarrow> now | t # _ \<Rightarrow> t);
               wait = 1000 - (now - oldest)
           in (st\<lparr>sg_sendTimes := times\<rparr>,
               if rps \<le> of_nat (length times) \<and> 0 < wait then Some wait else None))"

definition guard_record :: "string \<Rightarrow> int \<Rightarrow> scope_state \<Rightarrow> scope_state" where
  "guard_record method now st =
     st\<lparr>sg_total := sg_total st + 1,
        sg_mutating := (if is_mutating method then sg_mutating st + 1 else sg_mutating st),
        sg_sendTimes := sg_sendTimes st @ [now]\<rparr>"

section \<open>The probe loop\<close>

record probe_request =
  pq_method :: string
  pq_url :: string
  pq_headers :: "(string \<times> string) list option"
  pq_body :: "string option"

datatype probe_error = Montr_err montr_error | Abort_err string | Other_err string

fun isAbort :: "probe_error \<Rightarrow> bool" where
  "isAbort (Montr_err e) = (me_code e = KILL_SWITCH_ACTIVATED)"
| "isAbort (Abort_err m) = True"
| "isAbort (Other_err m) = False"

fun asKill :: "probe_error \<Rightarrow> montr_error" where
  "asKill (Montr_err e) = (if me_code e = KILL_SWITCH_ACTIVATED then e
     else KillSwitchActivatedError ''DAST probe aborted by kill switch'' None)"
| "asKill err = KillSwitchActivatedError ''DAST probe aborted by kill switch'' None"

text \<open>
  What a probe meets, in order: the signal at the gate, the clock in \<open>throttle\<close>, the signal
  before the sleep, an error the sleep rejects with, the signal after the sleep, the signal
  after \<open>throttle\<close>, the instant the request leaves, what the transport does, and the clock when
  the answer is recorded.
\<close>

record probe_env =
  pv_gate :: probe_signal
  pv_now :: int
  pv_beforeSleep :: probe_signal
  pv_sleepError :: "montr_error option"
  pv_afterSleep :: probe_signal
  pv_afterThrottle :: probe_signal
  pv_sent :: int
  pv_response :: "probe_error + nat"
  pv_done :: int

definition throttle :: "scope_options \<Rightarrow> probe_env \<Rightarrow> scope_state \<Rightarrow> scope_state \<times> (montr_error + unit)" where
  "throttle g v st =
     (let (st', wait) = throttle_wait g (pv_now v) st in
      (st', case wait of
              None \<Rightarrow> Inr ()
            | Some ms \<Rightarrow> ebind (assertNotKilled (pv_beforeSleep v)) (\<lambda>u.
                case pv_sleepError v of Some e \<Rightarrow> Inl e | None \<Rightarrow> assertNotKilled (pv_afterSleep v))))"

text \<open>The gate of one probe: check, throttle, check the kill switch again.\<close>

definition probe_gate :: "url_parser \<Rightarrow> scope_options \<Rightarrow> probe_request \<Rightarrow> probe_env \<Rightarrow> scope_state
    \<Rightarrow> scope_state \<times> (montr_error + unit)" where
  "probe_gate parse g p v st =
     (case assertProbeAllowed parse g st (pv_gate v) (pq_url p) (pq_method p) of
        Inl e \<Rightarrow> (st, Inl e)
      | Inr u \<Rightarrow> (let (st', r) = throttle g v st in (st', ebind r (\<lambda>u. assertNotKilled (pv_afterThrottle v)))))"

text \<open>A request that has left the process: when, and the status and time of its answer.\<close>

record wire_entry =
  we_request :: probe_request
  we_sent :: int
  we_answer :: "(nat \<times> int) option"

datatype live_audit = Audit_probe probe_request nat | Audit_kill string

record live_state =
  ls_guard :: scope_state
  ls_wire :: "wire_entry list"
  ls_audit :: "live_audit list"
  ls_collected :: "(probe_request \<times> nat) list"

datatype loop_end = Probes_done | Stopped_by_guardrail montr_error | Halted_by_kill montr_error

fun probe_loop :: "url_parser \<Rightarrow> scope_options \<Rightarrow> (probe_request \<times> probe_env) list \<Rightarrow> live_state
    \<Rightarrow> live_state \<times> loop_end" where
  "probe_loop parse g [] s = (s, Probes_done)"
| "probe_loop parse g ((p, v) # rest) s =
     (case probe_gate parse g p v (ls_guard s) of
        (st, Inl err) \<Rightarrow>
          if isAbort (Montr_err err)
          then (s\<lparr>ls_guard := st, ls_audit := ls_audit s @ [Audit_kill (pq_url p)]\<rparr>, Halted_by_kill (asKill (Montr_err err)))
          else (s\<lparr>ls_guard := st\<rparr>, Stopped_by_guardrail err)
      | (st, Inr u) \<Rightarrow>
          (case pv_response v of
             Inl err \<Rightarrow>
               let s' = s\<lparr>ls_guard := st, ls_wire := ls_wire s @
                      [\<lparr>we_request = p, we_sent = pv_sent v, we_answer = None\<rparr>]\<rparr>
               in if isAbort err
                  then (s'\<lparr>ls_audit := ls_audit s' @ [Audit_kill (pq_url p)]\<rparr>, Halted_by_kill (asKill err))
                  else probe_loop parse g rest s'
           | Inr status \<Rightarrow>
               probe_loop parse g rest
                 (s\<lparr>ls_guard := guard_record (pq_method p) (pv_done v) st,
                    ls_wire := ls_wire s @
                      [\<lparr>we_request = p, we_sent = pv_sent v, we_answer = Some (status, pv_done v)\<rparr>],
                    ls_audit := ls_audit s @ [Audit_probe p status],
                    ls_collected := ls_collected s @ [(p, status)]\<rparr>)))"

definition live_start :: live_state where
  "live_start = \<lparr>ls_guard = new_scope_guard, ls_wire = [], ls_audit = [], ls_collected = []\<rparr>"

text \<open>
  The layer probes its findings one after the other with one guard. A guardrail stops the
  probes of its finding only, the kill switch stops the layer.
\<close>

fun confirm_loops :: "url_parser \<Rightarrow> scope_options \<Rightarrow> (probe_request \<times> probe_env) list list \<Rightarrow> live_state
    \<Rightarrow> live_state \<times> montr_error option" where
  "confirm_loops parse g [] s = (s, None)"
| "confirm_loops parse g (steps # rest) s =
     (case probe_loop parse g steps (s\<lparr>ls_collected := []\<rparr>) of
        (s', Halted_by_kill e) \<Rightarrow> (s', Some e)
      | (s', _) \<Rightarrow> confirm_loops parse g rest s')"

section \<open>Lemmas\<close>

lemma throttle_keeps: "sg_total (fst (throttle g v st)) = sg_total st" "sg_mutating (fst (throttle g v st)) = sg_mutating st"
  by (simp_all add: throttle_def throttle_wait_def Let_def)

lemma gate_keeps: "sg_total (fst (probe_gate parse g p v st)) = sg_total st"
    "sg_mutating (fst (probe_gate parse g p v st)) = sg_mutating st"
  using throttle_keeps[of g v st] by (cases "throttle g v st"; auto simp: probe_gate_def split: sum.splits)+

definition probe_ok :: "url_parser \<Rightarrow> scope_options \<Rightarrow> string \<Rightarrow> bool" where
  "probe_ok parse g url \<longleftrightarrow> isAllowlisted parse url (go_allowlist g) \<and> \<not> looksLikeProduction parse url
     \<and> go_egress g url = Inr ()"

lemma assertNotKilled_ok: "assertNotKilled sig = Inr () \<longleftrightarrow> sig = Not_aborted"
  by (cases sig rule: assertNotKilled.cases) auto

lemma gate_ok: "snd (probe_gate parse g p v st) = Inr () \<longleftrightarrow>
    pv_gate v = Not_aborted \<and> pv_afterThrottle v = Not_aborted \<and> snd (throttle g v st) = Inr ()
    \<and> sg_total st < maxRequestsPerScan (go_scope g)
    \<and> (is_mutating (pq_method p) \<longrightarrow> sg_mutating st < maxMutatingRequests (go_scope g))
    \<and> probe_ok parse g (pq_url p)"
  by (auto simp: probe_gate_def assertProbeAllowed_def probe_ok_def ebind_Inr_iff assertNotKilled_ok
      split: sum.splits prod.splits if_splits)

abbreviation answered :: "wire_entry list \<Rightarrow> wire_entry list" where
  "answered ws \<equiv> filter (\<lambda>w. we_answer w \<noteq> None) ws"

abbreviation mutating :: "wire_entry list \<Rightarrow> wire_entry list" where
  "mutating ws \<equiv> filter (\<lambda>w. is_mutating (pq_method (we_request w))) ws"

text \<open>What every probe loop keeps of the guard's counters and of the requests on the wire.\<close>

definition live_inv :: "url_parser \<Rightarrow> scope_options \<Rightarrow> (probe_request \<times> probe_env) set \<Rightarrow> live_state \<Rightarrow> bool" where
  "live_inv parse g pvs s \<longleftrightarrow>
     sg_total (ls_guard s) = length (answered (ls_wire s))
     \<and> sg_mutating (ls_guard s) = length (mutating (answered (ls_wire s)))
     \<and> sg_total (ls_guard s) \<le> maxRequestsPerScan (go_scope g)
     \<and> sg_mutating (ls_guard s) \<le> maxMutatingRequests (go_scope g)
     \<and> (\<forall>w \<in> set (ls_wire s). probe_ok parse g (pq_url (we_request w))
          \<and> (is_mutating (pq_method (we_request w)) \<longrightarrow> 0 < maxMutatingRequests (go_scope g))
          \<and> (\<exists>v. (we_request w, v) \<in> pvs \<and> we_sent w = pv_sent v
                \<and> pv_gate v = Not_aborted \<and> pv_afterThrottle v = Not_aborted))"

lemma probe_loop_inv:
  "live_inv parse g pvs s \<Longrightarrow> set steps \<subseteq> pvs \<Longrightarrow> live_inv parse g pvs (fst (probe_loop parse g steps s))"
proof (induction parse g steps s rule: probe_loop.induct)
  case (2 parse g p v rest s)
  obtain st r where gate: "probe_gate parse g p v (ls_guard s) = (st, r)" by fastforce
  have keep: "sg_total st = sg_total (ls_guard s)" "sg_mutating st = sg_mutating (ls_guard s)"
    using gate_keeps[of parse g p v "ls_guard s"] gate by simp_all
  show ?case
  proof (cases r)
    case (Inl err)
    then show ?thesis using "2.prems" gate keep by (simp add: live_inv_def)
  next
    case (Inr u)
    have ok: "pv_gate v = Not_aborted" "pv_afterThrottle v = Not_aborted" "probe_ok parse g (pq_url p)"
      "sg_total (ls_guard s) < maxRequestsPerScan (go_scope g)"
      "is_mutating (pq_method p) \<Longrightarrow> sg_mutating (ls_guard s) < maxMutatingRequests (go_scope g)"
      using gate_ok[of parse g p v "ls_guard s"] gate Inr by auto
    show ?thesis
    proof (cases "pv_response v")
      case (Inl err)
      let ?s = "s\<lparr>ls_guard := st, ls_wire := ls_wire s @ [\<lparr>we_request = p, we_sent = pv_sent v, we_answer = None\<rparr>]\<rparr>"
      have inv: "live_inv parse g pvs ?s"
        using "2.prems" ok keep by (auto simp: live_inv_def)
      then have "live_inv parse g pvs (fst (probe_loop parse g rest ?s))" if "\<not> isAbort err"
        using "2.IH"(1)[OF gate[symmetric] _ Inl refl that] \<open>r = Inr u\<close> "2.prems" by simp
      moreover have "live_inv parse g pvs (?s\<lparr>ls_audit := a\<rparr>)" for a using inv by (simp add: live_inv_def)
      ultimately show ?thesis using gate Inl \<open>r = Inr u\<close> by (simp add: Let_def)
    next
      case (Inr status)
      let ?s = "s\<lparr>ls_guard := guard_record (pq_method p) (pv_done v) st,
          ls_wire := ls_wire s @ [\<lparr>we_request = p, we_sent = pv_sent v, we_answer = Some (status, pv_done v)\<rparr>],
          ls_audit := ls_audit s @ [Audit_probe p status], ls_collected := ls_collected s @ [(p, status)]\<rparr>"
      have "live_inv parse g pvs ?s"
        using "2.prems" ok keep by (auto simp: live_inv_def guard_record_def)
      then have "live_inv parse g pvs (fst (probe_loop parse g rest ?s))"
        using "2.IH"(2)[OF gate[symmetric] \<open>r = Inr u\<close> Inr] "2.prems" by simp
      then show ?thesis using gate Inr \<open>r = Inr u\<close> by simp
    qed
  qed
qed simp

lemma confirm_loops_inv:
  "live_inv parse g pvs s \<Longrightarrow> set (concat stepss) \<subseteq> pvs \<Longrightarrow> live_inv parse g pvs (fst (confirm_loops parse g stepss s))"
proof (induction parse g stepss s rule: confirm_loops.induct)
  case (2 parse g steps rest s)
  obtain s' e where r: "probe_loop parse g steps (s\<lparr>ls_collected := []\<rparr>) = (s', e)" by fastforce
  have "live_inv parse g pvs (s\<lparr>ls_collected := []\<rparr>)" using "2.prems" by (simp add: live_inv_def)
  then have s': "live_inv parse g pvs s'" using probe_loop_inv[of parse g pvs _ steps] "2.prems" r by (metis Un_subset_iff concat.simps(2) fst_conv set_append)
  show ?case
    using "2.IH"[OF r[symmetric]] s' "2.prems" r by (cases e) auto
qed simp

text \<open>
  The pace of a guard: rounds of \<open>throttle\<close> and \<open>record\<close> under a clock that does not run
  backwards and a sleep that lasts at least as long as asked; the list is the instants
  recorded so far.
\<close>

inductive paced :: "scope_options \<Rightarrow> scope_state \<Rightarrow> int list \<Rightarrow> bool" for g where
  paced_new: "paced g new_scope_guard []"
| paced_round: "paced g st hist \<Longrightarrow> throttle_wait g now st = (st', wait) \<Longrightarrow> \<forall>t \<in> set hist. t \<le> now
    \<Longrightarrow> now + (case wait of None \<Rightarrow> 0 | Some ms \<Rightarrow> ms) \<le> done1
    \<Longrightarrow> paced g (guard_record m done1 st') (hist @ [done1])"

definition burst :: "scope_options \<Rightarrow> nat" where
  "burst g = nat \<lceil>maxRequestsPerSecond (go_scope g)\<rceil>"

lemma sorted_window: "sorted ts \<Longrightarrow> filter (\<lambda>t. now - t < (w :: int)) ts = dropWhile (\<lambda>t. \<not> now - t < w) ts"
proof (induction ts)
  case (Cons a ts)
  show ?case
  proof (cases "now - a < w")
    case True
    then have "\<forall>t \<in> set (a # ts). now - t < w" using Cons.prems by auto
    then have "filter (\<lambda>t. now - t < w) (a # ts) = a # ts" by (simp only: filter_id_conv)
    then show ?thesis using True by simp
  qed (use Cons in simp)
qed simp

definition spaced :: "nat \<Rightarrow> int list \<Rightarrow> bool" where
  "spaced c ts \<longleftrightarrow> (\<forall>i. i + c < length ts \<longrightarrow> 1000 \<le> ts ! (i + c) - ts ! i)"

definition paced_inv :: "scope_options \<Rightarrow> scope_state \<Rightarrow> int list \<Rightarrow> bool" where
  "paced_inv g st hist \<longleftrightarrow> sorted hist \<and> spaced (burst g) hist
     \<and> (\<exists>k \<le> length hist. sg_sendTimes st = drop k hist \<and> (\<forall>t \<in> set (take k hist). t + 1000 \<le> last hist))"

lemma window_of_history:
  assumes "sorted hist" and "sg_sendTimes st = drop k hist" and "k \<le> length hist"
    and "\<forall>t \<in> set (take k hist). t + 1000 \<le> last hist" and "\<forall>t \<in> set hist. t \<le> now"
  shows "\<exists>k' \<le> length hist. filter (\<lambda>t. now - t < 1000) (sg_sendTimes st) = drop k' hist
     \<and> (\<forall>t \<in> set (take k' hist). 1000 \<le> now - t) \<and> (k' < length hist \<longrightarrow> now - hist ! k' < 1000)"
proof -
  let ?P = "\<lambda>t. \<not> now - t < 1000"
  have old: "\<forall>t \<in> set (take k hist). ?P t"
  proof
    fix t assume t: "t \<in> set (take k hist)"
    then have "hist \<noteq> []" by auto
    then have "last hist \<le> now" using assms(5) by simp
    then show "?P t" using assms(4) t by fastforce
  qed
  have "dropWhile ?P hist = dropWhile ?P (drop k hist)"
    by (subst append_take_drop_id[of k hist, symmetric]) (rule dropWhile_append2, use old in blast)
  then have "filter (\<lambda>t. now - t < 1000) (sg_sendTimes st) = dropWhile ?P hist"
    using sorted_window[of "drop k hist" now 1000] assms(1,2) by (simp add: sorted_wrt_drop)
  also have "\<dots> = drop (length (takeWhile ?P hist)) hist" by (rule dropWhile_eq_drop)
  finally have f: "filter (\<lambda>t. now - t < 1000) (sg_sendTimes st) = drop (length (takeWhile ?P hist)) hist" .
  have "take (length (takeWhile ?P hist)) hist = takeWhile ?P hist" by (rule takeWhile_eq_take[symmetric])
  then have "\<forall>t \<in> set (take (length (takeWhile ?P hist)) hist). 1000 \<le> now - t"
    using set_takeWhileD[of _ ?P hist] by (metis linorder_not_less)
  moreover have "length (takeWhile ?P hist) < length hist \<longrightarrow> now - hist ! length (takeWhile ?P hist) < 1000"
    using nth_length_takeWhile[of ?P hist] by blast
  ultimately show ?thesis using f length_takeWhile_le[of ?P hist] by blast
qed

lemma paced_keeps:
  assumes "0 < maxRequestsPerSecond (go_scope g)"
  shows "paced g st hist \<Longrightarrow> paced_inv g st hist"
proof (induction rule: paced.induct)
  case paced_new
  show ?case by (simp add: paced_inv_def new_scope_guard_def spaced_def)
next
  case (paced_round st hist now st' wait done1 m)
  let ?c = "burst g" and ?rps = "maxRequestsPerSecond (go_scope g)"
  have c: "0 < ?c" using assms by (simp add: burst_def)
  from paced_round.IH obtain k where k: "sorted hist" "spaced ?c hist" "k \<le> length hist"
    "sg_sendTimes st = drop k hist" "\<forall>t \<in> set (take k hist). t + 1000 \<le> last hist"
    by (auto simp: paced_inv_def)
  obtain k' where k': "k' \<le> length hist" "filter (\<lambda>t. now - t < 1000) (sg_sendTimes st) = drop k' hist"
    "\<forall>t \<in> set (take k' hist). 1000 \<le> now - t" "k' < length hist \<Longrightarrow> now - hist ! k' < 1000"
    using window_of_history[OF k(1,4,3,5) paced_round.hyps(3)] by blast
  have times: "sg_sendTimes st' = drop k' hist"
    and wait: "wait = (if ?rps \<le> of_nat (length hist - k')
        \<and> 0 < 1000 - (now - (case drop k' hist of [] \<Rightarrow> now | t # _ \<Rightarrow> t))
        then Some (1000 - (now - (case drop k' hist of [] \<Rightarrow> now | t # _ \<Rightarrow> t))) else None)"
    using paced_round.hyps(2) assms k'(2) by (auto simp: throttle_wait_def Let_def)
  have "0 \<le> (case wait of None \<Rightarrow> 0 | Some ms \<Rightarrow> ms)" by (auto simp: wait)
  then have late: "now \<le> done1" using paced_round.hyps(4) by linarith
  have sorted: "sorted (hist @ [done1])"
    using k(1) late paced_round.hyps(3) by (force simp: sorted_append)
  have new: "1000 \<le> done1 - hist ! i" if i: "i + ?c = length hist" for i
  proof (cases "i < k'")
    case True
    then have "hist ! i \<in> set (take k' hist)" using k'(1) by (auto simp: in_set_conv_nth)
    then show ?thesis using k'(3) late by force
  next
    case False
    have ik: "k' \<le> i" "k' < length hist" "i < length hist" using False c i by auto
    have "?c \<le> length hist - k'" using i ik by simp
    then have full: "?rps \<le> of_nat (length hist - k')"
      by (simp add: burst_def nat_le_iff ceiling_le_iff)
    have head: "(case drop k' hist of [] \<Rightarrow> now | t # _ \<Rightarrow> t) = hist ! k'"
      using ik(2) by (simp add: Cons_nth_drop_Suc[symmetric])
    show ?thesis
    proof (cases "i = k'")
      case True
      then have "wait = Some (1000 - (now - hist ! k'))" using full head k'(4)[OF ik(2)] by (simp add: wait)
      then show ?thesis using paced_round.hyps(4) True by simp
    next
      case False
      then have "k' + ?c < length hist" using i ik by simp
      then have "1000 \<le> hist ! (k' + ?c) - hist ! k'" "hist ! (k' + ?c) \<le> now"
        using k(2) paced_round.hyps(3) by (auto simp: spaced_def)
      then show ?thesis using k'(4)[OF ik(2)] by linarith
    qed
  qed
  have "spaced ?c (hist @ [done1])"
    using k(2) new c by (auto simp: spaced_def nth_append less_Suc_eq)
  moreover have "\<forall>t \<in> set (take k' (hist @ [done1])). t + 1000 \<le> last (hist @ [done1])"
    using k'(1,3) late by force
  moreover have "sg_sendTimes (guard_record m done1 st') = drop k' (hist @ [done1])"
    using times k'(1) by (simp add: guard_record_def)
  ultimately show ?case
    using sorted k'(1) by (auto simp: paced_inv_def intro!: exI[of _ k'])
qed

section \<open>Properties\<close>


definition ex_parse :: url_parser where
  "ex_parse u = (case js_split_char (CHR ''/'') u of
      sc # e # h # rest \<Rightarrow> if h = [] then None else Some (h, CHR ''/'' # js_join ''/'' rest)
    | _ \<Rightarrow> None)"

definition ex_scope :: scope_options where
  "ex_scope = \<lparr>go_scope = default_dast_scope\<lparr>maxRequestsPerScan := 1\<rparr>,
     go_allowlist = [''https://staging.acme.io/app''], go_egress = (\<lambda>u. Inr ())\<rparr>"

definition ex_probe :: probe_request where
  "ex_probe = \<lparr>pq_method = ''get'', pq_url = ''https://staging.acme.io/app/q'', pq_headers = None, pq_body = None\<rparr>"

definition ex_env :: "probe_error + nat \<Rightarrow> probe_env" where
  "ex_env r = \<lparr>pv_gate = Not_aborted, pv_now = 0, pv_beforeSleep = Not_aborted, pv_sleepError = None,
     pv_afterSleep = Not_aborted, pv_afterThrottle = Not_aborted, pv_sent = 5, pv_response = r, pv_done = 9\<rparr>"

lemma ex_probe_facts:
  "isAllowlisted ex_parse (pq_url ex_probe) (go_allowlist ex_scope)"
  "\<not> looksLikeProduction ex_parse (pq_url ex_probe)"
  "\<not> isAllowlisted ex_parse ''https://staging.acme.io.evil.net/app'' (go_allowlist ex_scope)"
  "length (ls_wire (fst (confirm_loops ex_parse ex_scope [[(ex_probe, ex_env (Inr 200))], [(ex_probe, ex_env (Inr 200))]] live_start))) = 1"
  by code_simp+


text \<open>A request without an answer is not counted: however low the cap, a run of probes to a
  permitted target whose connection fails sends every one of them and leaves the guard's
  counters at zero.\<close>

lemma unanswered_requests_uncounted:
  assumes "isAllowlisted parse (pq_url p) (go_allowlist g)" and "\<not> looksLikeProduction parse (pq_url p)"
    and "go_egress g (pq_url p) = Inr ()" and "0 < maxRequestsPerScan (go_scope g)"
    and "is_mutating (pq_method p) \<Longrightarrow> 0 < maxMutatingRequests (go_scope g)"
    and "pv_gate v = Not_aborted" and "pv_afterThrottle v = Not_aborted" and "pv_response v = Inl (Other_err m)"
  shows "length (ls_wire (fst (probe_loop parse g (replicate n (p, v)) live_start))) = n
     \<and> sg_total (ls_guard (fst (probe_loop parse g (replicate n (p, v)) live_start))) = 0"
proof -
  have gate: "probe_gate parse g p v st = (st, Inr ())" if "st = new_scope_guard" for st
  proof -
    have t: "throttle g v st = (st, Inr ())"
      by (auto simp: that throttle_def throttle_wait_def new_scope_guard_def Let_def)
    have "snd (throttle g v st) = Inr ()" by (simp add: t)
    then have "snd (probe_gate parse g p v st) = Inr ()"
      using assms(1-7) unfolding gate_ok by (simp add: probe_ok_def that new_scope_guard_def)
    moreover have "fst (probe_gate parse g p v st) = st" by (simp add: probe_gate_def t split: sum.splits)
    ultimately show ?thesis by (metis prod.collapse)
  qed
  have "ls_guard s = new_scope_guard \<Longrightarrow>
      length (ls_wire (fst (probe_loop parse g (replicate n (p, v)) s))) = length (ls_wire s) + n
      \<and> ls_guard (fst (probe_loop parse g (replicate n (p, v)) s)) = new_scope_guard" for s
    by (induction n arbitrary: s) (auto simp: gate assms(8) Let_def)
  from this[of live_start] show ?thesis by (simp add: live_start_def new_scope_guard_def)
qed

lemma unanswered_requests_uncounted_witness:
  "maxRequestsPerScan (go_scope ex_scope) = 1
   \<and> length (ls_wire (fst (probe_loop ex_parse ex_scope
       (replicate 1000 (ex_probe, ex_env (Inl (Other_err ''timeout'')))) live_start))) = 1000"
proof -
  have "\<not> is_mutating (pq_method ex_probe)" by code_simp
  then show ?thesis
    using unanswered_requests_uncounted[of ex_parse ex_probe ex_scope "ex_env (Inl (Other_err ''timeout''))" "''timeout''" 1000]
      ex_probe_facts(1,2) by (simp add: ex_scope_def ex_env_def)
qed

text \<open>The rate limit: with a clock that does not run backwards and sleeps that last, any two
  answers as many places apart as the limit, rounded up, are at least a second apart.\<close>

lemma rate_limit_holds:
  assumes "paced g st hist" and "0 < maxRequestsPerSecond (go_scope g)"
    and "i + nat \<lceil>maxRequestsPerSecond (go_scope g)\<rceil> < length hist"
  shows "1000 \<le> hist ! (i + nat \<lceil>maxRequestsPerSecond (go_scope g)\<rceil>) - hist ! i"
  using paced_keeps[OF assms(2,1)] assms(3) by (auto simp: paced_inv_def spaced_def burst_def)

definition ex_fast_scope :: scope_options where
  "ex_fast_scope = ex_scope\<lparr>go_scope := default_dast_scope\<lparr>maxRequestsPerSecond := 3 / 2\<rparr>\<rparr>"

lemma rate_limit_holds_witness: "(1000 :: int) \<le> [0, 20, 1000] ! nat \<lceil>3 / 2 :: rat\<rceil> - [0, 20, 1000] ! 0"
proof -
  have r: "maxRequestsPerSecond (go_scope ex_fast_scope) = 3 / 2" by (simp add: ex_fast_scope_def)
  have g: "\<not> is_mutating ''GET''" by code_simp
  have "paced ex_fast_scope (guard_record ''GET'' 0 new_scope_guard) ([] @ [0])"
    by (rule paced_round[OF paced_new, where now = 0 and wait = None])
      (simp_all add: throttle_wait_def Let_def new_scope_guard_def r)
  then have "paced ex_fast_scope \<lparr>sg_total = 1, sg_mutating = 0, sg_sendTimes = [0]\<rparr> [0]"
    by (simp add: guard_record_def new_scope_guard_def g)
  then have "paced ex_fast_scope (guard_record ''GET'' 20 \<lparr>sg_total = 1, sg_mutating = 0, sg_sendTimes = [0]\<rparr>) ([0] @ [20])"
    by (rule paced_round[where now = 10 and wait = None]) (simp_all add: throttle_wait_def Let_def r)
  then have "paced ex_fast_scope \<lparr>sg_total = 2, sg_mutating = 0, sg_sendTimes = [0, 20]\<rparr> [0, 20]"
    by (simp add: guard_record_def g numeral_2_eq_2)
  then have "paced ex_fast_scope (guard_record ''GET'' 1000 \<lparr>sg_total = 2, sg_mutating = 0, sg_sendTimes = [0, 20]\<rparr>) ([0, 20] @ [1000])"
    by (rule paced_round[where now = 30 and wait = "Some 970"]) (simp_all add: throttle_wait_def Let_def r)
  then have p: "paced ex_fast_scope (guard_record ''GET'' 1000 \<lparr>sg_total = 2, sg_mutating = 0, sg_sendTimes = [0, 20]\<rparr>)
      [0, 20, 1000]" by simp
  have "\<lceil>3 / 2 :: rat\<rceil> = 2" by (rule ceiling_unique) simp_all
  then show ?thesis using rate_limit_holds[OF p, of 0] by (simp add: r)
qed

text \<open>Authorization of a live run, exactly: it is granted to an approved run with DAST
  enabled whose target is on the allowlist and does not look like production; and the host
  of a target on the allowlist is the host of an entry, not one it only begins or ends with.\<close>

lemma live_authorization_exact:
  "(assertLiveAuthorized parse config allowLive (Some url) = Inr url \<longleftrightarrow>
     dc_enabled (cfg_dast config) \<and> allowLive \<and> url \<noteq> []
     \<and> isAllowlisted parse url (dc_allowlist (cfg_dast config)) \<and> \<not> looksLikeProduction parse url)
   \<and> (isAllowlisted parse url allowlist \<longrightarrow> (\<exists>entry \<in> set allowlist. hostOf parse entry = hostOf parse url))"
proof -
  have "isAllowlisted parse url [] = False" by (simp add: isAllowlisted_def split: sum.splits prod.splits)
  then have "assertLiveAuthorized parse config allowLive (Some url) = Inr url \<longleftrightarrow>
     dc_enabled (cfg_dast config) \<and> allowLive \<and> url \<noteq> []
     \<and> isAllowlisted parse url (dc_allowlist (cfg_dast config)) \<and> \<not> looksLikeProduction parse url"
    by (auto simp: assertLiveAuthorized_def Let_def)
  moreover have "\<exists>entry \<in> set allowlist. hostOf parse entry = hostOf parse url" if listed: "isAllowlisted parse url allowlist"
  proof -
    obtain h p where "toUrl parse url = Inr (h, p)" using listed
      by (cases "toUrl parse url") (auto simp: isAllowlisted_def)
    then obtain entry where e: "entry \<in> set allowlist" "entry_allows parse url (js_lower h) (or_slash p) entry"
      using listed by (auto simp: isAllowlisted_def list_ex_iff)
    then have "entry = url \<or> (\<exists>eh ep. toUrl parse entry = Inr (eh, ep) \<and> js_lower eh = js_lower h)"
      by (auto simp: entry_allows_def split: sum.splits)
    then have "hostOf parse entry = hostOf parse url"
      using \<open>toUrl parse url = Inr (h, p)\<close> by (auto simp: hostOf_def)
    then show ?thesis using e(1) by blast
  qed
  ultimately show ?thesis by blast
qed

lemma live_authorization_exact_witness:
  "assertLiveAuthorized ex_parse (default_config ''acme''\<lparr>cfg_dast := default_dast_config\<lparr>dc_enabled := True,
      dc_allowlist := go_allowlist ex_scope\<rparr>\<rparr>) True (Some (pq_url ex_probe)) = Inr (pq_url ex_probe)
   \<and> hostOf ex_parse ''https://staging.acme.io/app'' = hostOf ex_parse (pq_url ex_probe)"
proof -
  have "pq_url ex_probe \<noteq> []" by (simp add: ex_probe_def)
  then show ?thesis
    using live_authorization_exact[of ex_parse "default_config ''acme''\<lparr>cfg_dast := default_dast_config\<lparr>dc_enabled := True,
      dc_allowlist := go_allowlist ex_scope\<rparr>\<rparr>" True "pq_url ex_probe" "go_allowlist ex_scope"] ex_probe_facts(1,2)
    by (simp add: ex_scope_def)
qed

end
