(* ===== verification/LlmModels.thy ===== *)
theory LlmModels
  imports CostMeter EgressGuard
begin

text \<open>
  \<open>packages/llm-gateway/src\<close>, the pure parts: requests and completions (\<open>contracts/src/llm.ts\<close>),
  the model matrix and its floor (\<open>models.ts\<close>), the key-tier guard (\<open>keytier.ts\<close>), the
  classification of provider errors (\<open>errors.ts\<close>) and the confidence of a response
  (\<open>escalation.ts\<close>). \<open>parse_json\<close> stands for \<open>JSON.parse\<close>.
\<close>

section \<open>Requests and completions\<close>

datatype llm_role = Role_system | Role_user | Role_assistant | Role_tool

datatype message_content = Text_content string | Blocks "string list"

record llm_message =
  lm_role :: llm_role
  lm_content :: message_content
  lm_rest :: json

datatype llm_purpose = Appmap_labeling | Threat_model_purpose | Triage_purpose | Correlation_purpose
  | Confirmation_purpose | Fix_generation | Report_synthesis | Executive_summary | Other_purpose

record call_metadata =
  md_scanId :: "string option"
  md_clientId :: "string option"
  md_layer :: "layer_id option"
  md_purpose :: llm_purpose

datatype response_format = Format_text | Format_json

text \<open>Tools, effort, response schema and the stream flag are carried as they are.\<close>

record llm_request =
  lr_model :: "string option"
  lr_tier :: "model_tier option"
  lr_system :: "string option"
  lr_messages :: "llm_message list"
  lr_maxTokens :: int
  lr_temperature :: "rat option"
  lr_responseFormat :: response_format
  lr_rest :: json
  lr_metadata :: call_metadata

definition llm_request_valid :: "llm_request \<Rightarrow> bool" where
  "llm_request_valid r \<longleftrightarrow> lr_messages r \<noteq> [] \<and> 0 < lr_maxTokens r
     \<and> (case lr_temperature r of None \<Rightarrow> True | Some t \<Rightarrow> 0 \<le> t \<and> t \<le> 2)"

datatype stop_reason = End_turn | Max_tokens | Stop_sequence | Tool_use | Refusal | Stop_error

record adapter_completion =
  cp_id :: string
  cp_model :: string
  cp_content :: string
  cp_stopReason :: stop_reason
  cp_usage :: token_usage
  cp_toolCalls :: "json list option"

record llm_response =
  rs_id :: string
  rs_provider :: provider
  rs_model :: string
  rs_content :: string
  rs_stopReason :: stop_reason
  rs_usage :: token_usage
  rs_latencyMs :: int
  rs_toolCalls :: "json list option"
  rs_confidence :: "rat option"

record llm_call_log =
  lg_provider :: provider
  lg_model :: string
  lg_usage :: token_usage
  lg_latencyMs :: int
  lg_metadata :: call_metadata
  lg_at :: string

definition contentToString :: "message_content \<Rightarrow> string" where
  "contentToString c = (case c of Text_content s \<Rightarrow> s | Blocks bs \<Rightarrow> concat bs)"

text \<open>\<open>Math.ceil(text.length / 4)\<close>.\<close>

definition estimateTokens :: "llm_request \<Rightarrow> int" where
  "estimateTokens r =
     (let n = length ((case lr_system r of None \<Rightarrow> [] | Some s \<Rightarrow> s)
            @ concat (map (\<lambda>m. contentToString (lm_content m)) (lr_messages r)))
      in int ((n + 3) div 4))"

section \<open>Configuration\<close>

datatype key_tier_guard_mode = Guard_off | Guard_warn | Guard_block

record llm_config =
  lc_provider :: provider
  lc_endpoint :: "string option"
  lc_apiKey :: "string option"
  lc_matrix :: "model_tier \<Rightarrow> string"
  lc_fallbackModel :: "string option"
  lc_keyTierGuard :: key_tier_guard_mode
  lc_enforceModelFloor :: bool

definition default_llm_config :: llm_config where
  "default_llm_config = \<lparr>lc_provider = Anthropic, lc_endpoint = None, lc_apiKey = None,
     lc_matrix = RECOMMENDED_MODEL, lc_fallbackModel = None, lc_keyTierGuard = Guard_warn,
     lc_enforceModelFloor = True\<rparr>"

section \<open>Model matrix and floor\<close>

definition modelRank :: "string \<Rightarrow> nat" where
  "modelRank modelId =
     (let i = js_lower (normalizeModelId modelId) in
      if js_includes i ''opus'' \<or> js_includes i ''fable'' \<or> js_includes i ''mythos'' then 4
      else if js_includes i ''sonnet-5'' \<or> js_includes i ''sonnet5'' then 3
      else if js_includes i ''sonnet'' then 2
      else if js_includes i ''haiku'' then 1 else 0)"

definition MODEL_FLOOR_minModelId :: string where
  "MODEL_FLOOR_minModelId = ''claude-sonnet-5''"

definition MODEL_FLOOR_reason :: string where
  "MODEL_FLOOR_reason = ''Below Sonnet-5-class, exploit confirmation accuracy degrades materially.''"

definition FLOOR_RANK :: nat where "FLOOR_RANK = modelRank MODEL_FLOOR_minModelId"

definition isBelowFloor :: "string \<Rightarrow> bool" where
  "isBelowFloor modelId \<longleftrightarrow> 0 < modelRank modelId \<and> modelRank modelId < FLOOR_RANK"

record model_descriptor =
  de_provider :: provider
  de_modelId :: string
  de_tier :: model_tier
  de_contextWindow :: nat
  de_maxOutputTokens :: nat
  de_belowFloor :: bool

definition capsForModel :: "string \<Rightarrow> nat \<times> nat" where
  "capsForModel modelId =
     (if modelRank modelId \<in> {2, 3, 4} then (1000000, 64000)
      else if modelRank modelId = 1 then (200000, 64000) else (200000, 8192))"

definition inferTier :: "string \<Rightarrow> model_tier" where
  "inferTier modelId =
     (let rank = modelRank modelId in
      if 4 \<le> rank then Confirmation else if rank \<le> 1 \<and> 0 < rank then Triage else Default_tier)"

definition descriptor :: "provider \<Rightarrow> string \<Rightarrow> model_tier \<Rightarrow> model_descriptor" where
  "descriptor p modelId tier = \<lparr>de_provider = p, de_modelId = modelId, de_tier = tier,
     de_contextWindow = fst (capsForModel modelId), de_maxOutputTokens = snd (capsForModel modelId),
     de_belowFloor = (tier = Confirmation \<and> isBelowFloor modelId)\<rparr>"

definition TIER_ORDER :: "model_tier list" where
  "TIER_ORDER = [Triage, Default_tier, Confirmation]"

definition buildDescriptors :: "llm_config \<Rightarrow> model_descriptor list" where
  "buildDescriptors c = map (\<lambda>t. descriptor (lc_provider c) (lc_matrix c t) t) TIER_ORDER"

text \<open>The index in the ladder, and the tier above.\<close>

fun tier_index :: "model_tier \<Rightarrow> nat" where
  "tier_index Triage = 0"
| "tier_index Default_tier = 1"
| "tier_index Confirmation = 2"

definition nextTier :: "model_tier \<Rightarrow> model_tier option" where
  "nextTier t = (if tier_index t = length TIER_ORDER - 1 then None else Some (TIER_ORDER ! (tier_index t + 1)))"

text \<open>A tier, or the identifier of a model.\<close>

datatype tier_or_id = A_tier model_tier | An_id string

definition resolveDescriptor :: "llm_config \<Rightarrow> tier_or_id \<Rightarrow> model_descriptor" where
  "resolveDescriptor c x =
     (case x of
        A_tier t \<Rightarrow> (case find (\<lambda>d. de_tier d = t) (buildDescriptors c) of
            Some d \<Rightarrow> d | None \<Rightarrow> buildDescriptors c ! 1)
      | An_id m \<Rightarrow> (case find (\<lambda>d. de_modelId d = m) (buildDescriptors c) of
            Some d \<Rightarrow> d | None \<Rightarrow> descriptor (lc_provider c) m (inferTier m)))"

definition assertModelFloor :: "llm_config \<Rightarrow> bool \<Rightarrow> montr_error + bool" where
  "assertModelFloor c strict =
     (let modelId = lc_matrix c Confirmation in
      if \<not> lc_enforceModelFloor c then Inr False
      else if \<not> isBelowFloor modelId then Inr False
      else if strict
      then Inl (ModelBelowFloorError MODEL_FLOOR_reason (Some [(''model'', JStr modelId),
             (''floor'', JStr MODEL_FLOOR_minModelId), (''tier'', JStr ''confirmation'')]))
      else Inr True)"

section \<open>Key-tier guard\<close>

definition DATA_RETAINING_DEFAULT :: "provider set" where
  "DATA_RETAINING_DEFAULT = {Moonshot, Zhipu, Deepseek}"

fun key_tier_str :: "key_tier \<Rightarrow> string" where
  "key_tier_str Enterprise = ''enterprise''"
| "key_tier_str Key_unknown = ''unknown''"
| "key_tier_str Data_retaining = ''data_retaining''"

definition detectKeyTier :: "provider \<Rightarrow> key_tier option \<Rightarrow> key_tier" where
  "detectKeyTier p declared =
     (case declared of
        Some t \<Rightarrow> t
      | None \<Rightarrow> if p = Bedrock \<or> p = Vertex \<or> p = Azure then Enterprise
                 else if p \<in> DATA_RETAINING_DEFAULT then Data_retaining else Key_unknown)"

datatype guard_action = Key_allowed | Key_warned

record key_tier_result =
  kt_tier :: key_tier
  kt_suspect :: bool
  kt_action :: guard_action

definition applyKeyTierGuard :: "key_tier \<Rightarrow> key_tier_guard_mode \<Rightarrow> provider \<Rightarrow> montr_error + key_tier_result" where
  "applyKeyTierGuard tier mode p =
     (let suspect = (tier \<noteq> Enterprise) in
      if mode = Guard_off \<or> \<not> suspect
      then Inr \<lparr>kt_tier = tier, kt_suspect = suspect, kt_action = Key_allowed\<rparr>
      else if mode = Guard_block
      then Inl (KeyTierRejectedError (''Suspected data-retaining key tier '' @ [CHR 0x22] @ key_tier_str tier
             @ [CHR 0x22] @ '' blocked by policy ('' @ provider_str p @ '')'')
             (Some [(''provider'', JStr (provider_str p)), (''keyTier'', JStr (key_tier_str tier))]))
      else Inr \<lparr>kt_tier = tier, kt_suspect = suspect, kt_action = Key_warned\<rparr>)"

section \<open>Provider errors\<close>

text \<open>What an adapter rejects with: a typed error, or a raw one with a status, a name and a message.\<close>

datatype provider_error = P_typed montr_error | P_raw "int option" string string

definition RETRIABLE_STATUS :: "int set" where
  "RETRIABLE_STATUS = {408, 409, 425, 429, 500, 502, 503, 504, 529}"

definition transient_name :: regex where
  "transient_name = rx_words [''abort'', ''timeout'', ''connection'', ''econnreset'', ''etimedout'',
     ''enotfound'', ''eai_again'', ''socket'']"

definition transient_message :: regex where
  "transient_message = rx_words [''timed out'', ''timeout'', ''econnreset'', ''etimedout'', ''socket hang up'',
     ''network'', ''fetch failed'']"

fun isRetriableProviderError :: "provider_error \<Rightarrow> bool" where
  "isRetriableProviderError (P_typed e) = me_retriable e"
| "isRetriableProviderError (P_raw status name msg) =
     (case status of
        Some s \<Rightarrow> s \<in> RETRIABLE_STATUS
      | None \<Rightarrow> rx_test_i transient_name name \<or> rx_test_i transient_message msg)"

fun toGatewayError :: "provider_error \<Rightarrow> provider \<Rightarrow> montr_error" where
  "toGatewayError (P_typed e) p = e"
| "toGatewayError (P_raw status name msg) p =
     (let details = (''provider'', JStr (provider_str p)) #
            (case status of None \<Rightarrow> [] | Some s \<Rightarrow> [(''status'', JNum (of_int s))]) in
      if status = Some 429
      then RateLimitExceededError (''LLM provider rate limit ('' @ provider_str p @ '')'') (Some details)
      else MontrError INTERNAL (''LLM provider call failed ('' @ provider_str p @ ''): '' @ msg)
             (Some (isRetriableProviderError (P_raw status name msg))) (Some details))"

definition timeoutError :: "provider \<Rightarrow> int \<Rightarrow> montr_error" where
  "timeoutError p ms = MontrError INTERNAL (''LLM provider call timed out after '' @ nat_str (nat ms) @ ''ms'')
     (Some True) (Some [(''provider'', JStr (provider_str p)), (''timeoutMs'', JNum (of_int ms))])"

section \<open>Confidence of a response\<close>

datatype confidence_source = Self_reported | From_refusal | Unparseable_json | No_signal

record confidence_signal =
  cs_confidence :: "rat option"
  cs_low :: bool
  cs_source :: confidence_source

record escalation_policy =
  es_enabled :: bool
  es_confidenceThreshold :: "rat option"
  es_maxEscalations :: "nat option"

definition DEFAULT_CONFIDENCE_THRESHOLD :: rat where "DEFAULT_CONFIDENCE_THRESHOLD = 1 / 2"

definition DEFAULT_MAX_ESCALATIONS :: nat where "DEFAULT_MAX_ESCALATIONS = 2"

definition coerceReportedConfidence :: "json \<Rightarrow> rat option" where
  "coerceReportedConfidence v =
     (case v of
        JNum n \<Rightarrow> if 0 \<le> n \<and> n \<le> 1 then Some n else None
      | JStr s \<Rightarrow> (let norm = js_lower (js_trim s) in
          if norm = ''low'' then Some (fl64 (1 / 5))
          else if norm = ''medium'' \<or> norm = ''med'' then Some (1 / 2)
          else if norm = ''high'' then Some (fl64 (9 / 10)) else None)
      | _ \<Rightarrow> None)"

definition extractSelfReportedConfidence :: "(string \<Rightarrow> json option) \<Rightarrow> string \<Rightarrow> rat option" where
  "extractSelfReportedConfidence parse_json content =
     (case parse_json content of
        Some (JObj kvs) \<Rightarrow> (case map_of kvs ''confidence'' of Some v \<Rightarrow> coerceReportedConfidence v | None \<Rightarrow> None)
      | _ \<Rightarrow> None)"

definition evaluateConfidence ::
    "(string \<Rightarrow> json option) \<Rightarrow> response_format \<Rightarrow> string \<Rightarrow> stop_reason \<Rightarrow> rat \<Rightarrow> confidence_signal" where
  "evaluateConfidence parse_json fmt content stop threshold =
     (let reported = (if fmt = Format_json then extractSelfReportedConfidence parse_json content else None) in
      case reported of
        Some c \<Rightarrow> \<lparr>cs_confidence = Some c, cs_low = (c < threshold), cs_source = Self_reported\<rparr>
      | None \<Rightarrow>
          if stop = Refusal then \<lparr>cs_confidence = None, cs_low = True, cs_source = From_refusal\<rparr>
          else if fmt = Format_json \<and> parse_json content = None
          then \<lparr>cs_confidence = None, cs_low = True, cs_source = Unparseable_json\<rparr>
          else \<lparr>cs_confidence = None, cs_low = False, cs_source = No_signal\<rparr>)"

definition isEligibleForEscalation :: "llm_request \<Rightarrow> bool" where
  "isEligibleForEscalation r \<longleftrightarrow> lr_tier r \<noteq> None \<and> lr_model r = None"

definition withEscalatedTier :: "llm_request \<Rightarrow> model_tier \<Rightarrow> llm_request" where
  "withEscalatedTier r t = r\<lparr>lr_tier := Some t, lr_model := None\<rparr>"

section \<open>Lemmas\<close>

lemma nextTier_climbs: "nextTier t = Some u \<Longrightarrow> tier_index u = tier_index t + 1"
  by (cases t) (auto simp: nextTier_def TIER_ORDER_def)

lemma tier_index_le: "tier_index t \<le> 2"
  by (cases t) auto

lemma resolve_tier: "de_modelId (resolveDescriptor c (A_tier t)) = lc_matrix c t"
  by (cases t) (simp_all add: resolveDescriptor_def buildDescriptors_def TIER_ORDER_def descriptor_def)

lemma key_tier_block: "applyKeyTierGuard (detectKeyTier p declared) Guard_block p = Inr r \<Longrightarrow>
    declared = Some Enterprise \<or> declared = None \<and> p \<in> {Bedrock, Vertex, Azure}"
  by (auto simp: applyKeyTierGuard_def detectKeyTier_def Let_def split: option.splits if_splits)

end
