(* ===== verification/LlmGateway.thy ===== *)
theory LlmGateway
  imports LlmModels
begin

text \<open>
  \<open>gateway.ts\<close> and \<open>retry.ts\<close> of \<open>packages/llm-gateway/src\<close>: a completion with its checks
  before dispatch, retries, fallback, accounting and tier escalation. The provider adapter is
  a parameter: for the number of dispatches so far, the request and the model, how long it
  takes (milliseconds) and what it settles with. Meters are shared objects, so they have
  addresses; the registry of budgets does not change during a call.
\<close>

section \<open>State\<close>

record gateway =
  g_config :: llm_config
  g_provider :: provider
  g_egress :: egress_guard
  g_registry :: "nat budget_registry option"
  g_costMeter :: "nat option"
  g_escalation :: "escalation_policy option"
  g_maxRetries :: nat
  g_baseDelayMs :: int
  g_maxDelayMs :: int
  g_timeoutMs :: int
  g_iso :: "int \<Rightarrow> string"

record gateway_world =
  gw_meters :: "(nat, cost_meter) jsmap"
  gw_dispatched :: "(string \<times> llm_request) list"
  gw_warnedFloor :: "string list"
  gw_callLogs :: "llm_call_log list"
  gw_slept :: "int list"
  gw_clock :: int

type_synonym llm_adapter = "nat \<Rightarrow> llm_request \<Rightarrow> string \<Rightarrow> int \<times> (provider_error + adapter_completion)"

text \<open>The defaults of the retry policy and of the timeout.\<close>

definition DEFAULT_TIMEOUT_MS :: int where "DEFAULT_TIMEOUT_MS = 60000"

definition DEFAULT_RETRY_POLICY :: "nat \<times> int \<times> int" where "DEFAULT_RETRY_POLICY = (2, 500, 8000)"

text \<open>
  The constructor: the egress guard is compiled, the key tier checked, the model floor
  checked, in that order; each may throw.
\<close>

definition createLlmGateway :: "(string \<Rightarrow> string option) \<Rightarrow> egress_config \<Rightarrow> llm_config \<Rightarrow> key_tier option \<Rightarrow> bool
    \<Rightarrow> nat budget_registry option \<Rightarrow> nat option \<Rightarrow> escalation_policy option \<Rightarrow> nat option \<Rightarrow> int option
    \<Rightarrow> (int \<Rightarrow> string) \<Rightarrow> montr_error + gateway" where
  "createLlmGateway hostname ecfg c declared strictFloor registry meter escalation retries timeout clock_text =
     ebind (createEgressGuard hostname ecfg \<lparr>do_includeDastTargets = False, do_extraHosts = []\<rparr>) (\<lambda>eg.
     ebind (applyKeyTierGuard (detectKeyTier (lc_provider c) declared) (lc_keyTierGuard c) (lc_provider c)) (\<lambda>kt.
     ebind (assertModelFloor c strictFloor) (\<lambda>below.
       Inr \<lparr>g_config = c, g_provider = lc_provider c, g_egress = eg, g_registry = registry, g_costMeter = meter,
            g_escalation = escalation,
            g_maxRetries = (case retries of None \<Rightarrow> fst DEFAULT_RETRY_POLICY | Some n \<Rightarrow> n),
            g_baseDelayMs = fst (snd DEFAULT_RETRY_POLICY), g_maxDelayMs = snd (snd DEFAULT_RETRY_POLICY),
            g_timeoutMs = (case timeout of None \<Rightarrow> DEFAULT_TIMEOUT_MS | Some t \<Rightarrow> t), g_iso = clock_text\<rparr>)))"

section \<open>Dispatch, retry and fallback\<close>

type_synonym 'a attempt = "gateway_world \<Rightarrow> (provider_error + 'a) \<times> gateway_world"

text \<open>\<open>runWithTimeout\<close> around the adapter: past the deadline the call is abandoned.\<close>

definition dispatch :: "gateway \<Rightarrow> llm_adapter \<Rightarrow> llm_request \<Rightarrow> string \<Rightarrow> adapter_completion attempt" where
  "dispatch g adapter req model w =
     (let (ms, res) = adapter (length (gw_dispatched w)) req model;
          late = (0 < g_timeoutMs g \<and> g_timeoutMs g \<le> ms)
      in (if late then Inl (P_typed (timeoutError (g_provider g) (g_timeoutMs g))) else res,
          w\<lparr>gw_dispatched := gw_dispatched w @ [(model, req)],
            gw_clock := gw_clock w + (if late then g_timeoutMs g else ms)\<rparr>))"

function with_retry :: "gateway \<Rightarrow> 'a attempt \<Rightarrow> nat \<Rightarrow> 'a attempt" where
  "with_retry g fn attempt w =
     (case fn w of
        (Inr c, w') \<Rightarrow> (Inr c, w')
      | (Inl err, w') \<Rightarrow>
          if attempt < g_maxRetries g \<and> isRetriableProviderError err
          then let delay = min (g_baseDelayMs g * 2 ^ attempt) (g_maxDelayMs g) in
               with_retry g fn (attempt + 1)
                 (w'\<lparr>gw_slept := gw_slept w' @ [delay], gw_clock := gw_clock w' + delay\<rparr>)
          else (Inl err, w'))"
  by auto

termination by (relation "measure (\<lambda>(g, fn, attempt, w). g_maxRetries g - attempt)") auto

declare with_retry.simps [simp del]

text \<open>One bare attempt per fallback model that has not been attempted; the last error is thrown.\<close>

fun with_fallbacks :: "(string \<Rightarrow> 'a attempt) \<Rightarrow> string list \<Rightarrow> provider_error \<Rightarrow> string list \<Rightarrow> 'a attempt" where
  "with_fallbacks call attempted lastError [] w = (Inl lastError, w)"
| "with_fallbacks call attempted lastError (m # ms) w =
     (if m \<in> set attempted then with_fallbacks call attempted lastError ms w
      else (case call m w of
              (Inr c, w') \<Rightarrow> (Inr c, w')
            | (Inl err, w') \<Rightarrow> with_fallbacks call (m # attempted) err ms w'))"

definition withRetryAndFallback :: "gateway \<Rightarrow> string \<Rightarrow> (string \<Rightarrow> 'a attempt) \<Rightarrow> string list \<Rightarrow> 'a attempt" where
  "withRetryAndFallback g primary call fallbacks w =
     (case with_retry g (call primary) 0 w of
        (Inr c, w') \<Rightarrow> (Inr c, w')
      | (Inl err, w') \<Rightarrow> with_fallbacks call [primary] err fallbacks w')"

section \<open>Before dispatch\<close>

definition assertEgress :: "gateway \<Rightarrow> montr_error + unit" where
  "assertEgress g = (if truthy (lc_endpoint (g_config g)) then eg_assert (g_egress g) (the (lc_endpoint (g_config g)))
     else Inr ())"

definition resolveModelId :: "gateway \<Rightarrow> llm_request \<Rightarrow> string" where
  "resolveModelId g r = (case lr_model r of Some m \<Rightarrow> m
     | None \<Rightarrow> de_modelId (resolveDescriptor (g_config g)
         (A_tier (case lr_tier r of Some t \<Rightarrow> t | None \<Rightarrow> Default_tier))))"

definition fallbackModelIds :: "gateway \<Rightarrow> string \<Rightarrow> string list" where
  "fallbackModelIds g primary = (case lc_fallbackModel (g_config g) of
      Some f \<Rightarrow> if f = [] \<or> f = primary then [] else [f] | None \<Rightarrow> [])"

definition maybeWarnFloor :: "gateway \<Rightarrow> llm_request \<Rightarrow> string \<Rightarrow> gateway_world \<Rightarrow> gateway_world" where
  "maybeWarnFloor g r modelId w =
     (if \<not> lc_enforceModelFloor (g_config g) then w
      else if \<not> (lr_tier r = Some Confirmation \<or> md_purpose (lr_metadata r) = Confirmation_purpose)
           \<or> \<not> isBelowFloor modelId \<or> modelId \<in> set (gw_warnedFloor w) then w
      else w\<lparr>gw_warnedFloor := gw_warnedFloor w @ [modelId]\<rparr>)"

definition budget_context_for :: "gateway \<Rightarrow> call_metadata \<Rightarrow> nat budget_context option" where
  "budget_context_for g md = (case g_registry g of None \<Rightarrow> None
     | Some reg \<Rightarrow> (case md_scanId md of None \<Rightarrow> None
         | Some s \<Rightarrow> if s = [] then None else br_get reg s))"

definition meter_at :: "gateway_world \<Rightarrow> nat \<Rightarrow> cost_meter" where
  "meter_at w a = (case jm_get (gw_meters w) a of Some m \<Rightarrow> m | None \<Rightarrow> createCostMeter [] 0)"

definition estimatedUsage :: "llm_request \<Rightarrow> token_usage" where
  "estimatedUsage r = \<lparr>inputTokens = estimateTokens r, outputTokens = lr_maxTokens r, cacheReadTokens = None,
     cacheWriteTokens = None, totalTokens = estimateTokens r + lr_maxTokens r\<rparr>"

definition assertPreCallBudget :: "gateway \<Rightarrow> llm_request \<Rightarrow> string \<Rightarrow> gateway_world \<Rightarrow> montr_error + unit" where
  "assertPreCallBudget g r modelId w =
     (case budget_context_for g (lr_metadata r) of
        None \<Rightarrow> Inr ()
      | Some ctx \<Rightarrow>
          let policy = bx_policy ctx in
          if maxUsd policy = None \<and> maxTotalTokens policy = None then Inr ()
          else if enforcement policy \<noteq> Hard_halt then Inr ()
          else
            let usage = estimatedUsage r;
                estimatedUsd = priceUsageUsd usage modelId False;
                spent = mt_checkBudget (meter_at w (bx_meter ctx)) policy;
                projectedUsd = fl64 (spentUsd spent + estimatedUsd);
                projectedTokens = spentTokens spent + totalTokens usage;
                overUsd = (case maxUsd policy of None \<Rightarrow> False | Some c \<Rightarrow> c < projectedUsd);
                overTokens = (case maxTotalTokens policy of None \<Rightarrow> False | Some c \<Rightarrow> c < projectedTokens)
            in if \<not> overUsd \<and> \<not> overTokens then Inr ()
               else Inl (BudgetExceededError ''Budget ceiling would be exceeded by this call - refused before dispatch''
                 (Some [(''phase'', JStr ''pre_call''),
                    (''scanId'', case md_scanId (lr_metadata r) of None \<Rightarrow> JUndef | Some s \<Rightarrow> JStr s),
                    (''provider'', JStr (provider_str (g_provider g))), (''modelId'', JStr modelId),
                    (''estimatedUsd'', JNum estimatedUsd), (''estimatedTokens'', JNum (of_int (totalTokens usage))),
                    (''spentUsd'', JNum (spentUsd spent)), (''spentTokens'', JNum (of_int (spentTokens spent))),
                    (''maxUsd'', case maxUsd policy of None \<Rightarrow> JUndef | Some c \<Rightarrow> JNum c),
                    (''maxTotalTokens'', case maxTotalTokens policy of None \<Rightarrow> JUndef | Some c \<Rightarrow> JNum (of_int c))])))"

section \<open>Accounting\<close>

definition record_at :: "nat option \<Rightarrow> meter_entry \<Rightarrow> gateway_world \<Rightarrow> gateway_world" where
  "record_at a e w = (case a of None \<Rightarrow> w
     | Some n \<Rightarrow> w\<lparr>gw_meters := jm_set n (mt_record e (meter_at w n)) (gw_meters w)\<rparr>)"

definition account :: "gateway \<Rightarrow> call_metadata \<Rightarrow> string \<Rightarrow> token_usage \<Rightarrow> int \<Rightarrow> bool \<Rightarrow> gateway_world \<Rightarrow> gateway_world" where
  "account g md model usage latencyMs batch w =
     (let log = \<lparr>lg_provider = g_provider g, lg_model = model, lg_usage = usage, lg_latencyMs = latencyMs,
                 lg_metadata = md, lg_at = g_iso g (gw_clock w)\<rparr>;
          entry = \<lparr>en_modelId = model, en_usage = usage, en_layer = md_layer md, en_batch = batch\<rparr>;
          scanMeter = map_option bx_meter (budget_context_for g md);
          w1 = record_at scanMeter entry (w\<lparr>gw_callLogs := gw_callLogs w @ [log]\<rparr>)
      in if g_costMeter g \<noteq> None \<and> g_costMeter g \<noteq> scanMeter then record_at (g_costMeter g) entry w1 else w1)"

section \<open>Completion\<close>

definition completeOnce :: "gateway \<Rightarrow> llm_adapter \<Rightarrow> llm_request \<Rightarrow> gateway_world \<Rightarrow> (js_error + llm_response) \<times> gateway_world" where
  "completeOnce g adapter r w =
     (if \<not> llm_request_valid r then (Inl (Untyped ''ZodError''), w)
      else case assertEgress g of
        Inl e \<Rightarrow> (Inl (Typed e), w)
      | Inr u \<Rightarrow>
          let modelId = resolveModelId g r; w1 = maybeWarnFloor g r modelId w in
          case assertPreCallBudget g r modelId w1 of
            Inl e \<Rightarrow> (Inl (Typed e), w1)
          | Inr u \<Rightarrow>
              (case withRetryAndFallback g modelId (dispatch g adapter r) (fallbackModelIds g modelId) w1 of
                 (Inl err, w2) \<Rightarrow> (Inl (Typed (toGatewayError err (g_provider g))), w2)
               | (Inr c, w2) \<Rightarrow>
                   let latencyMs = gw_clock w2 - gw_clock w1;
                       response = \<lparr>rs_id = cp_id c, rs_provider = g_provider g, rs_model = cp_model c,
                         rs_content = cp_content c, rs_stopReason = cp_stopReason c, rs_usage = cp_usage c,
                         rs_latencyMs = latencyMs, rs_toolCalls = cp_toolCalls c, rs_confidence = None\<rparr>
                   in (Inr response, account g (lr_metadata r) (cp_model c) (cp_usage c) latencyMs False w2)))"

text \<open>
  The escalation loop: \<open>budget\<close> is the number of escalations left, \<open>current\<close> the request whose
  response has just come back.
\<close>

fun escalate :: "gateway \<Rightarrow> llm_adapter \<Rightarrow> (string \<Rightarrow> json option) \<Rightarrow> rat \<Rightarrow> nat \<Rightarrow> llm_request \<Rightarrow> llm_response
    \<Rightarrow> gateway_world \<Rightarrow> (js_error + llm_response) \<times> gateway_world" where
  "escalate g adapter parse_json threshold left current response w =
     (let signal = evaluateConfidence parse_json (lr_responseFormat current) (rs_content response)
            (rs_stopReason response) threshold;
          final = (case cs_confidence signal of Some c \<Rightarrow> response\<lparr>rs_confidence := Some c\<rparr> | None \<Rightarrow> response)
      in case left of
           0 \<Rightarrow> (Inr final, w)
         | Suc n \<Rightarrow>
             if \<not> (cs_low signal \<and> isEligibleForEscalation current) then (Inr final, w)
             else case nextTier (the (lr_tier current)) of
                    None \<Rightarrow> (Inr final, w)
                  | Some toTier \<Rightarrow>
                      let next1 = withEscalatedTier current toTier in
                      (case completeOnce g adapter next1 w of
                         (Inl e, w') \<Rightarrow> (Inl e, w')
                       | (Inr response', w') \<Rightarrow> escalate g adapter parse_json threshold n next1 response' w'))"

definition complete :: "gateway \<Rightarrow> llm_adapter \<Rightarrow> (string \<Rightarrow> json option) \<Rightarrow> llm_request \<Rightarrow> gateway_world
    \<Rightarrow> (js_error + llm_response) \<times> gateway_world" where
  "complete g adapter parse_json r w =
     (if \<not> llm_request_valid r then (Inl (Untyped ''ZodError''), w)
      else case g_escalation g of
        None \<Rightarrow> completeOnce g adapter r w
      | Some policy \<Rightarrow>
          if \<not> es_enabled policy then completeOnce g adapter r w
          else (case completeOnce g adapter r w of
                  (Inl e, w') \<Rightarrow> (Inl e, w')
                | (Inr response, w') \<Rightarrow>
                    escalate g adapter parse_json
                      (case es_confidenceThreshold policy of None \<Rightarrow> DEFAULT_CONFIDENCE_THRESHOLD | Some t \<Rightarrow> t)
                      (case es_maxEscalations policy of None \<Rightarrow> DEFAULT_MAX_ESCALATIONS | Some n \<Rightarrow> n)
                      r response w'))"

section \<open>Lemmas\<close>

abbreviation dispatches :: "gateway_world \<Rightarrow> nat" where
  "dispatches w \<equiv> length (gw_dispatched w)"

text \<open>What a call may add to the dispatches: at most \<open>n\<close> of them, each with \<open>P\<close>.\<close>

definition call_frame :: "(string \<times> llm_request \<Rightarrow> bool) \<Rightarrow> nat \<Rightarrow> gateway_world \<Rightarrow> gateway_world \<Rightarrow> bool" where
  "call_frame P n w w' \<longleftrightarrow> (\<exists>ds. gw_dispatched w' = gw_dispatched w @ ds \<and> length ds \<le> n \<and> (\<forall>d \<in> set ds. P d))"

lemma call_frame_same: "gw_dispatched w' = gw_dispatched w \<Longrightarrow> call_frame P n w w'"
  by (simp add: call_frame_def)

lemma call_frame_trans: "call_frame P n w w' \<Longrightarrow> call_frame P m w' w'' \<Longrightarrow> n + m \<le> k \<Longrightarrow> call_frame P k w w''"
  by (fastforce simp: call_frame_def)

lemma call_frame_mono: "call_frame P n w w' \<Longrightarrow> n \<le> m \<Longrightarrow> (\<And>d. P d \<Longrightarrow> Q d) \<Longrightarrow> call_frame Q m w w'"
  by (force simp: call_frame_def)

text \<open>An attempt dispatches within \<open>P\<close> and \<open>n\<close>, meters nothing and returns only completions with \<open>Q\<close>.\<close>

definition attempt_ok :: "(string \<times> llm_request \<Rightarrow> bool) \<Rightarrow> ('a \<Rightarrow> bool) \<Rightarrow> nat \<Rightarrow> 'a attempt \<Rightarrow> bool" where
  "attempt_ok P Q n fn \<longleftrightarrow> (\<forall>w. call_frame P n w (snd (fn w)) \<and> gw_meters (snd (fn w)) = gw_meters w
     \<and> (\<forall>c. fst (fn w) = Inr c \<longrightarrow> Q c))"

lemma attempt_okD: "attempt_ok P Q n fn \<Longrightarrow> fn w = (r, w') \<Longrightarrow>
    call_frame P n w w' \<and> gw_meters w' = gw_meters w \<and> (\<forall>c. r = Inr c \<longrightarrow> Q c)"
  unfolding attempt_ok_def by (metis fst_conv snd_conv)

lemma attempt_ok_mono:
  assumes "attempt_ok P Q n fn" "\<And>d. P d \<Longrightarrow> P' d" "\<And>c. Q c \<Longrightarrow> Q' c"
  shows "attempt_ok P' Q' n fn"
  using assms(1) call_frame_mono[of P n _ _ n P'] assms(2,3) by (simp add: attempt_ok_def)

lemma dispatch_ok: "attempt_ok (\<lambda>d. d = (m, r)) (\<lambda>c. \<exists>n ms. adapter n r m = (ms, Inr c)) 1 (dispatch g adapter r m)"
  by (auto simp: attempt_ok_def call_frame_def dispatch_def Let_def split: prod.splits if_splits)

lemma retry_ok:
  assumes "attempt_ok P Q 1 fn" and "k \<le> g_maxRetries g"
  shows "attempt_ok P Q (g_maxRetries g - k + 1) (with_retry g fn k)"
proof -
  have "call_frame P (g_maxRetries g - k + 1) w (snd (with_retry g fn k w))
      \<and> gw_meters (snd (with_retry g fn k w)) = gw_meters w
      \<and> (\<forall>c. fst (with_retry g fn k w) = Inr c \<longrightarrow> Q c)" for w
    using assms
  proof (induction g fn k w rule: with_retry.induct)
    case (1 g fn attempt w)
    obtain r w' where fn: "fn w = (r, w')" by fastforce
    note ok = attempt_okD[OF "1.prems"(1) fn]
    show ?case
    proof (cases "\<exists>err. r = Inl err \<and> attempt < g_maxRetries g \<and> isRetriableProviderError err")
      case True
      then obtain err where r: "r = Inl err" "attempt < g_maxRetries g" "isRetriableProviderError err" by blast
      let ?d = "min (g_baseDelayMs g * 2 ^ attempt) (g_maxDelayMs g)"
      let ?w = "w'\<lparr>gw_slept := gw_slept w' @ [?d], gw_clock := gw_clock w' + ?d\<rparr>"
      have eq: "with_retry g fn attempt w = with_retry g fn (attempt + 1) ?w"
        using r fn by (subst with_retry.simps) (simp add: Let_def)
      have ih: "call_frame P (g_maxRetries g - (attempt + 1) + 1) ?w (snd (with_retry g fn (attempt + 1) ?w))
          \<and> gw_meters (snd (with_retry g fn (attempt + 1) ?w)) = gw_meters ?w
          \<and> (\<forall>c. fst (with_retry g fn (attempt + 1) ?w) = Inr c \<longrightarrow> Q c)"
        using "1.IH"[OF fn[symmetric] r(1) _ refl] r(2,3) "1.prems"(1) by simp
      have "call_frame P 1 w ?w" using ok by (simp add: call_frame_def)
      then have "call_frame P (g_maxRetries g - attempt + 1) w (snd (with_retry g fn (attempt + 1) ?w))"
        by (rule call_frame_trans[OF _ conjunct1[OF ih]]) (use r(2) in simp)
      then show ?thesis using ih ok eq by simp
    next
      case False
      then have "with_retry g fn attempt w = (r, w')"
        using fn by (subst with_retry.simps) (auto split: sum.splits)
      then show ?thesis using ok call_frame_mono[of P 1 w w' _ P] by auto
    qed
  qed
  then show ?thesis by (simp add: attempt_ok_def)
qed

lemma fallbacks_ok:
  assumes "\<And>m. m \<in> set ms \<Longrightarrow> attempt_ok P Q 1 (call m)"
  shows "attempt_ok P Q (length ms) (with_fallbacks call att err ms)"
proof -
  have "call_frame P (length ms) w (snd (with_fallbacks call att err ms w))
      \<and> gw_meters (snd (with_fallbacks call att err ms w)) = gw_meters w
      \<and> (\<forall>c. fst (with_fallbacks call att err ms w) = Inr c \<longrightarrow> Q c)" for w
    using assms
  proof (induction call att err ms w rule: with_fallbacks.induct)
    case (2 call att err m ms w)
    show ?case
    proof (cases "m \<in> set att")
      case True
      then show ?thesis using 2 call_frame_mono[of P "length ms" w _ "Suc (length ms)" P] by auto
    next
      case False
      obtain r w' where c: "call m w = (r, w')" by fastforce
      note ok = attempt_okD[OF "2.prems"[of m] c, simplified]
      show ?thesis
      proof (cases r)
        case (Inl e)
        have "call_frame P (length ms) w' (snd (with_fallbacks call (m # att) e ms w'))
            \<and> gw_meters (snd (with_fallbacks call (m # att) e ms w')) = gw_meters w'
            \<and> (\<forall>c. fst (with_fallbacks call (m # att) e ms w') = Inr c \<longrightarrow> Q c)"
          using "2.IH"(2)[OF False c[symmetric] Inl] "2.prems" by simp
        then show ?thesis using ok False c Inl call_frame_trans[of P 1 w w' "length ms"] by simp
      next
        case (Inr x)
        then show ?thesis using ok False c call_frame_mono[of P 1 w w' "Suc (length ms)" P] by simp
      qed
    qed
  qed (simp add: call_frame_def)
  then show ?thesis by (simp add: attempt_ok_def)
qed

lemma retry_fallback_ok:
  assumes "\<And>m. m \<in> insert primary (set fbs) \<Longrightarrow> attempt_ok P Q 1 (call m)"
  shows "attempt_ok P Q (g_maxRetries g + 1 + length fbs) (withRetryAndFallback g primary call fbs)"
  unfolding attempt_ok_def
proof
  fix w
  obtain r w' where p: "with_retry g (call primary) 0 w = (r, w')" by fastforce
  note ok = attempt_okD[OF retry_ok[OF assms[of primary], of 0 g] p, simplified]
  show "call_frame P (g_maxRetries g + 1 + length fbs) w (snd (withRetryAndFallback g primary call fbs w))
      \<and> gw_meters (snd (withRetryAndFallback g primary call fbs w)) = gw_meters w
      \<and> (\<forall>c. fst (withRetryAndFallback g primary call fbs w) = Inr c \<longrightarrow> Q c)"
  proof (cases r)
    case (Inl err)
    obtain r2 w2 where f: "with_fallbacks call [primary] err fbs w' = (r2, w2)" by fastforce
    note ok2 = attempt_okD[OF fallbacks_ok[of fbs P Q call "[primary]" err] f]
    show ?thesis
      using ok ok2 assms Inl p f call_frame_trans[of P "g_maxRetries g + 1" w w' "length fbs" w2]
      by (simp add: withRetryAndFallback_def)
  next
    case (Inr c)
    then show ?thesis
      using ok p call_frame_mono[of P "g_maxRetries g + 1" w w' "g_maxRetries g + 1 + length fbs" P]
      by (simp add: withRetryAndFallback_def)
  qed
qed

lemma account_dispatched [simp]: "gw_dispatched (account g md m u l b w) = gw_dispatched w"
  by (simp add: account_def record_at_def Let_def split: option.split)

lemma warn_floor_frame [simp]: "gw_dispatched (maybeWarnFloor g r m w) = gw_dispatched w"
    "gw_meters (maybeWarnFloor g r m w) = gw_meters w"
  by (simp_all add: maybeWarnFloor_def)

text \<open>The models one dispatch of a request may go to.\<close>

definition call_models :: "gateway \<Rightarrow> llm_request \<Rightarrow> string set" where
  "call_models g r = insert (resolveModelId g r) (set (fallbackModelIds g (resolveModelId g r)))"

lemma fallback_length: "length (fallbackModelIds g m) \<le> 1"
  by (simp add: fallbackModelIds_def split: option.split)

text \<open>One completion: what is dispatched, and what the meters become when it succeeds or fails.\<close>

lemma completeOnce_frame:
  assumes "completeOnce g adapter r w = (res, w')"
  shows "call_frame (\<lambda>d. snd d = r \<and> fst d \<in> call_models g r) (g_maxRetries g + 2) w w'
    \<and> (\<forall>e. res = Inl e \<longrightarrow> gw_meters w' = gw_meters w)
    \<and> (\<forall>resp. res = Inr resp \<longrightarrow> assertPreCallBudget g r (resolveModelId g r) w = Inr ()
        \<and> (\<exists>n ms c m. adapter n r m = (ms, Inr c) \<and> m \<in> call_models g r
             \<and> gw_meters w' = gw_meters (account g (lr_metadata r) (cp_model c) (cp_usage c) 0 False w)))"
proof -
  let ?m = "resolveModelId g r" and ?w1 = "maybeWarnFloor g r (resolveModelId g r) w"
  have "meter_at ?w1 = meter_at w" by (rule ext) (simp add: meter_at_def)
  then have guard: "assertPreCallBudget g r ?m ?w1 = assertPreCallBudget g r ?m w"
    by (simp only: assertPreCallBudget_def)
  show ?thesis
  proof (cases "llm_request_valid r \<and> assertEgress g = Inr () \<and> assertPreCallBudget g r ?m w = Inr ()")
    case False
    then have "gw_dispatched w' = gw_dispatched w \<and> gw_meters w' = gw_meters w \<and> (\<exists>e. res = Inl e)"
      using assms guard by (auto simp: completeOnce_def Let_def split: if_splits sum.splits)
    then show ?thesis using call_frame_same by auto
  next
    case True
    obtain x w2 where call: "withRetryAndFallback g ?m (dispatch g adapter r) (fallbackModelIds g ?m) ?w1 = (x, w2)"
      by fastforce
    have "attempt_ok (\<lambda>d. snd d = r \<and> fst d \<in> call_models g r)
        (\<lambda>c. \<exists>n ms m. adapter n r m = (ms, Inr c) \<and> m \<in> call_models g r) 1 (dispatch g adapter r m)"
      if "m \<in> insert ?m (set (fallbackModelIds g ?m))" for m
      by (rule attempt_ok_mono[OF dispatch_ok]) (use that in \<open>auto simp: call_models_def\<close>)
    from attempt_okD[OF retry_fallback_ok[OF this] call]
    have ok: "call_frame (\<lambda>d. snd d = r \<and> fst d \<in> call_models g r) (g_maxRetries g + 1 + length (fallbackModelIds g ?m)) w w2"
      "gw_meters w2 = gw_meters w"
      "\<forall>c. x = Inr c \<longrightarrow> (\<exists>n ms m. adapter n r m = (ms, Inr c) \<and> m \<in> call_models g r)"
      by (auto simp: call_frame_def)
    have f: "call_frame (\<lambda>d. snd d = r \<and> fst d \<in> call_models g r) (g_maxRetries g + 2) w w2"
      using call_frame_mono[OF ok(1)] fallback_length[of g ?m] by simp
    show ?thesis
    proof (cases x)
      case (Inl err)
      then have "res = Inl (Typed (toGatewayError err (g_provider g))) \<and> w' = w2"
        using assms True guard call by (simp add: completeOnce_def Let_def)
      then show ?thesis using f ok by simp
    next
      case (Inr c)
      then have w': "w' = account g (lr_metadata r) (cp_model c) (cp_usage c) (gw_clock w2 - gw_clock ?w1) False w2"
        using assms True guard call by (simp add: completeOnce_def Let_def)
      have "gw_meters w' = gw_meters (account g (lr_metadata r) (cp_model c) (cp_usage c) 0 False w)"
        using ok(2) by (simp add: w' account_def record_at_def Let_def meter_at_def split: option.split)
      moreover have "call_frame (\<lambda>d. snd d = r \<and> fst d \<in> call_models g r) (g_maxRetries g + 2) w w'"
        using f by (simp add: w' call_frame_def)
      ultimately show ?thesis using ok(3) Inr True assms call guard
        by (auto simp: completeOnce_def Let_def)
    qed
  qed
qed

lemma completeOnce_refused:
  assumes "completeOnce g adapter r w = (res, w')"
    and "\<not> (llm_request_valid r \<and> assertEgress g = Inr () \<and> assertPreCallBudget g r (resolveModelId g r) w = Inr ())"
  shows "gw_dispatched w' = gw_dispatched w \<and> (\<exists>e. res = Inl e)"
proof -
  have "meter_at (maybeWarnFloor g r m w) = meter_at w" for m by (rule ext) (simp add: meter_at_def)
  then have "assertPreCallBudget g r m (maybeWarnFloor g r m w) = assertPreCallBudget g r m w" for m
    by (simp only: assertPreCallBudget_def)
  then show ?thesis using assms by (auto simp: completeOnce_def Let_def split: if_splits sum.splits)
qed

text \<open>The requests an escalating call may issue, and how often it may still climb.\<close>

definition ladder :: "llm_request \<Rightarrow> llm_request set" where
  "ladder r = insert r {withEscalatedTier r u |u. lr_model r = None
     \<and> (\<exists>t. lr_tier r = Some t \<and> tier_index t < tier_index u)}"

definition climbs_left :: "llm_request \<Rightarrow> nat" where
  "climbs_left r = (case (lr_tier r, lr_model r) of (Some t, None) \<Rightarrow> 2 - tier_index t | _ \<Rightarrow> 0)"

lemma escalated_twice [simp]: "withEscalatedTier (withEscalatedTier r t) u = withEscalatedTier r u"
  by (simp add: withEscalatedTier_def)

lemma escalated_metadata [simp]: "lr_metadata (withEscalatedTier r u) = lr_metadata r"
  by (simp add: withEscalatedTier_def)

lemma ladder_metadata: "q \<in> ladder r \<Longrightarrow> lr_metadata q = lr_metadata r"
  by (auto simp: ladder_def)

lemma ladder_climb:
  assumes "isEligibleForEscalation r" and "nextTier (the (lr_tier r)) = Some u"
  shows "ladder (withEscalatedTier r u) \<subseteq> ladder r \<and> climbs_left r = Suc (climbs_left (withEscalatedTier r u))"
proof -
  obtain t where t: "lr_tier r = Some t" "lr_model r = None"
    using assms(1) by (auto simp: isEligibleForEscalation_def)
  have up: "tier_index u = Suc (tier_index t)" using nextTier_climbs assms(2) t by simp
  have "ladder (withEscalatedTier r u) \<subseteq> ladder r"
    using t up escalated_twice[of r u] unfolding ladder_def
    by (auto simp: withEscalatedTier_def[of r u]) (auto simp: withEscalatedTier_def)
  moreover have "climbs_left r = Suc (climbs_left (withEscalatedTier r u))"
    using t up tier_index_le[of u] by (simp add: climbs_left_def withEscalatedTier_def)
  ultimately show ?thesis by blast
qed

declare escalate.simps [simp del]

lemma escalate_step:
  assumes "escalate g adapter pj th n r resp w = (res, w')" and "w' \<noteq> w"
  obtains k u x w1 where "n = Suc k" "isEligibleForEscalation r" "nextTier (the (lr_tier r)) = Some u"
    "completeOnce g adapter (withEscalatedTier r u) w = (x, w1)"
    "(\<exists>e. x = Inl e) \<and> w' = w1 \<or>
      (\<exists>resp'. x = Inr resp' \<and> escalate g adapter pj th k (withEscalatedTier r u) resp' w1 = (res, w'))"
  using assms by (subst (asm) escalate.simps)
    (auto simp: Let_def split: if_splits option.splits prod.splits sum.splits nat.splits)

text \<open>Whatever every completion of the ladder keeps, the escalation keeps.\<close>

lemma escalate_keeps:
  assumes "escalate g adapter pj th n r resp w = (res, w')" and "J w"
    and "\<And>q w res w'. q \<in> ladder r \<Longrightarrow> J w \<Longrightarrow> completeOnce g adapter q w = (res, w') \<Longrightarrow> J w'"
  shows "J w'"
  using assms
proof (induction n arbitrary: r resp w)
  case (Suc n)
  show ?case
  proof (cases "w' = w")
    case False
    then obtain u x w1 where step: "isEligibleForEscalation r" "nextTier (the (lr_tier r)) = Some u"
      and once: "completeOnce g adapter (withEscalatedTier r u) w = (x, w1)"
      and rest: "(\<exists>e. x = Inl e) \<and> w' = w1 \<or>
        (\<exists>resp'. x = Inr resp' \<and> escalate g adapter pj th n (withEscalatedTier r u) resp' w1 = (res, w'))"
      by (rule escalate_step[OF Suc.prems(1)]) auto
    have sub: "ladder (withEscalatedTier r u) \<subseteq> ladder r" using ladder_climb[OF step] by simp
    have "withEscalatedTier r u \<in> ladder r" using sub by (auto simp: ladder_def)
    then have "J w1" using Suc.prems(2,3) once by blast
    then show ?thesis using rest Suc.IH Suc.prems(3) sub by blast
  qed (use Suc in simp)
qed (auto elim: escalate_step)

lemma escalate_frame:
  assumes "escalate g adapter pj th n r resp w = (res, w')"
  shows "call_frame (\<lambda>d. snd d \<in> ladder r \<and> fst d \<in> call_models g (snd d))
    (min n (climbs_left r) * (g_maxRetries g + 2)) w w'"
  using assms
proof (induction n arbitrary: r resp w)
  case (Suc n)
  show ?case
  proof (cases "w' = w")
    case False
    then obtain u x w1 where step: "isEligibleForEscalation r" "nextTier (the (lr_tier r)) = Some u"
      and once: "completeOnce g adapter (withEscalatedTier r u) w = (x, w1)"
      and rest: "(\<exists>e. x = Inl e) \<and> w' = w1 \<or>
        (\<exists>resp'. x = Inr resp' \<and> escalate g adapter pj th n (withEscalatedTier r u) resp' w1 = (res, w'))"
      by (rule escalate_step[OF Suc.prems(1)]) auto
    let ?q = "withEscalatedTier r u"
    have sub: "ladder ?q \<subseteq> ladder r" "climbs_left r = Suc (climbs_left ?q)"
      using ladder_climb[OF step] by simp_all
    have in_ladder: "?q \<in> ladder r" using sub(1) by (auto simp: ladder_def)
    have f1: "call_frame (\<lambda>d. snd d \<in> ladder r \<and> fst d \<in> call_models g (snd d)) (g_maxRetries g + 2) w w1"
      by (rule call_frame_mono[OF conjunct1[OF completeOnce_frame[OF once]]]) (use in_ladder in auto)
    have f2: "call_frame (\<lambda>d. snd d \<in> ladder r \<and> fst d \<in> call_models g (snd d))
        (min n (climbs_left ?q) * (g_maxRetries g + 2)) w1 w'"
      using rest
    proof (elim disjE exE conjE)
      fix resp' assume "escalate g adapter pj th n ?q resp' w1 = (res, w')"
      from Suc.IH[OF this] show ?thesis by (rule call_frame_mono) (use sub in auto)
    qed (simp add: call_frame_same)
    show ?thesis by (rule call_frame_trans[OF f1 f2]) (simp add: sub(2))
  qed (simp add: call_frame_same)
next
  case 0
  then have "w' = w" by (auto elim: escalate_step)
  then show ?case by (simp add: call_frame_same)
qed

lemma complete_keeps:
  assumes "complete g adapter pj r w = (res, w')" and "J w"
    and "\<And>q w res w'. q \<in> ladder r \<Longrightarrow> J w \<Longrightarrow> completeOnce g adapter q w = (res, w') \<Longrightarrow> J w'"
  shows "J w'"
proof -
  obtain x w1 where once: "completeOnce g adapter r w = (x, w1)" by fastforce
  have J: "J w1" using assms(2,3) once by (auto simp: ladder_def)
  show ?thesis
  proof (cases "w' = w \<or> w' = w1")
    case False
    then obtain th n resp where "escalate g adapter pj th n r resp w1 = (res, w')"
      using assms(1) once by (auto simp: complete_def split: if_splits option.splits sum.splits)
    then show ?thesis by (rule escalate_keeps[where J = J]) (fact J, rule assms(3))
  qed (use J assms(2) in auto)
qed

text \<open>How many times this gateway may climb from a request.\<close>

definition max_climbs :: "gateway \<Rightarrow> llm_request \<Rightarrow> nat" where
  "max_climbs g r = (case g_escalation g of None \<Rightarrow> 0
     | Some p \<Rightarrow> if es_enabled p
         then min (case es_maxEscalations p of None \<Rightarrow> DEFAULT_MAX_ESCALATIONS | Some n \<Rightarrow> n) (climbs_left r) else 0)"

lemma complete_frame:
  assumes "complete g adapter pj r w = (res, w')"
  shows "call_frame (\<lambda>d. snd d \<in> ladder r \<and> fst d \<in> call_models g (snd d))
    (Suc (max_climbs g r) * (g_maxRetries g + 2)) w w'"
proof -
  let ?P = "\<lambda>d. snd d \<in> ladder r \<and> fst d \<in> call_models g (snd d)"
  obtain x w1 where once: "completeOnce g adapter r w = (x, w1)" by fastforce
  have f: "call_frame ?P (g_maxRetries g + 2) w w1"
    by (rule call_frame_mono[OF conjunct1[OF completeOnce_frame[OF once]]]) (auto simp: ladder_def)
  consider "w' = w" | "w' = w1"
    | th resp p where "g_escalation g = Some p" "es_enabled p"
        "escalate g adapter pj th (case es_maxEscalations p of None \<Rightarrow> DEFAULT_MAX_ESCALATIONS | Some n \<Rightarrow> n)
           r resp w1 = (res, w')"
    using assms once by (auto simp: complete_def split: if_splits option.splits sum.splits)
  then show ?thesis
  proof cases
    case 1
    then show ?thesis by (simp add: call_frame_same)
  next
    case 2
    then show ?thesis using call_frame_mono[OF f] by simp
  next
    case 3
    from escalate_frame[OF 3(3)] show ?thesis
      by (rule call_frame_trans[OF f]) (simp add: max_climbs_def 3(1,2))
  qed
qed

lemma complete_refused:
  assumes "complete g adapter pj r w = (res, w')"
    and "\<not> (llm_request_valid r \<and> assertEgress g = Inr () \<and> assertPreCallBudget g r (resolveModelId g r) w = Inr ())"
  shows "gw_dispatched w' = gw_dispatched w"
proof -
  obtain x w1 where once: "completeOnce g adapter r w = (x, w1)" by fastforce
  from completeOnce_refused[OF this assms(2)] obtain e where "gw_dispatched w1 = gw_dispatched w" "x = Inl e" by blast
  then show ?thesis using assms(1) once by (auto simp: complete_def split: if_splits option.splits)
qed

section \<open>Spend\<close>

text \<open>The estimate of the pre-call check is conservative, and the adapter reports the model it was asked for.\<close>

definition within_estimate :: "llm_request \<Rightarrow> string \<Rightarrow> adapter_completion \<Rightarrow> bool" where
  "within_estimate q m c \<longleftrightarrow> cp_model c = m \<and> usage_valid (cp_usage c)
     \<and> inputTokens (cp_usage c) \<le> estimateTokens q \<and> outputTokens (cp_usage c) \<le> lr_maxTokens q
     \<and> totalTokens (cp_usage c) \<le> estimateTokens q + lr_maxTokens q
     \<and> cacheReadTokens (cp_usage c) = None \<and> cacheWriteTokens (cp_usage c) = None"

definition conservative_estimate :: "llm_adapter \<Rightarrow> bool" where
  "conservative_estimate adapter \<longleftrightarrow> (\<forall>n q m ms c. llm_request_valid q \<longrightarrow> adapter n q m = (ms, Inr c)
     \<longrightarrow> within_estimate q m c)"

definition spend_bounded :: "budget_policy \<Rightarrow> cost_meter \<Rightarrow> bool" where
  "spend_bounded p m \<longleftrightarrow> meter_inv m \<and> (\<forall>c. maxUsd p = Some c \<longrightarrow> mt_totalUsd m \<le> c)
     \<and> (\<forall>n. maxTotalTokens p = Some n \<longrightarrow> totalTokens (mt_total m) \<le> n)"

definition ceiling_micro :: "budget_policy \<Rightarrow> bool" where
  "ceiling_micro p \<longleftrightarrow> (\<forall>c. maxUsd p = Some c \<longrightarrow> roundUsd c = c \<and> c \<le> 10 ^ 9)"

lemma meter_inv_fixed: "meter_inv m \<Longrightarrow> mt_totalUsd m \<le> 10 ^ 9 \<Longrightarrow> roundUsd (mt_totalUsd m) = mt_totalUsd m"
  using micro_roundUsd micro_fixed by (auto simp: meter_inv_def)

lemma checkBudget_spent [simp]:
  "spentUsd (mt_checkBudget m p) = roundUsd (mt_totalUsd m)"
  "spentTokens (mt_checkBudget m p) = totalTokens (mt_total m)"
  by (simp_all add: mt_checkBudget_def Let_def)

text \<open>A call the pre-call check admits keeps the meter within the policy when it is recorded.\<close>

lemma admitted_call_bounded:
  assumes ctx: "budget_context_for g (lr_metadata q) = Some ctx" "enforcement (bx_policy ctx) = Hard_halt"
    and pre: "assertPreCallBudget g q m w = Inr ()"
    and bounded: "spend_bounded (bx_policy ctx) (meter_at w (bx_meter ctx))" "ceiling_micro (bx_policy ctx)"
    and est: "within_estimate q m c"
  shows "spend_bounded (bx_policy ctx)
    (mt_record \<lparr>en_modelId = cp_model c, en_usage = cp_usage c, en_layer = l, en_batch = False\<rparr> (meter_at w (bx_meter ctx)))"
proof -
  let ?M = "meter_at w (bx_meter ctx)" and ?p = "bx_policy ctx"
  let ?e = "\<lparr>en_modelId = cp_model c, en_usage = cp_usage c, en_layer = l, en_batch = False\<rparr>"
  have ok: "(\<forall>u. maxUsd ?p = Some u \<longrightarrow> fl64 (roundUsd (mt_totalUsd ?M) + priceUsageUsd (estimatedUsage q) m False) \<le> u)
    \<and> (\<forall>n. maxTotalTokens ?p = Some n \<longrightarrow> totalTokens (mt_total ?M) + totalTokens (estimatedUsage q) \<le> n)"
    using pre ctx by (auto simp: assertPreCallBudget_def Let_def split: if_splits)
  have inv: "meter_inv ?M" using bounded(1) by (simp add: spend_bounded_def)
  have "mt_totalUsd (mt_record ?e ?M) \<le> u" if u: "maxUsd ?p = Some u" for u
  proof -
    have u': "roundUsd u = u" "u \<le> 10 ^ 9" "mt_totalUsd ?M \<le> u"
      using bounded u by (auto simp: spend_bounded_def ceiling_micro_def)
    have "priceUsageUsd (cp_usage c) m False \<le> priceUsageUsd (estimatedUsage q) m False"
      using est by (intro priceUsageUsd_usage_mono) (auto simp: within_estimate_def estimatedUsage_def)
    then have "fl64 (mt_totalUsd ?M + priceUsageUsd (cp_usage c) m False)
        \<le> fl64 (mt_totalUsd ?M + priceUsageUsd (estimatedUsage q) m False)" by (intro fl64_mono) simp
    also have "\<dots> \<le> u" using ok u meter_inv_fixed[OF inv] u' by auto
    finally have "roundUsd (fl64 (mt_totalUsd ?M + priceUsageUsd (cp_usage c) m False)) \<le> u"
      using roundUsd_mono u'(1) by metis
    then show ?thesis using est by (simp add: mt_record_def Let_def within_estimate_def)
  qed
  moreover have "totalTokens (mt_total (mt_record ?e ?M)) \<le> n" if "maxTotalTokens ?p = Some n" for n
    using ok that est by (fastforce simp: mt_record_def Let_def within_estimate_def estimatedUsage_def)
  ultimately show ?thesis
    using meter_inv_record[OF inv, of ?e] est by (auto simp: spend_bounded_def within_estimate_def)
qed

lemma record_at_meter: "meter_at (record_at (Some a) e w) b = (if a = b then mt_record e (meter_at w a) else meter_at w b)"
  by (simp add: record_at_def meter_at_def)

lemma meter_at_logs [simp]: "meter_at (w\<lparr>gw_callLogs := ls\<rparr>) = meter_at w"
  by (rule ext) (simp add: meter_at_def)

lemma account_meter:
  assumes "budget_context_for g md = Some ctx"
  shows "meter_at (account g md m u l b w) (bx_meter ctx) =
    mt_record \<lparr>en_modelId = m, en_usage = u, en_layer = md_layer md, en_batch = b\<rparr> (meter_at w (bx_meter ctx))"
  using assms by (cases "g_costMeter g") (auto simp: account_def Let_def record_at_meter)

lemma completeOnce_spend:
  assumes once: "completeOnce g adapter q w = (res, w')"
    and ctx: "budget_context_for g (lr_metadata q) = Some ctx" "enforcement (bx_policy ctx) = Hard_halt"
    and nofb: "fallbackModelIds g (resolveModelId g q) = []"
    and est: "conservative_estimate adapter"
    and micro: "ceiling_micro (bx_policy ctx)" and start: "spend_bounded (bx_policy ctx) (meter_at w (bx_meter ctx))"
  shows "spend_bounded (bx_policy ctx) (meter_at w' (bx_meter ctx))"
proof (cases res)
  case (Inl e)
  then have "gw_meters w' = gw_meters w" using completeOnce_frame[OF once] by blast
  then show ?thesis using start by (simp add: meter_at_def)
next
  case (Inr resp)
  then obtain n ms c m where pre: "assertPreCallBudget g q (resolveModelId g q) w = Inr ()"
    and c: "adapter n q m = (ms, Inr c)" "m \<in> call_models g q"
    and w': "gw_meters w' = gw_meters (account g (lr_metadata q) (cp_model c) (cp_usage c) 0 False w)"
    using completeOnce_frame[OF once] by blast
  have "llm_request_valid q" using completeOnce_refused[OF once] Inr by auto
  then have within: "within_estimate q m c" using est c(1) by (auto simp: conservative_estimate_def)
  have m: "m = resolveModelId g q" using c(2) nofb by (simp add: call_models_def)
  have "meter_at w' (bx_meter ctx) = meter_at (account g (lr_metadata q) (cp_model c) (cp_usage c) 0 False w) (bx_meter ctx)"
    using w' by (simp add: meter_at_def)
  also have "spend_bounded (bx_policy ctx) \<dots>"
    unfolding account_meter[OF ctx(1)]
    by (rule admitted_call_bounded[OF ctx pre start micro]) (use within m in simp)
  finally show ?thesis .
qed

section \<open>Examples\<close>

definition ex_llm_request :: llm_request where
  "ex_llm_request = \<lparr>lr_model = None, lr_tier = Some Triage, lr_system = None,
     lr_messages = [\<lparr>lm_role = Role_user, lm_content = Text_content ''hi'', lm_rest = JNull\<rparr>], lr_maxTokens = 1000,
     lr_temperature = None, lr_responseFormat = Format_json, lr_rest = JNull,
     lr_metadata = \<lparr>md_scanId = Some ''s'', md_clientId = None, md_layer = None, md_purpose = Triage_purpose\<rparr>\<rparr>"

definition ex_budget_policy :: budget_policy where
  "ex_budget_policy = \<lparr>maxUsd = Some (1 / 64), maxTotalTokens = None, enforcement = Hard_halt,
     requireEstimateApproval = False, warnThresholdPct = 1 / 2\<rparr>"

definition ex_gateway :: "string option \<Rightarrow> gateway" where
  "ex_gateway fallback = \<lparr>g_config = default_llm_config\<lparr>lc_fallbackModel := fallback\<rparr>, g_provider = Anthropic,
     g_egress = \<lparr>eg_policy = \<lparr>ep_entries = [], ep_warnings = [], ep_llmHost = None\<rparr>,
       eg_isAllowed = (\<lambda>_. False), eg_assert = (\<lambda>_. Inl (EgressBlockedError [] None))\<rparr>,
     g_registry = Some [(''s'', \<lparr>bx_meter = 0, bx_policy = ex_budget_policy\<rparr>)], g_costMeter = Some 0,
     g_escalation = Some \<lparr>es_enabled = True, es_confidenceThreshold = None, es_maxEscalations = None\<rparr>,
     g_maxRetries = 2, g_baseDelayMs = 500, g_maxDelayMs = 8000, g_timeoutMs = 60000, g_iso = (\<lambda>_. [])\<rparr>"

definition ex_gateway_world :: gateway_world where
  "ex_gateway_world = \<lparr>gw_meters = [], gw_dispatched = [], gw_warnedFloor = [], gw_callLogs = [], gw_slept = [], gw_clock = 0\<rparr>"

text \<open>A provider that serves some models and uses the whole output budget, with an empty answer.\<close>

definition ex_llm_adapter :: "string list \<Rightarrow> llm_adapter" where
  "ex_llm_adapter serves n q m =
     (5, if m \<in> set serves
         then Inr \<lparr>cp_id = [], cp_model = m, cp_content = [], cp_stopReason = End_turn,
           cp_usage = \<lparr>inputTokens = 0, outputTokens = lr_maxTokens q, cacheReadTokens = None,
             cacheWriteTokens = None, totalTokens = lr_maxTokens q\<rparr>, cp_toolCalls = None\<rparr>
         else Inl (P_raw (Some 529) [] ''overloaded''))"

lemma ex_adapter_conservative: "conservative_estimate (ex_llm_adapter serves)"
  by (auto simp: conservative_estimate_def ex_llm_adapter_def within_estimate_def llm_request_valid_def usage_valid_def
      estimateTokens_def Let_def split: if_splits)

lemma ex_budget_64: "roundUsd (1 / 64) = 1 / 64"
  by code_simp

lemma ex_ceiling_micro: "ceiling_micro ex_budget_policy"
  unfolding ceiling_micro_def
proof (intro allI impI)
  fix c assume "maxUsd ex_budget_policy = Some c"
  then have c: "c = 1 / 64" by (simp add: ex_budget_policy_def)
  show "roundUsd c = c \<and> c \<le> 10 ^ 9" unfolding c ex_budget_64 by simp
qed

lemma ex_prices:
  "priceUsageUsd \<lparr>inputTokens = 0, outputTokens = 1000, cacheReadTokens = None, cacheWriteTokens = None,
     totalTokens = 1000\<rparr> ''claude-opus-5'' False = 3602879701896397 / 144115188075855872"
  "priceUsageUsd \<lparr>inputTokens = 1, outputTokens = 1000, cacheReadTokens = None, cacheWriteTokens = None,
     totalTokens = 1001\<rparr> ''claude-haiku-4-5'' False = 2882880222269421 / 576460752303423488"
  by code_simp+

lemma ex_context: "budget_context_for (ex_gateway fb) (lr_metadata ex_llm_request) = Some \<lparr>bx_meter = 0, bx_policy = ex_budget_policy\<rparr>"
  by (simp add: budget_context_for_def ex_gateway_def ex_llm_request_def br_get_def jm_get_def)

text \<open>
  The pre-call check prices the model of the tier only: when that model fails and the
  configured fallback serves the call, the recorded spend passes a hard ceiling.
\<close>

lemma ex_precall: "assertPreCallBudget (ex_gateway fb) ex_llm_request ''claude-haiku-4-5'' ex_gateway_world = Inr ()"
proof -
  have m: "meter_at ex_gateway_world 0 = createCostMeter [] 0"
    by (simp add: meter_at_def ex_gateway_world_def jm_get_def)
  have u: "estimatedUsage ex_llm_request = \<lparr>inputTokens = 1, outputTokens = 1000, cacheReadTokens = None,
      cacheWriteTokens = None, totalTokens = 1001\<rparr>"
    by (simp add: estimatedUsage_def estimateTokens_def ex_llm_request_def contentToString_def)
  have "fl64 (2882880222269421 / 576460752303423488) = 2882880222269421 / 576460752303423488"
    using priceUsageUsd_dbl ex_prices(2) by metis
  then show ?thesis
    by (simp add: assertPreCallBudget_def ex_context Let_def m u ex_prices ex_budget_policy_def createCostMeter_def)
qed

lemma fallback_overspends:
  "(case completeOnce (ex_gateway (Some ''claude-opus-5'')) (ex_llm_adapter [''claude-opus-5'']) ex_llm_request ex_gateway_world of
      (res, w') \<Rightarrow> map fst (gw_dispatched w') = replicate 3 ''claude-haiku-4-5'' @ [''claude-opus-5'']
        \<and> enforcement ex_budget_policy = Hard_halt \<and> maxUsd ex_budget_policy = Some (1 / 64)
        \<and> 1 / 64 < mt_totalUsd (meter_at w' 0))"
proof -
  let ?g = "ex_gateway (Some ''claude-opus-5'')" and ?u = "\<lparr>inputTokens = 0, outputTokens = 1000,
    cacheReadTokens = None, cacheWriteTokens = None, totalTokens = 1000\<rparr>"
  have model: "resolveModelId ?g ex_llm_request = ''claude-haiku-4-5''"
    by (simp add: resolveModelId_def ex_llm_request_def resolve_tier ex_gateway_def default_llm_config_def)
  have start: "llm_request_valid ex_llm_request" "assertEgress ?g = Inr ()"
    "maybeWarnFloor ?g ex_llm_request ''claude-haiku-4-5'' ex_gateway_world = ex_gateway_world"
    "fallbackModelIds ?g ''claude-haiku-4-5'' = [''claude-opus-5'']"
    by (simp_all add: llm_request_valid_def ex_llm_request_def assertEgress_def ex_gateway_def
        default_llm_config_def maybeWarnFloor_def fallbackModelIds_def)
  have fails: "dispatch ?g (ex_llm_adapter [''claude-opus-5'']) ex_llm_request ''claude-haiku-4-5'' w
      = (Inl (P_raw (Some 529) [] ''overloaded''), w\<lparr>gw_dispatched := gw_dispatched w @ [(''claude-haiku-4-5'', ex_llm_request)],
          gw_clock := gw_clock w + 5\<rparr>)" for w
    by (simp add: dispatch_def ex_llm_adapter_def ex_gateway_def)
  have retries: "g_maxRetries ?g = 2" by (simp add: ex_gateway_def)
  note retry_steps = with_retry.simps[where attempt = 0] with_retry.simps[where attempt = "Suc 0"]
    with_retry.simps[where attempt = "Suc (Suc 0)"]
  obtain c w2 where run: "withRetryAndFallback ?g ''claude-haiku-4-5'' (dispatch ?g (ex_llm_adapter [''claude-opus-5'']) ex_llm_request)
      [''claude-opus-5''] ex_gateway_world = (Inr c, w2)"
    and c: "cp_model c = ''claude-opus-5''" "cp_usage c = ?u"
    and w2: "gw_meters w2 = []" "map fst (gw_dispatched w2) = replicate 3 ''claude-haiku-4-5'' @ [''claude-opus-5'']"
    by (simp add: withRetryAndFallback_def fails retries retry_steps RETRIABLE_STATUS_def)
      (simp add: dispatch_def ex_llm_adapter_def ex_gateway_def ex_gateway_world_def ex_llm_request_def eval_nat_numeral)
  let ?w3 = "account ?g (lr_metadata ex_llm_request) ''claude-opus-5'' ?u (gw_clock w2 - gw_clock ex_gateway_world) False w2"
  have "completeOnce ?g (ex_llm_adapter [''claude-opus-5'']) ex_llm_request ex_gateway_world = (Inr \<lparr>rs_id = cp_id c,
      rs_provider = g_provider ?g, rs_model = cp_model c, rs_content = cp_content c, rs_stopReason = cp_stopReason c,
      rs_usage = cp_usage c, rs_latencyMs = gw_clock w2 - gw_clock ex_gateway_world, rs_toolCalls = cp_toolCalls c,
      rs_confidence = None\<rparr>, ?w3)"
    by (simp add: completeOnce_def Let_def model start ex_precall run c)
  moreover have "1 / 64 < mt_totalUsd (meter_at ?w3 0)"
  proof -
    have m: "meter_at w2 0 = createCostMeter [] 0" by (simp add: meter_at_def w2 jm_get_def)
    have r: "roundUsd (fl64 (3602879701896397 / 144115188075855872)) = 3602879701896397 / 144115188075855872"
      by code_simp
    have "mt_totalUsd (meter_at ?w3 0) = roundUsd (fl64 (priceUsageUsd ?u ''claude-opus-5'' False))"
      using account_meter[OF ex_context, where m = "''claude-opus-5''" and u = ?u and w = w2]
      by (simp add: m mt_record_def createCostMeter_def Let_def)
    then show ?thesis unfolding ex_prices r by simp
  qed
  ultimately show ?thesis by (simp add: w2 ex_budget_policy_def)
qed

section \<open>Properties\<close>

text \<open>C39. A completion is dispatched a bounded number of times: with \<open>max_climbs\<close> tier
  escalations allowed, at most one more round, and per round the retries, the first attempt
  and one fallback. Every dispatch is of the request itself or of the request moved to a
  higher tier, to the model of its tier or the configured fallback; and nothing at all is
  dispatched unless the request is valid, the endpoint passes the egress guard and the
  projected spend of the first call fits the hard ceiling.\<close>

theorem llm_calls_bounded:
  assumes "complete g adapter parse_json r w = (res, w')"
  shows "\<exists>ds. gw_dispatched w' = gw_dispatched w @ ds
    \<and> length ds \<le> Suc (max_climbs g r) * (g_maxRetries g + 2)
    \<and> (\<forall>d \<in> set ds. snd d \<in> ladder r \<and> fst d \<in> call_models g (snd d))
    \<and> (ds \<noteq> [] \<longrightarrow> llm_request_valid r \<and> assertEgress g = Inr ()
         \<and> assertPreCallBudget g r (resolveModelId g r) w = Inr ())"
proof -
  obtain ds where ds: "gw_dispatched w' = gw_dispatched w @ ds" "length ds \<le> Suc (max_climbs g r) * (g_maxRetries g + 2)"
    "\<forall>d \<in> set ds. snd d \<in> ladder r \<and> fst d \<in> call_models g (snd d)"
    using complete_frame[OF assms] unfolding call_frame_def by blast
  moreover have "ds \<noteq> [] \<longrightarrow> llm_request_valid r \<and> assertEgress g = Inr ()
      \<and> assertPreCallBudget g r (resolveModelId g r) w = Inr ()"
    using complete_refused[OF assms] ds(1) by (metis append_self_conv)
  ultimately show ?thesis by blast
qed

lemma llm_calls_bounded_witness:
  "\<exists>ds. gw_dispatched (snd (complete (ex_gateway None) (ex_llm_adapter []) (\<lambda>_. None) ex_llm_request ex_gateway_world)) = ds
    \<and> length ds \<le> 12"
proof -
  obtain res w' where run: "complete (ex_gateway None) (ex_llm_adapter []) (\<lambda>_. None) ex_llm_request ex_gateway_world = (res, w')"
    by fastforce
  have "max_climbs (ex_gateway None) ex_llm_request = 2" "g_maxRetries (ex_gateway None) = 2"
    by (simp_all add: max_climbs_def ex_gateway_def DEFAULT_MAX_ESCALATIONS_def climbs_left_def ex_llm_request_def)
  then show ?thesis using llm_calls_bounded[OF run] run by (auto simp: ex_gateway_world_def)
qed



end
