(* ===== verification/LineEdits.thy ===== *)
theory LineEdits
  imports Contracts JsString
begin

text \<open>
  \<open>packages/fix/src/edits.ts\<close>: the line-range edits a language model proposes, their validation
  and their application to a source. The reference \<open>edited_from\<close> says what an application means:
  one pass over the lines from the top, each range replaced, everything else kept.
\<close>

section \<open>Definitions\<close>

definition newline :: char where "newline = CHR 0x0A"

abbreviation source_lines :: "string \<Rightarrow> string list" where
  "source_lines s \<equiv> js_split_char newline s"

record llm_edit =
  le_startLine :: nat
  le_endLine :: nat
  le_replacement :: string

definition numberLines :: "string \<Rightarrow> string" where
  "numberLines source =
     js_join [newline] (map (\<lambda>(i, l). nat_str (i + 1) @ '': '' @ l) (enumerate 0 (source_lines source)))"

definition is_integer :: "rat \<Rightarrow> bool" where
  "is_integer r \<longleftrightarrow> r = of_int \<lfloor>r\<rfloor>"

text \<open>One entry of the list: an object with two line numbers in range and a replacement.\<close>

fun parse_edit :: "nat \<Rightarrow> json \<Rightarrow> llm_edit option" where
  "parse_edit totalLines (JObj kvs) =
     (case (map_of kvs ''startLine'', map_of kvs ''endLine'', map_of kvs ''replacement'') of
        (Some (JNum a), Some (JNum b), Some (JStr r)) \<Rightarrow>
          if is_integer a \<and> is_integer b \<and> 1 \<le> a \<and> a \<le> b \<and> b \<le> of_nat totalLines
          then Some \<lparr>le_startLine = nat \<lfloor>a\<rfloor>, le_endLine = nat \<lfloor>b\<rfloor>, le_replacement = r\<rparr> else None
      | _ \<Rightarrow> None)"
| "parse_edit totalLines _ = None"

fun parse_edit_list :: "nat \<Rightarrow> json list \<Rightarrow> llm_edit list option" where
  "parse_edit_list totalLines [] = Some []"
| "parse_edit_list totalLines (v # vs) =
     (case parse_edit totalLines v of
        None \<Rightarrow> None
      | Some e \<Rightarrow> map_option ((#) e) (parse_edit_list totalLines vs))"

fun ranges_disjoint :: "llm_edit list \<Rightarrow> bool" where
  "ranges_disjoint (e # f # es) \<longleftrightarrow> le_endLine e < le_startLine f \<and> ranges_disjoint (f # es)"
| "ranges_disjoint _ \<longleftrightarrow> True"

definition parseLlmEdits :: "json \<Rightarrow> nat \<Rightarrow> llm_edit list option" where
  "parseLlmEdits v totalLines =
     (case v of
        JArr vs \<Rightarrow>
          if vs = [] then None
          else (case parse_edit_list totalLines vs of
                  None \<Rightarrow> None
                | Some edits \<Rightarrow>
                    let sorted1 = js_sort (\<lambda>a b. le_startLine a \<le> le_startLine b) edits in
                    if ranges_disjoint sorted1 then Some sorted1 else None)
      | _ \<Rightarrow> None)"

definition js_splice :: "nat \<Rightarrow> nat \<Rightarrow> 'a list \<Rightarrow> 'a list \<Rightarrow> 'a list" where
  "js_splice i n new xs = take i xs @ new @ drop (i + n) xs"

text \<open>The loop runs from the last edit to the first.\<close>

definition splice_edit :: "llm_edit \<Rightarrow> string list \<Rightarrow> string list" where
  "splice_edit e ls = js_splice (le_startLine e - 1) (le_endLine e - le_startLine e + 1) (source_lines (le_replacement e)) ls"

definition applyLineEdits :: "string \<Rightarrow> llm_edit list \<Rightarrow> string" where
  "applyLineEdits original edits = js_join [newline] (foldr splice_edit edits (source_lines original))"

section \<open>The reference\<close>

text \<open>\<open>ls\<close> are the lines from number \<open>k\<close> on.\<close>

fun edited_from :: "nat \<Rightarrow> llm_edit list \<Rightarrow> string list \<Rightarrow> string list" where
  "edited_from k [] ls = ls"
| "edited_from k (e # es) ls =
     take (le_startLine e - k) ls @ source_lines (le_replacement e)
     @ edited_from (le_endLine e + 1) es (drop (le_endLine e + 1 - k) ls)"

section \<open>Lemmas\<close>

lemma split_not_empty [simp]: "js_split_char c s \<noteq> []"
  by (induction s) (auto split: list.split)

lemma split_no_sep: "l \<in> set (js_split_char c s) \<Longrightarrow> c \<notin> set l"
  by (induction s arbitrary: l) (auto split: list.splits if_splits)

lemma split_plain [simp]: "c \<notin> set l \<Longrightarrow> js_split_char c l = [l]"
  by (induction l) auto

lemma split_append: "c \<notin> set l \<Longrightarrow> js_split_char c (l @ c # s) = l # js_split_char c s"
  by (induction l) (auto split: list.split)

lemma split_join: "ls \<noteq> [] \<Longrightarrow> (\<And>l. l \<in> set ls \<Longrightarrow> c \<notin> set l) \<Longrightarrow> js_split_char c (js_join [c] ls) = ls"
  by (induction "[c]" ls rule: js_join.induct) (auto simp: split_append)

lemma join_split: "js_join [c] (js_split_char c s) = s"
proof (induction s)
  case (Cons x s)
  then show ?case by (cases "js_split_char c s" rule: list.exhaust; cases "tl (js_split_char c s)")
      (auto split: list.split)
qed simp

lemma splice_append: "length ws \<le> i \<Longrightarrow> js_splice i n new (ws @ xs) = ws @ js_splice (i - length ws) n new xs"
  by (simp add: js_splice_def)

text \<open>Sorted, disjoint, from line \<open>k\<close> on and within \<open>n\<close> lines.\<close>

fun edits_from :: "nat \<Rightarrow> nat \<Rightarrow> llm_edit list \<Rightarrow> bool" where
  "edits_from k n [] \<longleftrightarrow> True"
| "edits_from k n (e # es) \<longleftrightarrow> k \<le> le_startLine e \<and> le_startLine e \<le> le_endLine e \<and> le_endLine e \<le> n
     \<and> edits_from (le_endLine e + 1) n es"

lemma splice_edit_apply: "1 \<le> le_startLine e \<Longrightarrow> le_startLine e \<le> le_endLine e \<Longrightarrow>
    splice_edit e ls = take (le_startLine e - 1) ls @ source_lines (le_replacement e) @ drop (le_endLine e) ls"
  by (simp add: splice_edit_def js_splice_def)

lemma splice_suffix:
  assumes "edits_from k n es" and "1 \<le> k" and "length ws + 1 = k" and "n = length ws + length xs"
  shows "foldr splice_edit es (ws @ xs) = ws @ edited_from k es xs"
  using assms
proof (induction es arbitrary: k ws xs)
  case (Cons e es)
  let ?d = "le_endLine e + 1 - k"
  have ord: "k \<le> le_startLine e" "le_startLine e \<le> le_endLine e" "le_endLine e \<le> n"
    "edits_from (le_endLine e + 1) n es" using Cons.prems(1) by auto
  have "foldr splice_edit es ((ws @ take ?d xs) @ drop ?d xs)
      = (ws @ take ?d xs) @ edited_from (le_endLine e + 1) es (drop ?d xs)"
    by (rule Cons.IH[OF ord(4)]) (use Cons.prems(2,3,4) ord in auto)
  then show ?case using Cons.prems(2,3,4) ord
    by (simp add: splice_edit_apply min_def Suc_diff_le)
qed simp

text \<open>What the validation admits.\<close>

lemma parse_edit_bounds: "parse_edit n v = Some e \<Longrightarrow> 1 \<le> le_startLine e \<and> le_startLine e \<le> le_endLine e \<and> le_endLine e \<le> n"
proof (cases v)
  case (JObj kvs)
  assume "parse_edit n v = Some e"
  then obtain a b r where ab: "is_integer a" "is_integer b" "1 \<le> a" "a \<le> b" "b \<le> of_nat n"
    and e: "e = \<lparr>le_startLine = nat \<lfloor>a\<rfloor>, le_endLine = nat \<lfloor>b\<rfloor>, le_replacement = r\<rparr>"
    by (auto simp: JObj split: option.splits json.splits if_splits)
  have "1 \<le> \<lfloor>a\<rfloor>" using ab(3) by (simp add: le_floor_iff)
  moreover have "\<lfloor>a\<rfloor> \<le> \<lfloor>b\<rfloor>" using ab(4) by (rule floor_mono)
  moreover have "\<lfloor>b\<rfloor> \<le> int n" using ab(5) by (simp add: floor_le_iff)
  moreover have "1 \<le> x \<Longrightarrow> x \<le> y \<Longrightarrow> y \<le> int n \<Longrightarrow> 1 \<le> nat x \<and> nat x \<le> nat y \<and> nat y \<le> n" for x y :: int
    by linarith
  ultimately show ?thesis by (simp only: e llm_edit.select_convs)
qed auto

lemma parse_edit_list_bounds: "parse_edit_list n vs = Some es \<Longrightarrow> e \<in> set es \<Longrightarrow>
    1 \<le> le_startLine e \<and> le_startLine e \<le> le_endLine e \<and> le_endLine e \<le> n"
  by (induction vs arbitrary: es) (auto split: option.splits dest!: parse_edit_bounds)

lemma disjoint_edits_from:
  assumes "ranges_disjoint es" and "\<And>e. e \<in> set es \<Longrightarrow> le_startLine e \<le> le_endLine e \<and> le_endLine e \<le> n"
    and "es \<noteq> [] \<longrightarrow> k \<le> le_startLine (hd es)"
  shows "edits_from k n es"
  using assms by (induction es arbitrary: k rule: ranges_disjoint.induct) auto

lemma parseLlmEdits_edits_from:
  assumes "parseLlmEdits v n = Some es" shows "edits_from 1 n es \<and> es \<noteq> []"
proof -
  obtain vs edits where v: "v = JArr vs" "vs \<noteq> []" "parse_edit_list n vs = Some edits"
    and es: "es = js_sort (\<lambda>a b. le_startLine a \<le> le_startLine b) edits" "ranges_disjoint es"
    using assms by (auto simp: parseLlmEdits_def Let_def split: json.splits if_splits option.splits)
  have b: "e \<in> set es \<Longrightarrow> 1 \<le> le_startLine e \<and> le_startLine e \<le> le_endLine e \<and> le_endLine e \<le> n" for e
    using parse_edit_list_bounds[OF v(3)] es(1) by auto
  have "edits \<noteq> []" using v by (cases vs) (auto split: option.splits)
  then have "es \<noteq> []" using es(1) length_js_sort[of _ edits] by (metis length_0_conv)
  then show ?thesis using disjoint_edits_from[OF es(2)] b by (metis list.set_sel(1))
qed

section \<open>Properties\<close>

text \<open>C26. Applying the edits of a model is what it means to be: when the edits pass the
  validation against the line count of the source, splicing them from the last to the first
  gives exactly the lines of one pass from the top that replaces each range and keeps every
  other line; the ranges are in order, disjoint and within the file.\<close>

theorem line_edits_exact:
  assumes "parseLlmEdits v (length (source_lines original)) = Some es"
  shows "source_lines (applyLineEdits original es) = edited_from 1 es (source_lines original)
    \<and> edits_from 1 (length (source_lines original)) es"
proof -
  let ?ls = "source_lines original"
  have ok: "edits_from 1 (length ?ls) es" and ne: "es \<noteq> []"
    using parseLlmEdits_edits_from[OF assms] by auto
  have eq: "foldr splice_edit es ?ls = edited_from 1 es ?ls"
    using splice_suffix[OF ok, of "[]" ?ls] by simp
  have "edited_from k fs ls \<noteq> [] \<or> fs = [] \<and> ls = []" for k fs ls by (cases fs) auto
  then have "edited_from 1 es ?ls \<noteq> []" using ne by blast
  moreover have "newline \<notin> set l" if "l \<in> set (edited_from k fs ls)" "\<forall>m \<in> set ls. newline \<notin> set m" for l k fs ls
    using that
  proof (induction k fs ls rule: edited_from.induct)
    case (2 k e es ls)
    then show ?case using split_no_sep[of l newline] by (auto dest: in_set_takeD in_set_dropD)
  qed simp
  ultimately show ?thesis using ok split_no_sep[of _ newline original]
    unfolding applyLineEdits_def eq by (metis split_join)
qed

lemma line_edits_exact_witness:
  "source_lines (applyLineEdits [CHR ''a'', newline, CHR ''b'']
     [\<lparr>le_startLine = 2, le_endLine = 2, le_replacement = ''c''\<rparr>]) = [''a'', ''c'']"
proof -
  have "parseLlmEdits (JArr [JObj [(''startLine'', JNum 2), (''endLine'', JNum 2), (''replacement'', JStr ''c'')]])
      (length (source_lines [CHR ''a'', newline, CHR ''b''])) = Some [\<lparr>le_startLine = 2, le_endLine = 2, le_replacement = ''c''\<rparr>]"
    by code_simp
  from line_edits_exact[OF this] show ?thesis by (simp add: newline_def)
qed

end
