(* ===== verification/FixRisk.thy ===== *)
theory FixRisk
  imports Regex ScanContracts
begin

text \<open>
  \<open>packages/fix/src/risk.ts\<close>: the rules that decide whether a fix may become a pull request
  without an approver reading it. The three patterns are regular expressions, matched without
  regard to case; the path patterns are shown to be tests on the segments of a path.
\<close>

section \<open>Definitions\<close>

fun category_str :: "category \<Rightarrow> string" where
  "category_str Sql_injection = ''sql_injection''"
| "category_str Nosql_injection = ''nosql_injection''"
| "category_str Command_injection = ''command_injection''"
| "category_str Xss = ''xss''"
| "category_str Ssrf = ''ssrf''"
| "category_str Path_traversal = ''path_traversal''"
| "category_str Insecure_deserialization = ''insecure_deserialization''"
| "category_str Hardcoded_secret = ''hardcoded_secret''"
| "category_str Vulnerable_dependency = ''vulnerable_dependency''"
| "category_str Permissive_cors = ''permissive_cors''"
| "category_str Missing_security_headers = ''missing_security_headers''"
| "category_str Insecure_cookie = ''insecure_cookie''"
| "category_str Weak_crypto = ''weak_crypto''"
| "category_str Broken_access_control = ''broken_access_control''"
| "category_str Broken_authentication = ''broken_authentication''"
| "category_str Open_redirect = ''open_redirect''"
| "category_str Xxe = ''xxe''"
| "category_str Csrf = ''csrf''"
| "category_str Sensitive_data_exposure = ''sensitive_data_exposure''"
| "category_str Insufficient_logging = ''insufficient_logging''"
| "category_str Idor = ''idor''"
| "category_str Mass_assignment = ''mass_assignment''"
| "category_str Rate_limit_missing = ''rate_limit_missing''"
| "category_str Prompt_injection = ''prompt_injection''"
| "category_str Insecure_configuration = ''insecure_configuration''"
| "category_str Other_category = ''other''"

definition ALWAYS_HUMAN_REQUIRED_CATEGORIES :: "category list" where
  "ALWAYS_HUMAN_REQUIRED_CATEGORIES = [Broken_access_control, Broken_authentication, Weak_crypto, Idor, Csrf,
     Sensitive_data_exposure, Insecure_deserialization]"

definition AUTO_ELIGIBLE_CATEGORIES :: "category list" where
  "AUTO_ELIGIBLE_CATEGORIES = [Sql_injection, Nosql_injection, Xss, Permissive_cors, Insecure_cookie,
     Missing_security_headers, Open_redirect]"

record risk_signals =
  rk_touchesAuthOrCrypto :: bool
  rk_wideBlastRadius :: bool
  rk_uncertain :: bool

definition classifyFixRisk :: "category \<Rightarrow> risk_signals \<Rightarrow> risk_class" where
  "classifyFixRisk c sg =
     (if rk_touchesAuthOrCrypto sg then Human_required
      else if rk_wideBlastRadius sg then Human_required
      else if rk_uncertain sg then Human_required
      else if c \<in> set ALWAYS_HUMAN_REQUIRED_CATEGORIES then Human_required
      else if c \<in> set AUTO_ELIGIBLE_CATEGORIES then Auto_eligible else Human_required)"

text \<open>A word of a list between separators or the ends of the subject.\<close>

definition delimited :: "char list \<Rightarrow> char list \<Rightarrow> string list \<Rightarrow> regex" where
  "delimited before behind ws =
     rx_seq [Alt TextStart (One (\<lambda>c. c \<in> set before)), rx_words ws, Alt (One (\<lambda>c. c \<in> set behind)) TextEnd]"

definition AUTH_WORDS :: "string list" where
  "AUTH_WORDS = [''auth'', ''authn'', ''authz'', ''session'', ''login'', ''logout'', ''signin'', ''signup'',
     ''oauth'', ''oidc'', ''saml'', ''jwt'', ''password'', ''passwd'', ''credential'', ''rbac'', ''acl'',
     ''permission'', ''middleware'', ''guard'']"

definition AUTH_PATH_RE :: regex where
  "AUTH_PATH_RE = delimited ''/._-'' ''/._-'' AUTH_WORDS"

definition AUTH_CRYPTO_API_RE :: regex where
  "AUTH_CRYPTO_API_RE = rx_alt
     [rx_seq [WordBoundary, rx_alt [Lit ''crypto'', Seq (Lit ''createcipher'') (rx_opt (Lit ''iv'')),
         Seq (Lit ''createdecipher'') (rx_opt (Lit ''iv'')),
         rx_words [''createhash'', ''createhmac'', ''randombytes'', ''pbkdf2'', ''scrypt'', ''bcrypt'', ''argon2'',
           ''jsonwebtoken'', ''passport'', ''next-auth'', ''getserversession'', ''usesession'', ''hashpassword'',
           ''comparepassword'', ''setpassword'', ''signtoken'', ''verifytoken'']], WordBoundary],
      Seq WordBoundary (Lit ''jwt.''), Lit ''.sign('', Lit ''.verify('', Seq WordBoundary (Lit ''session.''),
      rx_seq [WordBoundary, Lit ''req.session'', WordBoundary]]"

definition SHARED_MODULE_RE :: regex where
  "SHARED_MODULE_RE = rx_seq [Alt TextStart (One (\<lambda>c. c = CHR ''/'')),
     rx_words [''shared'', ''common'', ''core'', ''middleware''], One (\<lambda>c. c = CHR ''/'' \<or> c = CHR ''.'')]"

definition MAX_AUTO_CHANGED_LINES :: nat where "MAX_AUTO_CHANGED_LINES = 40"

record risk_evidence =
  ri_patch :: string
  ri_changedFiles :: "string list"
  ri_changedLines :: nat
  ri_uncertain :: bool

record risk_decision =
  rd_riskClass :: risk_class
  rd_rationale :: string
  rd_signals :: risk_signals

definition evidence_files :: "confirmed_finding \<Rightarrow> risk_evidence \<Rightarrow> string list" where
  "evidence_files f ev = (if 0 < length (ri_changedFiles ev) then ri_changedFiles ev else [loc_file (cn_location f)])"

definition deriveRiskSignals :: "confirmed_finding \<Rightarrow> risk_evidence \<Rightarrow> risk_signals" where
  "deriveRiskSignals f ev =
     (let files = evidence_files f ev;
          pathTouchesAuth = list_ex (rx_test_i AUTH_PATH_RE) files;
          patchTouchesAuth = (0 < length (ri_patch ev) \<and> rx_test_i AUTH_CRYPTO_API_RE (ri_patch ev))
      in \<lparr>rk_touchesAuthOrCrypto = (pathTouchesAuth \<or> patchTouchesAuth),
          rk_wideBlastRadius = (1 < length files \<or> MAX_AUTO_CHANGED_LINES < ri_changedLines ev
             \<or> list_ex (rx_test_i SHARED_MODULE_RE) files),
          rk_uncertain = ri_uncertain ev\<rparr>)"

definition quoted :: "string \<Rightarrow> string" where
  "quoted s = [CHR 0x22] @ s @ [CHR 0x22]"

definition classifyConfirmedFindingRisk :: "confirmed_finding \<Rightarrow> risk_evidence \<Rightarrow> category list option \<Rightarrow> risk_decision" where
  "classifyConfirmedFindingRisk f ev policy =
     (let c = cn_category f; signals = deriveRiskSignals f ev in
      if (case policy of None \<Rightarrow> False | Some cs \<Rightarrow> c \<in> set cs)
      then \<lparr>rd_riskClass = Human_required,
             rd_rationale = ''Deployment policy forces category '' @ quoted (category_str c) @ '' to human review.'',
             rd_signals = signals\<lparr>rk_uncertain := True\<rparr>\<rparr>
      else \<lparr>rd_riskClass = classifyFixRisk c signals,
             rd_rationale =
               (if rk_touchesAuthOrCrypto signals
                then ''Patch touches auth/session/crypto/access-control code - human-required (hard rule '' @ [CHR 0xA7] @ ''11).''
                else if rk_wideBlastRadius signals
                then ''Wide blast radius ('' @ nat_str (length (evidence_files f ev)) @ '' file(s), ''
                       @ nat_str (ri_changedLines ev) @ '' changed line(s)) - human-required.''
                else if rk_uncertain signals
                then ''Classifier uncertain (no cleanly-validated mechanical fix) - fail-safe to human review.''
                else if c \<in> set ALWAYS_HUMAN_REQUIRED_CATEGORIES
                then ''Category '' @ quoted (category_str c)
                       @ '' always requires human review (auth/crypto/access-control hard rule '' @ [CHR 0xA7] @ ''11).''
                else if c \<in> set AUTO_ELIGIBLE_CATEGORIES
                then ''Mechanical, low-blast-radius '' @ quoted (category_str c)
                       @ '' fix with a cleanly-validated patch - auto-eligible.''
                else ''Category '' @ quoted (category_str c)
                       @ '' is not on the auto-eligible allowlist - fail-safe to human review.''),
             rd_signals = signals\<rparr>)"

section \<open>Lemmas\<close>

text \<open>The segments of a path between separators.\<close>

fun segments :: "(char \<Rightarrow> bool) \<Rightarrow> string \<Rightarrow> string list" where
  "segments sep [] = [[]]"
| "segments sep (c # cs) = (if sep c then [] # segments sep cs
     else (case segments sep cs of [] \<Rightarrow> [[c]] | w # ws \<Rightarrow> (c # w) # ws))"

lemma segments_not_empty [simp]: "segments sep s \<noteq> []"
  by (induction s) (auto split: list.split)

lemma hd_segments: "hd (segments sep s) = takeWhile (\<lambda>c. \<not> sep c) s"
proof (induction s)
  case (Cons c cs)
  obtain v vs where "segments sep cs = v # vs" using segments_not_empty by (meson neq_Nil_conv)
  then show ?case using Cons by simp
qed simp

lemma stretch_takeWhile: "(\<exists>b. s = w @ b \<and> (b = [] \<or> sep (hd b)) \<and> (\<forall>c \<in> set w. \<not> sep c))
    \<longleftrightarrow> w = takeWhile (\<lambda>c. \<not> sep c) s"
proof
  assume "\<exists>b. s = w @ b \<and> (b = [] \<or> sep (hd b)) \<and> (\<forall>c \<in> set w. \<not> sep c)"
  then obtain b where "s = w @ b" "b = [] \<or> sep (hd b)" "\<forall>c \<in> set w. \<not> sep c" by blast
  then have "takeWhile (\<lambda>c. \<not> sep c) s = w" by (cases b) (auto simp: takeWhile_eq_all_conv)
  then show "w = takeWhile (\<lambda>c. \<not> sep c) s" by simp
next
  assume w: "w = takeWhile (\<lambda>c. \<not> sep c) s"
  show "\<exists>b. s = w @ b \<and> (b = [] \<or> sep (hd b)) \<and> (\<forall>c \<in> set w. \<not> sep c)"
    by (rule exI[of _ "dropWhile (\<lambda>c. \<not> sep c) s"])
      (use hd_dropWhile[of "\<lambda>c. \<not> sep c" s] in \<open>auto simp: w dest: set_takeWhileD\<close>)
qed

text \<open>The segments after the first are the stretches behind a separator.\<close>

lemma tl_segments: "w \<in> set (tl (segments sep s)) \<longleftrightarrow>
    (\<exists>a c b. s = a @ c # w @ b \<and> sep c \<and> (b = [] \<or> sep (hd b)) \<and> (\<forall>c \<in> set w. \<not> sep c))"
proof (induction s)
  case (Cons x xs)
  have split: "(\<exists>a c b. x # xs = a @ c # w @ b \<and> sep c \<and> (b = [] \<or> sep (hd b)) \<and> (\<forall>c \<in> set w. \<not> sep c))
      \<longleftrightarrow> sep x \<and> (\<exists>b. xs = w @ b \<and> (b = [] \<or> sep (hd b)) \<and> (\<forall>c \<in> set w. \<not> sep c))
        \<or> (\<exists>a c b. xs = a @ c # w @ b \<and> sep c \<and> (b = [] \<or> sep (hd b)) \<and> (\<forall>c \<in> set w. \<not> sep c))"
    (is "?L \<longleftrightarrow> ?A \<or> ?B")
  proof
    assume ?L
    then obtain a c b where "x # xs = a @ c # w @ b" "sep c" "b = [] \<or> sep (hd b)" "\<forall>c \<in> set w. \<not> sep c" by blast
    then show "?A \<or> ?B" by (cases a; simp; blast)
  next
    assume "?A \<or> ?B"
    then show ?L
    proof
      assume ?A
      then show ?L by (metis append_Nil)
    next
      assume ?B
      then show ?L by (metis append_Cons)
    qed
  qed
  obtain v vs where v: "segments sep xs = v # vs" using segments_not_empty by (meson neq_Nil_conv)
  then have "v = takeWhile (\<lambda>c. \<not> sep c) xs" using hd_segments[of sep xs] by simp
  then show ?case unfolding split stretch_takeWhile Cons.IH[symmetric] using v by auto
qed simp

lemma in_segments: "w \<in> set (segments sep s) \<longleftrightarrow>
    (\<exists>a b. s = a @ w @ b \<and> (a = [] \<or> sep (last a)) \<and> (b = [] \<or> sep (hd b)) \<and> (\<forall>c \<in> set w. \<not> sep c))"
  (is "_ \<longleftrightarrow> ?C")
proof -
  have "w \<in> set (segments sep s) \<longleftrightarrow> w = hd (segments sep s) \<or> w \<in> set (tl (segments sep s))"
    by (metis list.collapse segments_not_empty set_ConsD list.set_intros)
  then have mem: "w \<in> set (segments sep s) \<longleftrightarrow>
      (\<exists>b. s = w @ b \<and> (b = [] \<or> sep (hd b)) \<and> (\<forall>c \<in> set w. \<not> sep c))
      \<or> (\<exists>a c b. s = a @ c # w @ b \<and> sep c \<and> (b = [] \<or> sep (hd b)) \<and> (\<forall>c \<in> set w. \<not> sep c))"
    (is "_ \<longleftrightarrow> ?A \<or> ?B")
    unfolding hd_segments tl_segments stretch_takeWhile .
  have "?A \<Longrightarrow> ?C" by (metis append_Nil)
  moreover have "?C" if ?B
  proof -
    from that obtain a c b where "s = (a @ [c]) @ w @ b" "sep c" "b = [] \<or> sep (hd b)" "\<forall>c \<in> set w. \<not> sep c"
      by auto
    then show ?C by (metis last_snoc)
  qed
  moreover have "?A \<or> ?B" if ?C
  proof -
    from that obtain a b where ab: "s = a @ w @ b" "a = [] \<or> sep (last a)" "b = [] \<or> sep (hd b)" "\<forall>c \<in> set w. \<not> sep c"
      by blast
    show ?thesis
    proof (cases a rule: rev_cases)
      case Nil
      then show ?thesis using ab by auto
    next
      case (snoc a' c)
      then have "s = a' @ c # w @ b" "sep c" using ab by auto
      then show ?thesis using ab(3,4) by blast
    qed
  qed
  ultimately show ?thesis using mem by blast
qed

text \<open>Inversion of matches, one per operator.\<close>

inductive_cases match_One: "rx_match p (One P) w s"
inductive_cases match_Lit: "rx_match p (Lit l) w s"
inductive_cases match_Seq: "rx_match p (Seq r t) w s"
inductive_cases match_Alt: "rx_match p (Alt r t) w s"
inductive_cases match_Start: "rx_match p TextStart w s"
inductive_cases match_End: "rx_match p TextEnd w s"

lemma match_One_iff: "rx_match p (One P) w s \<longleftrightarrow> (\<exists>c. w = [c] \<and> P c)"
  by (auto elim: match_One intro: m_one)

lemma match_Lit_iff: "rx_match p (Lit l) w s \<longleftrightarrow> w = l"
  by (auto elim: match_Lit intro: m_lit)

lemma match_Seq_iff: "rx_match p (Seq r t) w s \<longleftrightarrow>
    (\<exists>u v. w = u @ v \<and> rx_match p r u (v @ s) \<and> rx_match (after u p) t v s)"
  by (rule iffI, erule match_Seq, blast, auto intro: m_seq)

lemma match_Alt_iff: "rx_match p (Alt r t) w s \<longleftrightarrow> rx_match p r w s \<or> rx_match p t w s"
  by (auto elim: match_Alt intro: m_alt1 m_alt2)

lemma match_Start_iff: "rx_match p TextStart w s \<longleftrightarrow> p = None \<and> w = []"
  by (auto elim: match_Start intro: m_start)

lemma match_End_iff: "rx_match p TextEnd w s \<longleftrightarrow> s = [] \<and> w = []"
  by (auto elim: match_End intro: m_end)

lemma match_words_iff: "rx_match p (rx_words ws) w s \<longleftrightarrow> w \<in> set ws"
proof -
  have "rx_match p (rx_alt (map Lit ws)) w s \<longleftrightarrow> w \<in> set ws"
    by (induction ws rule: induct_list012) (auto simp: match_One_iff match_Lit_iff match_Alt_iff)
  then show ?thesis by (simp add: rx_words_def)
qed

lemmas match_iffs = match_One_iff match_Lit_iff match_Seq_iff match_Alt_iff match_Start_iff match_End_iff match_words_iff

text \<open>A word between separators or ends occurs exactly when it is a segment.\<close>

lemma match_delimited: "rx_match p (delimited s1 s2 ws) m b \<longleftrightarrow>
    (\<exists>u w v. m = u @ w @ v \<and> w \<in> set ws \<and> (u = [] \<and> p = None \<or> (\<exists>c. u = [c] \<and> c \<in> set s1))
       \<and> (v = [] \<and> b = [] \<or> (\<exists>c. v = [c] \<and> c \<in> set s2)))"
  unfolding delimited_def rx_seq.simps match_iffs by blast

lemma delimited_segments:
  assumes "\<And>w c. w \<in> set ws \<Longrightarrow> c \<in> set w \<Longrightarrow> c \<notin> set seps"
  shows "rx_test (delimited seps seps ws) s \<longleftrightarrow> (\<exists>w \<in> set ws. w \<in> set (segments (\<lambda>c. c \<in> set seps) s))"
proof
  assume "rx_test (delimited seps seps ws) s"
  then obtain a u w v b where s: "s = a @ (u @ w @ v) @ b" and w: "w \<in> set ws"
    and u: "u = [] \<and> after a None = None \<or> (\<exists>c. u = [c] \<and> c \<in> set seps)"
    and v: "v = [] \<and> b = [] \<or> (\<exists>c. v = [c] \<and> c \<in> set seps)"
    unfolding rx_test_iff match_delimited by blast
  have "a @ u = [] \<or> last (a @ u) \<in> set seps" using u by (auto simp: after_def split: if_splits)
  moreover have "v @ b = [] \<or> hd (v @ b) \<in> set seps" using v by auto
  moreover have "s = (a @ u) @ w @ (v @ b)" using s by simp
  ultimately have "w \<in> set (segments (\<lambda>c. c \<in> set seps) s)" unfolding in_segments using assms[OF w] by blast
  then show "\<exists>w \<in> set ws. w \<in> set (segments (\<lambda>c. c \<in> set seps) s)" using w by blast
next
  assume "\<exists>w \<in> set ws. w \<in> set (segments (\<lambda>c. c \<in> set seps) s)"
  then obtain w a b where w: "w \<in> set ws" and s: "s = a @ w @ b"
    and a: "a = [] \<or> last a \<in> set seps" and b: "b = [] \<or> hd b \<in> set seps"
    unfolding in_segments by blast
  obtain a' u where a': "a = a' @ u" "u = [] \<and> a' = [] \<or> (\<exists>c. u = [c] \<and> c \<in> set seps)"
    using a by (cases a rule: rev_cases) auto
  obtain v b' where b': "b = v @ b'" "v = [] \<and> b' = [] \<or> (\<exists>c. v = [c] \<and> c \<in> set seps)"
    using b that[of "[]" "[]"] that[of "[hd b]" "tl b"] by (cases b) auto
  have "rx_match (after a' None) (delimited seps seps ws) (u @ w @ v) b'"
    unfolding match_delimited using a' b' w by (auto simp: after_def)
  then show "rx_test (delimited seps seps ws) s"
    unfolding rx_test_iff using s a' b' by (metis append.assoc)
qed

lemma auth_words_plain: "w \<in> set AUTH_WORDS \<Longrightarrow> c \<in> set w \<Longrightarrow> c \<notin> set ''/._-''"
  by (auto simp: AUTH_WORDS_def)

text \<open>When a fix is auto-eligible.\<close>

lemma classifyFixRisk_auto: "classifyFixRisk c sg = Auto_eligible \<longleftrightarrow>
    \<not> rk_touchesAuthOrCrypto sg \<and> \<not> rk_wideBlastRadius sg \<and> \<not> rk_uncertain sg \<and> c \<in> set AUTO_ELIGIBLE_CATEGORIES"
  by (auto simp: classifyFixRisk_def ALWAYS_HUMAN_REQUIRED_CATEGORIES_def AUTO_ELIGIBLE_CATEGORIES_def)

section \<open>Properties\<close>

text \<open>The test of a path for authentication code is a test of its segments: the pattern
  matches exactly when, after lowering the case, one of the twenty words is a whole segment
  between slashes, dots, underscores and hyphens; so \<open>src/auth/user.ts\<close> is caught
  and \<open>src/authentication.ts\<close> is not.\<close>

lemma auth_path_by_segments:
  "rx_test_i AUTH_PATH_RE f \<longleftrightarrow> (\<exists>w \<in> set AUTH_WORDS. w \<in> set (segments (\<lambda>c. c \<in> set ''/._-'') (js_lower f)))"
  unfolding rx_test_i_def AUTH_PATH_RE_def by (rule delimited_segments[OF auth_words_plain])

text \<open>A fix is classed as auto-eligible exactly when the deployment does not send its category
  to a human, the category is on the list of mechanical ones, it comes with a validated
  patch of at most forty lines in a single file that is neither authentication code nor a
  shared module, and the patch mentions no authentication or cryptography call.\<close>

lemma auto_eligible_exact:
  "rd_riskClass (classifyConfirmedFindingRisk f ev policy) = Auto_eligible \<longleftrightarrow>
     (\<forall>cs. policy = Some cs \<longrightarrow> cn_category f \<notin> set cs)
     \<and> cn_category f \<in> {Sql_injection, Nosql_injection, Xss, Permissive_cors, Insecure_cookie,
          Missing_security_headers, Open_redirect}
     \<and> \<not> ri_uncertain ev \<and> ri_changedLines ev \<le> 40 \<and> \<not> rx_test_i AUTH_CRYPTO_API_RE (ri_patch ev)
     \<and> (\<exists>file. evidence_files f ev = [file] \<and> \<not> rx_test_i AUTH_PATH_RE file \<and> \<not> rx_test_i SHARED_MODULE_RE file)"
proof -
  have pol: "(case policy of None \<Rightarrow> False | Some cs \<Rightarrow> cn_category f \<in> set cs) \<longleftrightarrow>
      \<not> (\<forall>cs. policy = Some cs \<longrightarrow> cn_category f \<notin> set cs)" by (cases policy) auto
  have one: "evidence_files f ev \<noteq> []" by (simp add: evidence_files_def)
  have empty: "\<not> rx_test_i AUTH_CRYPTO_API_RE []" by code_simp
  have sig: "\<not> rk_touchesAuthOrCrypto (deriveRiskSignals f ev) \<and> \<not> rk_wideBlastRadius (deriveRiskSignals f ev) \<longleftrightarrow>
      ri_changedLines ev \<le> 40 \<and> \<not> rx_test_i AUTH_CRYPTO_API_RE (ri_patch ev)
      \<and> (\<exists>file. evidence_files f ev = [file] \<and> \<not> rx_test_i AUTH_PATH_RE file \<and> \<not> rx_test_i SHARED_MODULE_RE file)"
    using one empty
    by (cases "evidence_files f ev"; cases "ri_patch ev")
      (auto simp: deriveRiskSignals_def Let_def MAX_AUTO_CHANGED_LINES_def)
  have unc: "rk_uncertain (deriveRiskSignals f ev) = ri_uncertain ev" by (simp add: deriveRiskSignals_def Let_def)
  show ?thesis
    unfolding classifyConfirmedFindingRisk_def Let_def pol
    using sig unc by (auto simp: classifyFixRisk_auto AUTO_ELIGIBLE_CATEGORIES_def)
qed

end
