(* ===== verification/FixProof.thy ===== *)
theory FixProof
  imports LineEdits FixRisk
begin

text \<open>
  \<open>packages/fix/src/patch.ts\<close> and the dispatch of \<open>strategies.ts\<close>: what it takes for a patch to
  count as proven. The \<open>diff\<close> library, the sandbox and the \<open>vitest\<close> subprocess are parameters
  (\<open>proof_env\<close>); the interpretation of what the subprocess prints is the code's. A strategy is a
  record of its transform and its test generator; the twelve of them are a parameter list.
\<close>

section \<open>Strategies\<close>

datatype strategy_lang = Js_ts | Python_lang | Jvm_lang

definition file_ext :: "string list \<Rightarrow> regex" where
  "file_ext es = rx_seq [Lit ''.'', rx_words es, TextEnd]"

definition JS_TS_EXTENSION_RE :: regex where
  "JS_TS_EXTENSION_RE = file_ext [''tsx'', ''ts'', ''jsx'', ''js'', ''mjs'', ''cjs'']"

definition PYTHON_EXTENSION_RE :: regex where "PYTHON_EXTENSION_RE = file_ext [''py'']"

definition JVM_SOURCE_EXTENSION_RE :: regex where "JVM_SOURCE_EXTENSION_RE = file_ext [''java'']"

definition JVM_CONFIG_FILE_RE :: regex where
  "JVM_CONFIG_FILE_RE = rx_seq [Alt TextStart (Lit ''/''), Lit ''application'',
     rx_opt (Seq (Lit ''-'') (Rep 1 None (One (\<lambda>c. word_char c \<or> c = CHR ''.'')))),
     file_ext [''yml'', ''yaml'', ''properties'']]"

definition languageOfFile :: "string \<Rightarrow> strategy_lang option" where
  "languageOfFile f =
     (if rx_test_i JS_TS_EXTENSION_RE f then Some Js_ts
      else if rx_test_i PYTHON_EXTENSION_RE f then Some Python_lang
      else if rx_test_i JVM_SOURCE_EXTENSION_RE f \<or> rx_test_i JVM_CONFIG_FILE_RE f then Some Jvm_lang
      else None)"

record fix_strategy =
  fs_category :: category
  fs_languages :: "strategy_lang list"
  fs_vulnerable :: "string \<Rightarrow> bool"
  fs_apply :: "string \<Rightarrow> string option"
  fs_rationale :: string
  fs_testFramework :: string
  fs_proofTestCode :: "string \<Rightarrow> confirmed_finding \<Rightarrow> string"

definition pickStrategy :: "fix_strategy list \<Rightarrow> category \<Rightarrow> string option \<Rightarrow> fix_strategy option" where
  "pickStrategy strategies c filePath =
     (case filePath of
        None \<Rightarrow> find (\<lambda>s. fs_category s = c) strategies
      | Some f \<Rightarrow> (case languageOfFile f of
            None \<Rightarrow> None
          | Some l \<Rightarrow> find (\<lambda>s. fs_category s = c \<and> l \<in> set (fs_languages s)) strategies))"

definition proofTestPath :: "string \<Rightarrow> string" where
  "proofTestPath f =
     (case find (js_endsWith (js_lower f)) [''.tsx'', ''.ts'', ''.jsx'', ''.js''] of
        Some e \<Rightarrow> take (length f - length e) f | None \<Rightarrow> f) @ ''.proof-of-fix.test.ts''"

section \<open>Running the proof-of-fix test\<close>

text \<open>
  How a \<open>vitest\<close> subprocess ends: its workspace cannot be written, it times out, it exits with
  what it printed and its exit code, or it cannot be launched.
\<close>

datatype vitest_exec = Workspace_failed string | Vitest_timed_out | Vitest_exited string string string
  | Vitest_not_launched string

text \<open>What its report says; reading a field of \<open>null\<close> throws.\<close>

datatype vitest_report = No_report | Not_run string | Ran bool | Report_throws

record proof_run =
  pu_passed :: bool
  pu_executionError :: "string option"

record proof_env =
  pe_createPatch :: "string \<Rightarrow> string \<Rightarrow> string \<Rightarrow> string"
  pe_applyPatch :: "string \<Rightarrow> string \<Rightarrow> string option"
  pe_parsePatch :: "string \<Rightarrow> string list list list"
  pe_setup :: "string option"
  pe_vitest :: "string \<Rightarrow> string \<Rightarrow> string \<Rightarrow> nat \<Rightarrow> vitest_exec"
  pe_vitestBin :: string
  pe_parse_json :: "string \<Rightarrow> json option"

definition buildUnifiedDiff :: "proof_env \<Rightarrow> string \<Rightarrow> string \<Rightarrow> string \<Rightarrow> string" where
  "buildUnifiedDiff env filePath original fixed = pe_createPatch env filePath original fixed"

definition countChangedLines :: "proof_env \<Rightarrow> string \<Rightarrow> nat" where
  "countChangedLines env patch =
     (if patch = [] then 0
      else length (filter (\<lambda>l. js_startsWith l ''+'' \<or> js_startsWith l ''-'') (concat (concat (pe_parsePatch env patch)))))"

fun object_field :: "json \<Rightarrow> string \<Rightarrow> json" where
  "object_field (JObj kvs) k = (case map_of kvs k of Some v \<Rightarrow> v | None \<Rightarrow> JUndef)"
| "object_field v k = JUndef"

definition firstFailureMessage :: "json \<Rightarrow> string option" where
  "firstFailureMessage report =
     (let results = (case object_field report ''testResults'' of JArr vs \<Rightarrow> vs | _ \<Rightarrow> []);
          message = (\<lambda>v. case object_field v ''message'' of JStr s \<Rightarrow> if s \<noteq> [] then Some (take 2000 s) else None | _ \<Rightarrow> None)
      in case find (\<lambda>v. message v \<noteq> None) results of Some v \<Rightarrow> message v | None \<Rightarrow> None)"

definition interpretVitestReport :: "proof_env \<Rightarrow> string \<Rightarrow> vitest_report" where
  "interpretVitestReport env stdout =
     (let trimmed = js_trim stdout in
      if trimmed = [] then No_report
      else case pe_parse_json env trimmed of
        None \<Rightarrow> No_report
      | Some JNull \<Rightarrow> Report_throws
      | Some report \<Rightarrow>
          (case object_field report ''success'' of
             JBool success \<Rightarrow>
               if object_field report ''numTotalTests'' = JNum 0
               then Not_run (case firstFailureMessage report of Some m \<Rightarrow> m | None \<Rightarrow> ''vitest collected zero test cases'')
               else Ran success
           | _ \<Rightarrow> No_report))"

definition not_passed :: "string \<Rightarrow> proof_run" where
  "not_passed e = \<lparr>pu_passed = False, pu_executionError = Some e\<rparr>"

definition launch_failed :: "proof_env \<Rightarrow> string \<Rightarrow> proof_run" where
  "launch_failed env m = not_passed (''failed to launch vitest ('' @ pe_vitestBin env @ ''): '' @ m)"

text \<open>One run; it throws when the workspace cannot be written.\<close>

definition runVitestOnce :: "proof_env \<Rightarrow> string \<Rightarrow> string \<Rightarrow> string \<Rightarrow> nat \<Rightarrow> string + proof_run" where
  "runVitestOnce env filePath code source timeoutMs =
     (case pe_vitest env filePath code source timeoutMs of
        Workspace_failed m \<Rightarrow> Inl m
      | Vitest_timed_out \<Rightarrow> Inr (not_passed (''vitest timed out after '' @ nat_str timeoutMs @ ''ms''))
      | Vitest_not_launched m \<Rightarrow> Inr (launch_failed env m)
      | Vitest_exited stdout stderr exitCode \<Rightarrow>
          (case interpretVitestReport env stdout of
             No_report \<Rightarrow> Inr (not_passed (''vitest exited '' @ exitCode @ '' without a parseable JSON report''
               @ (if take 4000 stderr = [] then [] else '': '' @ take 4000 stderr)))
           | Not_run m \<Rightarrow> Inr (not_passed m)
           | Ran ok \<Rightarrow> Inr \<lparr>pu_passed = ok, pu_executionError = None\<rparr>
           | Report_throws \<Rightarrow> Inr (launch_failed env ''Cannot read properties of null'')))"

text \<open>Before and after the patch; the result is the two verdicts and an execution error.\<close>

definition runProofOfFixTest :: "proof_env \<Rightarrow> string \<Rightarrow> string \<Rightarrow> string \<Rightarrow> string option \<Rightarrow> nat
    \<Rightarrow> string + (bool \<times> bool \<times> string option)" where
  "runProofOfFixTest env filePath code original appliedSource timeoutMs =
     (case pe_setup env of
        Some m \<Rightarrow> Inl m
      | None \<Rightarrow>
          ebind (runVitestOnce env filePath code original timeoutMs) (\<lambda>pre.
          ebind (case appliedSource of None \<Rightarrow> Inr None
                 | Some s \<Rightarrow> map_sum id Some (runVitestOnce env filePath code s timeoutMs)) (\<lambda>post.
            let errors = List.map_filter id [pu_executionError pre, Option.bind post pu_executionError] in
            if errors \<noteq> [] then Inr (False, False, Some (js_join '' | '' errors))
            else Inr (\<not> pu_passed pre, (case post of None \<Rightarrow> False | Some p \<Rightarrow> pu_passed p), None))))"

record patch_validation =
  pv_applies :: bool
  pv_appliedSource :: "string option"
  pv_failsPrePatch :: bool
  pv_passesPostPatch :: bool
  pv_changedLines :: nat
  pv_executionError :: "string option"

definition validatePatch :: "proof_env \<Rightarrow> string \<Rightarrow> string \<Rightarrow> string \<Rightarrow> string \<Rightarrow> nat option \<Rightarrow> patch_validation" where
  "validatePatch env original patch filePath code timeoutMs =
     (let applied = pe_applyPatch env original patch;
          verdict = (case runProofOfFixTest env filePath code original applied
                           (case timeoutMs of None \<Rightarrow> 30000 | Some t \<Rightarrow> t) of
                       Inl m \<Rightarrow> (False, False, Some m) | Inr v \<Rightarrow> v)
      in \<lparr>pv_applies = (applied \<noteq> None), pv_appliedSource = applied, pv_failsPrePatch = fst verdict,
          pv_passesPostPatch = fst (snd verdict), pv_changedLines = countChangedLines env patch,
          pv_executionError = snd (snd verdict)\<rparr>)"

section \<open>Lemmas\<close>

text \<open>A run that counts: the subprocess exited and its report has tests and a verdict.\<close>

definition test_ran :: "proof_env \<Rightarrow> string \<Rightarrow> string \<Rightarrow> string \<Rightarrow> bool \<Rightarrow> bool" where
  "test_ran env filePath code source ok \<longleftrightarrow>
     (\<exists>stdout stderr exitCode. pe_vitest env filePath code source 30000 = Vitest_exited stdout stderr exitCode
        \<and> interpretVitestReport env stdout = Ran ok)"

lemma run_verdict:
  assumes "runVitestOnce env filePath code source 30000 = Inr r" and "pu_executionError r = None"
  shows "test_ran env filePath code source (pu_passed r)"
  using assms by (auto simp: runVitestOnce_def test_ran_def not_passed_def launch_failed_def
      split: vitest_exec.splits vitest_report.splits)

lemma validated_runs:
  assumes "pv_failsPrePatch (validatePatch env original patch filePath code None)"
    and "pv_passesPostPatch (validatePatch env original patch filePath code None)"
  shows "\<exists>applied. pe_applyPatch env original patch = Some applied
    \<and> test_ran env filePath code original False \<and> test_ran env filePath code applied True"
proof -
  let ?a = "pe_applyPatch env original patch"
  obtain e where v: "runProofOfFixTest env filePath code original ?a 30000 = Inr (True, True, e)"
    using assms by (auto simp: validatePatch_def Let_def split: sum.splits)
  obtain pre post where pre: "runVitestOnce env filePath code original 30000 = Inr pre"
    and post: "(case ?a of None \<Rightarrow> Inr None
      | Some s \<Rightarrow> map_sum id Some (runVitestOnce env filePath code s 30000)) = Inr post"
    and none: "List.map_filter id [pu_executionError pre, Option.bind post pu_executionError] = []"
    and ok: "\<not> pu_passed pre" "case post of None \<Rightarrow> False | Some p \<Rightarrow> pu_passed p"
    using v by (auto simp: runProofOfFixTest_def ebind_Inr_iff Let_def split: option.splits if_splits)
  obtain p where p: "post = Some p" "pu_passed p" using ok(2) by (cases post) auto
  obtain s where s: "?a = Some s" "runVitestOnce env filePath code s 30000 = Inr p"
    using post p by (cases ?a) (auto simp: map_sum_def split: sum.splits)
  have "pu_executionError pre = None" "pu_executionError p = None"
    using none p by (auto simp: List.map_filter_def split: if_splits)
  then show ?thesis using run_verdict[OF pre] run_verdict[OF s(2)] ok(1) p(2) s(1) by auto
qed

end
