(* ===== verification/FixGenerate.thy ===== *)
theory FixGenerate
  imports FixProof LlmGateway JsonCanon QueueContracts
begin

text \<open>
  \<open>packages/fix/src/generate.ts\<close>: layer 4 turns every confirmed finding into one fix. The
  language model is asked through an effect on a world \<open>'w\<close> (the gateway of \<open>LlmGateway\<close> is one
  such effect), the audit log is another. The replay in a container, which the worker does
  not switch on, is left out; so are metrics and logging.
\<close>

section \<open>Context\<close>

record 'w fix_effects =
  fe_ask :: "llm_request \<Rightarrow> 'w \<Rightarrow> (js_error + llm_response) \<times> 'w"
  fe_audit :: "(audit_input \<Rightarrow> 'w \<Rightarrow> (js_error + unit) \<times> 'w) option"

text \<open>The agent loop is its two bounds when it is enabled. \<open>fc_system\<close> is the resolved prompt.\<close>

record fix_context =
  fc_clientId :: string
  fc_scanId :: string
  fc_system :: string
  fc_read :: "string \<Rightarrow> string option"
  fc_humanRequiredCategoriesAlways :: "category list option"
  fc_agentLoop :: "(nat \<times> nat option) option"
  fc_strategies :: "fix_strategy list"
  fc_proof :: proof_env
  fc_makeId :: "(confirmed_finding \<Rightarrow> nat \<Rightarrow> string) option"
  fc_now :: string

record llm_proposal =
  lp_fixedSource :: "string option"
  lp_rationale :: "string option"
  lp_model :: string

definition FIX_GENERATION_MAX_TOKENS :: int where "FIX_GENERATION_MAX_TOKENS = 8192"

text \<open>Texts of the code, with a backquote for each double quote.\<close>

definition quotes :: "string \<Rightarrow> string" where
  "quotes s = map (\<lambda>c. if c = CHR ''`'' then CHR 0x22 else c) s"

section \<open>Requests\<close>

definition fixUserPayload :: "confirmed_finding \<Rightarrow> string option \<Rightarrow> string" where
  "fixUserPayload f source = the (json_text (\<lambda>_. [])
     (JObj [(''category'', JStr (category_str (cn_category f))), (''filePath'', JStr (loc_file (cn_location f))),
            (''title'', JStr (cn_title f)), (''impact'', JStr (cn_impact f)),
            (''source'', JStr (case source of None \<Rightarrow> [] | Some s \<Rightarrow> numberLines s))]))"

definition READ_FILE_TOOL :: json where
  "READ_FILE_TOOL = JObj [(''name'', JStr ''read_file''),
     (''description'', JStr (''Read a repo-relative source file (e.g. an imported module, a shared helper, or a ''
        @ ''config) to understand context BEFORE proposing the fix. Returns the file text.'')),
     (''parameters'', JObj [(''type'', JStr ''object''),
        (''properties'', JObj [(''path'', JObj [(''type'', JStr ''string''), (''description'', JStr ''repo-relative file path'')])]),
        (''required'', JArr [JStr ''path''])])]"

definition AGENT_TOOL_SUFFIX :: string where
  "AGENT_TOOL_SUFFIX = '' If a read_file tool is available, you MAY call it to inspect imported or sibling files for ''
     @ ''context before answering; when ready, stop calling tools and return ONLY the JSON edit list.''"

definition plain_message :: "llm_role \<Rightarrow> string \<Rightarrow> llm_message" where
  "plain_message role text = \<lparr>lm_role = role, lm_content = Text_content text, lm_rest = JObj []\<rparr>"

definition buildFixRequest :: "llm_message list \<Rightarrow> fix_context \<Rightarrow> string \<Rightarrow> json list option \<Rightarrow> llm_request" where
  "buildFixRequest messages ctx system tools =
     (let withTools = (case tools of None \<Rightarrow> False | Some ts \<Rightarrow> ts \<noteq> []) in
      \<lparr>lr_model = None, lr_tier = Some Default_tier, lr_system = Some system, lr_messages = messages,
       lr_maxTokens = FIX_GENERATION_MAX_TOKENS, lr_temperature = Some 0,
       lr_responseFormat = (if withTools then Format_text else Format_json),
       lr_rest = JObj ((''stream'', JBool False) # (if withTools then [(''tools'', JArr (the tools))] else [])),
       lr_metadata = \<lparr>md_scanId = Some (fc_scanId ctx), md_clientId = Some (fc_clientId ctx),
         md_layer = Some Layer4, md_purpose = Fix_generation\<rparr>\<rparr>)"

definition json_string :: "json \<Rightarrow> string" where
  "json_string v = (case v of JStr s \<Rightarrow> s | _ \<Rightarrow> [])"

definition executeToolCall :: "fix_context \<Rightarrow> json \<Rightarrow> llm_message" where
  "executeToolCall ctx tc =
     (let content =
        (if object_field tc ''name'' = JStr ''read_file''
         then (let path = json_string (object_field (object_field tc ''input'') ''path'') in
               case (if path = [] then None else fc_read ctx path) of
                 Some src \<Rightarrow> src | None \<Rightarrow> ''(file not found or unreadable: '' @ path @ '')'')
         else ''(unsupported tool: '' @ json_string (object_field tc ''name'') @ '')'')
      in \<lparr>lm_role = Role_tool, lm_content = Text_content content,
          lm_rest = JObj [(''toolCallId'', object_field tc ''id''), (''name'', object_field tc ''name'')]\<rparr>)"

section \<open>Proposals\<close>

datatype fix_issue = Unparseable | Invalid_edits

definition interpretFixResponse :: "fix_context \<Rightarrow> string \<Rightarrow> string option
    \<Rightarrow> string option \<times> string option \<times> fix_issue option" where
  "interpretFixResponse ctx content source =
     (case pe_parse_json (fc_proof ctx) content of
        Some (JObj kvs) \<Rightarrow>
          (let rationale = (case object_field (JObj kvs) ''rationale'' of JStr s \<Rightarrow> Some s | _ \<Rightarrow> None);
               edits = object_field (JObj kvs) ''edits'' in
           case source of
             Some src \<Rightarrow>
               if edits \<noteq> JUndef
               then (case parseLlmEdits edits (length (source_lines src)) of
                       None \<Rightarrow> (None, rationale, Some Invalid_edits)
                     | Some es \<Rightarrow> (Some (applyLineEdits src es), rationale, None))
               else (None, rationale, None)
           | None \<Rightarrow> (None, rationale, None))
      | _ \<Rightarrow> (None, None, Some Unparseable))"

definition proposal_of :: "fix_context \<Rightarrow> string option \<Rightarrow> llm_response \<Rightarrow> llm_proposal" where
  "proposal_of ctx source resp =
     (let (fixed, rationale, issue) = interpretFixResponse ctx (rs_content resp) source
      in \<lparr>lp_fixedSource = fixed, lp_rationale = rationale, lp_model = rs_model resp\<rparr>)"

definition proposeFixWithLlm :: "'w fix_effects \<Rightarrow> confirmed_finding \<Rightarrow> string option \<Rightarrow> fix_context \<Rightarrow> 'w
    \<Rightarrow> llm_proposal option \<times> 'w" where
  "proposeFixWithLlm eff f source ctx w =
     (case fe_ask eff (buildFixRequest [plain_message Role_user (fixUserPayload f source)] ctx (fc_system ctx) None) w of
        (Inl e, w') \<Rightarrow> (None, w')
      | (Inr resp, w') \<Rightarrow> (Some (proposal_of ctx source resp), w'))"

record oracle_result =
  or_applies :: bool
  or_failsPrePatch :: bool
  or_passesPostPatch :: bool

definition cheapPatchOracle :: "fix_context \<Rightarrow> string \<Rightarrow> string \<Rightarrow> (string \<Rightarrow> bool) \<Rightarrow> oracle_result" where
  "cheapPatchOracle ctx original patch vulnerable =
     (let applied = pe_applyPatch (fc_proof ctx) original patch in
      \<lparr>or_applies = (applied \<noteq> None), or_failsPrePatch = vulnerable original,
       or_passesPostPatch = (case applied of None \<Rightarrow> False | Some s \<Rightarrow> \<not> vulnerable s)\<rparr>)"

definition agentFeedback :: "fix_issue option \<Rightarrow> oracle_result option \<Rightarrow> string" where
  "agentFeedback issue oracle = quotes
     (case issue of
        Some Unparseable \<Rightarrow> ''Your reply was not valid JSON. Return ONLY minified JSON of the form ''
          @ ''{`edits`:[{`startLine`:<n>,`endLine`:<n>,`replacement`:`<...>`}],`rationale`:`...`}.''
      | Some Invalid_edits \<Rightarrow> ''Your edits were structurally invalid - an out-of-range startLine/endLine, a malformed ''
          @ ''entry, or two overlapping ranges. Re-read the numbered source and return a corrected ''
          @ ''edits list: each entry's startLine/endLine must be a 1-based, in-range, inclusive pair ''
          @ ''referring to the ORIGINAL line numbers, and ranges must not overlap.''
      | None \<Rightarrow>
          (case oracle of
             None \<Rightarrow> ''Your reply had no usable `edits`. Return ONLY minified JSON ''
               @ ''{`edits`:[{`startLine`:<n>,`endLine`:<n>,`replacement`:`...`}],`rationale`:`...`} that ''
               @ ''removes the vulnerability.''
           | Some o1 \<Rightarrow>
               if \<not> or_applies o1
               then ''Your edits did not produce a patch that applies cleanly to the original file. Re-check ''
                 @ ''your line ranges against the ORIGINAL numbered source (they must match exactly) and try again.''
               else if \<not> or_failsPrePatch o1
               then ''The vulnerability check did not detect the vulnerable pattern in the ORIGINAL file - ''
                 @ ''re-read the finding and target the exact vulnerable lines.''
               else ''Your fix did NOT remove the vulnerability (the vulnerable pattern is still present after ''
                 @ ''your edit). Return a new edits list that changes the necessary lines so the pattern is gone, ''
                 @ ''changing as little else as possible.''))"

text \<open>What a proposal attempt leads to: the feedback of another round, or none when the loop returns.\<close>

definition attempt_feedback :: "fix_context \<Rightarrow> confirmed_finding \<Rightarrow> string option \<Rightarrow> fix_strategy option
    \<Rightarrow> llm_response \<Rightarrow> string option" where
  "attempt_feedback ctx f original strategy resp =
     (let (fixed, rationale, issue) = interpretFixResponse ctx (rs_content resp) original in
      if issue \<noteq> None then Some (agentFeedback issue None)
      else if \<not> truthy fixed \<or> fixed = original
      then (if strategy = None \<or> original = None then None else Some (agentFeedback None None))
      else case (strategy, original) of
        (Some st, Some src) \<Rightarrow>
          (let patch = buildUnifiedDiff (fc_proof ctx) (loc_file (cn_location f)) src (the fixed);
               o1 = cheapPatchOracle ctx src patch (fs_vulnerable st)
           in if or_applies o1 \<and> or_failsPrePatch o1 \<and> or_passesPostPatch o1 then None
              else Some (agentFeedback None (Some o1)))
      | _ \<Rightarrow> None)"

definition wants_tools :: "llm_response \<Rightarrow> bool" where
  "wants_tools resp \<longleftrightarrow> rs_stopReason resp = Tool_use \<and> (case rs_toolCalls resp of None \<Rightarrow> False | Some tcs \<Rightarrow> tcs \<noteq> [])"

text \<open>
  The bounded loop: \<open>fixIters\<close> proposal attempts and \<open>toolRounds\<close> tool rounds have been used up.
\<close>

function agent_loop :: "'w fix_effects \<Rightarrow> fix_context \<Rightarrow> confirmed_finding \<Rightarrow> string option \<Rightarrow> fix_strategy option
    \<Rightarrow> nat \<Rightarrow> nat \<Rightarrow> string \<Rightarrow> json list option \<Rightarrow> llm_message list \<Rightarrow> llm_proposal option \<Rightarrow> nat \<Rightarrow> nat \<Rightarrow> 'w
    \<Rightarrow> (llm_proposal option \<times> nat) \<times> 'w" where
  "agent_loop eff ctx f original strategy maxIters maxToolCalls system tools messages prior fixIters toolRounds w =
     (if \<not> fixIters < maxIters then ((prior, max 1 fixIters), w)
      else case fe_ask eff (buildFixRequest messages ctx system tools) w of
        (Inl e, w1) \<Rightarrow> ((prior, max 1 fixIters), w1)
      | (Inr resp, w1) \<Rightarrow>
          if wants_tools resp \<and> toolRounds < maxToolCalls
          then agent_loop eff ctx f original strategy maxIters maxToolCalls system tools
                 (messages @ \<lparr>lm_role = Role_assistant, lm_content = Text_content (rs_content resp),
                     lm_rest = JObj [(''toolCalls'', JArr (the (rs_toolCalls resp)))]\<rparr>
                   # map (executeToolCall ctx) (the (rs_toolCalls resp)))
                 prior fixIters (toolRounds + 1) w1
          else let proposal = Some (proposal_of ctx original resp) in
            (case attempt_feedback ctx f original strategy resp of
               None \<Rightarrow> ((proposal, fixIters + 1), w1)
             | Some feedback \<Rightarrow>
                 agent_loop eff ctx f original strategy maxIters maxToolCalls system tools
                   (messages @ [plain_message Role_assistant (rs_content resp), plain_message Role_user feedback])
                   proposal (fixIters + 1) toolRounds w1))"
  by auto

termination
  by (relation "measure (\<lambda>(eff, ctx, f, original, strategy, maxIters, maxToolCalls, system, tools, messages, prior,
      fixIters, toolRounds, w). (maxIters - fixIters) + (maxToolCalls - toolRounds))") auto

declare agent_loop.simps [simp del]

definition proposeFixWithAgent :: "'w fix_effects \<Rightarrow> confirmed_finding \<Rightarrow> string option \<Rightarrow> fix_strategy option
    \<Rightarrow> fix_context \<Rightarrow> nat \<Rightarrow> nat \<Rightarrow> 'w \<Rightarrow> (llm_proposal option \<times> nat) \<times> 'w" where
  "proposeFixWithAgent eff f original strategy ctx maxIterations maxToolCalls w =
     (let tools = (if 0 < maxToolCalls then Some [READ_FILE_TOOL] else None);
          system = (if tools \<noteq> None then fc_system ctx @ AGENT_TOOL_SUFFIX else fc_system ctx)
      in agent_loop eff ctx f original strategy (max 1 maxIterations) maxToolCalls system tools
           [plain_message Role_user (fixUserPayload f original)] None 0 0 w)"

section \<open>One fix\<close>

definition composeRationale :: "fix_strategy \<Rightarrow> bool \<Rightarrow> string option \<Rightarrow> string" where
  "composeRationale st viaLlm llmRationale =
     (let base = (if viaLlm then fs_rationale st @ '' (Model-proposed patch, deterministically validated.)''
                  else fs_rationale st @ '' (Deterministic patch.)'')
      in if \<not> viaLlm \<and> truthy llmRationale then base @ '' Model note: '' @ the llmRationale else base)"

record fix_parts =
  fp_patch :: string
  fp_rationale :: string
  fp_test :: proof_of_fix_test
  fp_risk :: risk_decision

text \<open>The string checks of \<open>FixSchema.parse\<close>.\<close>

definition fix_parse :: "fix_record \<Rightarrow> js_error + fix_record" where
  "fix_parse f = (if fx_id f = [] \<or> fx_scanId f = [] \<or> fx_clientId f = [] \<or> fx_confirmedFindingId f = []
     then Inl (Untyped ''ZodError'') else Inr f)"

definition assembleFix :: "confirmed_finding \<Rightarrow> nat \<Rightarrow> fix_context \<Rightarrow> fix_parts \<Rightarrow> js_error + fix_record" where
  "assembleFix f index ctx p = fix_parse
     \<lparr>fx_id = (case fc_makeId ctx of None \<Rightarrow> ''fix_'' @ cn_id f | Some mk \<Rightarrow> mk f index),
      fx_scanId = cn_scanId f, fx_clientId = cn_clientId f, fx_confirmedFindingId = cn_id f,
      fx_patch = fp_patch p, fx_rationale = fp_rationale p, fx_proofOfFixTest = fp_test p,
      fx_riskClass = rd_riskClass (fp_risk p), fx_riskClassRationale = rd_rationale (fp_risk p),
      fx_status = Proposed, fx_pullRequestId = None, fx_createdAt = fc_now ctx, fx_updatedAt = None\<rparr>"

datatype fix_via = Via_llm | Via_deterministic | Via_advisory

fun via_str :: "fix_via \<Rightarrow> string" where
  "via_str Via_llm = ''llm''"
| "via_str Via_deterministic = ''deterministic''"
| "via_str Via_advisory = ''advisory''"

record fix_audit_meta =
  fm_validated :: bool
  fm_via :: fix_via
  fm_changedLines :: nat
  fm_model :: "string option"
  fm_iterations :: "nat option"

definition advisoryProofTestCode :: "string \<Rightarrow> confirmed_finding \<Rightarrow> string" where
  "advisoryProofTestCode filePath f = js_join [newline]
     [quotes ''import { describe } from `vitest`;'', [],
      ''// ADVISORY: no auto-validated fix was produced. A human must implement the'',
      ''// remediation for '' @ category_str (cn_category f) @ '' at '' @ filePath @ '' and replace this placeholder'',
      ''// with a real proof-of-fix test (failing before the change, passing after).'',
      ''describe.todo('' @ json_quote (''proof-of-fix (manual): '' @ category_str (cn_category f) @ '' @ '' @ filePath) @ '');'', []]"

definition generateAdvisory :: "confirmed_finding \<Rightarrow> nat \<Rightarrow> fix_context \<Rightarrow> llm_proposal option \<Rightarrow> bool
    \<Rightarrow> js_error + (fix_record \<times> fix_audit_meta)" where
  "generateAdvisory f index ctx llm sourceAvailable =
     (let filePath = loc_file (cn_location f);
          risk = classifyConfirmedFindingRisk f
            \<lparr>ri_patch = [], ri_changedFiles = [filePath], ri_changedLines = 0, ri_uncertain = True\<rparr>
            (fc_humanRequiredCategoriesAlways ctx);
          guidance = (case llm of None \<Rightarrow> None | Some l \<Rightarrow> lp_rationale l);
          rationale = js_join '' '' (filter (\<lambda>s. s \<noteq> [])
            [''No auto-validated mechanical fix was produced for '' @ category_str (cn_category f) @ '' at '' @ filePath
               @ (if sourceAvailable then [] else '' (source unavailable)'') @ ''.'',
             ''This finding requires manual remediation by an engineer and is recorded as human-required.'',
             (if truthy guidance then ''Model guidance: '' @ the guidance else [])])
      in ebind (assembleFix f index ctx
           \<lparr>fp_patch = [], fp_rationale = rationale,
            fp_test = \<lparr>pt_filePath = Some (proofTestPath filePath), pt_framework = Some ''vitest'',
              pt_code = advisoryProofTestCode filePath f, pt_failsPrePatch = False, pt_passesPostPatch = False,
              pt_containerReplay = None\<rparr>, fp_risk = risk\<rparr>)
         (\<lambda>fix1. Inr (fix1, \<lparr>fm_validated = False, fm_via = Via_advisory, fm_changedLines = 0,
            fm_model = map_option lp_model llm, fm_iterations = None\<rparr>)))"

text \<open>The candidates of a source with a strategy: the proposal of the model, then the transform.\<close>

definition fix_candidates :: "string \<Rightarrow> fix_strategy \<Rightarrow> llm_proposal option \<Rightarrow> (string \<times> bool) list" where
  "fix_candidates original st llm =
     (let fixed = (case llm of None \<Rightarrow> None | Some l \<Rightarrow> lp_fixedSource l) in
      (if truthy fixed \<and> fixed \<noteq> Some original then [(the fixed, True)] else [])
      @ (case fs_apply st original of None \<Rightarrow> [] | Some d \<Rightarrow> [(d, False)]))"

text \<open>The loop over the candidates: the first that validates is the fix.\<close>

fun try_candidates :: "fix_context \<Rightarrow> confirmed_finding \<Rightarrow> nat \<Rightarrow> string \<Rightarrow> fix_strategy \<Rightarrow> llm_proposal option \<Rightarrow> nat
    \<Rightarrow> (string \<times> bool) list \<Rightarrow> (js_error + (fix_record \<times> fix_audit_meta)) option" where
  "try_candidates ctx f index original st llm iterations [] = None"
| "try_candidates ctx f index original st llm iterations ((fixed, viaLlm) # cs) =
     (let filePath = loc_file (cn_location f);
          code = fs_proofTestCode st filePath f;
          patch = buildUnifiedDiff (fc_proof ctx) filePath original fixed;
          v = validatePatch (fc_proof ctx) original patch filePath code None
      in if pv_applies v \<and> pv_failsPrePatch v \<and> pv_passesPostPatch v
         then Some (ebind (assembleFix f index ctx
              \<lparr>fp_patch = patch,
               fp_rationale = composeRationale st viaLlm (case llm of None \<Rightarrow> None | Some l \<Rightarrow> lp_rationale l),
               fp_test = \<lparr>pt_filePath = Some (proofTestPath filePath), pt_framework = Some (fs_testFramework st),
                 pt_code = code, pt_failsPrePatch = pv_failsPrePatch v, pt_passesPostPatch = pv_passesPostPatch v,
                 pt_containerReplay = None\<rparr>,
               fp_risk = classifyConfirmedFindingRisk f
                 \<lparr>ri_patch = patch, ri_changedFiles = [filePath], ri_changedLines = pv_changedLines v,
                  ri_uncertain = False\<rparr> (fc_humanRequiredCategoriesAlways ctx)\<rparr>)
            (\<lambda>fix1. Inr (fix1, \<lparr>fm_validated = True, fm_via = (if viaLlm then Via_llm else Via_deterministic),
               fm_changedLines = pv_changedLines v, fm_model = map_option lp_model llm,
               fm_iterations = Some iterations\<rparr>)))
         else try_candidates ctx f index original st llm iterations cs)"

definition generateOne :: "'w fix_effects \<Rightarrow> confirmed_finding \<Rightarrow> nat \<Rightarrow> fix_context \<Rightarrow> 'w
    \<Rightarrow> (js_error + (fix_record \<times> fix_audit_meta)) \<times> 'w" where
  "generateOne eff f index ctx w =
     (let filePath = loc_file (cn_location f);
          original = fc_read ctx filePath;
          strategy = pickStrategy (fc_strategies ctx) (cn_category f) (Some filePath);
          ((llm, iterations), w1) = (case fc_agentLoop ctx of
             Some (maxIterations, maxToolCalls) \<Rightarrow> proposeFixWithAgent eff f original strategy ctx maxIterations
                 (case maxToolCalls of None \<Rightarrow> 0 | Some n \<Rightarrow> n) w
           | None \<Rightarrow> (let (p, w1) = proposeFixWithLlm eff f original ctx w in ((p, 1), w1)));
          advisory = map_sum id (map_prod id (\<lambda>m. m\<lparr>fm_iterations := Some iterations\<rparr>))
            (generateAdvisory f index ctx llm (original \<noteq> None))
      in (case (original, strategy) of
            (Some src, Some st) \<Rightarrow>
              (case try_candidates ctx f index src st llm iterations (fix_candidates src st llm) of
                 Some r \<Rightarrow> r | None \<Rightarrow> advisory)
          | _ \<Rightarrow> advisory, w1))"

section \<open>The layer\<close>

definition risk_str :: "risk_class \<Rightarrow> string" where
  "risk_str r = (case r of Auto_eligible \<Rightarrow> ''auto-eligible'' | Human_required \<Rightarrow> ''human-required'')"

definition or_null :: "string option \<Rightarrow> json" where
  "or_null s = (case s of None \<Rightarrow> JNull | Some x \<Rightarrow> JStr x)"

definition fix_audit_input :: "confirmed_finding \<Rightarrow> fix_record \<Rightarrow> fix_audit_meta \<Rightarrow> audit_input" where
  "fix_audit_input f fix1 m =
     \<lparr>ai_clientId = fx_clientId fix1, ai_scanId = Some (fx_scanId fix1),
      ai_actor = \<lparr>ac_type = Agent, ac_id = ''montr-fix'', ac_role = None\<rparr>, ai_action = ''fix.generated'',
      ai_targetType = Some ''fix'', ai_targetId = Some (fx_id fix1),
      ai_summary = ''Generated '' @ risk_str (fx_riskClass fix1) @ '' fix for '' @ category_str (cn_category f)
        @ '' at '' @ loc_file (cn_location f),
      ai_metadata = [(''category'', JStr (category_str (cn_category f))), (''riskClass'', JStr (risk_str (fx_riskClass fix1))),
        (''filePath'', JStr (loc_file (cn_location f))), (''validated'', JBool (fm_validated m)),
        (''via'', JStr (via_str (fm_via m))), (''changedLines'', JNum (of_nat (fm_changedLines m))),
        (''framework'', or_null (pt_framework (fx_proofOfFixTest fix1))), (''model'', or_null (fm_model m)),
        (''iterations'', case fm_iterations m of None \<Rightarrow> JNull | Some n \<Rightarrow> JNum (of_nat n)),
        (''containerReplay'', JNull)]\<rparr>"

fun generate_from :: "'w fix_effects \<Rightarrow> fix_context \<Rightarrow> nat \<Rightarrow> confirmed_finding list \<Rightarrow> 'w
    \<Rightarrow> (js_error + fix_record list) \<times> 'w" where
  "generate_from eff ctx index [] w = (Inr [], w)"
| "generate_from eff ctx index (f # fs) w =
     (case generateOne eff f index ctx w of
        (Inl e, w1) \<Rightarrow> (Inl e, w1)
      | (Inr (fix1, m), w1) \<Rightarrow>
          (case (case fe_audit eff of None \<Rightarrow> (Inr (), w1) | Some log_event \<Rightarrow> log_event (fix_audit_input f fix1 m) w1) of
             (Inl e, w2) \<Rightarrow> (Inl e, w2)
           | (Inr u, w2) \<Rightarrow>
               (case generate_from eff ctx (index + 1) fs w2 of
                  (Inl e, w3) \<Rightarrow> (Inl e, w3)
                | (Inr fixs, w3) \<Rightarrow> (Inr (fix1 # fixs), w3))))"

text \<open>The final parse of the layer's output repeats the checks every fix has passed.\<close>

definition generateFixes :: "'w fix_effects \<Rightarrow> fix_context \<Rightarrow> confirmed_finding list \<Rightarrow> 'w
    \<Rightarrow> (js_error + fix_record list) \<times> 'w" where
  "generateFixes eff ctx confirmed w = generate_from eff ctx 0 confirmed w"

section \<open>Lemmas\<close>

text \<open>What a patch of layer 4 stands on.\<close>

definition model_edit :: "string \<Rightarrow> string \<Rightarrow> bool" where
  "model_edit original fixed \<longleftrightarrow>
     (\<exists>es. edits_from 1 (length (source_lines original)) es \<and> fixed = applyLineEdits original es)"

definition proven_fix :: "fix_context \<Rightarrow> confirmed_finding \<Rightarrow> fix_record \<Rightarrow> bool" where
  "proven_fix ctx f x \<longleftrightarrow>
     (\<exists>original st fixed applied.
        fc_read ctx (loc_file (cn_location f)) = Some original
        \<and> pickStrategy (fc_strategies ctx) (cn_category f) (Some (loc_file (cn_location f))) = Some st
        \<and> (fs_apply st original = Some fixed \<or> model_edit original fixed)
        \<and> fx_patch x = buildUnifiedDiff (fc_proof ctx) (loc_file (cn_location f)) original fixed
        \<and> pe_applyPatch (fc_proof ctx) original (fx_patch x) = Some applied
        \<and> fx_proofOfFixTest x = \<lparr>pt_filePath = Some (proofTestPath (loc_file (cn_location f))),
             pt_framework = Some (fs_testFramework st), pt_code = fs_proofTestCode st (loc_file (cn_location f)) f,
             pt_failsPrePatch = True, pt_passesPostPatch = True, pt_containerReplay = None\<rparr>
        \<and> test_ran (fc_proof ctx) (loc_file (cn_location f)) (pt_code (fx_proofOfFixTest x)) original False
        \<and> test_ran (fc_proof ctx) (loc_file (cn_location f)) (pt_code (fx_proofOfFixTest x)) applied True)"

definition mechanical_change :: "fix_context \<Rightarrow> confirmed_finding \<Rightarrow> string \<Rightarrow> bool" where
  "mechanical_change ctx f patch \<longleftrightarrow>
     (\<forall>cs. fc_humanRequiredCategoriesAlways ctx = Some cs \<longrightarrow> cn_category f \<notin> set cs)
     \<and> cn_category f \<in> set AUTO_ELIGIBLE_CATEGORIES
     \<and> countChangedLines (fc_proof ctx) patch \<le> 40 \<and> \<not> rx_test_i AUTH_CRYPTO_API_RE patch
     \<and> \<not> rx_test_i AUTH_PATH_RE (loc_file (cn_location f)) \<and> \<not> rx_test_i SHARED_MODULE_RE (loc_file (cn_location f))"

text \<open>Every source a proposal carries comes from valid edits.\<close>

definition proposal_ok :: "string option \<Rightarrow> llm_proposal option \<Rightarrow> bool" where
  "proposal_ok original p \<longleftrightarrow> (\<forall>l fixed src. p = Some l \<and> lp_fixedSource l = Some fixed \<and> original = Some src \<longrightarrow> model_edit src fixed)"

lemma proposal_of_ok: "proposal_ok original (Some (proposal_of ctx original resp))"
  using parseLlmEdits_edits_from
  by (auto simp: proposal_ok_def proposal_of_def interpretFixResponse_def model_edit_def Let_def
      split: option.splits json.splits prod.splits if_splits)

lemma proposal_ok_None [simp]: "proposal_ok original None"
  by (simp add: proposal_ok_def)

lemma agent_loop_ok:
  assumes "proposal_ok original prior"
    and "agent_loop eff ctx f original strategy maxIters maxTools system tools msgs prior i j w = ((p, k), w')"
  shows "proposal_ok original p"
  using assms
proof (induction eff ctx f original strategy maxIters maxTools system tools msgs prior i j w rule: agent_loop.induct)
  case (1 eff ctx f original strategy maxIters maxTools system tools msgs prior i j w)
  show ?case
    using "1.prems" "1.IH" proposal_of_ok
    by (subst (asm) agent_loop.simps) (auto simp: Let_def split: if_splits prod.splits sum.splits option.splits)
qed

lemma generateOne_proposal:
  assumes "(case fc_agentLoop ctx of
      Some (a, b) \<Rightarrow> proposeFixWithAgent eff f original strategy ctx a (case b of None \<Rightarrow> 0 | Some n \<Rightarrow> n) w
    | None \<Rightarrow> (let (p, w1) = proposeFixWithLlm eff f original ctx w in ((p, 1), w1))) = ((llm, k), w1)"
  shows "proposal_ok original llm"
proof (cases "fc_agentLoop ctx")
  case None
  then show ?thesis using assms proposal_of_ok
    by (auto simp: proposeFixWithLlm_def split: prod.splits sum.splits)
next
  case (Some ab)
  then show ?thesis using assms agent_loop_ok[OF proposal_ok_None]
    by (cases ab) (auto simp: proposeFixWithAgent_def Let_def)
qed

lemma assembleFix_fields:
  assumes "assembleFix f i ctx p = Inr x"
  shows "fx_patch x = fp_patch p \<and> fx_proofOfFixTest x = fp_test p \<and> fx_riskClass x = rd_riskClass (fp_risk p)
    \<and> fx_confirmedFindingId x = cn_id f \<and> fx_status x = Proposed \<and> fx_scanId x = cn_scanId f \<and> fx_clientId x = cn_clientId f
    \<and> fx_pullRequestId x = None \<and> fx_id x = (case fc_makeId ctx of None \<Rightarrow> ''fix_'' @ cn_id f | Some mk \<Rightarrow> mk f i)"
  using assms by (auto simp: assembleFix_def fix_parse_def split: if_splits)

lemma advisory_human:
  assumes "generateAdvisory f i ctx llm b = Inr (x, m)" shows "fx_riskClass x = Human_required"
proof -
  have "rd_riskClass (classifyConfirmedFindingRisk f ev p) = Human_required" if "ri_uncertain ev" for ev p
    using that auto_eligible_exact[of f ev p] by (metis risk_class.exhaust)
  then show ?thesis using assms
    by (auto simp: generateAdvisory_def Let_def ebind_Inr_iff dest!: assembleFix_fields)
qed

lemma candidates_ok:
  assumes "proposal_ok (Some original) llm" and "(fixed, v) \<in> set (fix_candidates original st llm)"
  shows "fs_apply st original = Some fixed \<or> model_edit original fixed"
  using assms by (auto simp: fix_candidates_def proposal_ok_def Let_def truthy_iff split: if_splits option.splits)

lemma try_candidates_fix:
  assumes "try_candidates ctx f i original st llm k cs = Some (Inr (x, m))"
  shows "\<exists>fixed viaLlm applied. (fixed, viaLlm) \<in> set cs
    \<and> fx_patch x = buildUnifiedDiff (fc_proof ctx) (loc_file (cn_location f)) original fixed
    \<and> pe_applyPatch (fc_proof ctx) original (fx_patch x) = Some applied
    \<and> fx_proofOfFixTest x = \<lparr>pt_filePath = Some (proofTestPath (loc_file (cn_location f))),
         pt_framework = Some (fs_testFramework st), pt_code = fs_proofTestCode st (loc_file (cn_location f)) f,
         pt_failsPrePatch = True, pt_passesPostPatch = True, pt_containerReplay = None\<rparr>
    \<and> test_ran (fc_proof ctx) (loc_file (cn_location f)) (pt_code (fx_proofOfFixTest x)) original False
    \<and> test_ran (fc_proof ctx) (loc_file (cn_location f)) (pt_code (fx_proofOfFixTest x)) applied True
    \<and> fx_riskClass x = rd_riskClass (classifyConfirmedFindingRisk f
        \<lparr>ri_patch = fx_patch x, ri_changedFiles = [loc_file (cn_location f)],
         ri_changedLines = countChangedLines (fc_proof ctx) (fx_patch x), ri_uncertain = False\<rparr>
        (fc_humanRequiredCategoriesAlways ctx))"
  using assms
proof (induction cs)
  case (Cons c cs)
  obtain fixed viaLlm where c: "c = (fixed, viaLlm)" by fastforce
  let ?patch = "buildUnifiedDiff (fc_proof ctx) (loc_file (cn_location f)) original fixed"
  let ?v = "validatePatch (fc_proof ctx) original ?patch (loc_file (cn_location f)) (fs_proofTestCode st (loc_file (cn_location f)) f) None"
  show ?case
  proof (cases "pv_applies ?v \<and> pv_failsPrePatch ?v \<and> pv_passesPostPatch ?v")
    case True
    then obtain applied where run: "pe_applyPatch (fc_proof ctx) original ?patch = Some applied"
      "test_ran (fc_proof ctx) (loc_file (cn_location f)) (fs_proofTestCode st (loc_file (cn_location f)) f) original False"
      "test_ran (fc_proof ctx) (loc_file (cn_location f)) (fs_proofTestCode st (loc_file (cn_location f)) f) applied True"
      using validated_runs by blast
    have "pv_changedLines ?v = countChangedLines (fc_proof ctx) ?patch" by (simp add: validatePatch_def Let_def)
    then show ?thesis using Cons.prems True run
      by (auto simp: c Let_def ebind_Inr_iff dest!: assembleFix_fields)
  next
    case False
    have "try_candidates ctx f i original st llm k cs = Some (Inr (x, m))"
      using Cons.prems unfolding c try_candidates.simps Let_def if_not_P[OF False] .
    from Cons.IH[OF this] show ?thesis by (meson list.set_intros(2))
  qed
qed simp

text \<open>How often the model is asked, when one question stays within \<open>call_frame P k\<close>.\<close>

lemma agent_loop_frame:
  assumes "\<And>q w r w'. fe_ask eff q w = (r, w') \<Longrightarrow> md_purpose (lr_metadata q) = Fix_generation \<Longrightarrow>
      lr_tier q = Some Default_tier \<Longrightarrow> lr_model q = None \<Longrightarrow> call_frame P k w w'"
    and "agent_loop eff ctx f original strategy maxIters maxTools system tools msgs prior i j w = (res, w')"
  shows "call_frame P (((maxIters - i) + (maxTools - j)) * k) w w'"
  using assms
proof (induction eff ctx f original strategy maxIters maxTools system tools msgs prior i j w rule: agent_loop.induct)
  case (1 eff ctx f original strategy maxIters maxTools system tools msgs prior i j w)
  note step = agent_loop.simps[of eff ctx f original strategy maxIters maxTools system tools msgs prior i j w]
  show ?case
  proof (cases "i < maxIters")
    case False
    then have "w' = w" using "1.prems"(2) step by simp
    then show ?thesis by (simp add: call_frame_same)
  next
    case lt: True
    let ?q = "buildFixRequest msgs ctx system tools"
    obtain r w1 where ask: "fe_ask eff ?q w = (r, w1)" by fastforce
    have f: "call_frame P k w w1"
      by (rule "1.prems"(1)[OF ask]) (simp_all add: buildFixRequest_def Let_def)
    have enough: "k \<le> ((maxIters - i) + (maxTools - j)) * k"
      using mult_le_mono1[of 1 "(maxIters - i) + (maxTools - j)" k] lt by linarith
    show ?thesis
    proof (cases r)
      case (Inl e)
      then have "w' = w1" using "1.prems"(2) step lt ask by simp
      then show ?thesis using call_frame_mono[OF f enough] by simp
    next
      case (Inr resp)
      show ?thesis
      proof (cases "wants_tools resp \<and> j < maxTools")
        case True
        note eq = "1.prems"(2)[unfolded step]
        have "call_frame P (((maxIters - i) + (maxTools - (j + 1))) * k) w1 w'"
          by (rule "1.IH"(1)[OF _ ask[symmetric] Inr True "1.prems"(1)]) (use lt eq ask Inr True in auto)
        moreover have "k + ((maxIters - i) + (maxTools - (j + 1))) * k = ((maxIters - i) + (maxTools - j)) * k"
          using True by (simp add: algebra_simps flip: Suc_diff_Suc)
        ultimately show ?thesis using call_frame_trans[OF f] by (metis order_refl)
      next
        case False
        note eq = "1.prems"(2)[unfolded step]
        show ?thesis
        proof (cases "attempt_feedback ctx f original strategy resp")
          case None
          then have "w' = w1" using eq lt ask Inr False by (simp add: Let_def)
          then show ?thesis using call_frame_mono[OF f enough] by simp
        next
          case (Some fb)
          have "call_frame P (((maxIters - (i + 1)) + (maxTools - j)) * k) w1 w'"
            by (rule "1.IH"(2)[OF _ ask[symmetric] Inr False refl Some "1.prems"(1)]) (use lt eq ask Inr False Some in \<open>auto simp: Let_def\<close>)
          moreover have "k + ((maxIters - (i + 1)) + (maxTools - j)) * k = ((maxIters - i) + (maxTools - j)) * k"
            using lt by (simp add: algebra_simps flip: Suc_diff_Suc)
          ultimately show ?thesis using call_frame_trans[OF f] by (metis order_refl)
        qed
      qed
    qed
  qed
qed

text \<open>The bound of one finding: one question, or the attempts and tool rounds of the loop.\<close>

definition max_asks :: "fix_context \<Rightarrow> nat" where
  "max_asks ctx = (case fc_agentLoop ctx of None \<Rightarrow> 1
     | Some (iters, tools) \<Rightarrow> max 1 iters + (case tools of None \<Rightarrow> 0 | Some n \<Rightarrow> n))"

lemma generateOne_frame:
  assumes ask: "\<And>q w r w'. fe_ask eff q w = (r, w') \<Longrightarrow> md_purpose (lr_metadata q) = Fix_generation \<Longrightarrow>
      lr_tier q = Some Default_tier \<Longrightarrow> lr_model q = None \<Longrightarrow> call_frame P k w w'"
    and one: "generateOne eff f i ctx w = (res, w')"
  shows "call_frame P (max_asks ctx * k) w w'"
proof (cases "fc_agentLoop ctx")
  case None
  let ?q = "buildFixRequest [plain_message Role_user (fixUserPayload f (fc_read ctx (loc_file (cn_location f))))] ctx (fc_system ctx) None"
  have "snd (fe_ask eff ?q w) = w'" using one None
    by (auto simp: generateOne_def proposeFixWithLlm_def Let_def split: prod.splits sum.splits)
  then have "fe_ask eff ?q w = (fst (fe_ask eff ?q w), w')" by (metis prod.collapse)
  from ask[OF this] show ?thesis by (simp add: buildFixRequest_def Let_def max_asks_def None)
next
  case (Some ab)
  obtain iters tools where ab: "ab = (iters, tools)" by fastforce
  obtain p where "proposeFixWithAgent eff f (fc_read ctx (loc_file (cn_location f)))
      (pickStrategy (fc_strategies ctx) (cn_category f) (Some (loc_file (cn_location f)))) ctx iters
      (case tools of None \<Rightarrow> 0 | Some n \<Rightarrow> n) w = (p, w')"
    using one by (auto simp: generateOne_def Some ab Let_def split: prod.splits)
  from agent_loop_frame[OF ask this[unfolded proposeFixWithAgent_def Let_def]] show ?thesis
    by (simp add: max_asks_def Some ab)
qed

lemma generate_from_frame:
  assumes ask: "\<And>q w r w'. fe_ask eff q w = (r, w') \<Longrightarrow> md_purpose (lr_metadata q) = Fix_generation \<Longrightarrow>
      lr_tier q = Some Default_tier \<Longrightarrow> lr_model q = None \<Longrightarrow> call_frame P k w w'"
    and audit: "\<And>log a w r w'. fe_audit eff = Some log \<Longrightarrow> log a w = (r, w') \<Longrightarrow> gw_dispatched w' = gw_dispatched w"
    and run: "generate_from eff ctx i fs w = (res, w')"
  shows "call_frame P (length fs * (max_asks ctx * k)) w w'"
  using run
proof (induction fs arbitrary: i w res)
  case (Cons f fs)
  let ?n = "max_asks ctx * k"
  obtain r1 w1 where one: "generateOne eff f i ctx w = (r1, w1)" by fastforce
  have f1: "call_frame P ?n w w1" by (rule generateOne_frame[OF ask one])
  show ?case
  proof (cases r1)
    case (Inl e)
    then have "w' = w1" using Cons.prems one by simp
    then show ?thesis using call_frame_mono[OF f1, of "length (f # fs) * ?n"] by simp
  next
    case (Inr xm)
    obtain x m where xm: "xm = (x, m)" by fastforce
    obtain r2 w2 where log: "(case fe_audit eff of None \<Rightarrow> (Inr (), w1) | Some log_event \<Rightarrow> log_event (fix_audit_input f x m) w1) = (r2, w2)"
      by fastforce
    have "gw_dispatched w2 = gw_dispatched w1" using log audit by (auto split: option.splits)
    then have f2: "call_frame P ?n w w2" using f1 by (simp add: call_frame_def)
    show ?thesis
    proof (cases r2)
      case (Inl e)
      then have "w' = w2" using Cons.prems one Inr xm log by simp
      then show ?thesis using call_frame_mono[OF f2, of "length (f # fs) * ?n"] by simp
    next
      case r2: (Inr u)
      obtain r3 w3 where rest: "generate_from eff ctx (i + 1) fs w2 = (r3, w3)" by fastforce
      have w3: "w3 = w'" using Cons.prems one Inr xm log r2 rest by (simp split: sum.splits)
      show ?thesis using call_frame_trans[OF f2 Cons.IH[OF rest[unfolded w3]]] by simp
    qed
  qed
qed (simp add: call_frame_same)

text \<open>One fix never fails, whatever the model, the sandbox and the source do.\<close>

definition finding_ids_ok :: "confirmed_finding \<Rightarrow> bool" where
  "finding_ids_ok f \<longleftrightarrow> cn_id f \<noteq> [] \<and> cn_scanId f \<noteq> [] \<and> cn_clientId f \<noteq> []"

lemma assembleFix_total: "finding_ids_ok f \<Longrightarrow> fc_makeId ctx = None \<Longrightarrow> \<exists>x. assembleFix f i ctx p = Inr x"
  by (simp add: assembleFix_def fix_parse_def finding_ids_ok_def)

definition fix_of :: "confirmed_finding \<Rightarrow> fix_record \<Rightarrow> bool" where
  "fix_of f x \<longleftrightarrow> fx_id x = ''fix_'' @ cn_id f \<and> fx_confirmedFindingId x = cn_id f \<and> fx_scanId x = cn_scanId f
     \<and> fx_clientId x = cn_clientId f \<and> fx_status x = Proposed \<and> fx_pullRequestId x = None"

lemma try_candidates_total:
  assumes "finding_ids_ok f" "fc_makeId ctx = None" "try_candidates ctx f i original st llm k cs = Some r"
  shows "\<exists>x m. r = Inr (x, m) \<and> fix_of f x"
  using assms(3)
proof (induction cs)
  case (Cons c cs)
  obtain fixed v where c: "c = (fixed, v)" by fastforce
  have ok: "\<exists>x m. ebind (assembleFix f i ctx p) (\<lambda>x. Inr (x, m0)) = Inr (x, m) \<and> fix_of f x" for p and m0 :: fix_audit_meta
  proof -
    obtain x where x: "assembleFix f i ctx p = Inr x" using assembleFix_total[OF assms(1,2)] by blast
    then show ?thesis using assembleFix_fields[OF x] assms(2) by (simp add: fix_of_def)
  qed
  let ?patch = "buildUnifiedDiff (fc_proof ctx) (loc_file (cn_location f)) original fixed"
  let ?v = "validatePatch (fc_proof ctx) original ?patch (loc_file (cn_location f)) (fs_proofTestCode st (loc_file (cn_location f)) f) None"
  show ?case
  proof (cases "pv_applies ?v \<and> pv_failsPrePatch ?v \<and> pv_passesPostPatch ?v")
    case True
    then show ?thesis using Cons.prems ok unfolding c try_candidates.simps Let_def if_P[OF True] by force
  next
    case False
    show ?thesis using Cons.prems Cons.IH unfolding c try_candidates.simps Let_def if_not_P[OF False] by blast
  qed
qed simp

lemma generateOne_total:
  assumes "finding_ids_ok f" and "fc_makeId ctx = None"
  shows "\<exists>x m w'. generateOne eff f i ctx w = (Inr (x, m), w') \<and> fix_of f x"
proof -
  have adv: "\<exists>x m. generateAdvisory f i ctx llm b = Inr (x, m) \<and> fix_of f x" for llm b
    using assembleFix_total[OF assms] assms(2)
    by (fastforce simp: generateAdvisory_def Let_def ebind_Inr_iff fix_of_def dest: assembleFix_fields)
  obtain r w' where one: "generateOne eff f i ctx w = (r, w')" by fastforce
  then consider llm b g where "r = map_sum id (map_prod id g) (generateAdvisory f i ctx llm b)"
    | src st llm k cs where "try_candidates ctx f i src st llm k cs = Some r"
    by (auto simp: generateOne_def Let_def split: prod.splits option.splits)
  then have "\<exists>x m. r = Inr (x, m) \<and> fix_of f x"
  proof cases
    case 1
    then show ?thesis using adv[of llm b] by auto
  next
    case 2
    then show ?thesis using try_candidates_total[OF assms] by blast
  qed
  then show ?thesis using one by blast
qed

lemma generate_from_total:
  assumes "fc_makeId ctx = None" and "\<And>log a w. fe_audit eff = Some log \<Longrightarrow> \<exists>w'. log a w = (Inr (), w')"
    and "\<forall>f \<in> set fs. finding_ids_ok f"
  shows "\<exists>xs w'. generate_from eff ctx i fs w = (Inr xs, w') \<and> list_all2 fix_of fs xs"
  using assms(3)
proof (induction fs arbitrary: i w)
  case (Cons f fs)
  obtain x m w1 where one: "generateOne eff f i ctx w = (Inr (x, m), w1)" "fix_of f x"
    using generateOne_total[OF _ assms(1)] Cons.prems by (metis list.set_intros(1))
  have "\<exists>w2. (case fe_audit eff of None \<Rightarrow> (Inr (), w1) | Some log_event \<Rightarrow> log_event (fix_audit_input f x m) w1) = (Inr (), w2)"
    by (cases "fe_audit eff") (simp, metis assms(2) option.simps(5))
  then obtain w2 where log: "(case fe_audit eff of None \<Rightarrow> (Inr (), w1) | Some log_event \<Rightarrow> log_event (fix_audit_input f x m) w1) = (Inr (), w2)"
    by blast
  obtain xs w3 where "generate_from eff ctx (i + 1) fs w2 = (Inr xs, w3)" "list_all2 fix_of fs xs"
    using Cons by fastforce
  then show ?case using one log by simp
qed simp

section \<open>Examples\<close>

text \<open>
  A finding in a file whose source is the word \<open>raw\<close>, a strategy that replaces the word, and
  a sandbox whose test passes exactly when it is gone. A patch is the fixed source.
\<close>

definition ex_fix_finding :: confirmed_finding where
  "ex_fix_finding = \<lparr>cn_id = ''f1'', cn_scanId = ''s'', cn_clientId = ''c'', cn_probableId = None, cn_title = ''t'',
     cn_category = Sql_injection, cn_cwe = [], cn_owasp = None, cn_severity = High, cn_exposure = Public,
     cn_location = \<lparr>loc_file = ''a.ts'', loc_line = 1, loc_endLine = None, loc_column = None, loc_endColumn = None, loc_symbol = None\<rparr>,
     cn_impact = ''i'', cn_proofType = StaticProofT, cn_proofArtifact = Static_proof [] [] [], cn_createdAt = []\<rparr>"

definition ex_proof_env :: proof_env where
  "ex_proof_env = \<lparr>pe_createPatch = (\<lambda>f original fixed. fixed), pe_applyPatch = (\<lambda>original patch. Some patch),
     pe_parsePatch = (\<lambda>p. [[[''-raw'', ''+ok'']]]), pe_setup = None,
     pe_vitest = (\<lambda>f code source t. Vitest_exited (if source = ''raw'' then ''F'' else ''P'') [] ''0''),
     pe_vitestBin = ''vitest'',
     pe_parse_json = (\<lambda>s. Some (JObj [(''success'', JBool (s = ''P'')), (''numTotalTests'', JNum 1)]))\<rparr>"

definition ex_fix_context :: fix_context where
  "ex_fix_context = \<lparr>fc_clientId = ''c'', fc_scanId = ''s'', fc_system = ''p'',
     fc_read = (\<lambda>f. if f = ''a.ts'' then Some ''raw'' else None), fc_humanRequiredCategoriesAlways = None,
     fc_agentLoop = Some (3, Some 2), fc_strategies = [\<lparr>fs_category = Sql_injection, fs_languages = [Js_ts],
       fs_vulnerable = (\<lambda>s. s = ''raw''), fs_apply = (\<lambda>s. if s = ''raw'' then Some ''ok'' else None), fs_rationale = [],
       fs_testFramework = ''vitest'', fs_proofTestCode = (\<lambda>f x. [])\<rparr>], fc_proof = ex_proof_env, fc_makeId = None, fc_now = []\<rparr>"

lemma auto_eligible_proven:
  assumes "generateOne eff f i ctx w = (Inr (x, m), w')" and "fx_riskClass x = Auto_eligible"
  shows "proven_fix ctx f x \<and> mechanical_change ctx f (fx_patch x)"
proof -
  let ?file = "loc_file (cn_location f)"
  obtain llm k w1 where llm: "(case fc_agentLoop ctx of
      Some (a, b) \<Rightarrow> proposeFixWithAgent eff f (fc_read ctx ?file) (pickStrategy (fc_strategies ctx) (cn_category f) (Some ?file))
        ctx a (case b of None \<Rightarrow> 0 | Some n \<Rightarrow> n) w
    | None \<Rightarrow> (let (p, w1) = proposeFixWithLlm eff f (fc_read ctx ?file) ctx w in ((p, 1), w1))) = ((llm, k), w1)"
    by (metis prod.collapse)
  note ok = generateOne_proposal[OF llm]
  have no_adv: "generateAdvisory f i ctx llm b \<noteq> Inr (x, n)" for b n using advisory_human assms(2) by fastforce
  obtain src st where src: "fc_read ctx ?file = Some src"
    and st: "pickStrategy (fc_strategies ctx) (cn_category f) (Some ?file) = Some st"
    and tc: "try_candidates ctx f i src st llm k (fix_candidates src st llm) = Some (Inr (x, m))"
    using assms(1) no_adv unfolding generateOne_def Let_def llm[unfolded Let_def]
    by (auto simp: map_sum_def split: option.splits sum.splits)
  obtain fixed v applied where c: "(fixed, v) \<in> set (fix_candidates src st llm)"
    and p: "fx_patch x = buildUnifiedDiff (fc_proof ctx) ?file src fixed" "pe_applyPatch (fc_proof ctx) src (fx_patch x) = Some applied"
    and t: "fx_proofOfFixTest x = \<lparr>pt_filePath = Some (proofTestPath ?file), pt_framework = Some (fs_testFramework st),
        pt_code = fs_proofTestCode st ?file f, pt_failsPrePatch = True, pt_passesPostPatch = True, pt_containerReplay = None\<rparr>"
    and r: "test_ran (fc_proof ctx) ?file (pt_code (fx_proofOfFixTest x)) src False"
      "test_ran (fc_proof ctx) ?file (pt_code (fx_proofOfFixTest x)) applied True"
    and risk: "fx_riskClass x = rd_riskClass (classifyConfirmedFindingRisk f
        \<lparr>ri_patch = fx_patch x, ri_changedFiles = [?file], ri_changedLines = countChangedLines (fc_proof ctx) (fx_patch x),
         ri_uncertain = False\<rparr> (fc_humanRequiredCategoriesAlways ctx))"
    using try_candidates_fix[OF tc] by blast
  have "proven_fix ctx f x"
    unfolding proven_fix_def using src st candidates_ok[OF ok[unfolded src] c] p t r by blast
  moreover have "mechanical_change ctx f (fx_patch x)"
    using assms(2)[unfolded risk auto_eligible_exact] unfolding mechanical_change_def AUTO_ELIGIBLE_CATEGORIES_def
    by (simp add: evidence_files_def)
  ultimately show ?thesis by blast
qed

lemma generated_fixes:
  assumes "generate_from eff ctx i fs w = (Inr xs, w')" and "x \<in> set xs" and "fx_riskClass x = Auto_eligible"
  shows "\<exists>f \<in> set fs. proven_fix ctx f x \<and> mechanical_change ctx f (fx_patch x)"
  using assms(1,2)
proof (induction fs arbitrary: i w xs)
  case (Cons f fs)
  obtain y m w1 w2 ys where one: "generateOne eff f i ctx w = (Inr (y, m), w1)"
    and rest: "generate_from eff ctx (i + 1) fs w2 = (Inr ys, w')" "xs = y # ys"
    using Cons.prems(1) by (auto split: prod.splits sum.splits)
  show ?case
  proof (cases "x = y")
    case True
    then show ?thesis using auto_eligible_proven[OF one] assms(3) by auto
  next
    case False
    then show ?thesis using Cons.IH[OF rest(1)] Cons.prems(2) rest(2) by auto
  qed
qed simp

section \<open>Properties\<close>

text \<open>C6. No fix is classed as auto-eligible on the word of the model: an auto-eligible fix of
  layer 4 comes from the source file itself and a strategy of its language; its patch is that of
  the strategy's transform or of a valid list of line edits, it applies, the proof test
  really ran and failed on the original and really ran and passed on the patched
  source; and the change is mechanical: an eligible category the deployment does not exclude,
  at most forty changed lines, no authentication or shared file, no cryptography call.\<close>

theorem auto_eligible_fix_is_proven:
  assumes "generateOne eff f i ctx w = (Inr (x, m), w')" and "fx_riskClass x = Auto_eligible"
  shows "proven_fix ctx f x \<and> mechanical_change ctx f (fx_patch x)"
  by (rule auto_eligible_proven[OF assms])

text \<open>Layer 4 is bounded: behind the gateway, the fixes of a scan take at most, for each
  finding, the proposal attempts and tool rounds configured (one without the agent loop)
  times one escalation round more, times the retries and the fallback, provider
  dispatches; every one of them carries the purpose of fix generation.\<close>

lemma fix_generation_calls_bounded:
  assumes "fe_ask eff = complete g adapter parse_json"
    and "\<And>log a w r w'. fe_audit eff = Some log \<Longrightarrow> log a w = (r, w') \<Longrightarrow> gw_dispatched w' = gw_dispatched w"
    and "generateFixes eff ctx fs w = (res, w')"
  shows "\<exists>ds. gw_dispatched w' = gw_dispatched w @ ds
    \<and> length ds \<le> length fs * (max_asks ctx * (2 * (g_maxRetries g + 2)))
    \<and> (\<forall>d \<in> set ds. md_purpose (lr_metadata (snd d)) = Fix_generation)"
proof -
  have "call_frame (\<lambda>d. md_purpose (lr_metadata (snd d)) = Fix_generation) (2 * (g_maxRetries g + 2)) w w'"
    if "fe_ask eff q w = (r, w')" "md_purpose (lr_metadata q) = Fix_generation" "lr_tier q = Some Default_tier" "lr_model q = None"
    for q w r w'
  proof -
    have "max_climbs g q \<le> 1" using that(3,4) by (simp add: max_climbs_def climbs_left_def split: option.split)
    then have "Suc (max_climbs g q) * (g_maxRetries g + 2) \<le> 2 * (g_maxRetries g + 2)" by (intro mult_le_mono1) simp
    then show ?thesis
      by (rule call_frame_mono[OF complete_frame[OF that(1)[unfolded assms(1)]]])
        (use ladder_metadata[of _ q] that(2) in auto)
  qed
  from generate_from_frame[OF this assms(2) assms(3)[unfolded generateFixes_def]]
  show ?thesis by (simp add: call_frame_def)
qed

lemma fix_generation_calls_bounded_witness:
  "length (gw_dispatched (snd (generateFixes \<lparr>fe_ask = complete (ex_gateway None) (ex_llm_adapter []) (\<lambda>_. None), fe_audit = None\<rparr>
     ex_fix_context [ex_fix_finding] ex_gateway_world))) \<le> 40"
proof -
  let ?e = "\<lparr>fe_ask = complete (ex_gateway None) (ex_llm_adapter []) (\<lambda>_. None), fe_audit = None\<rparr>"
  obtain res w' where run: "generateFixes ?e ex_fix_context [ex_fix_finding] ex_gateway_world = (res, w')" by fastforce
  have "max_asks ex_fix_context = 5" "g_maxRetries (ex_gateway None) = 2"
    by (simp_all add: max_asks_def ex_fix_context_def ex_gateway_def)
  moreover obtain ds where "gw_dispatched w' = gw_dispatched ex_gateway_world @ ds"
    "length ds \<le> length [ex_fix_finding] * (max_asks ex_fix_context * (2 * (g_maxRetries (ex_gateway None) + 2)))"
    using fix_generation_calls_bounded[OF _ _ run, of "ex_gateway None" "ex_llm_adapter []" "\<lambda>_. None"] by auto
  moreover have "gw_dispatched ex_gateway_world = []" by (simp add: ex_gateway_world_def)
  ultimately show ?thesis unfolding run by simp
qed

text \<open>C27. Layer 4 yields one fix per confirmed finding, in order, whatever the language model, the
  subprocess and the source reader do: each is a proposed fix of its finding, with an
  identifier derived from it and no pull request. Only a failing audit log or an
  empty identifier stops the layer.\<close>

theorem every_finding_gets_a_fix:
  assumes "fc_makeId ctx = None" and "\<And>log a w. fe_audit eff = Some log \<Longrightarrow> \<exists>w'. log a w = (Inr (), w')"
    and "\<forall>f \<in> set fs. finding_ids_ok f"
  shows "\<exists>xs w'. generateFixes eff ctx fs w = (Inr xs, w') \<and> list_all2 fix_of fs xs"
  unfolding generateFixes_def by (rule generate_from_total[OF assms(1)]) (use assms(2,3) in auto)

lemma every_finding_gets_a_fix_witness:
  "\<exists>x w'. generateFixes \<lparr>fe_ask = (\<lambda>q w. (Inl (Untyped []), w)), fe_audit = None\<rparr> ex_fix_context [ex_fix_finding] () = (Inr [x], w')
     \<and> fx_id x = ''fix_f1''"
proof -
  have "fc_makeId ex_fix_context = None" "\<forall>f \<in> set [ex_fix_finding]. finding_ids_ok f"
    by (simp_all add: ex_fix_context_def finding_ids_ok_def ex_fix_finding_def)
  then obtain xs w' where "generateFixes \<lparr>fe_ask = (\<lambda>q w. (Inl (Untyped []), w)), fe_audit = None\<rparr> ex_fix_context [ex_fix_finding] () = (Inr xs, w')"
    "list_all2 fix_of [ex_fix_finding] xs"
    using every_finding_gets_a_fix[of ex_fix_context "\<lparr>fe_ask = (\<lambda>q w. (Inl (Untyped []), w)), fe_audit = None\<rparr>" "[ex_fix_finding]" "()"] by auto
  then show ?thesis by (auto simp: list_all2_Cons1 fix_of_def ex_fix_finding_def)
qed


lemma ex_fix_facts:
  "languageOfFile ''a.ts'' = Some Js_ts" "\<not> rx_test_i AUTH_PATH_RE ''a.ts''" "\<not> rx_test_i SHARED_MODULE_RE ''a.ts''"
  "\<not> rx_test_i AUTH_CRYPTO_API_RE ''ok''"
  by code_simp+

lemma ex_fix_interpret:
  "interpretVitestReport ex_proof_env ''F'' = Ran False" "interpretVitestReport ex_proof_env ''P'' = Ran True"
  by code_simp+

lemma ex_fix_validates:
  "validatePatch ex_proof_env ''raw'' ''ok'' ''a.ts'' [] None = \<lparr>pv_applies = True, pv_appliedSource = Some ''ok'',
     pv_failsPrePatch = True, pv_passesPostPatch = True, pv_changedLines = 2, pv_executionError = None\<rparr>"
  by (simp add: validatePatch_def runProofOfFixTest_def runVitestOnce_def ex_fix_interpret List.map_filter_def
      countChangedLines_def js_startsWith_def ex_proof_env_def [THEN arg_cong, of pe_vitest]
      ex_proof_env_def [THEN arg_cong, of pe_setup] ex_proof_env_def [THEN arg_cong, of pe_applyPatch]
      ex_proof_env_def [THEN arg_cong, of pe_parsePatch] Let_def)

lemma ex_fix_risk:
  "rd_riskClass (classifyConfirmedFindingRisk ex_fix_finding
     \<lparr>ri_patch = ''ok'', ri_changedFiles = [''a.ts''], ri_changedLines = 2, ri_uncertain = False\<rparr> None) = Auto_eligible"
  by (simp add: auto_eligible_exact evidence_files_def ex_fix_finding_def ex_fix_facts)

lemma ex_fix_proposal:
  "proposeFixWithAgent \<lparr>fe_ask = (\<lambda>q w. (Inl (Untyped []), w)), fe_audit = None\<rparr> f ov sv ctx 3 2 () = ((None, 1), ())"
  by (simp add: proposeFixWithAgent_def Let_def agent_loop.simps[where fixIters = 0 and toolRounds = 0])

lemma ex_fix_generated:
  "\<exists>x m. generateOne \<lparr>fe_ask = (\<lambda>q w. (Inl (Untyped []), w)), fe_audit = None\<rparr> ex_fix_finding 0 ex_fix_context () = (Inr (x, m), ())
    \<and> fx_riskClass x = Auto_eligible"
proof -
  let ?st = "hd (fc_strategies ex_fix_context)"
  have st: "pickStrategy (fc_strategies ex_fix_context) (cn_category ex_fix_finding) (Some ''a.ts'') = Some ?st"
    by (simp add: pickStrategy_def ex_fix_facts ex_fix_context_def ex_fix_finding_def)
  have fl: "loc_file (cn_location ex_fix_finding) = ''a.ts''" "fc_read ex_fix_context ''a.ts'' = Some ''raw''"
    "fc_agentLoop ex_fix_context = Some (3, Some 2)" "fs_apply ?st ''raw'' = Some ''ok''" "fs_proofTestCode ?st f g = []"
    "fc_proof ex_fix_context = ex_proof_env" "fc_humanRequiredCategoriesAlways ex_fix_context = None"
    "fc_makeId ex_fix_context = None" for f g
    by (simp_all add: ex_fix_finding_def ex_fix_context_def)
  have patch: "buildUnifiedDiff ex_proof_env ''a.ts'' ''raw'' ''ok'' = ''ok''" by (simp add: buildUnifiedDiff_def ex_proof_env_def)
  have ids: "finding_ids_ok ex_fix_finding" by (simp add: finding_ids_ok_def ex_fix_finding_def)
  obtain x m where tc: "try_candidates ex_fix_context ex_fix_finding 0 ''raw'' ?st None 1 [(''ok'', False)] = Some (Inr (x, m))"
    "fx_riskClass x = Auto_eligible"
  proof -
    obtain p where p: "try_candidates ex_fix_context ex_fix_finding 0 ''raw'' ?st None 1 [(''ok'', False)]
        = Some (ebind (assembleFix ex_fix_finding 0 ex_fix_context p) (\<lambda>fix1. Inr (fix1, \<lparr>fm_validated = True,
            fm_via = Via_deterministic, fm_changedLines = 2, fm_model = None, fm_iterations = Some 1\<rparr>)))"
      and risk: "rd_riskClass (fp_risk p) = Auto_eligible"
      using ex_fix_risk by (fastforce simp: Let_def fl patch ex_fix_validates)
    obtain x where x: "assembleFix ex_fix_finding 0 ex_fix_context p = Inr x" using assembleFix_total[OF ids fl(8)] by blast
    then show thesis using that[of x] p risk assembleFix_fields[OF x] by simp
  qed
  have "fix_candidates ''raw'' ?st None = [(''ok'', False)]" by (simp add: fix_candidates_def fl)
  then have "generateOne \<lparr>fe_ask = (\<lambda>q w. (Inl (Untyped []), w)), fe_audit = None\<rparr> ex_fix_finding 0 ex_fix_context () = (Inr (x, m), ())"
    by (simp del: try_candidates.simps One_nat_def add: generateOne_def Let_def fl st tc ex_fix_proposal)
  then show ?thesis using tc(2) by blast
qed

lemma auto_eligible_fix_is_proven_witness:
  "\<exists>x. proven_fix ex_fix_context ex_fix_finding x \<and> mechanical_change ex_fix_context ex_fix_finding (fx_patch x)"
proof -
  obtain x m where one: "generateOne \<lparr>fe_ask = (\<lambda>q w. (Inl (Untyped []), w)), fe_audit = None\<rparr> ex_fix_finding 0 ex_fix_context () = (Inr (x, m), ())"
    "fx_riskClass x = Auto_eligible" using ex_fix_generated by blast
  from auto_eligible_fix_is_proven[OF this] show ?thesis by blast
qed

end
