(* ===== verification/VcsOpeners.thy ===== *)
theory VcsOpeners
  imports ScanContracts QueueContracts JsString
begin

text \<open>
  \<open>packages/report/src/vcs.ts\<close>: staging a patch on a branch of the client's checkout and opening the
  pull request. Every call that leaves the process is an event of a trace; the environment
  answers an event from the trace so far, with the error that is thrown or, for a created
  request, its address and number. The tokens and hosts given to the client libraries are left
  out. The interface the report uses is the locale \<open>pull_request_opener\<close>.
\<close>

section \<open>Plans and events\<close>

record auto_fix_plan =
  pl_scanId :: string
  pl_clientId :: string
  pl_provider :: vcs_provider
  pl_branch :: string
  pl_baseBranch :: string
  pl_title :: string
  pl_bodySummary :: string
  pl_fixIds :: "string list"
  pl_patch :: string
  pl_prId :: string

datatype vcs_call =
    Load_sdk string
  | Git_checkout string string
  | Git_checkoutLocalBranch string
  | Make_temp_dir
  | Write_patch string
  | Git_apply
  | Git_add_all
  | Git_commit string
  | Git_push string string
  | Remove_temp_dir
  | Github_create string string string string string string bool
  | Gitlab_create string string string string string
  | Github_comment string string nat string

datatype pr_event = Vcs_event vcs_call | Audit_event audit_input

type_synonym pr_trace = "pr_event list"

record vcs_env =
  ve_answer :: "pr_trace \<Rightarrow> pr_event \<Rightarrow> js_error + (string \<times> int)"
  ve_url_ok :: "string \<Rightarrow> bool"
  ve_now :: string

definition perform :: "vcs_env \<Rightarrow> vcs_call \<Rightarrow> pr_trace \<Rightarrow> (js_error + (string \<times> int)) \<times> pr_trace" where
  "perform env c t = (ve_answer env t (Vcs_event c), t @ [Vcs_event c])"

text \<open>Awaited calls in a row: the first that is rejected ends them.\<close>

fun perform_all :: "vcs_env \<Rightarrow> vcs_call list \<Rightarrow> pr_trace \<Rightarrow> (js_error + unit) \<times> pr_trace" where
  "perform_all env [] t = (Inr (), t)"
| "perform_all env (c # cs) t =
     (case perform env c t of
        (Inl e, t1) \<Rightarrow> (Inl e, t1)
      | (Inr a, t1) \<Rightarrow> perform_all env cs t1)"

section \<open>Staging a patch\<close>

record stage_opts =
  st_workdir :: string
  st_baseBranch :: string
  st_branch :: string
  st_patch :: string
  st_commitMessage :: string
  st_remote :: "string option"

definition stagePatchOnBranch :: "vcs_env \<Rightarrow> stage_opts \<Rightarrow> pr_trace \<Rightarrow> (js_error + unit) \<times> pr_trace" where
  "stagePatchOnBranch env opts t =
     (if st_branch opts = st_baseBranch opts
      then (Inl (Untyped (''refusing to stage: branch equals base branch ('' @ st_branch opts @ '')'')), t)
      else case perform_all env [Load_sdk ''simple-git'', Git_checkout (st_workdir opts) (st_baseBranch opts),
                 Git_checkoutLocalBranch (st_branch opts), Make_temp_dir] t of
             (Inl e, t1) \<Rightarrow> (Inl e, t1)
           | (Inr u, t1) \<Rightarrow>
               (let (r, t2) = perform_all env [Write_patch (st_patch opts), Git_apply, Git_add_all,
                      Git_commit (st_commitMessage opts),
                      Git_push (case st_remote opts of None \<Rightarrow> ''origin'' | Some r \<Rightarrow> r) (st_branch opts)] t1
                in case perform env Remove_temp_dir t2 of
                     (Inl e, t3) \<Rightarrow> (Inl e, t3)
                   | (Inr a, t3) \<Rightarrow> (r, t3)))"

section \<open>Opening a request\<close>

definition only_truthy :: "string option \<Rightarrow> string option" where
  "only_truthy s = (if truthy s then s else None)"

definition pull_request_parse :: "vcs_env \<Rightarrow> int \<Rightarrow> pull_request \<Rightarrow> js_error + pull_request" where
  "pull_request_parse env number p =
     (if pr_id p = [] \<or> pr_scanId p = [] \<or> pr_clientId p = [] \<or> pr_branch p = [] \<or> pr_baseBranch p = []
         \<or> pr_title p = [] \<or> pr_fixIds p = [] \<or> [] \<in> set (pr_fixIds p) \<or> number \<le> 0
         \<or> (case pr_url p of None \<Rightarrow> False | Some u \<Rightarrow> \<not> ve_url_ok env u)
      then Inl (Untyped ''ZodError'') else Inr (p\<lparr>pr_number := Some (nat number)\<rparr>))"

definition opened_request :: "auto_fix_plan \<Rightarrow> vcs_provider \<Rightarrow> pr_status \<Rightarrow> string \<Rightarrow> string \<Rightarrow> pull_request" where
  "opened_request plan provider status url now =
     \<lparr>pr_id = pl_prId plan, pr_scanId = pl_scanId plan, pr_clientId = pl_clientId plan, pr_provider = provider,
      pr_url = Some url, pr_number = None, pr_branch = pl_branch plan, pr_baseBranch = pl_baseBranch plan,
      pr_title = pl_title plan, pr_bodySummary = pl_bodySummary plan, pr_fixIds = pl_fixIds plan,
      pr_status = status, pr_createdAt = now\<rparr>"

definition staged_first :: "vcs_env \<Rightarrow> string option \<Rightarrow> string option \<Rightarrow> auto_fix_plan \<Rightarrow> pr_trace
    \<Rightarrow> (js_error + unit) \<times> pr_trace" where
  "staged_first env workdir remote plan t =
     (if truthy workdir
      then stagePatchOnBranch env \<lparr>st_workdir = the workdir, st_baseBranch = pl_baseBranch plan, st_branch = pl_branch plan,
             st_patch = pl_patch plan, st_commitMessage = pl_title plan, st_remote = only_truthy remote\<rparr> t
      else (Inr (), t))"

record github_opts =
  gh_owner :: string
  gh_repo :: string
  gh_workdir :: "string option"
  gh_remote :: "string option"
  gh_draft :: "bool option"

definition github_open :: "vcs_env \<Rightarrow> github_opts \<Rightarrow> auto_fix_plan \<Rightarrow> pr_trace \<Rightarrow> (js_error + pull_request) \<times> pr_trace" where
  "github_open env opts plan t =
     (if pl_branch plan = pl_baseBranch plan
      then (Inl (Untyped ''refusing to open PR: head branch equals base branch''), t)
      else let draft = (case gh_draft opts of None \<Rightarrow> True | Some d \<Rightarrow> d) in
        case staged_first env (gh_workdir opts) (gh_remote opts) plan t of
          (Inl e, t1) \<Rightarrow> (Inl e, t1)
        | (Inr u, t1) \<Rightarrow>
            (case perform env (Load_sdk ''@octokit/rest'') t1 of
               (Inl e, t2) \<Rightarrow> (Inl e, t2)
             | (Inr a, t2) \<Rightarrow>
                 (case perform env (Github_create (gh_owner opts) (gh_repo opts) (pl_title plan) (pl_branch plan)
                          (pl_baseBranch plan) (pl_bodySummary plan) draft) t2 of
                    (Inl e, t3) \<Rightarrow> (Inl e, t3)
                  | (Inr (url, number), t3) \<Rightarrow>
                      (pull_request_parse env number (opened_request plan Github
                         (if draft then Pr_draft else Pr_opened) url (ve_now env)), t3))))"

record gitlab_opts =
  gl_projectId :: string
  gl_workdir :: "string option"
  gl_remote :: "string option"

definition gitlab_open :: "vcs_env \<Rightarrow> gitlab_opts \<Rightarrow> auto_fix_plan \<Rightarrow> pr_trace \<Rightarrow> (js_error + pull_request) \<times> pr_trace" where
  "gitlab_open env opts plan t =
     (if pl_branch plan = pl_baseBranch plan
      then (Inl (Untyped ''refusing to open MR: source branch equals target branch''), t)
      else case staged_first env (gl_workdir opts) (gl_remote opts) plan t of
          (Inl e, t1) \<Rightarrow> (Inl e, t1)
        | (Inr u, t1) \<Rightarrow>
            (case perform env (Load_sdk ''@gitbeaker/rest'') t1 of
               (Inl e, t2) \<Rightarrow> (Inl e, t2)
             | (Inr a, t2) \<Rightarrow>
                 (case perform env (Gitlab_create (gl_projectId opts) (pl_branch plan) (pl_baseBranch plan)
                          (pl_title plan) (pl_bodySummary plan)) t2 of
                    (Inl e, t3) \<Rightarrow> (Inl e, t3)
                  | (Inr (url, number), t3) \<Rightarrow>
                      (pull_request_parse env number (opened_request plan Gitlab Pr_opened url (ve_now env)), t3))))"

text \<open>A comment on a request that exists already.\<close>

definition postGitHubComment :: "vcs_env \<Rightarrow> string \<Rightarrow> string \<Rightarrow> nat \<Rightarrow> string \<Rightarrow> pr_trace \<Rightarrow> (js_error + string) \<times> pr_trace" where
  "postGitHubComment env owner repo issueNumber body t =
     (case perform env (Load_sdk ''@octokit/rest'') t of
        (Inl e, t1) \<Rightarrow> (Inl e, t1)
      | (Inr a, t1) \<Rightarrow>
          (case perform env (Github_comment owner repo issueNumber body) t1 of
             (Inl e, t2) \<Rightarrow> (Inl e, t2)
           | (Inr (url, n), t2) \<Rightarrow> (Inr url, t2)))"

section \<open>The contract of an opener\<close>

text \<open>What may be called for a plan: everything is on its branch, against its base branch, with its patch.\<close>

fun on_plan :: "auto_fix_plan \<Rightarrow> vcs_call \<Rightarrow> bool" where
  "on_plan p (Git_checkout d b) \<longleftrightarrow> b = pl_baseBranch p"
| "on_plan p (Git_checkoutLocalBranch b) \<longleftrightarrow> b = pl_branch p"
| "on_plan p (Write_patch s) \<longleftrightarrow> s = pl_patch p"
| "on_plan p (Git_commit m) \<longleftrightarrow> m = pl_title p"
| "on_plan p (Git_push r b) \<longleftrightarrow> b = pl_branch p"
| "on_plan p (Github_create own repo title head base body draft) \<longleftrightarrow>
     title = pl_title p \<and> head = pl_branch p \<and> base = pl_baseBranch p \<and> body = pl_bodySummary p"
| "on_plan p (Gitlab_create project head base title body) \<longleftrightarrow>
     title = pl_title p \<and> head = pl_branch p \<and> base = pl_baseBranch p \<and> body = pl_bodySummary p"
| "on_plan p (Github_comment own repo n body) \<longleftrightarrow> False"
| "on_plan p c \<longleftrightarrow> True"

fun is_creation :: "pr_event \<Rightarrow> bool" where
  "is_creation (Vcs_event (Github_create own repo title head base body draft)) = True"
| "is_creation (Vcs_event (Gitlab_create project head base title body)) = True"
| "is_creation e = False"

definition creations :: "pr_trace \<Rightarrow> nat" where
  "creations t = length (filter is_creation t)"

lemma creations_append [simp]: "creations (t @ u) = creations t + creations u" "creations [] = 0"
  "creations [e] = (if is_creation e then 1 else 0)"
  by (simp_all add: creations_def)

definition steps_on :: "auto_fix_plan \<Rightarrow> nat \<Rightarrow> pr_trace \<Rightarrow> pr_trace \<Rightarrow> bool" where
  "steps_on p n t t' \<longleftrightarrow> (\<exists>cs. t' = t @ map Vcs_event cs \<and> list_all (on_plan p) cs \<and> creations (map Vcs_event cs) = n)"

lemma steps_on_refl [simp, intro]: "steps_on p 0 t t"
  unfolding steps_on_def by (rule exI[of _ "[]"]) simp

lemma steps_on_trans:
  assumes "steps_on p m t t1" and "steps_on p n t1 t2"
  shows "steps_on p (m + n) t t2"
proof -
  obtain cs ds where "t1 = t @ map Vcs_event cs" "list_all (on_plan p) cs" "creations (map Vcs_event cs) = m"
    "t2 = t1 @ map Vcs_event ds" "list_all (on_plan p) ds" "creations (map Vcs_event ds) = n"
    using assms unfolding steps_on_def by blast
  then show ?thesis unfolding steps_on_def by (intro exI[of _ "cs @ ds"]) simp
qed

lemma steps_on_perform: "perform env c t = (r, t') \<Longrightarrow> on_plan p c
  \<Longrightarrow> steps_on p (if is_creation (Vcs_event c) then 1 else 0) t t'"
  unfolding steps_on_def by (rule exI[of _ "[c]"]) (simp add: perform_def)

lemma steps_on_perform_all:
  "perform_all env cs t = (r, t') \<Longrightarrow> list_all (\<lambda>c. on_plan p c \<and> \<not> is_creation (Vcs_event c)) cs \<Longrightarrow> steps_on p 0 t t'"
proof (induction cs arbitrary: t)
  case (Cons c cs)
  obtain a t1 where c: "perform env c t = (a, t1)" by fastforce
  have s: "steps_on p 0 t t1" using steps_on_perform[OF c, of p] Cons.prems(2) by simp
  show ?case
  proof (cases a)
    case (Inr b)
    then have "steps_on p 0 t1 t'" using Cons c by simp
    then show ?thesis using steps_on_trans[OF s] by simp
  qed (use Cons.prems c s in simp)
qed simp

lemma stagePatchOnBranch_steps:
  assumes "stagePatchOnBranch env \<lparr>st_workdir = d, st_baseBranch = pl_baseBranch p, st_branch = pl_branch p,
    st_patch = pl_patch p, st_commitMessage = pl_title p, st_remote = rm\<rparr> t = (r, t')"
  shows "steps_on p 0 t t'"
proof (cases "pl_branch p = pl_baseBranch p")
  case False
  obtain a t1 where a: "perform_all env [Load_sdk ''simple-git'', Git_checkout d (pl_baseBranch p),
      Git_checkoutLocalBranch (pl_branch p), Make_temp_dir] t = (a, t1)" by fastforce
  have 1: "steps_on p 0 t t1" by (rule steps_on_perform_all[OF a]) simp
  show ?thesis
  proof (cases a)
    case (Inr u)
    obtain b t2 where b: "perform_all env [Write_patch (pl_patch p), Git_apply, Git_add_all, Git_commit (pl_title p),
        Git_push (case rm of None \<Rightarrow> ''origin'' | Some r \<Rightarrow> r) (pl_branch p)] t1 = (b, t2)" by fastforce
    obtain c t3 where c: "perform env Remove_temp_dir t2 = (c, t3)" by fastforce
    have 2: "steps_on p 0 t1 t2" by (rule steps_on_perform_all[OF b]) simp
    have 3: "steps_on p 0 t2 t3" using steps_on_perform[OF c, of p] by simp
    have "t' = t3"
      using assms False Inr unfolding stagePatchOnBranch_def by (simp add: a b c del: perform_all.simps split: sum.splits)
    then show ?thesis using steps_on_trans[OF steps_on_trans[OF 1 2] 3] by simp
  qed (use assms False a 1 in \<open>simp add: stagePatchOnBranch_def del: perform_all.simps\<close>)
qed (use assms in \<open>simp add: stagePatchOnBranch_def\<close>)

lemma staged_first_steps: "staged_first env wd rm p t = (r, t') \<Longrightarrow> steps_on p 0 t t'"
  by (auto simp: staged_first_def intro: stagePatchOnBranch_steps split: if_splits)

definition request_of :: "auto_fix_plan \<Rightarrow> pull_request \<Rightarrow> bool" where
  "request_of p x \<longleftrightarrow> pr_id x = pl_prId p \<and> pr_fixIds x = pl_fixIds p \<and> pr_branch x = pl_branch p
     \<and> pr_baseBranch x = pl_baseBranch p \<and> pr_scanId x = pl_scanId p \<and> pr_clientId x = pl_clientId p \<and> pr_title x = pl_title p"

lemma parsed_request_of:
  "pull_request_parse env n (opened_request p v st url now) = Inr x \<Longrightarrow> request_of p x \<and> pl_branch p \<noteq> [] \<and> pl_fixIds p \<noteq> []"
  by (auto simp: pull_request_parse_def opened_request_def request_of_def split: if_splits)

text \<open>
  An opener calls only for its plan, creates at most one request and exactly one when it
  returns, and touches nothing when the plan is on the base branch.
\<close>

locale pull_request_opener =
  fixes opens :: "auto_fix_plan \<Rightarrow> pr_trace \<Rightarrow> (js_error + pull_request) \<times> pr_trace"
  assumes opens_on_plan: "opens p t = (r, t') \<Longrightarrow> \<exists>n \<le> 1. steps_on p n t t'"
    and opens_once: "opens p t = (Inr x, t') \<Longrightarrow> steps_on p 1 t t' \<and> request_of p x"
    and opens_no_commit: "pl_branch p = pl_baseBranch p \<Longrightarrow> \<exists>e. opens p t = (Inl e, t)"

lemma opener_rest:
  assumes "staged_first env wd rm p t = (r0, t1)" and "perform env (Load_sdk sdk) t1 = (r1, t2)"
    and "perform env c t2 = (r2, t3)" and "on_plan p c" "is_creation (Vcs_event c)"
  shows "steps_on p 0 t t1" "steps_on p 0 t t2" "steps_on p 1 t t3"
proof -
  show 1: "steps_on p 0 t t1" by (rule staged_first_steps[OF assms(1)])
  show 2: "steps_on p 0 t t2" using steps_on_trans[OF 1 steps_on_perform[OF assms(2), of p]] by simp
  show "steps_on p 1 t t3" using steps_on_trans[OF 2 steps_on_perform[OF assms(3,4)]] assms(5) by simp
qed

lemma github_open_result:
  assumes "github_open env opts p t = (r, t')" and "pl_branch p \<noteq> pl_baseBranch p"
  shows "(\<exists>n \<le> 1. steps_on p n t t') \<and> (\<forall>x. r = Inr x \<longrightarrow> steps_on p 1 t t' \<and> request_of p x)"
proof -
  obtain r0 t1 where a: "staged_first env (gh_workdir opts) (gh_remote opts) p t = (r0, t1)" by fastforce
  obtain r1 t2 where b: "perform env (Load_sdk ''@octokit/rest'') t1 = (r1, t2)" by fastforce
  let ?c = "Github_create (gh_owner opts) (gh_repo opts) (pl_title p) (pl_branch p) (pl_baseBranch p) (pl_bodySummary p)
    (case gh_draft opts of None \<Rightarrow> True | Some d \<Rightarrow> d)"
  obtain r2 t3 where c: "perform env ?c t2 = (r2, t3)" by fastforce
  note steps = opener_rest[OF a b c, simplified]
  show ?thesis
    using assms steps unfolding github_open_def Let_def
    by (auto simp: a b c dest!: parsed_request_of split: sum.splits intro: exI[of _ 0] exI[of _ "1::nat"])
qed

lemma gitlab_open_result:
  assumes "gitlab_open env opts p t = (r, t')" and "pl_branch p \<noteq> pl_baseBranch p"
  shows "(\<exists>n \<le> 1. steps_on p n t t') \<and> (\<forall>x. r = Inr x \<longrightarrow> steps_on p 1 t t' \<and> request_of p x)"
proof -
  obtain r0 t1 where a: "staged_first env (gl_workdir opts) (gl_remote opts) p t = (r0, t1)" by fastforce
  obtain r1 t2 where b: "perform env (Load_sdk ''@gitbeaker/rest'') t1 = (r1, t2)" by fastforce
  let ?c = "Gitlab_create (gl_projectId opts) (pl_branch p) (pl_baseBranch p) (pl_title p) (pl_bodySummary p)"
  obtain r2 t3 where c: "perform env ?c t2 = (r2, t3)" by fastforce
  note steps = opener_rest[OF a b c, simplified]
  show ?thesis
    using assms steps unfolding gitlab_open_def
    by (auto simp: a b c dest!: parsed_request_of split: sum.splits intro: exI[of _ 0] exI[of _ "1::nat"])
qed

lemma opener_contract:
  assumes "\<And>p t r t'. opens p t = (r, t') \<Longrightarrow> pl_branch p \<noteq> pl_baseBranch p
      \<Longrightarrow> (\<exists>n \<le> 1. steps_on p n t t') \<and> (\<forall>x. r = Inr x \<longrightarrow> steps_on p 1 t t' \<and> request_of p x)"
    and "\<And>p t. pl_branch p = pl_baseBranch p \<Longrightarrow> \<exists>e. opens p t = (Inl e, t)"
  shows "pull_request_opener opens"
proof
  fix p t r t' x
  have base: "\<exists>e. opens p t = (Inl e, t)" if "pl_branch p = pl_baseBranch p" using assms(2) that by blast
  show "\<exists>n \<le> 1. steps_on p n t t'" if o: "opens p t = (r, t')"
  proof (cases "pl_branch p = pl_baseBranch p")
    case True
    then have "t' = t" using base o by auto
    then show ?thesis by (intro exI[of _ 0]) simp
  qed (use assms(1)[OF o] in blast)
  show "steps_on p 1 t t' \<and> request_of p x" if o: "opens p t = (Inr x, t')"
    using base o assms(1)[OF o] by (cases "pl_branch p = pl_baseBranch p") auto
qed (use assms(2) in blast)

interpretation github: pull_request_opener "github_open env opts" for env opts
  by (rule opener_contract) (use github_open_result in blast, simp add: github_open_def)

interpretation gitlab: pull_request_opener "gitlab_open env opts" for env opts
  by (rule opener_contract) (use gitlab_open_result in blast, simp add: gitlab_open_def)

end
