(* ===== verification/PrGate.thy ===== *)
theory PrGate
  imports VcsOpeners FixGenerate
begin

text \<open>
  \<open>packages/report/src/gate.ts\<close> and \<open>auto-fix.ts\<close>: the gate of pull requests, the planning of the
  requests of a run and the flow that opens them. The signs of the request body beyond code
  point 255 (a dash, a bullet, a stop sign) are written \<open>-\<close>, \<open>*\<close> and \<open>(!)\<close>.
\<close>

section \<open>The gate\<close>

definition GATE_PASSED_STATES :: "gate_state list" where
  "GATE_PASSED_STATES = [Auto_approved, Approved]"

record pr_gate_context =
  pg_autoApply :: bool
  pg_gateState :: gate_state

datatype pr_gate_reason = Reason_ok | Auto_apply_disabled | Gate_not_passed | Not_auto_eligible

fun reason_str :: "pr_gate_reason \<Rightarrow> string" where
  "reason_str Reason_ok = ''ok''"
| "reason_str Auto_apply_disabled = ''auto-apply-disabled''"
| "reason_str Gate_not_passed = ''gate-not-passed''"
| "reason_str Not_auto_eligible = ''not-auto-eligible''"

record pr_gate_decision =
  pd_eligible :: bool
  pd_reason :: pr_gate_reason

definition isGatePassed :: "gate_state \<Rightarrow> bool" where
  "isGatePassed gateState \<longleftrightarrow> gateState \<in> set GATE_PASSED_STATES"

definition prGateDecision :: "pr_gate_context \<Rightarrow> fix_record \<Rightarrow> pr_gate_decision" where
  "prGateDecision ctx x =
     (if \<not> pg_autoApply ctx then \<lparr>pd_eligible = False, pd_reason = Auto_apply_disabled\<rparr>
      else if fx_riskClass x \<noteq> Auto_eligible then \<lparr>pd_eligible = False, pd_reason = Not_auto_eligible\<rparr>
      else if \<not> isGatePassed (pg_gateState ctx) then \<lparr>pd_eligible = False, pd_reason = Gate_not_passed\<rparr>
      else \<lparr>pd_eligible = True, pd_reason = Reason_ok\<rparr>)"

definition assertPrGate :: "pr_gate_context \<Rightarrow> fix_record \<Rightarrow> js_error + unit" where
  "assertPrGate ctx x =
     (let decision = prGateDecision ctx x in
      if pd_eligible decision then Inr ()
      else Inl (Typed (GateNotPassedError
             (''Fix '' @ fx_id x @ '' is not permitted to open a PR: '' @ reason_str (pd_reason decision))
             (Some [(''fixId'', JStr (fx_id x)), (''reason'', JStr (reason_str (pd_reason decision))),
                    (''gateState'', JStr (gate_str (pg_gateState ctx))), (''autoApply'', JBool (pg_autoApply ctx)),
                    (''riskClass'', JStr (risk_str (fx_riskClass x)))]))))"

section \<open>Planning\<close>

datatype pr_strategy = Per_fix | Grouped

text \<open>An opener is its provider and its operation.\<close>

record flow_input =
  fi_scan :: scan
  fi_confirmed :: "confirmed_finding list"
  fi_fixes :: "fix_record list"
  fi_autoApply :: bool
  fi_opener :: "(vcs_provider \<times> (auto_fix_plan \<Rightarrow> pr_trace \<Rightarrow> (js_error + pull_request) \<times> pr_trace)) option"
  fi_prStrategy :: "pr_strategy option"
  fi_baseBranch :: "string option"
  fi_provider :: "vcs_provider option"
  fi_audit :: "(audit_input \<Rightarrow> pr_trace \<Rightarrow> (js_error + unit) \<times> pr_trace) option"

definition slug_char :: "char \<Rightarrow> bool" where
  "slug_char c \<longleftrightarrow> CHR ''A'' \<le> c \<and> c \<le> CHR ''Z'' \<or> CHR ''a'' \<le> c \<and> c \<le> CHR ''z'' \<or> is_digit_char c \<or> c \<in> set ''._/-''"

text \<open>\<open>replace(/[^A-Za-z0-9._/-]+/g, "-")\<close> and the trimming of dashes.\<close>

function squash :: "string \<Rightarrow> string" where
  "squash [] = []"
| "squash (c # cs) = (if slug_char c then c # squash cs else CHR ''-'' # squash (dropWhile (\<lambda>d. \<not> slug_char d) cs))"
  by pat_completeness auto

termination by (relation "measure length") (auto simp: le_imp_less_Suc length_dropWhile_le)

definition trim_dashes :: "string \<Rightarrow> string" where
  "trim_dashes s = (let is_dash = (\<lambda>c. c = CHR ''-'') in rev (dropWhile is_dash (rev (dropWhile is_dash s))))"

definition slug :: "string \<Rightarrow> string" where
  "slug value = (let s = trim_dashes (squash value) in if s = [] then ''fix'' else s)"

definition resolveProvider :: "flow_input \<Rightarrow> vcs_provider" where
  "resolveProvider input = (case fi_opener input of Some (p, _) \<Rightarrow> p
     | None \<Rightarrow> (case fi_provider input of Some p \<Rightarrow> p | None \<Rightarrow> Github))"

definition resolveBaseBranch :: "flow_input \<Rightarrow> string" where
  "resolveBaseBranch input = (case fi_baseBranch input of Some b \<Rightarrow> b | None \<Rightarrow> sc_branch (fi_scan input))"

fun severity_str :: "severity \<Rightarrow> string" where
  "severity_str Info = ''info''"
| "severity_str Low = ''low''"
| "severity_str Medium = ''medium''"
| "severity_str High = ''high''"
| "severity_str Critical = ''critical''"

fun exposure_str :: "exposure \<Rightarrow> string" where
  "exposure_str Public = ''public''"
| "exposure_str Authed = ''authed''"

fun owasp_str :: "owasp_id \<Rightarrow> string" where
  "owasp_str A01 = ''A01:2021''"
| "owasp_str A02 = ''A02:2021''"
| "owasp_str A03 = ''A03:2021''"
| "owasp_str A04 = ''A04:2021''"
| "owasp_str A05 = ''A05:2021''"
| "owasp_str A06 = ''A06:2021''"
| "owasp_str A07 = ''A07:2021''"
| "owasp_str A08 = ''A08:2021''"
| "owasp_str A09 = ''A09:2021''"
| "owasp_str A10 = ''A10:2021''"

fun vcs_str :: "vcs_provider \<Rightarrow> string" where
  "vcs_str Github = ''github''"
| "vcs_str Gitlab = ''gitlab''"

definition renderFixSection :: "fix_record \<Rightarrow> confirmed_finding option \<Rightarrow> string" where
  "renderFixSection x finding =
     (let test = fx_proofOfFixTest x;
          framework = (case pt_framework test of Some f \<Rightarrow> f | None \<Rightarrow> ''test'') in
      js_join [newline]
        ((case finding of
            Some f \<Rightarrow>
              (let c = complianceForCategory (cn_category f);
                   cwe = (if cn_cwe f \<noteq> [] then js_join '', '' (cn_cwe f) else js_join '', '' (cm_cwe c)) in
               [''### '' @ cn_title f,
                ''- **Severity:** '' @ severity_str (cn_severity f) @ ''  *  **Exposure:** '' @ exposure_str (cn_exposure f)
                  @ ''  *  **'' @ owasp_str (cm_owasp c) @ '' '' @ cm_owaspTitle c @ ''**  *  '' @ cwe,
                ''- **Location:** `'' @ loc_file (cn_location f) @ '':'' @ nat_str (loc_line (cn_location f)) @ ''`'',
                ''- **Impact:** '' @ cn_impact f])
          | None \<Rightarrow> [''### Fix '' @ fx_id x])
         @ [[], fx_rationale x, [],
            ''**Proof-of-fix test** ('' @ framework @ ''): fails before this patch, passes after.'']
         @ (if truthy (pt_filePath test) then [[newline] @ ''`'' @ the (pt_filePath test) @ ''`:''] else [])
         @ [[newline] @ ''```'' @ (if pt_framework test = Some ''vitest'' then ''ts'' else []), pt_code test, ''```'']))"

definition findings_by_id :: "confirmed_finding list \<Rightarrow> string \<Rightarrow> confirmed_finding option" where
  "findings_by_id fs = map_of (rev (map (\<lambda>f. (cn_id f, f)) fs))"

definition buildPrBody :: "fix_record list \<Rightarrow> (string \<Rightarrow> confirmed_finding option) \<Rightarrow> string" where
  "buildPrBody fixes findingsById =
     (let one = length fixes = 1 in
      js_join [newline]
        [''## Montr Secure - automated security fix'', [],
         ''This PR contains '' @ nat_str (length fixes) @ '' **auto-eligible** fix'' @ (if one then [] else ''es'')
           @ '' for confirmed, proven-exploitable finding'' @ (if one then [] else ''s'')
           @ ''. Each carries a proof-of-fix test.'', [],
         ''> (!) Auth/session/crypto/access-control fixes are **human-required** and are NOT auto-opened - ''
           @ ''they appear as recommendations in the Montr report, never here.'', [],
         ''---'', []]
      @ js_join ([newline, newline] @ ''---'' @ [newline, newline])
          (map (\<lambda>x. renderFixSection x (findingsById (fx_confirmedFindingId x))) fixes)
      @ [newline])"

definition gate_context :: "flow_input \<Rightarrow> pr_gate_context" where
  "gate_context input = \<lparr>pg_autoApply = fi_autoApply input, pg_gateState = sc_gateState (fi_scan input)\<rparr>"

definition planAutoFixPullRequests :: "flow_input \<Rightarrow> auto_fix_plan list" where
  "planAutoFixPullRequests input =
     (let eligible = filter (\<lambda>x. pd_eligible (prGateDecision (gate_context input) x)) (fi_fixes input);
          provider = resolveProvider input;
          baseBranch = resolveBaseBranch input;
          scanId = sc_id (fi_scan input);
          clientId = sc_clientId (fi_scan input);
          findingsById = findings_by_id (fi_confirmed input);
          n = length eligible
      in if eligible = [] then []
         else if fi_prStrategy input = Some Grouped
         then [\<lparr>pl_scanId = scanId, pl_clientId = clientId, pl_provider = provider,
                pl_branch = ''montr/auto-fix/'' @ slug scanId, pl_baseBranch = baseBranch,
                pl_title = ''Montr Secure: fix '' @ nat_str n @ '' confirmed vulnerabilit'' @ (if n = 1 then ''y'' else ''ies''),
                pl_bodySummary = buildPrBody eligible findingsById, pl_fixIds = map fx_id eligible,
                pl_patch = js_join [newline] (map fx_patch eligible), pl_prId = ''pr_'' @ scanId\<rparr>]
         else map (\<lambda>x. \<lparr>pl_scanId = scanId, pl_clientId = clientId, pl_provider = provider,
                pl_branch = ''montr/fix/'' @ slug scanId @ ''/'' @ slug (fx_confirmedFindingId x), pl_baseBranch = baseBranch,
                pl_title = (case findingsById (fx_confirmedFindingId x) of
                    Some f \<Rightarrow> ''Montr Secure: fix '' @ cn_title f
                  | None \<Rightarrow> ''Montr Secure: fix '' @ fx_confirmedFindingId x),
                pl_bodySummary = buildPrBody [x] findingsById, pl_fixIds = [fx_id x],
                pl_patch = fx_patch x, pl_prId = ''pr_'' @ scanId @ ''_'' @ slug (fx_id x)\<rparr>) eligible)"

section \<open>Opening\<close>

definition fix_by_id :: "fix_record list \<Rightarrow> string \<Rightarrow> fix_record option" where
  "fix_by_id fixes = map_of (rev (map (\<lambda>x. (fx_id x, x)) fixes))"

fun assert_fixes :: "pr_gate_context \<Rightarrow> (string \<Rightarrow> fix_record option) \<Rightarrow> string list \<Rightarrow> js_error + unit" where
  "assert_fixes ctx byId [] = Inr ()"
| "assert_fixes ctx byId (i # ids) =
     ebind (case byId i of None \<Rightarrow> Inr () | Some x \<Rightarrow> assertPrGate ctx x) (\<lambda>u. assert_fixes ctx byId ids)"

definition opened_audit_input :: "flow_input \<Rightarrow> auto_fix_plan \<Rightarrow> pull_request \<Rightarrow> audit_input" where
  "opened_audit_input input plan pr =
     \<lparr>ai_clientId = sc_clientId (fi_scan input), ai_scanId = Some (sc_id (fi_scan input)),
      ai_actor = \<lparr>ac_type = Agent, ac_id = ''montr-report'', ac_role = None\<rparr>, ai_action = ''fix.pr_opened'',
      ai_targetType = Some ''pull_request'', ai_targetId = Some (pr_id pr),
      ai_summary = ''Opened '' @ vcs_str (pl_provider plan) @ '' PR for '' @ nat_str (length (pl_fixIds plan))
        @ '' auto-eligible fix(es) on '' @ pl_branch plan,
      ai_metadata = [(''provider'', JStr (vcs_str (pl_provider plan))), (''branch'', JStr (pl_branch plan)),
        (''baseBranch'', JStr (pl_baseBranch plan)), (''fixIds'', JArr (map JStr (pl_fixIds plan))),
        (''prNumber'', case pr_number pr of None \<Rightarrow> JUndef | Some n \<Rightarrow> JNum (of_nat n)),
        (''prUrl'', case pr_url pr of None \<Rightarrow> JUndef | Some u \<Rightarrow> JStr u)]\<rparr>"

text \<open>One plan of the loop.\<close>

definition open_plan :: "flow_input \<Rightarrow> (auto_fix_plan \<Rightarrow> pr_trace \<Rightarrow> (js_error + pull_request) \<times> pr_trace)
    \<Rightarrow> auto_fix_plan \<Rightarrow> pr_trace \<Rightarrow> (js_error + pull_request) \<times> pr_trace" where
  "open_plan input opens plan t =
     (case assert_fixes (gate_context input) (fix_by_id (fi_fixes input)) (pl_fixIds plan) of
        Inl e \<Rightarrow> (Inl e, t)
      | Inr u \<Rightarrow>
          if pl_branch plan = pl_baseBranch plan
          then (Inl (Untyped (''refusing to open PR: head branch equals base branch ('' @ pl_branch plan @ '')'')), t)
          else (case opens plan t of
              (Inl e, t1) \<Rightarrow> (Inl e, t1)
            | (Inr pr, t1) \<Rightarrow>
                (case (case fi_audit input of None \<Rightarrow> (Inr (), t1)
                       | Some log_event \<Rightarrow> log_event (opened_audit_input input plan pr) t1) of
                   (Inl e, t2) \<Rightarrow> (Inl e, t2)
                 | (Inr u, t2) \<Rightarrow> (Inr pr, t2))))"

text \<open>The loop over the plans; an error anywhere leaves it, whatever was opened before.\<close>

fun open_plans :: "flow_input \<Rightarrow> (auto_fix_plan \<Rightarrow> pr_trace \<Rightarrow> (js_error + pull_request) \<times> pr_trace)
    \<Rightarrow> auto_fix_plan list \<Rightarrow> pr_trace \<Rightarrow> (js_error + pull_request list) \<times> pr_trace" where
  "open_plans input opens [] t = (Inr [], t)"
| "open_plans input opens (plan # plans) t =
     (case open_plan input opens plan t of
        (Inl e, t1) \<Rightarrow> (Inl e, t1)
      | (Inr pr, t1) \<Rightarrow>
          (case open_plans input opens plans t1 of
             (Inl e, t2) \<Rightarrow> (Inl e, t2)
           | (Inr prs, t2) \<Rightarrow> (Inr (pr # prs), t2)))"

definition openAutoFixPullRequests :: "flow_input \<Rightarrow> pr_trace \<Rightarrow> (js_error + pull_request list) \<times> pr_trace" where
  "openAutoFixPullRequests input t =
     (let plans = planAutoFixPullRequests input in
      if plans = [] then (Inr [], t)
      else case fi_opener input of
             None \<Rightarrow> (Inr [], t)
           | Some (provider, opens) \<Rightarrow> open_plans input opens plans t)"

definition prIdByFixId :: "pull_request list \<Rightarrow> string \<Rightarrow> string option" where
  "prIdByFixId prs = map_of (rev (concat (map (\<lambda>pr. map (\<lambda>i. (i, pr_id pr)) (pr_fixIds pr)) prs)))"

section \<open>Lemmas\<close>

text \<open>The audit client: a record that is appended is an event.\<close>

definition audit_call :: "vcs_env \<Rightarrow> audit_input \<Rightarrow> pr_trace \<Rightarrow> (js_error + unit) \<times> pr_trace" where
  "audit_call env a t = (case ve_answer env t (Audit_event a) of
     Inl e \<Rightarrow> (Inl e, t) | Inr r \<Rightarrow> (Inr (), t @ [Audit_event a]))"

definition audited :: "pr_trace \<Rightarrow> audit_input list" where
  "audited t = List.map_filter (\<lambda>e. case e of Audit_event a \<Rightarrow> Some a | Vcs_event c \<Rightarrow> None) t"

lemma audited_simps [simp]:
  "audited [] = []" "audited (t @ u) = audited t @ audited u"
  "audited (map Vcs_event cs) = []" "audited (map Audit_event as) = as" "audited [Audit_event a] = [a]"
  by (induction cs) (induction as, simp_all add: audited_def List.map_filter_def comp_def)

lemma creations_audit [simp]: "creations (map Audit_event as) = 0" "creations [Audit_event a] = 0"
  by (induction as) (simp_all add: creations_def)

lemma audited_Cons [simp]: "audited (Audit_event a # t) = a # audited t" "audited (Vcs_event c # t) = audited t"
  by (simp_all add: audited_def List.map_filter_def)

lemma creations_Cons [simp]: "creations (e # t) = (if is_creation e then Suc (creations t) else creations t)"
  by (simp add: creations_def)

lemma eligible_iff: "pd_eligible (prGateDecision ctx x) \<longleftrightarrow>
  pg_autoApply ctx \<and> isGatePassed (pg_gateState ctx) \<and> fx_riskClass x = Auto_eligible"
  by (auto simp: prGateDecision_def)

text \<open>A plan of the run: fixes of the run that are auto-eligible, behind a passed gate.\<close>

definition gated_plan :: "flow_input \<Rightarrow> auto_fix_plan \<Rightarrow> bool" where
  "gated_plan input p \<longleftrightarrow> fi_autoApply input \<and> isGatePassed (sc_gateState (fi_scan input))
     \<and> (\<exists>xs. xs \<noteq> [] \<and> set xs \<subseteq> {x \<in> set (fi_fixes input). fx_riskClass x = Auto_eligible}
          \<and> pl_fixIds p = map fx_id xs \<and> pl_patch p = js_join [newline] (map fx_patch xs))"

lemma planned_is_gated:
  assumes "p \<in> set (planAutoFixPullRequests input)"
  shows "gated_plan input p"
proof -
  let ?xs = "filter (\<lambda>x. pd_eligible (prGateDecision (gate_context input) x)) (fi_fixes input)"
  obtain xs where xs: "xs \<noteq> []" "set xs \<subseteq> set ?xs" "pl_fixIds p = map fx_id xs" "pl_patch p = js_join [newline] (map fx_patch xs)"
  proof (cases "fi_prStrategy input = Some Grouped")
    case True
    then show thesis using assms that[of ?xs] by (auto simp: planAutoFixPullRequests_def Let_def split: if_splits)
  next
    case False
    then obtain x where "x \<in> set ?xs" "pl_fixIds p = [fx_id x]" "pl_patch p = fx_patch x"
      using assms by (auto simp: planAutoFixPullRequests_def Let_def split: if_splits)
    then show thesis using that[of "[x]"] by simp
  qed
  then obtain x where "x \<in> set ?xs" by (metis list.set_sel(1) subsetD)
  then have "fi_autoApply input" "isGatePassed (sc_gateState (fi_scan input))"
    by (simp_all add: eligible_iff gate_context_def)
  moreover have "set ?xs \<subseteq> {x \<in> set (fi_fixes input). fx_riskClass x = Auto_eligible}" by (auto simp: eligible_iff)
  ultimately show ?thesis unfolding gated_plan_def using xs by blast
qed

lemma unplanned: "\<not> (fi_autoApply input \<and> isGatePassed (sc_gateState (fi_scan input))) \<Longrightarrow> planAutoFixPullRequests input = []"
  by (auto simp: planAutoFixPullRequests_def eligible_iff gate_context_def)

definition audit_ok :: "vcs_env \<Rightarrow> flow_input \<Rightarrow> bool" where
  "audit_ok env input \<longleftrightarrow> fi_audit input = None \<or> fi_audit input = Some (audit_call env)"

context pull_request_opener
begin

lemma open_plan_run:
  assumes "open_plan input opens p t = (r, t')" and "audit_ok env input"
  shows "\<exists>cs as. t' = t @ map Vcs_event cs @ map Audit_event as \<and> list_all (on_plan p) cs
    \<and> (cs \<noteq> [] \<longrightarrow> pl_branch p \<noteq> pl_baseBranch p) \<and> creations (map Vcs_event cs) \<le> Suc (length as)
    \<and> length as \<le> creations (map Vcs_event cs)
    \<and> (\<forall>x. r = Inr x \<longrightarrow> request_of p x \<and> creations (map Vcs_event cs) = 1
          \<and> (fi_audit input \<noteq> None \<longrightarrow> as = [opened_audit_input input p x]))"
proof (cases "\<exists>e. r = Inl e \<and> t' = t")
  case True
  then show ?thesis by (intro exI[of _ "[]"]) auto
next
  case False
  then have base: "pl_branch p \<noteq> pl_baseBranch p"
    using assms(1) by (auto simp: open_plan_def split: sum.splits if_splits)
  obtain o1 t1 where o1: "opens p t = (o1, t1)" by fastforce
  obtain n where "n \<le> 1" "steps_on p n t t1" using opens_on_plan[OF o1] by blast
  then obtain cs where cs: "t1 = t @ map Vcs_event cs" "list_all (on_plan p) cs" "creations (map Vcs_event cs) \<le> 1"
    unfolding steps_on_def by blast
  show ?thesis
  proof (cases o1)
    case (Inl e)
    then have "r = Inl e \<and> t' = t1"
      using assms(1) False base o1 by (auto simp: open_plan_def split: sum.splits)
    then show ?thesis using cs base by (intro exI[of _ cs] exI[of _ "[]"]) simp
  next
    case (Inr x)
    have "creations t1 = creations t + 1" using opens_once[OF o1[unfolded Inr]] by (auto simp: steps_on_def)
    then have one: "creations (map Vcs_event cs) = 1" "request_of p x"
      using cs(1) opens_once[OF o1[unfolded Inr]] by auto
    have "\<exists>as. t' = t1 @ map Audit_event as \<and> length as \<le> 1
        \<and> (\<forall>y. r = Inr y \<longrightarrow> y = x \<and> (fi_audit input \<noteq> None \<longrightarrow> as = [opened_audit_input input p x]))"
      using assms False base o1 Inr
      by (auto simp: open_plan_def audit_ok_def audit_call_def split: sum.splits
          intro: exI[of _ "[]"] exI[of _ "[opened_audit_input input p x]"])
    then obtain as where "t' = t1 @ map Audit_event as" "length as \<le> 1"
      "\<forall>y. r = Inr y \<longrightarrow> y = x \<and> (fi_audit input \<noteq> None \<longrightarrow> as = [opened_audit_input input p x])" by blast
    then show ?thesis using cs base one by (intro exI[of _ cs] exI[of _ as]) auto
  qed
qed

lemma open_plans_run:
  assumes "open_plans input opens ps t = (r, t')" and "audit_ok env input"
  shows "\<exists>es. t' = t @ es \<and> (\<forall>c. Vcs_event c \<in> set es \<longrightarrow> (\<exists>p \<in> set ps. on_plan p c \<and> pl_branch p \<noteq> pl_baseBranch p))
    \<and> (fi_audit input \<noteq> None \<longrightarrow> creations es \<le> Suc (length (audited es))) \<and> length (audited es) \<le> creations es
    \<and> (\<forall>prs. r = Inr prs \<longrightarrow> list_all2 request_of ps prs \<and> creations es = length ps
          \<and> (fi_audit input \<noteq> None \<longrightarrow> audited es = map2 (opened_audit_input input) ps prs))"
  using assms(1)
proof (induction ps arbitrary: t r)
  case (Cons p ps)
  obtain q t1 where q: "open_plan input opens p t = (q, t1)" by fastforce
  obtain cs as where 1: "t1 = t @ map Vcs_event cs @ map Audit_event as" "list_all (on_plan p) cs"
    "cs \<noteq> [] \<longrightarrow> pl_branch p \<noteq> pl_baseBranch p" "creations (map Vcs_event cs) \<le> Suc (length as)"
    "length as \<le> creations (map Vcs_event cs)"
    "\<forall>x. q = Inr x \<longrightarrow> request_of p x \<and> creations (map Vcs_event cs) = 1
        \<and> (fi_audit input \<noteq> None \<longrightarrow> as = [opened_audit_input input p x])"
    using open_plan_run[OF q assms(2)] by blast
  let ?es = "map Vcs_event cs @ map Audit_event as"
  have on: "\<forall>c. Vcs_event c \<in> set ?es \<longrightarrow> (\<exists>p \<in> set (p # ps). on_plan p c \<and> pl_branch p \<noteq> pl_baseBranch p)"
    using 1(2,3) by (auto simp: list_all_iff)
  show ?case
  proof (cases q)
    case (Inl e)
    then have "r = Inl e \<and> t' = t1" using Cons.prems q by simp
    then show ?thesis using 1 on by (intro exI[of _ ?es]) simp
  next
    case (Inr x)
    obtain s where s: "open_plans input opens ps t1 = (s, t')" "r = map_sum id (Cons x) s"
      using Cons.prems q Inr by (auto split: prod.splits sum.splits)
    obtain es where 2: "t' = t1 @ es" "\<forall>c. Vcs_event c \<in> set es \<longrightarrow> (\<exists>p \<in> set ps. on_plan p c \<and> pl_branch p \<noteq> pl_baseBranch p)"
      "fi_audit input \<noteq> None \<longrightarrow> creations es \<le> Suc (length (audited es))" "length (audited es) \<le> creations es"
      "\<forall>prs. s = Inr prs \<longrightarrow> list_all2 request_of ps prs \<and> creations es = length ps
          \<and> (fi_audit input \<noteq> None \<longrightarrow> audited es = map2 (opened_audit_input input) ps prs)"
      using Cons.IH[OF s(1)] by blast
    show ?thesis
    proof (intro exI[of _ "?es @ es"] conjI allI impI)
      show "t' = t @ ?es @ es" using 1(1) 2(1) by simp
      show "\<exists>p \<in> set (p # ps). on_plan p c \<and> pl_branch p \<noteq> pl_baseBranch p" if "Vcs_event c \<in> set (?es @ es)" for c
        using that on 2(2) by auto
    qed (use 1 2 Inr s(2) in \<open>auto simp: map_sum_def split: sum.splits\<close>)
  qed
qed (simp add: creations_def exI[of _ "[]"])

end

section \<open>Examples\<close>

text \<open>A checkout that refuses to create a branch twice, a host that answers its second request with an error.\<close>

definition ex_vcs :: vcs_env where
  "ex_vcs = \<lparr>ve_answer = (\<lambda>t e. case e of
       Vcs_event (Git_checkoutLocalBranch b) \<Rightarrow>
         if Vcs_event (Git_checkoutLocalBranch b) \<in> set t then Inl (Untyped ''branch exists'') else Inr ([], 0)
     | Vcs_event (Github_create own repo title head base body draft) \<Rightarrow>
         if creations t = 1 then Inl (Untyped ''HTTP 502'') else Inr (''https://vcs/pull/1'', 1)
     | _ \<Rightarrow> Inr ([], 0)), ve_url_ok = (\<lambda>u. True), ve_now = []\<rparr>"

definition ex_github :: github_opts where
  "ex_github = \<lparr>gh_owner = ''acme'', gh_repo = ''shop'', gh_workdir = Some ''wd'', gh_remote = None, gh_draft = None\<rparr>"

definition ex_pr_scan :: "gate_state \<Rightarrow> scan" where
  "ex_pr_scan g = \<lparr>sc_id = ''s'', sc_clientId = ''c'', sc_appMapId = None, sc_repo = ''shop'', sc_branch = ''main'', sc_commitSha = None,
     sc_mode = Full, sc_scope = \<lparr>scope_mode = Full, includePaths = [], excludePaths = [], changedFiles = [],
       reachableFromChanges = False, routeCount = None, fileCount = None, stagingUrl = None\<rparr>,
     sc_status = Running, sc_gateState = g, sc_operator = ''op'', sc_approver = None, sc_budgetPolicy = None,
     sc_costEstimate = None, sc_costActual = None, sc_startedAt = None, sc_finishedAt = None, sc_createdAt = []\<rparr>"

definition ex_pr_fix :: "string \<Rightarrow> string \<Rightarrow> risk_class \<Rightarrow> fix_record" where
  "ex_pr_fix i f k = \<lparr>fx_id = i, fx_scanId = ''s'', fx_clientId = ''c'', fx_confirmedFindingId = f, fx_patch = ''patch'' @ i, fx_rationale = [],
     fx_proofOfFixTest = \<lparr>pt_filePath = None, pt_framework = None, pt_code = [], pt_failsPrePatch = True, pt_passesPostPatch = True,
       pt_containerReplay = None\<rparr>, fx_riskClass = k, fx_riskClassRationale = [], fx_status = Proposed, fx_pullRequestId = None,
     fx_createdAt = [], fx_updatedAt = None\<rparr>"

definition ex_flow :: "fix_record list \<Rightarrow> flow_input" where
  "ex_flow xs = \<lparr>fi_scan = ex_pr_scan Approved, fi_confirmed = [], fi_fixes = xs, fi_autoApply = True,
     fi_opener = Some (Github, github_open ex_vcs ex_github), fi_prStrategy = None, fi_baseBranch = None, fi_provider = None,
     fi_audit = Some (audit_call ex_vcs)\<rparr>"

lemma dropWhile_squash: "list_all (\<lambda>c. slug_char c \<or> c = CHR ''-'') (squash s)"
  by (induction s rule: squash.induct) auto

lemma dash_legal: "slug_char CHR ''-''"
  by (simp add: slug_char_def)

lemma slug_legal: "slug v \<noteq> [] \<and> list_all slug_char (slug v)"
proof -
  have "list_all slug_char (squash v)" using dropWhile_squash[of v] dash_legal by (auto simp: list_all_iff)
  then have "list_all slug_char (trim_dashes (squash v))"
    by (auto simp: trim_dashes_def Let_def list_all_iff dest!: set_dropWhileD)
  moreover have "list_all slug_char ''fix''" by code_simp
  ultimately show ?thesis by (simp add: slug_def Let_def)
qed

lemma known_opener: "opens = github_open env gh \<or> opens = gitlab_open env gl \<Longrightarrow> pull_request_opener opens"
  using github.pull_request_opener_axioms gitlab.pull_request_opener_axioms by (elim disjE) simp_all

lemma openAutoFix_run:
  assumes "fi_opener input = Some (provider, opens)" and "pull_request_opener opens" and "audit_ok env input"
    and "openAutoFixPullRequests input t = (r, t')"
  shows "\<exists>es. t' = t @ es
    \<and> (\<forall>c. Vcs_event c \<in> set es \<longrightarrow> (\<exists>p \<in> set (planAutoFixPullRequests input). on_plan p c \<and> pl_branch p \<noteq> pl_baseBranch p))
    \<and> (fi_audit input \<noteq> None \<longrightarrow> creations es \<le> Suc (length (audited es))) \<and> length (audited es) \<le> creations es
    \<and> (\<forall>prs. r = Inr prs \<longrightarrow> list_all2 request_of (planAutoFixPullRequests input) prs
        \<and> creations es = length (planAutoFixPullRequests input)
        \<and> (fi_audit input \<noteq> None \<longrightarrow> audited es = map2 (opened_audit_input input) (planAutoFixPullRequests input) prs))"
proof (cases "planAutoFixPullRequests input = []")
  case True
  then show ?thesis using assms(4) by (auto simp: openAutoFixPullRequests_def)
next
  case False
  then have "open_plans input opens (planAutoFixPullRequests input) t = (r, t')"
    using assms(1,4) by (simp add: openAutoFixPullRequests_def Let_def)
  then show ?thesis by (rule pull_request_opener.open_plans_run[OF assms(2) _ assms(3)])
qed

section \<open>Properties\<close>



text \<open>C5. From a confirmed finding to the client's repository: a patch that layer 5 writes into a
  checkout is made of patches of layer 4 that are proven, each for a confirmed finding of the
  run: the test really failed before and passed after, and the change is mechanical.\<close>

theorem written_patches_are_proven:
  assumes "generateFixes eff ctx fs w = (Inr xs, w')" and "fi_fixes input = xs"
    and "fi_opener input = Some (provider, opens)" and "opens = github_open env gh \<or> opens = gitlab_open env gl"
    and "audit_ok env input" and "openAutoFixPullRequests input t = (r, t @ es)" and "Vcs_event (Write_patch s) \<in> set es"
  shows "\<exists>ys. ys \<noteq> [] \<and> s = js_join [newline] (map fx_patch ys)
    \<and> (\<forall>y \<in> set ys. y \<in> set xs \<and> (\<exists>f \<in> set fs. proven_fix ctx f y \<and> mechanical_change ctx f (fx_patch y)))"
proof -
  from openAutoFix_run[OF assms(3) known_opener[OF assms(4)] assms(5,6)] obtain p where "p \<in> set (planAutoFixPullRequests input)" "on_plan p (Write_patch s)"
    using assms(7) by auto
  then obtain ys where ys: "ys \<noteq> []" "s = js_join [newline] (map fx_patch ys)"
    "set ys \<subseteq> {x \<in> set xs. fx_riskClass x = Auto_eligible}"
    using planned_is_gated[of p input] assms(2) unfolding gated_plan_def by auto
  have "\<exists>f \<in> set fs. proven_fix ctx f y \<and> mechanical_change ctx f (fx_patch y)" if "y \<in> set ys" for y
    using generated_fixes[OF assms(1)[unfolded generateFixes_def]] ys(3) that by blast
  then show ?thesis using ys by blast
qed

text \<open>C12. A run of the flow that returns has opened exactly the planned requests, one each and in
  order, every one with the branch, title and fixes of its plan, and appended exactly one audit
  record per request, in the same order.\<close>

theorem opened_requests_are_audited:
  assumes "fi_opener input = Some (provider, opens)" and "opens = github_open env gh \<or> opens = gitlab_open env gl"
    and "fi_audit input = Some (audit_call env)" and "openAutoFixPullRequests input t = (Inr prs, t')"
  shows "\<exists>es. t' = t @ es \<and> list_all2 request_of (planAutoFixPullRequests input) prs \<and> creations es = length prs
    \<and> audited es = map2 (opened_audit_input input) (planAutoFixPullRequests input) prs"
proof -
  from openAutoFix_run[OF assms(1) known_opener[OF assms(2)] _ assms(4), of env] show ?thesis
    using assms(3) by (auto simp: audit_ok_def dest: list_all2_lengthD)
qed

lemma opened_requests_are_audited_witness:
  "\<exists>x t. openAutoFixPullRequests (ex_flow [ex_pr_fix ''1'' ''f'' Auto_eligible]) [] = (Inr [x], t) \<and> creations t = 1 \<and> length (audited t) = 1"
proof -
  let ?i = "ex_flow [ex_pr_fix ''1'' ''f'' Auto_eligible]"
  have "(case fst (openAutoFixPullRequests ?i []) of Inr [x] \<Rightarrow> True | _ \<Rightarrow> False)" by code_simp
  then obtain x t where run: "openAutoFixPullRequests ?i [] = (Inr [x], t)"
    by (cases "openAutoFixPullRequests ?i []") (auto split: sum.splits list.splits)
  have "fi_opener ?i = Some (Github, github_open ex_vcs ex_github)" "fi_audit ?i = Some (audit_call ex_vcs)"
    by (simp_all add: ex_flow_def)
  from opened_requests_are_audited[OF this(1) disjI1[OF refl] this(2) run] run
  show ?thesis by (auto simp: list_all2_Cons2)
qed

text \<open>Whenever the flow ends, by an error of git, the host or the audit log too, at most one request
  has been asked for without its audit record, and no record stands without its request.\<close>

lemma unaudited_requests_at_most_one:
  assumes "fi_opener input = Some (provider, opens)" and "opens = github_open env gh \<or> opens = gitlab_open env gl"
    and "fi_audit input = Some (audit_call env)" and "openAutoFixPullRequests input t = (r, t')"
  shows "\<exists>es. t' = t @ es \<and> length (audited es) \<le> creations es \<and> creations es \<le> length (audited es) + 1"
proof -
  from openAutoFix_run[OF assms(1) known_opener[OF assms(2)] _ assms(4), of env] show ?thesis
    using assms(3) by (auto simp: audit_ok_def)
qed

lemma unaudited_requests_at_most_one_witness:
  "creations (snd (openAutoFixPullRequests (ex_flow [ex_pr_fix ''1'' ''f'' Auto_eligible, ex_pr_fix ''2'' ''g'' Auto_eligible]) [])) \<le>
   length (audited (snd (openAutoFixPullRequests (ex_flow [ex_pr_fix ''1'' ''f'' Auto_eligible, ex_pr_fix ''2'' ''g'' Auto_eligible]) []))) + 1"
proof -
  let ?i = "ex_flow [ex_pr_fix ''1'' ''f'' Auto_eligible, ex_pr_fix ''2'' ''g'' Auto_eligible]"
  obtain r t where run: "openAutoFixPullRequests ?i [] = (r, t)" by fastforce
  have "fi_opener ?i = Some (Github, github_open ex_vcs ex_github)" "fi_audit ?i = Some (audit_call ex_vcs)"
    by (simp_all add: ex_flow_def)
  from unaudited_requests_at_most_one[OF this(1) disjI1[OF refl] this(2) run] show ?thesis by (auto simp: run)
qed

lemma ex_flow_writes:
  assumes "fx_riskClass x = Auto_eligible"
  shows "\<exists>r es. openAutoFixPullRequests (ex_flow [x]) [] = (r, [] @ es) \<and> Vcs_event (Write_patch (fx_patch x)) \<in> set es"
proof -
  let ?i = "ex_flow [x]"
  have sel: "fi_fixes ?i = [x]" "fi_opener ?i = Some (Github, github_open ex_vcs ex_github)" "fi_autoApply ?i"
    "sc_gateState (fi_scan ?i) = Approved" "fi_prStrategy ?i = None" "fi_baseBranch ?i = None" "sc_branch (fi_scan ?i) = ''main''"
    by (simp_all add: ex_flow_def ex_pr_scan_def)
  have el: "pd_eligible (prGateDecision (gate_context ?i) x)"
    using assms sel by (simp add: eligible_iff gate_context_def isGatePassed_def GATE_PASSED_STATES_def)
  obtain p where p: "planAutoFixPullRequests ?i = [p]" "pl_patch p = fx_patch x" "pl_baseBranch p = ''main''" "pl_fixIds p = [fx_id x]"
    "hd (pl_branch p) = CHR ''m'' \<and> hd (tl (pl_branch p)) = CHR ''o''"
    using el by (simp add: planAutoFixPullRequests_def Let_def sel resolveBaseBranch_def)
  have b: "pl_branch p \<noteq> pl_baseBranch p" using p by auto
  have as: "assert_fixes (gate_context ?i) (fix_by_id [x]) [fx_id x] = Inr ()"
    using el by (simp add: fix_by_id_def assertPrGate_def Let_def)
  have "Vcs_event (Write_patch (fx_patch x)) \<in> set (snd (stagePatchOnBranch ex_vcs \<lparr>st_workdir = ''wd'', st_baseBranch = pl_baseBranch p,
      st_branch = pl_branch p, st_patch = pl_patch p, st_commitMessage = pl_title p, st_remote = None\<rparr> []))"
    using b p(2) by (simp add: stagePatchOnBranch_def perform_def ex_vcs_def Let_def)
  then have "Vcs_event (Write_patch (fx_patch x)) \<in> set (snd (staged_first ex_vcs (gh_workdir ex_github) (gh_remote ex_github) p []))"
    by (simp add: staged_first_def ex_github_def only_truthy_def)
  then have "Vcs_event (Write_patch (fx_patch x)) \<in> set (snd (github_open ex_vcs ex_github p []))"
    using b by (auto simp: github_open_def Let_def perform_def split: prod.splits sum.splits)
  then have "Vcs_event (Write_patch (fx_patch x)) \<in> set (snd (openAutoFixPullRequests ?i []))"
    using b p as by (auto simp: openAutoFixPullRequests_def Let_def sel open_plan_def ex_flow_def audit_call_def split: prod.splits sum.splits)
  then show ?thesis by (cases "openAutoFixPullRequests ?i []") auto
qed

lemma written_patches_are_proven_witness:
  "\<exists>y. proven_fix ex_fix_context ex_fix_finding y \<and> mechanical_change ex_fix_context ex_fix_finding (fx_patch y)"
proof -
  obtain x where gen: "generateFixes \<lparr>fe_ask = (\<lambda>q w. (Inl (Untyped []), w)), fe_audit = None\<rparr> ex_fix_context [ex_fix_finding] () = (Inr [x], ())"
    and risk: "fx_riskClass x = Auto_eligible"
    using ex_fix_generated by (auto simp: generateFixes_def)
  obtain r es where run: "openAutoFixPullRequests (ex_flow [x]) [] = (r, [] @ es)" "Vcs_event (Write_patch (fx_patch x)) \<in> set es"
    using ex_flow_writes[OF risk] by blast
  have "fi_fixes (ex_flow [x]) = [x]" "fi_opener (ex_flow [x]) = Some (Github, github_open ex_vcs ex_github)" "audit_ok ex_vcs (ex_flow [x])"
    by (simp_all add: ex_flow_def audit_ok_def)
  from written_patches_are_proven[OF gen this(1,2) disjI1[OF refl] this(3) run]
  obtain ys where "ys \<noteq> []" "\<forall>y \<in> set ys. \<exists>f \<in> set [ex_fix_finding]. proven_fix ex_fix_context f y \<and> mechanical_change ex_fix_context f (fx_patch y)"
    by blast
  then show ?thesis by (metis list.set_intros(1) list.set_sel(1) set_ConsD empty_iff list.set(1))
qed

text \<open>The flow cannot be run again on the checkout of an earlier run: git refuses to create the branch
  of the first plan a second time, so when an earlier run ended part-way, after opening requests
  whose list its error discarded, every later run of layer 5 ends in an error too.\<close>

lemma interrupted_run_not_repeatable:
  assumes "\<And>u b. Vcs_event (Git_checkoutLocalBranch b) \<in> set u \<Longrightarrow> \<exists>e. ve_answer env u (Vcs_event (Git_checkoutLocalBranch b)) = Inl e"
    and "fi_opener input = Some (provider, github_open env gh)" and "truthy (gh_workdir gh)"
    and "planAutoFixPullRequests input = p # ps" and "Vcs_event (Git_checkoutLocalBranch (pl_branch p)) \<in> set t"
  shows "\<exists>e t'. openAutoFixPullRequests input t = (Inl e, t')"
proof -
  have again: "Vcs_event (Git_checkoutLocalBranch (pl_branch p)) \<in> set (t @ es)" for es using assms(5) by simp
  have "\<exists>e u. perform_all env [Load_sdk ''simple-git'', Git_checkout d b, Git_checkoutLocalBranch (pl_branch p), Make_temp_dir] t = (Inl e, u)"
    for d b
    using assms(1)[OF again[of "[Vcs_event (Load_sdk ''simple-git''), Vcs_event (Git_checkout d b)]"]]
    by (auto simp: perform_def split: sum.splits)
  then have "\<exists>e u. stagePatchOnBranch env \<lparr>st_workdir = d, st_baseBranch = pl_baseBranch p, st_branch = pl_branch p,
      st_patch = s, st_commitMessage = m, st_remote = rm\<rparr> t = (Inl e, u)" for d s m rm
    unfolding stagePatchOnBranch_def
    by (cases "pl_branch p = pl_baseBranch p") (simp, metis (no_types, lifting) old.prod.case old.sum.simps(5) stage_opts.select_convs)
  then have "\<exists>e u. staged_first env (gh_workdir gh) (gh_remote gh) p t = (Inl e, u)"
    using assms(3) by (simp add: staged_first_def)
  then have "\<exists>e u. github_open env gh p t = (Inl e, u)" by (auto simp: github_open_def Let_def)
  then have "\<exists>e u. open_plan input (github_open env gh) p t = (Inl e, u)"
    by (auto simp: open_plan_def split: sum.splits)
  then show ?thesis using assms(2,4) by (auto simp: openAutoFixPullRequests_def)
qed

lemma interrupted_run_not_repeatable_witness:
  "\<exists>e t e2 t2. openAutoFixPullRequests (ex_flow [ex_pr_fix ''1'' ''f'' Auto_eligible, ex_pr_fix ''2'' ''g'' Auto_eligible]) [] = (Inl e, t)
     \<and> length (audited t) = 1
     \<and> openAutoFixPullRequests (ex_flow [ex_pr_fix ''1'' ''f'' Auto_eligible, ex_pr_fix ''2'' ''g'' Auto_eligible]) t = (Inl e2, t2)"
proof -
  let ?i = "ex_flow [ex_pr_fix ''1'' ''f'' Auto_eligible, ex_pr_fix ''2'' ''g'' Auto_eligible]"
  have "case openAutoFixPullRequests ?i [] of (Inl e, t) \<Rightarrow> length (audited t) = 1
      \<and> Vcs_event (Git_checkoutLocalBranch ''montr/fix/s/f'') \<in> set t | _ \<Rightarrow> False" by code_simp
  then obtain e t where run: "openAutoFixPullRequests ?i [] = (Inl e, t)" "length (audited t) = 1"
    "Vcs_event (Git_checkoutLocalBranch ''montr/fix/s/f'') \<in> set t" by (auto split: prod.splits sum.splits)
  have "case planAutoFixPullRequests ?i of p # ps \<Rightarrow> pl_branch p = ''montr/fix/s/f'' | [] \<Rightarrow> False" by code_simp
  then obtain p ps where plan: "planAutoFixPullRequests ?i = p # ps" "pl_branch p = ''montr/fix/s/f''" by (auto split: list.splits)
  have "fi_opener ?i = Some (Github, github_open ex_vcs ex_github)" "truthy (gh_workdir ex_github)"
    by (simp_all add: ex_flow_def ex_github_def)
  from interrupted_run_not_repeatable[OF _ this plan(1), of t] run plan(2) show ?thesis by (auto simp: ex_vcs_def)
qed

end
