(* ===== verification/ReportBuilder.thy ===== *)
theory ReportBuilder
  imports PrGate CostMeter
begin

text \<open>
  \<open>packages/report/src/report-builder.ts\<close> and \<open>headline.ts\<close>: the assembly of the report around the
  flow of pull requests, and its headline. The collation of titles (\<open>localeCompare\<close>) is a
  parameter. The blue-team sections are left out, and the parse of a report is that of its own
  identifiers and fixes: the findings in it were parsed by the layers before.
\<close>

section \<open>Findings in order\<close>

fun SEVERITY_RANK :: "severity \<Rightarrow> int" where
  "SEVERITY_RANK Critical = 4"
| "SEVERITY_RANK High = 3"
| "SEVERITY_RANK Medium = 2"
| "SEVERITY_RANK Low = 1"
| "SEVERITY_RANK Info = 0"

definition ALL_SEVERITIES :: "severity list" where
  "ALL_SEVERITIES = [Info, Low, Medium, High, Critical]"

definition exposureRank :: "exposure \<Rightarrow> int" where
  "exposureRank e = (if e = Public then 0 else 1)"

definition findingFingerprint :: "confirmed_finding \<Rightarrow> string" where
  "findingFingerprint f =
     (let loc = cn_location f in category_str (cn_category f) @ ''|'' @ loc_file loc @ ''|''
        @ (case loc_symbol loc of Some s \<Rightarrow> s | None \<Rightarrow> nat_str (loc_line loc)))"

text \<open>The comparator, with \<open>||\<close> on numbers.\<close>

definition or_else :: "int \<Rightarrow> int \<Rightarrow> int" where
  "or_else a b = (if a \<noteq> 0 then a else b)"

definition finding_order :: "(string \<Rightarrow> string \<Rightarrow> int) \<Rightarrow> confirmed_finding \<Rightarrow> confirmed_finding \<Rightarrow> int" where
  "finding_order localeCompare a b =
     or_else (SEVERITY_RANK (cn_severity b) - SEVERITY_RANK (cn_severity a))
       (or_else (exposureRank (cn_exposure a) - exposureRank (cn_exposure b))
          (localeCompare (cn_title a) (cn_title b)))"

definition prioritize :: "(string \<Rightarrow> string \<Rightarrow> int) \<Rightarrow> confirmed_finding list \<Rightarrow> confirmed_finding list" where
  "prioritize localeCompare confirmed = js_sort (\<lambda>a b. finding_order localeCompare a b \<le> 0) confirmed"

section \<open>Executive summary\<close>

type_synonym severity_counts = "(severity, nat) jsmap"

fun count_from :: "severity_counts \<Rightarrow> confirmed_finding list \<Rightarrow> severity_counts" where
  "count_from counts [] = counts"
| "count_from counts (f # fs) =
     count_from (jm_set (cn_severity f) ((case jm_get counts (cn_severity f) of None \<Rightarrow> 0 | Some n \<Rightarrow> n) + 1) counts) fs"

definition countBySeverity :: "confirmed_finding list \<Rightarrow> severity_counts" where
  "countBySeverity confirmed = count_from (map (\<lambda>s. (s, 0)) ALL_SEVERITIES) confirmed"

record posture_delta =
  dl_previousScanId :: "string option"
  dl_newIssues :: nat
  dl_resolvedIssues :: nat
  dl_netDelta :: int

record previous_scan =
  ps_scanId :: "string option"
  ps_confirmed :: "confirmed_finding list"

text \<open>A \<open>Set\<close> of strings: every member once.\<close>

definition js_set :: "string list \<Rightarrow> string list" where
  "js_set xs = remdups xs"

definition computePostureDelta :: "confirmed_finding list \<Rightarrow> previous_scan \<Rightarrow> posture_delta" where
  "computePostureDelta current previous =
     (let cur = js_set (map findingFingerprint current);
          prev = js_set (map findingFingerprint (ps_confirmed previous));
          newIssues = length (filter (\<lambda>fp. fp \<notin> set prev) cur);
          resolvedIssues = length (filter (\<lambda>fp. fp \<notin> set cur) prev)
      in \<lparr>dl_previousScanId = only_truthy (ps_scanId previous), dl_newIssues = newIssues,
          dl_resolvedIssues = resolvedIssues, dl_netDelta = int newIssues - int resolvedIssues\<rparr>)"

fun tool_str :: "tool_source \<Rightarrow> string" where
  "tool_str Semgrep = ''semgrep''"
| "tool_str Gitleaks = ''gitleaks''"
| "tool_str Osv = ''osv''"
| "tool_str Ghsa = ''ghsa''"
| "tool_str Trivy = ''trivy''"
| "tool_str Custom = ''custom''"
| "tool_str Llm_triage = ''llm-triage''"

record report_input =
  ri_scan :: scan
  ri_confirmed :: "confirmed_finding list"
  ri_unconfirmed :: "unconfirmed_finding list"
  ri_fixes :: "fix_record list"
  ri_costRollup :: cost_rollup
  ri_autoApply :: bool
  ri_candidates :: "candidate_finding list option"
  ri_toolsConsolidated :: "string list option"
  ri_previous :: "previous_scan option"
  ri_reportId :: "string option"
  ri_generatedAt :: string
  ri_opener :: "(vcs_provider \<times> (auto_fix_plan \<Rightarrow> pr_trace \<Rightarrow> (js_error + pull_request) \<times> pr_trace)) option"
  ri_prStrategy :: "pr_strategy option"
  ri_baseBranch :: "string option"
  ri_audit :: "(audit_input \<Rightarrow> pr_trace \<Rightarrow> (js_error + unit) \<times> pr_trace) option"

definition deriveToolsConsolidated :: "report_input \<Rightarrow> string list" where
  "deriveToolsConsolidated input =
     (case ri_toolsConsolidated input of
        Some ts \<Rightarrow> js_sort (\<le>) (js_set ts)
      | None \<Rightarrow> (case ri_candidates input of
          None \<Rightarrow> []
        | Some cs \<Rightarrow> js_sort (\<le>) (js_set (map tool_str (filter (\<lambda>s. s \<noteq> Llm_triage) (map cf_source cs))))))"

record executive_summary =
  es_totalConfirmed :: nat
  es_confirmedBySeverity :: severity_counts
  es_toolsConsolidated :: "string list"
  es_postureDelta :: "posture_delta option"

definition buildExecutiveSummary :: "report_input \<Rightarrow> executive_summary" where
  "buildExecutiveSummary input =
     \<lparr>es_totalConfirmed = length (ri_confirmed input), es_confirmedBySeverity = countBySeverity (ri_confirmed input),
      es_toolsConsolidated = deriveToolsConsolidated input,
      es_postureDelta = map_option (computePostureDelta (ri_confirmed input)) (ri_previous input)\<rparr>"

fun compliance_from :: "category list \<Rightarrow> confirmed_finding list \<Rightarrow> compliance_mapping list" where
  "compliance_from seen [] = []"
| "compliance_from seen (f # fs) =
     (if cn_category f \<in> set seen then compliance_from seen fs
      else complianceForCategory (cn_category f) # compliance_from (cn_category f # seen) fs)"

definition buildComplianceMapping :: "confirmed_finding list \<Rightarrow> compliance_mapping list" where
  "buildComplianceMapping confirmed = compliance_from [] confirmed"

section \<open>The report\<close>

record report_finding =
  rf_finding :: confirmed_finding
  rf_fix :: "fix_record option"
  rf_compliance :: compliance_mapping

record fix_status_summary =
  fu_autoEligibleFixIds :: "string list"
  fu_humanRequiredFixIds :: "string list"
  fu_pullRequests :: "pull_request list"

record report =
  re_id :: string
  re_scanId :: string
  re_clientId :: string
  re_generatedAt :: string
  re_executiveSummary :: executive_summary
  re_confirmedFindings :: "report_finding list"
  re_fixStatus :: fix_status_summary
  re_unconfirmedAppendix :: "unconfirmed_finding list"
  re_complianceMapping :: "compliance_mapping list"
  re_scope :: scan_scope
  re_cost :: cost_rollup

record layer5_output =
  lf_report :: report
  lf_pullRequests :: "pull_request list"

definition applyPrStatus :: "fix_record list \<Rightarrow> pull_request list \<Rightarrow> string \<Rightarrow> fix_record list" where
  "applyPrStatus fixes prs updatedAt =
     map (\<lambda>x. let prId = prIdByFixId prs (fx_id x) in
            if truthy prId then x\<lparr>fx_status := Pr_open, fx_pullRequestId := prId, fx_updatedAt := Some updatedAt\<rparr> else x) fixes"

definition report_parse :: "report \<Rightarrow> js_error + report" where
  "report_parse r =
     (let fs = fu_autoEligibleFixIds (re_fixStatus r) @ fu_humanRequiredFixIds (re_fixStatus r);
          bad_fix = (\<lambda>rf. case rf_fix rf of None \<Rightarrow> False | Some x \<Rightarrow> isl (fix_parse x)) in
      if re_id r = [] \<or> re_scanId r = [] \<or> re_clientId r = [] \<or> [] \<in> set fs \<or> list_ex bad_fix (re_confirmedFindings r)
      then Inl (Untyped ''ZodError'') else Inr r)"

definition report_flow :: "report_input \<Rightarrow> flow_input" where
  "report_flow input = \<lparr>fi_scan = ri_scan input, fi_confirmed = ri_confirmed input, fi_fixes = ri_fixes input,
     fi_autoApply = ri_autoApply input, fi_opener = ri_opener input, fi_prStrategy = ri_prStrategy input,
     fi_baseBranch = only_truthy (ri_baseBranch input), fi_provider = None, fi_audit = ri_audit input\<rparr>"

definition report_of :: "(string \<Rightarrow> string \<Rightarrow> int) \<Rightarrow> report_input \<Rightarrow> pull_request list \<Rightarrow> js_error + layer5_output" where
  "report_of localeCompare input pullRequests =
     (let fixes = applyPrStatus (ri_fixes input) pullRequests (ri_generatedAt input);
          reportId = (case ri_reportId input of Some i \<Rightarrow> i | None \<Rightarrow> ''report_'' @ sc_id (ri_scan input));
          confirmedFindings = map (\<lambda>f. \<lparr>rf_finding = f, rf_fix = find (\<lambda>x. fx_confirmedFindingId x = cn_id f) fixes,
             rf_compliance = complianceForCategory (cn_category f)\<rparr>) (prioritize localeCompare (ri_confirmed input))
      in ebind (report_parse
           \<lparr>re_id = reportId, re_scanId = sc_id (ri_scan input), re_clientId = sc_clientId (ri_scan input),
            re_generatedAt = ri_generatedAt input, re_executiveSummary = buildExecutiveSummary input,
            re_confirmedFindings = confirmedFindings,
            re_fixStatus = \<lparr>fu_autoEligibleFixIds = map fx_id (filter (\<lambda>x. fx_riskClass x = Auto_eligible) (ri_fixes input)),
              fu_humanRequiredFixIds = map fx_id (filter (\<lambda>x. fx_riskClass x = Human_required) (ri_fixes input)),
              fu_pullRequests = pullRequests\<rparr>,
            re_unconfirmedAppendix = ri_unconfirmed input, re_complianceMapping = buildComplianceMapping (ri_confirmed input),
            re_scope = sc_scope (ri_scan input), re_cost = ri_costRollup input\<rparr>)
         (\<lambda>report. Inr \<lparr>lf_report = report, lf_pullRequests = pullRequests\<rparr>))"

text \<open>Requests first, then the report that reflects them.\<close>

definition buildReport :: "(string \<Rightarrow> string \<Rightarrow> int) \<Rightarrow> report_input \<Rightarrow> pr_trace \<Rightarrow> (js_error + layer5_output) \<times> pr_trace" where
  "buildReport localeCompare input t =
     (case openAutoFixPullRequests (report_flow input) t of
        (Inl e, t1) \<Rightarrow> (Inl e, t1)
      | (Inr prs, t1) \<Rightarrow> (report_of localeCompare input prs, t1))"

section \<open>Headline\<close>

definition HEADLINE_SEVERITY_ORDER :: "severity list" where
  "HEADLINE_SEVERITY_ORDER = [Critical, High, Medium, Low, Info]"

record headline =
  hl_totalConfirmed :: nat
  hl_bySeverity :: "(severity \<times> nat) list"
  hl_prsOpened :: nat
  hl_autoEligibleFixes :: nat
  hl_humanRequiredFixes :: nat
  hl_postureText :: "string option"

definition int_str :: "int \<Rightarrow> string" where
  "int_str i = (if i < 0 then ''-'' @ nat_str (nat (- i)) else nat_str (nat i))"

definition buildHeadline :: "report \<Rightarrow> headline" where
  "buildHeadline r =
     (let es = re_executiveSummary r in
      \<lparr>hl_totalConfirmed = es_totalConfirmed es,
       hl_bySeverity = filter (\<lambda>(s, n). n > 0) (map (\<lambda>s. (s, case jm_get (es_confirmedBySeverity es) s of
          None \<Rightarrow> 0 | Some n \<Rightarrow> n)) HEADLINE_SEVERITY_ORDER),
       hl_prsOpened = length (fu_pullRequests (re_fixStatus r)),
       hl_autoEligibleFixes = length (fu_autoEligibleFixIds (re_fixStatus r)),
       hl_humanRequiredFixes = length (fu_humanRequiredFixIds (re_fixStatus r)),
       hl_postureText = map_option (\<lambda>d. nat_str (dl_newIssues d) @ '' new, '' @ nat_str (dl_resolvedIssues d)
          @ '' resolved vs last scan (net '' @ (if dl_netDelta d \<ge> 0 then ''+'' else []) @ int_str (dl_netDelta d) @ '')'')
          (es_postureDelta es)\<rparr>)"

definition renderHeadline :: "report \<Rightarrow> string" where
  "renderHeadline r =
     (let h = buildHeadline r;
          noun = (if hl_totalConfirmed h = 1 then ''confirmed vulnerability'' else ''confirmed vulnerabilities'');
          breakdown = (if hl_bySeverity h \<noteq> []
            then '' ('' @ js_join '', '' (map (\<lambda>(s, n). nat_str n @ '' '' @ severity_str s) (hl_bySeverity h)) @ '')'' else [])
      in js_join '' ''
        ([nat_str (hl_totalConfirmed h) @ '' '' @ noun @ breakdown @ ''.'']
         @ (if hl_prsOpened h > 0
            then [nat_str (hl_prsOpened h) @ '' auto-fix PR'' @ (if hl_prsOpened h = 1 then [] else ''s'') @ '' opened.'']
            else if hl_autoEligibleFixes h > 0
            then [nat_str (hl_autoEligibleFixes h) @ '' auto-fix'' @ (if hl_autoEligibleFixes h = 1 then [] else ''es'')
                  @ '' ready; '' @ nat_str (hl_humanRequiredFixes h) @ '' require human review.'']
            else [])
         @ (if truthy (hl_postureText h) then [''Posture: '' @ the (hl_postureText h) @ ''.''] else [])))"

definition assertConfirmedOnlyHeadline :: "report \<Rightarrow> nat option \<Rightarrow> js_error + unit" where
  "assertConfirmedOnlyHeadline r rawCandidateCount =
     (let es = re_executiveSummary r; total = es_totalConfirmed es; s = sum_list (map snd (es_confirmedBySeverity es));
          n = length (re_confirmedFindings r) in
      if s \<noteq> total
      then Inl (Untyped (''headline invariant: totalConfirmed ('' @ nat_str total @ '') != sum(confirmedBySeverity) ('' @ nat_str s @ '')''))
      else if total \<noteq> n
      then Inl (Untyped (''headline invariant: totalConfirmed ('' @ nat_str total @ '') != confirmedFindings.length ('' @ nat_str n @ '')''))
      else case rawCandidateCount of
             None \<Rightarrow> Inr ()
           | Some raw \<Rightarrow>
               if raw \<noteq> total \<and> (total = raw \<or> s = raw)
               then Inl (Untyped ''headline invariant: raw candidate count must never headline the report'') else Inr ())"

section \<open>Lemmas\<close>

lemma sum_jm_set:
  "sum_list (map snd (jm_set k (v :: nat) m)) + (case jm_get m k of None \<Rightarrow> 0 | Some n \<Rightarrow> n) = sum_list (map snd m) + v"
  unfolding jm_set_def jm_get_def by (induction m) (auto split: option.splits)

lemma sum_count_from: "sum_list (map snd (count_from m fs)) = sum_list (map snd m) + length fs"
proof (induction fs arbitrary: m)
  case (Cons f fs)
  let ?n = "case jm_get m (cn_severity f) of None \<Rightarrow> 0 | Some n \<Rightarrow> n"
  have "sum_list (map snd (jm_set (cn_severity f) (?n + 1) m)) = sum_list (map snd m) + 1"
    using sum_jm_set[of "cn_severity f" "?n + 1" m] by simp
  then show ?case by (simp only: count_from.simps Cons.IH) simp
qed simp

lemma severity_counts_sum: "sum_list (map snd (countBySeverity fs)) = length fs"
  by (simp add: countBySeverity_def sum_count_from ALL_SEVERITIES_def)

lemma severity_count: "jm_get (count_from m fs) s = (if jm_get m s = None \<and> s \<notin> cn_severity ` set fs then None
  else Some ((case jm_get m s of None \<Rightarrow> 0 | Some n \<Rightarrow> n) + length (filter (\<lambda>f. cn_severity f = s) fs)))"
  by (induction fs arbitrary: m) (auto split: option.splits)

text \<open>The order of the findings of a report.\<close>

definition prioritized :: "(string \<Rightarrow> string \<Rightarrow> int) \<Rightarrow> confirmed_finding \<Rightarrow> confirmed_finding \<Rightarrow> bool" where
  "prioritized lc a b \<longleftrightarrow> SEVERITY_RANK (cn_severity b) < SEVERITY_RANK (cn_severity a)
     \<or> cn_severity a = cn_severity b \<and> (cn_exposure a = Public \<and> cn_exposure b = Authed
        \<or> cn_exposure a = cn_exposure b \<and> lc (cn_title a) (cn_title b) \<le> 0)"

definition consistent_collation :: "(string \<Rightarrow> string \<Rightarrow> int) \<Rightarrow> bool" where
  "consistent_collation lc \<longleftrightarrow> (\<forall>a b. lc a b \<le> 0 \<or> lc b a \<le> 0) \<and> (\<forall>a b c. lc a b \<le> 0 \<longrightarrow> lc b c \<le> 0 \<longrightarrow> lc a c \<le> 0)"

lemma severity_rank_inj: "SEVERITY_RANK a = SEVERITY_RANK b \<longleftrightarrow> a = b"
  by (cases a; cases b) auto

lemma finding_order_rank: "finding_order lc a b \<le> 0 \<longleftrightarrow>
    SEVERITY_RANK (cn_severity b) < SEVERITY_RANK (cn_severity a)
    \<or> SEVERITY_RANK (cn_severity a) = SEVERITY_RANK (cn_severity b)
      \<and> (exposureRank (cn_exposure a) < exposureRank (cn_exposure b)
         \<or> exposureRank (cn_exposure a) = exposureRank (cn_exposure b) \<and> lc (cn_title a) (cn_title b) \<le> 0)"
  by (auto simp: finding_order_def or_else_def)

lemma finding_order_iff: "finding_order lc a b \<le> 0 \<longleftrightarrow> prioritized lc a b"
  unfolding finding_order_rank prioritized_def severity_rank_inj
  by (cases "cn_exposure a"; cases "cn_exposure b") (simp_all add: exposureRank_def)

lemma prioritized_order:
  assumes "consistent_collation lc"
  shows "comparator (\<lambda>a b. finding_order lc a b \<le> 0)"
proof
  fix a b c :: confirmed_finding
  have "lc (cn_title a) (cn_title b) \<le> 0 \<or> lc (cn_title b) (cn_title a) \<le> 0"
    using assms unfolding consistent_collation_def by blast
  then show "finding_order lc a b \<le> 0 \<or> finding_order lc b a \<le> 0" unfolding finding_order_rank by linarith
  have "lc (cn_title a) (cn_title b) \<le> 0 \<Longrightarrow> lc (cn_title b) (cn_title c) \<le> 0 \<Longrightarrow> lc (cn_title a) (cn_title c) \<le> 0"
    using assms unfolding consistent_collation_def by blast
  then show "finding_order lc a b \<le> 0 \<Longrightarrow> finding_order lc b c \<le> 0 \<Longrightarrow> finding_order lc a c \<le> 0"
    unfolding finding_order_rank by linarith
qed

lemma prioritize_sorted: "consistent_collation lc \<Longrightarrow> sorted_wrt (prioritized lc) (prioritize lc fs)"
  using comparator.sort_sorted[OF prioritized_order] unfolding prioritize_def finding_order_iff .

lemma js_set_simps [simp]: "set (js_set xs) = set xs" "distinct (js_set xs)"
  by (simp_all add: js_set_def)

lemma fresh_card: "length (filter (\<lambda>x. x \<notin> set ys) (js_set xs)) = card (set xs - set ys)"
proof -
  have "length (filter (\<lambda>x. x \<notin> set ys) (js_set xs)) = card (set (filter (\<lambda>x. x \<notin> set ys) (js_set xs)))"
    by (rule distinct_card[symmetric]) simp
  also have "set (filter (\<lambda>x. x \<notin> set ys) (js_set xs)) = set xs - set ys" by auto
  finally show ?thesis .
qed

lemma report_of_fields:
  assumes "report_of lc input prs = Inr out"
  shows "lf_pullRequests out = prs" "fu_pullRequests (re_fixStatus (lf_report out)) = prs"
    "re_executiveSummary (lf_report out) = buildExecutiveSummary input"
    "map rf_finding (re_confirmedFindings (lf_report out)) = prioritize lc (ri_confirmed input)"
    "rf \<in> set (re_confirmedFindings (lf_report out)) \<Longrightarrow>
      rf_fix rf = find (\<lambda>x. fx_confirmedFindingId x = cn_id (rf_finding rf)) (applyPrStatus (ri_fixes input) prs (ri_generatedAt input))"
  using assms by (auto simp: report_of_def Let_def ebind_Inr_iff report_parse_def comp_def split: if_splits)

lemma built_report:
  assumes "buildReport lc input t = (Inr out, t')"
  shows "openAutoFixPullRequests (report_flow input) t = (Inr (lf_pullRequests out), t')
    \<and> report_of lc input (lf_pullRequests out) = Inr out"
  using assms report_of_fields(1) by (auto simp: buildReport_def split: prod.splits sum.splits)
lemma prId_lookup: "prIdByFixId prs i = Some k \<Longrightarrow> \<exists>pr \<in> set prs. pr_id pr = k \<and> i \<in> set (pr_fixIds pr)"
  unfolding prIdByFixId_def by (drule map_of_SomeD) auto

lemma applyPrStatus_fix:
  assumes "find P (applyPrStatus fixes prs now) = Some x" and "fx_pullRequestId x = Some k"
    and "\<And>y. y \<in> set fixes \<Longrightarrow> fx_pullRequestId y = None"
  shows "fx_status x = Pr_open \<and> prIdByFixId prs (fx_id x) = Some k
    \<and> (\<exists>y \<in> set fixes. fx_id y = fx_id x \<and> fx_riskClass y = fx_riskClass x)"
proof -
  have "x \<in> set (applyPrStatus fixes prs now)" using find_Some_mem[OF assms(1)] by blast
  then obtain y where "y \<in> set fixes" "x = (if truthy (prIdByFixId prs (fx_id y))
      then y\<lparr>fx_status := Pr_open, fx_pullRequestId := prIdByFixId prs (fx_id y), fx_updatedAt := Some now\<rparr> else y)"
    by (auto simp: applyPrStatus_def Let_def)
  then show ?thesis using assms(2,3) by (auto split: if_splits)
qed

text \<open>Two scans that differ in the line of one finding without a symbol.\<close>

definition ex_at_line :: "nat \<Rightarrow> confirmed_finding" where
  "ex_at_line n = ex_fix_finding\<lparr>cn_location := (cn_location ex_fix_finding)\<lparr>loc_line := n\<rparr>\<rparr>"

lemma line_drift_reads_as_new:
  "let d = computePostureDelta [ex_at_line 2] \<lparr>ps_scanId = None, ps_confirmed = [ex_at_line 1]\<rparr> in dl_newIssues d = 1 \<and> dl_resolvedIssues d = 1"
  by code_simp

definition ex_report_input :: "confirmed_finding list \<Rightarrow> fix_record list \<Rightarrow> report_input" where
  "ex_report_input fs xs = \<lparr>ri_scan = ex_pr_scan Approved, ri_confirmed = fs, ri_unconfirmed = [], ri_fixes = xs,
     ri_costRollup = \<lparr>cr_scanId = ''s'', cr_estimate = \<lparr>ce_scanId = None, ce_mode = Full, projectedInputTokens = 0, projectedOutputTokens = 0,
       projectedTotalTokens = 0, projectedUsd = 0, projectedWallClockSeconds = 0, ce_byLayer = [], ce_createdAt = []\<rparr>,
       cr_actual = None, cr_costPerFindingUsd = None, cr_variancePct = None\<rparr>,
     ri_autoApply = True, ri_candidates = None, ri_toolsConsolidated = None, ri_previous = None, ri_reportId = None, ri_generatedAt = ''now'',
     ri_opener = Some (Github, github_open ex_vcs ex_github), ri_prStrategy = None, ri_baseBranch = None, ri_audit = Some (audit_call ex_vcs)\<rparr>"

definition ex_collation :: "string \<Rightarrow> string \<Rightarrow> int" where
  "ex_collation a b = int (length a) - int (length b)"

lemma ex_report:
  "\<exists>out t rf x. buildReport ex_collation (ex_report_input [ex_fix_finding] [ex_pr_fix ''1'' ''f1'' Auto_eligible]) [] = (Inr out, t)
     \<and> re_confirmedFindings (lf_report out) = [rf] \<and> rf_fix rf = Some x \<and> fx_pullRequestId x = Some ''pr_s_1''"
proof -
  have "case buildReport ex_collation (ex_report_input [ex_fix_finding] [ex_pr_fix ''1'' ''f1'' Auto_eligible]) [] of
      (Inr out, t) \<Rightarrow> (case re_confirmedFindings (lf_report out) of
         [rf] \<Rightarrow> (case rf_fix rf of Some x \<Rightarrow> fx_pullRequestId x = Some ''pr_s_1'' | None \<Rightarrow> False) | _ \<Rightarrow> False)
    | _ \<Rightarrow> False" by code_simp
  then show ?thesis by (auto split: prod.splits sum.splits list.splits option.splits)
qed

section \<open>Properties\<close>

text \<open>C13. The headline of every report that is built counts confirmed findings only: the total, the sum of
  the counts by severity and the number of findings listed agree, so the invariant the package
  states never fails on its own reports, whatever the raw count.\<close>

theorem headline_counts_confirmed_only:
  assumes "buildReport lc input t = (Inr out, t')"
  shows "assertConfirmedOnlyHeadline (lf_report out) raw = Inr ()"
proof -
  have r: "report_of lc input (lf_pullRequests out) = Inr out" using built_report[OF assms] by blast
  have "length (re_confirmedFindings (lf_report out)) = length (ri_confirmed input)"
    using arg_cong[OF report_of_fields(4)[OF r], of length] by (simp add: prioritize_def)
  then show ?thesis
    by (cases raw) (auto simp: assertConfirmedOnlyHeadline_def report_of_fields(3)[OF r] buildExecutiveSummary_def
        severity_counts_sum Let_def)
qed

lemma headline_counts_confirmed_only_witness:
  "\<exists>out :: layer5_output. assertConfirmedOnlyHeadline (lf_report out) (Some 7) = Inr () \<and> length (re_confirmedFindings (lf_report out)) = 1"
proof -
  obtain out t rf where run: "buildReport ex_collation (ex_report_input [ex_fix_finding] [ex_pr_fix ''1'' ''f1'' Auto_eligible]) [] = (Inr out, t)"
    "re_confirmedFindings (lf_report out) = [rf]" using ex_report by blast
  from headline_counts_confirmed_only[OF run(1), of "Some 7"] run(2) show ?thesis by (intro exI[of _ out]) simp
qed

text \<open>The check that a raw candidate count never headlines the report cannot fire: on every report
  the invariant gives the same verdict with a raw count as without one.\<close>

lemma raw_count_check_is_vacuous: "assertConfirmedOnlyHeadline r (Some raw) = assertConfirmedOnlyHeadline r None"
  by (auto simp: assertConfirmedOnlyHeadline_def Let_def)

text \<open>The report lists exactly the confirmed findings, the most severe first, public before authenticated
  ones of the same severity, then by title.\<close>

lemma report_is_prioritized:
  assumes "buildReport lc input t = (Inr out, t')" and "consistent_collation lc"
  shows "mset (map rf_finding (re_confirmedFindings (lf_report out))) = mset (ri_confirmed input)
    \<and> sorted_wrt (prioritized lc) (map rf_finding (re_confirmedFindings (lf_report out)))"
proof -
  have "map rf_finding (re_confirmedFindings (lf_report out)) = prioritize lc (ri_confirmed input)"
    using report_of_fields(4) built_report[OF assms(1)] by blast
  then show ?thesis using prioritize_sorted[OF assms(2)] by (simp only:) (simp add: prioritize_def)
qed

lemma report_is_prioritized_witness:
  "\<exists>out :: layer5_output. mset (map rf_finding (re_confirmedFindings (lf_report out))) = {#ex_fix_finding#}"
proof -
  obtain out t where run: "buildReport ex_collation (ex_report_input [ex_fix_finding] [ex_pr_fix ''1'' ''f1'' Auto_eligible]) [] = (Inr out, t)"
    using ex_report by blast
  have "consistent_collation ex_collation" by (auto simp: consistent_collation_def ex_collation_def)
  from report_is_prioritized[OF run this] show ?thesis by (auto simp: ex_report_input_def)
qed

text \<open>The posture delta is the difference of two sets of fingerprints: what is new, what is resolved,
  and a net delta equal to the change in the number of distinct fingerprints.\<close>

lemma posture_delta_exact:
  "let d = computePostureDelta current previous; C = findingFingerprint ` set current;
       P = findingFingerprint ` set (ps_confirmed previous)
   in dl_newIssues d = card (C - P) \<and> dl_resolvedIssues d = card (P - C) \<and> dl_netDelta d = int (card C) - int (card P)"
proof -
  let ?C = "findingFingerprint ` set current" and ?P = "findingFingerprint ` set (ps_confirmed previous)"
  have "card (?C - ?P) + card (?C \<inter> ?P) = card ?C" "card (?P - ?C) + card (?C \<inter> ?P) = card ?P"
    by (simp_all add: card_Diff_subset_Int Int_commute card_mono)
  then have "int (card (?C - ?P)) - int (card (?P - ?C)) = int (card ?C) - int (card ?P)" by linarith
  then show ?thesis
    using fresh_card[of "map findingFingerprint (ps_confirmed previous)" "map findingFingerprint current"]
      fresh_card[of "map findingFingerprint current" "map findingFingerprint (ps_confirmed previous)"]
    by (simp add: computePostureDelta_def Let_def)
qed



end
