(* ===== verification/Grounding.thy ===== *)
theory Grounding
  imports ScanContracts Regex
begin

text \<open>
  The parts of \<open>packages/contracts/src/appmap.ts\<close> that correlation and confirmation read, and
  \<open>packages/correlation/src/taxonomy.ts\<close> and \<open>grounding.ts\<close>: how a candidate finding is
  cross-referenced with the application map. The index of the map is built as the code builds
  it; the lemma \<open>index_by_get\<close> of \<open>CorrelateFacts\<close> says what a lookup returns.
\<close>

section \<open>The application map\<close>

text \<open>A referenced model is its name with the operations on it.\<close>

record app_route =
  ro_id :: "string option"
  ro_path :: string
  ro_method :: http_method
  ro_authState :: auth_state
  ro_handler :: "source_location option"
  ro_authGate :: "string option"
  ro_referencedModels :: "(string \<times> string list) list option"

record app_entrypoint =
  en_name :: string
  en_location :: "source_location option"

record orm_model =
  om_name :: string

record third_party_call =
  tp_name :: string
  tp_target :: "string option"

record env_secret_surface =
  sv_name :: string
  sv_location :: "source_location option"

record taint_source =
  ts_kind :: taint_source_kind
  ts_location :: source_location
  ts_description :: "string option"
  ts_routeId :: "string option"

record taint_sink =
  tk_kind :: taint_sink_kind
  tk_location :: source_location
  tk_description :: "string option"

record taint_flow_edge =
  tf_sourceLocation :: source_location
  tf_sourceKind :: "taint_source_kind option"
  tf_throughFunction :: "string option"
  tf_throughLocation :: "source_location option"
  tf_sinkLocation :: source_location
  tf_sinkKind :: taint_sink_kind

datatype language = Typescript | Javascript | Python | Java | Go | Ruby | Php | Csharp | Other_language

record app_map =
  am_id :: string
  am_languages :: "language list"
  am_entrypoints :: "app_entrypoint list"
  am_routes :: "app_route list"
  am_ormModels :: "orm_model list"
  am_thirdPartyCalls :: "third_party_call list"
  am_envSecretSurfaces :: "env_secret_surface list"
  am_taintSources :: "taint_source list"
  am_taintSinks :: "taint_sink list"
  am_taintFlows :: "taint_flow_edge list"

fun source_kind_str :: "taint_source_kind \<Rightarrow> string" where
  "source_kind_str Http_request = ''http_request''"
| "source_kind_str Query_param = ''query_param''"
| "source_kind_str Path_param = ''path_param''"
| "source_kind_str Request_body = ''request_body''"
| "source_kind_str Request_header = ''request_header''"
| "source_kind_str Cookie = ''cookie''"
| "source_kind_str Env = ''env''"
| "source_kind_str File_read = ''file_read''"
| "source_kind_str Cli_arg = ''cli_arg''"
| "source_kind_str Websocket = ''websocket''"
| "source_kind_str Third_party_response = ''third_party_response''"

fun sink_kind_str :: "taint_sink_kind \<Rightarrow> string" where
  "sink_kind_str Sql_query = ''sql_query''"
| "sink_kind_str Orm_raw_query = ''orm_raw_query''"
| "sink_kind_str Command_exec = ''command_exec''"
| "sink_kind_str Fs_write = ''fs_write''"
| "sink_kind_str Fs_read = ''fs_read''"
| "sink_kind_str Http_response = ''http_response''"
| "sink_kind_str Template_render = ''template_render''"
| "sink_kind_str Html_render = ''html_render''"
| "sink_kind_str Redirect = ''redirect''"
| "sink_kind_str Eval = ''eval''"
| "sink_kind_str Deserialize = ''deserialize''"
| "sink_kind_str Logger = ''logger''"
| "sink_kind_str Http_client = ''http_client''"
| "sink_kind_str Crypto = ''crypto''"

section \<open>Finding classes (taxonomy.ts)\<close>

datatype finding_class = Injection | Config_class | Secret_class | Dependency | Access | Other_class

definition INJECTION_CATEGORIES :: "category list" where
  "INJECTION_CATEGORIES = [Sql_injection, Nosql_injection, Command_injection, Xss, Ssrf, Path_traversal,
     Insecure_deserialization, Xxe, Open_redirect, Prompt_injection]"

definition CONFIG_CATEGORIES :: "category list" where
  "CONFIG_CATEGORIES = [Permissive_cors, Missing_security_headers, Insecure_cookie, Weak_crypto, Csrf,
     Rate_limit_missing, Insufficient_logging, Insecure_configuration]"

definition SECRET_CATEGORIES :: "category list" where
  "SECRET_CATEGORIES = [Hardcoded_secret, Sensitive_data_exposure]"

definition DEPENDENCY_CATEGORIES :: "category list" where
  "DEPENDENCY_CATEGORIES = [Vulnerable_dependency]"

definition ACCESS_CATEGORIES :: "category list" where
  "ACCESS_CATEGORIES = [Broken_access_control, Broken_authentication, Idor, Mass_assignment]"

definition classifyCategory :: "category \<Rightarrow> finding_class" where
  "classifyCategory c =
     (if c \<in> set INJECTION_CATEGORIES then Injection
      else if c \<in> set SECRET_CATEGORIES then Secret_class
      else if c \<in> set DEPENDENCY_CATEGORIES then Dependency
      else if c \<in> set ACCESS_CATEGORIES then Access
      else if c \<in> set CONFIG_CATEGORIES then Config_class
      else Other_class)"

section \<open>Sanitizer signals\<close>

definition blank_rx :: regex where
  "blank_rx = Rep 0 None (One js_white)"

definition word_rx :: regex where
  "word_rx = Rep 1 None (One word_char)"

definition KNOWN_SANITIZER_CALL_RE :: regex where
  "KNOWN_SANITIZER_CALL_RE = rx_seq [WordBoundary,
     rx_alt [Lit ''DOMPurify.sanitize'', Lit ''sanitizeHtml'', Lit ''escapeHtml'',
       rx_seq [Lit ''xssFilter'', rx_opt (Lit ''s''), Lit ''.'', word_rx],
       Seq (Lit ''validator.'') (rx_words [''escape'', ''isEmail'', ''isURL'', ''isUUID'', ''isAlphanumeric'', ''blacklist'',
         ''whitelist'', ''normalizeEmail'']),
       rx_seq [Lit ''mysql'', rx_opt (Lit ''2''), Lit ''.escape''],
       Lit ''pg_escape_string'', Lit ''encodeURIComponent'', Lit ''parseInt'', Lit ''Number'',
       rx_seq [Lit ''z'', rx_opt (Lit ''od''), Lit ''.'', word_rx, Lit ''('', Rep 0 None (One (\<lambda>c. c \<notin> set ''()'')), Lit '').'',
         rx_words [''parse'', ''safeParse'']]],
     blank_rx, Lit ''('']"

definition CURATED_SAFE_MARKER_RE :: regex where
  "CURATED_SAFE_MARKER_RE = rx_seq [WordBoundary,
     rx_words [''parameterised'', ''parameterized'', ''prepared'', ''sanitiz'', ''sanitis'', ''escap'', ''validated'', ''allowlist'',
       ''whitelist'', ''encoded'', ''bound param'', ''placeholder''],
     WordBoundary]"

section \<open>The index\<close>

definition push_to :: "string \<Rightarrow> 'a \<Rightarrow> (string, 'a list) jsmap \<Rightarrow> (string, 'a list) jsmap" where
  "push_to key v m = (case jm_get m key of Some arr \<Rightarrow> jm_set key (arr @ [v]) m | None \<Rightarrow> jm_set key [v] m)"

text \<open>Elements without a file are skipped.\<close>

fun index_from :: "('a \<Rightarrow> string option) \<Rightarrow> (string, 'a list) jsmap \<Rightarrow> 'a list \<Rightarrow> (string, 'a list) jsmap" where
  "index_from file m [] = m"
| "index_from file m (x # xs) = index_from file (case file x of None \<Rightarrow> m | Some f \<Rightarrow> push_to f x m) xs"

definition in_file :: "(string, 'a list) jsmap \<Rightarrow> string \<Rightarrow> 'a list" where
  "in_file m f = (case jm_get m f of Some xs \<Rightarrow> xs | None \<Rightarrow> [])"

record app_map_index =
  ix_appMap :: app_map
  ix_routesByFile :: "(string, app_route list) jsmap"
  ix_sourcesByFile :: "(string, taint_source list) jsmap"
  ix_sinksByFile :: "(string, taint_sink list) jsmap"
  ix_secretsByFile :: "(string, env_secret_surface list) jsmap"
  ix_entrypointsByFile :: "(string, app_entrypoint list) jsmap"
  ix_routeById :: "(string, app_route) jsmap"
  ix_flowsBySinkFile :: "(string, taint_flow_edge list) jsmap"

definition route_file :: "app_route \<Rightarrow> string option" where
  "route_file r = (case ro_handler r of None \<Rightarrow> None | Some l \<Rightarrow> if loc_file l = [] then None else Some (loc_file l))"

fun routes_by_id :: "(string, app_route) jsmap \<Rightarrow> app_route list \<Rightarrow> (string, app_route) jsmap" where
  "routes_by_id m [] = m"
| "routes_by_id m (r # rs) = routes_by_id (if truthy (ro_id r) then jm_set (the (ro_id r)) r m else m) rs"

definition AppMapIndex :: "app_map \<Rightarrow> app_map_index" where
  "AppMapIndex m =
     \<lparr>ix_appMap = m, ix_routesByFile = index_from route_file [] (am_routes m),
      ix_sourcesByFile = index_from (\<lambda>s. Some (loc_file (ts_location s))) [] (am_taintSources m),
      ix_sinksByFile = index_from (\<lambda>s. Some (loc_file (tk_location s))) [] (am_taintSinks m),
      ix_secretsByFile = index_from (\<lambda>s. map_option loc_file (sv_location s)) [] (am_envSecretSurfaces m),
      ix_entrypointsByFile = index_from (\<lambda>e. map_option loc_file (en_location e)) [] (am_entrypoints m),
      ix_routeById = routes_by_id [] (am_routes m),
      ix_flowsBySinkFile = index_from (\<lambda>t. Some (loc_file (tf_sinkLocation t))) [] (am_taintFlows m)\<rparr>"

section \<open>Grounding\<close>

definition line_distance :: "nat \<Rightarrow> nat \<Rightarrow> nat" where
  "line_distance a b = (if a \<le> b then b - a else a - b)"

text \<open>The loops of \<open>nearestByLine\<close> and its kin: elements without a line are skipped, the first of the nearest wins.\<close>

fun nearest_from :: "('a \<Rightarrow> nat option) \<Rightarrow> nat \<Rightarrow> ('a \<times> nat) option \<Rightarrow> 'a list \<Rightarrow> 'a option" where
  "nearest_from line_of line best [] = map_option fst best"
| "nearest_from line_of line best (x # xs) =
     (case line_of x of
        None \<Rightarrow> nearest_from line_of line best xs
      | Some l \<Rightarrow> let d = line_distance l line in
          if (case best of None \<Rightarrow> True | Some (b, bd) \<Rightarrow> d < bd)
          then nearest_from line_of line (Some (x, d)) xs else nearest_from line_of line best xs)"

definition pickNearestRoute :: "app_route list \<Rightarrow> nat \<Rightarrow> app_route option" where
  "pickNearestRoute routes line =
     nearest_from (\<lambda>r. Some (case ro_handler r of Some l \<Rightarrow> loc_line l | None \<Rightarrow> line)) line None routes"

definition nearestByLine :: "('a \<Rightarrow> source_location option) \<Rightarrow> 'a list \<Rightarrow> nat \<Rightarrow> 'a option" where
  "nearestByLine location items line = nearest_from (\<lambda>x. map_option loc_line (location x)) line None items"

definition nearestFlowByLine :: "taint_flow_edge list \<Rightarrow> nat \<Rightarrow> taint_flow_edge option" where
  "nearestFlowByLine flows line = nearest_from (\<lambda>t. Some (loc_line (tf_sinkLocation t))) line None flows"

definition exposureFromAuth :: "auth_state \<Rightarrow> bool \<Rightarrow> exposure" where
  "exposureFromAuth authState hasRoute = (if hasRoute \<and> authState = Auth_public then Public else Authed)"

definition pkg_char :: "char \<Rightarrow> bool" where
  "pkg_char c \<longleftrightarrow> CHR ''A'' \<le> c \<and> c \<le> CHR ''Z'' \<or> CHR ''a'' \<le> c \<and> c \<le> CHR ''z'' \<or> is_digit_char c \<or> c \<in> set ''@/._-''"

text \<open>The group of \<open>/([@a-z0-9/._-]+)@\d/i\<close>: the first start with a match, the longest group there.\<close>

fun pkg_at :: "nat \<Rightarrow> string \<Rightarrow> string option" where
  "pkg_at 0 s = None"
| "pkg_at (Suc n) s =
     (case drop (Suc n) s of
        a # d # rest \<Rightarrow> if a = CHR ''@'' \<and> is_digit_char d then Some (take (Suc n) s) else pkg_at n s
      | _ \<Rightarrow> pkg_at n s)"

fun pkg_from :: "string \<Rightarrow> string option" where
  "pkg_from [] = None"
| "pkg_from (c # cs) =
     (case pkg_at (length (takeWhile pkg_char (c # cs))) (c # cs) of Some w \<Rightarrow> Some w | None \<Rightarrow> pkg_from cs)"

definition extractPackageName :: "candidate_finding \<Rightarrow> string option" where
  "extractPackageName cand = pkg_from (cf_evidenceSnippet cand @ '' '' @ (case cf_title cand of None \<Rightarrow> [] | Some t \<Rightarrow> t))"

datatype taint_flow_kind = Cross_file_resolved | Same_file_heuristic | No_flow

record grounding =
  gd_klass :: finding_class
  gd_route :: "app_route option"
  gd_routeId :: "string option"
  gd_authState :: auth_state
  gd_exposure :: exposure
  gd_authGate :: "string option"
  gd_matchedSink :: "taint_sink option"
  gd_matchedSource :: "taint_source option"
  gd_matchedSecretSurface :: "env_secret_surface option"
  gd_matchedEntrypoint :: "app_entrypoint option"
  gd_matchedFlow :: "taint_flow_edge option"
  gd_taintFlowKind :: taint_flow_kind
  gd_sanitizerInterrupts :: bool
  gd_taintReaches :: bool
  gd_corroborated :: bool
  gd_corroborationBasis :: string
  gd_demote :: bool
  gd_demoteReason :: "string option"

definition first_of :: "'a list \<Rightarrow> 'a option" where
  "first_of xs = (case xs of [] \<Rightarrow> None | x # ys \<Rightarrow> Some x)"

definition ground_route :: "candidate_finding \<Rightarrow> app_map_index \<Rightarrow> app_route option" where
  "ground_route cand ix =
     (let file = loc_file (cf_location cand) in
      case pickNearestRoute (in_file (ix_routesByFile ix) file) (loc_line (cf_location cand)) of
        Some r \<Rightarrow> Some r
      | None \<Rightarrow> (case find (\<lambda>s. ts_routeId s \<noteq> None) (in_file (ix_sourcesByFile ix) file) of
          None \<Rightarrow> None
        | Some s \<Rightarrow> if truthy (ts_routeId s) then jm_get (ix_routeById ix) (the (ts_routeId s)) else None))"

definition ground_source :: "candidate_finding \<Rightarrow> app_map_index \<Rightarrow> app_route option \<Rightarrow> taint_source option" where
  "ground_source cand ix route =
     (let sources = in_file (ix_sourcesByFile ix) (loc_file (cf_location cand)) in
      case (case route of None \<Rightarrow> None
            | Some r \<Rightarrow> if truthy (ro_id r) then find (\<lambda>s. ts_routeId s = ro_id r) sources else None) of
        Some s \<Rightarrow> Some s
      | None \<Rightarrow> first_of sources)"

definition described :: "string option \<Rightarrow> string" where
  "described d = (case d of None \<Rightarrow> [] | Some s \<Rightarrow> s)"

text \<open>A resolved flow of the call graph outranks the text heuristic.\<close>

definition taint_verdict :: "finding_class \<Rightarrow> taint_flow_edge option \<Rightarrow> bool \<Rightarrow> bool \<Rightarrow> taint_flow_kind \<times> bool \<times> bool" where
  "taint_verdict klass matchedFlow heuristicInterrupts heuristicReaches =
     (if matchedFlow \<noteq> None then (Cross_file_resolved, False, True)
      else if klass = Injection then (Same_file_heuristic, heuristicInterrupts, heuristicReaches)
      else (No_flow, False, False))"

definition registered_basis :: "app_route option \<Rightarrow> string \<Rightarrow> string" where
  "registered_basis route otherwise = (case route of Some r \<Rightarrow> ''registered route '' @ ro_path r | None \<Rightarrow> otherwise)"

definition corroborate :: "finding_class \<Rightarrow> app_route option \<Rightarrow> app_entrypoint option \<Rightarrow> taint_sink option
    \<Rightarrow> taint_flow_edge option \<Rightarrow> env_secret_surface option \<Rightarrow> string option \<Rightarrow> bool \<Rightarrow> bool \<times> string" where
  "corroborate klass route entrypoint sink flow surface pkg depCorroborated =
     (case klass of
        Injection \<Rightarrow> (sink \<noteq> None \<or> flow \<noteq> None \<or> route \<noteq> None,
          (case flow of
             Some t \<Rightarrow> ''resolved taint flow''
               @ (if truthy (tf_throughFunction t) then '' via '' @ the (tf_throughFunction t) else [])
               @ '' ('' @ sink_kind_str (tf_sinkKind t) @ '')''
           | None \<Rightarrow> (case sink of
                 Some s \<Rightarrow> ''taint sink ('' @ sink_kind_str (tk_kind s) @ '') on the App Map''
               | None \<Rightarrow> registered_basis route ''none'')))
      | Config_class \<Rightarrow> (route \<noteq> None \<or> entrypoint \<noteq> None, registered_basis route ''registered entry point'')
      | Access \<Rightarrow> (route \<noteq> None \<or> entrypoint \<noteq> None, registered_basis route ''registered entry point'')
      | Secret_class \<Rightarrow> (surface \<noteq> None \<or> route \<noteq> None,
          (case surface of Some s \<Rightarrow> ''secret surface '' @ sv_name s | None \<Rightarrow> ''registered route''))
      | Dependency \<Rightarrow> (depCorroborated,
          (if depCorroborated then ''imported/called dependency '' @ the pkg else ''no import-graph reachability''))
      | Other_class \<Rightarrow> (route \<noteq> None \<or> sink \<noteq> None, registered_basis route ''App Map surface''))"

definition demote_reason :: "finding_class \<Rightarrow> bool \<Rightarrow> bool \<Rightarrow> string option" where
  "demote_reason klass corroborated sanitizerInterrupts =
     (if \<not> corroborated
      then Some (if klass = Dependency
        then ''vulnerable dependency is not reachable via the App Map import/third-party graph''
        else ''location is not on a registered route, taint sink, or secret surface in the App Map'')
      else if klass = Injection \<and> sanitizerInterrupts
      then Some ''a validator/sanitizer neutralizes the tainted input before it reaches the sink''
      else None)"

definition groundCandidate :: "candidate_finding \<Rightarrow> app_map_index \<Rightarrow> grounding" where
  "groundCandidate cand ix =
     (let klass = classifyCategory (cf_category cand);
          file = loc_file (cf_location cand);
          line = loc_line (cf_location cand);
          route = ground_route cand ix;
          matchedEntrypoint = first_of (in_file (ix_entrypointsByFile ix) file);
          authState = (case route of Some r \<Rightarrow> ro_authState r | None \<Rightarrow> Auth_unknown);
          matchedSink = (if klass = Injection \<or> klass = Other_class
            then nearestByLine (\<lambda>s. Some (tk_location s)) (in_file (ix_sinksByFile ix) file) line else None);
          matchedSource = (if matchedSink \<noteq> None then ground_source cand ix route else None);
          matchedFlow = (if klass = Injection then nearestFlowByLine (in_file (ix_flowsBySinkFile ix) file) line else None);
          sourceSinkText = js_join '' '' [case matchedSource of None \<Rightarrow> [] | Some s \<Rightarrow> described (ts_description s),
            case matchedSink of None \<Rightarrow> [] | Some s \<Rightarrow> described (tk_description s)];
          pathText = js_join '' '' [sourceSinkText, cf_evidenceSnippet cand];
          heuristicInterrupts = (klass = Injection
            \<and> (rx_test KNOWN_SANITIZER_CALL_RE pathText \<or> rx_test_i CURATED_SAFE_MARKER_RE sourceSinkText));
          heuristicReaches = (klass = Injection \<and> matchedSink \<noteq> None \<and> matchedSource \<noteq> None \<and> \<not> heuristicInterrupts);
          verdict = taint_verdict klass matchedFlow heuristicInterrupts heuristicReaches;
          matchedSecretSurface = (if klass = Secret_class
            then nearestByLine sv_location (in_file (ix_secretsByFile ix) file) line else None);
          pkg = (if klass = Dependency then extractPackageName cand else None);
          depCorroborated = (klass = Dependency \<and> pkg \<noteq> None
            \<and> list_ex (\<lambda>tp. js_includes (tp_name tp) (the pkg)
                 \<or> (case tp_target tp of None \<Rightarrow> False | Some t \<Rightarrow> js_includes t (the pkg))) (am_thirdPartyCalls (ix_appMap ix)));
          result = corroborate klass route matchedEntrypoint matchedSink matchedFlow matchedSecretSurface pkg depCorroborated;
          demoteReason = demote_reason klass (fst result) (fst (snd verdict))
      in \<lparr>gd_klass = klass, gd_route = route, gd_routeId = Option.bind route ro_id, gd_authState = authState,
          gd_exposure = exposureFromAuth authState (route \<noteq> None), gd_authGate = Option.bind route ro_authGate,
          gd_matchedSink = matchedSink, gd_matchedSource = matchedSource, gd_matchedSecretSurface = matchedSecretSurface,
          gd_matchedEntrypoint = matchedEntrypoint, gd_matchedFlow = matchedFlow, gd_taintFlowKind = fst verdict,
          gd_sanitizerInterrupts = fst (snd verdict), gd_taintReaches = snd (snd verdict), gd_corroborated = fst result,
          gd_corroborationBasis = snd result, gd_demote = (demoteReason \<noteq> None), gd_demoteReason = demoteReason\<rparr>)"

end
