(* ===== verification/Correlation.thy ===== *)
theory Correlation
  imports Grounding PrGate "HOL-Library.Word"
begin

text \<open>
  \<open>packages/correlation/src\<close>: \<open>dedup.ts\<close>, \<open>scoring.ts\<close>, \<open>hash.ts\<close>, \<open>hypotheses.ts\<close>, \<open>llm.ts\<close> and
  \<open>correlate.ts\<close>. Layer 2 groups the candidates by root cause, demotes what the application map
  does not corroborate, scores and ranks the rest. The language model, the prompt registry, the
  audit log and the semantic index are effects on a world \<open>'w\<close>; scores are rationals holding the
  value of a double.
\<close>

unbundle bit_operations_syntax

section \<open>Identifiers (hash.ts)\<close>

type_synonym word32 = "32 word"

definition fnv_step :: "word32 \<Rightarrow> char \<Rightarrow> word32" where
  "fnv_step hash c = (hash XOR word_of_nat (of_char c)) * 0x01000193"

function hex_str :: "nat \<Rightarrow> string" where
  "hex_str n = (if n < 16 then [hex_digit n] else hex_str (n div 16) @ [hex_digit (n mod 16)])"
  by auto

termination by (relation "measure id") auto

declare hex_str.simps [simp del]

definition pad_start :: "nat \<Rightarrow> char \<Rightarrow> string \<Rightarrow> string" where
  "pad_start n c s = replicate (n - length s) c @ s"

definition fnv1a :: "string \<Rightarrow> string" where
  "fnv1a input = pad_start 8 CHR ''0'' (hex_str (unat (foldl fnv_step 0x811c9dc5 input)))"

definition makeRootCauseId :: "string \<Rightarrow> string \<Rightarrow> string \<Rightarrow> string" where
  "makeRootCauseId scanId category key = ''rc_'' @ category @ ''_'' @ fnv1a (scanId @ ''|'' @ category @ ''|'' @ key)"

definition makeProbableId :: "string \<Rightarrow> string \<Rightarrow> string" where
  "makeProbableId scanId rootCauseId = ''prob_'' @ fnv1a (scanId @ ''|'' @ rootCauseId)"

section \<open>Weights (taxonomy.ts)\<close>

fun SEVERITY_WEIGHT :: "severity \<Rightarrow> rat" where
  "SEVERITY_WEIGHT Info = fl64 (1 / 10)"
| "SEVERITY_WEIGHT Low = fl64 (3 / 10)"
| "SEVERITY_WEIGHT Medium = 1 / 2"
| "SEVERITY_WEIGHT High = 3 / 4"
| "SEVERITY_WEIGHT Critical = 1"

fun CATEGORY_IMPACT_BASE :: "category \<Rightarrow> rat" where
  "CATEGORY_IMPACT_BASE Sql_injection = fl64 (9 / 10)"
| "CATEGORY_IMPACT_BASE Nosql_injection = fl64 (85 / 100)"
| "CATEGORY_IMPACT_BASE Command_injection = fl64 (95 / 100)"
| "CATEGORY_IMPACT_BASE Xss = fl64 (7 / 10)"
| "CATEGORY_IMPACT_BASE Ssrf = fl64 (8 / 10)"
| "CATEGORY_IMPACT_BASE Path_traversal = 3 / 4"
| "CATEGORY_IMPACT_BASE Insecure_deserialization = fl64 (9 / 10)"
| "CATEGORY_IMPACT_BASE Hardcoded_secret = fl64 (85 / 100)"
| "CATEGORY_IMPACT_BASE Vulnerable_dependency = fl64 (7 / 10)"
| "CATEGORY_IMPACT_BASE Permissive_cors = fl64 (35 / 100)"
| "CATEGORY_IMPACT_BASE Missing_security_headers = 1 / 4"
| "CATEGORY_IMPACT_BASE Insecure_cookie = fl64 (35 / 100)"
| "CATEGORY_IMPACT_BASE Weak_crypto = fl64 (6 / 10)"
| "CATEGORY_IMPACT_BASE Broken_access_control = fl64 (85 / 100)"
| "CATEGORY_IMPACT_BASE Broken_authentication = fl64 (9 / 10)"
| "CATEGORY_IMPACT_BASE Open_redirect = fl64 (4 / 10)"
| "CATEGORY_IMPACT_BASE Xxe = fl64 (7 / 10)"
| "CATEGORY_IMPACT_BASE Csrf = 1 / 2"
| "CATEGORY_IMPACT_BASE Sensitive_data_exposure = fl64 (7 / 10)"
| "CATEGORY_IMPACT_BASE Insufficient_logging = fl64 (2 / 10)"
| "CATEGORY_IMPACT_BASE Idor = fl64 (7 / 10)"
| "CATEGORY_IMPACT_BASE Mass_assignment = fl64 (6 / 10)"
| "CATEGORY_IMPACT_BASE Rate_limit_missing = fl64 (3 / 10)"
| "CATEGORY_IMPACT_BASE Prompt_injection = 3 / 4"
| "CATEGORY_IMPACT_BASE Insecure_configuration = fl64 (35 / 100)"
| "CATEGORY_IMPACT_BASE Other_category = fl64 (4 / 10)"

definition humanize :: "string \<Rightarrow> string" where
  "humanize token = map (\<lambda>c. if c = CHR ''_'' then CHR '' '' else c) token"

section \<open>Root causes (dedup.ts)\<close>

record root_cause_group =
  rg_key :: string
  rg_category :: category
  rg_candidates :: "candidate_finding list"
  rg_representative :: candidate_finding
  rg_grounding :: grounding

definition dedupKey :: "candidate_finding \<Rightarrow> grounding \<Rightarrow> string" where
  "dedupKey cand g =
     (let cat = category_str (cf_category cand); here = loc_file (cf_location cand) in
      if gd_klass g = Injection \<and> gd_matchedSink g \<noteq> None
      then (let l = tk_location (the (gd_matchedSink g)) in cat @ ''@sink:'' @ loc_file l @ '':'' @ nat_str (loc_line l))
      else if gd_klass g = Config_class \<or> gd_klass g = Secret_class then cat @ ''@file:'' @ here
      else if gd_klass g = Dependency
      then cat @ ''@pkg:'' @ (case extractPackageName cand of Some p \<Rightarrow> p | None \<Rightarrow> here)
      else cat @ ''@loc:'' @ here @ '':'' @ nat_str (loc_line (cf_location cand)))"

text \<open>The first of the most severe; on a tie the one on the lowest line.\<close>

fun better_of :: "candidate_finding \<Rightarrow> candidate_finding list \<Rightarrow> candidate_finding" where
  "better_of best [] = best"
| "better_of best (c # cs) =
     (let cw = SEVERITY_WEIGHT (cf_rawSeverity c); bw = SEVERITY_WEIGHT (cf_rawSeverity best) in
      better_of (if cw > bw \<or> cw = bw \<and> loc_line (cf_location c) < loc_line (cf_location best) then c else best) cs)"

fun pickRepresentative :: "candidate_finding list \<Rightarrow> candidate_finding option" where
  "pickRepresentative [] = None"
| "pickRepresentative (c # cs) = Some (better_of c cs)"

text \<open>The loop over the candidates: groundings by identifier and buckets by key, in insertion order.\<close>

fun bucket_from :: "app_map_index \<Rightarrow> (string, grounding) jsmap \<Rightarrow> (string, candidate_finding list) jsmap
    \<Rightarrow> candidate_finding list \<Rightarrow> (string, grounding) jsmap \<times> (string, candidate_finding list) jsmap" where
  "bucket_from ix groundings buckets [] = (groundings, buckets)"
| "bucket_from ix groundings buckets (cand # cands) =
     (let g = groundCandidate cand ix in
      bucket_from ix (jm_set (cf_id cand) g groundings) (push_to (dedupKey cand g) cand buckets) cands)"

definition groupCandidates :: "candidate_finding list \<Rightarrow> app_map_index \<Rightarrow> root_cause_group list" where
  "groupCandidates candidates ix =
     (let (groundings, buckets) = bucket_from ix [] [] candidates in
      map (\<lambda>(key, members). let representative = the (pickRepresentative members) in
             \<lparr>rg_key = key, rg_category = cf_category representative, rg_candidates = members,
              rg_representative = representative,
              rg_grounding = (case jm_get groundings (cf_id representative) of
                 Some g \<Rightarrow> g | None \<Rightarrow> groundCandidate representative ix)\<rparr>) buckets)"

section \<open>Scores (scoring.ts)\<close>

record score_triple =
  sr_reachabilityScore :: rat
  sr_exposureScore :: rat
  sr_impactScore :: rat

definition clamp01 :: "rat \<Rightarrow> rat" where
  "clamp01 n = min 1 (max 0 n)"

definition round3 :: "rat \<Rightarrow> rat" where
  "round3 n = fl64 (of_int (js_round (fl64 (clamp01 n * 1000))) / 1000)"

definition exposureScoreFor :: "auth_state \<Rightarrow> bool \<Rightarrow> rat" where
  "exposureScoreFor authState hasRoute =
     (if \<not> hasRoute then fl64 (4 / 10)
      else case authState of Auth_public \<Rightarrow> 1 | Authenticated \<Rightarrow> 1 / 2 | Role_gated \<Rightarrow> fl64 (35 / 100) | Auth_unknown \<Rightarrow> 1 / 2)"

definition reachabilityScoreFor :: "grounding \<Rightarrow> rat" where
  "reachabilityScoreFor g =
     (case gd_klass g of
        Injection \<Rightarrow>
          (if gd_taintReaches g
           then (if (case gd_matchedSource g of None \<Rightarrow> False | Some s \<Rightarrow> ts_routeId s \<noteq> None \<and> ts_routeId s = gd_routeId g)
                 then fl64 (95 / 100) else fl64 (9 / 10))
           else if gd_matchedSink g \<noteq> None then fl64 (35 / 100) else fl64 (4 / 10))
      | Config_class \<Rightarrow> (if gd_route g \<noteq> None then 1 / 2 else 1 / 4)
      | Secret_class \<Rightarrow> (if gd_matchedSecretSurface g \<noteq> None then fl64 (6 / 10) else fl64 (45 / 100))
      | Dependency \<Rightarrow> fl64 (6 / 10)
      | Access \<Rightarrow> (if gd_route g \<noteq> None then fl64 (6 / 10) else fl64 (4 / 10))
      | Other_class \<Rightarrow> (if gd_route g \<noteq> None \<or> gd_matchedSink g \<noteq> None then 1 / 2 else fl64 (3 / 10)))"

definition impactScoreFor :: "candidate_finding \<Rightarrow> grounding \<Rightarrow> rat" where
  "impactScoreFor cand g =
     (let base = CATEGORY_IMPACT_BASE (cf_category cand);
          sev = SEVERITY_WEIGHT (cf_rawSeverity cand);
          i0 = fl64 (fl64 (fl64 (6 / 10) * base) + fl64 (fl64 (4 / 10) * sev));
          i1 = (if cf_category cand = Permissive_cors \<and> gd_exposure g = Public then fl64 (i0 * (1 / 2)) else i0);
          i2 = (if cf_category cand = Hardcoded_secret \<and> gd_matchedSecretSurface g \<noteq> None then max i1 (fl64 (8 / 10)) else i1);
          i3 = (if gd_klass g = Injection \<and> \<not> gd_taintReaches g then fl64 (i2 * fl64 (85 / 100)) else i2)
      in clamp01 i3)"

definition scoreGrounding :: "candidate_finding \<Rightarrow> grounding \<Rightarrow> score_triple" where
  "scoreGrounding cand g = \<lparr>sr_reachabilityScore = reachabilityScoreFor g,
     sr_exposureScore = exposureScoreFor (gd_authState g) (gd_route g \<noteq> None), sr_impactScore = impactScoreFor cand g\<rparr>"

section \<open>Hypotheses (hypotheses.ts)\<close>

fun authLabel :: "auth_state \<Rightarrow> string" where
  "authLabel Auth_public = ''public''"
| "authLabel Authenticated = ''authenticated''"
| "authLabel Role_gated = ''role-gated''"
| "authLabel Auth_unknown = ''unspecified-auth''"

definition routeLabel :: "grounding \<Rightarrow> string" where
  "routeLabel g = (case gd_route g of Some r \<Rightarrow> ro_path r | None \<Rightarrow> ''an unmapped handler'')"

definition at_loc :: "candidate_finding \<Rightarrow> string" where
  "at_loc cand = loc_file (cf_location cand) @ '':'' @ nat_str (loc_line (cf_location cand))"

definition quote_char :: "char \<Rightarrow> bool" where
  "quote_char c \<longleftrightarrow> c \<in> {CHR 0x27, CHR 0x22, CHR 0x60}"

definition id_start :: "string \<Rightarrow> bool" where
  "id_start s = (case s of [] \<Rightarrow> False | c # cs \<Rightarrow> word_char c \<and> \<not> is_digit_char c)"

text \<open>The group of the first match of \<open>/['"`]([A-Za-z_]\w*)['"`]/\<close>.\<close>

fun quoted_name :: "string \<Rightarrow> string option" where
  "quoted_name [] = None"
| "quoted_name (c # cs) =
     (let rest = dropWhile word_char cs in
      if quote_char c \<and> id_start cs \<and> rest \<noteq> [] \<and> quote_char (hd rest) then Some (takeWhile word_char cs)
      else quoted_name cs)"

text \<open>The group of the first match of \<open>/\.([A-Za-z_]\w*)\b(?!\s*\()/\<close>.\<close>

fun dotted_name :: "string \<Rightarrow> string option" where
  "dotted_name [] = None"
| "dotted_name (c # cs) =
     (if c = CHR ''.'' \<and> id_start cs \<and> \<not> js_startsWith (dropWhile js_white (dropWhile word_char cs)) ''(''
      then Some (takeWhile word_char cs) else dotted_name cs)"

definition paramName :: "grounding \<Rightarrow> string" where
  "paramName g =
     (let desc = (case gd_matchedSource g of None \<Rightarrow> [] | Some s \<Rightarrow> described (ts_description s)) in
      case quoted_name desc of Some n \<Rightarrow> n
      | None \<Rightarrow> (case dotted_name desc of Some n \<Rightarrow> n | None \<Rightarrow> ''input''))"

definition reachabilityHypothesis :: "candidate_finding \<Rightarrow> grounding \<Rightarrow> string" where
  "reachabilityHypothesis cand g =
     (let auth = authLabel (gd_authState g); route = routeLabel g; here = at_loc cand in
      case gd_klass g of
        Injection \<Rightarrow>
          (if gd_taintReaches g
           then ''Tainted input ('' @ humanize (case gd_matchedSource g of Some s \<Rightarrow> source_kind_str (ts_kind s) | None \<Rightarrow> ''request'')
             @ '') enters the '' @ auth @ '' route '' @ route @ '' and flows into a ''
             @ humanize (case gd_matchedSink g of Some s \<Rightarrow> sink_kind_str (tk_kind s) | None \<Rightarrow> ''sink'')
             @ '' at '' @ here @ '' with no validator or sanitizer on the path.''
           else ''A '' @ humanize (case gd_matchedSink g of Some s \<Rightarrow> sink_kind_str (tk_kind s) | None \<Rightarrow> ''dangerous'')
             @ '' sink exists at '' @ here @ '' on the '' @ auth @ '' route '' @ route
             @ ''; a tainted source was not traced statically, so reachability is unproven and kept for human review.'')
      | Config_class \<Rightarrow> ''Security misconfiguration ('' @ humanize (category_str (cf_category cand)) @ '') on the '' @ auth
          @ '' registered route '' @ route @ '' at '' @ here @ ''.''
      | Secret_class \<Rightarrow> ''A hard-coded secret is present in the mapped configuration surface at '' @ here
          @ ''; it is reachable to anyone with source or build access.''
      | Dependency \<Rightarrow> ''The vulnerable dependency at '' @ here @ '' is imported/called via the App Map graph (''
          @ gd_corroborationBasis g @ '').''
      | Access \<Rightarrow> ''An access-control-sensitive handler on the '' @ auth @ '' route '' @ route @ '' at '' @ here @ ''.''
      | Other_class \<Rightarrow> ''Finding at '' @ here @ (if gd_route g \<noteq> None then '' on route '' @ route else [])
          @ '', corroborated by '' @ gd_corroborationBasis g @ ''.'')"

fun EXPLOIT_TEMPLATES :: "category \<Rightarrow> string \<Rightarrow> string \<Rightarrow> string option" where
  "EXPLOIT_TEMPLATES Sql_injection p model = Some (''Supplying `'' @ p @ ''=' OR '1'='1` (or a UNION-based query) lets an attacker read or modify ''
     @ model @ '' beyond intended authorization.'')"
| "EXPLOIT_TEMPLATES Nosql_injection p model = Some (''Supplying an operator payload such as `'' @ p
     @ ''[$ne]=` bypasses the intended query filter and returns unauthorized documents.'')"
| "EXPLOIT_TEMPLATES Command_injection p model = Some (''Supplying `'' @ p
     @ ''=; id` (shell metacharacters) causes the server to execute attacker-controlled OS commands.'')"
| "EXPLOIT_TEMPLATES Xss p model = Some (''Supplying `'' @ p
     @ ''=<img src=x onerror=alert(1)>` causes the payload to execute in a victim's browser session (reflected XSS).'')"
| "EXPLOIT_TEMPLATES Ssrf p model = Some (''Supplying `'' @ p
     @ ''=http://169.254.169.254/` makes the server issue requests to internal/metadata endpoints on the attacker's behalf.'')"
| "EXPLOIT_TEMPLATES Path_traversal p model = Some (''Supplying `'' @ p
     @ ''=../../../../etc/passwd` lets an attacker read files outside the intended directory.'')"
| "EXPLOIT_TEMPLATES Open_redirect p model = Some (''Supplying `'' @ p
     @ ''=https://evil.example` redirects victims to an attacker-controlled site for phishing.'')"
| "EXPLOIT_TEMPLATES Insecure_deserialization p model =
     Some ''A crafted serialized payload can trigger unexpected object instantiation and potentially remote code execution.''"
| "EXPLOIT_TEMPLATES Xxe p model = Some ''A crafted XML document with an external entity can exfiltrate local files or trigger SSRF.''"
| "EXPLOIT_TEMPLATES Permissive_cors p model = Some (''A malicious origin can read responses cross-origin; impact stays limited ''
     @ ''while the endpoint is public and carries no credentials/cookies.'')"
| "EXPLOIT_TEMPLATES Hardcoded_secret p model = Some (''The exposed credential can be used to authenticate directly to the associated ''
     @ ''service, bypassing application controls.'')"
| "EXPLOIT_TEMPLATES Vulnerable_dependency p model = Some (''The known CVE in this dependency is exploitable where the vulnerable ''
     @ ''code path is reachable at runtime.'')"
| "EXPLOIT_TEMPLATES Missing_security_headers p model = Some (''Absent headers (CSP/HSTS/etc.) widen the blast radius of other ''
     @ ''client-side attacks (clickjacking, MIME sniffing, downgrade).'')"
| "EXPLOIT_TEMPLATES Insecure_cookie p model = Some (''Missing Secure/HttpOnly/SameSite flags let a network or XSS attacker steal ''
     @ ''or replay the session cookie.'')"
| "EXPLOIT_TEMPLATES Weak_crypto p model = Some (''The weak algorithm/parameters allow an attacker to recover plaintext or forge ''
     @ ''values that should be protected.'')"
| "EXPLOIT_TEMPLATES Csrf p model = Some (''A forged cross-site request performs a state-changing action using the victim's ''
     @ ''authenticated session.'')"
| "EXPLOIT_TEMPLATES Idor p model = Some (''Incrementing `'' @ p
     @ ''` to another tenant's identifier returns records the caller is not authorized to see.'')"
| "EXPLOIT_TEMPLATES Broken_access_control p model =
     Some ''The missing authorization check lets a lower-privileged caller invoke a privileged action.''"
| "EXPLOIT_TEMPLATES Broken_authentication p model =
     Some ''Weaknesses in the authentication flow let an attacker impersonate a legitimate user.''"
| "EXPLOIT_TEMPLATES _ p model = None"

definition relevantModelName :: "grounding \<Rightarrow> app_map \<Rightarrow> string option" where
  "relevantModelName g m =
     (case am_ormModels m of
        [] \<Rightarrow> None
      | [om] \<Rightarrow> Some (om_name om)
      | om # oms \<Rightarrow>
          (let present = List.map_filter (\<lambda>d. if truthy d then d else None)
                 [Option.bind (gd_matchedSink g) tk_description, Option.bind (gd_matchedSource g) ts_description,
                  map_option ro_path (gd_route g)];
               haystack = js_lower (js_join '' '' present)
           in case find (\<lambda>x. js_includes haystack (js_lower (om_name x)) \<or> js_includes haystack (js_lower (om_name x) @ ''s'')) (om # oms) of
                Some x \<Rightarrow> Some (om_name x) | None \<Rightarrow> Some (om_name om)))"

definition exploitHypothesis :: "candidate_finding \<Rightarrow> grounding \<Rightarrow> app_map \<Rightarrow> string" where
  "exploitHypothesis cand g m =
     (let model = (case relevantModelName g m of Some n \<Rightarrow> (if n = [] then ''the database'' else ''the '' @ n @ '' model'') | None \<Rightarrow> ''the database'') in
      case EXPLOIT_TEMPLATES (cf_category cand) (paramName g) model of
        Some t \<Rightarrow> t
      | None \<Rightarrow> ''If reachable, this '' @ humanize (category_str (cf_category cand))
          @ '' weakness could compromise the confidentiality, integrity, or availability of the affected component.'')"

section \<open>The language model (llm.ts)\<close>

definition correlation_system_prompt :: string where
  "correlation_system_prompt =
     ''You are the correlation-reasoning step of a security scanner. You receive STRUCTURED App Map facts (never source code). ''
     @ ''Ground every judgment ONLY in those facts; never invent routes, sinks, or auth states. ''
     @ ''Return STRICT JSON with keys: reachabilityScore (0-1), impactScore (0-1), reachabilityHypothesis (string), exploitHypothesis (string). ''
     @ ''Do not include any source code in your response.''"

fun method_str :: "http_method \<Rightarrow> string" where
  "method_str GET = ''GET''"
| "method_str POST = ''POST''"
| "method_str PUT = ''PUT''"
| "method_str PATCH = ''PATCH''"
| "method_str DELETE = ''DELETE''"
| "method_str OPTIONS = ''OPTIONS''"
| "method_str HEAD = ''HEAD''"
| "method_str ALL_METHODS = ''ALL''"

fun auth_str :: "auth_state \<Rightarrow> string" where
  "auth_str Auth_public = ''public''"
| "auth_str Authenticated = ''authenticated''"
| "auth_str Role_gated = ''role_gated''"
| "auth_str Auth_unknown = ''unknown''"

fun tool_name :: "tool_source \<Rightarrow> string" where
  "tool_name Semgrep = ''semgrep''"
| "tool_name Gitleaks = ''gitleaks''"
| "tool_name Osv = ''osv''"
| "tool_name Ghsa = ''ghsa''"
| "tool_name Trivy = ''trivy''"
| "tool_name Custom = ''custom''"
| "tool_name Llm_triage = ''llm-triage''"

definition buildCorrelationFacts :: "candidate_finding \<Rightarrow> candidate_finding list \<Rightarrow> grounding \<Rightarrow> score_triple \<Rightarrow> string \<Rightarrow> string \<Rightarrow> json" where
  "buildCorrelationFacts rep members g base reachHypo exploitHypo = JObj
     [(''category'', JStr (category_str (cf_category rep))),
      (''tools'', JArr (map (\<lambda>m. JObj [(''source'', JStr (tool_name (cf_source m))), (''ruleId'', JStr (cf_ruleId m))]) members)),
      (''route'', case gd_route g of
         None \<Rightarrow> JNull
       | Some r \<Rightarrow> JObj ([(''path'', JStr (ro_path r)), (''method'', JStr (method_str (ro_method r))),
             (''authState'', JStr (auth_str (ro_authState r)))]
           @ (if truthy (gd_authGate g) then [(''authGate'', JStr (the (gd_authGate g)))] else []))),
      (''exposure'', JStr (exposure_str (gd_exposure g))),
      (''taintSourceKind'', case gd_matchedSource g of None \<Rightarrow> JNull | Some s \<Rightarrow> JStr (source_kind_str (ts_kind s))),
      (''taintSinkKind'', case gd_matchedSink g of None \<Rightarrow> JNull | Some s \<Rightarrow> JStr (sink_kind_str (tk_kind s))),
      (''sanitizerInterrupts'', JBool (gd_sanitizerInterrupts g)), (''taintReaches'', JBool (gd_taintReaches g)),
      (''location'', JObj [(''file'', JStr (loc_file (cf_location rep))), (''line'', JNum (of_nat (loc_line (cf_location rep))))]),
      (''deterministic'', JObj [(''reachabilityScore'', JNum (sr_reachabilityScore base)),
         (''exposureScore'', JNum (sr_exposureScore base)), (''impactScore'', JNum (sr_impactScore base)),
         (''reachabilityHypothesis'', JStr reachHypo), (''exploitHypothesis'', JStr exploitHypo)])]"

definition buildCorrelationRequest :: "(rat \<Rightarrow> string) \<Rightarrow> json \<Rightarrow> string \<Rightarrow> string \<Rightarrow> llm_request" where
  "buildCorrelationRequest num facts scanId clientId =
     \<lparr>lr_model = None, lr_tier = Some Default_tier, lr_system = Some correlation_system_prompt,
      lr_messages = [plain_message Role_user (the (json_text num facts))], lr_maxTokens = 2048, lr_temperature = Some 0,
      lr_responseFormat = Format_json, lr_rest = JObj [(''stream'', JBool False)],
      lr_metadata = \<lparr>md_scanId = Some scanId, md_clientId = Some clientId, md_layer = Some Layer2, md_purpose = Correlation_purpose\<rparr>\<rparr>"

record parsed_correlation =
  pc_reachabilityScore :: "rat option"
  pc_impactScore :: "rat option"
  pc_reachabilityHypothesis :: "string option"
  pc_exploitHypothesis :: "string option"

definition json_num :: "json \<Rightarrow> rat option" where
  "json_num v = (case v of JNum r \<Rightarrow> Some r | _ \<Rightarrow> None)"

definition json_str :: "json \<Rightarrow> string option" where
  "json_str v = (case v of JStr s \<Rightarrow> if js_trim s \<noteq> [] then Some s else None | _ \<Rightarrow> None)"

definition parseCorrelationResponse :: "(string \<Rightarrow> json option) \<Rightarrow> string \<Rightarrow> parsed_correlation option" where
  "parseCorrelationResponse parse_json content =
     (case parse_json content of
        None \<Rightarrow> None
      | Some obj \<Rightarrow>
          (let parsed = \<lparr>pc_reachabilityScore = json_num (object_field obj ''reachabilityScore''),
                 pc_impactScore = json_num (object_field obj ''impactScore''),
                 pc_reachabilityHypothesis = (case json_str (object_field obj ''reachabilityHypothesis'') of
                    Some s \<Rightarrow> Some s | None \<Rightarrow> json_str (object_field obj ''hypothesis'')),
                 pc_exploitHypothesis = json_str (object_field obj ''exploitHypothesis'')\<rparr>
           in if pc_reachabilityScore parsed \<noteq> None \<or> pc_impactScore parsed \<noteq> None
                \<or> pc_reachabilityHypothesis parsed \<noteq> None \<or> pc_exploitHypothesis parsed \<noteq> None
              then Some parsed else None))"

definition blendScore :: "rat \<Rightarrow> rat option \<Rightarrow> rat \<Rightarrow> rat \<Rightarrow> rat" where
  "blendScore base llm trust maxDelta =
     (case llm of
        None \<Rightarrow> base
      | Some l \<Rightarrow> (let bounded = min maxDelta (max (- maxDelta) (fl64 (l - base))) in clamp01 (fl64 (base + fl64 (bounded * trust)))))"

end
