(* ===== verification/Correlate.thy ===== *)
theory Correlate
  imports Correlation
begin

text \<open>
  \<open>packages/correlation/src/correlate.ts\<close>: the run of layer 2. Effects act on a world \<open>'w\<close>: the
  gateway, its prompt registry, the audit log and the semantic index, each of which may be absent.
  The tuning and the prior shapes are injected predicates. Metrics and logging are left out. The
  dash of the notes, beyond code point 255, is written \<open>-\<close>.
\<close>

section \<open>Inputs\<close>

record semantic_match =
  sm_file :: string
  sm_startLine :: nat
  sm_symbolName :: "string option"
  sm_similarity :: rat

record 'w correlate_effects =
  ce_complete :: "(llm_request \<Rightarrow> 'w \<Rightarrow> (js_error + llm_response) \<times> 'w) option"
  ce_resolvePrompt :: "(string \<Rightarrow> string \<Rightarrow> string \<Rightarrow> 'w \<Rightarrow> (js_error + string) \<times> 'w) option"
  ce_audit :: "(audit_input \<Rightarrow> 'w \<Rightarrow> (js_error + unit) \<times> 'w) option"
  ce_semanticSearch :: "(string \<Rightarrow> nat \<Rightarrow> 'w \<Rightarrow> (js_error + semantic_match list) \<times> 'w) option"

text \<open>
  \<open>ci_num\<close>, \<open>ci_parse\<close> and \<open>ci_datetime\<close> stand for the number printing and \<open>JSON.parse\<close> of the engine and
  the timestamp check of the schema library.
\<close>

record correlate_input =
  ci_clientId :: string
  ci_scanId :: string
  ci_appMap :: app_map
  ci_candidates :: "candidate_finding list"
  ci_now :: string
  ci_useLlm :: "bool option"
  ci_llmScoreTrust :: "rat option"
  ci_llmScoreMaxDelta :: "rat option"
  ci_actorId :: "string option"
  ci_isKnownFalsePositive :: "(category \<Rightarrow> string \<Rightarrow> nat \<Rightarrow> string option \<Rightarrow> bool) option"
  ci_priorConfirmedShapes :: "(category \<Rightarrow> string \<Rightarrow> bool) option"
  ci_num :: "rat \<Rightarrow> string"
  ci_parse :: "string \<Rightarrow> json option"
  ci_datetime :: "string \<Rightarrow> bool"

definition DEFAULT_LLM_TRUST :: rat where "DEFAULT_LLM_TRUST = 1 / 2"

definition DEFAULT_LLM_MAX_DELTA :: rat where "DEFAULT_LLM_MAX_DELTA = fl64 (2 / 10)"

definition CORRELATION_ACTOR :: string where "CORRELATION_ACTOR = ''layer2-correlation''"

definition clampUnit :: "rat \<Rightarrow> rat" where
  "clampUnit n = min 1 (max 0 n)"

definition trust_of :: "correlate_input \<Rightarrow> rat" where
  "trust_of input = clampUnit (case ci_llmScoreTrust input of Some t \<Rightarrow> t | None \<Rightarrow> DEFAULT_LLM_TRUST)"

definition max_delta_of :: "correlate_input \<Rightarrow> rat" where
  "max_delta_of input = clampUnit (case ci_llmScoreMaxDelta input of Some d \<Rightarrow> d | None \<Rightarrow> DEFAULT_LLM_MAX_DELTA)"

definition use_llm :: "'w correlate_effects \<Rightarrow> correlate_input \<Rightarrow> bool" where
  "use_llm eff input \<longleftrightarrow> (case ci_useLlm input of Some b \<Rightarrow> b | None \<Rightarrow> True) \<and> ce_complete eff \<noteq> None"

definition correlation_actor :: "correlate_input \<Rightarrow> audit_actor" where
  "correlation_actor input = \<lparr>ac_type = Agent,
     ac_id = (case ci_actorId input of Some a \<Rightarrow> a | None \<Rightarrow> CORRELATION_ACTOR), ac_role = None\<rparr>"

section \<open>Semantic grounding\<close>

definition SEMANTIC_GROUNDING_TOP_K :: nat where "SEMANTIC_GROUNDING_TOP_K = 3"

definition SEMANTIC_GROUNDING_MIN_SIMILARITY :: rat where "SEMANTIC_GROUNDING_MIN_SIMILARITY = 3 / 4"

definition semanticGroundingNote :: "(string \<Rightarrow> nat \<Rightarrow> 'w \<Rightarrow> (js_error + semantic_match list) \<times> 'w)
    \<Rightarrow> candidate_finding \<Rightarrow> 'w \<Rightarrow> string option \<times> 'w" where
  "semanticGroundingNote search rep w =
     (let trimmed = js_trim (cf_evidenceSnippet rep);
          queryText = (if trimmed \<noteq> [] then trimmed
            else category_str (cf_category rep) @ '' at '' @ loc_file (cf_location rep)) in
      case search queryText SEMANTIC_GROUNDING_TOP_K w of
        (Inl e, w') \<Rightarrow> (None, w')
      | (Inr ms, w') \<Rightarrow>
          (let elsewhere = filter (\<lambda>m. sm_similarity m \<ge> SEMANTIC_GROUNDING_MIN_SIMILARITY
                 \<and> sm_file m \<noteq> loc_file (cf_location rep)) ms;
               cites = js_join '', '' (map (\<lambda>m. sm_file m @ '':'' @ nat_str (sm_startLine m)
                 @ (if truthy (sm_symbolName m) then '' ('' @ the (sm_symbolName m) @ '')'' else [])) elsewhere)
           in (if elsewhere = [] then None
               else Some ('' A semantic search over the repository's code index found structurally similar code at ''
                 @ cites @ '' - worth checking whether the same pattern recurs there.''), w')))"

section \<open>Enrichment by the language model\<close>

record enrichment =
  nr_reach :: rat
  nr_impact :: rat
  nr_reachHypothesis :: string
  nr_exploitHypothesis :: string

definition llm_audit_input :: "correlate_input \<Rightarrow> llm_response \<Rightarrow> audit_input" where
  "llm_audit_input input response =
     \<lparr>ai_clientId = ci_clientId input, ai_scanId = Some (ci_scanId input), ai_actor = correlation_actor input,
      ai_action = ''llm.call'', ai_targetType = Some ''finding'', ai_targetId = None,
      ai_summary = ''correlation reasoning (metadata only)'',
      ai_metadata = [(''purpose'', JStr ''correlation''), (''model'', JStr (rs_model response)),
        (''provider'', JStr (provider_str (rs_provider response))),
        (''inputTokens'', JNum (of_int (inputTokens (rs_usage response)))),
        (''outputTokens'', JNum (of_int (outputTokens (rs_usage response)))),
        (''latencyMs'', JNum (of_int (rs_latencyMs response)))]\<rparr>"

text \<open>What the code does with a response once the call is logged.\<close>

definition enriched_by :: "correlate_input \<Rightarrow> score_triple \<Rightarrow> enrichment \<Rightarrow> llm_response \<Rightarrow> enrichment" where
  "enriched_by input base fallback response =
     (case parseCorrelationResponse (ci_parse input) (rs_content response) of
        None \<Rightarrow> fallback
      | Some p \<Rightarrow>
          \<lparr>nr_reach = blendScore (sr_reachabilityScore base) (pc_reachabilityScore p) (trust_of input) (max_delta_of input),
           nr_impact = blendScore (sr_impactScore base) (pc_impactScore p) (trust_of input) (max_delta_of input),
           nr_reachHypothesis = (case pc_reachabilityHypothesis p of Some h \<Rightarrow> h | None \<Rightarrow> nr_reachHypothesis fallback),
           nr_exploitHypothesis = (case pc_exploitHypothesis p of Some h \<Rightarrow> h | None \<Rightarrow> nr_exploitHypothesis fallback)\<rparr>)"

text \<open>Any error of the registry, the gateway or the audit log leaves the deterministic result.\<close>

definition runLlmEnrichment :: "'w correlate_effects \<Rightarrow> correlate_input
    \<Rightarrow> (llm_request \<Rightarrow> 'w \<Rightarrow> (js_error + llm_response) \<times> 'w) \<Rightarrow> root_cause_group \<Rightarrow> score_triple \<Rightarrow> string \<Rightarrow> string
    \<Rightarrow> 'w \<Rightarrow> enrichment \<times> 'w" where
  "runLlmEnrichment eff input ask grp base reachHypo exploitHypo w =
     (let fallback = \<lparr>nr_reach = sr_reachabilityScore base, nr_impact = sr_impactScore base,
            nr_reachHypothesis = reachHypo, nr_exploitHypothesis = exploitHypo\<rparr>;
          facts = buildCorrelationFacts (rg_representative grp) (rg_candidates grp) (rg_grounding grp) base reachHypo exploitHypo;
          request = buildCorrelationRequest (ci_num input) facts (ci_scanId input) (ci_clientId input);
          system = the (lr_system request) in
      case (case ce_resolvePrompt eff of None \<Rightarrow> (Inr system, w)
            | Some resolve \<Rightarrow> resolve ''correlation.system'' system (ci_clientId input) w) of
        (Inl e, w1) \<Rightarrow> (fallback, w1)
      | (Inr resolved, w1) \<Rightarrow>
          (case ask (request\<lparr>lr_system := Some resolved\<rparr>) w1 of
             (Inl e, w2) \<Rightarrow> (fallback, w2)
           | (Inr response, w2) \<Rightarrow>
               (case (case ce_audit eff of None \<Rightarrow> (Inr (), w2)
                      | Some record_event \<Rightarrow> record_event (llm_audit_input input response) w2) of
                  (Inl e, w3) \<Rightarrow> (fallback, w3)
                | (Inr u, w3) \<Rightarrow> (enriched_by input base fallback response, w3))))"

section \<open>Schemas\<close>

definition location_valid :: "source_location \<Rightarrow> bool" where
  "location_valid l \<longleftrightarrow> loc_file l \<noteq> []"

definition cwe_valid :: "string \<Rightarrow> bool" where
  "cwe_valid s \<longleftrightarrow> take 4 s = ''CWE-'' \<and> drop 4 s \<noteq> [] \<and> list_all is_digit_char (drop 4 s)"

definition candidate_valid :: "(string \<Rightarrow> bool) \<Rightarrow> candidate_finding \<Rightarrow> bool" where
  "candidate_valid datetime c \<longleftrightarrow> cf_id c \<noteq> [] \<and> cf_scanId c \<noteq> [] \<and> cf_clientId c \<noteq> [] \<and> cf_ruleId c \<noteq> []
     \<and> list_all cwe_valid (cf_cwe c) \<and> location_valid (cf_location c) \<and> datetime (cf_createdAt c)"

definition score01_valid :: "rat \<Rightarrow> bool" where
  "score01_valid r \<longleftrightarrow> 0 \<le> r \<and> r \<le> 1"

definition probable_valid :: "(string \<Rightarrow> bool) \<Rightarrow> probable_finding \<Rightarrow> bool" where
  "probable_valid datetime f \<longleftrightarrow> pf_id f \<noteq> [] \<and> pf_scanId f \<noteq> [] \<and> pf_clientId f \<noteq> [] \<and> pf_rootCauseId f \<noteq> []
     \<and> list_all (\<lambda>i. i \<noteq> []) (pf_mergedCandidateIds f) \<and> pf_routeId f \<noteq> Some [] \<and> location_valid (pf_location f)
     \<and> score01_valid (pf_reachabilityScore f) \<and> score01_valid (pf_exposureScore f) \<and> score01_valid (pf_impactScore f)
     \<and> 0 < pf_rank f \<and> datetime (pf_createdAt f)"

definition parseProbable :: "(string \<Rightarrow> bool) \<Rightarrow> probable_finding \<Rightarrow> js_error + probable_finding" where
  "parseProbable datetime f = (if probable_valid datetime f then Inr f else Inl (Untyped ''ZodError''))"

definition parseLayer2Output :: "(string \<Rightarrow> bool) \<Rightarrow> probable_finding list \<Rightarrow> candidate_finding list \<Rightarrow> js_error + layer_output" where
  "parseLayer2Output datetime ps ds =
     (if list_all (probable_valid datetime) ps \<and> list_all (candidate_valid datetime) ds
      then Inr (Layer2_output ps ds) else Inl (Untyped ''ZodError''))"

section \<open>The run\<close>

record pending_probable =
  pn_build :: "nat \<Rightarrow> js_error + probable_finding"
  pn_combined :: rat
  pn_impact :: rat
  pn_reach :: rat
  pn_severity :: rat
  pn_category :: string
  pn_rootCauseId :: string
  pn_priorShapeMatched :: bool

definition comparePending :: "pending_probable \<Rightarrow> pending_probable \<Rightarrow> rat" where
  "comparePending a b =
     (if pn_combined b \<noteq> pn_combined a then pn_combined b - pn_combined a
      else if pn_impact b \<noteq> pn_impact a then pn_impact b - pn_impact a
      else if pn_reach b \<noteq> pn_reach a then pn_reach b - pn_reach a
      else if pn_severity b \<noteq> pn_severity a then pn_severity b - pn_severity a
      else if pn_priorShapeMatched a \<noteq> pn_priorShapeMatched b then (if pn_priorShapeMatched a then -1 else 1)
      else if pn_category a \<noteq> pn_category b then (if pn_category a < pn_category b then -1 else 1)
      else if pn_rootCauseId a < pn_rootCauseId b then -1 else if pn_rootCauseId a > pn_rootCauseId b then 1 else 0)"

datatype group_verdict = Demoted "candidate_finding list" audit_input | Promoted pending_probable

definition known_false_positive :: "correlate_input \<Rightarrow> candidate_finding \<Rightarrow> bool" where
  "known_false_positive input rep =
     (case ci_isKnownFalsePositive input of None \<Rightarrow> False
      | Some is_fp \<Rightarrow> is_fp (cf_category rep) (loc_file (cf_location rep)) (loc_line (cf_location rep))
          (if cf_ruleId rep \<noteq> [] then Some (cf_ruleId rep) else None))"

definition demotion_reason :: "bool \<Rightarrow> grounding \<Rightarrow> string" where
  "demotion_reason knownFalsePositive g =
     (if knownFalsePositive
      then (if gd_demote g
            then (case gd_demoteReason g of Some r \<Rightarrow> r | None \<Rightarrow> ''uncorroborated'')
              @ ''; also matches a known false positive in the regression corpus ('' @ [CHR 0xA7] @ ''15)''
            else ''matches a known false positive in the regression corpus ('' @ [CHR 0xA7] @ ''15)'')
      else (case gd_demoteReason g of Some r \<Rightarrow> r | None \<Rightarrow> ''uncorroborated by the App Map''))"

definition demoted_audit_input :: "correlate_input \<Rightarrow> root_cause_group \<Rightarrow> bool \<Rightarrow> audit_input" where
  "demoted_audit_input input grp knownFalsePositive =
     (let rep = rg_representative grp; g = rg_grounding grp; reason = demotion_reason knownFalsePositive g in
      \<lparr>ai_clientId = ci_clientId input, ai_scanId = Some (ci_scanId input), ai_actor = correlation_actor input,
       ai_action = ''finding.demoted'', ai_targetType = Some ''candidate'', ai_targetId = None,
       ai_summary = category_str (cf_category rep) @ '' demoted: '' @ reason,
       ai_metadata = [(''category'', JStr (category_str (cf_category rep))), (''reason'', JStr reason),
         (''knownFalsePositive'', JBool knownFalsePositive), (''corroborationBasis'', JStr (gd_corroborationBasis g)),
         (''candidateIds'', JArr (map (\<lambda>c. JStr (cf_id c)) (rg_candidates grp)))]\<rparr>)"

definition prior_shape_matched :: "correlate_input \<Rightarrow> candidate_finding \<Rightarrow> bool" where
  "prior_shape_matched input rep =
     (case ci_priorConfirmedShapes input of None \<Rightarrow> False
      | Some shapes \<Rightarrow> shapes (cf_category rep) (loc_file (cf_location rep)))"

definition prior_shape_note :: "candidate_finding \<Rightarrow> string" where
  "prior_shape_note rep = '' A structurally similar '' @ category_str (cf_category rep) @ '' finding elsewhere in this ''
     @ ''repository was confirmed exploitable in an earlier scan - treat this as a ''
     @ ''stronger-than-usual candidate worth prioritizing (informational prior; verify independently).''"

text \<open>The finding a promoted group becomes, but for its rank.\<close>

definition probable_of :: "correlate_input \<Rightarrow> root_cause_group \<Rightarrow> rat \<Rightarrow> rat \<Rightarrow> string \<Rightarrow> string \<Rightarrow> nat \<Rightarrow> probable_finding" where
  "probable_of input grp rch impact reachHypo exploitHypo rank =
     (let rep = rg_representative grp; g = rg_grounding grp;
          rootCauseId = makeRootCauseId (ci_scanId input) (category_str (cf_category rep)) (rg_key grp) in
      \<lparr>pf_id = makeProbableId (ci_scanId input) rootCauseId, pf_scanId = ci_scanId input, pf_clientId = ci_clientId input,
       pf_rootCauseId = rootCauseId, pf_category = cf_category rep, pf_mergedCandidateIds = map cf_id (rg_candidates grp),
       pf_reachabilityHypothesis = reachHypo, pf_exploitHypothesis = exploitHypo, pf_exposure = gd_exposure g,
       pf_authGate = (if truthy (gd_authGate g) then gd_authGate g else None),
       pf_routeId = (if truthy (gd_routeId g) then gd_routeId g else None), pf_location = cf_location rep,
       pf_reachabilityScore = round3 rch,
       pf_exposureScore = round3 (sr_exposureScore (scoreGrounding rep g)), pf_impactScore = round3 impact,
       pf_rank = rank, pf_createdAt = ci_now input\<rparr>)"

definition promote_group :: "'w correlate_effects \<Rightarrow> correlate_input \<Rightarrow> root_cause_group \<Rightarrow> 'w \<Rightarrow> pending_probable \<times> 'w" where
  "promote_group eff input grp w =
     (let rep = rg_representative grp; g = rg_grounding grp;
          base = scoreGrounding rep g;
          exposureScore = sr_exposureScore base;
          reachHypo0 = reachabilityHypothesis rep g;
          exploitHypo0 = exploitHypothesis rep g (ci_appMap input);
          (en, w1) = (if use_llm eff input
            then runLlmEnrichment eff input (the (ce_complete eff)) grp base reachHypo0 exploitHypo0 w
            else (\<lparr>nr_reach = sr_reachabilityScore base, nr_impact = sr_impactScore base,
                   nr_reachHypothesis = reachHypo0, nr_exploitHypothesis = exploitHypo0\<rparr>, w));
          (note, w2) = (case ce_semanticSearch eff of None \<Rightarrow> (None, w1) | Some s \<Rightarrow> semanticGroundingNote s rep w1);
          reachHypo1 = nr_reachHypothesis en @ (if truthy note then the note else []);
          matched = prior_shape_matched input rep;
          reachHypo = (if matched then reachHypo1 @ prior_shape_note rep else reachHypo1)
      in (\<lparr>pn_build = (\<lambda>rank. parseProbable (ci_datetime input)
             (probable_of input grp (nr_reach en) (nr_impact en) reachHypo (nr_exploitHypothesis en) rank)),
           pn_combined = fl64 (fl64 (nr_reach en * exposureScore) * nr_impact en), pn_impact = nr_impact en,
           pn_reach = nr_reach en, pn_severity = SEVERITY_WEIGHT (cf_rawSeverity rep),
           pn_category = category_str (cf_category rep),
           pn_rootCauseId = makeRootCauseId (ci_scanId input) (category_str (cf_category rep)) (rg_key grp),
           pn_priorShapeMatched = matched\<rparr>, w2))"

definition demotes :: "correlate_input \<Rightarrow> root_cause_group \<Rightarrow> bool" where
  "demotes input grp \<longleftrightarrow> gd_demote (rg_grounding grp) \<or> known_false_positive input (rg_representative grp)"

fun correlate_groups :: "'w correlate_effects \<Rightarrow> correlate_input \<Rightarrow> root_cause_group list \<Rightarrow> 'w
    \<Rightarrow> group_verdict list \<times> 'w" where
  "correlate_groups eff input [] w = ([], w)"
| "correlate_groups eff input (grp # grps) w =
     (if demotes input grp
      then (let (vs, w') = correlate_groups eff input grps w in
            (Demoted (rg_candidates grp) (demoted_audit_input input grp
               (known_false_positive input (rg_representative grp))) # vs, w'))
      else (let (p, w1) = promote_group eff input grp w; (vs, w2) = correlate_groups eff input grps w1 in
            (Promoted p # vs, w2)))"

fun pendings :: "group_verdict list \<Rightarrow> pending_probable list" where
  "pendings [] = []"
| "pendings (Promoted p # vs) = p # pendings vs"
| "pendings (Demoted cs a # vs) = pendings vs"

fun demoted_of :: "group_verdict list \<Rightarrow> candidate_finding list" where
  "demoted_of [] = []"
| "demoted_of (Promoted p # vs) = demoted_of vs"
| "demoted_of (Demoted cs a # vs) = cs @ demoted_of vs"

fun demoted_audits :: "group_verdict list \<Rightarrow> audit_input list" where
  "demoted_audits [] = []"
| "demoted_audits (Promoted p # vs) = demoted_audits vs"
| "demoted_audits (Demoted cs a # vs) = a # demoted_audits vs"

fun build_from :: "nat \<Rightarrow> pending_probable list \<Rightarrow> js_error + probable_finding list" where
  "build_from i [] = Inr []"
| "build_from i (p # ps) = ebind (pn_build p (i + 1)) (\<lambda>f. ebind (build_from (i + 1) ps) (\<lambda>fs. Inr (f # fs)))"

definition promoted_audit_input :: "correlate_input \<Rightarrow> probable_finding \<Rightarrow> audit_input" where
  "promoted_audit_input input p =
     \<lparr>ai_clientId = ci_clientId input, ai_scanId = Some (ci_scanId input), ai_actor = correlation_actor input,
      ai_action = ''finding.promoted_probable'', ai_targetType = Some ''finding'', ai_targetId = Some (pf_id p),
      ai_summary = category_str (pf_category p) @ '' promoted to probable (rank '' @ nat_str (pf_rank p) @ '')'',
      ai_metadata = [(''category'', JStr (category_str (pf_category p))), (''rank'', JNum (of_nat (pf_rank p))),
        (''exposure'', JStr (exposure_str (pf_exposure p))), (''reachabilityScore'', JNum (pf_reachabilityScore p)),
        (''exposureScore'', JNum (pf_exposureScore p)), (''impactScore'', JNum (pf_impactScore p)),
        (''mergedCandidateIds'', JArr (map JStr (pf_mergedCandidateIds p)))]\<rparr>"

fun append_all :: "(audit_input \<Rightarrow> 'w \<Rightarrow> (js_error + unit) \<times> 'w) \<Rightarrow> audit_input list \<Rightarrow> 'w \<Rightarrow> (js_error + unit) \<times> 'w" where
  "append_all record_event [] w = (Inr (), w)"
| "append_all record_event (a # es) w = (case record_event a w of (Inl e, w') \<Rightarrow> (Inl e, w') | (Inr u, w') \<Rightarrow> append_all record_event es w')"

definition correlate :: "'w correlate_effects \<Rightarrow> correlate_input \<Rightarrow> 'w \<Rightarrow> (js_error + layer_output) \<times> 'w" where
  "correlate eff input w =
     (if app_map.am_id (ci_appMap input) = []
      then (Inl (Untyped ''correlate: an App Map is required before correlation can run''), w)
      else
        (let (verdicts, w1) = correlate_groups eff input
               (groupCandidates (ci_candidates input) (AppMapIndex (ci_appMap input))) w;
             sorted1 = js_sort (\<lambda>a b. comparePending a b \<le> 0) (pendings verdicts) in
         case build_from 0 sorted1 of
           Inl e \<Rightarrow> (Inl e, w1)
         | Inr probable \<Rightarrow>
             (case (case ce_audit eff of None \<Rightarrow> (Inr (), w1)
                    | Some record_event \<Rightarrow> append_all record_event (map (promoted_audit_input input) probable @ demoted_audits verdicts) w1) of
                (Inl e, w2) \<Rightarrow> (Inl e, w2)
              | (Inr u, w2) \<Rightarrow> (parseLayer2Output (ci_datetime input) probable (demoted_of verdicts), w2))))"

end
