(* ===== verification/ConfirmStatic.thy ===== *)
theory ConfirmStatic
  imports Correlate LiveGuard
begin

text \<open>
  \<open>packages/confirm/src\<close>, the static half of layer 3: \<open>taxonomy.ts\<close>, \<open>heuristics\<close>,
  \<open>structural-gate.ts\<close> and \<open>static.ts\<close>. A probable finding is confirmed by a data flow of the
  application map from a source to a dangerous sink; the model reviews it through effects on a
  world \<open>'w\<close>. Arrows and dashes of the messages are written in ASCII.
\<close>

section \<open>Effects that may fail\<close>

type_synonym ('w, 'a) io = "'w \<Rightarrow> (js_error + 'a) \<times> 'w"

definition io_return :: "'a \<Rightarrow> ('w, 'a) io" where
  "io_return a w = (Inr a, w)"

definition io_bind :: "('w, 'a) io \<Rightarrow> ('a \<Rightarrow> ('w, 'b) io) \<Rightarrow> ('w, 'b) io" where
  "io_bind m f w = (case m w of (Inl e, w') \<Rightarrow> (Inl e, w') | (Inr a, w') \<Rightarrow> f a w')"

lemma io_return_simps [simp]: "fst (io_return a w) = Inr a" "snd (io_return a w) = w"
  by (simp_all add: io_return_def)

lemma io_bind_return [simp]: "io_bind (io_return a) f = f a"
  by (rule ext) (simp add: io_bind_def io_return_def)

lemma io_bind_Inr:
  "io_bind m f w = (Inr b, w'') \<longleftrightarrow> (\<exists>a w'. m w = (Inr a, w') \<and> f a w' = (Inr b, w''))"
  by (auto simp: io_bind_def split: prod.splits sum.splits)

lemma io_return_Inr [simp]: "io_return a w = (Inr b, w') \<longleftrightarrow> b = a \<and> w' = w"
  by (auto simp: io_return_def)

section \<open>Classification (taxonomy.ts)\<close>

fun DATAFLOW_SINK_KINDS :: "category \<Rightarrow> taint_sink_kind list" where
  "DATAFLOW_SINK_KINDS Sql_injection = [Sql_query, Orm_raw_query]"
| "DATAFLOW_SINK_KINDS Nosql_injection = [Sql_query, Orm_raw_query]"
| "DATAFLOW_SINK_KINDS Command_injection = [Command_exec, Eval]"
| "DATAFLOW_SINK_KINDS Xss = [Html_render, Template_render, Http_response]"
| "DATAFLOW_SINK_KINDS Ssrf = [Http_client]"
| "DATAFLOW_SINK_KINDS Path_traversal = [Fs_read, Fs_write]"
| "DATAFLOW_SINK_KINDS Open_redirect = [Redirect]"
| "DATAFLOW_SINK_KINDS Insecure_deserialization = [Deserialize]"
| "DATAFLOW_SINK_KINDS Xxe = [Deserialize]"
| "DATAFLOW_SINK_KINDS _ = []"

definition isDataFlowConfirmable :: "category \<Rightarrow> bool" where
  "isDataFlowConfirmable c \<longleftrightarrow> DATAFLOW_SINK_KINDS c \<noteq> []"

definition RAW_SINK_KINDS :: "taint_sink_kind list" where
  "RAW_SINK_KINDS = [Orm_raw_query, Command_exec, Eval, Deserialize, Html_render, Template_render]"

definition UNSAFE_MARKERS :: "string list" where
  "UNSAFE_MARKERS = [''unsafe'', ''queryrawunsafe'', ''executerawunsafe'', ''dangerouslysetinnerhtml'', ''innerhtml'',
     ''${'', ''eval('', ''exec('', ''child_process'', ''string interpolation'', ''interpolat'', ''concat'']"

definition SAFE_MARKERS :: "string list" where
  "SAFE_MARKERS = [''parameterized'', ''parameterised'', ''prepared'', ''sanitiz'', ''sanitis'', ''escap'', ''validated'',
     ''allowlist'', ''whitelist'', ''encoded'', ''dompurify'', ''findmany'', ''findunique'', ''findfirst'', ''where:'',
     ''placeholder'', ''bound param'']"

text \<open>A parameter pattern: what precedes its group of word characters, and what follows it.\<close>

type_synonym param_pattern = "regex \<times> regex"

record resolved_heuristics =
  rh_unsafeMarkers :: "string list"
  rh_safeMarkers :: "string list"
  rh_paramPatterns :: "param_pattern list"
  rh_rawSinkKinds :: "taint_sink_kind list"

record sink_assessment =
  sa_dangerous :: bool
  sa_sanitizer :: "string option"
  sa_reason :: string

definition quoted_marker :: "string \<Rightarrow> string" where
  "quoted_marker k = CHR 0x22 # k @ [CHR 0x22]"

definition assessSink :: "taint_sink \<Rightarrow> resolved_heuristics \<Rightarrow> sink_assessment" where
  "assessSink sink extra =
     (let d = js_lower (described (tk_description sink));
          unsafe = find (js_includes d) (UNSAFE_MARKERS @ rh_unsafeMarkers extra);
          safe = find (js_includes d) (SAFE_MARKERS @ rh_safeMarkers extra);
          raw = tk_kind sink \<in> set (RAW_SINK_KINDS @ rh_rawSinkKinds extra)
      in case (unsafe, safe) of
           (Some u, None) \<Rightarrow> \<lparr>sa_dangerous = True, sa_sanitizer = None,
              sa_reason = ''unsanitized sink construct ('' @ quoted_marker u @ '')''\<rparr>
         | (None, Some s) \<Rightarrow> \<lparr>sa_dangerous = False, sa_sanitizer = Some s,
              sa_reason = ''sink is sanitized/parameterized ('' @ quoted_marker s @ '')''\<rparr>
         | (Some u, Some s) \<Rightarrow> \<lparr>sa_dangerous = False, sa_sanitizer = Some s,
              sa_reason = ''ambiguous sink (both unsafe and safe markers); treated as sanitized (fail-safe)''\<rparr>
         | (None, None) \<Rightarrow>
             (if raw
              then \<lparr>sa_dangerous = True, sa_sanitizer = None,
                sa_reason = ''raw sink kind '' @ quoted_marker (sink_kind_str (tk_kind sink)) @ '' with no sanitizer on the path''\<rparr>
              else \<lparr>sa_dangerous = False, sa_sanitizer = None,
                sa_reason = ''sink kind '' @ quoted_marker (sink_kind_str (tk_kind sink))
                  @ '' shows no evidence of an unsanitized construct (fail-safe)''\<rparr>))"

fun BASE_SEVERITY :: "category \<Rightarrow> severity" where
  "BASE_SEVERITY Sql_injection = Critical"
| "BASE_SEVERITY Command_injection = Critical"
| "BASE_SEVERITY Insecure_deserialization = Critical"
| "BASE_SEVERITY Nosql_injection = High"
| "BASE_SEVERITY Xss = High"
| "BASE_SEVERITY Ssrf = High"
| "BASE_SEVERITY Path_traversal = High"
| "BASE_SEVERITY Xxe = High"
| "BASE_SEVERITY Broken_access_control = High"
| "BASE_SEVERITY Broken_authentication = High"
| "BASE_SEVERITY Idor = High"
| "BASE_SEVERITY Hardcoded_secret = High"
| "BASE_SEVERITY Sensitive_data_exposure = High"
| "BASE_SEVERITY Open_redirect = Medium"
| "BASE_SEVERITY Csrf = Medium"
| "BASE_SEVERITY Permissive_cors = Medium"
| "BASE_SEVERITY Missing_security_headers = Medium"
| "BASE_SEVERITY Insecure_cookie = Medium"
| "BASE_SEVERITY Weak_crypto = Medium"
| "BASE_SEVERITY Vulnerable_dependency = Medium"
| "BASE_SEVERITY Mass_assignment = Medium"
| "BASE_SEVERITY Rate_limit_missing = Low"
| "BASE_SEVERITY Insufficient_logging = Low"
| "BASE_SEVERITY Prompt_injection = High"
| "BASE_SEVERITY Insecure_configuration = Medium"
| "BASE_SEVERITY Other_category = Low"

definition baseSeverityForCategory :: "category \<Rightarrow> severity" where
  "baseSeverityForCategory c = BASE_SEVERITY c"

text \<open>One step down the order of the severities, which ends at the lowest.\<close>

fun one_notch_down :: "severity \<Rightarrow> severity" where
  "one_notch_down Info = Info"
| "one_notch_down Low = Info"
| "one_notch_down Medium = Low"
| "one_notch_down High = Medium"
| "one_notch_down Critical = High"

definition deriveSeverity :: "category \<Rightarrow> exposure \<Rightarrow> severity" where
  "deriveSeverity c x = (let base = BASE_SEVERITY c in if x = Public \<or> base = Critical then base else one_notch_down base)"

fun CATEGORY_IMPACT :: "category \<Rightarrow> string option" where
  "CATEGORY_IMPACT Sql_injection = Some (''An attacker can read or modify arbitrary database contents and may escalate to write or RCE ''
     @ ''depending on DB privileges.'')"
| "CATEGORY_IMPACT Nosql_injection = Some ''An attacker can bypass query logic to read or alter unauthorized documents.''"
| "CATEGORY_IMPACT Command_injection = Some ''An attacker can execute arbitrary OS commands on the host.''"
| "CATEGORY_IMPACT Xss = Some ''Arbitrary script executes in the victim's browser session, enabling session theft and account takeover.''"
| "CATEGORY_IMPACT Ssrf = Some ''The server can be coerced into making attacker-controlled requests to internal services.''"
| "CATEGORY_IMPACT Path_traversal = Some ''An attacker can read or write files outside the intended directory.''"
| "CATEGORY_IMPACT Open_redirect = Some ''Users can be redirected to attacker-controlled sites for phishing or token theft.''"
| "CATEGORY_IMPACT Insecure_deserialization = Some ''Untrusted data is deserialized, enabling object injection or RCE.''"
| "CATEGORY_IMPACT Xxe = Some ''External-entity resolution enables file disclosure or SSRF.''"
| "CATEGORY_IMPACT _ = None"

definition deriveImpact :: "category \<Rightarrow> string \<Rightarrow> string" where
  "deriveImpact c hypothesis =
     (let base = (case CATEGORY_IMPACT c of Some t \<Rightarrow> t | None \<Rightarrow> ''Confirmed '' @ tx_title (CATEGORY_TAXONOMY c) @ ''.'');
          hyp = js_trim hypothesis
      in if hyp \<noteq> [] then base @ '' '' @ hyp else base)"

definition deriveTitle :: "category \<Rightarrow> app_route option \<Rightarrow> string \<Rightarrow> nat \<Rightarrow> string option \<Rightarrow> string" where
  "deriveTitle c route file line param =
     (let t = tx_title (CATEGORY_TAXONOMY c) in
      case route of
        Some r \<Rightarrow> t @ '' in '' @ method_str (ro_method r) @ '' '' @ ro_path r
          @ (if truthy param then '' ('' @ the param @ '' parameter)'' else [])
      | None \<Rightarrow> t @ '' at '' @ file @ '':'' @ nat_str line)"

definition quote_rx :: regex where
  "quote_rx = One (\<lambda>c. c = CHR 0x27 \<or> c = CHR 0x22)"

definition PARAM_PATTERNS :: "param_pattern list" where
  "PARAM_PATTERNS = [(rx_seq [Lit ''.get('', quote_rx], Seq quote_rx (Lit '')'')), (Lit ''searchParams.'', Lit []),
     (Lit ''.query.'', Lit []), (Lit ''.body.'', Lit []), (Seq WordBoundary (Lit ''params.''), Lit []),
     (rx_seq [WordBoundary, Lit ''cookie'', rx_opt (Lit ''s''), Lit ''.''], Lit [])]"

text \<open>The group takes as many word characters as the rest of the pattern allows.\<close>

fun group_at :: "regex \<Rightarrow> nat \<Rightarrow> string \<Rightarrow> string option" where
  "group_at rx 0 s = None"
| "group_at rx (Suc n) s =
     (if rx_ends rx (Some (s ! n), drop (Suc n) s) \<noteq> [] then Some (take (Suc n) s) else group_at rx n s)"

definition group_here :: "param_pattern \<Rightarrow> rx_pos \<Rightarrow> string option" where
  "group_here p pos =
     (case List.map_filter (\<lambda>(prev, rest). group_at (snd p) (length (takeWhile word_char rest)) rest) (rx_ends (fst p) pos) of
        [] \<Rightarrow> None | w # ws \<Rightarrow> Some w)"

fun group_from :: "param_pattern \<Rightarrow> char option \<Rightarrow> string \<Rightarrow> string option" where
  "group_from p prev [] = group_here p (prev, [])"
| "group_from p prev (c # cs) = (case group_here p (prev, c # cs) of Some w \<Rightarrow> Some w | None \<Rightarrow> group_from p (Some c) cs)"

definition extractParam :: "string option \<Rightarrow> resolved_heuristics \<Rightarrow> string option" where
  "extractParam description extra =
     (if \<not> truthy description then None
      else case List.map_filter (\<lambda>p. group_from p None (the description)) (PARAM_PATTERNS @ rh_paramPatterns extra) of
             [] \<Rightarrow> None | w # ws \<Rightarrow> Some w)"

section \<open>Heuristics of the languages\<close>

record confirmation_heuristics =
  hp_id :: language
  hp_appliesTo :: "language list \<Rightarrow> bool"
  hp_unsafeMarkers :: "string list"
  hp_safeMarkers :: "string list"
  hp_paramPatterns :: "param_pattern list"
  hp_rawSinkKinds :: "taint_sink_kind list"

definition typescriptHeuristics :: confirmation_heuristics where
  "typescriptHeuristics = \<lparr>hp_id = Typescript, hp_appliesTo = (\<lambda>ls. Typescript \<in> set ls \<or> Javascript \<in> set ls),
     hp_unsafeMarkers = [], hp_safeMarkers = [], hp_paramPatterns = [], hp_rawSinkKinds = []\<rparr>"

definition pythonHeuristics :: confirmation_heuristics where
  "pythonHeuristics = \<lparr>hp_id = Python, hp_appliesTo = (\<lambda>ls. Python \<in> set ls),
     hp_unsafeMarkers = [''raw sql'', ''raw orm'', ''raw html'', ''.raw('', ''.extra('', ''os.system'', ''os.popen'', ''subprocess'',
       ''shell=true'', ''mark_safe'', ''render_template_string'', ''template injection'', ''|safe'', ''pickle.loads'', ''pickle.load'',
       ''yaml.load('', ''marshal.loads'', ''ssrf'', ''server-side request'', ''open redirect'', ''path traversal''],
     hp_safeMarkers = [''bleach'', ''is_safe_url'', ''url_has_allowed_host'', ''yaml.safe_load'', ''get_object_or_404'', ''serializer.is_valid''],
     hp_paramPatterns =
       [(rx_seq [Lit ''request.'', rx_words [''GET'', ''POST'', ''args'', ''form'', ''values'', ''query_params'', ''data'', ''files'',
           ''COOKIES'', ''cookies'', ''headers''], Lit ''.get('', quote_rx], Lit []),
        (rx_seq [Lit ''request.'', rx_words [''GET'', ''POST'', ''args'', ''form'', ''values'', ''query_params'', ''data'', ''files''],
           Lit ''['', quote_rx], Lit [])],
     hp_rawSinkKinds = []\<rparr>"

definition javaHeuristics :: confirmation_heuristics where
  "javaHeuristics = \<lparr>hp_id = Java, hp_appliesTo = (\<lambda>ls. Java \<in> set ls),
     hp_unsafeMarkers = [''raw sql'', ''string concatenation'', ''native query'', ''jpql'', ''createnativequery'', ''runtime.getruntime'',
       ''runtime.exec'', ''.exec('', ''processbuilder'', ''os command'', ''objectinputstream'', ''readobject'', ''class.forname'',
       ''reflective class loading'', ''parseexpression'', ''spel expression'', ''sendredirect'', ''caller-influenced url''],
     hp_safeMarkers = [''setparameter'', ''criteriabuilder'', ''htmlutils.htmlescape'', ''htmlescape'', ''owasp encoder'', ''esapi'',
       ''policyfactory'', ''jsoup.clean'', ''@valid'', ''typedquery''],
     hp_paramPatterns =
       [(rx_seq [Lit ''@'', rx_words [''RequestParam'', ''PathVariable'', ''RequestHeader'', ''CookieValue'', ''RequestBody'', ''ModelAttribute''],
           Rep 1 None (One js_white)], Lit []),
        (rx_seq [Lit ''get'', rx_words [''Parameter'', ''ParameterValues'', ''Header'', ''Part''], Lit ''('', blank_rx, quote_rx], quote_rx)],
     hp_rawSinkKinds = []\<rparr>"

definition HEURISTICS :: "confirmation_heuristics list" where
  "HEURISTICS = [typescriptHeuristics, pythonHeuristics, javaHeuristics]"

definition EMPTY_HEURISTICS :: resolved_heuristics where
  "EMPTY_HEURISTICS = \<lparr>rh_unsafeMarkers = [], rh_safeMarkers = [], rh_paramPatterns = [], rh_rawSinkKinds = []\<rparr>"

definition resolveHeuristics :: "language list \<Rightarrow> confirmation_heuristics list \<Rightarrow> resolved_heuristics" where
  "resolveHeuristics languages plugins =
     (let active = filter (\<lambda>p. hp_appliesTo p languages) plugins in
      if active = [] then EMPTY_HEURISTICS
      else \<lparr>rh_unsafeMarkers = concat (map hp_unsafeMarkers active), rh_safeMarkers = concat (map hp_safeMarkers active),
            rh_paramPatterns = concat (map hp_paramPatterns active), rh_rawSinkKinds = concat (map hp_rawSinkKinds active)\<rparr>)"

definition MIN_LEARNED_SANITIZER_MARKER_LENGTH :: nat where "MIN_LEARNED_SANITIZER_MARKER_LENGTH = 3"

definition withLearnedSanitizers :: "resolved_heuristics \<Rightarrow> string list \<Rightarrow> resolved_heuristics" where
  "withLearnedSanitizers base learned =
     (let markers = filter (\<lambda>m. MIN_LEARNED_SANITIZER_MARKER_LENGTH \<le> length m) (map (\<lambda>m. js_lower (js_trim m)) learned) in
      if markers = [] then base else base\<lparr>rh_safeMarkers := rh_safeMarkers base @ markers\<rparr>)"

section \<open>The structural gate\<close>

text \<open>The reason the gate rules a finding out with, if it does. Dashes are written \<open>-\<close>.\<close>

definition structuralConfirmationGate :: "probable_finding \<Rightarrow> app_map \<Rightarrow> string option" where
  "structuralConfirmationGate finding m =
     (if \<not> truthy (pf_routeId finding) then None
      else if list_ex (\<lambda>r. ro_id r = pf_routeId finding) (am_routes m) then None
      else Some (''structurally ruled out: route '' @ the (pf_routeId finding) @ '' that this finding was grounded against ''
        @ ''at correlation time is no longer registered in the App Map being confirmed against - the ''
        @ ''route was removed, or the App Map was rebuilt, since correlation ran, so this location is ''
        @ ''not reachable in the application as currently mapped (a hard existence check against the ''
        @ ''App Map's own route registry - no scoring or threshold judgment involved)''))"

section \<open>The data flow\<close>

record data_flow_result =
  df_reachable :: bool
  df_hops :: "data_flow_hop list"
  df_sanitizersBypassed :: "string list"
  df_reason :: string
  df_exposure :: exposure
  df_entryAuthState :: auth_state
  df_route :: "app_route option"
  df_source :: "taint_source option"
  df_sink :: "taint_sink option"
  df_param :: "string option"

definition findRoute :: "app_map \<Rightarrow> probable_finding \<Rightarrow> app_route option" where
  "findRoute m finding =
     (case (if truthy (pf_routeId finding) then find (\<lambda>r. ro_id r = pf_routeId finding) (am_routes m) else None) of
        Some r \<Rightarrow> Some r
      | None \<Rightarrow> find (\<lambda>r. map_option loc_file (ro_handler r) = Some (loc_file (pf_location finding))) (am_routes m))"

text \<open>The first with the line of the finding, else the nearest by a stable sort.\<close>

definition at_line_or_nearest :: "('a \<Rightarrow> nat) \<Rightarrow> nat \<Rightarrow> 'a list \<Rightarrow> 'a option" where
  "at_line_or_nearest line_of line xs =
     (case find (\<lambda>x. line_of x = line) xs of
        Some x \<Rightarrow> Some x
      | None \<Rightarrow> first_of (js_sort (\<lambda>a b. line_distance (line_of a) line \<le> line_distance (line_of b) line) xs))"

definition same_place :: "source_location \<Rightarrow> source_location \<Rightarrow> bool" where
  "same_place a b \<longleftrightarrow> loc_file a = loc_file b \<and> loc_line a = loc_line b"

definition findSinkFromFlow :: "app_map \<Rightarrow> probable_finding \<Rightarrow> taint_sink_kind list \<Rightarrow> taint_sink option" where
  "findSinkFromFlow m finding kinds =
     (let here = loc_file (pf_location finding);
          edges = filter (\<lambda>e. tf_sinkKind e \<in> set kinds
            \<and> (loc_file (tf_sourceLocation e) = here \<or> map_option loc_file (tf_throughLocation e) = Some here)) (am_taintFlows m) in
      case at_line_or_nearest (\<lambda>e. loc_line (tf_sourceLocation e)) (loc_line (pf_location finding)) edges of
        None \<Rightarrow> None
      | Some e \<Rightarrow>
          (case find (\<lambda>s. same_place (tk_location s) (tf_sinkLocation e)) (am_taintSinks m) of
             Some s \<Rightarrow> Some s
           | None \<Rightarrow> Some \<lparr>tk_kind = tf_sinkKind e, tk_location = tf_sinkLocation e, tk_description = None\<rparr>))"

definition findSink :: "app_map \<Rightarrow> probable_finding \<Rightarrow> taint_sink option" where
  "findSink m finding =
     (let kinds = DATAFLOW_SINK_KINDS (pf_category finding);
          inFile = filter (\<lambda>s. tk_kind s \<in> set kinds \<and> loc_file (tk_location s) = loc_file (pf_location finding)) (am_taintSinks m)
      in if inFile \<noteq> [] then at_line_or_nearest (\<lambda>s. loc_line (tk_location s)) (loc_line (pf_location finding)) inFile
         else findSinkFromFlow m finding kinds)"

definition findSourceFromFlow :: "app_map \<Rightarrow> taint_sink \<Rightarrow> taint_source option" where
  "findSourceFromFlow m sink =
     (case find (\<lambda>e. same_place (tf_sinkLocation e) (tk_location sink)) (am_taintFlows m) of
        None \<Rightarrow> None
      | Some e \<Rightarrow>
          (case find (\<lambda>s. same_place (ts_location s) (tf_sourceLocation e)) (am_taintSources m) of
             Some s \<Rightarrow> Some s
           | None \<Rightarrow> map_option (\<lambda>k. \<lparr>ts_kind = k, ts_location = tf_sourceLocation e, ts_description = None, ts_routeId = None\<rparr>)
               (tf_sourceKind e)))"

definition findSource :: "app_map \<Rightarrow> probable_finding \<Rightarrow> taint_sink \<Rightarrow> app_route option \<Rightarrow> taint_source option" where
  "findSource m finding sink route =
     (let routeId = (case Option.bind route ro_id of Some i \<Rightarrow> Some i | None \<Rightarrow> pf_routeId finding);
          in_file_of = (\<lambda>f. find (\<lambda>s. loc_file (ts_location s) = f) (am_taintSources m)) in
      case (if truthy routeId then find (\<lambda>s. ts_routeId s = routeId) (am_taintSources m) else None) of
        Some s \<Rightarrow> Some s
      | None \<Rightarrow> (case in_file_of (loc_file (tk_location sink)) of
          Some s \<Rightarrow> Some s
        | None \<Rightarrow> (case in_file_of (loc_file (pf_location finding)) of
            Some s \<Rightarrow> Some s
          | None \<Rightarrow> findSourceFromFlow m sink)))"

definition describeRoute :: "app_route option \<Rightarrow> exposure \<Rightarrow> string" where
  "describeRoute route x =
     (case route of
        Some r \<Rightarrow> ''the '' @ (if ro_authState r = Auth_public then ''public'' else if ro_authState r = Auth_unknown then ''unknown-auth''
            else humanize (auth_str (ro_authState r))) @ '' route '' @ method_str (ro_method r) @ '' '' @ ro_path r
      | None \<Rightarrow> (if x = Public then ''a public entry point'' else ''an authenticated entry point''))"

definition with_param :: "string option \<Rightarrow> string" where
  "with_param param = (if truthy param then '' '' @ quoted_marker (the param) else [])"

definition loc_text :: "source_location \<Rightarrow> string" where
  "loc_text l = loc_file l @ '':'' @ nat_str (loc_line l)"

definition source_hop :: "auth_state \<Rightarrow> taint_source \<Rightarrow> string option \<Rightarrow> data_flow_hop" where
  "source_hop auth s param = \<lparr>hop_location = ts_location s, hop_authState = auth,
     hop_transform = Some (''read '' @ source_kind_str (ts_kind s) @ with_param param),
     hop_note = (if truthy (ts_description s) then ts_description s else None)\<rparr>"

definition sink_hop :: "auth_state \<Rightarrow> taint_sink \<Rightarrow> sink_assessment \<Rightarrow> data_flow_hop" where
  "sink_hop auth k assessment = \<lparr>hop_location = tk_location k, hop_authState = auth,
     hop_transform = Some (if truthy (sa_sanitizer assessment) then ''sanitizer: '' @ the (sa_sanitizer assessment) else ''no sanitizer on path''),
     hop_note = (if truthy (tk_description k) then tk_description k else None)\<rparr>"

definition buildDataFlow :: "app_map \<Rightarrow> probable_finding \<Rightarrow> resolved_heuristics \<Rightarrow> data_flow_result" where
  "buildDataFlow m finding heuristics =
     (let c = pf_category finding;
          route = findRoute m finding;
          entry = (case route of Some r \<Rightarrow> ro_authState r | None \<Rightarrow> Auth_unknown);
          base = \<lparr>df_reachable = False, df_hops = [], df_sanitizersBypassed = [], df_reason = [], df_exposure = pf_exposure finding,
            df_entryAuthState = entry, df_route = route, df_source = None, df_sink = None, df_param = None\<rparr> in
      if \<not> isDataFlowConfirmable c
      then base\<lparr>df_reason := category_str c @ '' is a configuration/component-class finding with no tainted source->sink data-flow; ''
             @ ''static confirmation defers it to the appendix (live DAST or manual review required).''\<rparr>
      else case findSink m finding of
        None \<Rightarrow> base\<lparr>df_reason := ''no '' @ category_str c @ '' sink ('' @ js_join ''/'' (map sink_kind_str (DATAFLOW_SINK_KINDS c))
             @ '') found in '' @ loc_file (pf_location finding) @ ''; reachability cannot be proven statically.''\<rparr>
      | Some sink \<Rightarrow>
          (let source = findSource m finding sink route;
               param = extractParam (Option.bind source ts_description) heuristics;
               assessment = assessSink sink heuristics;
               hops = (case source of None \<Rightarrow> [] | Some s \<Rightarrow> [source_hop entry s param]) @ [sink_hop entry sink assessment];
               kind = sink_kind_str (tk_kind sink) in
           if \<not> sa_dangerous assessment
           then base\<lparr>df_hops := hops, df_source := source, df_sink := Some sink, df_param := param,
                  df_reason := sa_reason assessment @ ''; tainted input does not reach an exploitable '' @ kind @ '' sink.''\<rparr>
           else case source of
             None \<Rightarrow> base\<lparr>df_hops := hops, df_sink := Some sink, df_param := param,
                  df_reason := ''the '' @ kind @ '' sink at '' @ loc_text (tk_location sink)
                    @ '' is unsanitized, but no tainted source was proven to reach it; deferred (fail-safe).''\<rparr>
           | Some s \<Rightarrow> base\<lparr>df_reachable := True, df_hops := hops, df_source := Some s, df_sink := Some sink, df_param := param,
                  df_reason := ''tainted '' @ source_kind_str (ts_kind s) @ '' on '' @ describeRoute route (pf_exposure finding)
                    @ '' reaches the '' @ kind @ '' sink at '' @ loc_text (tk_location sink) @ ''; '' @ sa_reason assessment @ ''.''\<rparr>))"

definition buildStaticArgument :: "data_flow_result \<Rightarrow> probable_finding \<Rightarrow> string" where
  "buildStaticArgument df finding =
     (let entry = (case df_source df of
            Some s \<Rightarrow> source_kind_str (ts_kind s) @ with_param (df_param df) @ '' enters at '' @ loc_text (ts_location s)
          | None \<Rightarrow> ''tainted input enters'');
          flow = (case df_sink df of
            Some k \<Rightarrow> ''It flows to the '' @ sink_kind_str (tk_kind k) @ '' sink at '' @ loc_text (tk_location k)
              @ '' with no interrupting sanitizer or validator.''
          | None \<Rightarrow> []);
          reaches = (if df_entryAuthState df = Auth_public then ''an unauthenticated attacker'' else ''an authorized-but-malicious caller'')
      in js_join '' '' (filter (\<lambda>s. s \<noteq> [])
           [''Static proof of reachability (no requests fired):'',
            ''The '' @ entry @ '' on '' @ describeRoute (df_route df) (pf_exposure finding) @ ''.'', flow,
            ''Auth state is '' @ quoted_marker (auth_str (df_entryAuthState df)) @ '' at every hop, so the sink is reachable by '' @ reaches @ ''.'',
            ''Exploit hypothesis: '' @ pf_exploitHypothesis finding]))"

section \<open>Collaborators\<close>

text \<open>
  \<open>cd_num\<close>, \<open>cd_parse\<close> and \<open>cd_datetime\<close> stand for number printing, \<open>JSON.parse\<close> and the timestamp check of
  the schema library; \<open>cd_now\<close> is the instant a finding is assembled at.
\<close>

record 'w review_deps =
  cd_llm :: "(llm_request \<Rightarrow> ('w, llm_response) io) option"
  cd_resolvePrompt :: "(string \<Rightarrow> string \<Rightarrow> string \<Rightarrow> ('w, string) io) option"
  cd_idFactory :: "(probable_finding \<Rightarrow> proof_type \<Rightarrow> string) option"
  cd_now :: "probable_finding \<Rightarrow> string"
  cd_useLlmCrossCheck :: "bool option"
  cd_learnedSanitizers :: "string list"
  cd_num :: "rat \<Rightarrow> string"
  cd_parse :: "string \<Rightarrow> json option"
  cd_datetime :: "string \<Rightarrow> bool"

record confirm_scope =
  cs_clientId :: string
  cs_scanId :: string
  cs_appMap :: app_map

section \<open>The review\<close>

record llm_review =
  lv_argument :: "string option"
  lv_confirmed :: "bool option"

definition place_fields :: "source_location \<Rightarrow> (string \<times> json) list" where
  "place_fields l = [(''file'', JStr (loc_file l)), (''line'', JNum (of_nat (loc_line l)))]"

definition review_payload :: "data_flow_result \<Rightarrow> probable_finding \<Rightarrow> json" where
  "review_payload df finding = JObj
     [(''task'', JStr (quotes (''Judge exploitability of this static data-flow. Respond ONLY as JSON {`confirmed`: boolean, `argument`: string}. ''
         @ ''When uncertain, set confirmed=false.''))),
      (''category'', JStr (category_str (pf_category finding))), (''exposure'', JStr (exposure_str (pf_exposure finding))),
      (''route'', case df_route df of None \<Rightarrow> JNull
         | Some r \<Rightarrow> JObj [(''method'', JStr (method_str (ro_method r))), (''path'', JStr (ro_path r)), (''authState'', JStr (auth_str (ro_authState r)))]),
      (''source'', case df_source df of None \<Rightarrow> JNull
         | Some s \<Rightarrow> JObj ((''kind'', JStr (source_kind_str (ts_kind s))) # place_fields (ts_location s))),
      (''sink'', case df_sink df of None \<Rightarrow> JNull
         | Some k \<Rightarrow> JObj ((''kind'', JStr (sink_kind_str (tk_kind k))) # place_fields (tk_location k)
             @ [(''note'', JStr (take 200 (described (tk_description k))))])),
      (''hops'', JArr (map (\<lambda>h. JObj (place_fields (hop_location h) @ [(''authState'', JStr (auth_str (hop_authState h))),
         (''transform'', case hop_transform h of Some t \<Rightarrow> JStr t | None \<Rightarrow> JUndef)])) (df_hops df)))]"

definition static_review_system :: string where
  "static_review_system = ''You are a security exploit-confirmation reviewer. Judge exploitability conservatively from the static data-flow. ''
     @ ''When uncertain, set confirmed=false.''"

text \<open>A request of the confirmation tier; the parts that differ between its callers are arguments.\<close>

definition confirmation_request :: "confirm_scope \<Rightarrow> string \<Rightarrow> llm_message list \<Rightarrow> int \<Rightarrow> response_format \<Rightarrow> json \<Rightarrow> llm_request" where
  "confirmation_request scope system messages maxTokens fmt rest =
     \<lparr>lr_model = None, lr_tier = Some Confirmation, lr_system = Some system, lr_messages = messages, lr_maxTokens = maxTokens,
      lr_temperature = Some 0, lr_responseFormat = fmt, lr_rest = rest,
      lr_metadata = \<lparr>md_scanId = Some (cs_scanId scope), md_clientId = Some (cs_clientId scope), md_layer = Some Layer3,
        md_purpose = Confirmation_purpose\<rparr>\<rparr>"

definition review_of :: "json option \<Rightarrow> llm_review" where
  "review_of parsed =
     (let rec = (case parsed of Some v \<Rightarrow> v | None \<Rightarrow> JNull) in
      \<lparr>lv_argument = (case object_field rec ''argument'' of JStr s \<Rightarrow> Some s | _ \<Rightarrow> None),
       lv_confirmed = (case object_field rec ''confirmed'' of JBool b \<Rightarrow> Some b | _ \<Rightarrow> None)\<rparr>)"

text \<open>An error of the gateway is no review; an error of the prompt registry is not caught.\<close>

definition runLlmReview :: "'w review_deps \<Rightarrow> confirm_scope \<Rightarrow> data_flow_result \<Rightarrow> probable_finding \<Rightarrow> ('w, llm_review option) io" where
  "runLlmReview deps scope df finding =
     (case cd_llm deps of
        None \<Rightarrow> io_return None
      | Some ask \<Rightarrow>
          io_bind (case cd_resolvePrompt deps of None \<Rightarrow> io_return static_review_system
                   | Some resolve \<Rightarrow> resolve ''confirm.static_review.system'' static_review_system (cs_clientId scope)) (\<lambda>system w.
            case ask (confirmation_request scope system [plain_message Role_user (the (json_text (cd_num deps) (review_payload df finding)))]
                   4096 Format_json (JObj [(''stream'', JBool False)])) w of
              (Inl e, w') \<Rightarrow> (Inr None, w')
            | (Inr resp, w') \<Rightarrow> (Inr (Some (review_of (cd_parse deps (rs_content resp)))), w')))"

section \<open>The finding\<close>

definition proof_locations_valid :: "proof_artifact \<Rightarrow> bool" where
  "proof_locations_valid p = (case p of Static_proof a hops s \<Rightarrow> list_all (\<lambda>h. location_valid (hop_location h)) hops | Live_proof t x \<Rightarrow> True)"

definition confirmed_valid :: "(string \<Rightarrow> bool) \<Rightarrow> confirmed_finding \<Rightarrow> bool" where
  "confirmed_valid datetime f \<longleftrightarrow> cn_id f \<noteq> [] \<and> cn_scanId f \<noteq> [] \<and> cn_clientId f \<noteq> [] \<and> cn_probableId f \<noteq> Some [] \<and> cn_title f \<noteq> []
     \<and> list_all cwe_valid (cn_cwe f) \<and> location_valid (cn_location f) \<and> proof_locations_valid (cn_proofArtifact f)
     \<and> datetime (cn_createdAt f) \<and> confirmed_ok f"

fun proof_type_str :: "proof_type \<Rightarrow> string" where
  "proof_type_str StaticProofT = ''static''"
| "proof_type_str LiveProofT = ''live''"

definition defaultConfirmedId :: "probable_finding \<Rightarrow> proof_type \<Rightarrow> string" where
  "defaultConfirmedId p t = ''cf_'' @ proof_type_str t @ ''_'' @ pf_id p"

definition assembled :: "'w review_deps \<Rightarrow> probable_finding \<Rightarrow> app_route option \<Rightarrow> string option \<Rightarrow> proof_artifact \<Rightarrow> proof_type \<Rightarrow> confirmed_finding" where
  "assembled deps finding route param artifact proofType =
     (let c = pf_category finding; compliance = complianceForCategory c in
      \<lparr>cn_id = (case cd_idFactory deps of Some f \<Rightarrow> f | None \<Rightarrow> defaultConfirmedId) finding proofType,
       cn_scanId = pf_scanId finding, cn_clientId = pf_clientId finding, cn_probableId = Some (pf_id finding),
       cn_title = deriveTitle c route (loc_file (pf_location finding)) (loc_line (pf_location finding)) param,
       cn_category = c, cn_cwe = cm_cwe compliance, cn_owasp = Some (cm_owasp compliance),
       cn_severity = deriveSeverity c (pf_exposure finding), cn_exposure = pf_exposure finding, cn_location = pf_location finding,
       cn_impact = deriveImpact c (pf_exploitHypothesis finding), cn_proofType = proofType, cn_proofArtifact = artifact,
       cn_createdAt = cd_now deps finding\<rparr>)"

definition assembleConfirmed :: "'w review_deps \<Rightarrow> probable_finding \<Rightarrow> app_route option \<Rightarrow> string option \<Rightarrow> proof_artifact \<Rightarrow> proof_type
    \<Rightarrow> ('w, confirmed_finding) io" where
  "assembleConfirmed deps finding route param artifact proofType w =
     (let f = assembled deps finding route param artifact proofType in
      (if confirmed_valid (cd_datetime deps) f then Inr f else Inl (Untyped ''ZodError''), w))"

definition toUnconfirmed :: "(string \<Rightarrow> bool) \<Rightarrow> probable_finding \<Rightarrow> string \<Rightarrow> ('w, unconfirmed_finding) io" where
  "toUnconfirmed datetime finding reason w =
     (if probable_valid datetime finding then Inr \<lparr>uf_probable = finding, uf_unconfirmedReason = reason\<rparr> else Inl (Untyped ''ZodError''), w)"

section \<open>Static confirmation\<close>

datatype static_outcome = Static_confirmed confirmed_finding "data_flow_hop list" | Static_unconfirmed string "data_flow_hop list"

definition heuristics_for :: "'w review_deps \<Rightarrow> app_map \<Rightarrow> resolved_heuristics" where
  "heuristics_for deps m = withLearnedSanitizers (resolveHeuristics (am_languages m) HEURISTICS) (cd_learnedSanitizers deps)"

definition cross_check :: "'w review_deps \<Rightarrow> bool" where
  "cross_check deps = (case cd_useLlmCrossCheck deps of Some b \<Rightarrow> b | None \<Rightarrow> cd_llm deps \<noteq> None)"

definition vetoed :: "'w review_deps \<Rightarrow> llm_review option \<Rightarrow> bool" where
  "vetoed deps review = (case review of None \<Rightarrow> False | Some r \<Rightarrow> cross_check deps \<and> lv_confirmed r = Some False)"

definition with_review :: "string \<Rightarrow> llm_review option \<Rightarrow> string" where
  "with_review argument review =
     (case Option.bind review lv_argument of
        None \<Rightarrow> argument
      | Some a \<Rightarrow> if 8 \<le> length (js_trim a) then argument @ [newline, newline] @ ''Model review: '' @ js_trim a else argument)"

definition confirmStatic :: "'w review_deps \<Rightarrow> confirm_scope \<Rightarrow> probable_finding \<Rightarrow> ('w, static_outcome) io" where
  "confirmStatic deps scope finding =
     (let df = buildDataFlow (cs_appMap scope) finding (heuristics_for deps (cs_appMap scope)) in
      if \<not> df_reachable df then io_return (Static_unconfirmed (df_reason df) (df_hops df))
      else io_bind (runLlmReview deps scope df finding) (\<lambda>review.
        if vetoed deps review
        then io_return (Static_unconfirmed (df_reason df @ '' However, the confirmation-tier model judged it NOT exploitable on review - ''
               @ ''demoted to the appendix (fail-safe, golden rule #4).'') (df_hops df))
        else io_bind (assembleConfirmed deps finding (df_route df) (df_param df)
               (Static_proof (with_review (buildStaticArgument df finding) review) (df_hops df) (df_sanitizersBypassed df)) StaticProofT)
             (\<lambda>f. io_return (Static_confirmed f (df_hops df)))))"

end
