(* ===== verification/Confirm.thy ===== *)
theory Confirm
  imports ConfirmStatic
begin

text \<open>
  \<open>packages/confirm/src\<close>, the paths to a confirmation and the run of layer 3: \<open>evidence.ts\<close>,
  \<open>adversarial.ts\<close>, \<open>investigate.ts\<close>, \<open>investigation-pipeline.ts\<close>, \<open>audit.ts\<close> and \<open>confirm.ts\<close>. The
  gateway, the tools and the test process of the investigation, the verdict of the probes of a
  live confirmation, the audit log and the kill signal are effects on a world \<open>'w\<close>. Progress
  messages, logging and the transcript of an investigation, which nothing reads, are left out.
\<close>

section \<open>Collaborators\<close>

datatype stream_event = Text_delta string | Tool_use_event json | Message_done | Stream_error string

text \<open>What a test process leaves: no binary, an exit with its output, or a failure with what it wrote.\<close>

datatype test_process = No_binary string | Exited string | Failed_process "string option" bool string

record test_run_result =
  tr_ran :: bool
  tr_passed :: "bool option"
  tr_summary :: string

record live_verdict =
  lw_success :: bool
  lw_reason :: string
  lw_transcript :: "http_exchange list"

record investigation_config =
  iv_enabled :: bool
  iv_maxTurns :: "int option"
  iv_effort :: "string option"
  iv_verifierCount :: "int option"
  iv_severities :: "severity list option"

text \<open>
  The stream of a request is the events it yields and whether it ends with an error. Probing a
  finding live (\<open>LiveDast\<close>) ends with an error or with a verdict,
  its transcript and the reason it did not confirm. \<open>kd_egress\<close> is the outcome of obtaining the egress guard.
\<close>

record 'w confirm_deps =
  kd_review :: "'w review_deps"
  kd_stream :: "llm_request \<Rightarrow> 'w \<Rightarrow> (stream_event list \<times> bool) \<times> 'w"
  kd_tool :: "string \<Rightarrow> json \<Rightarrow> 'w \<Rightarrow> string \<times> 'w"
  kd_toolDefinitions :: "json list"
  kd_testProcess :: "string \<Rightarrow> string \<Rightarrow> int \<Rightarrow> 'w \<Rightarrow> test_process \<times> 'w"
  kd_testRunner :: "(string \<Rightarrow> string \<Rightarrow> int \<Rightarrow> ('w, test_run_result) io) option"
  kd_probe :: "string \<Rightarrow> probable_finding \<Rightarrow> ('w, live_verdict) io"
  kd_audit :: "(audit_input \<Rightarrow> ('w, unit) io) option"
  kd_signal :: "'w \<Rightarrow> probe_signal"
  kd_egress :: "js_error + unit"
  kd_parse_url :: url_parser
  kd_isKnownFalsePositive :: "(category \<Rightarrow> string \<Rightarrow> nat \<Rightarrow> bool) option"
  kd_investigation :: "investigation_config option"
  kd_priorConfirmedShapes :: "(category \<Rightarrow> string \<Rightarrow> bool) option"

record confirm_input = confirm_scope +
  ki_probable :: "probable_finding list"
  ki_allowLive :: bool
  ki_stagingUrl :: "string option"
  ki_config :: montr_config
  ki_repoRoot :: "string option"

section \<open>The kill signal and the audit log\<close>

definition throwIfKilled :: "'w confirm_deps \<Rightarrow> string \<Rightarrow> ('w, unit) io" where
  "throwIfKilled deps message w =
     (case kd_signal deps w of
        Not_aborted \<Rightarrow> (Inr (), w)
      | Aborted (Some reason) \<Rightarrow> (Inl (Typed reason), w)
      | Aborted None \<Rightarrow> (Inl (Typed (KillSwitchActivatedError message None)), w))"

definition agentAudit :: "('s) confirm_scope_scheme \<Rightarrow> string \<Rightarrow> string \<Rightarrow> (string \<times> json) list \<Rightarrow> string option \<Rightarrow> audit_input" where
  "agentAudit input action summary metadata targetId =
     \<lparr>ai_clientId = cs_clientId input, ai_scanId = Some (cs_scanId input),
      ai_actor = \<lparr>ac_type = Agent, ac_id = ''layer3-confirm'', ac_role = None\<rparr>, ai_action = action,
      ai_targetType = Some (if truthy targetId then ''probable_finding'' else ''scan''),
      ai_targetId = (if truthy targetId then targetId else None), ai_summary = summary, ai_metadata = metadata\<rparr>"

text \<open>An audit log that fails is logged and does not stop the run.\<close>

definition safeAppend :: "'w confirm_deps \<Rightarrow> audit_input \<Rightarrow> ('w, unit) io" where
  "safeAppend deps ev w = (case kd_audit deps of None \<Rightarrow> (Inr (), w) | Some record_event \<Rightarrow> (Inr (), snd (record_event ev w)))"

section \<open>Executable evidence (evidence.ts)\<close>

definition firstFailureSnippet :: "json \<Rightarrow> string option" where
  "firstFailureSnippet report =
     (let elements = (\<lambda>v. case v of JArr vs \<Rightarrow> vs | _ \<Rightarrow> []);
          message = (\<lambda>a. if object_field a ''status'' = JStr ''failed''
             then (case elements (object_field a ''failureMessages'') of JStr s # _ \<Rightarrow> (if s \<noteq> [] then Some (take 400 s) else None) | _ \<Rightarrow> None)
             else None);
          assertions = concat (map (\<lambda>f. elements (object_field f ''assertionResults'')) (elements (object_field report ''testResults'')))
      in case List.map_filter message assertions of [] \<Rightarrow> None | m # ms \<Rightarrow> Some m)"

definition report_collected :: "json \<Rightarrow> bool" where
  "report_collected report \<longleftrightarrow> (case object_field report ''success'' of JBool b \<Rightarrow> True | _ \<Rightarrow> False)
     \<and> (case object_field report ''numTotalTests'' of JUndef \<Rightarrow> False | JNull \<Rightarrow> False | JNum n \<Rightarrow> n \<noteq> 0 | _ \<Rightarrow> True)"

text \<open>On the path of a failed process the number of tests is compared with zero; a number, when the report has one.\<close>

definition failure_collected :: "json \<Rightarrow> bool" where
  "failure_collected report \<longleftrightarrow> (case object_field report ''success'' of JBool b \<Rightarrow> True | _ \<Rightarrow> False)
     \<and> (case object_field report ''numTotalTests'' of JNum n \<Rightarrow> 0 < n | _ \<Rightarrow> False)"

definition report_result :: "string \<Rightarrow> json \<Rightarrow> test_run_result" where
  "report_result testFile report =
     (let success = object_field report ''success'' = JBool True in
      \<lparr>tr_ran = True, tr_passed = Some success,
       tr_summary = ''test '' @ testFile @ (if success then '' PASSED against the current code.''
         else '' FAILED against the current code'' @ (case firstFailureSnippet report of Some m \<Rightarrow> '': '' @ m | None \<Rightarrow> []))\<rparr>)"

definition not_run :: "string \<Rightarrow> test_run_result" where
  "not_run summary = \<lparr>tr_ran = False, tr_passed = None, tr_summary = summary\<rparr>"

text \<open>How \<open>createDefaultTestRunner\<close> reads the process: a report of a failed process counts, nothing else of it does.\<close>

fun read_test_process :: "(string \<Rightarrow> json option) \<Rightarrow> string \<Rightarrow> test_process \<Rightarrow> test_run_result" where
  "read_test_process parse testFile (No_binary path) =
     not_run ''vitest binary not found in the target repo's node_modules/.bin; no evidence gathered.''"
| "read_test_process parse testFile (Exited stdout) =
     (if js_trim stdout = [] then not_run ''vitest produced no output.''
      else case parse (js_trim stdout) of
             None \<Rightarrow> not_run ''vitest output was not parseable JSON.''
           | Some JNull \<Rightarrow> not_run ''vitest failed to launch or produce a usable report.''
           | Some report \<Rightarrow> if report_collected report then report_result testFile report
                else not_run ''vitest ran but reported zero collected tests.'')"
| "read_test_process parse testFile (Failed_process stdout killed message) =
     (case (if truthy stdout then parse (js_trim (the stdout)) else None) of
        None \<Rightarrow> not_run ''vitest failed to launch or produce a usable report.''
      | Some report \<Rightarrow> if failure_collected report then report_result testFile report
           else not_run ''vitest failed to launch or produce a usable report.'')"

definition TEST_TIMEOUT_MS :: int where "TEST_TIMEOUT_MS = 15000"

definition run_test :: "'w confirm_deps \<Rightarrow> string \<Rightarrow> string \<Rightarrow> ('w, test_run_result) io" where
  "run_test deps dir testFile =
     (case kd_testRunner deps of
        Some runner \<Rightarrow> runner dir testFile TEST_TIMEOUT_MS
      | None \<Rightarrow> (\<lambda>w. case kd_testProcess deps dir testFile TEST_TIMEOUT_MS w of
            (p, w') \<Rightarrow> (Inr (read_test_process (cd_parse (kd_review deps)) testFile p), w')))"

record executable_evidence =
  ee_summary :: string
  ee_testFile :: string

definition gatherExecutableEvidence :: "'w confirm_deps \<Rightarrow> string option \<Rightarrow> string option \<Rightarrow> 'w \<Rightarrow> executable_evidence option \<times> 'w" where
  "gatherExecutableEvidence deps repoRoot existingTestFile w =
     (if \<not> truthy repoRoot \<or> \<not> truthy existingTestFile then (None, w)
      else case run_test deps (the repoRoot) (the existingTestFile) w of
             (Inl e, w') \<Rightarrow> (None, w')
           | (Inr r, w') \<Rightarrow> (if tr_ran r \<and> tr_passed r = Some False
                then Some \<lparr>ee_summary = tr_summary r, ee_testFile = the existingTestFile\<rparr> else None, w'))"

section \<open>The adversarial panel (adversarial.ts)\<close>

datatype verifier_lens = Exploitability | Reachability | Business_impact | Refutation

definition LENS_ORDER :: "verifier_lens list" where
  "LENS_ORDER = [Exploitability, Reachability, Business_impact, Refutation]"

fun lens_str :: "verifier_lens \<Rightarrow> string" where
  "lens_str Exploitability = ''exploitability''"
| "lens_str Reachability = ''reachability''"
| "lens_str Business_impact = ''business_impact''"
| "lens_str Refutation = ''refutation''"

fun LENS_SYSTEM_PROMPT :: "verifier_lens \<Rightarrow> string" where
  "LENS_SYSTEM_PROMPT Exploitability = quotes
     (''You are an independent EXPLOITABILITY verifier. Judge ONLY whether the described flow, if reached by an ''
      @ ''attacker, is genuinely exploitable (not just theoretically reachable). Respond ONLY as JSON ''
      @ ''{`confirm`: boolean, `rationale`: string}. When uncertain, confirm=false (fail-safe).'')"
| "LENS_SYSTEM_PROMPT Reachability = quotes
     (''You are an independent REACHABILITY verifier. Judge ONLY whether an attacker (authenticated or not, per the ''
      @ ''stated exposure) can actually reach this code path given the route/auth information provided. Respond ONLY as JSON ''
      @ ''{`confirm`: boolean, `rationale`: string}. When uncertain, confirm=false (fail-safe).'')"
| "LENS_SYSTEM_PROMPT Business_impact = quotes
     (''You are an independent BUSINESS-IMPACT verifier. Judge ONLY whether a successful exploit would have a ''
      @ ''material security impact (data exposure, integrity loss, availability loss, or privilege escalation) - not whether ''
      @ ''it is merely a code-quality issue. Respond ONLY as JSON {`confirm`: boolean, `rationale`: string}. ''
      @ ''When uncertain, confirm=false (fail-safe).'')"
| "LENS_SYSTEM_PROMPT Refutation = quotes
     (''You are an independent, ADVERSARIAL verifier whose ONLY job is to try to REFUTE this finding - actively look ''
      @ ''for a sanitizer, an ownership/authorization check, a framework default, or any other reason this is a false ''
      @ ''positive, using the evidence and the other verifiers' rationale below. Respond ONLY as JSON ''
      @ ''{`confirm`: boolean, `rationale`: string} - confirm=true ONLY if you tried and genuinely could not refute it; otherwise confirm=false.'')"

record verifier_verdict =
  vv_lens :: verifier_lens
  vv_confirm :: bool
  vv_rationale :: string

definition VERIFIER_RESPONSE_SCHEMA :: json where
  "VERIFIER_RESPONSE_SCHEMA = JObj [(''type'', JStr ''object''),
     (''properties'', JObj [(''confirm'', JObj [(''type'', JStr ''boolean'')]), (''rationale'', JObj [(''type'', JStr ''string'')])]),
     (''required'', JArr []), (''additionalProperties'', JBool False)]"

text \<open>The location as the contract has it: optional fields are dropped when they are absent.\<close>

definition location_json :: "source_location \<Rightarrow> json" where
  "location_json l = (let opt = (\<lambda>k v. case v of None \<Rightarrow> [] | Some n \<Rightarrow> [(k, JNum (of_nat n))]) in
     JObj (place_fields l @ opt ''endLine'' (loc_endLine l) @ opt ''column'' (loc_column l) @ opt ''endColumn'' (loc_endColumn l)
       @ (case loc_symbol l of None \<Rightarrow> [] | Some s \<Rightarrow> [(''symbol'', JStr s)])))"

definition verification_payload :: "probable_finding \<Rightarrow> string \<Rightarrow> string \<Rightarrow> verifier_verdict list \<Rightarrow> json" where
  "verification_payload finding rationale evidence verdicts = JObj
     [(''category'', JStr (category_str (pf_category finding))), (''exposure'', JStr (exposure_str (pf_exposure finding))),
      (''location'', location_json (pf_location finding)), (''candidateRationale'', JStr rationale), (''evidenceSummary'', JStr evidence),
      (''priorVerdicts'', JArr (map (\<lambda>v. JObj [(''lens'', JStr (lens_str (vv_lens v))), (''confirm'', JBool (vv_confirm v)),
         (''rationale'', JStr (vv_rationale v))]) verdicts))]"

definition error_message :: "js_error \<Rightarrow> string" where
  "error_message e = (case e of Typed t \<Rightarrow> me_message t | Untyped m \<Rightarrow> m)"

definition verdict_of :: "verifier_lens \<Rightarrow> json option \<Rightarrow> verifier_verdict" where
  "verdict_of lens parsed =
     (case parsed of
        Some (JObj kvs) \<Rightarrow> \<lparr>vv_lens = lens, vv_confirm = (object_field (JObj kvs) ''confirm'' = JBool True),
           vv_rationale = (case object_field (JObj kvs) ''rationale'' of
              JStr s \<Rightarrow> (if js_trim s \<noteq> [] then js_trim s else ''(no rationale provided)'') | _ \<Rightarrow> ''(no rationale provided)'')\<rparr>
      | Some (JArr vs) \<Rightarrow> \<lparr>vv_lens = lens, vv_confirm = False, vv_rationale = ''(no rationale provided)''\<rparr>
      | _ \<Rightarrow> \<lparr>vv_lens = lens, vv_confirm = False, vv_rationale = ''verifier response was not valid JSON (fail-safe reject).''\<rparr>)"

type_synonym 'w asker = "llm_request \<Rightarrow> ('w, llm_response) io"

definition runOneVerifier :: "'w confirm_deps \<Rightarrow> 'w asker \<Rightarrow> 's confirm_scope_scheme \<Rightarrow> verifier_lens \<Rightarrow> json \<Rightarrow> string \<Rightarrow> 'w \<Rightarrow> verifier_verdict \<times> 'w" where
  "runOneVerifier deps ask input lens payload findingId w =
     (case ask (confirmation_request (confirm_scope.truncate input) (LENS_SYSTEM_PROMPT lens)
              [plain_message Role_user (the (json_text (cd_num (kd_review deps)) payload))] 1024 Format_json
              (JObj [(''responseSchema'', VERIFIER_RESPONSE_SCHEMA), (''stream'', JBool False)])) w of
        (Inl e, w') \<Rightarrow> (\<lparr>vv_lens = lens, vv_confirm = False,
            vv_rationale = ''verifier call failed for finding '' @ findingId @ '': '' @ error_message e @ '' (fail-safe reject).''\<rparr>, w')
      | (Inr resp, w') \<Rightarrow> (verdict_of lens (cd_parse (kd_review deps) (rs_content resp)), w'))"

fun run_verifiers :: "'w confirm_deps \<Rightarrow> 'w asker \<Rightarrow> 's confirm_scope_scheme \<Rightarrow> probable_finding \<Rightarrow> string \<Rightarrow> string
    \<Rightarrow> verifier_lens list \<Rightarrow> verifier_verdict list \<Rightarrow> 'w \<Rightarrow> verifier_verdict list \<times> 'w" where
  "run_verifiers deps ask input finding rationale evidence [] verdicts w = (verdicts, w)"
| "run_verifiers deps ask input finding rationale evidence (lens # lenses) verdicts w =
     (let (v, w') = runOneVerifier deps ask input lens (verification_payload finding rationale evidence verdicts) (pf_id finding) w in
      run_verifiers deps ask input finding rationale evidence lenses (verdicts @ [v]) w')"

record adversarial_outcome =
  ao_confirmed :: bool
  ao_verdicts :: "verifier_verdict list"
  ao_confirmVotes :: nat
  ao_totalVerifiers :: nat
  ao_requiredVotes :: nat

definition verifier_count :: "'w confirm_deps \<Rightarrow> nat" where
  "verifier_count deps =
     (let n = (case Option.bind (kd_investigation deps) iv_verifierCount of Some n \<Rightarrow> n | None \<Rightarrow> int (length LENS_ORDER)) in
      nat (min (max n 1) (int (length LENS_ORDER))))"

definition runAdversarialVerification :: "'w confirm_deps \<Rightarrow> 's confirm_scope_scheme \<Rightarrow> probable_finding \<Rightarrow> string \<Rightarrow> string
    \<Rightarrow> 'w \<Rightarrow> adversarial_outcome option \<times> 'w" where
  "runAdversarialVerification deps input finding rationale evidence w =
     (case cd_llm (kd_review deps) of
        None \<Rightarrow> (None, w)
      | Some ask \<Rightarrow>
          (let lenses = take (verifier_count deps) LENS_ORDER;
               (verdicts, w') = run_verifiers deps ask input finding rationale evidence lenses [] w;
               votes = length (filter vv_confirm verdicts);
               required = length lenses div 2 + 1
           in (Some \<lparr>ao_confirmed = (0 < length lenses \<and> required \<le> votes), ao_verdicts = verdicts, ao_confirmVotes = votes,
                 ao_totalVerifiers = length lenses, ao_requiredVotes = required\<rparr>, w')))"

section \<open>The investigation loop (investigate.ts)\<close>

definition DEFAULT_MAX_TURNS :: int where "DEFAULT_MAX_TURNS = 6"

definition ABSOLUTE_MAX_INVESTIGATION_TURNS :: int where "ABSOLUTE_MAX_INVESTIGATION_TURNS = 8"

definition MAX_TOOL_CALLS_PER_TURN :: nat where "MAX_TOOL_CALLS_PER_TURN = 4"

definition SUBMIT_CONCLUSION_TOOL :: string where "SUBMIT_CONCLUSION_TOOL = ''submit_conclusion''"

datatype investigation_verdict = Confirmed_candidate | Refuted | Inconclusive

record investigation_outcome =
  io_verdict :: investigation_verdict
  io_rationale :: string
  io_ownershipCheckFound :: "bool option"
  io_existingTestFile :: "string option"
  io_targetRouteId :: "string option"
  io_turnsUsed :: int
  io_toolCallCount :: nat
  io_haltedByBudget :: bool

definition inconclusive :: "string \<Rightarrow> int \<Rightarrow> nat \<Rightarrow> bool \<Rightarrow> investigation_outcome" where
  "inconclusive rationale turns calls halted = \<lparr>io_verdict = Inconclusive, io_rationale = rationale, io_ownershipCheckFound = None,
     io_existingTestFile = None, io_targetRouteId = None, io_turnsUsed = turns, io_toolCallCount = calls, io_haltedByBudget = halted\<rparr>"

definition summarizeRoute :: "app_map \<Rightarrow> probable_finding \<Rightarrow> string" where
  "summarizeRoute m finding =
     (case findRoute m finding of
        None \<Rightarrow> ''no route matched in the App Map for this finding's file.''
      | Some r \<Rightarrow>
          (let models = (case ro_referencedModels r of
                 Some (x # xs) \<Rightarrow> js_join '', '' (map (\<lambda>(n, ops). n @ ''('' @ (if js_join ''/'' ops = [] then ''?'' else js_join ''/'' ops) @ '')'') (x # xs))
               | _ \<Rightarrow> ''none resolved by the App Map'') in
           ''Route '' @ method_str (ro_method r) @ '' '' @ ro_path r @ '' (id: '' @ (case ro_id r of Some i \<Rightarrow> i | None \<Rightarrow> ''unknown'')
           @ ''); authState='' @ auth_str (ro_authState r)
           @ (if truthy (ro_authGate r) then ''; authGate='' @ the (ro_authGate r) else [])
           @ ''; handler='' @ (case ro_handler r of Some l \<Rightarrow> loc_text l | None \<Rightarrow> ''unknown'')
           @ ''; referencedModels=['' @ models @ ''].''))"

definition INVESTIGATION_SYSTEM_PROMPT :: string where
  "INVESTIGATION_SYSTEM_PROMPT = js_join '' '' (map quotes
     [''You are a security exploit-confirmation INVESTIGATOR for Montr Secure's Layer 3.'',
      ''You have READ-ONLY tools to inspect the target repository and its already-built App Map:'',
      ''read_file, grep, find_definition, query_call_graph, list_routes, get_orm_model, semantic_search.'',
      ''semantic_search retrieves code by MEANING (a description or a snippet) rather than literal text - use it'',
      ''alongside grep to find other places the same vulnerable pattern occurs, or when you don't know the exact'',
      ''symbol/string to grep for; it may be unavailable in this run, in which case fall back to grep.'',
      ''Use them to trace the actual data flow and check for an ownership/role/authorization check - do not guess.'',
      ''You can NEVER write, execute, or modify anything; your job is investigation only.'',
      ''Be conservative: only conclude `confirmed_candidate` when you found a concrete exploit path AND actively'',
      ''looked for (and did not find) an ownership/authorization check that would prevent it. If you found such a'',
      ''check, conclude `refuted`. If you cannot determine either way within your tool budget, conclude'',
      ''`inconclusive` - never guess `confirmed_candidate` out of uncertainty (fail-safe).'',
      ''When you are done, call submit_conclusion EXACTLY ONCE with your verdict, rationale, and - if applicable -'',
      ''whether you found an ownership check, a real existing test file (found via grep/read_file, never invented)'',
      ''that already exercises this exact path, and the route id.'',
      ''Note: `confirmed_candidate` here is NOT sufficient to confirm this finding by itself - it becomes a'',
      ''candidate that must still pass an executable-evidence check and independent adversarial verification.''])"

definition buildInvestigationUserPrompt :: "(rat \<Rightarrow> string) \<Rightarrow> app_map \<Rightarrow> probable_finding \<Rightarrow> string option \<Rightarrow> string" where
  "buildInvestigationUserPrompt num m finding prior = the (json_text num (JObj
     [(''task'', JStr (''Investigate whether this probable finding is a genuine, exploitable vulnerability. ''
         @ ''Use your tools to read the actual code before concluding anything.'')),
      (''category'', JStr (category_str (pf_category finding))), (''exposure'', JStr (exposure_str (pf_exposure finding))),
      (''location'', location_json (pf_location finding)), (''reachabilityHypothesis'', JStr (pf_reachabilityHypothesis finding)),
      (''exploitHypothesis'', JStr (pf_exploitHypothesis finding)), (''route'', JStr (summarizeRoute m finding)),
      (''priorStaticAssessment'', JStr (case prior of Some r \<Rightarrow> r
         | None \<Rightarrow> ''no static source->sink data-flow proof exists for this category - this is exactly the class of finding ''
             @ ''that needs real investigation, not pattern-matching.''))]))"

definition asVerdict :: "json \<Rightarrow> investigation_verdict" where
  "asVerdict v = (if v = JStr ''confirmed_candidate'' then Confirmed_candidate else if v = JStr ''refuted'' then Refuted else Inconclusive)"

definition trimmed_field :: "json \<Rightarrow> string \<Rightarrow> string option" where
  "trimmed_field v k = (case object_field v k of JStr s \<Rightarrow> if js_trim s \<noteq> [] then Some (js_trim s) else None | _ \<Rightarrow> None)"

definition parseConclusion :: "json \<Rightarrow> int \<Rightarrow> nat \<Rightarrow> investigation_outcome" where
  "parseConclusion v turns calls =
     \<lparr>io_verdict = asVerdict (object_field v ''verdict''),
      io_rationale = (case trimmed_field v ''rationale'' of Some r \<Rightarrow> r | None \<Rightarrow> ''model submitted a conclusion with no rationale text.''),
      io_ownershipCheckFound = (case object_field v ''ownershipCheckFound'' of JBool b \<Rightarrow> Some b | _ \<Rightarrow> None),
      io_existingTestFile = trimmed_field v ''existingTestFile'', io_targetRouteId = trimmed_field v ''targetRouteId'',
      io_turnsUsed = turns, io_toolCallCount = calls, io_haltedByBudget = False\<rparr>"

definition tryParseFreeformConclusion :: "(string \<Rightarrow> json option) \<Rightarrow> string \<Rightarrow> int \<Rightarrow> nat \<Rightarrow> investigation_outcome option" where
  "tryParseFreeformConclusion parse content turns calls =
     (case parse content of
        Some (JObj kvs) \<Rightarrow> if ''verdict'' \<in> set (map fst kvs) then Some (parseConclusion (JObj kvs) turns calls) else None
      | _ \<Rightarrow> None)"

text \<open>
  A turn: the tool calls of the stream when it ends well and has any, else a second, complete
  request decides. Each element counts as a call of the gateway.
\<close>

fun stream_calls :: "stream_event list \<Rightarrow> json list" where
  "stream_calls [] = []"
| "stream_calls (Tool_use_event c # es) = c # stream_calls es"
| "stream_calls (_ # es) = stream_calls es"

fun stream_text :: "stream_event list \<Rightarrow> string" where
  "stream_text [] = []"
| "stream_text (Text_delta t # es) = t @ stream_text es"
| "stream_text (_ # es) = stream_text es"

definition is_stream_error :: "stream_event \<Rightarrow> bool" where
  "is_stream_error e = (case e of Stream_error m \<Rightarrow> True | _ \<Rightarrow> False)"

definition runStreamedTurn :: "'w confirm_deps \<Rightarrow> 'w asker \<Rightarrow> llm_request \<Rightarrow> ('w, string \<times> json list) io" where
  "runStreamedTurn deps ask request w =
     (case kd_stream deps request w of
        ((events, threw), w1) \<Rightarrow>
          if threw \<or> list_ex is_stream_error events \<or> stream_calls events = []
          then (case ask request w1 of
                  (Inl e, w2) \<Rightarrow> (Inl e, w2)
                | (Inr resp, w2) \<Rightarrow> (Inr (rs_content resp, case rs_toolCalls resp of Some cs \<Rightarrow> cs | None \<Rightarrow> []), w2))
          else (Inr (stream_text events, stream_calls events), w1))"

definition call_name :: "json \<Rightarrow> string" where
  "call_name c = json_string (object_field c ''name'')"

fun run_tools :: "'w confirm_deps \<Rightarrow> json list \<Rightarrow> 'w \<Rightarrow> llm_message list \<times> 'w" where
  "run_tools deps [] w = ([], w)"
| "run_tools deps (c # cs) w =
     (let (result, w1) = kd_tool deps (call_name c) (object_field c ''input'') w; (ms, w2) = run_tools deps cs w1 in
      (\<lparr>lm_role = Role_tool, lm_content = Text_content result,
        lm_rest = JObj [(''toolCallId'', object_field c ''id''), (''name'', object_field c ''name'')]\<rparr> # ms, w2))"

definition investigation_request :: "'w confirm_deps \<Rightarrow> 's confirm_scope_scheme \<Rightarrow> llm_message list \<Rightarrow> llm_request" where
  "investigation_request deps input messages = confirmation_request (confirm_scope.truncate input) INVESTIGATION_SYSTEM_PROMPT messages 2048 Format_text
     (JObj [(''tools'', JArr (kd_toolDefinitions deps)),
        (''effort'', JStr (case Option.bind (kd_investigation deps) iv_effort of Some e \<Rightarrow> e | None \<Rightarrow> ''high'')), (''stream'', JBool True)])"

definition assistant_echo :: "string \<Rightarrow> json list \<Rightarrow> llm_message" where
  "assistant_echo content bounded = plain_message Role_assistant
     (if js_trim content \<noteq> [] then content
      else ''[requested '' @ nat_str (length bounded) @ '' tool call(s): '' @ js_join '', '' (map call_name bounded) @ '']'')"

text \<open>\<open>left\<close> turns remain of \<open>cap\<close>; the turn that runs is \<open>cap - left + 1\<close>.\<close>

fun investigation_turns :: "'w confirm_deps \<Rightarrow> 'w asker \<Rightarrow> 's confirm_scope_scheme \<Rightarrow> int \<Rightarrow> nat \<Rightarrow> llm_message list \<Rightarrow> nat
    \<Rightarrow> ('w, investigation_outcome) io" where
  "investigation_turns deps ask input cap 0 messages calls w =
     (Inr (inconclusive (''investigation exhausted its '' @ nat_str (nat cap) @ ''-turn budget without a submitted conclusion; treated as inconclusive ''
        @ ''(fail-safe - budget exhaustion never confirms).'') cap calls True), w)"
| "investigation_turns deps ask input cap (Suc left) messages calls w =
     (let turn = cap - int left in
      case throwIfKilled deps ''kill switch activated - halting Layer 3 investigation'' w of
        (Inl e, w1) \<Rightarrow> (Inl e, w1)
      | (Inr u, w1) \<Rightarrow>
          (case runStreamedTurn deps ask (investigation_request deps input messages) w1 of
             (Inl e, w2) \<Rightarrow> (Inr (inconclusive (''investigation call failed on turn '' @ nat_str (nat turn) @ '': '' @ error_message e
                @ '' (fail-safe - treated as inconclusive).'') turn calls False), w2)
           | (Inr (content, tools), w2) \<Rightarrow>
               (case find (\<lambda>c. call_name c = SUBMIT_CONCLUSION_TOOL) tools of
                  Some c \<Rightarrow> (Inr (parseConclusion (object_field c ''input'') turn calls), w2)
                | None \<Rightarrow>
                    if tools = []
                    then (Inr (case tryParseFreeformConclusion (cd_parse (kd_review deps)) content turn calls of
                            Some outcome \<Rightarrow> outcome
                          | None \<Rightarrow> inconclusive (''model returned no tool call and no parseable conclusion on turn '' @ nat_str (nat turn)
                              @ ''; investigation ended (fail-safe).'') turn calls False), w2)
                    else (let bounded = take MAX_TOOL_CALLS_PER_TURN tools; (results, w3) = run_tools deps bounded w2 in
                          investigation_turns deps ask input cap left (messages @ assistant_echo content bounded # results)
                            (calls + length bounded) w3))))"

definition turns_cap :: "int option \<Rightarrow> int" where
  "turns_cap maxTurns = min (max 1 (case maxTurns of Some n \<Rightarrow> n | None \<Rightarrow> DEFAULT_MAX_TURNS)) ABSOLUTE_MAX_INVESTIGATION_TURNS"

definition runInvestigation :: "'w confirm_deps \<Rightarrow> 's confirm_scope_scheme \<Rightarrow> int option \<Rightarrow> probable_finding \<Rightarrow> string option
    \<Rightarrow> ('w, investigation_outcome) io" where
  "runInvestigation deps input maxTurns finding prior w =
     (case cd_llm (kd_review deps) of
        None \<Rightarrow> (Inr (inconclusive ''no LLM gateway configured; the investigation loop requires one.'' 0 0 False), w)
      | Some ask \<Rightarrow> investigation_turns deps ask input (turns_cap maxTurns) (nat (turns_cap maxTurns))
          [plain_message Role_user (buildInvestigationUserPrompt (cd_num (kd_review deps)) (cs_appMap input) finding prior)] 0 w)"

section \<open>The investigation path (investigation-pipeline.ts)\<close>

definition combinedScoreOf :: "probable_finding \<Rightarrow> rat" where
  "combinedScoreOf f = fl64 (fl64 (pf_reachabilityScore f * pf_exposureScore f) * pf_impactScore f)"

definition effortScaledMaxTurns :: "probable_finding \<Rightarrow> int option \<Rightarrow> int" where
  "effortScaledMaxTurns finding maxTurns =
     (let configured = (case maxTurns of Some n \<Rightarrow> n | None \<Rightarrow> DEFAULT_MAX_TURNS); score = combinedScoreOf finding in
      if 1 / 2 \<le> score then configured
      else if score < fl64 (15 / 100) then max 2 (js_round (of_int configured / 2))
      else max 2 (js_round (of_int configured * (3 / 4))))"

definition findRouteForInvestigation :: "app_map \<Rightarrow> probable_finding \<Rightarrow> string option \<Rightarrow> app_route option" where
  "findRouteForInvestigation m finding targetRouteId =
     (case (if truthy targetRouteId then find (\<lambda>r. ro_id r = targetRouteId) (am_routes m) else None) of
        Some r \<Rightarrow> Some r | None \<Rightarrow> findRoute m finding)"

definition buildInvestigationArgument :: "probable_finding \<Rightarrow> investigation_outcome \<Rightarrow> executable_evidence \<Rightarrow> adversarial_outcome \<Rightarrow> string" where
  "buildInvestigationArgument finding iv ev ao = js_join [newline] (filter (\<lambda>l. l \<noteq> [])
     [''Agentic investigation proof (E1 investigation + E2 executable evidence + E4 adversarial majority):'',
      ''Investigator's rationale: '' @ io_rationale iv,
      (if io_ownershipCheckFound iv = Some False
       then ''The investigator actively looked for an ownership/authorization check and did NOT find one.'' else []),
      ''Executable evidence (failing_test): '' @ ee_summary ev,
      ''Adversarial verifier panel: '' @ nat_str (ao_confirmVotes ao) @ ''/'' @ nat_str (ao_totalVerifiers ao) @ '' confirmed (required ''
        @ nat_str (ao_requiredVotes ao) @ ''):'',
      js_join [newline] (map (\<lambda>v. ''  - '' @ lens_str (vv_lens v) @ '': '' @ (if vv_confirm v then ''CONFIRM'' else ''reject'') @ '' - '' @ vv_rationale v)
        (ao_verdicts ao)),
      ''Exploit hypothesis: '' @ pf_exploitHypothesis finding])"

definition investigation_proof :: "probable_finding \<Rightarrow> app_route option \<Rightarrow> investigation_outcome \<Rightarrow> executable_evidence \<Rightarrow> adversarial_outcome \<Rightarrow> proof_artifact" where
  "investigation_proof finding route iv ev ao = Static_proof (buildInvestigationArgument finding iv ev ao)
     [\<lparr>hop_location = pf_location finding, hop_authState = (case route of Some r \<Rightarrow> ro_authState r | None \<Rightarrow> Auth_unknown),
       hop_transform = Some ''agentic investigation (E1) - read the handler + traced the flow across files'', hop_note = None\<rparr>] []"

text \<open>Each gate that is not cleared ends the path without a finding.\<close>

definition attemptInvestigationConfirmation :: "'w confirm_deps \<Rightarrow> confirm_input \<Rightarrow> probable_finding \<Rightarrow> string option
    \<Rightarrow> ('w, (confirmed_finding \<times> adversarial_outcome) option) io" where
  "attemptInvestigationConfirmation deps input finding prior =
     (if cd_llm (kd_review deps) = None \<or> \<not> (case kd_investigation deps of Some c \<Rightarrow> iv_enabled c | None \<Rightarrow> False) then io_return None
      else io_bind (runInvestigation deps input (Some (effortScaledMaxTurns finding (Option.bind (kd_investigation deps) iv_maxTurns))) finding prior)
        (\<lambda>iv. if io_verdict iv \<noteq> Confirmed_candidate then io_return None
          else (\<lambda>w. case gatherExecutableEvidence deps (ki_repoRoot input) (io_existingTestFile iv) w of
                  (None, w1) \<Rightarrow> (Inr None, w1)
                | (Some ev, w1) \<Rightarrow>
                    (case runAdversarialVerification deps input finding (io_rationale iv) (ee_summary ev) w1 of
                       (None, w2) \<Rightarrow> (Inr None, w2)
                     | (Some ao, w2) \<Rightarrow>
                         if \<not> ao_confirmed ao then (Inr None, w2)
                         else (let route = findRouteForInvestigation (cs_appMap input) finding (io_targetRouteId iv) in
                           io_bind (assembleConfirmed (kd_review deps) finding route None
                               (investigation_proof finding route iv ev ao) StaticProofT)
                             (\<lambda>f. io_return (Some (f, ao))) w2)))))"

section \<open>Live confirmation (live.ts)\<close>

definition LIVE_CONFIRMABLE_CATEGORIES :: "category list" where
  "LIVE_CONFIRMABLE_CATEGORIES = [Sql_injection, Nosql_injection, Xss, Open_redirect, Ssrf, Idor, Broken_access_control,
     Path_traversal, Command_injection, Xxe, Insecure_deserialization]"

definition isLiveEligible :: "category \<Rightarrow> bool" where
  "isLiveEligible c \<longleftrightarrow> c \<in> set LIVE_CONFIRMABLE_CATEGORIES"

fun CATEGORY_DEFAULT_PARAM :: "category \<Rightarrow> string option" where
  "CATEGORY_DEFAULT_PARAM Sql_injection = Some ''q''"
| "CATEGORY_DEFAULT_PARAM Nosql_injection = Some ''q''"
| "CATEGORY_DEFAULT_PARAM Xss = Some ''q''"
| "CATEGORY_DEFAULT_PARAM Open_redirect = Some ''next''"
| "CATEGORY_DEFAULT_PARAM Ssrf = Some ''url''"
| "CATEGORY_DEFAULT_PARAM Idor = Some ''id''"
| "CATEGORY_DEFAULT_PARAM Path_traversal = Some ''file''"
| "CATEGORY_DEFAULT_PARAM Command_injection = Some ''cmd''"
| "CATEGORY_DEFAULT_PARAM _ = None"

definition paramFor :: "app_map \<Rightarrow> probable_finding \<Rightarrow> string \<Rightarrow> string" where
  "paramFor m finding fallback =
     (let of_route = (if truthy (pf_routeId finding) then find (\<lambda>s. ts_routeId s = pf_routeId finding) (am_taintSources m) else None);
          src = (case of_route of Some s \<Rightarrow> Some s
             | None \<Rightarrow> find (\<lambda>s. loc_file (ts_location s) = loc_file (pf_location finding)) (am_taintSources m))
      in case extractParam (Option.bind src ts_description) EMPTY_HEURISTICS of Some p \<Rightarrow> p | None \<Rightarrow> fallback)"

text \<open>What \<open>confirmLive\<close> does with the verdict of its probes; the route is looked up as for a static proof.\<close>

definition confirmLive :: "'w confirm_deps \<Rightarrow> 's confirm_scope_scheme \<Rightarrow> string \<Rightarrow> probable_finding \<Rightarrow> ('w, string + confirmed_finding) io" where
  "confirmLive deps input target finding =
     io_bind (kd_probe deps target finding) (\<lambda>verdict.
       if lw_success verdict
       then io_bind (assembleConfirmed (kd_review deps) finding (findRoute (cs_appMap input) finding)
              (Some (paramFor (cs_appMap input) finding (case CATEGORY_DEFAULT_PARAM (pf_category finding) of Some p \<Rightarrow> p | None \<Rightarrow> ''q'')))
              (Live_proof target (lw_transcript verdict)) LiveProofT) (\<lambda>f. io_return (Inr f))
       else io_return (Inl (lw_reason verdict)))"

section \<open>The run of layer 3 (confirm.ts)\<close>

definition isEligibleForInvestigation :: "'w confirm_deps \<Rightarrow> probable_finding \<Rightarrow> bool" where
  "isEligibleForInvestigation deps finding =
     (case Option.bind (kd_investigation deps) iv_severities of
        None \<Rightarrow> True
      | Some severities \<Rightarrow>
          if severities = [] then True
          else if baseSeverityForCategory (pf_category finding) \<in> set severities then True
          else (case kd_priorConfirmedShapes deps of
                  Some matches \<Rightarrow> matches (pf_category finding) (loc_file (pf_location finding)) | None \<Rightarrow> False))"

definition hostOfSafe :: "url_parser \<Rightarrow> string \<Rightarrow> string" where
  "hostOfSafe parse url = (case parse url of Some (h, p) \<Rightarrow> h | None \<Rightarrow> url)"

definition scope_json :: "dast_scope_contract \<Rightarrow> json" where
  "scope_json s = JObj [(''maxRequestsPerScan'', JNum (of_nat (maxRequestsPerScan s))),
     (''maxConcurrentRequests'', JNum (of_nat (maxConcurrentRequests s))), (''maxRequestsPerSecond'', JNum (maxRequestsPerSecond s)),
     (''maxMutatingRequests'', JNum (of_nat (maxMutatingRequests s)))]"

text \<open>The target that may be probed. Whatever fails, the run goes on with static proofs only.\<close>

definition authorize_live :: "'w confirm_deps \<Rightarrow> confirm_input \<Rightarrow> ('w, string option) io" where
  "authorize_live deps input =
     (if \<not> (ki_allowLive input \<and> dc_enabled (cfg_dast (ki_config input))) then io_return None
      else case assertLiveAuthorized (kd_parse_url deps) (ki_config input) (ki_allowLive input) (ki_stagingUrl input) of
        Inl e \<Rightarrow> io_return None
      | Inr target \<Rightarrow>
          (case kd_egress deps of
             Inl e \<Rightarrow> io_return None
           | Inr u \<Rightarrow> io_bind (safeAppend deps (agentAudit input ''dast.authorized'' ''Live DAST authorized against allowlisted staging.''
                 [(''host'', JStr (hostOfSafe (kd_parse_url deps) target)),
                  (''allowlistCount'', JNum (of_nat (length (dc_allowlist (cfg_dast (ki_config input)))))),
                  (''scope'', scope_json (dc_scope (cfg_dast (ki_config input))))] None))
               (\<lambda>v. io_return (Some target))))"

definition KNOWN_FP_REASON :: string where
  "KNOWN_FP_REASON = ''Matches a known false positive in the regression corpus (sec. 15); suppressed to the appendix pending re-review (fail-safe).''"

definition demote :: "'w confirm_deps \<Rightarrow> confirm_input \<Rightarrow> probable_finding \<Rightarrow> string \<Rightarrow> string \<Rightarrow> (string \<times> json) list
    \<Rightarrow> ('w, unconfirmed_finding + confirmed_finding) io" where
  "demote deps input finding reason summary metadata =
     io_bind (toUnconfirmed (cd_datetime (kd_review deps)) finding reason) (\<lambda>u.
       io_bind (safeAppend deps (agentAudit input ''finding.demoted'' (summary @ category_str (pf_category finding))
           ([(''category'', JStr (category_str (pf_category finding))), (''exposure'', JStr (exposure_str (pf_exposure finding)))] @ metadata)
           (Some (pf_id finding))))
         (\<lambda>v. io_return (Inl u)))"

definition promote :: "'w confirm_deps \<Rightarrow> confirm_input \<Rightarrow> probable_finding \<Rightarrow> string \<Rightarrow> string \<Rightarrow> (string \<times> json) list
    \<Rightarrow> (string \<times> json) list \<Rightarrow> confirmed_finding \<Rightarrow> ('w, unconfirmed_finding + confirmed_finding) io" where
  "promote deps input finding how pkind extra votes f =
     io_bind (safeAppend deps (agentAudit input ''finding.confirmed'' (''Confirmed ('' @ how @ ''): '' @ cn_title f)
         ([(''proofType'', JStr pkind)] @ extra @ [(''category'', JStr (category_str (pf_category finding))),
           (''severity'', JStr (severity_str (cn_severity f)))] @ votes) (Some (pf_id finding))))
       (\<lambda>v. io_return (Inr f))"

definition static_reason :: "static_outcome \<Rightarrow> string option" where
  "static_reason st = (case st of Static_unconfirmed r hops \<Rightarrow> Some r | Static_confirmed f hops \<Rightarrow> None)"

definition unconfirmed_reason :: "string option \<Rightarrow> string option \<Rightarrow> string" where
  "unconfirmed_reason static live =
     (let joined = js_join '' | '' (map the (filter truthy [static, live])) in if joined = [] then ''not confirmed'' else joined)"

text \<open>The last resort for a finding that no proof confirmed.\<close>

definition investigate_or_keep :: "'w confirm_deps \<Rightarrow> confirm_input \<Rightarrow> probable_finding \<Rightarrow> string option \<Rightarrow> string option
    \<Rightarrow> ('w, unconfirmed_finding + confirmed_finding) io" where
  "investigate_or_keep deps input finding static live =
     io_bind (if isEligibleForInvestigation deps finding then attemptInvestigationConfirmation deps input finding static else io_return None)
       (\<lambda>investigated.
          case investigated of
            Some (f, ao) \<Rightarrow> promote deps input finding ''investigation'' ''static'' [(''investigationProof'', JBool True)]
              [(''adversarialVotes'', JStr (nat_str (ao_confirmVotes ao) @ ''/'' @ nat_str (ao_totalVerifiers ao)))] f
          | None \<Rightarrow> io_bind (toUnconfirmed (cd_datetime (kd_review deps)) finding (unconfirmed_reason static live)) (\<lambda>u. io_return (Inl u)))"

definition confirm_proofs :: "'w confirm_deps \<Rightarrow> confirm_input \<Rightarrow> string option \<Rightarrow> probable_finding \<Rightarrow> ('w, unconfirmed_finding + confirmed_finding) io" where
  "confirm_proofs deps input target finding =
     io_bind (confirmStatic (kd_review deps) (confirm_scope.truncate input) finding) (\<lambda>st.
       io_bind (case target of
                  Some t \<Rightarrow> if t \<noteq> [] \<and> isLiveEligible (pf_category finding)
                    then io_bind (confirmLive deps input t finding) (\<lambda>l. io_return (Some l)) else io_return None
                | None \<Rightarrow> io_return None)
         (\<lambda>live.
            case live of
              Some (Inr f) \<Rightarrow> promote deps input finding ''live'' ''live'' [] [] f
            | _ \<Rightarrow> (case st of
                Static_confirmed f hops \<Rightarrow> promote deps input finding ''static'' ''static'' [] [] f
              | Static_unconfirmed r hops \<Rightarrow> investigate_or_keep deps input finding (static_reason st)
                  (case live of Some (Inl reason) \<Rightarrow> Some reason | _ \<Rightarrow> None))))"

definition suppressed_finding :: "'w confirm_deps \<Rightarrow> probable_finding \<Rightarrow> bool" where
  "suppressed_finding deps finding =
     (case kd_isKnownFalsePositive deps of
        Some known \<Rightarrow> known (pf_category finding) (loc_file (pf_location finding)) (loc_line (pf_location finding)) | None \<Rightarrow> False)"

definition confirm_finding :: "'w confirm_deps \<Rightarrow> confirm_input \<Rightarrow> string option \<Rightarrow> probable_finding \<Rightarrow> ('w, unconfirmed_finding + confirmed_finding) io" where
  "confirm_finding deps input target finding =
     io_bind (throwIfKilled deps ''kill switch activated - halting Layer 3'') (\<lambda>v.
       if suppressed_finding deps finding
       then demote deps input finding KNOWN_FP_REASON ''Suppressed known false positive (static): '' [(''reason'', JStr ''known_false_positive'')]
       else case structuralConfirmationGate finding (cs_appMap input) of
         Some reason \<Rightarrow> demote deps input finding reason ''Structurally ruled out before confirmation: ''
           [(''reason'', JStr ''structurally_ruled_out''), (''detail'', JStr reason),
            (''routeId'', case pf_routeId finding of Some i \<Rightarrow> JStr i | None \<Rightarrow> JUndef)]
       | None \<Rightarrow> confirm_proofs deps input target finding)"

fun confirm_loop :: "'w confirm_deps \<Rightarrow> confirm_input \<Rightarrow> string option \<Rightarrow> probable_finding list
    \<Rightarrow> ('w, (unconfirmed_finding + confirmed_finding) list) io" where
  "confirm_loop deps input target [] w = (Inr [], w)"
| "confirm_loop deps input target (p # ps) w =
     (case confirm_finding deps input target p w of
        (Inl e, w1) \<Rightarrow> (Inl e, w1)
      | (Inr r, w1) \<Rightarrow>
          (case confirm_loop deps input target ps w1 of
             (Inl e, w2) \<Rightarrow> (Inl e, w2)
           | (Inr rs, w2) \<Rightarrow> (Inr (r # rs), w2)))"

definition the_confirmed :: "('u + 'c) list \<Rightarrow> 'c list" where
  "the_confirmed rs = List.map_filter (\<lambda>r. case r of Inr c \<Rightarrow> Some c | Inl u \<Rightarrow> None) rs"

definition the_unconfirmed :: "('u + 'c) list \<Rightarrow> 'u list" where
  "the_unconfirmed rs = List.map_filter (\<lambda>r. case r of Inl u \<Rightarrow> Some u | Inr c \<Rightarrow> None) rs"

record layer3_out =
  l3_confirmed :: "confirmed_finding list"
  l3_unconfirmed :: "unconfirmed_finding list"

definition layer3_valid :: "(string \<Rightarrow> bool) \<Rightarrow> layer3_out \<Rightarrow> bool" where
  "layer3_valid datetime out \<longleftrightarrow> list_all (confirmed_valid datetime) (l3_confirmed out)
     \<and> list_all (\<lambda>u. probable_valid datetime (uf_probable u)) (l3_unconfirmed out)"

definition confirmFindings :: "'w confirm_deps \<Rightarrow> confirm_input \<Rightarrow> ('w, layer3_out) io" where
  "confirmFindings deps input =
     io_bind (authorize_live deps input) (\<lambda>target.
       io_bind (confirm_loop deps input target (js_sort (\<lambda>a b. pf_rank a \<le> pf_rank b) (ki_probable input))) (\<lambda>rs w.
         let out = \<lparr>l3_confirmed = the_confirmed rs, l3_unconfirmed = the_unconfirmed rs\<rparr> in
         (if layer3_valid (cd_datetime (kd_review deps)) out then Inr out else Inl (Untyped ''ZodError''), w)))"

end
