(* ===== verification/CorrelateFacts.thy ===== *)
theory CorrelateFacts
  imports Correlate
begin

text \<open>
  Layer 2: lookups of the index (\<open>grounding.ts\<close>), the partition of the candidates into root causes
  (\<open>dedup.ts\<close>), the bounds of the scores (\<open>scoring.ts\<close>, \<open>llm.ts\<close>) and the shape of a run
  (\<open>correlate.ts\<close>). The properties of the run are in \<open>CorrelateProps\<close>.
\<close>

section \<open>The index\<close>

lemma in_file_push [simp]: "in_file (push_to k v m) f = in_file m f @ (if f = k then [v] else [])"
  by (auto simp: push_to_def in_file_def split: option.splits)

lemma in_file_index_from: "in_file (index_from file m xs) f = in_file m f @ filter (\<lambda>x. file x = Some f) xs"
  by (induction xs arbitrary: m) (auto split: option.splits)

lemma index_by_get [simp]: "in_file (index_from file [] xs) f = filter (\<lambda>x. file x = Some f) xs"
  by (simp add: in_file_index_from) (simp add: in_file_def)

lemma routes_by_id_mem:
  "jm_get (routes_by_id m rs) i = Some r \<Longrightarrow> jm_get m i = Some r \<or> r \<in> set rs"
  by (induction rs arbitrary: m) (fastforce split: if_splits)+

lemma nearest_from_mem:
  "nearest_from line_of line best xs = Some x \<Longrightarrow> x \<in> set xs \<or> map_option fst best = Some x"
  by (induction xs arbitrary: best) (fastforce simp: Let_def split: option.splits if_splits)+

lemma nearest_from_least:
  assumes "nearest_from line_of line best xs = Some x"
    and "\<And>b d. best = Some (b, d) \<Longrightarrow> \<exists>l. line_of b = Some l \<and> d = line_distance l line"
  shows "\<exists>l. line_of x = Some l \<and> (\<forall>y \<in> set xs. \<forall>l'. line_of y = Some l' \<longrightarrow> line_distance l line \<le> line_distance l' line)
    \<and> (\<forall>b d. best = Some (b, d) \<longrightarrow> line_distance l line \<le> d)"
  using assms
proof (induction xs arbitrary: best)
  case Nil
  then show ?case by (cases best) auto
next
  case (Cons y ys)
  show ?case
  proof (cases "line_of y")
    case None
    then show ?thesis using Cons.IH[of best] Cons.prems by auto
  next
    case (Some l)
    let ?d = "line_distance l line"
    show ?thesis
    proof (cases "case best of None \<Rightarrow> True | Some (b, bd) \<Rightarrow> ?d < bd")
      case True
      then have "nearest_from line_of line (Some (y, ?d)) ys = Some x" using Cons.prems(1) Some by (simp add: Let_def)
      from Cons.IH[OF this] Some True show ?thesis by (fastforce split: option.splits)
    next
      case False
      then have "nearest_from line_of line best ys = Some x" using Cons.prems(1) Some by (simp add: Let_def)
      from Cons.IH[OF this] Cons.prems(2) Some False show ?thesis by (fastforce split: option.splits)
    qed
  qed
qed

lemma ground_route_mem: "ground_route cand (AppMapIndex m) = Some r \<Longrightarrow> r \<in> set (am_routes m)"
  by (auto simp: ground_route_def AppMapIndex_def pickNearestRoute_def Let_def
      dest!: nearest_from_mem routes_by_id_mem split: option.splits if_splits)

section \<open>Root causes\<close>

definition root_key :: "app_map_index \<Rightarrow> candidate_finding \<Rightarrow> string" where
  "root_key ix cand = dedupKey cand (groundCandidate cand ix)"

text \<open>The distinct elements of a list, in the order in which they first occur.\<close>

definition first_occurrences :: "'a list \<Rightarrow> 'a list" where
  "first_occurrences xs = rev (remdups (rev xs))"

lemma first_occurrences_snoc:
  "first_occurrences (xs @ [x]) = (if x \<in> set xs then first_occurrences xs else first_occurrences xs @ [x])"
  by (simp add: first_occurrences_def)

lemma first_occurrences_facts [simp]:
  "distinct (first_occurrences xs)" "set (first_occurrences xs) = set xs" "first_occurrences [] = []"
  by (simp_all add: first_occurrences_def)

lemma index_from_snoc:
  "index_from file m (xs @ [x]) = (case file x of None \<Rightarrow> index_from file m xs | Some f \<Rightarrow> push_to f x (index_from file m xs))"
  by (induction xs arbitrary: m) (simp_all split: option.splits)

lemma jm_get_tabulate: "jm_get (map (\<lambda>k. (k, F k)) ks) k = (if k \<in> set ks then Some (F k) else None)"
  by (induction ks) (auto simp: jm_get_def)

lemma jm_set_tabulate:
  "distinct ks \<Longrightarrow> k \<in> set ks \<Longrightarrow> jm_set k v (map (\<lambda>k. (k, F k)) ks) = map (\<lambda>j. (j, if j = k then v else F j)) ks"
  by (induction ks) (auto simp: jm_set_def)

lemma index_from_tabulates:
  "index_from (\<lambda>x. Some (key x)) [] xs = map (\<lambda>k. (k, filter (\<lambda>x. key x = k) xs)) (first_occurrences (map key xs))"
proof (induction xs rule: rev_induct)
  case (snoc x xs)
  let ?ks = "first_occurrences (map key xs)" and ?F = "\<lambda>k. filter (\<lambda>x. key x = k) xs"
  show ?case
  proof (cases "key x \<in> key ` set xs")
    case True
    then have "push_to (key x) x (map (\<lambda>k. (k, ?F k)) ?ks) = map (\<lambda>j. (j, if j = key x then ?F (key x) @ [x] else ?F j)) ?ks"
      by (simp add: push_to_def jm_get_tabulate jm_set_tabulate)
    also have "\<dots> = map (\<lambda>k. (k, filter (\<lambda>x. key x = k) (xs @ [x]))) ?ks" by (intro map_cong) auto
    finally show ?thesis using snoc True by (simp add: index_from_snoc first_occurrences_snoc)
  next
    case False
    then have "filter (\<lambda>y. key y = key x) xs = []" by (auto simp: filter_empty_conv) (metis imageI)
    moreover have "map (\<lambda>k. (k, filter (\<lambda>x. key x = k) (xs @ [x]))) ?ks = map (\<lambda>k. (k, ?F k)) ?ks"
      using False by (intro map_cong) auto
    moreover have "push_to (key x) x (map (\<lambda>k. (k, ?F k)) ?ks) = map (\<lambda>k. (k, ?F k)) ?ks @ [(key x, [x])]"
      using False by (simp add: push_to_def jm_get_tabulate jm_set_fresh)
    ultimately show ?thesis using snoc False by (simp add: index_from_snoc first_occurrences_snoc)
  qed
qed simp

lemma snd_bucket_from: "snd (bucket_from ix gs bs cs) = index_from (\<lambda>c. Some (root_key ix c)) bs cs"
  by (induction cs arbitrary: gs bs) (auto simp: root_key_def Let_def)

lemma fst_bucket_from:
  "jm_get (fst (bucket_from ix gs bs cs)) i = (case find (\<lambda>c. cf_id c = i) (rev cs) of
     Some c \<Rightarrow> Some (groundCandidate c ix) | None \<Rightarrow> jm_get gs i)"
proof (induction cs arbitrary: gs bs)
  case (Cons c cs)
  have "find P (ys @ [x]) = (case find P ys of Some y \<Rightarrow> Some y | None \<Rightarrow> if P x then Some x else None)"
    for P and ys and x :: candidate_finding by (induction ys) auto
  then show ?case using Cons by (auto simp: Let_def split: option.splits)
qed simp

lemma better_of_mem: "better_of b cs \<in> insert b (set cs)"
  by (induction cs arbitrary: b) (auto simp: Let_def)

lemma pickRepresentative_mem: "cs \<noteq> [] \<Longrightarrow> \<exists>c \<in> set cs. pickRepresentative cs = Some c"
  using better_of_mem by (cases cs) auto

lemma better_of_severity: "\<forall>c \<in> insert b (set cs). SEVERITY_WEIGHT (cf_rawSeverity c) \<le> SEVERITY_WEIGHT (cf_rawSeverity (better_of b cs))"
proof (induction cs arbitrary: b)
  case (Cons c cs)
  show ?case using Cons[of b] Cons[of c] by (fastforce simp: Let_def)
qed simp

definition group_of :: "app_map_index \<Rightarrow> candidate_finding list \<Rightarrow> string \<Rightarrow> (candidate_finding \<Rightarrow> grounding) \<Rightarrow> root_cause_group" where
  "group_of ix cands key grounded =
     (let members = filter (\<lambda>c. root_key ix c = key) cands; rep = the (pickRepresentative members) in
      \<lparr>rg_key = key, rg_category = cf_category rep, rg_candidates = members, rg_representative = rep,
       rg_grounding = grounded rep\<rparr>)"

lemma groupCandidates_eq:
  "groupCandidates cands ix =
     map (\<lambda>k. group_of ix cands k (\<lambda>rep. case find (\<lambda>c. cf_id c = cf_id rep) (rev cands) of
            Some c \<Rightarrow> groundCandidate c ix | None \<Rightarrow> groundCandidate rep ix))
       (first_occurrences (map (root_key ix) cands))"
proof -
  obtain gs bs where b: "bucket_from ix [] [] cands = (gs, bs)" by fastforce
  have bs: "bs = map (\<lambda>k. (k, filter (\<lambda>x. root_key ix x = k) cands)) (first_occurrences (map (root_key ix) cands))"
    using snd_bucket_from[of ix "[]" "[]" cands] b by (simp add: index_from_tabulates)
  have gs: "jm_get gs i = (case find (\<lambda>c. cf_id c = i) (rev cands) of Some c \<Rightarrow> Some (groundCandidate c ix) | None \<Rightarrow> None)" for i
    using fst_bucket_from[of ix "[]" "[]" cands i] b by (simp cong: option.case_cong)
  show ?thesis unfolding groupCandidates_def b Let_def prod.case bs
    by (simp add: group_of_def Let_def gs option.case_distrib[where h = "\<lambda>x. case x of None \<Rightarrow> _ | Some g \<Rightarrow> g"] cong: option.case_cong)
qed

lemma mset_partition:
  "distinct ks \<Longrightarrow> mset (concat (map (\<lambda>k. filter (\<lambda>x. key x = k) xs) ks)) = mset (filter (\<lambda>x. key x \<in> set ks) xs)"
proof (induction ks)
  case (Cons k ks)
  have "mset (filter (\<lambda>x. key x = k) xs) + mset (filter (\<lambda>x. key x \<in> set ks) xs) = mset (filter (\<lambda>x. key x = k \<or> key x \<in> set ks) xs)"
    using Cons.prems by (induction xs) auto
  then show ?case using Cons by simp
qed simp

lemma mset_concat_groups: "mset (concat (map rg_candidates (groupCandidates cands ix))) = mset cands"
  using mset_partition[of "first_occurrences (map (root_key ix) cands)" "root_key ix" cands]
  by (simp add: groupCandidates_eq comp_def group_of_def Let_def)

lemma group_facts:
  assumes "grp \<in> set (groupCandidates cands ix)"
  shows "rg_representative grp \<in> set (rg_candidates grp)" "set (rg_candidates grp) \<subseteq> set cands"
    and "\<exists>c \<in> set cands. cf_id c = cf_id (rg_representative grp) \<and> rg_grounding grp = groundCandidate c ix"
proof -
  from assms obtain k where k: "k \<in> root_key ix ` set cands"
    and grp: "grp = group_of ix cands k (\<lambda>rep. case find (\<lambda>c. cf_id c = cf_id rep) (rev cands) of
            Some c \<Rightarrow> groundCandidate c ix | None \<Rightarrow> groundCandidate rep ix)"
    by (auto simp: groupCandidates_eq)
  let ?ms = "filter (\<lambda>c. root_key ix c = k) cands"
  have "?ms \<noteq> []" using k by (auto simp: filter_empty_conv)
  then obtain c where c: "c \<in> set ?ms" "pickRepresentative ?ms = Some c" using pickRepresentative_mem by blast
  then show rep: "rg_representative grp \<in> set (rg_candidates grp)" by (simp add: grp group_of_def Let_def)
  show "set (rg_candidates grp) \<subseteq> set cands" by (auto simp: grp group_of_def Let_def)
  have "find (\<lambda>x. cf_id x = cf_id c) (rev cands) \<noteq> None" using c(1) by (auto simp: find_None_iff)
  then show "\<exists>c \<in> set cands. cf_id c = cf_id (rg_representative grp) \<and> rg_grounding grp = groundCandidate c ix"
    using c by (fastforce simp: grp group_of_def Let_def dest: find_Some_mem)
qed

section \<open>Scores\<close>

lemma clamp01_bounds [simp]: "0 \<le> clamp01 x" "clamp01 x \<le> 1"
  by (simp_all add: clamp01_def)

lemma clamp01_mono: "x \<le> y \<Longrightarrow> clamp01 x \<le> clamp01 y"
  by (auto simp: clamp01_def min_def max_def)

lemma clamp01_id: "0 \<le> x \<Longrightarrow> x \<le> 1 \<Longrightarrow> clamp01 x = x"
  by (simp add: clamp01_def)

lemma fl64_clamp01 [simp]: "fl64 x = x \<Longrightarrow> fl64 (clamp01 x) = clamp01 x"
  by (simp add: clamp01_def min_def max_def)

lemma fl64_max: "fl64 x = x \<Longrightarrow> fl64 y = y \<Longrightarrow> fl64 (max x y) = max x y"
  by (simp add: max_def)

lemma round3_mono: "x \<le> y \<Longrightarrow> round3 x \<le> round3 y"
  unfolding round3_def
  by (intro fl64_mono divide_right_mono) (simp_all add: js_round_mono fl64_mono clamp01_mono)

lemma round3_0: "round3 0 = 0"
proof -
  have "\<lfloor>1 / 2 :: rat\<rfloor> = 0" by (rule floor_unique) auto
  then show ?thesis by (simp add: round3_def clamp01_def js_round_def)
qed

lemma round3_1: "round3 1 = 1"
proof -
  have "fl64 (1000 :: rat) = 1000" using fl64_int[of 1000] by simp
  moreover have "\<lfloor>2001 / 2 :: rat\<rfloor> = 1000" by (rule floor_unique) auto
  ultimately show ?thesis by (simp add: round3_def clamp01_def js_round_def)
qed

lemma round3_clamp: "round3 (clamp01 x) = round3 x"
  by (simp add: round3_def clamp01_id)

lemma round3_valid [simp]: "score01_valid (round3 x)"
  using round3_mono[of 0 "clamp01 x"] round3_mono[of "clamp01 x" 1]
  by (simp add: score01_valid_def round3_clamp round3_0 round3_1)

text \<open>The interval around a deterministic score that a response can reach.\<close>

definition nudged :: "correlate_input \<Rightarrow> rat \<Rightarrow> rat \<Rightarrow> bool" where
  "nudged input base r \<longleftrightarrow>
     (let step = fl64 (max_delta_of input * trust_of input) in
      clamp01 (fl64 (base - step)) \<le> r \<and> r \<le> clamp01 (fl64 (base + step)))"

lemma unit_settings: "0 \<le> trust_of input" "0 \<le> max_delta_of input" "trust_of input \<le> 1" "max_delta_of input \<le> 1"
  by (simp_all add: trust_of_def max_delta_of_def clampUnit_def)

lemma base_nudged:
  assumes "fl64 b = b" "0 \<le> b" "b \<le> 1"
  shows "nudged input b b"
proof -
  have s: "0 \<le> fl64 (max_delta_of input * trust_of input)"
    using fl64_mono[of 0 "max_delta_of input * trust_of input"] unit_settings[of input] by simp
  have "clamp01 (fl64 (b - fl64 (max_delta_of input * trust_of input))) \<le> clamp01 (fl64 b)"
    by (intro clamp01_mono fl64_mono) (use s in simp)
  moreover have "clamp01 (fl64 b) \<le> clamp01 (fl64 (b + fl64 (max_delta_of input * trust_of input)))"
    by (intro clamp01_mono fl64_mono) (use s in simp)
  ultimately show ?thesis using assms by (simp add: nudged_def Let_def clamp01_id)
qed

lemma blendScore_nudged:
  assumes b: "fl64 b = b" "0 \<le> b" "b \<le> 1"
  shows "nudged input b (blendScore b llm (trust_of input) (max_delta_of input))"
proof (cases llm)
  case None
  then show ?thesis using base_nudged[OF b] by (simp add: blendScore_def)
next
  case (Some l)
  let ?t = "trust_of input" and ?d = "max_delta_of input"
  let ?x = "min ?d (max (- ?d) (fl64 (l - b)))"
  have x: "- ?d \<le> ?x" "?x \<le> ?d" using unit_settings(2)[of input] by auto
  have up: "fl64 (?x * ?t) \<le> fl64 (?d * ?t)" by (intro fl64_mono mult_right_mono x unit_settings)
  have "fl64 (- ?d * ?t) \<le> fl64 (?x * ?t)" by (intro fl64_mono mult_right_mono x unit_settings)
  then have "- fl64 (?d * ?t) \<le> fl64 (?x * ?t)" by (simp add: fl64_minus)
  then have "clamp01 (fl64 (b - fl64 (?d * ?t))) \<le> clamp01 (fl64 (b + fl64 (?x * ?t)))"
    by (intro clamp01_mono fl64_mono) simp
  moreover have "clamp01 (fl64 (b + fl64 (?x * ?t))) \<le> clamp01 (fl64 (b + fl64 (?d * ?t)))"
    by (intro clamp01_mono fl64_mono) (use up in simp)
  ultimately show ?thesis by (simp add: nudged_def blendScore_def Some Let_def)
qed

lemma reach_unit: "fl64 (reachabilityScoreFor g) = reachabilityScoreFor g" "0 \<le> reachabilityScoreFor g" "reachabilityScoreFor g \<le> 1"
proof -
  have h: "fl64 (1 / 2) = 1 / 2" "fl64 (1 / 4) = 1 / 4"
    using fl64_exact[of "1 / 2" 1 "-1"] fl64_exact[of "1 / 4" 1 "-2"] by (simp_all add: pow2_def)
  show "fl64 (reachabilityScoreFor g) = reachabilityScoreFor g"
    by (auto simp: reachabilityScoreFor_def h split: finding_class.splits)
  have u: "0 \<le> fl64 x \<and> fl64 x \<le> 1" if "0 \<le> x" "x \<le> 1" for x :: rat
    using that fl64_mono[of 0 x] fl64_mono[of x 1] by simp
  show "0 \<le> reachabilityScoreFor g" "reachabilityScoreFor g \<le> 1"
    by (auto simp: reachabilityScoreFor_def u split: finding_class.splits)
qed

lemma impact_unit: "fl64 (impactScoreFor c g) = impactScoreFor c g" "0 \<le> impactScoreFor c g" "impactScoreFor c g \<le> 1"
  by (simp_all add: impactScoreFor_def Let_def fl64_max)

section \<open>The shape of a run\<close>

lemma comparePending_le:
  "comparePending a b \<le> 0 \<longleftrightarrow>
     pn_combined b < pn_combined a \<or> pn_combined b = pn_combined a \<and>
    (pn_impact b < pn_impact a \<or> pn_impact b = pn_impact a \<and>
    (pn_reach b < pn_reach a \<or> pn_reach b = pn_reach a \<and>
    (pn_severity b < pn_severity a \<or> pn_severity b = pn_severity a \<and>
    (pn_priorShapeMatched a \<and> \<not> pn_priorShapeMatched b \<or> pn_priorShapeMatched a = pn_priorShapeMatched b \<and>
    (pn_category a < pn_category b \<or> pn_category a = pn_category b \<and> pn_rootCauseId a \<le> pn_rootCauseId b)))))"
  by (auto simp: comparePending_def)

interpretation pending_order: comparator "\<lambda>a b. comparePending a b \<le> 0"
proof
  show "comparePending x y \<le> 0 \<or> comparePending y x \<le> 0" for x y
    unfolding comparePending_le by (metis linorder_less_linear less_imp_le order_refl)
  show "comparePending x y \<le> 0 \<Longrightarrow> comparePending y z \<le> 0 \<Longrightarrow> comparePending x z \<le> 0" for x y z
    unfolding comparePending_le by (elim disjE conjE) auto
qed

text \<open>What the code computes for a promoted group, whatever the effects did.\<close>

definition promotes :: "bool \<Rightarrow> correlate_input \<Rightarrow> root_cause_group \<Rightarrow> pending_probable \<Rightarrow> bool" where
  "promotes llm input grp p \<longleftrightarrow>
     (let base = scoreGrounding (rg_representative grp) (rg_grounding grp) in
      (\<exists>h e. pn_build p = (\<lambda>rank. parseProbable (ci_datetime input) (probable_of input grp (pn_reach p) (pn_impact p) h e rank)))
      \<and> pn_combined p = fl64 (fl64 (pn_reach p * sr_exposureScore base) * pn_impact p)
      \<and> nudged input (sr_reachabilityScore base) (pn_reach p) \<and> nudged input (sr_impactScore base) (pn_impact p)
      \<and> (\<not> llm \<longrightarrow> pn_reach p = sr_reachabilityScore base \<and> pn_impact p = sr_impactScore base))"

lemma enriched_nudged:
  assumes "base = scoreGrounding rep g"
    and "nr_reach fb = sr_reachabilityScore base" and "nr_impact fb = sr_impactScore base"
  shows "nudged input (sr_reachabilityScore base) (nr_reach (enriched_by input base fb r))
    \<and> nudged input (sr_impactScore base) (nr_impact (enriched_by input base fb r))"
  using assms
  by (auto simp: enriched_by_def scoreGrounding_def reach_unit impact_unit intro!: blendScore_nudged base_nudged split: option.splits)

lemma runLlmEnrichment_nudged:
  assumes "base = scoreGrounding rep g" and "runLlmEnrichment eff input ask grp base h e w = (en, w')"
  shows "nudged input (sr_reachabilityScore base) (nr_reach en) \<and> nudged input (sr_impactScore base) (nr_impact en)"
proof -
  let ?fb = "\<lparr>nr_reach = sr_reachabilityScore base, nr_impact = sr_impactScore base, nr_reachHypothesis = h, nr_exploitHypothesis = e\<rparr>"
  have "en = ?fb \<or> (\<exists>r. en = enriched_by input base ?fb r)"
    using assms(2) by (auto simp: runLlmEnrichment_def Let_def split: prod.splits sum.splits)
  then show ?thesis
    using enriched_nudged[OF assms(1), of ?fb input] assms(1)
    by (auto simp: scoreGrounding_def reach_unit impact_unit intro!: base_nudged)
qed

lemma promote_group_promotes: "promotes (use_llm eff input) input grp (fst (promote_group eff input grp w))"
proof -
  let ?rep = "rg_representative grp" and ?g = "rg_grounding grp"
  let ?base = "scoreGrounding ?rep ?g"
  let ?h = "reachabilityHypothesis ?rep ?g" and ?e = "exploitHypothesis ?rep ?g (ci_appMap input)"
  let ?fb = "\<lparr>nr_reach = sr_reachabilityScore ?base, nr_impact = sr_impactScore ?base, nr_reachHypothesis = ?h, nr_exploitHypothesis = ?e\<rparr>"
  obtain en w1 where en: "(if use_llm eff input then runLlmEnrichment eff input (the (ce_complete eff)) grp ?base ?h ?e w else (?fb, w)) = (en, w1)"
    by fastforce
  obtain note1 w2 where nt: "(case ce_semanticSearch eff of None \<Rightarrow> (None, w1) | Some s \<Rightarrow> semanticGroundingNote s ?rep w1) = (note1, w2)"
    by fastforce
  have n: "nudged input (sr_reachabilityScore ?base) (nr_reach en) \<and> nudged input (sr_impactScore ?base) (nr_impact en)"
  proof (cases "use_llm eff input")
    case True
    then show ?thesis using runLlmEnrichment_nudged[OF refl] en by simp
  next
    case False
    then have "en = ?fb" using en by simp
    then show ?thesis by (auto simp: scoreGrounding_def reach_unit impact_unit intro!: base_nudged)
  qed
  have d: "\<not> use_llm eff input \<Longrightarrow> en = ?fb" using en by simp
  show ?thesis using n d
    by (auto simp: promotes_def promote_group_def Let_def en nt)
qed

lemma demoted_of_groups: "demoted_of (fst (correlate_groups eff input gs w)) = concat (map rg_candidates (filter (demotes input) gs))"
proof (induction gs arbitrary: w)
  case (Cons g gs)
  show ?case using Cons[of w] Cons[of "snd (promote_group eff input g w)"] by (auto simp: Let_def split: prod.splits)
qed simp

lemma pendings_of_groups:
  "list_all2 (promotes (use_llm eff input) input) (filter (\<lambda>g. \<not> demotes input g) gs) (pendings (fst (correlate_groups eff input gs w)))"
proof (induction gs arbitrary: w)
  case (Cons g gs)
  show ?case
    using Cons[of w] Cons[of "snd (promote_group eff input g w)"] promote_group_promotes[of eff input g w]
    by (auto simp: Let_def split: prod.splits)
qed simp

lemma build_from_Inr:
  "build_from i ps = Inr fs \<longleftrightarrow> length fs = length ps \<and> (\<forall>j < length ps. pn_build (ps ! j) (i + j + 1) = Inr (fs ! j))"
proof (induction ps arbitrary: i fs)
  case (Cons p ps)
  show ?case
  proof (cases fs)
    case (Cons f fs')
    have "build_from i (p # ps) = Inr (f # fs') \<longleftrightarrow> pn_build p (i + 1) = Inr f \<and> build_from (i + 1) ps = Inr fs'"
      by (auto simp: ebind_Inr_iff)
    then show ?thesis unfolding Cons Cons.IH by (auto simp: All_less_Suc2)
  qed (auto simp: ebind_Inr_iff)
qed auto

definition promoted_groups :: "correlate_input \<Rightarrow> root_cause_group list" where
  "promoted_groups input = filter (\<lambda>g. \<not> demotes input g) (groupCandidates (ci_candidates input) (AppMapIndex (ci_appMap input)))"

definition demoted_groups :: "correlate_input \<Rightarrow> root_cause_group list" where
  "demoted_groups input = filter (demotes input) (groupCandidates (ci_candidates input) (AppMapIndex (ci_appMap input)))"

lemma run_pendings:
  obtains vs w1 gs qs where
    "correlate_groups eff input (groupCandidates (ci_candidates input) (AppMapIndex (ci_appMap input))) w = (vs, w1)"
    and "qs = js_sort (\<lambda>a b. comparePending a b \<le> 0) (pendings vs)" and "demoted_of vs = concat (map rg_candidates (demoted_groups input))"
    and "mset gs = mset (promoted_groups input)" and "list_all2 (promotes (use_llm eff input) input) gs qs"
    and "sorted_wrt (\<lambda>a b. comparePending a b \<le> 0) qs"
proof -
  let ?G = "groupCandidates (ci_candidates input) (AppMapIndex (ci_appMap input))"
  obtain vs w1 where c: "correlate_groups eff input ?G w = (vs, w1)" by fastforce
  define qs where "qs = js_sort (\<lambda>a b. comparePending a b \<le> 0) (pendings vs)"
  have "list_all2 (promotes (use_llm eff input) input) (promoted_groups input) (pendings vs)"
    using pendings_of_groups[of eff input ?G w] c by (simp add: promoted_groups_def)
  then have flip: "list_all2 (\<lambda>p g. promotes (use_llm eff input) input g p) (pendings vs) (promoted_groups input)"
    by (simp add: list_all2_conv_all_nth)
  have "mset qs = mset (pendings vs)" by (simp add: qs_def)
  from list_all2_reorder_left_invariance[OF flip this]
  obtain gs where "list_all2 (\<lambda>p g. promotes (use_llm eff input) input g p) qs gs" "mset gs = mset (promoted_groups input)" by blast
  then have gs: "list_all2 (promotes (use_llm eff input) input) gs qs" "mset gs = mset (promoted_groups input)"
    by (simp_all add: list_all2_conv_all_nth)
  have "demoted_of vs = concat (map rg_candidates (demoted_groups input))"
    using demoted_of_groups[of eff input ?G w] c by (simp add: demoted_groups_def)
  moreover have "sorted_wrt (\<lambda>a b. comparePending a b \<le> 0) qs" unfolding qs_def by (rule pending_order.sort_sorted)
  ultimately show ?thesis using that c gs qs_def by blast
qed

text \<open>The findings of a run are those of the promoted groups, in the order of the ranking.\<close>

definition finding_of :: "bool \<Rightarrow> correlate_input \<Rightarrow> root_cause_group \<Rightarrow> probable_finding \<Rightarrow> bool" where
  "finding_of llm input grp f \<longleftrightarrow> (\<exists>p h e. promotes llm input grp p \<and> probable_valid (ci_datetime input) f
     \<and> f = probable_of input grp (pn_reach p) (pn_impact p) h e (pf_rank f))"

lemma run_shape:
  assumes "correlate eff input w = (Inr (Layer2_output ps ds), w')"
  obtains gs qs where "mset gs = mset (promoted_groups input)" and "list_all2 (promotes (use_llm eff input) input) gs qs"
    and "sorted_wrt (\<lambda>a b. comparePending a b \<le> 0) qs" and "length ps = length gs"
    and "list_all2 (finding_of (use_llm eff input) input) gs ps" and "map pf_rank ps = [1..<Suc (length ps)]"
    and "ds = concat (map rg_candidates (demoted_groups input))"
proof -
  obtain vs w1 gs qs where r: "correlate_groups eff input (groupCandidates (ci_candidates input) (AppMapIndex (ci_appMap input))) w = (vs, w1)"
    "qs = js_sort (\<lambda>a b. comparePending a b \<le> 0) (pendings vs)" "demoted_of vs = concat (map rg_candidates (demoted_groups input))"
    "mset gs = mset (promoted_groups input)" "list_all2 (promotes (use_llm eff input) input) gs qs"
    "sorted_wrt (\<lambda>a b. comparePending a b \<le> 0) qs"
    by (rule run_pendings)
  from assms r(1-2) have out: "build_from 0 qs = Inr ps" "ds = demoted_of vs"
    by (auto simp: correlate_def Let_def parseLayer2Output_def split: if_splits sum.splits prod.splits)
  note len = list_all2_lengthD[OF r(5)]
  have at_j: "finding_of (use_llm eff input) input (gs ! j) (ps ! j) \<and> pf_rank (ps ! j) = Suc j" if j: "j < length ps" for j
  proof -
    have b: "pn_build (qs ! j) (Suc j) = Inr (ps ! j)" "length ps = length qs" using out(1) j by (auto simp: build_from_Inr)
    have p: "promotes (use_llm eff input) input (gs ! j) (qs ! j)" using r(5) j b(2) len by (simp add: list_all2_conv_all_nth)
    then obtain h e where "pn_build (qs ! j) = (\<lambda>rank. parseProbable (ci_datetime input)
        (probable_of input (gs ! j) (pn_reach (qs ! j)) (pn_impact (qs ! j)) h e rank))"
      unfolding promotes_def Let_def by blast
    with b(1) have "ps ! j = probable_of input (gs ! j) (pn_reach (qs ! j)) (pn_impact (qs ! j)) h e (Suc j)"
      "probable_valid (ci_datetime input) (ps ! j)"
      by (auto simp: parseProbable_def split: if_splits)
    moreover from this(1) have "pf_rank (ps ! j) = Suc j" by (simp add: probable_of_def Let_def)
    ultimately show ?thesis using p unfolding finding_of_def by metis
  qed
  have l: "length ps = length qs" using out(1) by (simp add: build_from_Inr)
  have "map pf_rank ps = [1..<Suc (length ps)]" using at_j by (intro nth_equalityI) (auto simp del: upt_Suc)
  moreover have "list_all2 (finding_of (use_llm eff input) input) gs ps" using at_j l len by (simp add: list_all2_conv_all_nth)
  ultimately show ?thesis using that r(3-6) out(2) l len by metis
qed

section \<open>A run over valid candidates\<close>

definition valid_run :: "'w correlate_effects \<Rightarrow> correlate_input \<Rightarrow> bool" where
  "valid_run eff input \<longleftrightarrow> app_map.am_id (ci_appMap input) \<noteq> [] \<and> ci_scanId input \<noteq> [] \<and> ci_clientId input \<noteq> []
     \<and> ci_datetime input (ci_now input) \<and> list_all (candidate_valid (ci_datetime input)) (ci_candidates input)
     \<and> (\<forall>record_event. ce_audit eff = Some record_event \<longrightarrow> (\<forall>e w. fst (record_event e w) = Inr ()))"

lemma append_all_total: "(\<And>e w. fst (f e w) = Inr ()) \<Longrightarrow> fst (append_all f es w) = Inr ()"
proof (induction es arbitrary: w)
  case (Cons e es)
  obtain w' where "f e w = (Inr (), w')" using Cons.prems[of e w] by (metis prod.collapse)
  then show ?case using Cons by simp
qed simp

lemma probable_of_valid:
  assumes "valid_run eff input" and "grp \<in> set (groupCandidates (ci_candidates input) ix)" and "0 < rank"
  shows "probable_valid (ci_datetime input) (probable_of input grp rch imp h e rank)"
proof -
  have sub: "set (rg_candidates grp) \<subseteq> set (ci_candidates input)" and rep: "rg_representative grp \<in> set (rg_candidates grp)"
    using group_facts[OF assms(2)] by auto
  have c: "cf_id c \<noteq> [] \<and> loc_file (cf_location c) \<noteq> []" if "c \<in> set (rg_candidates grp)" for c
    using that sub assms(1) by (auto simp: valid_run_def list_all_iff candidate_valid_def location_valid_def)
  show ?thesis using assms(1,3) c rep
    by (auto simp: probable_valid_def probable_of_def Let_def location_valid_def valid_run_def list_all_iff
        makeProbableId_def makeRootCauseId_def)
qed

lemma run_total:
  assumes v: "valid_run eff input"
  shows "\<exists>ps ds w'. correlate eff input w = (Inr (Layer2_output ps ds), w') \<and> list_all (probable_valid (ci_datetime input)) ps
    \<and> list_all (candidate_valid (ci_datetime input)) ds"
proof -
  let ?G = "groupCandidates (ci_candidates input) (AppMapIndex (ci_appMap input))" and ?dt = "ci_datetime input"
  obtain vs w1 gs qs where r: "correlate_groups eff input ?G w = (vs, w1)"
    "qs = js_sort (\<lambda>a b. comparePending a b \<le> 0) (pendings vs)" "demoted_of vs = concat (map rg_candidates (demoted_groups input))"
    "mset gs = mset (promoted_groups input)" "list_all2 (promotes (use_llm eff input) input) gs qs"
    "sorted_wrt (\<lambda>a b. comparePending a b \<le> 0) qs"
    by (rule run_pendings)
  have G: "set gs \<subseteq> set ?G" using mset_eq_setD[OF r(4)] by (auto simp: promoted_groups_def)
  have built: "\<exists>f. pn_build (qs ! j) (Suc j) = Inr f \<and> probable_valid ?dt f" if j: "j < length qs" for j
  proof -
    have p: "promotes (use_llm eff input) input (gs ! j) (qs ! j)" and g: "gs ! j \<in> set ?G"
      using r(5) j G by (auto simp: list_all2_conv_all_nth subset_iff)
    from p obtain h e where "pn_build (qs ! j) = (\<lambda>rank. parseProbable ?dt
        (probable_of input (gs ! j) (pn_reach (qs ! j)) (pn_impact (qs ! j)) h e rank))"
      unfolding promotes_def Let_def by blast
    then show ?thesis using probable_of_valid[OF v g, of "Suc j"] by (simp add: parseProbable_def)
  qed
  then obtain F where F: "\<And>j. j < length qs \<Longrightarrow> pn_build (qs ! j) (Suc j) = Inr (F j) \<and> probable_valid ?dt (F j)" by metis
  define ps where "ps = map F [0..<length qs]"
  have b: "build_from 0 qs = Inr ps" using F by (simp add: build_from_Inr ps_def)
  have pv: "list_all (probable_valid ?dt) ps" using F by (simp add: list_all_length ps_def)
  have "set (demoted_of vs) \<subseteq> set (ci_candidates input)"
    unfolding r(3) by (auto simp: demoted_groups_def dest: group_facts(2))
  then have dv: "list_all (candidate_valid ?dt) (demoted_of vs)" using v by (auto simp: valid_run_def list_all_iff)
  have m: "app_map.am_id (ci_appMap input) \<noteq> []" using v by (simp add: valid_run_def)
  obtain w2 where a: "(case ce_audit eff of None \<Rightarrow> (Inr (), w1)
      | Some record_event \<Rightarrow> append_all record_event (map (promoted_audit_input input) ps @ demoted_audits vs) w1) = (Inr (), w2)"
  proof (cases "ce_audit eff")
    case (Some f)
    then have "fst (append_all f es w1) = Inr ()" for es using v append_all_total[of f] by (simp add: valid_run_def)
    then show ?thesis using that Some by (metis option.simps(5) prod.collapse)
  qed (use that in simp)
  have "correlate eff input w = (Inr (Layer2_output ps (demoted_of vs)), w2)"
    using m b a pv dv by (simp add: correlate_def r(1) r(2)[symmetric] parseLayer2Output_def)
  then show ?thesis using pv dv by blast
qed

end
