(* ===== verification/ConfirmFacts.thy ===== *)
theory ConfirmFacts
  imports Confirm CorrelateFacts
begin

text \<open>
  Facts about layer 3: what a static confirmation rests on, what each path of a confirmation leaves
  behind, and the loop over the findings, whose contract is the locale \<open>verdict_loop\<close>.
\<close>

section \<open>Effects\<close>

lemma io_bind_Inl: "io_bind m f w = (Inl e, w'') \<longleftrightarrow>
    m w = (Inl e, w'') \<or> (\<exists>a w'. m w = (Inr a, w') \<and> f a w' = (Inl e, w''))"
  by (auto simp: io_bind_def split: prod.splits sum.splits)

lemma io_bind_step: "m w = (Inr a, w') \<Longrightarrow> io_bind m f w = f a w'"
  by (simp add: io_bind_def)

lemma safeAppend_ok: "safeAppend deps ev w = (Inr (), snd (safeAppend deps ev w))"
  by (simp add: safeAppend_def split: option.splits)

lemma bind_safeAppend [simp]: "io_bind (safeAppend deps ev) f w = f () (snd (safeAppend deps ev w))"
  by (rule io_bind_step) (rule safeAppend_ok)

section \<open>The data flow\<close>

text \<open>What a reachable flow is made of.\<close>

lemma reachable_flow:
  assumes "df_reachable (buildDataFlow m p h)"
  obtains s k where "findSink m p = Some k" and "findSource m p k (findRoute m p) = Some s" and "sa_dangerous (assessSink k h)"
    and "isDataFlowConfirmable (pf_category p)"
    and "df_hops (buildDataFlow m p h) = [source_hop (df_entryAuthState (buildDataFlow m p h)) s (df_param (buildDataFlow m p h)),
      sink_hop (df_entryAuthState (buildDataFlow m p h)) k (assessSink k h)]"
    and "df_source (buildDataFlow m p h) = Some s" and "df_sink (buildDataFlow m p h) = Some k"
    and "df_route (buildDataFlow m p h) = findRoute m p" and "df_sanitizersBypassed (buildDataFlow m p h) = []"
  using assms by (auto simp: buildDataFlow_def Let_def split: if_splits option.splits)

lemma first_of_mem: "first_of xs = Some x \<Longrightarrow> x \<in> set xs"
  by (cases xs) (auto simp: first_of_def)

lemma find_mem: "find P xs = Some x \<Longrightarrow> x \<in> set xs \<and> P x"
  by (induction xs) (auto split: if_splits)

lemma at_line_or_nearest_mem: "at_line_or_nearest f l xs = Some x \<Longrightarrow> x \<in> set xs"
  by (auto simp: at_line_or_nearest_def split: option.splits dest!: find_mem first_of_mem)

text \<open>A sink is one of the map, or the end of a resolved flow that touches the file.\<close>

lemma findSink_cases:
  assumes "findSink m p = Some k"
  shows "tk_kind k \<in> set (DATAFLOW_SINK_KINDS (pf_category p)) \<and> k \<in> set (am_taintSinks m) \<and> loc_file (tk_location k) = loc_file (pf_location p)
    \<or> (\<exists>e \<in> set (am_taintFlows m). tf_sinkKind e \<in> set (DATAFLOW_SINK_KINDS (pf_category p)) \<and> same_place (tk_location k) (tf_sinkLocation e)
        \<and> (k \<in> set (am_taintSinks m) \<or> tk_kind k = tf_sinkKind e \<and> tk_location k = tf_sinkLocation e))"
proof (cases "filter (\<lambda>s. tk_kind s \<in> set (DATAFLOW_SINK_KINDS (pf_category p)) \<and> loc_file (tk_location s) = loc_file (pf_location p)) (am_taintSinks m) = []")
  case False
  then show ?thesis using assms by (auto simp: findSink_def Let_def dest!: at_line_or_nearest_mem)
next
  case True
  then have "findSinkFromFlow m p (DATAFLOW_SINK_KINDS (pf_category p)) = Some k" using assms by (simp add: findSink_def Let_def)
  then obtain e where e: "e \<in> set (am_taintFlows m)" "tf_sinkKind e \<in> set (DATAFLOW_SINK_KINDS (pf_category p))"
    and k: "(case find (\<lambda>s. same_place (tk_location s) (tf_sinkLocation e)) (am_taintSinks m) of
             Some s \<Rightarrow> Some s | None \<Rightarrow> Some \<lparr>tk_kind = tf_sinkKind e, tk_location = tf_sinkLocation e, tk_description = None\<rparr>) = Some k"
    by (auto simp: findSinkFromFlow_def Let_def split: option.splits dest!: at_line_or_nearest_mem)
  from k have "same_place (tk_location k) (tf_sinkLocation e)
    \<and> (k \<in> set (am_taintSinks m) \<or> tk_kind k = tf_sinkKind e \<and> tk_location k = tf_sinkLocation e)"
    by (auto split: option.splits dest!: find_mem simp: same_place_def)
  with e show ?thesis by blast
qed

lemma findSource_cases:
  assumes "findSource m p k route = Some s"
  shows "s \<in> set (am_taintSources m) \<or> (\<exists>e \<in> set (am_taintFlows m). same_place (tf_sinkLocation e) (tk_location k)
    \<and> tf_sourceKind e = Some (ts_kind s) \<and> ts_location s = tf_sourceLocation e)"
  using assms by (auto simp: findSource_def findSourceFromFlow_def Let_def split: option.splits if_splits dest!: find_mem)

text \<open>A dangerous sink carries no safe marker.\<close>

lemma dangerous_sink:
  assumes "sa_dangerous (assessSink k h)"
  shows "find (js_includes (js_lower (described (tk_description k)))) (SAFE_MARKERS @ rh_safeMarkers h) = None"
    and "(\<exists>x \<in> set (UNSAFE_MARKERS @ rh_unsafeMarkers h). js_includes (js_lower (described (tk_description k))) x)
      \<or> tk_kind k \<in> set (RAW_SINK_KINDS @ rh_rawSinkKinds h)"
  using assms by (auto simp: assessSink_def Let_def split: option.splits if_splits dest!: find_mem)

lemma find_append_None: "find P (xs @ ys) = None \<longleftrightarrow> find P xs = None \<and> find P ys = None"
  by (auto simp: find_None_iff)

text \<open>More safe markers leave a sink that stays dangerous as it was.\<close>

lemma assess_more_safe:
  assumes "sa_dangerous (assessSink k (h\<lparr>rh_safeMarkers := xs @ ys\<rparr>))"
  shows "assessSink k (h\<lparr>rh_safeMarkers := xs\<rparr>) = assessSink k (h\<lparr>rh_safeMarkers := xs @ ys\<rparr>)"
proof -
  let ?P = "js_includes (js_lower (described (tk_description k)))"
  have "find ?P (SAFE_MARKERS @ xs @ ys) = None" using dangerous_sink(1)[OF assms] by simp
  moreover from this have "find ?P (SAFE_MARKERS @ xs) = None" by (simp only: find_append_None)
  ultimately show ?thesis
    by (cases h) (simp only: assessSink_def Let_def resolved_heuristics.simps option.case)
qed

lemma flow_more_safe:
  assumes "df_reachable (buildDataFlow m p (h\<lparr>rh_safeMarkers := xs @ ys\<rparr>))"
  shows "buildDataFlow m p (h\<lparr>rh_safeMarkers := xs\<rparr>) = buildDataFlow m p (h\<lparr>rh_safeMarkers := xs @ ys\<rparr>)"
proof -
  obtain k where k: "findSink m p = Some k" and d: "sa_dangerous (assessSink k (h\<lparr>rh_safeMarkers := xs @ ys\<rparr>))"
    by (rule reachable_flow[OF assms]) blast
  have "extractParam d (h\<lparr>rh_safeMarkers := xs\<rparr>) = extractParam d (h\<lparr>rh_safeMarkers := xs @ ys\<rparr>)" for d
    by (simp add: extractParam_def)
  then show ?thesis by (simp add: buildDataFlow_def Let_def k assess_more_safe[OF d])
qed

section \<open>The static path\<close>

lemma runLlmReview_none: "cd_llm deps = None \<Longrightarrow> runLlmReview deps scope df p = io_return None"
  by (simp add: runLlmReview_def)

lemma assemble_Inr [simp]:
  "assembleConfirmed deps p route param artifact t w = (Inr f, w') \<longleftrightarrow>
     w' = w \<and> f = assembled deps p route param artifact t \<and> confirmed_valid (cd_datetime deps) f"
  by (auto simp: assembleConfirmed_def Let_def)

lemma static_confirmed:
  assumes "confirmStatic deps scope p w = (Inr (Static_confirmed f hops), w')"
  obtains df review where "df = buildDataFlow (cs_appMap scope) p (heuristics_for deps (cs_appMap scope))" and "df_reachable df"
    and "hops = df_hops df" and "\<not> vetoed deps review" and "confirmed_valid (cd_datetime deps) f"
    and "f = assembled deps p (df_route df) (df_param df)
           (Static_proof (with_review (buildStaticArgument df p) review) (df_hops df) (df_sanitizersBypassed df)) StaticProofT"
proof -
  let ?df = "buildDataFlow (cs_appMap scope) p (heuristics_for deps (cs_appMap scope))"
  have "df_reachable ?df" using assms by (auto simp: confirmStatic_def Let_def split: if_splits)
  moreover from this assms obtain review w1 where
    "(if vetoed deps review
        then io_return (Static_unconfirmed (df_reason ?df @ '' However, the confirmation-tier model judged it NOT exploitable on review - ''
               @ ''demoted to the appendix (fail-safe, golden rule #4).'') (df_hops ?df))
        else io_bind (assembleConfirmed deps p (df_route ?df) (df_param ?df)
               (Static_proof (with_review (buildStaticArgument ?df p) review) (df_hops ?df) (df_sanitizersBypassed ?df)) StaticProofT)
             (\<lambda>f. io_return (Static_confirmed f (df_hops ?df)))) w1 = (Inr (Static_confirmed f hops), w')"
    by (auto simp: confirmStatic_def Let_def io_bind_Inr)
  ultimately show ?thesis using that[of ?df review] by (auto simp: io_bind_Inr split: if_splits)
qed

section \<open>The loop\<close>

text \<open>
  A loop that decides item by item, in order, and ends at the first error. Its client learns that
  every item has its verdict.
\<close>

locale verdict_loop =
  fixes decide :: "'p \<Rightarrow> ('w, 'r) io"
    and loop :: "'p list \<Rightarrow> ('w, 'r list) io"
    and settles :: "'p \<Rightarrow> 'r \<Rightarrow> bool"
  assumes loop_Nil: "loop [] w = (Inr [], w)"
    and loop_Cons: "loop (p # ps) w = (case decide p w of (Inl e, w1) \<Rightarrow> (Inl e, w1)
        | (Inr r, w1) \<Rightarrow> (case loop ps w1 of (Inl e, w2) \<Rightarrow> (Inl e, w2) | (Inr rs, w2) \<Rightarrow> (Inr (r # rs), w2)))"
    and decided: "decide p w = (Inr r, w') \<Longrightarrow> settles p r"
begin

lemma loop_settles: "loop ps w = (Inr rs, w') \<Longrightarrow> list_all2 settles ps rs"
  by (induction ps arbitrary: w rs w')
    (auto simp: loop_Nil loop_Cons dest: decided split: prod.splits sum.splits)

lemma loop_total:
  assumes "\<And>p w. p \<in> set ps \<Longrightarrow> \<exists>r w'. decide p w = (Inr r, w')"
  shows "\<exists>rs w'. loop ps w = (Inr rs, w')"
  using assms
proof (induction ps arbitrary: w)
  case Nil
  show ?case by (simp add: loop_Nil)
next
  case (Cons p ps)
  obtain r w1 where "decide p w = (Inr r, w1)" by (meson Cons.prems list.set_intros(1))
  moreover obtain rs w2 where "loop ps w1 = (Inr rs, w2)" using Cons.IH[of w1] Cons.prems by (meson list.set_intros(2))
  ultimately show ?case by (simp add: loop_Cons)
qed

lemma loop_cost:
  fixes cost :: "'w \<Rightarrow> nat"
  assumes "\<And>p w. cost (snd (decide p w)) \<le> cost w + b"
  shows "cost (snd (loop ps w)) \<le> cost w + b * length ps"
proof (induction ps arbitrary: w)
  case Nil
  show ?case by (simp add: loop_Nil)
next
  case (Cons p ps)
  have "cost (snd (loop (p # ps) w)) \<le> cost (snd (decide p w)) + b * length ps"
  proof (cases "decide p w")
    case (Pair r w1)
    then show ?thesis using Cons.IH[of w1]
      by (cases r; cases "loop ps w1"; cases "fst (loop ps w1)") (auto simp: loop_Cons)
  qed
  then show ?case using assms[of p w] by simp
qed

end

section \<open>What each path leaves behind\<close>

definition live_evidence :: "'w confirm_deps \<Rightarrow> string option \<Rightarrow> probable_finding \<Rightarrow> confirmed_finding \<Rightarrow> bool" where
  "live_evidence deps target p f \<longleftrightarrow> (\<exists>t v w w'. target = Some t \<and> t \<noteq> [] \<and> isLiveEligible (pf_category p)
     \<and> kd_probe deps t p w = (Inr v, w') \<and> lw_success v \<and> cn_proofArtifact f = Live_proof t (lw_transcript v))"

definition static_evidence :: "'w confirm_deps \<Rightarrow> app_map \<Rightarrow> probable_finding \<Rightarrow> confirmed_finding \<Rightarrow> bool" where
  "static_evidence deps m p f \<longleftrightarrow> df_reachable (buildDataFlow m p (heuristics_for (kd_review deps) m))
     \<and> (\<exists>argument. cn_proofArtifact f = Static_proof argument (df_hops (buildDataFlow m p (heuristics_for (kd_review deps) m))) [])"

definition failing_test :: "'w confirm_deps \<Rightarrow> confirm_input \<Rightarrow> investigation_outcome \<Rightarrow> bool" where
  "failing_test deps input iv \<longleftrightarrow> (\<exists>dir tf r w w'. ki_repoRoot input = Some dir \<and> io_existingTestFile iv = Some tf
     \<and> run_test deps dir tf w = (Inr r, w') \<and> tr_ran r \<and> tr_passed r = Some False)"

definition strict_majority :: "'w confirm_deps \<Rightarrow> adversarial_outcome \<Rightarrow> bool" where
  "strict_majority deps ao \<longleftrightarrow> map vv_lens (ao_verdicts ao) = take (verifier_count deps) LENS_ORDER
     \<and> length (ao_verdicts ao) < 2 * length (filter vv_confirm (ao_verdicts ao))"

definition investigation_evidence :: "'w confirm_deps \<Rightarrow> confirm_input \<Rightarrow> probable_finding \<Rightarrow> confirmed_finding \<Rightarrow> bool" where
  "investigation_evidence deps input p f \<longleftrightarrow> isEligibleForInvestigation deps p
     \<and> (\<exists>config. kd_investigation deps = Some config \<and> iv_enabled config)
     \<and> (\<exists>iv ev ao route. io_verdict iv = Confirmed_candidate \<and> failing_test deps input iv \<and> strict_majority deps ao
          \<and> cn_proofArtifact f = investigation_proof p route iv ev ao)"

fun settles :: "'w confirm_deps \<Rightarrow> confirm_input \<Rightarrow> string option \<Rightarrow> probable_finding \<Rightarrow> unconfirmed_finding + confirmed_finding \<Rightarrow> bool" where
  "settles deps input target p (Inl u) \<longleftrightarrow> uf_probable u = p \<and> probable_valid (cd_datetime (kd_review deps)) p"
| "settles deps input target p (Inr f) \<longleftrightarrow> \<not> suppressed_finding deps p \<and> structuralConfirmationGate p (cs_appMap input) = None
     \<and> cn_probableId f = Some (pf_id p) \<and> confirmed_valid (cd_datetime (kd_review deps)) f
     \<and> (live_evidence deps target p f \<or> static_evidence deps (cs_appMap input) p f \<or> investigation_evidence deps input p f)"

lemma assembled_fields [simp]:
  "cn_probableId (assembled deps p route param artifact t) = Some (pf_id p)"
  "cn_proofArtifact (assembled deps p route param artifact t) = artifact"
  "cn_category (assembled deps p route param artifact t) = pf_category p"
  by (simp_all add: assembled_def Let_def)

lemma confirmLive_evidence:
  assumes "confirmLive deps input t p w = (Inr (Inr f), w')" and "t \<noteq> []" and "isLiveEligible (pf_category p)"
  shows "live_evidence deps (Some t) p f \<and> cn_probableId f = Some (pf_id p) \<and> confirmed_valid (cd_datetime (kd_review deps)) f"
  using assms by (auto simp: confirmLive_def io_bind_Inr live_evidence_def split: if_splits)

lemma confirmStatic_evidence:
  assumes "confirmStatic (kd_review deps) (confirm_scope.truncate input) p w = (Inr (Static_confirmed f hops), w')"
  shows "static_evidence deps (cs_appMap input) p f \<and> cn_probableId f = Some (pf_id p) \<and> confirmed_valid (cd_datetime (kd_review deps)) f"
proof -
  have m: "cs_appMap (confirm_scope.truncate input) = cs_appMap input" by (simp add: confirm_scope.truncate_def)
  from assms show ?thesis
    by (rule static_confirmed) (auto simp: m static_evidence_def elim: reachable_flow)
qed

lemma run_verifiers_lenses:
  "run_verifiers deps ask input p rat ev lenses vs w = (vs', w') \<Longrightarrow> map vv_lens vs' = map vv_lens vs @ lenses"
proof (induction lenses arbitrary: vs w)
  case (Cons l lenses)
  obtain v w1 where v: "runOneVerifier deps ask input l (verification_payload p rat ev vs) (pf_id p) w = (v, w1)" by fastforce
  then have "vv_lens v = l"
    by (auto simp: runOneVerifier_def verdict_of_def split: prod.splits sum.splits option.splits json.splits)
  then show ?case using Cons v by simp
qed simp

lemma verdicts_majority:
  assumes "runAdversarialVerification deps input p rat ev w = (Some ao, w')" and "ao_confirmed ao"
  shows "strict_majority deps ao"
proof -
  obtain ask vs w1 where vs: "run_verifiers deps ask input p rat ev (take (verifier_count deps) LENS_ORDER) [] w = (vs, w1)"
    and ao: "ao_verdicts ao = vs" "length (take (verifier_count deps) LENS_ORDER) div 2 + 1 \<le> length (filter vv_confirm vs)"
    using assms by (auto simp: runAdversarialVerification_def Let_def split: option.splits prod.splits)
  note lenses = run_verifiers_lenses[OF vs]
  then have "length vs = length (take (verifier_count deps) LENS_ORDER)" by (metis append_Nil length_map list.simps(8))
  then show ?thesis using lenses ao by (simp add: strict_majority_def)
qed

lemma evidence_test:
  assumes "gatherExecutableEvidence deps (ki_repoRoot input) (io_existingTestFile iv) w = (Some ev, w')"
  shows "failing_test deps input iv"
proof -
  from assms have "truthy (ki_repoRoot input)" "truthy (io_existingTestFile iv)"
    by (auto simp: gatherExecutableEvidence_def split: if_splits)
  then obtain dir tf where r: "ki_repoRoot input = Some dir" "io_existingTestFile iv = Some tf"
    by (cases "ki_repoRoot input"; cases "io_existingTestFile iv") auto
  with assms show ?thesis
    by (auto simp: gatherExecutableEvidence_def failing_test_def split: prod.splits sum.splits if_splits)
qed

lemma investigation_confirmed:
  assumes "attemptInvestigationConfirmation deps input p prior w = (Inr (Some (f, ao)), w')" and "isEligibleForInvestigation deps p"
  shows "investigation_evidence deps input p f \<and> cn_probableId f = Some (pf_id p) \<and> confirmed_valid (cd_datetime (kd_review deps)) f"
proof -
  from assms(1) obtain config where config: "kd_investigation deps = Some config" "iv_enabled config"
    by (auto simp: attemptInvestigationConfirmation_def split: if_splits option.splits)
  from assms(1) obtain iv w1 where iv: "io_verdict iv = Confirmed_candidate"
    and rest: "(case gatherExecutableEvidence deps (ki_repoRoot input) (io_existingTestFile iv) w1 of
                  (None, w1) \<Rightarrow> (Inr None, w1)
                | (Some ev, w1) \<Rightarrow>
                    (case runAdversarialVerification deps input p (io_rationale iv) (ee_summary ev) w1 of
                       (None, w2) \<Rightarrow> (Inr None, w2)
                     | (Some ao, w2) \<Rightarrow>
                         if \<not> ao_confirmed ao then (Inr None, w2)
                         else (let route = findRouteForInvestigation (cs_appMap input) p (io_targetRouteId iv) in
                           io_bind (assembleConfirmed (kd_review deps) p route None
                               (investigation_proof p route iv ev ao) StaticProofT)
                             (\<lambda>f. io_return (Some (f, ao))) w2))) = (Inr (Some (f, ao)), w')"
    by (auto simp: attemptInvestigationConfirmation_def io_bind_Inr split: if_splits)
  then obtain ev w2 where ev: "gatherExecutableEvidence deps (ki_repoRoot input) (io_existingTestFile iv) w1 = (Some ev, w2)"
    by (cases "gatherExecutableEvidence deps (ki_repoRoot input) (io_existingTestFile iv) w1") (auto split: option.splits)
  with rest obtain ao' w3 where ao: "runAdversarialVerification deps input p (io_rationale iv) (ee_summary ev) w2 = (Some ao', w3)"
    by (cases "runAdversarialVerification deps input p (io_rationale iv) (ee_summary ev) w2") (auto split: option.splits)
  with rest ev have c: "ao_confirmed ao'" and f: "\<exists>route. f = assembled (kd_review deps) p route None (investigation_proof p route iv ev ao') StaticProofT"
    "confirmed_valid (cd_datetime (kd_review deps)) f"
    by (auto simp: io_bind_Inr Let_def split: if_splits)
  from f(1) have "\<exists>route. cn_proofArtifact f = investigation_proof p route iv ev ao'" "cn_probableId f = Some (pf_id p)" by auto
  then show ?thesis
    using f(2) config iv assms(2) evidence_test[OF ev] verdicts_majority[OF ao c] unfolding investigation_evidence_def by blast
qed

lemma demote_settles:
  "demote deps input p reason summary metadata w = (Inr r, w') \<Longrightarrow> settles deps input target p r"
  by (auto simp: demote_def toUnconfirmed_def io_bind_Inr split: if_splits)

lemma promote_Inr [simp]:
  "promote deps input p how k extra votes f w = (Inr r, w') \<longleftrightarrow> r = Inr f
     \<and> w' = snd (promote deps input p how k extra votes f w)"
  by (auto simp: promote_def io_return_def)

lemma investigate_settles:
  assumes "investigate_or_keep deps input p static live w = (Inr r, w')"
    and "\<not> suppressed_finding deps p" and "structuralConfirmationGate p (cs_appMap input) = None"
  shows "settles deps input target p r"
proof -
  from assms(1) obtain x w1 where x: "(if isEligibleForInvestigation deps p then attemptInvestigationConfirmation deps input p static else io_return None) w
      = (Inr x, w1)"
    and rest: "(case x of
            Some (f, ao) \<Rightarrow> promote deps input p ''investigation'' ''static'' [(''investigationProof'', JBool True)]
              [(''adversarialVotes'', JStr (nat_str (ao_confirmVotes ao) @ ''/'' @ nat_str (ao_totalVerifiers ao)))] f
          | None \<Rightarrow> io_bind (toUnconfirmed (cd_datetime (kd_review deps)) p (unconfirmed_reason static live)) (\<lambda>u. io_return (Inl u))) w1
      = (Inr r, w')"
    by (auto simp: investigate_or_keep_def io_bind_Inr)
  show ?thesis
  proof (cases x)
    case None
    then show ?thesis using rest by (auto simp: io_bind_Inr toUnconfirmed_def split: if_splits)
  next
    case (Some fa)
    obtain f ao where fa: "fa = (f, ao)" by (cases fa)
    have el: "isEligibleForInvestigation deps p" and
      at: "attemptInvestigationConfirmation deps input p static w = (Inr (Some (f, ao)), w1)"
      using x by (auto simp: Some fa split: if_splits)
    show ?thesis using rest investigation_confirmed[OF at el] assms(2,3) by (auto simp: Some fa)
  qed
qed

lemma proofs_settle:
  assumes "confirm_proofs deps input target p w = (Inr r, w')"
    and "\<not> suppressed_finding deps p" and "structuralConfirmationGate p (cs_appMap input) = None"
  shows "settles deps input target p r"
proof -
  from assms(1) obtain st w1 live w2 where
    st: "confirmStatic (kd_review deps) (confirm_scope.truncate input) p w = (Inr st, w1)"
    and live: "(case target of
                  Some t \<Rightarrow> if t \<noteq> [] \<and> isLiveEligible (pf_category p)
                    then io_bind (confirmLive deps input t p) (\<lambda>l. io_return (Some l)) else io_return None
                | None \<Rightarrow> io_return None) w1 = (Inr live, w2)"
    and rest: "(case live of
              Some (Inr f) \<Rightarrow> promote deps input p ''live'' ''live'' [] [] f
            | _ \<Rightarrow> (case st of
                Static_confirmed f hops \<Rightarrow> promote deps input p ''static'' ''static'' [] [] f
              | Static_unconfirmed r hops \<Rightarrow> investigate_or_keep deps input p (static_reason st)
                  (case live of Some (Inl reason) \<Rightarrow> Some reason | _ \<Rightarrow> None))) w2 = (Inr r, w')"
    by (auto simp: confirm_proofs_def io_bind_Inr)
  show ?thesis
  proof (cases "\<exists>f. live = Some (Inr f)")
    case True
    then obtain f where f: "live = Some (Inr f)" by blast
    with live obtain t w3 where t: "target = Some t" "t \<noteq> []" "isLiveEligible (pf_category p)" "confirmLive deps input t p w1 = (Inr (Inr f), w3)"
      by (auto simp: io_bind_Inr split: option.splits if_splits)
    show ?thesis using rest confirmLive_evidence[OF t(4,2,3)] assms(2,3) t(1) by (auto simp: f)
  next
    case False
    then have l: "live = None \<or> (\<exists>reason. live = Some (Inl reason))"
      by (cases live) (auto split: sum.splits, metis sum.exhaust)
    show ?thesis
    proof (cases st)
      case (Static_confirmed f hops)
      show ?thesis using l rest confirmStatic_evidence[OF st[unfolded Static_confirmed]] assms(2,3) by (auto simp: Static_confirmed)
    next
      case (Static_unconfirmed reason hops)
      from l rest obtain live' where "investigate_or_keep deps input p (static_reason st) live' w2 = (Inr r, w')"
        by (auto simp: Static_unconfirmed)
      then show ?thesis by (rule investigate_settles[OF _ assms(2,3)])
    qed
  qed
qed

lemma finding_settles: "confirm_finding deps input target p w = (Inr r, w') \<Longrightarrow> settles deps input target p r"
  by (auto simp: confirm_finding_def io_bind_Inr split: if_splits option.splits dest: demote_settles proofs_settle)

interpretation confirm_run: verdict_loop "confirm_finding deps input target" "confirm_loop deps input target" "settles deps input target"
  by unfold_locales (auto dest: finding_settles)

end
