(* ===== verification/CorrelateProps.thy ===== *)
theory CorrelateProps
  imports CorrelateFacts StateStore
begin

text \<open>
  The properties of layer 2 (\<open>packages/correlation/src\<close>): what a run conserves, what the language
  model can and cannot change, what a promoted finding is, and how it is identified and stored.
\<close>

section \<open>A concrete run\<close>

definition ex2_location :: "string \<Rightarrow> nat \<Rightarrow> source_location" where
  "ex2_location f l = \<lparr>loc_file = f, loc_line = l, loc_endLine = None, loc_column = None, loc_endColumn = None, loc_symbol = None\<rparr>"

definition ex2_candidate :: "string \<Rightarrow> category \<Rightarrow> string \<Rightarrow> nat \<Rightarrow> severity \<Rightarrow> candidate_finding" where
  "ex2_candidate i cat f l sev = \<lparr>cf_id = i, cf_scanId = ''s1'', cf_clientId = ''acme'', cf_source = Semgrep, cf_ruleId = ''r'',
     cf_category = cat, cf_cwe = [], cf_location = ex2_location f l, cf_rawSeverity = sev, cf_evidenceSnippet = [],
     cf_title = None, cf_createdAt = ''t'', cf_metadata = None\<rparr>"

definition ex2_map :: app_map where
  "ex2_map = app_map.make ''m1'' [Typescript] []
     [\<lparr>ro_id = Some ''r1'', ro_path = ''/r'', ro_method = GET, ro_authState = Auth_public,
       ro_handler = Some (ex2_location ''a.ts'' 5), ro_authGate = None, ro_referencedModels = None\<rparr>] [] [] [] [] [] []"

definition ex2_input :: "candidate_finding list \<Rightarrow> correlate_input" where
  "ex2_input cs = \<lparr>ci_clientId = ''acme'', ci_scanId = ''s1'', ci_appMap = ex2_map, ci_candidates = cs, ci_now = ''t'',
     ci_useLlm = None, ci_llmScoreTrust = None, ci_llmScoreMaxDelta = None, ci_actorId = None,
     ci_isKnownFalsePositive = None, ci_priorConfirmedShapes = None, ci_num = (\<lambda>r. []), ci_parse = (\<lambda>s. None),
     ci_datetime = (\<lambda>s. s \<noteq> [])\<rparr>"

definition ex2_effects :: "nat correlate_effects" where
  "ex2_effects = \<lparr>ce_complete = None, ce_resolvePrompt = None, ce_audit = None, ce_semanticSearch = None\<rparr>"

definition ex2_candidates :: "candidate_finding list" where
  "ex2_candidates = [ex2_candidate ''c1'' Permissive_cors ''a.ts'' 5 Medium, ex2_candidate ''c2'' Permissive_cors ''b.ts'' 9 High,
     ex2_candidate ''c3'' Permissive_cors ''a.ts'' 7 Low]"

lemmas ex2_defs = valid_run_def ex2_effects_def ex2_input_def ex2_candidates_def ex2_candidate_def ex2_map_def
  ex2_location_def app_map.defs candidate_valid_def location_valid_def

lemma ex2_valid: "valid_run ex2_effects (ex2_input ex2_candidates)"
  by (simp add: ex2_defs)

section \<open>Conservation\<close>

lemma finding_ofE:
  assumes "finding_of llm input grp f"
  obtains q h e where "promotes llm input grp q" "f = probable_of input grp (pn_reach q) (pn_impact q) h e (pf_rank f)"
  using assms unfolding finding_of_def by blast

text \<open>What the effects cannot change of a finding.\<close>

definition decided :: "probable_finding \<Rightarrow> probable_finding" where
  "decided f = f\<lparr>pf_reachabilityHypothesis := [], pf_exploitHypothesis := [], pf_reachabilityScore := 0, pf_impactScore := 0, pf_rank := 0\<rparr>"

lemma decided_finding: "finding_of llm input grp f \<Longrightarrow> decided f = decided (probable_of input grp 0 0 [] [] 0)"
  by (erule finding_ofE, erule ssubst) (simp add: decided_def probable_of_def Let_def)

lemma decided_fields [simp]:
  "pf_mergedCandidateIds (decided f) = pf_mergedCandidateIds f" "pf_exposure (decided f) = pf_exposure f"
  "pf_rootCauseId (decided f) = pf_rootCauseId f" "pf_routeId (decided f) = pf_routeId f"
  "pf_exposureScore (decided f) = pf_exposureScore f" "pf_category (decided f) = pf_category f" "pf_id (decided f) = pf_id f"
  by (simp_all add: decided_def)

lemma finding_fields:
  assumes "finding_of llm input grp f"
  shows "pf_mergedCandidateIds f = map cf_id (rg_candidates grp)" "pf_exposure f = gd_exposure (rg_grounding grp)"
    and "pf_routeId f = (if truthy (gd_routeId (rg_grounding grp)) then gd_routeId (rg_grounding grp) else None)"
    and "pf_exposureScore f = round3 (sr_exposureScore (scoreGrounding (rg_representative grp) (rg_grounding grp)))"
    and "pf_rootCauseId f = makeRootCauseId (ci_scanId input) (category_str (cf_category (rg_representative grp))) (rg_key grp)"
proof -
  let ?f = "probable_of input grp 0 0 [] [] 0"
  note d = decided_finding[OF assms]
  show "pf_mergedCandidateIds f = map cf_id (rg_candidates grp)"
    using arg_cong[OF d, of pf_mergedCandidateIds] by (simp add: probable_of_def Let_def)
  show "pf_exposure f = gd_exposure (rg_grounding grp)"
    using arg_cong[OF d, of pf_exposure] by (simp add: probable_of_def Let_def)
  show "pf_routeId f = (if truthy (gd_routeId (rg_grounding grp)) then gd_routeId (rg_grounding grp) else None)"
    using arg_cong[OF d, of pf_routeId] by (simp add: probable_of_def Let_def)
  show "pf_exposureScore f = round3 (sr_exposureScore (scoreGrounding (rg_representative grp) (rg_grounding grp)))"
    using arg_cong[OF d, of pf_exposureScore] by (simp add: probable_of_def Let_def)
  show "pf_rootCauseId f = makeRootCauseId (ci_scanId input) (category_str (cf_category (rg_representative grp))) (rg_key grp)"
    using arg_cong[OF d, of pf_rootCauseId] by (simp add: probable_of_def Let_def)
qed

lemma merged_ids:
  "list_all2 (finding_of llm input) gs ps \<Longrightarrow> concat (map pf_mergedCandidateIds ps) = map cf_id (concat (map rg_candidates gs))"
  by (induction rule: list_all2_induct) (auto simp: finding_fields)

lemma mset_concat_map_mset: "mset gs = mset hs \<Longrightarrow> mset (concat (map f gs)) = mset (concat (map f hs))"
  by (metis mset_concat mset_map sum_mset_sum_list)

text \<open>C14. No candidate is lost and none is counted twice: the identifiers merged into the probable findings
  and those of the demoted candidates are together those of the candidates, whatever the effects
  answered.\<close>

theorem candidates_conserved:
  assumes "correlate eff input w = (Inr (Layer2_output ps ds), w')"
  shows "mset (concat (map pf_mergedCandidateIds ps)) + mset (map cf_id ds) = mset (map cf_id (ci_candidates input))"
proof -
  obtain gs qs where r: "mset gs = mset (promoted_groups input)" "list_all2 (finding_of (use_llm eff input) input) gs ps"
    "ds = concat (map rg_candidates (demoted_groups input))"
    using run_shape[OF assms] by metis
  let ?G = "groupCandidates (ci_candidates input) (AppMapIndex (ci_appMap input))"
  have "mset (concat (map rg_candidates gs)) + mset ds = mset (concat (map rg_candidates ?G))"
    using mset_concat_map_mset[OF r(1), of rg_candidates] sum_list_filter_split[of ?G "demotes input"]
      mset_concat_map_mset[of ?G "demoted_groups input @ promoted_groups input" rg_candidates]
    by (simp add: r(3) promoted_groups_def demoted_groups_def add.commute)
  then have "mset (map cf_id (concat (map rg_candidates gs))) + mset (map cf_id ds) = mset (map cf_id (ci_candidates input))"
    by (metis image_mset_union mset_concat_groups mset_map)
  then show ?thesis by (simp add: merged_ids[OF r(2)])
qed

lemma candidates_conserved_witness:
  "\<exists>ps ds w'. correlate ex2_effects (ex2_input ex2_candidates) 0 = (Inr (Layer2_output ps ds), w')
    \<and> mset (concat (map pf_mergedCandidateIds ps)) + mset (map cf_id ds) = {#''c1'', ''c2'', ''c3''#}"
proof -
  obtain ps ds w' where r: "correlate ex2_effects (ex2_input ex2_candidates) 0 = (Inr (Layer2_output ps ds), w')"
    using run_total[OF ex2_valid] by metis
  from candidates_conserved[OF r] have "mset (concat (map pf_mergedCandidateIds ps)) + mset (map cf_id ds) = {#''c1'', ''c2'', ''c3''#}"
    by (simp add: ex2_input_def ex2_candidates_def ex2_candidate_def)
  with r show ?thesis by blast
qed

section \<open>What the language model decides\<close>

lemma map_decided:
  "list_all2 (finding_of llm input) gs ps \<Longrightarrow> map decided ps = map (\<lambda>g. decided (probable_of input g 0 0 [] [] 0)) gs"
  by (induction rule: list_all2_induct) (auto simp: decided_finding)

text \<open>C15. The application map decides, the model only words and nudges: two runs over the same input, with
  any gateways, prompts, audit logs and semantic indexes, demote the same candidates and promote the same
  findings, with the same root causes, merged candidates, exposure, gate, route and exposure score; they
  can differ in the hypotheses, the two nudged scores and the order.\<close>

theorem effects_decide_no_finding:
  assumes "correlate eff input w = (Inr (Layer2_output ps ds), w1)"
    and "correlate eff' input w' = (Inr (Layer2_output ps' ds'), w1')"
  shows "ds = ds' \<and> mset (map decided ps) = mset (map decided ps')"
proof -
  obtain gs qs where r: "mset gs = mset (promoted_groups input)" "list_all2 (finding_of (use_llm eff input) input) gs ps"
    "ds = concat (map rg_candidates (demoted_groups input))"
    using run_shape[OF assms(1)] by metis
  obtain gs' qs' where r': "mset gs' = mset (promoted_groups input)" "list_all2 (finding_of (use_llm eff' input) input) gs' ps'"
    "ds' = concat (map rg_candidates (demoted_groups input))"
    using run_shape[OF assms(2)] by metis
  show ?thesis using r(1) r'(1) unfolding r(3) r'(3) map_decided[OF r(2)] map_decided[OF r'(2)] by (simp add: mset_map)
qed

text \<open>A model that answers with the highest scores, and counts its calls.\<close>

definition ex2_ask :: "llm_request \<Rightarrow> nat \<Rightarrow> (js_error + llm_response) \<times> nat" where
  "ex2_ask r n = (Inr \<lparr>rs_id = ''1'', rs_provider = Anthropic, rs_model = ''m'', rs_content = ''x'', rs_stopReason = End_turn,
     rs_usage = \<lparr>inputTokens = 1, outputTokens = 1, cacheReadTokens = None, cacheWriteTokens = None, totalTokens = 2\<rparr>,
     rs_latencyMs = 1, rs_toolCalls = None, rs_confidence = None\<rparr>, Suc n)"

definition ex2_asking :: "nat correlate_effects" where
  "ex2_asking = ex2_effects\<lparr>ce_complete := Some ex2_ask\<rparr>"

definition ex2_answer :: "string \<Rightarrow> json option" where
  "ex2_answer s = Some (JObj [(''reachabilityScore'', JNum 1), (''impactScore'', JNum 1)])"

definition ex2_answered :: "candidate_finding list \<Rightarrow> correlate_input" where
  "ex2_answered cs = ex2_input cs\<lparr>ci_parse := ex2_answer\<rparr>"

lemma ex2_asking_valid: "valid_run ex2_asking (ex2_answered ex2_candidates)"
  by (simp add: ex2_defs ex2_asking_def ex2_answered_def)

lemma ex2_silent_valid: "valid_run ex2_effects (ex2_answered ex2_candidates)"
  by (simp add: ex2_defs ex2_asking_def ex2_answered_def)

lemma effects_decide_no_finding_witness:
  "\<exists>ps ds w ps' ds' w'. correlate ex2_asking (ex2_answered ex2_candidates) 0 = (Inr (Layer2_output ps ds), w)
    \<and> correlate ex2_effects (ex2_answered ex2_candidates) 0 = (Inr (Layer2_output ps' ds'), w')
    \<and> ds = ds' \<and> mset (map decided ps) = mset (map decided ps')"
proof -
  obtain ps ds w where a: "correlate ex2_asking (ex2_answered ex2_candidates) 0 = (Inr (Layer2_output ps ds), w)"
    using run_total[OF ex2_asking_valid] by metis
  obtain ps' ds' w' where b: "correlate ex2_effects (ex2_answered ex2_candidates) 0 = (Inr (Layer2_output ps' ds'), w')"
    using run_total[OF ex2_silent_valid] by metis
  show ?thesis using a b effects_decide_no_finding[OF a b] by blast
qed

text \<open>The nudge is bounded: the reachability and the impact that a run reports for a root cause lie within
  the configured step, the maximal delta times the trust, of the scores of the application map, and its
  exposure is the score of the map, whatever the model answered.\<close>

lemma reported_scores_near_map:
  assumes "correlate eff input w = (Inr (Layer2_output ps ds), w')" and "p \<in> set ps"
  shows "\<exists>grp \<in> set (groupCandidates (ci_candidates input) (AppMapIndex (ci_appMap input))).
      pf_mergedCandidateIds p = map cf_id (rg_candidates grp)
    \<and> (let base = scoreGrounding (rg_representative grp) (rg_grounding grp);
           step = fl64 (max_delta_of input * trust_of input);
           low = (\<lambda>s. round3 (fl64 (s - step))); high = (\<lambda>s. round3 (fl64 (s + step))) in
         low (sr_reachabilityScore base) \<le> pf_reachabilityScore p \<and> pf_reachabilityScore p \<le> high (sr_reachabilityScore base)
       \<and> low (sr_impactScore base) \<le> pf_impactScore p \<and> pf_impactScore p \<le> high (sr_impactScore base)
       \<and> pf_exposureScore p = round3 (sr_exposureScore base))"
proof -
  obtain gs where r: "mset gs = mset (promoted_groups input)" "list_all2 (finding_of (use_llm eff input) input) gs ps"
    using run_shape[OF assms(1)] by metis
  then obtain grp where g: "grp \<in> set (promoted_groups input)" "finding_of (use_llm eff input) input grp p"
    using assms(2) by (metis in_set_conv_nth list_all2_conv_all_nth mset_eq_setD)
  then obtain q h e where q: "promotes (use_llm eff input) input grp q"
    "p = probable_of input grp (pn_reach q) (pn_impact q) h e (pf_rank p)" unfolding finding_of_def by blast
  let ?base = "scoreGrounding (rg_representative grp) (rg_grounding grp)"
  have n: "nudged input (sr_reachabilityScore ?base) (pn_reach q)" "nudged input (sr_impactScore ?base) (pn_impact q)"
    using q(1) by (auto simp: promotes_def Let_def)
  have f: "pf_mergedCandidateIds p = map cf_id (rg_candidates grp)" "pf_reachabilityScore p = round3 (pn_reach q)"
    "pf_impactScore p = round3 (pn_impact q)" "pf_exposureScore p = round3 (sr_exposureScore ?base)"
    by (subst q(2), simp add: probable_of_def Let_def)+
  have lift: "round3 (fl64 (b - fl64 (max_delta_of input * trust_of input))) \<le> round3 r
      \<and> round3 r \<le> round3 (fl64 (b + fl64 (max_delta_of input * trust_of input)))" if "nudged input b r" for b r
    using that round3_mono by (metis nudged_def round3_clamp)
  show ?thesis
    using g(1) f lift[OF n(1)] lift[OF n(2)]
    by (intro bexI[of _ grp]) (auto simp: Let_def promoted_groups_def)
qed

lemma ex2_one_valid: "valid_run ex2_asking (ex2_answered (take 1 ex2_candidates))"
  by (simp add: ex2_defs ex2_asking_def ex2_answered_def)

lemma ex2_one_group:
  "map (\<lambda>g. (map cf_id (rg_candidates g), demotes (ex2_answered (take 1 ex2_candidates)) g,
       sr_exposureScore (scoreGrounding (rg_representative g) (rg_grounding g))))
     (groupCandidates (ci_candidates (ex2_answered (take 1 ex2_candidates)))
       (AppMapIndex (ci_appMap (ex2_answered (take 1 ex2_candidates))))) = [([''c1''], False, 1)]"
  by code_simp

lemma ex2_one_run:
  obtains p ds w g where "correlate ex2_asking (ex2_answered (take 1 ex2_candidates)) 0 = (Inr (Layer2_output [p] ds), w)"
    and "groupCandidates (ci_candidates (ex2_answered (take 1 ex2_candidates))) (AppMapIndex (ci_appMap (ex2_answered (take 1 ex2_candidates)))) = [g]"
    and "map cf_id (rg_candidates g) = [''c1'']" and "sr_exposureScore (scoreGrounding (rg_representative g) (rg_grounding g)) = 1"
proof -
  let ?in = "ex2_answered (take 1 ex2_candidates)"
  obtain ps ds w where r: "correlate ex2_asking ?in 0 = (Inr (Layer2_output ps ds), w)"
    using run_total[OF ex2_one_valid] by metis
  obtain g where g: "groupCandidates (ci_candidates ?in) (AppMapIndex (ci_appMap ?in)) = [g]" "\<not> demotes ?in g"
    "map cf_id (rg_candidates g) = [''c1'']" "sr_exposureScore (scoreGrounding (rg_representative g) (rg_grounding g)) = 1"
    using ex2_one_group by (auto simp: map_eq_Cons_conv)
  have pg: "promoted_groups ?in = [g]" unfolding promoted_groups_def g(1) using g(2) by simp
  obtain gs where gs: "mset gs = mset (promoted_groups ?in)" "length ps = length gs" using run_shape[OF r] by metis
  then have "length ps = 1" unfolding pg by (metis One_nat_def length_Cons list.size(3) mset_eq_length)
  then obtain p where "ps = [p]" by (metis One_nat_def length_0_conv length_Suc_conv)
  with r have "correlate ex2_asking ?in 0 = (Inr (Layer2_output [p] ds), w)" by simp
  then show ?thesis by (rule that[OF _ g(1,3,4)])
qed

lemma reported_scores_near_map_witness:
  "\<exists>p ds w'. correlate ex2_asking (ex2_answered (take 1 ex2_candidates)) 0 = (Inr (Layer2_output [p] ds), w')
    \<and> pf_mergedCandidateIds p = [''c1''] \<and> pf_exposureScore p = 1"
proof -
  obtain p ds w g where r: "correlate ex2_asking (ex2_answered (take 1 ex2_candidates)) 0 = (Inr (Layer2_output [p] ds), w)"
    and g: "groupCandidates (ci_candidates (ex2_answered (take 1 ex2_candidates))) (AppMapIndex (ci_appMap (ex2_answered (take 1 ex2_candidates)))) = [g]"
    "map cf_id (rg_candidates g) = [''c1'']" "sr_exposureScore (scoreGrounding (rg_representative g) (rg_grounding g)) = 1"
    by (rule ex2_one_run)
  have "pf_mergedCandidateIds p = map cf_id (rg_candidates g)"
    "pf_exposureScore p = round3 (sr_exposureScore (scoreGrounding (rg_representative g) (rg_grounding g)))"
    using reported_scores_near_map[OF r, of p] unfolding Let_def g(1) by auto
  then show ?thesis using r g round3_1 by metis
qed

section \<open>What a finding is\<close>

text \<open>C17. A run over valid candidates returns, and what it returns satisfies the schemas: every probable
  finding has its identifiers, its location, scores between 0 and 1 and a positive rank, whatever the
  gateway, the registry and the semantic index answer or fail with; only the audit log can stop it.\<close>

theorem valid_candidates_give_valid_findings:
  assumes "valid_run eff input"
  shows "\<exists>ps ds w'. correlate eff input w = (Inr (Layer2_output ps ds), w')
    \<and> list_all (probable_valid (ci_datetime input)) ps \<and> list_all (candidate_valid (ci_datetime input)) ds
    \<and> map pf_rank ps = [1..<Suc (length ps)]"
proof -
  obtain ps ds w' where r: "correlate eff input w = (Inr (Layer2_output ps ds), w')"
    "list_all (probable_valid (ci_datetime input)) ps" "list_all (candidate_valid (ci_datetime input)) ds"
    using run_total[OF assms] by metis
  moreover have "map pf_rank ps = [1..<Suc (length ps)]" using run_shape[OF r(1)] by metis
  ultimately show ?thesis by blast
qed

lemma valid_candidates_give_valid_findings_witness:
  "\<exists>ps ds w'. correlate ex2_asking (ex2_answered ex2_candidates) 0 = (Inr (Layer2_output ps ds), w')
    \<and> list_all (probable_valid (\<lambda>s. s \<noteq> [])) ps"
  using valid_candidates_give_valid_findings[OF ex2_asking_valid, of 0] by (auto simp: ex2_answered_def ex2_input_def)

lemma ground_fields:
  "gd_route (groundCandidate c ix) = ground_route c ix"
  "gd_authState (groundCandidate c ix) = (case ground_route c ix of Some r \<Rightarrow> ro_authState r | None \<Rightarrow> Auth_unknown)"
  "gd_exposure (groundCandidate c ix) = exposureFromAuth (case ground_route c ix of Some r \<Rightarrow> ro_authState r | None \<Rightarrow> Auth_unknown) (ground_route c ix \<noteq> None)"
  "gd_klass (groundCandidate c ix) = classifyCategory (cf_category c)"
  by (simp_all add: groundCandidate_def Let_def del: not_None_eq)

lemma ground_demote:
  "gd_demote (groundCandidate c ix) \<longleftrightarrow> \<not> gd_corroborated (groundCandidate c ix)
     \<or> gd_klass (groundCandidate c ix) = Injection \<and> gd_sanitizerInterrupts (groundCandidate c ix)"
  by (simp add: groundCandidate_def Let_def demote_reason_def)



section \<open>Root causes and their order\<close>

lemma find_by_id:
  assumes "distinct (map cf_id cands)" and "c \<in> set cands"
  shows "find (\<lambda>x. cf_id x = cf_id c) (rev cands) = Some c"
proof -
  obtain d where d: "find (\<lambda>x. cf_id x = cf_id c) (rev cands) = Some d"
    using assms(2) by (cases "find (\<lambda>x. cf_id x = cf_id c) (rev cands)") (auto simp: find_None_iff)
  then have "d \<in> set cands" "cf_id d = cf_id c" using find_Some_mem[OF d] by auto
  then have "d = c" using assms by (auto simp: distinct_map dest: inj_onD)
  with d show ?thesis by simp
qed

text \<open>The single pass over the candidates, with its two maps, computes the partition of the candidates
  by root cause: one group for each key, in the order in which the keys first occur, each with its
  candidates in their order, represented by the worst of them and grounded on it.\<close>

lemma root_causes_partition_candidates:
  assumes "distinct (map cf_id cands)"
  shows "groupCandidates cands ix = map (\<lambda>k. group_of ix cands k (\<lambda>rep. groundCandidate rep ix))
           (first_occurrences (map (root_key ix) cands))"
proof -
  have "group_of ix cands k (\<lambda>rep. case find (\<lambda>c. cf_id c = cf_id rep) (rev cands) of
          Some c \<Rightarrow> groundCandidate c ix | None \<Rightarrow> groundCandidate rep ix)
      = group_of ix cands k (\<lambda>rep. groundCandidate rep ix)" if k: "k \<in> set (map (root_key ix) cands)" for k
  proof -
    let ?ms = "filter (\<lambda>c. root_key ix c = k) cands"
    have "?ms \<noteq> []" using k by (auto simp: filter_empty_conv)
    then obtain c where "c \<in> set ?ms" "pickRepresentative ?ms = Some c" using pickRepresentative_mem by blast
    then show ?thesis using find_by_id[OF assms, of c] by (simp add: group_of_def Let_def)
  qed
  then show ?thesis by (simp add: groupCandidates_eq)
qed

lemma ex2_keys: "map (root_key (AppMapIndex ex2_map)) ex2_candidates =
    [''permissive_cors@file:a.ts'', ''permissive_cors@file:b.ts'', ''permissive_cors@file:a.ts'']"
  by code_simp

lemma root_causes_partition_candidates_witness:
  "distinct (map cf_id ex2_candidates) \<and> map rg_key (groupCandidates ex2_candidates (AppMapIndex ex2_map))
     = [''permissive_cors@file:a.ts'', ''permissive_cors@file:b.ts'']"
proof -
  have d: "distinct (map cf_id ex2_candidates)" by (simp add: ex2_defs)
  have "map rg_key (groupCandidates ex2_candidates (AppMapIndex ex2_map)) = first_occurrences (map (root_key (AppMapIndex ex2_map)) ex2_candidates)"
    unfolding root_causes_partition_candidates[OF d] by (simp add: comp_def group_of_def Let_def)
  then show ?thesis using d by (simp add: ex2_keys first_occurrences_def)
qed

text \<open>The product the ranking is by, of a root cause.\<close>

definition risk_product :: "root_cause_group \<Rightarrow> rat" where
  "risk_product grp = (let base = scoreGrounding (rg_representative grp) (rg_grounding grp) in
     fl64 (fl64 (sr_reachabilityScore base * sr_exposureScore base) * sr_impactScore base))"

definition root_cause_id :: "correlate_input \<Rightarrow> root_cause_group \<Rightarrow> string" where
  "root_cause_id input grp = makeRootCauseId (ci_scanId input) (category_str (cf_category (rg_representative grp))) (rg_key grp)"

text \<open>Without the model the ranking is by the product of reachability, exposure and impact: the findings
  are numbered from 1 without a gap, each stands for one of the promoted root causes, and the products
  of their root causes never increase along the ranking.\<close>

lemma ranking_follows_risk_product:
  assumes "correlate eff input w = (Inr (Layer2_output ps ds), w')" and "\<not> use_llm eff input"
  shows "map pf_rank ps = [1..<Suc (length ps)] \<and> (\<exists>gs. mset gs = mset (promoted_groups input)
    \<and> map pf_rootCauseId ps = map (root_cause_id input) gs \<and> sorted_wrt (\<lambda>g h. risk_product h \<le> risk_product g) gs)"
proof -
  obtain gs qs where r: "mset gs = mset (promoted_groups input)" "list_all2 (promotes (use_llm eff input) input) gs qs"
    "sorted_wrt (\<lambda>a b. comparePending a b \<le> 0) qs" "length ps = length gs"
    "list_all2 (finding_of (use_llm eff input) input) gs ps" "map pf_rank ps = [1..<Suc (length ps)]"
    by (rule run_shape[OF assms(1)])
  have c: "pn_combined (qs ! j) = risk_product (gs ! j)" if "j < length gs" for j
    using r(2) that assms(2) by (auto simp: list_all2_conv_all_nth promotes_def Let_def risk_product_def)
  have "sorted_wrt (\<lambda>g h. risk_product h \<le> risk_product g) gs"
  proof (unfold sorted_wrt_iff_nth_less, intro allI impI)
    fix i j assume ij: "i < j" "j < length gs"
    then have "comparePending (qs ! i) (qs ! j) \<le> 0"
      using r(2,3) by (simp add: sorted_wrt_iff_nth_less list_all2_lengthD[symmetric])
    then have "pn_combined (qs ! j) \<le> pn_combined (qs ! i)" by (auto simp: comparePending_le)
    then show "risk_product (gs ! j) \<le> risk_product (gs ! i)" using c ij by simp
  qed
  moreover have "map pf_rootCauseId ps = map (root_cause_id input) gs"
    using r(4,5) by (intro nth_equalityI) (auto simp: list_all2_conv_all_nth finding_fields root_cause_id_def)
  ultimately show ?thesis using r(1,6) by blast
qed

lemma ranking_follows_risk_product_witness:
  "\<exists>ps ds w'. correlate ex2_effects (ex2_input ex2_candidates) 0 = (Inr (Layer2_output ps ds), w')
    \<and> map pf_rank ps = [1..<Suc (length ps)]"
proof -
  obtain ps ds w' where r: "correlate ex2_effects (ex2_input ex2_candidates) 0 = (Inr (Layer2_output ps ds), w')"
    using run_total[OF ex2_valid] by metis
  have "\<not> use_llm ex2_effects (ex2_input ex2_candidates)" by (simp add: use_llm_def ex2_effects_def)
  with ranking_follows_risk_product[OF r] r show ?thesis by blast
qed

section \<open>Where the code differs from its documentation\<close>

text \<open>One resolved flow anywhere in a file, at any distance and into any kind of sink, settles every
  injection candidate of the file: it is reported as reached by taint and is never demoted, whatever
  sanitizer its own path shows, though the flow is documented to be preferred only when the line of the
  candidate has one.\<close>

lemma any_flow_of_file_overrides_sanitizer:
  assumes "classifyCategory (cf_category cand) = Injection"
    and "t \<in> set (am_taintFlows m)" and "loc_file (tf_sinkLocation t) = loc_file (cf_location cand)"
  shows "gd_taintReaches (groundCandidate cand (AppMapIndex m)) \<and> \<not> gd_sanitizerInterrupts (groundCandidate cand (AppMapIndex m))
    \<and> \<not> gd_demote (groundCandidate cand (AppMapIndex m)) \<and> gd_taintFlowKind (groundCandidate cand (AppMapIndex m)) = Cross_file_resolved"
proof -
  let ?fs = "in_file (ix_flowsBySinkFile (AppMapIndex m)) (loc_file (cf_location cand))"
  have some: "nearest_from (\<lambda>x. Some (f x)) n b xs \<noteq> None" if "b \<noteq> None \<or> xs \<noteq> []" for f n b and xs :: "taint_flow_edge list"
    using that by (induction xs arbitrary: b) (auto simp: Let_def split: option.splits)
  have "?fs \<noteq> []" using assms(2,3) by (auto simp: AppMapIndex_def filter_empty_conv)
  then obtain u where "nearestFlowByLine ?fs (loc_line (cf_location cand)) = Some u"
    using some[of None ?fs "\<lambda>t. loc_line (tf_sinkLocation t)" "loc_line (cf_location cand)"]
    by (auto simp: nearestFlowByLine_def)
  then show ?thesis using assms(1)
    by (simp add: groundCandidate_def Let_def taint_verdict_def corroborate_def demote_reason_def)
qed

definition ex2_flow :: taint_flow_edge where
  "ex2_flow = \<lparr>tf_sourceLocation = ex2_location ''b.ts'' 1, tf_sourceKind = None, tf_throughFunction = None, tf_throughLocation = None, tf_sinkLocation = ex2_location ''a.ts'' 900, tf_sinkKind = Redirect\<rparr>"

lemma any_flow_of_file_overrides_sanitizer_witness:
  "\<not> gd_demote (groundCandidate (ex2_candidate ''c1'' Sql_injection ''a.ts'' 5 High\<lparr>cf_evidenceSnippet := ''parseInt(id)''\<rparr>)
     (AppMapIndex (ex2_map\<lparr>am_taintFlows := [ex2_flow]\<rparr>)))"
  using any_flow_of_file_overrides_sanitizer[of "ex2_candidate ''c1'' Sql_injection ''a.ts'' 5 High\<lparr>cf_evidenceSnippet := ''parseInt(id)''\<rparr>"
      ex2_flow "ex2_map\<lparr>am_taintFlows := [ex2_flow]\<rparr>"]
  by (simp add: ex2_defs ex2_flow_def classifyCategory_def INJECTION_CATEGORIES_def)

text \<open>The markers of the extractors are stems, but the expression asks for a word boundary behind them.\<close>

lemma safe_marker_stems_never_match:
  "\<not> rx_test_i CURATED_SAFE_MARKER_RE ''sanitized'' \<and> \<not> rx_test_i CURATED_SAFE_MARKER_RE ''escaped''
   \<and> rx_test_i CURATED_SAFE_MARKER_RE ''validated''"
  by code_simp

text \<open>The regression corpus marks one candidate of a root cause; only the mark of the representative counts.\<close>

definition ex2_marked :: "nat \<Rightarrow> correlate_input" where
  "ex2_marked line = ex2_input ex2_candidates\<lparr>ci_isKnownFalsePositive := Some (\<lambda>c f l r. f = ''a.ts'' \<and> l = line)\<rparr>"

lemma marks_of_duplicates_are_ignored:
  "map (map cf_id \<circ> rg_candidates) (demoted_groups (ex2_marked 5)) = [[''c1'', ''c3''], [''c2'']]
   \<and> map (map cf_id \<circ> rg_candidates) (demoted_groups (ex2_marked 7)) = [[''c2'']]"
  by code_simp

section \<open>Identifiers across scans\<close>

definition ex2_scan :: "string \<Rightarrow> correlate_input" where
  "ex2_scan s = ex2_input (take 1 ex2_candidates)\<lparr>ci_scanId := s\<rparr>"

lemma ex2_scan_valid: "s \<noteq> [] \<Longrightarrow> valid_run ex2_effects (ex2_scan s)"
  by (simp add: ex2_defs ex2_scan_def)

lemma ex2_scan_ids:
  assumes "s \<noteq> []"
  shows "\<exists>p w'. correlate ex2_effects (ex2_scan s) 0 = (Inr (Layer2_output [p] []), w') \<and> pf_scanId p = s
    \<and> pf_id p = makeProbableId s (makeRootCauseId s ''permissive_cors'' ''permissive_cors@file:a.ts'')"
proof -
  obtain ps ds w where r: "correlate ex2_effects (ex2_scan s) 0 = (Inr (Layer2_output ps ds), w)"
    using run_total[OF ex2_scan_valid[OF assms]] by metis
  have G: "map (\<lambda>g. (rg_key g, cf_category (rg_representative g), gd_demote (rg_grounding g)))
      (groupCandidates (take 1 ex2_candidates) (AppMapIndex ex2_map)) = [(''permissive_cors@file:a.ts'', Permissive_cors, False)]"
    by code_simp
  have i: "ci_candidates (ex2_scan s) = take 1 ex2_candidates" "ci_appMap (ex2_scan s) = ex2_map"
    "ci_isKnownFalsePositive (ex2_scan s) = None" "ci_scanId (ex2_scan s) = s"
    by (simp_all add: ex2_scan_def ex2_input_def)
  obtain g where g: "groupCandidates (take 1 ex2_candidates) (AppMapIndex ex2_map) = [g]" "rg_key g = ''permissive_cors@file:a.ts''"
    "cf_category (rg_representative g) = Permissive_cors" "\<not> gd_demote (rg_grounding g)"
    using G by (auto simp: map_eq_Cons_conv)
  have dem: "promoted_groups (ex2_scan s) = [g]" "demoted_groups (ex2_scan s) = []"
    using g by (simp_all add: promoted_groups_def demoted_groups_def demotes_def known_false_positive_def i)
  obtain gs where gs: "mset gs = mset [g]" "list_all2 (finding_of (use_llm ex2_effects (ex2_scan s)) (ex2_scan s)) gs ps" "ds = []"
    using run_shape[OF r] dem by (metis concat.simps(1) list.simps(8))
  then have "gs = [g]" by simp
  then obtain p where p: "ps = [p]" "finding_of (use_llm ex2_effects (ex2_scan s)) (ex2_scan s) g p"
    using gs(2) by (auto simp: list_all2_Cons1)
  have "pf_id p = makeProbableId s (makeRootCauseId s ''permissive_cors'' ''permissive_cors@file:a.ts'')" "pf_scanId p = s"
    using arg_cong[OF decided_finding[OF p(2)], of pf_id] arg_cong[OF decided_finding[OF p(2)], of pf_scanId] g i
    by (simp_all add: decided_def probable_of_def Let_def)
  then show ?thesis using r p(1) gs(3) by blast
qed

lemma ids_collide:
  "makeProbableId ''s24548'' (makeRootCauseId ''s24548'' ''permissive_cors'' ''permissive_cors@file:a.ts'') =
   makeProbableId ''s54199'' (makeRootCauseId ''s54199'' ''permissive_cors'' ''permissive_cors@file:a.ts'')"
  by (simp add: makeProbableId_def makeRootCauseId_def fnv1a_def fnv_step_def hex_str.simps pad_start_def hex_digit_def)

definition ex2_store :: state_store where
  "ex2_store = \<lparr>st_scans = [], st_resume = [], st_fixes = [], st_appMaps = [], st_candidates = [], st_probable = [], st_confirmed = []\<rparr>"

text \<open>The identifier of a probable finding is a hash of 32 bits and the key of a table that all scans
  share: two scans of one repository promote a finding each, the second is skipped as a duplicate when it is
  stored, and the second scan has no probable finding in the store.\<close>

lemma second_scan_loses_its_finding:
  "\<exists>p q w w'. correlate ex2_effects (ex2_scan ''s24548'') 0 = (Inr (Layer2_output [p] []), w)
    \<and> correlate ex2_effects (ex2_scan ''s54199'') 0 = (Inr (Layer2_output [q] []), w')
    \<and> pf_scanId p \<noteq> pf_scanId q \<and> pf_scanId q = ''s54199''
    \<and> probable_listByScan (probable_bulkCreate ''acme'' [q] (probable_bulkCreate ''acme'' [p] ex2_store)) ''acme'' ''s54199'' = []"
proof -
  obtain p w where p: "correlate ex2_effects (ex2_scan ''s24548'') 0 = (Inr (Layer2_output [p] []), w)" "pf_scanId p = ''s24548''"
    "pf_id p = makeProbableId ''s24548'' (makeRootCauseId ''s24548'' ''permissive_cors'' ''permissive_cors@file:a.ts'')"
    using ex2_scan_ids[of "''s24548''"] by auto
  obtain q w' where q: "correlate ex2_effects (ex2_scan ''s54199'') 0 = (Inr (Layer2_output [q] []), w')" "pf_scanId q = ''s54199''"
    "pf_id q = makeProbableId ''s54199'' (makeRootCauseId ''s54199'' ''permissive_cors'' ''permissive_cors@file:a.ts'')"
    using ex2_scan_ids[of "''s54199''"] by auto
  have "pf_id q = pf_id p" using p(3) q(3) ids_collide by simp
  then have "probable_bulkCreate ''acme'' [q] (probable_bulkCreate ''acme'' [p] ex2_store) = probable_bulkCreate ''acme'' [p] ex2_store"
    by (simp add: probable_bulkCreate_def bulkCreate_def ex2_store_def)
  moreover have "probable_listByScan (probable_bulkCreate ''acme'' [p] ex2_store) ''acme'' ''s54199'' = []"
    using p(2) by (simp add: probable_listByScan_def probable_bulkCreate_def bulkCreate_def ex2_store_def probableToCreate_def probable_columns_def jm_set_def)
  ultimately show ?thesis using p(1,2) q(1,2) by (intro exI[of _ p] exI[of _ q] exI[of _ w] exI[of _ w']) simp
qed

end
