(* ===== verification/ConfirmProps.thy ===== *)
theory ConfirmProps
  imports ConfirmFacts CorrelateProps
begin

text \<open>
  The properties of layer 3: what stands behind a confirmed finding, that none is lost, what the model
  and the learned sanitizers may change, and what a finding may cost.
\<close>

section \<open>Examples\<close>

text \<open>
  A query parameter read in \<open>a.ts\<close> and an unsafe query in the same file; a run with a permitted
  staging target whose probes succeed, and a corpus with one known false positive. The world counts
  the calls of the gateway; tests fail, as evidence does.
\<close>

definition ex3_location :: "string \<Rightarrow> nat \<Rightarrow> source_location" where
  "ex3_location f line = \<lparr>loc_file = f, loc_line = line, loc_endLine = None, loc_column = None, loc_endColumn = None, loc_symbol = None\<rparr>"

definition ex3_map :: app_map where
  "ex3_map = app_map.make ''m1'' [Typescript] [] [] [] [] []
     [\<lparr>ts_kind = Query_param, ts_location = ex3_location ''a.ts'' 3, ts_description = None, ts_routeId = None\<rparr>]
     [\<lparr>tk_kind = Sql_query, tk_location = ex3_location ''a.ts'' 9, tk_description = Some ''Unsafe''\<rparr>] []"

definition ex3_finding :: "string \<Rightarrow> category \<Rightarrow> string \<Rightarrow> nat \<Rightarrow> probable_finding" where
  "ex3_finding i c f rank = \<lparr>pf_id = i, pf_scanId = ''s1'', pf_clientId = ''acme'', pf_rootCauseId = ''rc'', pf_category = c,
     pf_mergedCandidateIds = [], pf_reachabilityHypothesis = [], pf_exploitHypothesis = [], pf_exposure = Public, pf_authGate = None,
     pf_routeId = None, pf_location = ex3_location f 9, pf_reachabilityScore = 1, pf_exposureScore = 1, pf_impactScore = 1,
     pf_rank = rank, pf_createdAt = ''t''\<rparr>"

definition ex3_findings :: "probable_finding list" where
  "ex3_findings = [ex3_finding ''p4'' Permissive_cors ''a.ts'' 4, ex3_finding ''p1'' Sql_injection ''a.ts'' 1,
     ex3_finding ''p3'' Xss ''fp.ts'' 3, ex3_finding ''p2'' Idor ''b.ts'' 2]"

definition ex3_input :: "probable_finding list \<Rightarrow> confirm_input" where
  "ex3_input ps = \<lparr>cs_clientId = ''acme'', cs_scanId = ''s1'', cs_appMap = ex3_map, ki_probable = ps, ki_allowLive = True,
     ki_stagingUrl = Some (pq_url ex_probe), ki_config = default_config ''acme''\<lparr>cfg_dast := default_dast_config\<lparr>dc_enabled := True,
       dc_allowlist := go_allowlist ex_scope\<rparr>\<rparr>, ki_repoRoot = Some ''repo''\<rparr>"

definition ex3_review :: "nat review_deps" where
  "ex3_review = \<lparr>cd_llm = None, cd_resolvePrompt = None, cd_idFactory = None, cd_now = (\<lambda>p. ''t''), cd_useLlmCrossCheck = None,
     cd_learnedSanitizers = [], cd_num = (\<lambda>r. ''1''), cd_parse = (\<lambda>s. Some (JObj [(''confirm'', JBool True)])), cd_datetime = (\<lambda>s. s \<noteq> [])\<rparr>"

definition ex3_deps :: "nat confirm_deps" where
  "ex3_deps = \<lparr>kd_review = ex3_review, kd_stream = (\<lambda>r n. (([], True), Suc n)), kd_tool = (\<lambda>t v n. ([], n)), kd_toolDefinitions = [],
     kd_testProcess = (\<lambda>d t ms n. (No_binary d, n)),
     kd_testRunner = Some (\<lambda>d t ms n. (Inr \<lparr>tr_ran = True, tr_passed = Some False, tr_summary = ''failed''\<rparr>, n)),
     kd_probe = (\<lambda>t p n. (Inr \<lparr>lw_success = pf_category p = Idor, lw_reason = ''quiet'', lw_transcript = []\<rparr>, n)), kd_audit = None,
     kd_signal = (\<lambda>n. Not_aborted), kd_egress = Inr (), kd_parse_url = ex_parse,
     kd_isKnownFalsePositive = Some (\<lambda>c f l. f = ''fp.ts''), kd_investigation = None, kd_priorConfirmedShapes = None\<rparr>"

definition ex3_view :: "js_error + layer3_out \<Rightarrow> (string option \<times> proof_type) list \<times> string list" where
  "ex3_view r = (case r of Inl e \<Rightarrow> ([], [])
     | Inr out \<Rightarrow> (map (\<lambda>f. (cn_probableId f, cn_proofType f)) (l3_confirmed out), map (pf_id \<circ> uf_probable) (l3_unconfirmed out)))"

lemma ex3_evaluated:
  "ex3_view (fst (confirmFindings ex3_deps (ex3_input ex3_findings) 0))
     = ([(Some ''p1'', StaticProofT), (Some ''p2'', LiveProofT)], [''p3'', ''p4''])"
  by code_simp

lemma ex3_run:
  obtains out w where "confirmFindings ex3_deps (ex3_input ex3_findings) 0 = (Inr out, w)"
    and "map (\<lambda>f. (cn_probableId f, cn_proofType f)) (l3_confirmed out) = [(Some ''p1'', StaticProofT), (Some ''p2'', LiveProofT)]"
    and "map (pf_id \<circ> uf_probable) (l3_unconfirmed out) = [''p3'', ''p4'']"
proof -
  obtain r w where r: "confirmFindings ex3_deps (ex3_input ex3_findings) 0 = (r, w)" by fastforce
  with ex3_evaluated obtain out where "r = Inr out" by (cases r) (simp_all add: ex3_view_def)
  then show ?thesis using that r ex3_evaluated by (simp add: ex3_view_def)
qed

section \<open>What stands behind a finding\<close>

lemma authorized_target:
  assumes "authorize_live deps input w = (Inr (Some t), w')"
  shows "assertLiveAuthorized (kd_parse_url deps) (ki_config input) (ki_allowLive input) (ki_stagingUrl input) = Inr t"
  using assms by (auto simp: authorize_live_def split: if_splits sum.splits)

lemma run_verdicts:
  assumes "confirmFindings deps input w = (Inr out, w')"
  obtains target rs where "list_all2 (settles deps input target) (js_sort (\<lambda>a b. pf_rank a \<le> pf_rank b) (ki_probable input)) rs"
    and "l3_confirmed out = the_confirmed rs" and "l3_unconfirmed out = the_unconfirmed rs"
    and "\<And>t. target = Some t \<Longrightarrow>
      assertLiveAuthorized (kd_parse_url deps) (ki_config input) (ki_allowLive input) (ki_stagingUrl input) = Inr t"
proof -
  from assms obtain target w1 rs w2 where t: "authorize_live deps input w = (Inr target, w1)"
    and rs: "confirm_loop deps input target (js_sort (\<lambda>a b. pf_rank a \<le> pf_rank b) (ki_probable input)) w1 = (Inr rs, w2)"
    and out: "out = \<lparr>l3_confirmed = the_confirmed rs, l3_unconfirmed = the_unconfirmed rs\<rparr>"
    by (auto simp: confirmFindings_def io_bind_Inr Let_def split: if_splits)
  have a: "assertLiveAuthorized (kd_parse_url deps) (ki_config input) (ki_allowLive input) (ki_stagingUrl input) = Inr u"
    if "target = Some u" for u by (rule authorized_target[OF t[unfolded that]])
  show ?thesis using that[OF confirm_run.loop_settles[OF rs] _ _ a] out by simp
qed

lemma the_confirmed_simps [simp]:
  "the_confirmed [] = []" "the_confirmed (Inr c # rs) = c # the_confirmed rs" "the_confirmed (Inl u # rs) = the_confirmed rs"
  "the_unconfirmed [] = []" "the_unconfirmed (Inl u # rs) = u # the_unconfirmed rs" "the_unconfirmed (Inr c # rs) = the_unconfirmed rs"
  by (simp_all add: the_confirmed_def the_unconfirmed_def map_filter_simps)

lemma confirmed_verdict:
  "list_all2 (settles deps input target) ps rs \<Longrightarrow> f \<in> set (the_confirmed rs) \<Longrightarrow> \<exists>p \<in> set ps. settles deps input target p (Inr f)"
proof (induction ps rs rule: list_all2_induct)
  case (Cons p ps r rs)
  then show ?case by (cases r) auto
qed simp



lemma sorted_subseq: "subseq xs ys \<Longrightarrow> sorted ys \<Longrightarrow> sorted (xs :: nat list)"
  by (induction rule: list_emb.induct) (auto dest: list_emb_set)

interpretation rank_order: comparator "\<lambda>a b :: probable_finding. pf_rank a \<le> pf_rank b"
  by unfold_locales auto

text \<open>C8. Layer 3 loses no finding and counts none twice: the probable findings that the confirmed ones stand for and
  the ones kept in the appendix are together the probable findings of the run; the appendix keeps them
  as they were, and in the order of their ranks.\<close>

theorem no_probable_finding_lost:
  assumes "confirmFindings deps input w = (Inr out, w')"
  shows "mset (map cn_probableId (l3_confirmed out)) + mset (map (Some \<circ> pf_id \<circ> uf_probable) (l3_unconfirmed out))
      = mset (map (Some \<circ> pf_id) (ki_probable input))
    \<and> set (map uf_probable (l3_unconfirmed out)) \<subseteq> set (ki_probable input)
    \<and> sorted (map (pf_rank \<circ> uf_probable) (l3_unconfirmed out))"
proof -
  let ?ps = "js_sort (\<lambda>a b. pf_rank a \<le> pf_rank b) (ki_probable input)"
  obtain target rs where r: "list_all2 (settles deps input target) ?ps rs"
    and out: "l3_confirmed out = the_confirmed rs" "l3_unconfirmed out = the_unconfirmed rs"
    using run_verdicts[OF assms] by metis
  have "mset (map cn_probableId (the_confirmed rs)) + mset (map (Some \<circ> pf_id \<circ> uf_probable) (the_unconfirmed rs)) = mset (map (Some \<circ> pf_id) ps)
      \<and> subseq (map uf_probable (the_unconfirmed rs)) ps" if "list_all2 (settles deps input target) ps rs" for ps rs
    using that
  proof (induction ps rs rule: list_all2_induct)
    case (Cons p ps r rs)
    then show ?case by (cases r) auto
  qed simp
  from this[OF r] have m: "mset (map cn_probableId (the_confirmed rs)) + mset (map (Some \<circ> pf_id \<circ> uf_probable) (the_unconfirmed rs))
      = mset (map (Some \<circ> pf_id) ?ps)" and s: "subseq (map uf_probable (the_unconfirmed rs)) ?ps" by blast+
  have "sorted_wrt (\<lambda>a b. pf_rank a \<le> pf_rank b) ?ps" by (rule rank_order.sort_sorted)
  then have "sorted (map pf_rank ?ps)" by (simp add: sorted_map)
  then have "sorted (map pf_rank (map uf_probable (the_unconfirmed rs)))"
    using sorted_subseq[OF subseq_map[OF s, of pf_rank]] by simp
  moreover have "mset (map (Some \<circ> pf_id) ?ps) = mset (map (Some \<circ> pf_id) (ki_probable input))" by (simp only: mset_map mset_js_sort)
  moreover have "set (map uf_probable (the_unconfirmed rs)) \<subseteq> set ?ps" using s by (metis notin_set_nthsI set_nths_subset subseq_conv_nths)
  ultimately show ?thesis using m out by simp
qed

lemma no_probable_finding_lost_witness:
  "\<exists>out w. confirmFindings ex3_deps (ex3_input ex3_findings) 0 = (Inr out, w)
    \<and> mset (map cn_probableId (l3_confirmed out)) + mset (map (Some \<circ> pf_id \<circ> uf_probable) (l3_unconfirmed out))
      = {#Some ''p1'', Some ''p2'', Some ''p3'', Some ''p4''#} \<and> sorted (map (pf_rank \<circ> uf_probable) (l3_unconfirmed out))"
proof -
  obtain out w where r: "confirmFindings ex3_deps (ex3_input ex3_findings) 0 = (Inr out, w)" by (rule ex3_run)
  from no_probable_finding_lost[OF r] show ?thesis
    using r by (auto simp: ex3_input_def ex3_findings_def ex3_finding_def add_mset_commute)
qed

section \<open>What the model and the learned sanitizers may change\<close>

definition learned_markers :: "string list \<Rightarrow> string list" where
  "learned_markers learned = filter (\<lambda>m. MIN_LEARNED_SANITIZER_MARKER_LENGTH \<le> length m) (map (\<lambda>m. js_lower (js_trim m)) learned)"

lemma withLearned_eq: "withLearnedSanitizers h learned = h\<lparr>rh_safeMarkers := rh_safeMarkers h @ learned_markers learned\<rparr>"
  by (simp add: withLearnedSanitizers_def learned_markers_def Let_def)

lemma flow_fewer_learned:
  assumes "df_reachable (buildDataFlow m p (withLearnedSanitizers h (xs @ ys)))"
  shows "buildDataFlow m p (withLearnedSanitizers h xs) = buildDataFlow m p (withLearnedSanitizers h (xs @ ys))"
  using flow_more_safe[where m = m and p = p and h = h and xs = "rh_safeMarkers h @ learned_markers xs" and ys = "learned_markers ys"] assms
  by (simp add: withLearned_eq) (simp add: learned_markers_def)

lemma with_review_suffix: "\<exists>tail. with_review argument review = argument @ tail"
  by (auto simp: with_review_def split: option.splits)

lemma assembled_deps [simp]:
  "assembled (deps\<lparr>cd_llm := x, cd_learnedSanitizers := ls\<rparr>) p route param artifact t = assembled deps p route param artifact t"
  by (simp add: assembled_def Let_def)

lemma assembled_artifact: "(assembled deps p route param artifact t)\<lparr>cn_proofArtifact := artifact'\<rparr> = assembled deps p route param artifact' t"
  by (simp add: assembled_def Let_def)

lemma valid_argument:
  "confirmed_valid d (assembled deps p route param (Static_proof a hops s) t) = confirmed_valid d (assembled deps p route param (Static_proof b hops s) t)"
  by (simp add: confirmed_valid_def assembled_def Let_def proof_locations_valid_def confirmed_ok_def)

text \<open>C9. The model may only veto, and so may what was learned: a finding that is confirmed statically with a model
  in the loop, its prompts and its learned sanitizers, is confirmed without the model and with fewer
  learned sanitizers too, by the same hops and with the same fields; the model has at most added
  text after the deterministic argument.\<close>

theorem model_and_learning_only_veto:
  assumes "confirmStatic deps scope p w = (Inr (Static_confirmed f hops), w')" and "cd_learnedSanitizers deps = xs @ ys"
  shows "\<exists>argument tail. cn_proofArtifact f = Static_proof (argument @ tail) hops []
    \<and> confirmStatic (deps\<lparr>cd_llm := None, cd_learnedSanitizers := xs\<rparr>) scope p v
      = (Inr (Static_confirmed (f\<lparr>cn_proofArtifact := Static_proof argument hops []\<rparr>) hops), v)"
  using assms(1)
proof (rule static_confirmed)
  fix df review
  let ?m = "cs_appMap scope" and ?d = "deps\<lparr>cd_llm := None, cd_learnedSanitizers := xs\<rparr>"
  assume df: "df = buildDataFlow ?m p (heuristics_for deps ?m)" "df_reachable df" "hops = df_hops df"
    and valid: "confirmed_valid (cd_datetime deps) f"
    and f: "f = assembled deps p (df_route df) (df_param df)
           (Static_proof (with_review (buildStaticArgument df p) review) (df_hops df) (df_sanitizersBypassed df)) StaticProofT"
  have same: "buildDataFlow ?m p (heuristics_for ?d ?m) = df"
    using flow_fewer_learned[of ?m p _ xs ys] df(1,2) assms(2) by (simp add: heuristics_for_def)
  have none: "df_sanitizersBypassed df = []" using df(2) unfolding df(1) by (rule reachable_flow) simp
  obtain tail where tail: "with_review (buildStaticArgument df p) review = buildStaticArgument df p @ tail"
    using with_review_suffix by blast
  have "confirmed_valid (cd_datetime deps) (f\<lparr>cn_proofArtifact := Static_proof (buildStaticArgument df p) hops []\<rparr>)"
    using valid valid_argument unfolding f assembled_artifact df(3) none by blast
  then have "confirmStatic ?d scope p v
      = (Inr (Static_confirmed (f\<lparr>cn_proofArtifact := Static_proof (buildStaticArgument df p) hops []\<rparr>) hops), v)"
    by (simp add: confirmStatic_def Let_def same df(2,3) runLlmReview_none vetoed_def with_review_def io_bind_Inr f none assembled_artifact)
  moreover have "cn_proofArtifact f = Static_proof (buildStaticArgument df p @ tail) hops []" by (simp add: f tail df(3) none)
  ultimately show ?thesis by blast
qed

text \<open>A model that agrees, with a comment, and two learned sanitizers, of which the second is too short to count.\<close>

definition ex3_reviewed :: "nat review_deps" where
  "ex3_reviewed = ex3_review\<lparr>cd_llm := Some ex2_ask, cd_learnedSanitizers := [''safeSql'', ''ok''],
     cd_parse := (\<lambda>s. Some (JObj [(''confirmed'', JBool True), (''argument'', JStr ''Looks exploitable'')]))\<rparr>"

lemma static_total:
  assumes "df_reachable (buildDataFlow (cs_appMap scope) p (heuristics_for deps (cs_appMap scope)))"
    and "runLlmReview deps scope (buildDataFlow (cs_appMap scope) p (heuristics_for deps (cs_appMap scope))) p w = (Inr review, w')"
    and "\<not> vetoed deps review" and "\<And>route param artifact. confirmed_valid (cd_datetime deps) (assembled deps p route param artifact StaticProofT)
      \<longleftrightarrow> proof_kind artifact = StaticProofT \<and> proof_locations_valid artifact"
    and "proof_locations_valid (Static_proof [] (df_hops (buildDataFlow (cs_appMap scope) p (heuristics_for deps (cs_appMap scope)))) [])"
  obtains f where "confirmStatic deps scope p w
    = (Inr (Static_confirmed f (df_hops (buildDataFlow (cs_appMap scope) p (heuristics_for deps (cs_appMap scope))))), w')"
proof -
  let ?df = "buildDataFlow (cs_appMap scope) p (heuristics_for deps (cs_appMap scope))"
  have none: "df_sanitizersBypassed ?df = []" using assms(1) by (rule reachable_flow) simp
  have "confirmStatic deps scope p w = (if vetoed deps review
        then io_return (Static_unconfirmed (df_reason ?df @ '' However, the confirmation-tier model judged it NOT exploitable on review - ''
               @ ''demoted to the appendix (fail-safe, golden rule #4).'') (df_hops ?df))
        else io_bind (assembleConfirmed deps p (df_route ?df) (df_param ?df)
               (Static_proof (with_review (buildStaticArgument ?df p) review) (df_hops ?df) (df_sanitizersBypassed ?df)) StaticProofT)
             (\<lambda>f. io_return (Static_confirmed f (df_hops ?df)))) w'"
    using assms(1) by (simp add: confirmStatic_def Let_def io_bind_def assms(2))
  then show ?thesis using that assms(3,5) by (simp add: io_bind_Inr assms(4) proof_locations_valid_def none)
qed

lemma ex3_flow:
  "df_reachable (buildDataFlow ex3_map (ex3_finding ''p1'' Sql_injection ''a.ts'' 1) (heuristics_for ex3_reviewed ex3_map))"
  "proof_locations_valid (Static_proof [] (df_hops (buildDataFlow ex3_map (ex3_finding ''p1'' Sql_injection ''a.ts'' 1)
     (heuristics_for ex3_reviewed ex3_map))) [])"
  by code_simp+

lemma assembled_valid:
  assumes "probable_valid (cd_datetime deps) p" and "cd_datetime deps (cd_now deps p)"
    and "\<And>f. cd_idFactory deps = Some f \<Longrightarrow> f p t \<noteq> []"
  shows "confirmed_valid (cd_datetime deps) (assembled deps p route param artifact t)
    \<longleftrightarrow> proof_kind artifact = t \<and> proof_locations_valid artifact"
proof -
  have "tx_title (CATEGORY_TAXONOMY c) \<noteq> []" for c by (cases c) (simp_all add: tx_def)
  then have "deriveTitle c route x l param \<noteq> []" for c x l by (simp add: deriveTitle_def Let_def split: option.splits)
  moreover have "list_all cwe_valid (cm_cwe (complianceForCategory c))" for c
    by (cases c) (simp_all add: complianceForCategory_def cwe_valid_def tx_def is_digit_char_def)
  moreover have "(case cd_idFactory deps of Some f \<Rightarrow> f | None \<Rightarrow> defaultConfirmedId) p t \<noteq> []"
    using assms(3) by (auto simp: defaultConfirmedId_def split: option.splits)
  ultimately show ?thesis using assms(1,2)
    by (auto simp: confirmed_valid_def assembled_def Let_def probable_valid_def confirmed_ok_def)
qed

lemma ex3_probable_valid: "0 < rank \<Longrightarrow> i \<noteq> [] \<Longrightarrow> f \<noteq> [] \<Longrightarrow> probable_valid (\<lambda>s. s \<noteq> []) (ex3_finding i c f rank)"
  by (simp add: probable_valid_def ex3_finding_def ex3_location_def location_valid_def score01_valid_def)

lemma model_and_learning_only_veto_witness:
  "\<exists>f hops argument tail. confirmStatic ex3_reviewed (confirm_scope.truncate (ex3_input [])) (ex3_finding ''p1'' Sql_injection ''a.ts'' 1) 0
      = (Inr (Static_confirmed f hops), 1)
    \<and> cn_proofArtifact f = Static_proof (argument @ tail) hops []
    \<and> confirmStatic (ex3_reviewed\<lparr>cd_llm := None, cd_learnedSanitizers := [''safeSql'']\<rparr>) (confirm_scope.truncate (ex3_input []))
        (ex3_finding ''p1'' Sql_injection ''a.ts'' 1) 7
      = (Inr (Static_confirmed (f\<lparr>cn_proofArtifact := Static_proof argument hops []\<rparr>) hops), 7)"
proof -
  let ?p = "ex3_finding ''p1'' Sql_injection ''a.ts'' 1" and ?s = "confirm_scope.truncate (ex3_input [])"
  have m: "cs_appMap ?s = ex3_map" by (simp add: ex3_input_def confirm_scope.truncate_def)
  have r: "runLlmReview ex3_reviewed ?s df ?p 0 = (Inr (Some \<lparr>lv_argument = Some ''Looks exploitable'', lv_confirmed = Some True\<rparr>), 1)" for df
    by (simp add: runLlmReview_def ex3_reviewed_def ex3_review_def io_bind_def io_return_def ex2_ask_def review_of_def Let_def)
  have v: "confirmed_valid (cd_datetime ex3_reviewed) (assembled ex3_reviewed ?p route param artifact StaticProofT)
      \<longleftrightarrow> proof_kind artifact = StaticProofT \<and> proof_locations_valid artifact" for route param artifact
    by (rule assembled_valid) (simp_all add: ex3_reviewed_def ex3_review_def ex3_probable_valid)
  obtain f where f: "confirmStatic ex3_reviewed ?s ?p 0
      = (Inr (Static_confirmed f (df_hops (buildDataFlow ex3_map ?p (heuristics_for ex3_reviewed ex3_map)))), 1)"
    by (rule static_total[OF _ r _ v, unfolded m, OF ex3_flow(1) _ ex3_flow(2)]) (simp_all add: vetoed_def)
  have l: "cd_learnedSanitizers ex3_reviewed = [''safeSql''] @ [''ok'']" by (simp add: ex3_reviewed_def)
  from model_and_learning_only_veto[OF f l, of 7] f show ?thesis by blast
qed

section \<open>What a static proof says\<close>

text \<open>C18. A static proof has two hops, a source and a sink: the sink is of a kind that is dangerous for the category and
  is one of the map in the file of the finding, or the end of a resolved flow; the source is one of
  the map, or the start of a resolved flow into that sink; the description of the sink has no safe
  marker, built in, of the languages of the map or learned, and it has an unsafe one or a raw kind.\<close>

theorem static_proof_content:
  assumes "df_reachable (buildDataFlow m p h)"
  shows "\<exists>s k auth param. df_hops (buildDataFlow m p h) = [source_hop auth s param, sink_hop auth k (assessSink k h)]
    \<and> (tk_kind k \<in> set (DATAFLOW_SINK_KINDS (pf_category p)) \<and> k \<in> set (am_taintSinks m) \<and> loc_file (tk_location k) = loc_file (pf_location p)
       \<or> (\<exists>e \<in> set (am_taintFlows m). tf_sinkKind e \<in> set (DATAFLOW_SINK_KINDS (pf_category p)) \<and> same_place (tk_location k) (tf_sinkLocation e)))
    \<and> (s \<in> set (am_taintSources m) \<or> (\<exists>e \<in> set (am_taintFlows m). same_place (tf_sinkLocation e) (tk_location k)
         \<and> tf_sourceKind e = Some (ts_kind s) \<and> ts_location s = tf_sourceLocation e))
    \<and> (\<forall>x \<in> set (SAFE_MARKERS @ rh_safeMarkers h). \<not> js_includes (js_lower (described (tk_description k))) x)
    \<and> ((\<exists>x \<in> set (UNSAFE_MARKERS @ rh_unsafeMarkers h). js_includes (js_lower (described (tk_description k))) x)
       \<or> tk_kind k \<in> set (RAW_SINK_KINDS @ rh_rawSinkKinds h))"
  using assms
proof (rule reachable_flow)
  fix s k
  let ?df = "buildDataFlow m p h"
  assume k: "findSink m p = Some k" and s: "findSource m p k (findRoute m p) = Some s" and d: "sa_dangerous (assessSink k h)"
    and hops: "df_hops ?df = [source_hop (df_entryAuthState ?df) s (df_param ?df), sink_hop (df_entryAuthState ?df) k (assessSink k h)]"
  have safe: "\<forall>x \<in> set (SAFE_MARKERS @ rh_safeMarkers h). \<not> js_includes (js_lower (described (tk_description k))) x"
    using dangerous_sink(1)[OF d] by (simp only: find_None_iff) blast
  have sink: "tk_kind k \<in> set (DATAFLOW_SINK_KINDS (pf_category p)) \<and> k \<in> set (am_taintSinks m) \<and> loc_file (tk_location k) = loc_file (pf_location p)
       \<or> (\<exists>e \<in> set (am_taintFlows m). tf_sinkKind e \<in> set (DATAFLOW_SINK_KINDS (pf_category p)) \<and> same_place (tk_location k) (tf_sinkLocation e))"
    using findSink_cases[OF k] by blast
  show ?thesis
    by (intro exI[of _ s] exI[of _ k] exI[of _ "df_entryAuthState ?df"] exI[of _ "df_param ?df"] conjI)
      (fact hops sink safe findSource_cases[OF s] dangerous_sink(2)[OF d])+
qed

lemma static_proof_content_witness:
  "\<exists>s k auth param. df_hops (buildDataFlow ex3_map (ex3_finding ''p1'' Sql_injection ''a.ts'' 1) (heuristics_for ex3_reviewed ex3_map))
      = [source_hop auth s param, sink_hop auth k (assessSink k (heuristics_for ex3_reviewed ex3_map))]
    \<and> s \<in> set (am_taintSources ex3_map) \<and> k \<in> set (am_taintSinks ex3_map)"
  using static_proof_content[OF ex3_flow(1)] by (auto simp: ex3_map_def app_map.defs)

lemma findSource_iff:
  assumes "am_taintFlows m = []"
  shows "(\<exists>s. findSource m p k route = Some s) \<longleftrightarrow> (\<exists>s \<in> set (am_taintSources m).
    (let i = (case Option.bind route ro_id of Some i \<Rightarrow> Some i | None \<Rightarrow> pf_routeId p) in truthy i \<and> ts_routeId s = i)
    \<or> loc_file (ts_location s) = loc_file (tk_location k) \<or> loc_file (ts_location s) = loc_file (pf_location p))"
proof -
  let ?i = "case Option.bind route ro_id of Some i \<Rightarrow> Some i | None \<Rightarrow> pf_routeId p"
  have "(\<exists>s. findSource m p k route = Some s) \<longleftrightarrow> \<not> (findSource m p k route = None)" by auto
  also have "findSource m p k route = None \<longleftrightarrow> (truthy ?i \<longrightarrow> find (\<lambda>s. ts_routeId s = ?i) (am_taintSources m) = None)
      \<and> find (\<lambda>s. loc_file (ts_location s) = loc_file (tk_location k)) (am_taintSources m) = None
      \<and> find (\<lambda>s. loc_file (ts_location s) = loc_file (pf_location p)) (am_taintSources m) = None"
    using assms by (simp add: findSource_def findSourceFromFlow_def Let_def split: option.split)
  finally show ?thesis unfolding find_None_iff Let_def by blast
qed

text \<open>What the static proof does not look at: where the map has no resolved flow, a data-flow category is confirmed
  exactly when the nearest sink of the file is dangerous by its description and some source of the
  map shares the route of the finding, or the file of the sink or of the finding; no relation between
  the source and the sink is asked for, not even their order in the file.\<close>

lemma static_proof_by_co_location:
  assumes "am_taintFlows m = []" and "isDataFlowConfirmable (pf_category p)"
  shows "df_reachable (buildDataFlow m p h) \<longleftrightarrow> (\<exists>k. findSink m p = Some k \<and> sa_dangerous (assessSink k h)
    \<and> (\<exists>s \<in> set (am_taintSources m).
        (let i = (case Option.bind (findRoute m p) ro_id of Some i \<Rightarrow> Some i | None \<Rightarrow> pf_routeId p) in truthy i \<and> ts_routeId s = i)
        \<or> loc_file (ts_location s) = loc_file (tk_location k) \<or> loc_file (ts_location s) = loc_file (pf_location p)))"
proof -
  have "df_reachable (buildDataFlow m p h) \<longleftrightarrow> (\<exists>k. findSink m p = Some k \<and> sa_dangerous (assessSink k h)
      \<and> (\<exists>s. findSource m p k (findRoute m p) = Some s))"
    using assms(2) by (auto simp: buildDataFlow_def Let_def split: option.splits)
  then show ?thesis by (simp only: findSource_iff[OF assms(1)])
qed

text \<open>The source is read a hundred lines after the sink.\<close>

lemma static_proof_by_co_location_witness:
  "\<exists>s k. am_taintSources (ex3_map\<lparr>am_taintSources := [s]\<rparr>) = [s] \<and> loc_line (ts_location s) = 109
    \<and> findSink (ex3_map\<lparr>am_taintSources := [s]\<rparr>) (ex3_finding ''p1'' Sql_injection ''a.ts'' 1) = Some k \<and> loc_line (tk_location k) = 9
    \<and> df_reachable (buildDataFlow (ex3_map\<lparr>am_taintSources := [s]\<rparr>) (ex3_finding ''p1'' Sql_injection ''a.ts'' 1) EMPTY_HEURISTICS)"
proof -
  let ?s = "\<lparr>ts_kind = Query_param, ts_location = ex3_location ''a.ts'' 109, ts_description = None, ts_routeId = None\<rparr>"
  let ?k = "\<lparr>tk_kind = Sql_query, tk_location = ex3_location ''a.ts'' 9, tk_description = Some ''Unsafe''\<rparr>"
  let ?m = "ex3_map\<lparr>am_taintSources := [?s]\<rparr>" and ?p = "ex3_finding ''p1'' Sql_injection ''a.ts'' 1"
  have k: "findSink ?m ?p = Some ?k" and d: "sa_dangerous (assessSink ?k EMPTY_HEURISTICS)" by code_simp+
  have "am_taintFlows ?m = []" "isDataFlowConfirmable (pf_category ?p)"
    by (simp_all add: ex3_map_def app_map.defs ex3_finding_def isDataFlowConfirmable_def)
  from static_proof_by_co_location[OF this, of EMPTY_HEURISTICS] have "df_reachable (buildDataFlow ?m ?p EMPTY_HEURISTICS)"
    using k d by (simp add: ex3_location_def)
  with k show ?thesis by (intro exI[of _ ?s] exI[of _ ?k]) (simp add: ex3_location_def)
qed

end
