(* ===== verification/ConfirmRuns.thy ===== *)
theory ConfirmRuns
  imports ConfirmProps
begin

text \<open>
  Runs of layer 3: that a run over valid findings returns, what it costs, how many turns and verifiers
  a finding gets, and how the findings of layer 2 pass through it.
\<close>

section \<open>Runs return\<close>

text \<open>
  Collaborators that do not end a run: the signal is not raised, the prompt registry and the probes
  answer, timestamps and identifiers are what the schema asks for. The gateway, the tools, the tests
  and the audit log may fail as they like.
\<close>

definition steady_deps :: "'w confirm_deps \<Rightarrow> bool" where
  "steady_deps deps \<longleftrightarrow> (\<forall>w. kd_signal deps w = Not_aborted) \<and> (\<forall>t p w. \<exists>v w'. kd_probe deps t p w = (Inr v, w'))
     \<and> (\<forall>resolve n d c w. cd_resolvePrompt (kd_review deps) = Some resolve \<longrightarrow> (\<exists>s w'. resolve n d c w = (Inr s, w')))
     \<and> (\<forall>p. cd_datetime (kd_review deps) (cd_now (kd_review deps) p)) \<and> (\<forall>f p t. cd_idFactory (kd_review deps) = Some f \<longrightarrow> f p t \<noteq> [])"

definition map_places_valid :: "app_map \<Rightarrow> bool" where
  "map_places_valid m \<longleftrightarrow> list_all (\<lambda>s. location_valid (ts_location s)) (am_taintSources m)
     \<and> list_all (\<lambda>k. location_valid (tk_location k)) (am_taintSinks m)
     \<and> list_all (\<lambda>e. location_valid (tf_sourceLocation e) \<and> location_valid (tf_sinkLocation e)) (am_taintFlows m)"

lemma flow_places_valid:
  assumes "map_places_valid m" and "df_reachable (buildDataFlow m p h)"
  shows "list_all (\<lambda>hop. location_valid (hop_location hop)) (df_hops (buildDataFlow m p h))"
  using assms(2)
proof (rule reachable_flow)
  fix s k
  assume k: "findSink m p = Some k" and s: "findSource m p k (findRoute m p) = Some s"
    and hops: "df_hops (buildDataFlow m p h) = [source_hop (df_entryAuthState (buildDataFlow m p h)) s (df_param (buildDataFlow m p h)),
      sink_hop (df_entryAuthState (buildDataFlow m p h)) k (assessSink k h)]"
  have "location_valid (tk_location k)" using findSink_cases[OF k] assms(1) by (auto simp: map_places_valid_def list_all_iff)
  moreover have "location_valid (ts_location s)" using findSource_cases[OF s] assms(1) by (auto simp: map_places_valid_def list_all_iff)
  ultimately show ?thesis by (simp add: hops source_hop_def sink_hop_def)
qed

lemma steady_assembled:
  assumes "steady_deps deps" and "probable_valid (cd_datetime (kd_review deps)) p"
  shows "confirmed_valid (cd_datetime (kd_review deps)) (assembled (kd_review deps) p route param artifact t)
    \<longleftrightarrow> proof_kind artifact = t \<and> proof_locations_valid artifact"
  by (rule assembled_valid) (use assms in \<open>auto simp: steady_deps_def\<close>)

lemma steady_review:
  assumes "steady_deps deps"
  shows "\<exists>r w'. runLlmReview (kd_review deps) scope df p w = (Inr r, w')"
proof (cases "cd_llm (kd_review deps)")
  case None
  then show ?thesis by (simp add: runLlmReview_none io_return_def)
next
  case (Some ask)
  obtain s w1 where "(case cd_resolvePrompt (kd_review deps) of None \<Rightarrow> io_return static_review_system
      | Some resolve \<Rightarrow> resolve ''confirm.static_review.system'' static_review_system (cs_clientId scope)) w = (Inr s, w1)"
  proof (cases "cd_resolvePrompt (kd_review deps)")
    case (Some resolve)
    with assms obtain s w1 where "resolve ''confirm.static_review.system'' static_review_system (cs_clientId scope) w = (Inr s, w1)"
      by (metis steady_deps_def)
    with Some that show ?thesis by simp
  qed (simp add: io_return_def)
  then show ?thesis using Some by (simp add: runLlmReview_def io_bind_def split: prod.splits sum.splits)
qed

lemma steady_static:
  assumes "steady_deps deps" and "probable_valid (cd_datetime (kd_review deps)) p" and "map_places_valid (cs_appMap scope)"
  shows "\<exists>st w'. confirmStatic (kd_review deps) scope p w = (Inr st, w')"
proof (cases "df_reachable (buildDataFlow (cs_appMap scope) p (heuristics_for (kd_review deps) (cs_appMap scope)))")
  case False
  then show ?thesis by (simp add: confirmStatic_def Let_def io_return_def)
next
  case True
  let ?df = "buildDataFlow (cs_appMap scope) p (heuristics_for (kd_review deps) (cs_appMap scope))"
  obtain review w1 where r: "runLlmReview (kd_review deps) scope ?df p w = (Inr review, w1)" using steady_review[OF assms(1)] by metis
  have valid: "proof_locations_valid (Static_proof [] (df_hops ?df) [])"
    using flow_places_valid[OF assms(3) True] by (simp add: proof_locations_valid_def)
  show ?thesis
  proof (cases "vetoed (kd_review deps) review")
    case True
    then show ?thesis using \<open>df_reachable ?df\<close> by (simp add: confirmStatic_def Let_def io_bind_def r io_return_def)
  next
    case False
    then show ?thesis by (rule static_total[OF \<open>df_reachable ?df\<close> r _ steady_assembled[OF assms(1,2)] valid]) blast
  qed
qed

lemma steady_live:
  assumes "steady_deps deps" and "probable_valid (cd_datetime (kd_review deps)) p"
  shows "\<exists>l w'. confirmLive deps input t p w = (Inr l, w')"
proof -
  obtain v w1 where v: "kd_probe deps t p w = (Inr v, w1)" using assms(1) by (metis steady_deps_def)
  show ?thesis
    by (cases "lw_success v")
      (simp_all add: confirmLive_def io_bind_def v io_return_def assembleConfirmed_def Let_def steady_assembled[OF assms] proof_locations_valid_def)
qed

lemma steady_not_killed [simp]: "steady_deps deps \<Longrightarrow> throwIfKilled deps m w = (Inr (), w)"
  by (simp add: steady_deps_def throwIfKilled_def)

lemma steady_turns:
  "steady_deps deps \<Longrightarrow> \<exists>iv w'. investigation_turns deps ask input cap left messages calls w = (Inr iv, w')"
proof (induction left arbitrary: messages calls w)
  case (Suc left)
  then show ?case
    by (cases "runStreamedTurn deps ask (investigation_request deps input messages) w"; cases "fst (runStreamedTurn deps ask (investigation_request deps input messages) w)")
      (auto simp: Let_def split: prod.splits option.splits)
qed simp

lemma steady_investigation:
  assumes "steady_deps deps" and "probable_valid (cd_datetime (kd_review deps)) p"
  shows "\<exists>r w'. attemptInvestigationConfirmation deps input p prior w = (Inr r, w')"
proof -
  have "\<exists>iv w'. runInvestigation deps input n p prior w = (Inr iv, w')" for n w
    using steady_turns[OF assms(1)] by (auto simp: runInvestigation_def split: option.splits)
  then obtain iv w1 where iv: "runInvestigation deps input (Some (effortScaledMaxTurns p (Option.bind (kd_investigation deps) iv_maxTurns))) p prior w = (Inr iv, w1)"
    by metis
  have "location_valid (pf_location p)" using assms(2) by (simp add: probable_valid_def)
  then have "confirmed_valid (cd_datetime (kd_review deps)) (assembled (kd_review deps) p route None (investigation_proof p route iv ev ao) StaticProofT)" for route ev ao
    by (simp add: steady_assembled[OF assms] investigation_proof_def proof_locations_valid_def)
  then show ?thesis
    by (auto simp: attemptInvestigationConfirmation_def io_bind_def iv io_return_def Let_def assembleConfirmed_def split: prod.splits option.splits)
qed

lemma promote_returns: "\<exists>r w'. promote deps input p how k extra votes f w = (Inr r, w')"
  by (simp add: promote_def io_return_def)

lemma demote_returns:
  "probable_valid (cd_datetime (kd_review deps)) p \<Longrightarrow> \<exists>r w'. demote deps input p reason summary metadata w = (Inr r, w')"
  by (simp add: demote_def toUnconfirmed_def io_bind_def io_return_def safeAppend_def split: option.splits prod.splits)

lemma steady_keep:
  assumes "steady_deps deps" and "probable_valid (cd_datetime (kd_review deps)) p"
  shows "\<exists>r w'. investigate_or_keep deps input p static live w = (Inr r, w')"
proof -
  obtain x w1 where x: "(if isEligibleForInvestigation deps p then attemptInvestigationConfirmation deps input p static else io_return None) w = (Inr x, w1)"
    using steady_investigation[OF assms] by (metis io_return_def)
  have "\<exists>r w'. (case x of
            Some (f, ao) \<Rightarrow> promote deps input p ''investigation'' ''static'' [(''investigationProof'', JBool True)]
              [(''adversarialVotes'', JStr (nat_str (ao_confirmVotes ao) @ ''/'' @ nat_str (ao_totalVerifiers ao)))] f
          | None \<Rightarrow> io_bind (toUnconfirmed (cd_datetime (kd_review deps)) p (unconfirmed_reason static live)) (\<lambda>u. io_return (Inl u))) w1 = (Inr r, w')"
    using promote_returns by (cases x) (auto simp: toUnconfirmed_def assms(2) io_bind_def io_return_def)
  with x show ?thesis by (simp add: investigate_or_keep_def io_bind_def)
qed

lemma steady_finding:
  assumes "steady_deps deps" and "probable_valid (cd_datetime (kd_review deps)) p" and "map_places_valid (cs_appMap input)"
  shows "\<exists>r w'. confirm_finding deps input target p w = (Inr r, w')"
proof -
  have m: "cs_appMap (confirm_scope.truncate input) = cs_appMap input" by (simp add: confirm_scope.truncate_def)
  obtain st w1 where st: "confirmStatic (kd_review deps) (confirm_scope.truncate input) p w = (Inr st, w1)"
    using steady_static[OF assms(1,2), of "confirm_scope.truncate input"] assms(3) m by metis
  obtain live w2 where live: "(case target of
                  Some t \<Rightarrow> if t \<noteq> [] \<and> isLiveEligible (pf_category p)
                    then io_bind (confirmLive deps input t p) (\<lambda>l. io_return (Some l)) else io_return None
                | None \<Rightarrow> io_return None) w1 = (Inr live, w2)"
  proof (cases target)
    case (Some t)
    obtain l w2 where "confirmLive deps input t p w1 = (Inr l, w2)" using steady_live[OF assms(1,2)] by metis
    then show ?thesis
      using that by (cases "t \<noteq> [] \<and> isLiveEligible (pf_category p)") (auto simp: Some io_bind_def io_return_def)
  qed (auto simp: io_return_def)
  have keep: "\<exists>r w'. investigate_or_keep deps input p a b w2 = (Inr r, w')" for a b by (rule steady_keep[OF assms(1,2)])
  have "\<exists>r w'. confirm_proofs deps input target p w = (Inr r, w')"
    using keep promote_returns by (auto simp: confirm_proofs_def io_bind_def st live split: option.splits sum.splits static_outcome.splits)
  then show ?thesis
    using assms(1) demote_returns[OF assms(2)] by (auto simp: confirm_finding_def io_bind_def split: option.splits)
qed

lemma settled_valid:
  assumes "list_all2 (settles deps input target) ps rs"
  shows "layer3_valid (cd_datetime (kd_review deps)) \<lparr>l3_confirmed = the_confirmed rs, l3_unconfirmed = the_unconfirmed rs\<rparr>"
  using assms unfolding layer3_valid_def
proof (induction ps rs rule: list_all2_induct)
  case (Cons p ps r rs)
  then show ?case by (cases r) auto
qed simp

lemma authorize_returns: "\<exists>target w1. authorize_live deps input w = (Inr target, w1)"
  by (simp add: authorize_live_def io_return_def split: sum.splits)

lemma steady_run:
  assumes "steady_deps deps" and "list_all (probable_valid (cd_datetime (kd_review deps))) (ki_probable input)" and "map_places_valid (cs_appMap input)"
  shows "\<exists>out w'. confirmFindings deps input w = (Inr out, w')"
proof -
  obtain target w1 where t: "authorize_live deps input w = (Inr target, w1)" using authorize_returns by metis
  have "\<exists>r w'. confirm_finding deps input target p v = (Inr r, w')"
    if "p \<in> set (js_sort (\<lambda>a b. pf_rank a \<le> pf_rank b) (ki_probable input))" for p v
    using steady_finding[OF assms(1) _ assms(3)] assms(2) that by (simp add: list_all_iff)
  from confirm_run.loop_total[OF this, where w = w1] obtain rs w2 where
    rs: "confirm_loop deps input target (js_sort (\<lambda>a b. pf_rank a \<le> pf_rank b) (ki_probable input)) w1 = (Inr rs, w2)" by blast
  show ?thesis using settled_valid[OF confirm_run.loop_settles[OF rs]] by (simp add: confirmFindings_def io_bind_def t rs Let_def)
qed

section \<open>What a finding costs\<close>

text \<open>
  A count of the calls of the gateway: completions and streams count at most one each, the tools, the
  tests, the audit log and the prompt registry none, and the probes of a finding at most \<open>b\<close>.
\<close>

definition metered :: "'w confirm_deps \<Rightarrow> ('w \<Rightarrow> nat) \<Rightarrow> nat \<Rightarrow> bool" where
  "metered deps calls_of b \<longleftrightarrow>
     (\<forall>ask r w. cd_llm (kd_review deps) = Some ask \<longrightarrow> calls_of (snd (ask r w)) \<le> calls_of w + 1)
     \<and> (\<forall>r w. calls_of (snd (kd_stream deps r w)) \<le> calls_of w + 1) \<and> (\<forall>t v w. calls_of (snd (kd_tool deps t v w)) \<le> calls_of w)
     \<and> (\<forall>d t n w. calls_of (snd (kd_testProcess deps d t n w)) \<le> calls_of w)
     \<and> (\<forall>runner d t n w. kd_testRunner deps = Some runner \<longrightarrow> calls_of (snd (runner d t n w)) \<le> calls_of w)
     \<and> (\<forall>t p w. calls_of (snd (kd_probe deps t p w)) \<le> calls_of w + b)
     \<and> (\<forall>sink ev w. kd_audit deps = Some sink \<longrightarrow> calls_of (snd (sink ev w)) \<le> calls_of w)
     \<and> (\<forall>resolve n d c w. cd_resolvePrompt (kd_review deps) = Some resolve \<longrightarrow> calls_of (snd (resolve n d c w)) \<le> calls_of w)"

lemma metered_bind:
  assumes "calls_of (snd (m w)) \<le> calls_of w + a" and "\<And>x v. calls_of (snd (f x v)) \<le> calls_of v + c"
  shows "calls_of (snd (io_bind m f w)) \<le> calls_of w + (a + c :: nat)"
proof (cases "m w")
  case (Pair r v)
  show ?thesis
  proof (cases r)
    case (Inr x)
    show ?thesis using assms(1) assms(2)[of x v] by (simp add: io_bind_def Pair Inr)
  qed (use assms(1) in \<open>simp add: io_bind_def Pair\<close>)
qed

lemma metered_return [simp]: "calls_of (snd (io_return a w)) \<le> calls_of w + (c :: nat)"
  by simp

lemma metered_append: "metered deps calls_of b \<Longrightarrow> calls_of (snd (safeAppend deps ev w)) \<le> calls_of w"
  by (simp add: metered_def safeAppend_def split: option.splits)

lemma metered_kill [simp]: "snd (throwIfKilled deps m w) = w"
  by (simp add: throwIfKilled_def split: probe_signal.splits option.splits)

lemma metered_assemble [simp]: "snd (assembleConfirmed deps p route param artifact t w) = w"
  by (simp add: assembleConfirmed_def Let_def)

lemma metered_unconfirmed [simp]: "snd (toUnconfirmed d p r w) = w"
  by (simp add: toUnconfirmed_def)

lemma metered_ask: "metered deps calls_of b \<Longrightarrow> cd_llm (kd_review deps) = Some ask \<Longrightarrow> calls_of (snd (ask r w)) \<le> calls_of w + 1"
  by (simp add: metered_def)

lemma metered_review:
  assumes "metered deps calls_of b"
  shows "calls_of (snd (runLlmReview (kd_review deps) scope df p w)) \<le> calls_of w + 1"
proof (cases "cd_llm (kd_review deps)")
  case (Some ask)
  have "calls_of (snd ((case cd_resolvePrompt (kd_review deps) of None \<Rightarrow> io_return static_review_system
      | Some resolve \<Rightarrow> resolve ''confirm.static_review.system'' static_review_system (cs_clientId scope)) w)) \<le> calls_of w + 0"
    using assms by (simp add: metered_def split: option.splits)
  then have "calls_of (snd (runLlmReview (kd_review deps) scope df p w)) \<le> calls_of w + (0 + 1)"
    unfolding runLlmReview_def Some option.case
  proof (rule metered_bind)
    fix s v
    show "calls_of (snd (case ask (confirmation_request scope s [plain_message Role_user (the (json_text (cd_num (kd_review deps)) (review_payload df p)))]
                   4096 Format_json (JObj [(''stream'', JBool False)])) v of
              (Inl e, w') \<Rightarrow> (Inr None, w')
            | (Inr resp, w') \<Rightarrow> (Inr (Some (review_of (cd_parse (kd_review deps) (rs_content resp)))), w'))) \<le> calls_of v + 1"
      using metered_ask[OF assms Some, of "confirmation_request scope s [plain_message Role_user (the (json_text (cd_num (kd_review deps)) (review_payload df p)))]
                   4096 Format_json (JObj [(''stream'', JBool False)])" v]
      by (auto split: prod.splits sum.splits)
  qed
  then show ?thesis by simp
qed (simp add: runLlmReview_none)

lemma metered_static:
  assumes "metered deps calls_of b"
  shows "calls_of (snd (confirmStatic (kd_review deps) scope p w)) \<le> calls_of w + 1"
proof -
  let ?df = "buildDataFlow (cs_appMap scope) p (heuristics_for (kd_review deps) (cs_appMap scope))"
  have "calls_of (snd (io_bind (assembleConfirmed (kd_review deps) p r q x StaticProofT) (\<lambda>f. io_return (Static_confirmed f h)) v)) \<le> calls_of v + (0 + 0)" for r q x h v
    by (rule metered_bind) simp_all
  then have "calls_of (snd (io_bind (runLlmReview (kd_review deps) scope ?df p) (\<lambda>review.
        if vetoed (kd_review deps) review
        then io_return (Static_unconfirmed (df_reason ?df @ '' However, the confirmation-tier model judged it NOT exploitable on review - ''
               @ ''demoted to the appendix (fail-safe, golden rule #4).'') (df_hops ?df))
        else io_bind (assembleConfirmed (kd_review deps) p (df_route ?df) (df_param ?df)
               (Static_proof (with_review (buildStaticArgument ?df p) review) (df_hops ?df) (df_sanitizersBypassed ?df)) StaticProofT)
             (\<lambda>f. io_return (Static_confirmed f (df_hops ?df)))) w)) \<le> calls_of w + (1 + 0)"
    by (intro metered_bind[where calls_of = calls_of, OF metered_review[OF assms]]) simp
  then show ?thesis by (simp add: confirmStatic_def Let_def)
qed

lemma metered_verifiers:
  assumes "metered deps calls_of b" and "cd_llm (kd_review deps) = Some ask"
  shows "calls_of (snd (run_verifiers deps ask input p rat ev lenses vs w)) \<le> calls_of w + length lenses"
proof (induction lenses arbitrary: vs w)
  case (Cons l lenses)
  obtain v w1 where v: "runOneVerifier deps ask input l (verification_payload p rat ev vs) (pf_id p) w = (v, w1)" by fastforce
  then have "calls_of w1 \<le> calls_of w + 1"
    using metered_ask[OF assms] by (auto simp: runOneVerifier_def split: prod.splits sum.splits) (metis snd_conv)+
  then show ?case using Cons[of "vs @ [v]" w1] v by simp
qed simp

lemma metered_panel:
  assumes "metered deps calls_of b"
  shows "calls_of (snd (runAdversarialVerification deps input p rat ev w)) \<le> calls_of w + 4"
proof (cases "cd_llm (kd_review deps)")
  case (Some ask)
  have "length (take (verifier_count deps) LENS_ORDER) \<le> 4" by (simp add: LENS_ORDER_def)
  with metered_verifiers[OF assms Some, of input p rat ev "take (verifier_count deps) LENS_ORDER" "[]" w] show ?thesis
    by (cases "run_verifiers deps ask input p rat ev (take (verifier_count deps) LENS_ORDER) [] w")
      (simp add: runAdversarialVerification_def Some Let_def)
qed (simp add: runAdversarialVerification_def)

lemma metered_evidence:
  assumes "metered deps calls_of b"
  shows "calls_of (snd (gatherExecutableEvidence deps dir tf w)) \<le> calls_of w"
proof -
  have t: "calls_of (snd (run_test deps d t w)) \<le> calls_of w" for d t
    using assms by (auto simp: run_test_def metered_def split: option.splits prod.splits) (metis snd_conv)
  show ?thesis using t[of "the dir" "the tf"]
    by (auto simp: gatherExecutableEvidence_def split: prod.splits sum.splits)
qed

lemma metered_turn:
  assumes "metered deps calls_of b" and "cd_llm (kd_review deps) = Some ask"
  shows "calls_of (snd (runStreamedTurn deps ask r w)) \<le> calls_of w + 2"
proof -
  obtain events threw w1 where s: "kd_stream deps r w = ((events, threw), w1)" by (metis prod.exhaust)
  then have "calls_of w1 \<le> calls_of w + 1" using assms(1) by (metis metered_def snd_conv)
  then show ?thesis using metered_ask[OF assms, of r w1]
    by (auto simp: runStreamedTurn_def s split: prod.splits sum.splits)
qed

lemma metered_tools:
  assumes "metered deps calls_of b"
  shows "calls_of (snd (run_tools deps cs w)) \<le> calls_of w"
proof (induction cs arbitrary: w)
  case (Cons c cs)
  obtain r w1 where r: "kd_tool deps (call_name c) (object_field c ''input'') w = (r, w1)" by fastforce
  then have "calls_of w1 \<le> calls_of w" using assms by (metis metered_def snd_conv)
  then show ?case using Cons[of w1] r by (auto split: prod.splits)
qed simp

lemma metered_turns:
  assumes "metered deps calls_of b" and "cd_llm (kd_review deps) = Some ask"
  shows "calls_of (snd (investigation_turns deps ask input cap left messages calls w)) \<le> calls_of w + 2 * left"
proof (induction left arbitrary: messages calls w)
  case (Suc left)
  obtain k w0 where k: "throwIfKilled deps ''kill switch activated - halting Layer 3 investigation'' w = (k, w0)" by fastforce
  then have w0: "w0 = w" using metered_kill by (metis snd_conv)
  obtain t w1 where t: "runStreamedTurn deps ask (investigation_request deps input messages) w = (t, w1)" by fastforce
  have c1: "calls_of w1 \<le> calls_of w + 2" using metered_turn[OF assms, of "investigation_request deps input messages" w] t by simp
  have rest: "calls_of (snd (investigation_turns deps ask input cap left ms n (snd (run_tools deps cs w1)))) \<le> calls_of w + 2 * Suc left" for ms n cs
    using Suc[of ms n "snd (run_tools deps cs w1)"] metered_tools[OF assms(1), of cs w1] c1 by simp
  show ?case
  proof (cases k)
    case (Inl e)
    then show ?thesis by (simp add: k w0 Let_def)
  next
    case (Inr u)
    show ?thesis
    proof (cases t)
      case (Inl e)
      then show ?thesis using c1 by (simp add: k w0 \<open>k = Inr u\<close> t Let_def)
    next
      case t2: (Inr ct)
      obtain content tools where ct: "ct = (content, tools)" by (cases ct)
      show ?thesis
        using c1 rest by (auto simp: k w0 \<open>k = Inr u\<close> t t2 ct Let_def split: prod.splits option.splits) (metis snd_conv)
    qed
  qed
qed simp

lemma turns_cap_range: "1 \<le> turns_cap n" "turns_cap n \<le> 8"
  by (auto simp: turns_cap_def ABSOLUTE_MAX_INVESTIGATION_TURNS_def split: option.splits)

lemma metered_investigation:
  assumes "metered deps calls_of b"
  shows "calls_of (snd (runInvestigation deps input n p prior w)) \<le> calls_of w + 16"
proof (cases "cd_llm (kd_review deps)")
  case (Some ask)
  have "2 * nat (turns_cap n) \<le> 16" using turns_cap_range[of n] by simp
  moreover have "calls_of (snd (runInvestigation deps input n p prior w)) \<le> calls_of w + 2 * nat (turns_cap n)"
    using metered_turns[OF assms Some, of input "turns_cap n" "nat (turns_cap n)"] by (simp add: runInvestigation_def Some)
  ultimately show ?thesis by simp
qed (simp add: runInvestigation_def)

lemma metered_attempt:
  assumes "metered deps calls_of b"
  shows "calls_of (snd (attemptInvestigationConfirmation deps input p prior w)) \<le> calls_of w + 20"
proof (cases "cd_llm (kd_review deps) = None \<or> \<not> (case kd_investigation deps of Some c \<Rightarrow> iv_enabled c | None \<Rightarrow> False)")
  case True
  then show ?thesis by (simp add: attemptInvestigationConfirmation_def)
next
  case False
  let ?rest = "\<lambda>iv. if io_verdict iv \<noteq> Confirmed_candidate then io_return None
          else (\<lambda>w. case gatherExecutableEvidence deps (ki_repoRoot input) (io_existingTestFile iv) w of
                  (None, w1) \<Rightarrow> (Inr None, w1)
                | (Some ev, w1) \<Rightarrow>
                    (case runAdversarialVerification deps input p (io_rationale iv) (ee_summary ev) w1 of
                       (None, w2) \<Rightarrow> (Inr None, w2)
                     | (Some ao, w2) \<Rightarrow>
                         if \<not> ao_confirmed ao then (Inr None, w2)
                         else (let route = findRouteForInvestigation (cs_appMap input) p (io_targetRouteId iv) in
                           io_bind (assembleConfirmed (kd_review deps) p route None
                               (investigation_proof p route iv ev ao) StaticProofT)
                             (\<lambda>f. io_return (Some (f, ao))) w2)))"
  have "calls_of (snd (?rest iv v)) \<le> calls_of v + 4" for iv v
  proof -
    obtain ev w1 where ev: "gatherExecutableEvidence deps (ki_repoRoot input) (io_existingTestFile iv) v = (ev, w1)" by fastforce
    have c1: "calls_of w1 \<le> calls_of v" using metered_evidence[OF assms, of "ki_repoRoot input" "io_existingTestFile iv" v] ev by simp
    obtain ao w2 where ao: "runAdversarialVerification deps input p (io_rationale iv) (ee_summary (the ev)) w1 = (ao, w2)" by fastforce
    have c2: "calls_of w2 \<le> calls_of v + 4"
      using metered_panel[OF assms, of input p "io_rationale iv" "ee_summary (the ev)" w1] ao c1 by simp
    have same: "snd (io_bind (assembleConfirmed (kd_review deps) p r q x StaticProofT) (\<lambda>f. io_return (Some (f, a))) u) = u" for r q x a u
      by (simp add: io_bind_def assembleConfirmed_def Let_def io_return_def)
    show ?thesis using c1 c2 ao by (cases ev; cases ao) (simp_all add: ev Let_def same)
  qed
  then have "calls_of (snd (io_bind (runInvestigation deps input
      (Some (effortScaledMaxTurns p (Option.bind (kd_investigation deps) iv_maxTurns))) p prior) ?rest w)) \<le> calls_of w + (16 + 4)"
    by (intro metered_bind[where calls_of = calls_of, OF metered_investigation[OF assms]])
  then show ?thesis unfolding attemptInvestigationConfirmation_def if_not_P[OF False] by simp
qed

lemma metered_promote:
  "metered deps calls_of b \<Longrightarrow> calls_of (snd (promote deps input p how k extra votes f w)) \<le> calls_of w"
  by (simp add: promote_def metered_append)

lemma metered_demote:
  assumes "metered deps calls_of b"
  shows "calls_of (snd (demote deps input p reason summary metadata w)) \<le> calls_of w + 0"
  unfolding demote_def
  by (rule order_trans[OF metered_bind[where a = 0 and c = 0]]) (simp_all add: metered_append[OF assms])

lemma metered_keep:
  assumes "metered deps calls_of b"
  shows "calls_of (snd (investigate_or_keep deps input p static live w)) \<le> calls_of w + (20 + 0)"
  unfolding investigate_or_keep_def
proof (rule metered_bind)
  show "calls_of (snd ((if isEligibleForInvestigation deps p then attemptInvestigationConfirmation deps input p static else io_return None) w)) \<le> calls_of w + 20"
    using metered_attempt[OF assms] by simp
next
  fix x v
  show "calls_of (snd ((case x of
            Some (f, ao) \<Rightarrow> promote deps input p ''investigation'' ''static'' [(''investigationProof'', JBool True)]
              [(''adversarialVotes'', JStr (nat_str (ao_confirmVotes ao) @ ''/'' @ nat_str (ao_totalVerifiers ao)))] f
          | None \<Rightarrow> io_bind (toUnconfirmed (cd_datetime (kd_review deps)) p (unconfirmed_reason static live)) (\<lambda>u. io_return (Inl u))) v)) \<le> calls_of v + 0"
  proof (cases x)
    case None
    then show ?thesis by (simp add: io_bind_def toUnconfirmed_def io_return_def)
  qed (use metered_promote[OF assms] in \<open>auto split: prod.splits\<close>)
qed

lemma metered_live:
  assumes "metered deps calls_of b"
  shows "calls_of (snd (confirmLive deps input t p w)) \<le> calls_of w + (b + 0)"
  unfolding confirmLive_def
proof (rule metered_bind)
  show "calls_of (snd (kd_probe deps t p w)) \<le> calls_of w + b" using assms by (simp add: metered_def)
qed (simp add: io_bind_def assembleConfirmed_def Let_def io_return_def)

lemma metered_finding:
  assumes "metered deps calls_of b"
  shows "calls_of (snd (confirm_finding deps input target p w)) \<le> calls_of w + (21 + b)"
proof -
  let ?live = "case target of
                  Some t \<Rightarrow> if t \<noteq> [] \<and> isLiveEligible (pf_category p)
                    then io_bind (confirmLive deps input t p) (\<lambda>l. io_return (Some l)) else io_return None
                | None \<Rightarrow> io_return None"
  have l: "calls_of (snd (?live v)) \<le> calls_of v + b" for v
  proof (cases "\<exists>t. target = Some t \<and> t \<noteq> [] \<and> isLiveEligible (pf_category p)")
    case True
    then obtain t where "target = Some t" "t \<noteq> []" "isLiveEligible (pf_category p)" by blast
    moreover have "calls_of (snd (io_bind (confirmLive deps input t p) (\<lambda>l. io_return (Some l)) v)) \<le> calls_of v + (b + 0 + 0)"
      by (rule metered_bind, rule metered_live[OF assms]) simp
    ultimately show ?thesis by simp
  qed (auto split: option.splits)
  have "calls_of (snd (confirm_proofs deps input target p v)) \<le> calls_of v + (1 + (b + 20))" for v
    unfolding confirm_proofs_def
  proof (rule metered_bind, rule metered_static[OF assms], rule metered_bind, rule l)
    fix st live v
    show "calls_of (snd ((case live of
              Some (Inr f) \<Rightarrow> promote deps input p ''live'' ''live'' [] [] f
            | _ \<Rightarrow> (case st of
                Static_confirmed f hops \<Rightarrow> promote deps input p ''static'' ''static'' [] [] f
              | Static_unconfirmed r hops \<Rightarrow> investigate_or_keep deps input p (static_reason st)
                  (case live of Some (Inl reason) \<Rightarrow> Some reason | _ \<Rightarrow> None))) v)) \<le> calls_of v + 20"
      using metered_keep[OF assms, of input p] metered_promote[OF assms]
      by (auto split: option.splits sum.splits static_outcome.splits intro: order_trans[OF metered_promote[OF assms]])
  qed
  then have "calls_of (snd (confirm_finding deps input target p w)) \<le> calls_of w + (0 + (21 + b))"
    unfolding confirm_finding_def
  proof (intro metered_bind)
    fix v
    assume "\<And>v. calls_of (snd (confirm_proofs deps input target p v)) \<le> calls_of v + (1 + (b + 20))"
    from this[of v] metered_demote[OF assms, of input p] show "calls_of (snd ((if suppressed_finding deps p
       then demote deps input p KNOWN_FP_REASON ''Suppressed known false positive (static): '' [(''reason'', JStr ''known_false_positive'')]
       else case structuralConfirmationGate p (cs_appMap input) of
         Some reason \<Rightarrow> demote deps input p reason ''Structurally ruled out before confirmation: ''
           [(''reason'', JStr ''structurally_ruled_out''), (''detail'', JStr reason),
            (''routeId'', case pf_routeId p of Some i \<Rightarrow> JStr i | None \<Rightarrow> JUndef)]
       | None \<Rightarrow> confirm_proofs deps input target p) v)) \<le> calls_of v + (21 + b)"
      by (auto split: option.splits intro: trans_le_add1)
  qed simp
  then show ?thesis by simp
qed

text \<open>C24. Layer 3 has a price per finding: a run asks the model at most 21 times for each probable finding, once
  for the review of the data flow, twice for each of the at most eight turns of the investigation and
  once for each of the at most four verifiers, and as often as the probes of the finding may; this
  holds for a run that ends with an error too.\<close>

theorem layer3_calls_bounded:
  assumes "metered deps calls_of b"
  shows "calls_of (snd (confirmFindings deps input w)) \<le> calls_of w + (21 + b) * length (ki_probable input)"
proof -
  let ?ps = "js_sort (\<lambda>a b. pf_rank a \<le> pf_rank b) (ki_probable input)"
  have "calls_of (snd (authorize_live deps input v)) \<le> calls_of v + 0" for v
    using metered_append[OF assms] by (simp add: authorize_live_def split: sum.splits)
  then have "calls_of (snd (confirmFindings deps input w)) \<le> calls_of w + (0 + ((21 + b) * length ?ps + 0))"
    unfolding confirmFindings_def
    by (intro metered_bind confirm_run.loop_cost metered_finding[OF assms]) (simp_all add: Let_def)
  then show ?thesis by simp
qed

definition ex3_asking :: "nat confirm_deps" where
  "ex3_asking = ex3_deps\<lparr>kd_review := ex3_reviewed,
     kd_investigation := Some \<lparr>iv_enabled = True, iv_maxTurns = Some 8, iv_effort = None, iv_verifierCount = None, iv_severities = None\<rparr>\<rparr>"

lemma ex3_metered: "metered ex3_asking (\<lambda>n. n) 0"
  by (auto simp: metered_def ex3_asking_def ex3_deps_def ex3_reviewed_def ex3_review_def ex2_ask_def)

lemma layer3_calls_bounded_witness:
  "metered ex3_asking (\<lambda>n. n) 0 \<and> snd (confirmFindings ex3_asking (ex3_input ex3_findings) 0) \<le> 84"
  using layer3_calls_bounded[OF ex3_metered, of "ex3_input ex3_findings" 0] ex3_metered
  by (simp add: ex3_input_def ex3_findings_def)

lemma endless_turns:
  assumes "\<And>n. kd_signal deps n = Not_aborted" and "\<And>r n. kd_stream deps r n = (([], True), Suc n)"
    and "\<And>r n. ask r n = (Inr answer, Suc n)" and "rs_toolCalls answer = Some [c]" and "call_name c \<noteq> SUBMIT_CONCLUSION_TOOL"
    and "\<And>t v n. snd (kd_tool deps t v n) = n"
  shows "\<exists>iv. investigation_turns deps ask input cap left ms calls n = (Inr iv, n + 2 * left)
    \<and> io_verdict iv = Inconclusive \<and> io_turnsUsed iv = cap \<and> io_haltedByBudget iv"
proof (induction left arbitrary: ms calls n)
  case 0
  then show ?case by (simp add: inconclusive_def)
next
  case (Suc left)
  have k: "throwIfKilled deps m n = (Inr (), n)" for m n by (simp add: throwIfKilled_def assms(1))
  have t: "runStreamedTurn deps ask r n = (Inr (rs_content answer, [c]), Suc (Suc n))" for r
    by (simp add: runStreamedTurn_def assms(2,3,4))
  have "snd (run_tools deps cs v) = v" for cs v
  proof (induction cs arbitrary: v)
    case (Cons d ds)
    obtain r w where r: "kd_tool deps (call_name d) (object_field d ''input'') v = (r, w)" by fastforce
    then have "w = v" using assms(6) by (metis snd_conv)
    then show ?case using Cons[of v] by (auto simp: r split: prod.splits)
  qed simp
  then obtain results where tools: "run_tools deps [c] (Suc (Suc n)) = (results, Suc (Suc n))" by (metis prod.collapse)
  have b: "take MAX_TOOL_CALLS_PER_TURN [c] = [c]" by (simp add: MAX_TOOL_CALLS_PER_TURN_def)
  show ?case
    using Suc[of "ms @ assistant_echo (rs_content answer) [c] # results" "calls + 1" "Suc (Suc n)"]
    by (simp add: Let_def k t assms(5) b tools del: run_tools.simps)
qed

text \<open>The bound of an investigation is on its turns and not on its calls: when streaming fails and the model keeps
  asking for tools, an investigation of \<open>n\<close> configured turns takes exactly two calls for each of the
  turns it is allowed, sixteen with eight turns, and then ends without a verdict.\<close>

lemma streamed_turn_costs_two_calls:
  assumes "\<And>n. kd_signal deps n = Not_aborted" and "\<And>r n. kd_stream deps r n = (([], True), Suc n)"
    and "cd_llm (kd_review deps) = Some (\<lambda>r n. (Inr answer, Suc n))" and "rs_toolCalls answer = Some [c]"
    and "call_name c \<noteq> SUBMIT_CONCLUSION_TOOL" and "\<And>t v n. snd (kd_tool deps t v n) = n"
  shows "\<exists>iv. runInvestigation deps input turns p prior n = (Inr iv, n + 2 * nat (turns_cap turns))
    \<and> io_verdict iv = Inconclusive \<and> io_turnsUsed iv = turns_cap turns \<and> io_haltedByBudget iv \<and> turns_cap (Some 8) = 8"
  using endless_turns[where deps = deps and ask = "\<lambda>r n. (Inr answer, Suc n)" and cap = "turns_cap turns" and left = "nat (turns_cap turns)"
      and input = input and n = n, OF assms(1,2) refl assms(4,5,6)]
  by (simp add: runInvestigation_def assms(3)) (simp add: turns_cap_def ABSOLUTE_MAX_INVESTIGATION_TURNS_def)

definition ex3_tool_answer :: llm_response where
  "ex3_tool_answer = \<lparr>rs_id = ''1'', rs_provider = Anthropic, rs_model = ''m'', rs_content = ''x'', rs_stopReason = End_turn,
     rs_usage = \<lparr>inputTokens = 1, outputTokens = 1, cacheReadTokens = None, cacheWriteTokens = None, totalTokens = 2\<rparr>,
     rs_latencyMs = 1, rs_toolCalls = Some [JObj [(''name'', JStr ''grep'')]], rs_confidence = None\<rparr>"

lemma streamed_turn_costs_two_calls_witness:
  "\<exists>iv. runInvestigation (ex3_deps\<lparr>kd_review := ex3_review\<lparr>cd_llm := Some (\<lambda>r n. (Inr ex3_tool_answer, Suc n))\<rparr>\<rparr>) (ex3_input []) (Some 8)
      (ex3_finding ''p2'' Idor ''b.ts'' 2) None 0 = (Inr iv, 16) \<and> io_turnsUsed iv = 8"
proof -
  let ?d = "ex3_deps\<lparr>kd_review := ex3_review\<lparr>cd_llm := Some (\<lambda>r n. (Inr ex3_tool_answer, Suc n))\<rparr>\<rparr>"
  have "turns_cap (Some 8) = 8" by (simp add: turns_cap_def ABSOLUTE_MAX_INVESTIGATION_TURNS_def)
  moreover have "\<exists>iv. runInvestigation ?d (ex3_input []) (Some 8) (ex3_finding ''p2'' Idor ''b.ts'' 2) None 0
      = (Inr iv, 0 + 2 * nat (turns_cap (Some 8)))
    \<and> io_verdict iv = Inconclusive \<and> io_turnsUsed iv = turns_cap (Some 8) \<and> io_haltedByBudget iv \<and> turns_cap (Some 8) = 8"
    by (rule streamed_turn_costs_two_calls[where answer = ex3_tool_answer and c = "JObj [(''name'', JStr ''grep'')]"])
      (simp_all add: ex3_deps_def ex3_review_def ex3_tool_answer_def call_name_def json_string_def SUBMIT_CONCLUSION_TOOL_def)
  ultimately show ?thesis by auto
qed

section \<open>Budgets, eligibility and the panel\<close>

text \<open>The effort a finding gets: with a configured budget of at least one turn, the scaled budget is at least the
  smaller of two turns and the budget, and it is the budget for a finding of high value; it is more
  than the budget for exactly one configuration, a single turn for a finding of less value, which
  gets two.\<close>

lemma effort_scaling_bounds:
  assumes "1 \<le> n"
  shows "min 2 n \<le> effortScaledMaxTurns p (Some n)
    \<and> (1 / 2 \<le> combinedScoreOf p \<longrightarrow> effortScaledMaxTurns p (Some n) = n)
    \<and> (n < effortScaledMaxTurns p (Some n) \<longleftrightarrow> n = 1 \<and> combinedScoreOf p < 1 / 2)"
proof -
  have half: "js_round (of_int n / 2) \<le> n" and most: "js_round (of_int n * (3 / 4)) \<le> n" if "2 \<le> n"
    using that by (simp_all add: js_round_def floor_le_iff)
  have one: "js_round (of_int 1 / 2) = 1" "js_round (of_int 1 * (3 / 4)) = 1"
    by (simp_all add: js_round_def floor_eq_iff)
  show ?thesis
  proof (cases "n = 1")
    case True
    then show ?thesis using one by (auto simp: effortScaledMaxTurns_def Let_def)
  next
    case False
    then have "2 \<le> n" using assms by simp
    then show ?thesis using half most by (auto simp: effortScaledMaxTurns_def Let_def)
  qed
qed

lemma effort_scaling_bounds_witness:
  "combinedScoreOf (ex3_finding ''p'' Idor ''b.ts'' 1\<lparr>pf_impactScore := 0\<rparr>) = 0
    \<and> 1 < effortScaledMaxTurns (ex3_finding ''p'' Idor ''b.ts'' 1\<lparr>pf_impactScore := 0\<rparr>) (Some 1)"
proof -
  have "combinedScoreOf (ex3_finding ''p'' Idor ''b.ts'' 1\<lparr>pf_impactScore := 0\<rparr>) = 0"
    by (simp add: combinedScoreOf_def ex3_finding_def)
  with effort_scaling_bounds[of 1 "ex3_finding ''p'' Idor ''b.ts'' 1\<lparr>pf_impactScore := 0\<rparr>"] show ?thesis by simp
qed

text \<open>Who is investigated: with the default scope of high and critical severities and no shape confirmed before, a
  finding is offered to the investigation by the severity of its category, whatever its exposure; so
  exactly the findings of a high category that are not public are offered although the severity they
  would be confirmed with is out of scope.\<close>

lemma eligibility_ignores_exposure:
  assumes "kd_investigation deps = Some config" and "iv_severities config = Some [High, Critical]" and "kd_priorConfirmedShapes deps = None"
  shows "(isEligibleForInvestigation deps p \<longleftrightarrow> BASE_SEVERITY (pf_category p) \<in> {High, Critical})
    \<and> (isEligibleForInvestigation deps p \<and> deriveSeverity (pf_category p) (pf_exposure p) \<notin> {High, Critical}
       \<longleftrightarrow> BASE_SEVERITY (pf_category p) = High \<and> pf_exposure p \<noteq> Public)"
proof -
  have e: "isEligibleForInvestigation deps p \<longleftrightarrow> BASE_SEVERITY (pf_category p) \<in> {High, Critical}"
    by (simp add: isEligibleForInvestigation_def assms baseSeverityForCategory_def)
  then show ?thesis by (cases "BASE_SEVERITY (pf_category p)") (auto simp: deriveSeverity_def Let_def)
qed

lemma eligibility_ignores_exposure_witness:
  "isEligibleForInvestigation (ex3_deps\<lparr>kd_investigation := Some \<lparr>iv_enabled = True, iv_maxTurns = None, iv_effort = None,
      iv_verifierCount = None, iv_severities = Some [High, Critical]\<rparr>\<rparr>) (ex3_finding ''p'' Idor ''b.ts'' 1\<lparr>pf_exposure := Authed\<rparr>)
    \<and> deriveSeverity Idor Authed = Medium"
  using eligibility_ignores_exposure[where deps = "ex3_deps\<lparr>kd_investigation := Some \<lparr>iv_enabled = True, iv_maxTurns = None, iv_effort = None,
      iv_verifierCount = None, iv_severities = Some [High, Critical]\<rparr>\<rparr>" and p = "ex3_finding ''p'' Idor ''b.ts'' 1\<lparr>pf_exposure := Authed\<rparr>"]
  by (simp add: ex3_deps_def ex3_finding_def deriveSeverity_def)

text \<open>The panel: whatever the verifiers answer, and if their calls fail, a panel has between one and four verdicts,
  one for each lens of a prefix of the fixed order; it confirms exactly when more than half of them
  confirm; and the lens that tries to refute the finding is part of it exactly when no count is
  configured or one of at least four.\<close>

lemma panel_needs_strict_majority:
  assumes "runAdversarialVerification deps input p rat ev w = (Some ao, w')"
  shows "1 \<le> length (ao_verdicts ao) \<and> length (ao_verdicts ao) \<le> 4
    \<and> map vv_lens (ao_verdicts ao) = take (length (ao_verdicts ao)) LENS_ORDER
    \<and> (ao_confirmed ao \<longleftrightarrow> length (ao_verdicts ao) < 2 * length (filter vv_confirm (ao_verdicts ao)))
    \<and> (Refutation \<in> set (map vv_lens (ao_verdicts ao)) \<longleftrightarrow>
        (case Option.bind (kd_investigation deps) iv_verifierCount of None \<Rightarrow> True | Some n \<Rightarrow> 4 \<le> n))"
proof -
  obtain ask vs w1 where vs: "run_verifiers deps ask input p rat ev (take (verifier_count deps) LENS_ORDER) [] w = (vs, w1)"
    and ao: "ao = \<lparr>ao_confirmed = (0 < length (take (verifier_count deps) LENS_ORDER)
        \<and> length (take (verifier_count deps) LENS_ORDER) div 2 + 1 \<le> length (filter vv_confirm vs)),
      ao_verdicts = vs, ao_confirmVotes = length (filter vv_confirm vs),
      ao_totalVerifiers = length (take (verifier_count deps) LENS_ORDER),
      ao_requiredVotes = length (take (verifier_count deps) LENS_ORDER) div 2 + 1\<rparr>"
    using assms by (auto simp: runAdversarialVerification_def Let_def split: option.splits prod.splits)
  have n: "1 \<le> verifier_count deps" "verifier_count deps \<le> 4"
    by (auto simp: verifier_count_def Let_def LENS_ORDER_def split: option.splits)
  have lenses: "map vv_lens vs = take (verifier_count deps) LENS_ORDER" using run_verifiers_lenses[OF vs] by simp
  moreover have len: "length vs = verifier_count deps" using arg_cong[of _ _ length, OF lenses] n(2) by (simp add: LENS_ORDER_def)
  moreover have "Refutation \<in> set (take (verifier_count deps) LENS_ORDER) \<longleftrightarrow> 4 \<le> verifier_count deps"
    using n by (auto simp: LENS_ORDER_def take_Cons' split: if_splits)
  moreover have "4 \<le> verifier_count deps \<longleftrightarrow> (case Option.bind (kd_investigation deps) iv_verifierCount of None \<Rightarrow> True | Some n \<Rightarrow> 4 \<le> n)"
    by (auto simp: verifier_count_def Let_def LENS_ORDER_def split: option.splits)
  moreover have "length (take (verifier_count deps) LENS_ORDER) = verifier_count deps" using n(2) by (simp add: LENS_ORDER_def)
  ultimately show ?thesis using n by (auto simp: ao)
qed

lemma panel_needs_strict_majority_witness:
  "\<exists>ao w. runAdversarialVerification ex3_asking (ex3_input []) (ex3_finding ''p'' Idor ''b.ts'' 1) [] [] 0 = (Some ao, w)
    \<and> Refutation \<in> set (map vv_lens (ao_verdicts ao))"
proof -
  obtain x w where r: "runAdversarialVerification ex3_asking (ex3_input []) (ex3_finding ''p'' Idor ''b.ts'' 1) [] [] 0 = (x, w)" by fastforce
  moreover from r obtain ao where ao: "x = Some ao"
    by (auto simp: runAdversarialVerification_def ex3_asking_def ex3_deps_def ex3_reviewed_def ex3_review_def Let_def split: prod.splits)
  ultimately have "runAdversarialVerification ex3_asking (ex3_input []) (ex3_finding ''p'' Idor ''b.ts'' 1) [] [] 0 = (Some ao, w)" by simp
  from panel_needs_strict_majority[OF this] this show ?thesis by (auto simp: ex3_asking_def)
qed

section \<open>From layer 2 to layer 3\<close>

lemma correlated_on_map:
  assumes "finding_of llm ci grp p" and "grp \<in> set (promoted_groups ci)"
  shows "structuralConfirmationGate p (ci_appMap ci) = None"
proof -
  from assms(2) have G: "grp \<in> set (groupCandidates (ci_candidates ci) (AppMapIndex (ci_appMap ci)))" by (simp add: promoted_groups_def)
  obtain c where c: "rg_grounding grp = groundCandidate c (AppMapIndex (ci_appMap ci))" using group_facts(3)[OF G] by blast
  have "gd_routeId (groundCandidate c (AppMapIndex (ci_appMap ci))) = Option.bind (ground_route c (AppMapIndex (ci_appMap ci))) ro_id"
    by (simp add: groundCandidate_def Let_def)
  then have "truthy (pf_routeId p) \<Longrightarrow> \<exists>r \<in> set (am_routes (ci_appMap ci)). ro_id r = pf_routeId p"
    using finding_fields(3)[OF assms(1)] c ground_route_mem[of c "ci_appMap ci"]
    by (auto simp: bind_eq_Some_conv split: if_splits) (metis bind_eq_Some_conv option.collapse truthy.simps(1))
  then show ?thesis by (auto simp: structuralConfirmationGate_def list_ex_iff)
qed

text \<open>C25. What layer 2 promotes passes through layer 3: on the map the findings were correlated with, whose places are
  valid, and with collaborators that do not end the run, layer 3 returns, with a verdict for every
  finding of layer 2; and its structural gate rules none of them out.\<close>

theorem correlated_findings_get_verdicts:
  assumes "correlate eff ci v = (Inr (Layer2_output ps ds), v')" and "ki_probable input = ps" and "cs_appMap input = ci_appMap ci"
    and "cd_datetime (kd_review deps) = ci_datetime ci" and "steady_deps deps" and "map_places_valid (ci_appMap ci)"
  shows "(\<exists>out w'. confirmFindings deps input w = (Inr out, w') \<and> length (l3_confirmed out) + length (l3_unconfirmed out) = length ps)
    \<and> list_all (\<lambda>p. structuralConfirmationGate p (cs_appMap input) = None) ps"
proof -
  obtain gs where r: "mset gs = mset (promoted_groups ci)" "list_all2 (finding_of (use_llm eff ci) ci) gs ps"
    using run_shape[OF assms(1)] by metis
  have p: "\<exists>grp \<in> set (promoted_groups ci). finding_of (use_llm eff ci) ci grp p" if "p \<in> set ps" for p
    using r that by (metis in_set_conv_nth list_all2_conv_all_nth mset_eq_setD)
  have "list_all (probable_valid (ci_datetime ci)) ps" using p by (fastforce simp: list_all_iff finding_of_def)
  then obtain out w' where run: "confirmFindings deps input w = (Inr out, w')"
    using steady_run[OF assms(5), of input w] assms(2-4,6) by auto
  obtain target rs where s: "list_all2 (settles deps input target) (js_sort (\<lambda>a b. pf_rank a \<le> pf_rank b) ps) rs"
    "l3_confirmed out = the_confirmed rs" "l3_unconfirmed out = the_unconfirmed rs"
    using run_verdicts[OF run] assms(2) by metis
  have "length (the_confirmed rs) + length (the_unconfirmed rs) = length rs" for rs :: "(unconfirmed_finding + confirmed_finding) list"
  proof (induction rs)
    case (Cons r rs)
    then show ?case by (cases r) auto
  qed simp
  then have "length (l3_confirmed out) + length (l3_unconfirmed out) = length ps" using s list_all2_lengthD[OF s(1)] by simp
  moreover have "list_all (\<lambda>p. structuralConfirmationGate p (cs_appMap input) = None) ps"
    using p correlated_on_map assms(3) by (fastforce simp: list_all_iff)
  ultimately show ?thesis using run by blast
qed

lemma ex3_steady: "steady_deps ex3_deps"
  by (simp add: steady_deps_def ex3_deps_def ex3_review_def)

lemma correlated_findings_get_verdicts_witness:
  "\<exists>ps ds v out w. correlate ex2_effects (ex2_input ex2_candidates) 0 = (Inr (Layer2_output ps ds), v)
    \<and> confirmFindings ex3_deps (ex3_input ps\<lparr>cs_appMap := ex2_map\<rparr>) 0 = (Inr out, w)
    \<and> length (l3_confirmed out) + length (l3_unconfirmed out) = length ps"
proof -
  obtain ps ds v where r: "correlate ex2_effects (ex2_input ex2_candidates) 0 = (Inr (Layer2_output ps ds), v)"
    using run_total[OF ex2_valid] by metis
  have "\<exists>out w'. confirmFindings ex3_deps (ex3_input ps\<lparr>cs_appMap := ex2_map\<rparr>) 0 = (Inr out, w')
      \<and> length (l3_confirmed out) + length (l3_unconfirmed out) = length ps"
    using correlated_findings_get_verdicts[OF r, of "ex3_input ps\<lparr>cs_appMap := ex2_map\<rparr>" ex3_deps 0] ex3_steady
    by (simp add: ex3_input_def ex2_input_def ex3_deps_def ex3_review_def map_places_valid_def ex2_map_def app_map.defs)
  with r show ?thesis by blast
qed

end
