(* ===== verification/PayloadSafety.thy ===== *)
theory PayloadSafety
  imports FixRisk Float64
begin

text \<open>
  \<open>packages/confirm/src/payload-safety.ts\<close>: the predicate a payload composed by a model must pass
  before it is sent, its rules in their order, as regular expressions and scans over the payload.
  The URL parser of the runtime is a parameter. Dashes of the messages are written in ASCII.
\<close>

definition or_empty :: "string option \<Rightarrow> string" where
  "or_empty x = (case x of None \<Rightarrow> [] | Some s \<Rightarrow> s)"

section \<open>Numbers as JavaScript reads them\<close>

text \<open>
  \<open>Number(text)\<close> for a text of printable characters; None is a value that is not finite. The result is
  rounded to a double; overflow to infinity is beyond the texts that are read here.
\<close>

definition digit_value :: "char \<Rightarrow> nat" where
  "digit_value c = (let n = (of_char c :: nat) in
     if 48 \<le> n \<and> n \<le> 57 then n - 48 else if 97 \<le> n \<and> n \<le> 102 then n - 87 else if 65 \<le> n \<and> n \<le> 70 then n - 55 else 16)"

definition digits_value :: "nat \<Rightarrow> string \<Rightarrow> nat" where
  "digits_value base ds = foldl (\<lambda>a c. a * base + digit_value c) 0 ds"

definition radix_number :: "nat \<Rightarrow> string \<Rightarrow> rat option" where
  "radix_number base ds = (if ds \<noteq> [] \<and> list_all (\<lambda>c. digit_value c < base) ds then Some (of_nat (digits_value base ds)) else None)"

definition split_sign :: "string \<Rightarrow> bool \<times> string" where
  "split_sign s = (case s of c # cs \<Rightarrow> if c = CHR ''-'' then (True, cs) else if c = CHR ''+'' then (False, cs) else (False, s) | [] \<Rightarrow> (False, []))"

definition exponent_value :: "string \<Rightarrow> int option" where
  "exponent_value s =
     (case s of
        [] \<Rightarrow> Some 0
      | c # cs \<Rightarrow> if c \<notin> {CHR ''e'', CHR ''E''} then None
          else (case split_sign cs of (neg, ds) \<Rightarrow>
            if ds \<noteq> [] \<and> list_all is_digit_char ds
            then Some (if neg then - int (digits_value 10 ds) else int (digits_value 10 ds)) else None))"

definition decimal_number :: "string \<Rightarrow> rat option" where
  "decimal_number s =
     (let (neg, t) = split_sign s;
          whole = takeWhile is_digit_char t; rest = dropWhile is_digit_char t;
          (frac, rest') = (case rest of
             c # cs \<Rightarrow> if c = CHR ''.'' then (takeWhile is_digit_char cs, dropWhile is_digit_char cs) else ([], rest)
           | [] \<Rightarrow> ([], []))
      in if whole = [] \<and> frac = [] then None
         else case exponent_value rest' of
           None \<Rightarrow> None
         | Some e \<Rightarrow> (let m = of_nat (digits_value 10 (whole @ frac)); k = e - int (length frac);
               v = (if 0 \<le> k then m * 10 ^ nat k else m / 10 ^ nat (- k)) in
             Some (fl64 (if neg then - v else v))))"

definition js_number :: "string \<Rightarrow> rat option" where
  "js_number s =
     (case js_trim s of
        [] \<Rightarrow> Some 0
      | CHR ''0'' # x # ds \<Rightarrow>
          if x \<in> {CHR ''x'', CHR ''X''} then radix_number 16 ds
          else if x \<in> {CHR ''o'', CHR ''O''} then radix_number 8 ds
          else if x \<in> {CHR ''b'', CHR ''B''} then radix_number 2 ds
          else decimal_number (CHR ''0'' # x # ds)
      | t \<Rightarrow> decimal_number t)"

section \<open>Verdicts and bounds\<close>

definition COMPOSABLE_LIVE_CATEGORIES :: "category list" where
  "COMPOSABLE_LIVE_CATEGORIES = [Sql_injection, Xss, Ssrf, Path_traversal, Command_injection]"

definition isComposableLiveCategory :: "category \<Rightarrow> bool" where
  "isComposableLiveCategory c \<longleftrightarrow> c \<in> set COMPOSABLE_LIVE_CATEGORIES"

datatype payload_verdict = Payload_safe string | Payload_rejected string

fun is_safe :: "payload_verdict \<Rightarrow> bool" where
  "is_safe (Payload_safe r) = True"
| "is_safe (Payload_rejected r) = False"

definition HARD_MAX_LENGTH :: nat where "HARD_MAX_LENGTH = 300"

definition printable :: "char \<Rightarrow> bool" where
  "printable c \<longleftrightarrow> 32 \<le> (of_char c :: nat) \<and> (of_char c :: nat) \<le> 126"

text \<open>The reason a payload is out of bounds, if it is.\<close>

definition checkGenericBounds :: "string \<Rightarrow> nat \<Rightarrow> string option" where
  "checkGenericBounds payload maxLength =
     (if payload = [] then Some ''payload must be a non-empty string''
      else if min maxLength HARD_MAX_LENGTH < length payload
      then Some (''payload exceeds the max allowed length ('' @ nat_str maxLength @ '' chars)'')
      else if \<not> list_all printable payload
      then Some ''payload contains non-printable/binary characters (printable ASCII only)''
      else None)"

text \<open>Rules in order: the first that applies rejects.\<close>

fun first_rule :: "(bool \<times> string) list \<Rightarrow> string \<Rightarrow> payload_verdict" where
  "first_rule [] passed = Payload_safe passed"
| "first_rule ((applies, reason) # rules) passed = (if applies then Payload_rejected reason else first_rule rules passed)"

definition evaluate_rules :: "string \<Rightarrow> nat \<Rightarrow> (bool \<times> string) list \<Rightarrow> string \<Rightarrow> payload_verdict" where
  "evaluate_rules payload maxLength rules passed =
     (case checkGenericBounds payload maxLength of Some r \<Rightarrow> Payload_rejected r | None \<Rightarrow> first_rule rules passed)"

text \<open>What a group between two expressions takes at the first place where all three match.\<close>

definition capture_at :: "regex \<Rightarrow> regex \<Rightarrow> regex \<Rightarrow> rx_pos \<Rightarrow> string list" where
  "capture_at before grp behind pos =
     concat (map (\<lambda>p. List.map_filter (\<lambda>q. if rx_ends behind q \<noteq> [] then Some (take (length (snd p) - length (snd q)) (snd p)) else None)
        (rx_ends grp p)) (rx_ends before pos))"

fun capture_from :: "regex \<Rightarrow> regex \<Rightarrow> regex \<Rightarrow> char option \<Rightarrow> string \<Rightarrow> string option" where
  "capture_from before grp behind prev [] = (case capture_at before grp behind (prev, []) of [] \<Rightarrow> None | w # ws \<Rightarrow> Some w)"
| "capture_from before grp behind prev (c # cs) =
     (case capture_at before grp behind (prev, c # cs) of [] \<Rightarrow> capture_from before grp behind (Some c) cs | w # ws \<Rightarrow> Some w)"

definition rx_any_of :: "string \<Rightarrow> regex" where
  "rx_any_of cs = One (\<lambda>c. c \<in> set cs)"

definition spaces :: regex where "spaces = Rep 0 None (One js_white)"

definition some_spaces :: regex where "some_spaces = Rep 1 None (One js_white)"

definition words_rx :: regex where "words_rx = Rep 1 None (One word_char)"

definition digits_rx :: regex where "digits_rx = Rep 1 None (One is_digit_char)"

definition whole_word :: "string list \<Rightarrow> regex" where
  "whole_word ws = rx_seq [WordBoundary, rx_words ws, WordBoundary]"

section \<open>SQL injection\<close>

definition SQLI_MAX_LENGTH :: nat where "SQLI_MAX_LENGTH = 150"

definition SQLI_SHAPE :: regex where
  "SQLI_SHAPE = rx_alt [rx_any_of [CHR 0x27, CHR 0x22], whole_word [''or'', ''and'', ''union'', ''select'', ''sleep'', ''waitfor'', ''benchmark'']]"

definition SQLI_KEYWORDS :: "string list" where
  "SQLI_KEYWORDS = [''drop'', ''delete'', ''truncate'', ''update'', ''insert'', ''alter'', ''create'', ''exec'', ''execute'', ''grant'', ''revoke'',
     ''attach'', ''shutdown'', ''xp_cmdshell'', ''load_file'']"

definition SQLI_DESTRUCTIVE :: regex where
  "SQLI_DESTRUCTIVE = Alt (whole_word SQLI_KEYWORDS) (rx_seq [Lit ''into'', some_spaces, rx_words [''outfile'', ''dumpfile'']])"

definition SQLI_MAX_SLEEP_SECONDS :: nat where "SQLI_MAX_SLEEP_SECONDS = 5"

text \<open>The argument of the first \<open>sleep\<close>, and the seconds of the first \<open>waitfor delay\<close>; zeros in front do not matter.\<close>

definition sleep_argument :: "string \<Rightarrow> string option" where
  "sleep_argument payload = capture_from
     (rx_seq [WordBoundary, rx_words [''sleep'', ''pg_sleep''], spaces, Lit ''('', spaces])
     (Seq digits_rx (rx_opt (Seq (Lit ''.'') digits_rx))) (Seq spaces (Lit '')'')) None (js_lower payload)"

fun waitfor_parts :: "string \<Rightarrow> nat option" where
  "waitfor_parts s =
     (let hh = takeWhile is_digit_char s; s1 = dropWhile is_digit_char s in
      case s1 of
        c1 # t1 \<Rightarrow> (let mm = takeWhile is_digit_char t1; s2 = dropWhile is_digit_char t1 in
          case s2 of
            c2 # t2 \<Rightarrow> (let ss = takeWhile is_digit_char t2; s3 = dropWhile is_digit_char t2 in
              if hh \<noteq> [] \<and> mm \<noteq> [] \<and> ss \<noteq> [] \<and> c1 = CHR '':'' \<and> c2 = CHR '':'' \<and> next_char s3 = Some (CHR 0x27)
              then Some (digits_value 10 hh * 3600 + digits_value 10 mm * 60 + digits_value 10 ss) else None)
          | [] \<Rightarrow> None)
      | [] \<Rightarrow> None)"

fun waitfor_from :: "char option \<Rightarrow> string \<Rightarrow> nat option" where
  "waitfor_from prev [] = None"
| "waitfor_from prev (c # cs) =
     (case List.map_filter (\<lambda>q. waitfor_parts (snd q))
         (rx_ends (rx_seq [Lit ''waitfor'', some_spaces, Lit ''delay'', some_spaces, rx_any_of [CHR 0x27]]) (prev, c # cs)) of
        [] \<Rightarrow> waitfor_from (Some c) cs | n # ns \<Rightarrow> Some n)"

definition sleep_too_long :: "string \<Rightarrow> bool" where
  "sleep_too_long payload = (case sleep_argument payload of None \<Rightarrow> False
     | Some d \<Rightarrow> (case js_number d of None \<Rightarrow> True | Some n \<Rightarrow> of_nat SQLI_MAX_SLEEP_SECONDS < n))"

definition waitfor_too_long :: "string \<Rightarrow> bool" where
  "waitfor_too_long payload = (case waitfor_from None (js_lower payload) of None \<Rightarrow> False | Some n \<Rightarrow> SQLI_MAX_SLEEP_SECONDS < n)"

definition evaluateSqlInjectionPayload :: "string \<Rightarrow> payload_verdict" where
  "evaluateSqlInjectionPayload payload = evaluate_rules payload SQLI_MAX_LENGTH
     [(js_includes payload '';'', ''semicolon (stacked-query risk) is never permitted in a composed SQLi payload''),
      (\<not> rx_test_i SQLI_SHAPE payload, ''payload does not structurally resemble a SQL-injection proof (no quote/keyword)''),
      (rx_test_i SQLI_DESTRUCTIVE payload, ''payload contains a data-mutating/destructive SQL keyword - proof must be read-only''),
      (sleep_too_long payload, ''SLEEP()/pg_sleep() argument exceeds the '' @ nat_str SQLI_MAX_SLEEP_SECONDS @ ''s non-destructive bound''),
      (waitfor_too_long payload, ''WAITFOR DELAY exceeds the '' @ nat_str SQLI_MAX_SLEEP_SECONDS @ ''s non-destructive bound'')]
     ''SQL-shaped, non-destructive, within bounds''"

section \<open>Cross-site scripting\<close>

definition XSS_MAX_LENGTH :: nat where "XSS_MAX_LENGTH = 200"

definition XSS_ALLOWED_TAG :: regex where
  "XSS_ALLOWED_TAG = rx_seq [Lit ''<'', spaces, rx_words [''script'', ''img'', ''svg''], WordBoundary]"

definition XSS_EVENT_HANDLER_OR_TAG :: regex where
  "XSS_EVENT_HANDLER_OR_TAG = rx_alt
     [rx_seq [Lit ''<'', rx_opt (Lit ''/''), words_rx, Rep 0 None (One (\<lambda>c. c \<noteq> CHR ''>'')), Lit ''>''],
      rx_seq [Lit ''on'', words_rx, spaces, Lit ''=''], Lit ''javascript:'']"

definition XSS_DANGEROUS :: regex where
  "XSS_DANGEROUS = rx_alt
     [rx_seq [Lit ''<'', spaces, rx_words [''iframe'', ''object'', ''embed'', ''form'', ''meta'', ''link'', ''base''], WordBoundary],
      Lit ''document.cookie'', rx_seq [Lit ''fetch'', spaces, Lit ''(''], Lit ''xmlhttprequest'', rx_seq [Lit ''eval'', spaces, Lit ''(''],
      Lit ''localstorage'', Lit ''sessionstorage'', rx_seq [Lit ''<'', spaces, Lit ''style'', WordBoundary], rx_seq [Lit ''import'', spaces, Lit ''('']]"

definition XSS_EXTERNAL_URL :: regex where
  "XSS_EXTERNAL_URL = rx_seq [Lit ''http'', rx_opt (Lit ''s''), Lit ''://'']"

text \<open>The greedy group \<open>\w+\<close> ends where the word does, which a boundary behind it says.\<close>

definition first_tag :: "string \<Rightarrow> string option" where
  "first_tag payload = capture_from (Seq (Lit ''<'') spaces) words_rx WordBoundary None payload"

definition evaluateXssPayload :: "string \<Rightarrow> string option \<Rightarrow> payload_verdict" where
  "evaluateXssPayload payload marker = evaluate_rules payload XSS_MAX_LENGTH
     [(\<not> rx_test_i XSS_EVENT_HANDLER_OR_TAG payload, ''payload does not structurally resemble an XSS proof (no tag/event handler)''),
      (rx_test_i XSS_DANGEROUS payload, ''payload uses a disallowed tag/sink (iframe/object/form/cookie/fetch/eval/...)''),
      (rx_test_i XSS_EXTERNAL_URL payload, ''payload references an external URL - proof must never attempt exfiltration''),
      (first_tag payload \<noteq> None \<and> \<not> rx_test_i XSS_ALLOWED_TAG payload,
       ''<'' @ or_empty (first_tag payload) @ ''> is not on the allowed tag list (script/img/svg only)''),
      (\<not> truthy marker, ''no harness marker supplied - cannot verify reflection deterministically''),
      (\<not> js_includes payload (or_empty marker), ''payload does not embed the required harness marker - reflection cannot be verified'')]
     ''tag/vector-allowlisted, marker-verifiable, no exfiltration, within bounds''"

section \<open>Server-side request forgery\<close>

text \<open>What the parser of the runtime finds in an absolute URL.\<close>

record url_parts =
  up_protocol :: string
  up_username :: string
  up_password :: string
  up_host :: string

type_synonym url_reader = "string \<Rightarrow> url_parts option"

definition SSRF_MAX_LENGTH :: nat where "SSRF_MAX_LENGTH = 300"

definition evaluateSsrfPayload :: "url_reader \<Rightarrow> string \<Rightarrow> payload_verdict" where
  "evaluateSsrfPayload read payload =
     (let u = (case read payload of Some u \<Rightarrow> u | None \<Rightarrow> \<lparr>up_protocol = [], up_username = [], up_password = [], up_host = []\<rparr>) in
      evaluate_rules payload SSRF_MAX_LENGTH
        [(read payload = None, ''payload does not parse as an absolute URL - SSRF proof must target a URL''),
         (up_protocol u \<notin> {''http:'', ''https:''}, ''scheme '' @ [CHR 0x22] @ up_protocol u @ [CHR 0x22]
            @ '' is not permitted - only http/https (no file:/gopher:/dict:/ftp:/...)''),
         (up_username u \<noteq> [] \<or> up_password u \<noteq> [], ''payload embeds URL credentials (userinfo) - not permitted''),
         (up_host u = [], ''payload URL has no host'')]
        ''valid http(s) URL, no embedded credentials, within bounds'')"

section \<open>Path traversal\<close>

definition PATH_TRAVERSAL_MAX_LENGTH :: nat where "PATH_TRAVERSAL_MAX_LENGTH = 200"

definition PATH_TRAVERSAL_SHAPE :: regex where
  "PATH_TRAVERSAL_SHAPE = rx_alt [Lit ''../'', Lit (''..'' @ [CHR 0x5C]),
     Seq (Lit ''%2e%2e'') (rx_alt [Lit ''%2f'', Lit ''%5c'', Lit ''/'', Lit [CHR 0x5C]]), Lit ''..%2f'', Lit ''..%5c'']"

definition PATH_TRAVERSAL_SHELL_METACHARS :: regex where
  "PATH_TRAVERSAL_SHELL_METACHARS = rx_any_of ('';|$<>'' @ [CHR 0x60])"

definition PATH_TRAVERSAL_SENSITIVE_TARGET :: regex where
  "PATH_TRAVERSAL_SENSITIVE_TARGET = rx_alt [Lit ''shadow'', Lit ''id_rsa'', Lit ''id_dsa'', Lit ''id_ecdsa'', Lit ''id_ed25519'',
     Seq (Lit ''.pem'') WordBoundary, Seq (Lit ''.ppk'') WordBoundary, Lit ''.ssh/'']"

definition evaluatePathTraversalPayload :: "string \<Rightarrow> payload_verdict" where
  "evaluatePathTraversalPayload payload = evaluate_rules payload PATH_TRAVERSAL_MAX_LENGTH
     [(\<not> rx_test_i PATH_TRAVERSAL_SHAPE payload,
       ''payload does not contain a directory-traversal sequence (../, ..'' @ [CHR 0x5C] @ '', or an encoded form)''),
      (rx_test PATH_TRAVERSAL_SHELL_METACHARS payload, ''payload contains shell metacharacters - not permitted in a path-parameter value''),
      (rx_test_i PATH_TRAVERSAL_SENSITIVE_TARGET payload,
       ''payload targets credential/private-key material - disproportionate blast radius'')]
     ''traversal-shaped, no shell metacharacters, non-sensitive target, within bounds''"

section \<open>Command injection\<close>

definition COMMAND_INJECTION_MAX_LENGTH :: nat where "COMMAND_INJECTION_MAX_LENGTH = 100"

definition COMMAND_INJECTION_CONNECTOR :: regex where
  "COMMAND_INJECTION_CONNECTOR = rx_alt [Lit '';'', Lit ''|'', Lit [CHR 0x60], Lit ''$('', Lit ''&&'']"

text \<open>An ampersand without another one beside it.\<close>

fun lone_ampersand :: "char option \<Rightarrow> string \<Rightarrow> bool" where
  "lone_ampersand prev [] \<longleftrightarrow> False"
| "lone_ampersand prev (c # cs) \<longleftrightarrow>
     c = CHR ''&'' \<and> prev \<noteq> Some (CHR ''&'') \<and> next_char cs \<noteq> Some (CHR ''&'') \<or> lone_ampersand (Some c) cs"

definition COMMAND_INJECTION_REDIRECTION :: "string \<Rightarrow> bool" where
  "COMMAND_INJECTION_REDIRECTION payload \<longleftrightarrow> list_ex (\<lambda>c. c \<in> {CHR ''>'', CHR ''<''}) payload \<or> lone_ampersand None payload"

definition COMMAND_INJECTION_ALLOWED_COMMAND :: regex where
  "COMMAND_INJECTION_ALLOWED_COMMAND = rx_seq
     [rx_alt [TextStart, rx_any_of ('';|&('' @ [CHR 0x60]), Lit ''$(''], spaces,
      rx_alt [Lit ''id'', Lit ''whoami'', Lit ''pwd'', Lit ''hostname'', Seq (Lit ''uname'') (rx_opt (Seq some_spaces (Lit ''-a''))),
        rx_seq [Lit ''echo'', some_spaces, Rep 1 (Some 64) (One (\<lambda>c. word_char c \<or> c = CHR ''.'' \<or> c = CHR ''-''))],
        rx_seq [Lit ''sleep'', some_spaces, One (\<lambda>c. CHR ''0'' \<le> c \<and> c \<le> CHR ''5''), rx_opt (Seq (Lit ''.'') digits_rx)]],
      spaces, rx_alt [rx_any_of ('')'' @ [CHR 0x60]), Lit '';'', Lit ''|'', Lit ''&&'', TextEnd]]"

definition DENIED_COMMANDS :: "string list" where
  "DENIED_COMMANDS = [''rm'', ''dd'', ''mkfs'', ''chmod'', ''chown'', ''chgrp'', ''kill'', ''shutdown'', ''reboot'', ''halt'', ''poweroff'', ''curl'',
     ''wget'', ''nc'', ''ncat'', ''netcat'', ''telnet'', ''ssh'', ''scp'', ''sftp'', ''ftp'', ''perl'', ''ruby'', ''php'', ''bash'', ''zsh'', ''ksh'', ''csh'',
     ''sh'', ''powershell'', ''cmd'', ''mv'', ''cp'', ''useradd'', ''userdel'', ''usermod'', ''groupadd'', ''passwd'', ''iptables'', ''systemctl'',
     ''service'', ''mkdir'', ''rmdir'', ''touch'', ''tee'', ''base64'', ''eval'', ''exec'', ''nohup'', ''crontab'', ''xargs'', ''awk'', ''sed'',
     ''su'', ''sudo'', ''reg'', ''regedit'', ''taskkill'', ''format'', ''del'', ''erase'', ''shred'', ''truncate'']"

definition COMMAND_INJECTION_DENYLIST :: regex where
  "COMMAND_INJECTION_DENYLIST = rx_seq [WordBoundary,
     Alt (rx_words DENIED_COMMANDS) (Seq (Lit ''python'') (Rep 0 None (One (\<lambda>c. is_digit_char c \<or> c = CHR ''.'')))), WordBoundary]"

definition COMMAND_INJECTION_MAX_SLEEP_SECONDS :: nat where "COMMAND_INJECTION_MAX_SLEEP_SECONDS = 5"

definition sleep_delimiter :: "char \<Rightarrow> bool" where
  "sleep_delimiter c \<longleftrightarrow> js_white c \<or> c \<in> set ('';|&)'' @ [CHR 0x60])"

text \<open>The arguments of the successive matches of \<open>COMMAND_INJECTION_SLEEP_TOKEN\<close>; the search goes on behind a match.\<close>

function sleep_arguments :: "char option \<Rightarrow> string \<Rightarrow> string list" where
  "sleep_arguments prev s =
     (case s of
        [] \<Rightarrow> []
      | c # cs \<Rightarrow>
          if \<not> opt_word prev \<and> js_startsWith (js_lower s) ''sleep'' \<and> \<not> opt_word (next_char (drop 5 s))
          then (let rest = dropWhile js_white (drop 5 s); arg = takeWhile (\<lambda>x. \<not> sleep_delimiter x) rest; more = drop (length arg) rest in
                arg # sleep_arguments (after (take (length s - length more) s) prev) more)
          else sleep_arguments (Some c) cs)"
  by pat_completeness auto

termination
proof (relation "measure (\<lambda>(p, s). length s)")
  fix prev s c cs rest arg more
  assume "s = c # cs" "\<not> opt_word prev \<and> js_startsWith (js_lower s) ''sleep'' \<and> \<not> opt_word (next_char (drop 5 s))"
    "rest = dropWhile js_white (drop 5 s)" "arg = takeWhile (\<lambda>x. \<not> sleep_delimiter x) rest" "more = drop (length arg) rest"
  then show "((after (take (length s - length more) s) prev, more), prev, s) \<in> measure (\<lambda>(p, s). length s)"
    using length_dropWhile_le[of js_white "drop 5 s"] by simp
qed auto

declare sleep_arguments.simps [simp del]

definition bad_sleep :: "string \<Rightarrow> bool" where
  "bad_sleep arg = (case js_number arg of None \<Rightarrow> True | Some n \<Rightarrow> n < 0 \<or> of_nat COMMAND_INJECTION_MAX_SLEEP_SECONDS < n)"

definition evaluateCommandInjectionPayload :: "string \<Rightarrow> string option \<Rightarrow> payload_verdict" where
  "evaluateCommandInjectionPayload payload marker =
     (let bad = find bad_sleep (sleep_arguments None payload) in
      evaluate_rules payload COMMAND_INJECTION_MAX_LENGTH
     [(\<not> rx_test COMMAND_INJECTION_CONNECTOR payload, ''payload has no injection connector (;, |, '' @ [CHR 0x60] @ '', $(), or &&)''),
      (COMMAND_INJECTION_REDIRECTION payload, ''payload uses redirection/backgrounding (>, <, or a lone &) - not permitted''),
      (rx_test_i COMMAND_INJECTION_DENYLIST payload,
       ''payload references a disallowed/destructive command - not on the read-only allowlist''),
      (bad \<noteq> None, ''sleep argument '' @ [CHR 0x22] @ or_empty bad @ [CHR 0x22] @ '' exceeds the '' @ nat_str COMMAND_INJECTION_MAX_SLEEP_SECONDS
         @ ''s non-destructive bound''),
      (\<not> rx_test_i COMMAND_INJECTION_ALLOWED_COMMAND payload,
       ''command is not on the read-only allowlist (id/whoami/pwd/hostname/uname/echo/sleep 0-5 only)''),
      (\<not> truthy marker, ''no harness marker supplied - cannot verify command execution deterministically''),
      (\<not> js_includes payload (or_empty marker), ''payload does not embed the required harness marker - execution cannot be verified'')]
     ''connector + read-only allowlisted command, marker-verifiable, within bounds'')"

section \<open>The predicate\<close>

fun evaluateComposedPayloadSafety :: "url_reader \<Rightarrow> category \<Rightarrow> string \<Rightarrow> string option \<Rightarrow> payload_verdict" where
  "evaluateComposedPayloadSafety read Sql_injection payload marker = evaluateSqlInjectionPayload payload"
| "evaluateComposedPayloadSafety read Xss payload marker = evaluateXssPayload payload marker"
| "evaluateComposedPayloadSafety read Ssrf payload marker = evaluateSsrfPayload read payload"
| "evaluateComposedPayloadSafety read Path_traversal payload marker = evaluatePathTraversalPayload payload"
| "evaluateComposedPayloadSafety read Command_injection payload marker = evaluateCommandInjectionPayload payload marker"
| "evaluateComposedPayloadSafety read c payload marker =
     Payload_rejected (''category '' @ [CHR 0x22] @ category_str c @ [CHR 0x22] @ '' is not eligible for composed live-DAST payloads'')"

end
