(* ===== verification/PayloadProps.thy ===== *)
theory PayloadProps
  imports PayloadSafety
begin

text \<open>
  What the predicate over composed payloads guarantees: the bounds every payload that passes is in,
  and the words, characters and delays that a payload of each category cannot hold. The last
  section evaluates the predicate on payloads that its rules let through.
\<close>

section \<open>Expressions and words\<close>

text \<open>A word of the text that stands alone.\<close>

definition stands_alone :: "string \<Rightarrow> string \<Rightarrow> bool" where
  "stands_alone w s \<longleftrightarrow> (\<exists>a b. s = a @ w @ b \<and> \<not> opt_word (after a None) \<and> \<not> opt_word (next_char b))"

definition plain_word :: "string \<Rightarrow> bool" where
  "plain_word w \<longleftrightarrow> w \<noteq> [] \<and> word_char (hd w) \<and> word_char (last w)"

lemma bounds_none: "checkGenericBounds payload n = None \<longleftrightarrow>
    payload \<noteq> [] \<and> length payload \<le> min n 300 \<and> list_all printable payload"
  by (auto simp: checkGenericBounds_def HARD_MAX_LENGTH_def)

lemma first_rule_safe [simp]: "is_safe (first_rule rules passed) \<longleftrightarrow> list_all (\<lambda>(applies, reason). \<not> applies) rules"
  by (induction rules passed rule: first_rule.induct) auto

lemma evaluate_rules_safe: "is_safe (evaluate_rules payload n rules passed) \<longleftrightarrow>
    payload \<noteq> [] \<and> length payload \<le> min n 300 \<and> list_all printable payload \<and> list_all (\<lambda>(applies, reason). \<not> applies) rules"
  using bounds_none[of payload n] by (cases "checkGenericBounds payload n") (auto simp: evaluate_rules_def)

lemma boundary_before: "plain_word w \<Longrightarrow> \<not> opt_word p \<Longrightarrow> rx_match p WordBoundary [] (w @ s)"
  by (rule m_word) (auto simp: plain_word_def next_char_def opt_word_def neq_Nil_conv)

lemma boundary_behind: "plain_word w \<Longrightarrow> \<not> opt_word (next_char s) \<Longrightarrow> rx_match (after w p) WordBoundary [] s"
  by (rule m_word) (auto simp: plain_word_def after_def opt_word_def)

lemma alone_match:
  assumes "plain_word w" "\<not> opt_word p" "\<not> opt_word (next_char s)" "rx_match p r w s"
  shows "rx_match p (rx_seq [WordBoundary, r, WordBoundary]) w s"
proof -
  have "rx_match p (Seq r WordBoundary) (w @ []) s"
    by (rule m_seq) (use assms boundary_behind[of w s p] in auto)
  then have "rx_match p (Seq WordBoundary (Seq r WordBoundary)) ([] @ w) s"
    by (intro m_seq) (use assms boundary_before[of w p s] in auto)
  then show ?thesis by simp
qed

lemma alone_found:
  assumes "stands_alone w s" "plain_word w" "\<And>p b. rx_match p r w b"
  shows "rx_test (rx_seq [WordBoundary, r, WordBoundary]) s"
proof -
  obtain a b where "s = a @ w @ b" "\<not> opt_word (after a None)" "\<not> opt_word (next_char b)"
    using assms(1) by (auto simp: stands_alone_def)
  with alone_match[OF assms(2) _ _ assms(3)] show ?thesis unfolding rx_test_iff by blast
qed

lemma whole_word_found: "stands_alone w s \<Longrightarrow> plain_word w \<Longrightarrow> w \<in> set ws \<Longrightarrow> rx_test (whole_word ws) s"
  unfolding whole_word_def by (rule alone_found) (auto simp: match_words_iff)

lemma keywords_plain: "list_all plain_word SQLI_KEYWORDS" "list_all plain_word DENIED_COMMANDS"
  by code_simp+

inductive_cases match_altE: "rx_match p (Alt r t) w s"
inductive_cases match_oneE: "rx_match p (One P) w s"
inductive_cases match_litE: "rx_match p (Lit v) w s"

lemma match_alt: "rx_match p (Alt r t) w s \<longleftrightarrow> rx_match p r w s \<or> rx_match p t w s"
  by (auto intro: m_alt1 m_alt2 elim: match_altE)

lemma match_one: "rx_match p (One P) w s \<longleftrightarrow> (\<exists>c. w = [c] \<and> P c)"
  by (auto intro: m_one elim: match_oneE)

lemma match_lit: "rx_match p (Lit v) w s \<longleftrightarrow> w = v"
  by (auto intro: m_lit elim: match_litE)

lemma alt_test: "rx_test (Alt r t) s \<longleftrightarrow> rx_test r s \<or> rx_test t s"
  unfolding rx_test_iff match_alt by blast

lemma lit_test: "rx_test (Lit v) s \<longleftrightarrow> js_includes s v"
  unfolding rx_test_iff match_lit includes_iff by blast

lemma one_test: "rx_test (One P) s \<longleftrightarrow> list_ex P s"
proof
  assume "rx_test (One P) s"
  then show "list_ex P s" by (auto simp: rx_test_iff match_one)
next
  assume "list_ex P s"
  then obtain a c b where "s = a @ [c] @ b" "P c" by (auto simp: list_ex_iff in_set_conv_decomp)
  then show "rx_test (One P) s" unfolding rx_test_iff match_one by blast
qed

lemma sql_words_refused:
  assumes "is_safe (evaluateSqlInjectionPayload payload)" "w \<in> set SQLI_KEYWORDS"
  shows "\<not> stands_alone w (js_lower payload)"
proof
  assume "stands_alone w (js_lower payload)"
  moreover have "plain_word w" using keywords_plain(1) assms(2) by (simp add: list_all_iff)
  ultimately have "rx_test_i SQLI_DESTRUCTIVE payload"
    using whole_word_found[OF _ _ assms(2)] by (simp add: rx_test_i_def SQLI_DESTRUCTIVE_def alt_test)
  then show False using assms(1) by (simp add: evaluateSqlInjectionPayload_def evaluate_rules_safe)
qed

lemma denied_command_found:
  assumes "w \<in> set DENIED_COMMANDS" "stands_alone w (js_lower payload)"
  shows "rx_test_i COMMAND_INJECTION_DENYLIST payload"
  unfolding rx_test_i_def COMMAND_INJECTION_DENYLIST_def
proof (rule alone_found[OF assms(2)])
  show "plain_word w" using keywords_plain(2) assms(1) by (simp add: list_all_iff)
  show "rx_match p (Alt (rx_words DENIED_COMMANDS) (Seq (Lit ''python'') (Rep 0 None (One (\<lambda>c. is_digit_char c \<or> c = CHR ''.''))))) w b" for p b
    using assms(1) by (intro m_alt1) (simp add: match_words_iff)
qed

lemma no_redirection: "\<not> COMMAND_INJECTION_REDIRECTION payload \<Longrightarrow> CHR ''<'' \<notin> set payload \<and> CHR ''>'' \<notin> set payload"
  by (auto simp: COMMAND_INJECTION_REDIRECTION_def list_ex_iff)

lemma find_none_all: "find P xs = None \<longleftrightarrow> list_all (\<lambda>x. \<not> P x) xs"
  by (induction xs) auto


lemma opt_match: "rx_match p (rx_opt (Lit w)) [] s" "rx_match p (rx_opt (Lit w)) w s"
proof -
  show "rx_match p (rx_opt (Lit w)) [] s" unfolding rx_opt_def by (rule m_rep_done)
  show "rx_match p (rx_opt (Lit w)) w s"
  proof (cases "w = []")
    case True
    then show ?thesis unfolding rx_opt_def by (auto intro: m_rep_done)
  next
    case False
    have "rx_match p (Rep 0 (Some 1) (Lit w)) (w @ []) s"
      by (rule m_rep_extra) (use False in \<open>auto intro: m_lit m_rep_done\<close>)
    then show ?thesis by (simp add: rx_opt_def)
  qed
qed

lemma url_match:
  assumes "v = [] \<or> v = ''s''"
  shows "rx_match p XSS_EXTERNAL_URL (''http'' @ v @ ''://'') b"
proof -
  have "rx_match q (rx_opt (Lit ''s'')) v d" for q d using assms opt_match[where w = "''s''"] by auto
  then have "rx_match q (Seq (rx_opt (Lit ''s'')) (Lit ''://'')) (v @ ''://'') b" for q
    by (rule m_seq) (rule m_lit)
  then show ?thesis unfolding XSS_EXTERNAL_URL_def rx_seq.simps
    by (rule m_seq[OF m_lit])
qed

lemma url_found: "v = [] \<or> v = ''s'' \<Longrightarrow> js_includes s (''http'' @ v @ ''://'') \<Longrightarrow> rx_test XSS_EXTERNAL_URL s"
  unfolding includes_iff rx_test_iff using url_match by blast

lemma sleep_bound:
  assumes "find bad_sleep args = None" "arg \<in> set args"
  shows "\<exists>n. js_number arg = Some n \<and> 0 \<le> n \<and> n \<le> 5"
  using assms by (auto simp: find_none_all list_all_iff bad_sleep_def COMMAND_INJECTION_MAX_SLEEP_SECONDS_def split: option.splits)

definition in_bounds :: "string \<Rightarrow> bool" where
  "in_bounds payload \<longleftrightarrow> payload \<noteq> [] \<and> length payload \<le> 300 \<and> list_all printable payload"

lemma rules_in_bounds: "is_safe (evaluate_rules payload n rules passed) \<Longrightarrow> in_bounds payload"
  by (simp add: evaluate_rules_safe in_bounds_def)

lemma safe_in_bounds:
  "is_safe (evaluateComposedPayloadSafety read c payload marker) \<Longrightarrow> isComposableLiveCategory c \<and> in_bounds payload"
  by (cases c) (auto simp: isComposableLiveCategory_def COMPOSABLE_LIVE_CATEGORIES_def evaluateSqlInjectionPayload_def
      evaluateXssPayload_def evaluateSsrfPayload_def evaluatePathTraversalPayload_def evaluateCommandInjectionPayload_def Let_def
      intro: rules_in_bounds)

lemma marker_there: "truthy marker \<Longrightarrow> js_includes payload (or_empty marker) \<Longrightarrow>
    \<exists>m. marker = Some m \<and> m \<noteq> [] \<and> js_includes payload m"
  by (cases marker) (auto simp: or_empty_def)

lemma xss_marked: "is_safe (evaluateXssPayload payload marker) \<Longrightarrow> \<exists>m. marker = Some m \<and> m \<noteq> [] \<and> js_includes payload m"
  unfolding evaluateXssPayload_def evaluate_rules_safe by (rule marker_there) simp_all

lemma command_marked: "is_safe (evaluateCommandInjectionPayload payload marker) \<Longrightarrow>
    \<exists>m. marker = Some m \<and> m \<noteq> [] \<and> js_includes payload m"
  unfolding evaluateCommandInjectionPayload_def Let_def evaluate_rules_safe by (rule marker_there) simp_all



text \<open>A payload for SQL injection that passes has no semicolon and holds none of the keywords that change data, grant
  rights or read files as a word of its own, in any case of letters.\<close>

lemma composed_sql_payload_reads_only:
  assumes "is_safe (evaluateComposedPayloadSafety read Sql_injection payload marker)"
  shows "CHR '';'' \<notin> set payload \<and> (\<forall>w \<in> {''drop'', ''delete'', ''truncate'', ''update'', ''insert'', ''alter'', ''create'', ''exec'', ''execute'', ''grant'', ''revoke'', ''attach'', ''shutdown'', ''xp_cmdshell'', ''load_file''}.
      \<not> stands_alone w (js_lower payload))"
proof -
  have safe: "is_safe (evaluateSqlInjectionPayload payload)" using assms by simp
  then have "\<not> js_includes payload '';''" by (simp add: evaluateSqlInjectionPayload_def evaluate_rules_safe)
  then have "CHR '';'' \<notin> set payload" by (auto simp: includes_iff in_set_conv_decomp)
  with sql_words_refused[OF safe] show ?thesis by (simp add: SQLI_KEYWORDS_def)
qed



section \<open>What the rules let through\<close>

text \<open>One allowed command somewhere is enough: any command that is not denied by name rides along.\<close>

lemma unlisted_command_accepted:
  "is_safe (evaluateComposedPayloadSafety read Command_injection ''x; find / -delete; echo M'' (Some ''M''))"
  unfolding evaluateComposedPayloadSafety.simps by code_simp

text \<open>Only the first delay of a query is read.\<close>

lemma later_delay_accepted:
  "is_safe (evaluateComposedPayloadSafety read Sql_injection (CHR 0x27 # '' OR sleep(1) OR sleep(99999)'') None)"
  unfolding evaluateComposedPayloadSafety.simps by code_simp

text \<open>A script from another host, without a scheme, is not an external URL to the rule.\<close>

lemma foreign_script_accepted:
  "is_safe (evaluateComposedPayloadSafety read Xss ''<script src=//evil.example/x.js>M</script>'' (Some ''M''))"
  unfolding evaluateComposedPayloadSafety.simps by code_simp

text \<open>One allowed tag anywhere admits a tag that is not on the list.\<close>

lemma unlisted_tag_accepted:
  "is_safe (evaluateComposedPayloadSafety read Xss ''<video src=M><img>'' (Some ''M''))"
  unfolding evaluateComposedPayloadSafety.simps by code_simp

end
