(* ===== verification/LiveDast.thy ===== *)
theory LiveDast
  imports LiveProbes
begin

text \<open>
  \<open>packages/confirm/src/live.ts\<close>, \<open>confirmLive\<close> as a whole: the login, the fixed probes, the rounds of
  the adaptive loop and the choices of the model in them, on one scope guard. A world is the guard,
  the probes that have left the process, newest last, and an environment that the signal, the
  clock, the transport, the browser, the gateway and the audit log act on.
\<close>

section \<open>The world\<close>

record 'e live_world =
  wd_guard :: scope_state
  wd_wire :: "live_probe list"
  wd_env :: 'e

text \<open>
  The collaborators. \<open>dd_parse\<close> and \<open>dd_read_url\<close> are two views of \<open>new URL\<close>. A prompt that resolves to
  nothing is the fallback; the audit log does not fail the run.
\<close>

record 'e dast_deps =
  dd_parse :: url_parser
  dd_read_url :: url_reader
  dd_scope :: scope_options
  dd_signal :: "'e \<Rightarrow> probe_signal"
  dd_now :: "'e \<Rightarrow> int \<times> 'e"
  dd_sleep :: "int \<Rightarrow> 'e \<Rightarrow> probe_error option \<times> 'e"
  dd_send :: "probe_request \<Rightarrow> 'e \<Rightarrow> (probe_error + live_response) \<times> 'e"
  dd_login :: "string \<Rightarrow> 'e \<Rightarrow> (probe_error + live_session) \<times> 'e"
  dd_complete :: "(llm_request \<Rightarrow> 'e \<Rightarrow> (probe_error + llm_response) \<times> 'e) option"
  dd_resolvePrompt :: "string \<Rightarrow> string \<Rightarrow> string \<Rightarrow> 'e \<Rightarrow> (probe_error + string) \<times> 'e"
  dd_audit :: "audit_input \<Rightarrow> 'e \<Rightarrow> 'e"
  dd_num :: "rat \<Rightarrow> string"
  dd_parse_json :: "string \<Rightarrow> json option"

fun probe_message :: "probe_error \<Rightarrow> string" where
  "probe_message (Montr_err e) = me_message e"
| "probe_message (Abort_err m) = m"
| "probe_message (Other_err m) = m"

definition live_signal :: "'e dast_deps \<Rightarrow> 'e live_world \<Rightarrow> probe_error + unit" where
  "live_signal deps w = (case assertNotKilled (dd_signal deps (wd_env w)) of Inl e \<Rightarrow> Inl (Montr_err e) | Inr u \<Rightarrow> Inr u)"

definition live_audit_event :: "'e dast_deps \<Rightarrow> audit_input \<Rightarrow> 'e live_world \<Rightarrow> 'e live_world" where
  "live_audit_event deps ev w = w\<lparr>wd_env := dd_audit deps ev (wd_env w)\<rparr>"

definition hostOfUrl :: "url_parser \<Rightarrow> string \<Rightarrow> string" where
  "hostOfUrl parse url = (case parse url of Some (host, path) \<Rightarrow> host | None \<Rightarrow> url)"

definition kill_event :: "'e dast_deps \<Rightarrow> 's confirm_scope_scheme \<Rightarrow> probable_finding \<Rightarrow> string \<Rightarrow> audit_input" where
  "kill_event deps input finding url = agentAudit input ''dast.kill_switch'' ''DAST probing halted by kill switch''
     [(''host'', JStr (hostOfUrl (dd_parse deps) url))] (Some (pf_id finding))"

section \<open>One probe\<close>

text \<open>\<open>throttle\<close>; the clock is read only when there is a rate.\<close>

definition live_throttle :: "'e dast_deps \<Rightarrow> 'e live_world \<Rightarrow> (probe_error + unit) \<times> 'e live_world" where
  "live_throttle deps w =
     (if \<not> 0 < maxRequestsPerSecond (go_scope (dd_scope deps)) then (Inr (), w)
      else let (now, e1) = dd_now deps (wd_env w);
               (st, wait) = throttle_wait (dd_scope deps) now (wd_guard w);
               w1 = w\<lparr>wd_guard := st, wd_env := e1\<rparr>
           in case wait of
                None \<Rightarrow> (Inr (), w1)
              | Some ms \<Rightarrow>
                  (case live_signal deps w1 of
                     Inl e \<Rightarrow> (Inl e, w1)
                   | Inr u \<Rightarrow> (case dd_sleep deps ms (wd_env w1) of
                         (Some e, e2) \<Rightarrow> (Inl e, w1\<lparr>wd_env := e2\<rparr>)
                       | (None, e2) \<Rightarrow> (live_signal deps (w1\<lparr>wd_env := e2\<rparr>), w1\<lparr>wd_env := e2\<rparr>))))"

definition live_gate :: "'e dast_deps \<Rightarrow> probe_request \<Rightarrow> 'e live_world \<Rightarrow> (probe_error + unit) \<times> 'e live_world" where
  "live_gate deps q w =
     (case assertProbeAllowed (dd_parse deps) (dd_scope deps) (wd_guard w) (dd_signal deps (wd_env w)) (pq_url q) (pq_method q) of
        Inl e \<Rightarrow> (Inl (Montr_err e), w)
      | Inr u \<Rightarrow> (case live_throttle deps w of
            (Inl e, w1) \<Rightarrow> (Inl e, w1)
          | (Inr u, w1) \<Rightarrow> (live_signal deps w1, w1)))"

text \<open>
  What a probe comes to: the kill switch, a refusal of a guardrail, an error of the transport, an
  answer, or an exception of the bookkeeping (\<open>new URL\<close> on a target without a scheme).
\<close>

datatype fired = Fired_killed montr_error | Fired_blocked probe_error | Fired_lost | Fired_answered live_response | Fired_threw js_error

definition live_record :: "'e dast_deps \<Rightarrow> string \<Rightarrow> 'e live_world \<Rightarrow> 'e live_world" where
  "live_record deps method w =
     (let (now, e1) = dd_now deps (wd_env w) in w\<lparr>wd_guard := guard_record method now (wd_guard w), wd_env := e1\<rparr>)"

definition probe_event :: "'s confirm_scope_scheme \<Rightarrow> probable_finding \<Rightarrow> live_probe \<Rightarrow> live_response \<Rightarrow> string \<times> string
    \<Rightarrow> string \<Rightarrow> (string \<times> json) list \<Rightarrow> audit_input" where
  "probe_event input finding p r u summary extra = agentAudit input ''dast.probe'' summary
     ([(''method'', JStr (pq_method (lb_request p))), (''host'', JStr (fst u)), (''path'', JStr (snd u)),
       (''status'', JNum (of_nat (lp_status r))), (''role'', JStr (role_str (lb_role p)))] @ extra) (Some (pf_id finding))"

definition fire :: "'e dast_deps \<Rightarrow> 's confirm_scope_scheme \<Rightarrow> probable_finding \<Rightarrow> live_probe \<Rightarrow> string \<Rightarrow> (string \<times> json) list
    \<Rightarrow> 'e live_world \<Rightarrow> fired \<times> 'e live_world" where
  "fire deps input finding p summary extra w =
     (let url = pq_url (lb_request p); method = pq_method (lb_request p) in
      case live_gate deps (lb_request p) w of
        (Inl err, w1) \<Rightarrow>
          if isAbort err then (Fired_killed (asKill err), live_audit_event deps (kill_event deps input finding url) w1)
          else (Fired_blocked err, w1)
      | (Inr u, w1) \<Rightarrow>
          (let (answer, e2) = dd_send deps (lb_request p) (wd_env w1); w2 = w1\<lparr>wd_wire := wd_wire w1 @ [p], wd_env := e2\<rparr> in
           case answer of
             Inl err \<Rightarrow>
               if isAbort err then (Fired_killed (asKill err), live_audit_event deps (kill_event deps input finding url) w2)
               else (Fired_lost, w2)
           | Inr r \<Rightarrow>
               (let w3 = live_record deps method w2 in
                case dd_parse deps url of
                  None \<Rightarrow> (Fired_threw (Untyped ''Invalid URL''), w3)
                | Some parts \<Rightarrow> (Fired_answered r, live_audit_event deps (probe_event input finding p r parts summary extra) w3))))"

section \<open>The fixed probes\<close>

text \<open>How probing ends early: an exception that leaves \<open>confirmLive\<close>, or a reason with what was collected.\<close>

datatype dast_end = Dast_threw js_error | Dast_stopped string "collected list"

definition probe_summary :: "live_probe \<Rightarrow> string" where
  "probe_summary p = ''probe '' @ pq_method (lb_request p) @ '' -> '' @ role_str (lb_role p)"

fun fixed_probes :: "'e dast_deps \<Rightarrow> 's confirm_scope_scheme \<Rightarrow> probable_finding \<Rightarrow> live_probe list \<Rightarrow> collected list
    \<Rightarrow> 'e live_world \<Rightarrow> (dast_end + collected list) \<times> 'e live_world" where
  "fixed_probes deps input finding [] cs w = (Inr cs, w)"
| "fixed_probes deps input finding (p # ps) cs w =
     (case fire deps input finding p (probe_summary p) [] w of
        (Fired_killed e, w1) \<Rightarrow> (Inl (Dast_threw (Typed e)), w1)
      | (Fired_threw e, w1) \<Rightarrow> (Inl (Dast_threw e), w1)
      | (Fired_blocked e, w1) \<Rightarrow> (Inl (Dast_stopped (''live probing stopped by guardrail: '' @ probe_message e) cs), w1)
      | (Fired_lost, w1) \<Rightarrow> fixed_probes deps input finding ps cs w1
      | (Fired_answered r, w1) \<Rightarrow> fixed_probes deps input finding ps (cs @ [\<lparr>co_probe = p, co_response = r\<rparr>]) w1)"

section \<open>The choice of the model\<close>

definition history_json :: "collected list \<Rightarrow> json" where
  "history_json cs = JArr (map (\<lambda>c. JObj
     [(''method'', JStr (pq_method (lb_request (co_probe c)))), (''role'', JStr (role_str (lb_role (co_probe c)))),
      (''note'', JStr (lb_note (co_probe c))), (''status'', JNum (of_nat (lp_status (co_response c)))),
      (''bodySnippet'', JStr (snippet 300 (lp_body (co_response c))))]) cs)"

definition choice_payload :: "string \<Rightarrow> category \<Rightarrow> collected list \<Rightarrow> payload_variant list \<Rightarrow> json" where
  "choice_payload task c cs candidates = JObj
     [(''task'', JStr task), (''category'', JStr (category_str c)), (''history'', history_json cs),
      (''allowedVariants'', JArr (map (\<lambda>v. JObj [(''id'', JStr (va_id v)), (''technique'', JStr (va_technique v))]) candidates))]"

definition VARIANT_TASK :: string where
  "VARIANT_TASK = quotes (''A live probe against this finding returned an AMBIGUOUS response - not a ''
     @ ''clean miss, not a clean confirmation. Choose exactly ONE variant id from ''
     @ ''allowedVariants that best follows from what the history reveals (an error ''
     @ ''message, a status code, a reflected/transformed fragment, a filter-block ''
     @ ''signal). Respond ONLY as JSON {`variantId`: `<one of the allowed ids>`, ''
     @ ''`reasoning`: `<one short sentence>`}. If nothing in the history points to ''
     @ ''a specific variant, pick the first one - every listed variant is a safe, ''
     @ ''non-destructive probe already vetted for this category.'')"

definition VARIANT_SYSTEM :: string where
  "VARIANT_SYSTEM = ''You are a live-DAST exploit-confirmation agent operating strictly inside a ''
     @ ''pre-vetted, non-destructive payload space. You may ONLY select one of the ''
     @ ''offered variant ids - never invent a new payload, technique, or request ''
     @ ''shape, and never suggest anything outside the allowedVariants list.''"

definition string_type :: json where "string_type = JObj [(''type'', JStr ''string'')]"

definition enum_of :: "payload_variant list \<Rightarrow> json" where
  "enum_of candidates = JObj [(''type'', JStr ''string''), (''enum'', JArr (map (\<lambda>v. JStr (va_id v)) candidates))]"

definition schema_of :: "(string \<times> json) list \<Rightarrow> string list \<Rightarrow> json" where
  "schema_of properties required = JObj
     [(''responseSchema'', JObj [(''type'', JStr ''object''), (''properties'', JObj properties), (''required'', JArr (map JStr required)),
        (''additionalProperties'', JBool False)]),
      (''effort'', JStr ''low''), (''stream'', JBool False)]"

text \<open>One call of the gateway: the prompt is resolved, then the request is completed; what the answer parses to, if it does.\<close>

definition ask_gateway :: "'e dast_deps \<Rightarrow> 's confirm_scope_scheme \<Rightarrow> (llm_request \<Rightarrow> 'e \<Rightarrow> (probe_error + llm_response) \<times> 'e)
    \<Rightarrow> string \<Rightarrow> string \<Rightarrow> json \<Rightarrow> int \<Rightarrow> json \<Rightarrow> 'e \<Rightarrow> (probe_error + json option) \<times> 'e" where
  "ask_gateway deps input send prompt fallback payload maxTokens schema e =
     (case dd_resolvePrompt deps prompt fallback (cs_clientId input) e of
        (Inl err, e1) \<Rightarrow> (Inl err, e1)
      | (Inr system, e1) \<Rightarrow>
          (case send (confirmation_request (confirm_scope.truncate input) system
              [plain_message Role_user (the (json_text (dd_num deps) payload))] maxTokens Format_json schema) e1 of
             (Inl err, e2) \<Rightarrow> (Inl err, e2)
           | (Inr resp, e2) \<Rightarrow> (Inr (dd_parse_json deps (rs_content resp)), e2)))"

definition string_field :: "json option \<Rightarrow> string \<Rightarrow> string option" where
  "string_field parsed k = (case parsed of None \<Rightarrow> None | Some v \<Rightarrow> (case object_field v k of JStr s \<Rightarrow> Some s | _ \<Rightarrow> None))"

definition chooseNextVariant :: "'e dast_deps \<Rightarrow> 's confirm_scope_scheme \<Rightarrow> probable_finding \<Rightarrow> collected list \<Rightarrow> payload_variant list
    \<Rightarrow> 'e \<Rightarrow> (probe_error + string option) \<times> 'e" where
  "chooseNextVariant deps input finding cs candidates e =
     (case dd_complete deps of
        None \<Rightarrow> (Inr None, e)
      | Some send \<Rightarrow>
          (case ask_gateway deps input send ''confirm.live_adaptive.system'' VARIANT_SYSTEM
              (choice_payload VARIANT_TASK (pf_category finding) cs candidates) 512
              (schema_of [(''variantId'', enum_of candidates), (''reasoning'', string_type)] [''variantId'']) e of
             (Inl err, e1) \<Rightarrow> (Inl err, e1)
           | (Inr parsed, e1) \<Rightarrow> (Inr (string_field parsed ''variantId''), e1)))"

record adaptive_action =
  aa_probe :: live_probe
  aa_variantId :: "string option"
  aa_composed :: bool

definition compose_task :: "category \<Rightarrow> string \<Rightarrow> string" where
  "compose_task c marker = ''A live probe against this finding returned an AMBIGUOUS response - not a ''
     @ ''clean miss, not a clean confirmation. You have TWO options: (1) choose ONE ''
     @ ''variant id from allowedVariants, or (2) additionally PROPOSE composedPayload ''
     @ ''- the raw text to substitute into the vulnerable parameter - if you can ''
     @ ''construct a more targeted, still non-destructive proof than any offered variant. ''
     @ composeGuidanceFor c marker
     @ quotes ('' composedPayload will be independently validated by a deterministic safety ''
     @ ''filter before it is ever used; if it fails validation your variantId is used ''
     @ ''instead - so ALWAYS also supply a valid variantId even when proposing ''
     @ ''composedPayload. Respond ONLY as JSON {`variantId`: `<one of the allowed ''
     @ ''ids>`, `composedPayload`: `<optional proposed raw payload, or omit>`, ''
     @ ''`reasoning`: `<one short sentence>`}. If nothing in the history points to a ''
     @ ''specific choice, pick the first listed variant - every listed variant is a ''
     @ ''safe, non-destructive probe already vetted for this category.'')"

definition COMPOSE_SYSTEM :: string where
  "COMPOSE_SYSTEM = ''You are a live-DAST exploit-confirmation agent. You may select a pre-vetted ''
     @ ''variant id, or propose a composed, non-destructive proof payload - but ANY ''
     @ ''composed payload is independently checked by a deterministic safety filter ''
     @ ''before use and rejected outright if it looks destructive, oversized, wrong-''
     @ ''shaped for the category, or outside a strict character-class bound. Never ''
     @ ''propose anything that mutates, deletes, or modifies data or state - only a ''
     @ ''read-only, verifiable proof of exploitability.''"

definition variant_action :: "payload_variant list \<Rightarrow> variant_ctx \<Rightarrow> string \<Rightarrow> adaptive_action option" where
  "variant_action candidates ctx i =
     map_option (\<lambda>v. \<lparr>aa_probe = va_build v ctx, aa_variantId = Some (va_id v), aa_composed = False\<rparr>)
       (find (\<lambda>v. va_id v = i) candidates)"

text \<open>A composed payload is used when it is safe, else the variant that was named with it.\<close>

definition composed_action :: "url_reader \<Rightarrow> category \<Rightarrow> payload_variant list \<Rightarrow> variant_ctx \<Rightarrow> string option \<Rightarrow> string option
    \<Rightarrow> adaptive_action option" where
  "composed_action read c candidates ctx composed variantId =
     (if truthy composed \<and> is_safe (evaluateComposedPayloadSafety read c (or_empty composed) (Some (vx_marker ctx)))
      then Some \<lparr>aa_probe = buildComposedProbe c ctx (or_empty composed), aa_variantId = None, aa_composed = True\<rparr>
      else if truthy variantId then variant_action candidates ctx (or_empty variantId) else None)"

definition chooseAdaptiveActionWithComposition :: "'e dast_deps \<Rightarrow> 's confirm_scope_scheme \<Rightarrow> probable_finding \<Rightarrow> collected list
    \<Rightarrow> payload_variant list \<Rightarrow> variant_ctx \<Rightarrow> 'e \<Rightarrow> (probe_error + adaptive_action option) \<times> 'e" where
  "chooseAdaptiveActionWithComposition deps input finding cs candidates ctx e =
     (case dd_complete deps of
        None \<Rightarrow> (Inr None, e)
      | Some send \<Rightarrow>
          (case ask_gateway deps input send ''confirm.live_adaptive_compose.system'' COMPOSE_SYSTEM
              (choice_payload (compose_task (pf_category finding) (vx_marker ctx)) (pf_category finding) cs candidates) 640
              (schema_of [(''variantId'', enum_of candidates),
                 (''composedPayload'', JObj [(''type'', JStr ''string''), (''maxLength'', JNum 300)]), (''reasoning'', string_type)] []) e of
             (Inl err, e1) \<Rightarrow> (Inl err, e1)
           | (Inr parsed, e1) \<Rightarrow> (Inr (composed_action (dd_read_url deps) (pf_category finding) candidates ctx
                (string_field parsed ''composedPayload'') (string_field parsed ''variantId'')), e1)))"

section \<open>The rounds\<close>

text \<open>What a round tries: an action, no action, or the end of the loop without another look at the kill switch.\<close>

datatype round_choice = Try adaptive_action | Try_nothing | Leave_loop

definition choose_action :: "'e dast_deps \<Rightarrow> 's confirm_scope_scheme \<Rightarrow> probable_finding \<Rightarrow> variant_ctx \<Rightarrow> payload_variant list
    \<Rightarrow> collected list \<Rightarrow> 'e \<Rightarrow> (probe_error + round_choice) \<times> 'e" where
  "choose_action deps input finding ctx remaining cs e =
     (if isComposableLiveCategory (pf_category finding)
      then (case chooseAdaptiveActionWithComposition deps input finding cs remaining ctx e of
              (Inl err, e1) \<Rightarrow> (Inl err, e1)
            | (Inr None, e1) \<Rightarrow> (Inr Try_nothing, e1)
            | (Inr (Some a), e1) \<Rightarrow> (Inr (Try a), e1))
      else (case chooseNextVariant deps input finding cs remaining e of
              (Inl err, e1) \<Rightarrow> (Inl err, e1)
            | (Inr choice, e1) \<Rightarrow> (Inr (if truthy choice
                 then (case variant_action remaining ctx (or_empty choice) of Some a \<Rightarrow> Try a | None \<Rightarrow> Leave_loop)
                 else Try_nothing), e1)))"

definition MAX_ADAPTIVE_ROUNDS :: nat where "MAX_ADAPTIVE_ROUNDS = 3"

definition action_label :: "adaptive_action \<Rightarrow> string" where
  "action_label a = (case aa_variantId a of Some i \<Rightarrow> i | None \<Rightarrow> if aa_composed a then ''composed'' else ''unknown'')"

definition adaptive_summary :: "adaptive_action \<Rightarrow> string" where
  "adaptive_summary a = ''adaptive probe '' @ pq_method (lb_request (aa_probe a)) @ '' -> '' @ action_label a"

definition adaptive_extra :: "adaptive_action \<Rightarrow> nat \<Rightarrow> (string \<times> json) list" where
  "adaptive_extra a round_number =
     [(''variantId'', JStr (action_label a)), (''composed'', JBool (aa_composed a)), (''round'', JNum (of_nat round_number))]"

text \<open>The argument counts the rounds that are left. The results are the last verdict and what was collected.\<close>

fun adaptive_rounds :: "'e dast_deps \<Rightarrow> 's confirm_scope_scheme \<Rightarrow> probable_finding \<Rightarrow> variant_ctx \<Rightarrow> nat \<Rightarrow> string list
    \<Rightarrow> oracle_verdict \<Rightarrow> collected list \<Rightarrow> 'e live_world \<Rightarrow> (js_error + oracle_verdict \<times> collected list) \<times> 'e live_world" where
  "adaptive_rounds deps input finding ctx 0 tried verdict cs w = (Inr (verdict, cs), w)"
| "adaptive_rounds deps input finding ctx (Suc n) tried verdict cs w =
     (let remaining = filter (\<lambda>v. va_id v \<notin> set tried) (PAYLOAD_VARIANTS (pf_category finding)) in
      case assertNotKilled (dd_signal deps (wd_env w)) of
        Inl e \<Rightarrow> (Inl (Typed e), w)
      | Inr u \<Rightarrow>
          if \<not> isComposableLiveCategory (pf_category finding) \<and> remaining = [] then (Inr (verdict, cs), w)
          else case choose_action deps input finding ctx remaining cs (wd_env w) of
            (Inl err, e1) \<Rightarrow> if isAbort err then (Inl (Typed (asKill err)), w\<lparr>wd_env := e1\<rparr>) else (Inr (verdict, cs), w\<lparr>wd_env := e1\<rparr>)
          | (Inr Leave_loop, e1) \<Rightarrow> (Inr (verdict, cs), w\<lparr>wd_env := e1\<rparr>)
          | (Inr Try_nothing, e1) \<Rightarrow>
              (case assertNotKilled (dd_signal deps e1) of
                 Inl e \<Rightarrow> (Inl (Typed e), w\<lparr>wd_env := e1\<rparr>)
               | Inr u \<Rightarrow> (Inr (verdict, cs), w\<lparr>wd_env := e1\<rparr>))
          | (Inr (Try a), e1) \<Rightarrow>
              (case assertNotKilled (dd_signal deps e1) of
                 Inl e \<Rightarrow> (Inl (Typed e), w\<lparr>wd_env := e1\<rparr>)
               | Inr u \<Rightarrow>
                   (let tried' = (case aa_variantId a of Some i \<Rightarrow> i # tried | None \<Rightarrow> tried) in
                    case fire deps input finding (aa_probe a) (adaptive_summary a) (adaptive_extra a (MAX_ADAPTIVE_ROUNDS - n)) (w\<lparr>wd_env := e1\<rparr>) of
                      (Fired_killed e, w1) \<Rightarrow> (Inl (Typed e), w1)
                    | (Fired_threw e, w1) \<Rightarrow> (Inl e, w1)
                    | (Fired_blocked e, w1) \<Rightarrow> (Inr (verdict, cs), w1)
                    | (Fired_lost, w1) \<Rightarrow> adaptive_rounds deps input finding ctx n tried' verdict cs w1
                    | (Fired_answered r, w1) \<Rightarrow>
                        (let cs' = cs @ [\<lparr>co_probe = aa_probe a, co_response = r\<rparr>]; verdict' = live_oracle (pf_category finding) cs' in
                         if ov_success verdict' \<or> \<not> isAmbiguous (pf_category finding) cs' then (Inr (verdict', cs'), w1)
                         else adaptive_rounds deps input finding ctx n tried' verdict' cs' w1))))"

definition runAdaptiveLoop :: "'e dast_deps \<Rightarrow> 's confirm_scope_scheme \<Rightarrow> probable_finding \<Rightarrow> variant_ctx \<Rightarrow> oracle_verdict \<Rightarrow> collected list
    \<Rightarrow> 'e live_world \<Rightarrow> (js_error + oracle_verdict \<times> collected list) \<times> 'e live_world" where
  "runAdaptiveLoop deps input finding ctx verdict cs w =
     (if PAYLOAD_VARIANTS (pf_category finding) = [] \<or> \<not> isAmbiguous (pf_category finding) cs then (Inr (verdict, cs), w)
      else adaptive_rounds deps input finding ctx MAX_ADAPTIVE_ROUNDS [] verdict cs w)"

section \<open>A live confirmation\<close>

definition transcript :: "collected list \<Rightarrow> http_exchange list" where
  "transcript cs = map (\<lambda>c. toExchange (co_probe c) (co_response c)) cs"

definition LOGIN_UNAVAILABLE :: string where
  "LOGIN_UNAVAILABLE = ''authenticated flow required but browser login was unavailable; live probe skipped''"

text \<open>The session of an authenticated flow: an exception, nothing when the login is not available, or the session if one is needed.\<close>

definition live_login :: "'e dast_deps \<Rightarrow> app_route option \<Rightarrow> string \<Rightarrow> 'e live_world
    \<Rightarrow> (montr_error + live_session option option) \<times> 'e live_world" where
  "live_login deps route target w =
     (if \<not> (case route of Some r \<Rightarrow> ro_authState r \<in> {Authenticated, Role_gated} | None \<Rightarrow> False) then (Inr (Some None), w)
      else case live_signal deps w of
        Inl err \<Rightarrow> (if isAbort err then Inl (asKill err) else Inr None, w)
      | Inr u \<Rightarrow>
          (case dd_login deps (strip_suffix ''/'' target @ ''/login'') (wd_env w) of
             (Inl err, e1) \<Rightarrow> (if isAbort err then Inl (asKill err) else Inr None, w\<lparr>wd_env := e1\<rparr>)
           | (Inr session, e1) \<Rightarrow> (Inr (Some (Some session)), w\<lparr>wd_env := e1\<rparr>)))"

definition live_failed :: "string \<Rightarrow> collected list \<Rightarrow> live_verdict" where
  "live_failed reason cs = \<lparr>lw_success = False, lw_reason = reason, lw_transcript = transcript cs\<rparr>"

definition conclude :: "oracle_verdict \<times> collected list \<Rightarrow> live_verdict" where
  "conclude vc = (if ov_success (fst vc) then \<lparr>lw_success = True, lw_reason = [], lw_transcript = transcript (snd vc)\<rparr>
     else live_failed (''live probes did not confirm exploitability ('' @ ov_note (fst vc) @ '')'') (snd vc))"

text \<open>The adaptive loop is entered when the fixed probes did not confirm and there is a gateway.\<close>

definition after_fixed :: "'e dast_deps \<Rightarrow> 's confirm_scope_scheme \<Rightarrow> probable_finding \<Rightarrow> variant_ctx \<Rightarrow> collected list
    \<Rightarrow> 'e live_world \<Rightarrow> (js_error + oracle_verdict \<times> collected list) \<times> 'e live_world" where
  "after_fixed deps input finding ctx cs w =
     (let verdict = live_oracle (pf_category finding) cs in
      if \<not> ov_success verdict \<and> dd_complete deps \<noteq> None then runAdaptiveLoop deps input finding ctx verdict cs w
      else (Inr (verdict, cs), w))"

definition probe_live :: "'e dast_deps \<Rightarrow> 's confirm_scope_scheme \<Rightarrow> string \<Rightarrow> probable_finding \<Rightarrow> ('e live_world, live_verdict) io" where
  "probe_live deps input target finding w =
     (let route = findRoute (cs_appMap input) finding in
      case live_login deps route target w of
        (Inl e, w1) \<Rightarrow> (Inl (Typed e), w1)
      | (Inr None, w1) \<Rightarrow> (Inr (live_failed LOGIN_UNAVAILABLE []), w1)
      | (Inr (Some session), w1) \<Rightarrow>
          (let ctx = live_ctx (cs_appMap input) finding route target session (id_marker ''montrAdapt'' finding);
               probes = craftProbes finding session ctx (pf_category finding) in
           if probes = [] then (Inr (live_failed (''no safe live probe for '' @ category_str (pf_category finding)) []), w1)
           else case fixed_probes deps input finding probes [] w1 of
             (Inl (Dast_threw e), w2) \<Rightarrow> (Inl e, w2)
           | (Inl (Dast_stopped reason cs), w2) \<Rightarrow> (Inr (live_failed reason cs), w2)
           | (Inr cs, w2) \<Rightarrow>
               (case after_fixed deps input finding ctx cs w2 of
                  (Inl e, w3) \<Rightarrow> (Inl e, w3)
                | (Inr vc, w3) \<Rightarrow> (Inr (conclude vc), w3))))"

text \<open>Layer 3 with these probes in place of the effect \<open>kd_probe\<close>.\<close>

definition with_live_probes :: "'e dast_deps \<Rightarrow> 's confirm_scope_scheme \<Rightarrow> 'e live_world confirm_deps \<Rightarrow> 'e live_world confirm_deps" where
  "with_live_probes deps input kd = kd\<lparr>kd_probe := probe_live deps input\<rparr>"

end
