(* ===== verification/LiveDastFacts.thy ===== *)
theory LiveDastFacts
  imports LiveDast
begin

text \<open>
  What a live confirmation does to its world: the requests it may send, all of them past the guard and
  from a vetted source, the calls of the gateway it may make, and what its verdict rests on. The
  relations between worlds are one interface with two interpretations.
\<close>

section \<open>The guard around one probe\<close>

abbreviation guard_total :: "'e live_world \<Rightarrow> nat" where "guard_total w \<equiv> sg_total (wd_guard w)"

abbreviation guard_mutating :: "'e live_world \<Rightarrow> nat" where "guard_mutating w \<equiv> sg_mutating (wd_guard w)"

lemma wait_keeps: "sg_total (fst (throttle_wait g now st)) = sg_total st" "sg_mutating (fst (throttle_wait g now st)) = sg_mutating st"
  by (simp_all add: throttle_wait_def Let_def)

lemma throttle_frame: "guard_total (snd (live_throttle deps w)) = guard_total w"
    "guard_mutating (snd (live_throttle deps w)) = guard_mutating w" "wd_wire (snd (live_throttle deps w)) = wd_wire w"
proof -
  obtain now e1 where now: "dd_now deps (wd_env w) = (now, e1)" by fastforce
  obtain st wait where tw: "throttle_wait (dd_scope deps) now (wd_guard w) = (st, wait)" by fastforce
  have "sg_total st = guard_total w \<and> sg_mutating st = guard_mutating w"
    using wait_keeps[of "dd_scope deps" now "wd_guard w"] tw by simp
  then have "guard_total (snd (live_throttle deps w)) = guard_total w
      \<and> guard_mutating (snd (live_throttle deps w)) = guard_mutating w \<and> wd_wire (snd (live_throttle deps w)) = wd_wire w"
    by (simp add: live_throttle_def now tw Let_def split: option.split sum.split prod.split)
  then show "guard_total (snd (live_throttle deps w)) = guard_total w"
    "guard_mutating (snd (live_throttle deps w)) = guard_mutating w" "wd_wire (snd (live_throttle deps w)) = wd_wire w" by simp_all
qed

lemma live_gate_frame: "guard_total (snd (live_gate deps q w)) = guard_total w"
    "guard_mutating (snd (live_gate deps q w)) = guard_mutating w" "wd_wire (snd (live_gate deps q w)) = wd_wire w"
  using throttle_frame[of deps w] by (cases "live_throttle deps w"; simp add: live_gate_def split: sum.split)+

lemma live_gate_passed:
  assumes "live_gate deps q w = (Inr u, w1)"
  shows "probe_ok (dd_parse deps) (dd_scope deps) (pq_url q) \<and> dd_signal deps (wd_env w) = Not_aborted
    \<and> guard_total w < maxRequestsPerScan (go_scope (dd_scope deps))
    \<and> (is_mutating (pq_method q) \<longrightarrow> guard_mutating w < maxMutatingRequests (go_scope (dd_scope deps)))"
proof -
  have "assertProbeAllowed (dd_parse deps) (dd_scope deps) (wd_guard w) (dd_signal deps (wd_env w)) (pq_url q) (pq_method q) = Inr ()"
    using assms by (simp add: live_gate_def split: sum.splits)
  then show ?thesis
    by (auto simp: assertProbeAllowed_def probe_ok_def ebind_Inr_iff assertNotKilled_ok split: if_splits)
qed

text \<open>Within the caps of the scope.\<close>

definition within_caps :: "'e dast_deps \<Rightarrow> 'e live_world \<Rightarrow> bool" where
  "within_caps deps w \<longleftrightarrow> guard_total w \<le> maxRequestsPerScan (go_scope (dd_scope deps))
     \<and> guard_mutating w \<le> maxMutatingRequests (go_scope (dd_scope deps))"

definition sanctioned :: "'e dast_deps \<Rightarrow> live_probe \<Rightarrow> bool" where
  "sanctioned deps p \<longleftrightarrow> probe_ok (dd_parse deps) (dd_scope deps) (pq_url (lb_request p))
     \<and> (is_mutating (pq_method (lb_request p)) \<longrightarrow> 0 < maxMutatingRequests (go_scope (dd_scope deps)))"

definition sends :: "'e dast_deps \<Rightarrow> (live_probe \<Rightarrow> bool) \<Rightarrow> nat \<Rightarrow> 'e live_world \<Rightarrow> 'e live_world \<Rightarrow> bool" where
  "sends deps allowed n w w' \<longleftrightarrow>
     (\<exists>ps. wd_wire w' = wd_wire w @ ps \<and> length ps \<le> n \<and> (\<forall>p \<in> set ps. sanctioned deps p \<and> allowed p))
     \<and> (within_caps deps w \<longrightarrow> within_caps deps w')"

lemma sends_refl: "sends deps allowed 0 w w"
  by (simp add: sends_def)

lemma sends_env: "sends deps allowed 0 w (w\<lparr>wd_env := e\<rparr>)"
  by (simp add: sends_def within_caps_def)

lemma sends_trans: "sends deps allowed a w w1 \<Longrightarrow> sends deps allowed b w1 w2 \<Longrightarrow> sends deps allowed (a + b) w w2"
  unfolding sends_def by (elim conjE exE) (rule conjI, rule exI, auto)

lemma sends_mono: "sends deps allowed a w w1 \<Longrightarrow> a \<le> b \<Longrightarrow> sends deps allowed b w w1"
  unfolding sends_def by (meson le_trans)

lemma fire_sends:
  assumes "allowed p"
  shows "sends deps allowed 1 w (snd (fire deps input finding p summary extra w))"
proof -
  obtain r w1 where gate: "live_gate deps (lb_request p) w = (r, w1)" by fastforce
  have frame: "guard_total w1 = guard_total w" "guard_mutating w1 = guard_mutating w" "wd_wire w1 = wd_wire w"
    using live_gate_frame[of deps "lb_request p" w] gate by simp_all
  show ?thesis
  proof (cases r)
    case (Inl e)
    then show ?thesis using frame by (auto simp: fire_def gate sends_def within_caps_def live_audit_event_def)
  next
    case (Inr u)
    have ok: "sanctioned deps p" "guard_total w < maxRequestsPerScan (go_scope (dd_scope deps))"
      "is_mutating (pq_method (lb_request p)) \<Longrightarrow> guard_mutating w < maxMutatingRequests (go_scope (dd_scope deps))"
      using live_gate_passed[OF gate[unfolded Inr]] by (auto simp: sanctioned_def)
    obtain answer e2 where sent: "dd_send deps (lb_request p) (wd_env w1) = (answer, e2)" by fastforce
    show ?thesis
    proof (cases answer)
      case (Inl e)
      then show ?thesis using frame ok(1) assms
        by (auto simp: fire_def gate Inr sent sends_def within_caps_def live_audit_event_def Let_def)
    next
      case (Inr a)
      then show ?thesis using frame ok assms
        by (auto simp: fire_def gate \<open>r = Inr u\<close> sent sends_def within_caps_def live_audit_event_def live_record_def guard_record_def
            Let_def split: option.split prod.split)
    qed
  qed
qed


section \<open>What a live confirmation may do\<close>

text \<open>
  A relation between worlds, with the number of requests and of calls of the gateway it allows for, that
  holds along the steps of a live confirmation.
\<close>

locale live_relation =
  fixes deps :: "'e dast_deps"
    and input :: "'s confirm_scope_scheme"
    and finding :: probable_finding
    and allowed :: "live_probe \<Rightarrow> bool"
    and R :: "nat \<Rightarrow> nat \<Rightarrow> 'e live_world \<Rightarrow> 'e live_world \<Rightarrow> bool"
  assumes still: "R 0 0 w w"
    and compose: "R a b w w1 \<Longrightarrow> R c d w1 w2 \<Longrightarrow> R (a + c) (b + d) w w2"
    and relax: "R a b w w1 \<Longrightarrow> a \<le> c \<Longrightarrow> b \<le> d \<Longrightarrow> R c d w w1"
    and login: "R 0 0 w (w\<lparr>wd_env := snd (dd_login deps url (wd_env w))\<rparr>)"
    and gateway: "dd_complete deps = Some send \<Longrightarrow>
      R 0 1 w (w\<lparr>wd_env := snd (ask_gateway deps input send prompt fallback payload maxTokens schema (wd_env w))\<rparr>)"
    and probing: "allowed p \<Longrightarrow> R 1 0 w (snd (fire deps input finding p summary extra w))"
    and crafted: "p \<in> set (craftProbes finding session ctx (pf_category finding)) \<Longrightarrow> allowed p"
    and variant: "v \<in> set (PAYLOAD_VARIANTS (pf_category finding)) \<Longrightarrow> allowed (va_build v ctx)"
    and composed: "is_safe (evaluateComposedPayloadSafety (dd_read_url deps) (pf_category finding) text (Some (vx_marker ctx)))
      \<Longrightarrow> allowed (buildComposedProbe (pf_category finding) ctx text)"
begin

lemma fixed_probes_related:
  "list_all allowed ps \<Longrightarrow> R (length ps) 0 w (snd (fixed_probes deps input finding ps cs w))"
proof (induction ps arbitrary: cs w)
  case Nil
  then show ?case by (simp add: still)
next
  case (Cons p ps)
  obtain r w1 where shot: "fire deps input finding p (probe_summary p) [] w = (r, w1)" by fastforce
  have one: "R 1 0 w w1" using probing[of p w "probe_summary p" "[]"] Cons.prems shot by simp
  have stop: "R (Suc (length ps)) 0 w w1" using relax[OF one] by simp
  have more: "R (Suc (length ps)) 0 w (snd (fixed_probes deps input finding ps cs' w1))" for cs'
    using compose[OF one Cons.IH[of w1 cs']] Cons.prems by simp
  show ?case using stop more by (cases r) (simp_all add: shot)
qed

lemma variant_action_allowed:
  "variant_action vs ctx i = Some a \<Longrightarrow> set vs \<subseteq> set (PAYLOAD_VARIANTS (pf_category finding)) \<Longrightarrow> allowed (aa_probe a)"
  using variant by (auto simp: variant_action_def dest!: find_Some_mem)

lemma composed_action_allowed:
  "composed_action (dd_read_url deps) (pf_category finding) vs ctx text i = Some a
    \<Longrightarrow> set vs \<subseteq> set (PAYLOAD_VARIANTS (pf_category finding)) \<Longrightarrow> allowed (aa_probe a)"
  using variant_action_allowed[of vs ctx _ a] composed
  by (auto simp: composed_action_def split: if_splits)

lemma choice_related: "R 0 1 w (w\<lparr>wd_env := snd (choose_action deps input finding ctx vs cs (wd_env w))\<rparr>)"
proof (cases "dd_complete deps")
  case None
  then show ?thesis using relax[OF still, of 0 1 w]
    by (simp add: choose_action_def chooseNextVariant_def chooseAdaptiveActionWithComposition_def)
next
  case (Some send)
  show ?thesis
  proof (cases "isComposableLiveCategory (pf_category finding)")
    case True
    obtain r e1 where asked: "ask_gateway deps input send ''confirm.live_adaptive_compose.system'' COMPOSE_SYSTEM
        (choice_payload (compose_task (pf_category finding) (vx_marker ctx)) (pf_category finding) cs vs) 640
        (schema_of [(''variantId'', enum_of vs), (''composedPayload'', JObj [(''type'', JStr ''string''), (''maxLength'', JNum 300)]),
          (''reasoning'', string_type)] []) (wd_env w) = (r, e1)" by fastforce
    then have "R 0 1 w (w\<lparr>wd_env := e1\<rparr>)" using gateway[OF Some] by (metis snd_conv)
    then show ?thesis using True
      by (simp add: choose_action_def chooseAdaptiveActionWithComposition_def Some asked split: sum.split option.split)
  next
    case False
    obtain r e1 where asked: "ask_gateway deps input send ''confirm.live_adaptive.system'' VARIANT_SYSTEM
        (choice_payload VARIANT_TASK (pf_category finding) cs vs) 512
        (schema_of [(''variantId'', enum_of vs), (''reasoning'', string_type)] [''variantId'']) (wd_env w) = (r, e1)" by fastforce
    then have "R 0 1 w (w\<lparr>wd_env := e1\<rparr>)" using gateway[OF Some] by (metis snd_conv)
    then show ?thesis using False
      by (simp add: choose_action_def chooseNextVariant_def Some asked split: sum.split)
  qed
qed

lemma choice_allowed:
  assumes "choose_action deps input finding ctx vs cs e = (Inr (Try a), e1)" "set vs \<subseteq> set (PAYLOAD_VARIANTS (pf_category finding))"
  shows "allowed (aa_probe a)"
  using assms(1) variant_action_allowed[OF _ assms(2), of ctx _ a] composed_action_allowed[OF _ assms(2), of ctx _ _ a]
  by (auto simp: choose_action_def chooseAdaptiveActionWithComposition_def split: if_splits sum.splits option.splits prod.splits)

lemma adaptive_rounds_related:
  "R n n w (snd (adaptive_rounds deps input finding ctx n tried verdict cs w))"
proof (induction n arbitrary: tried verdict cs w)
  case 0
  then show ?case by (simp add: still)
next
  case (Suc n)
  let ?vs = "filter (\<lambda>v. va_id v \<notin> set tried) (PAYLOAD_VARIANTS (pf_category finding))"
  obtain choice e1 where chosen: "choose_action deps input finding ctx ?vs cs (wd_env w) = (choice, e1)" by fastforce
  let ?w = "w\<lparr>wd_env := e1\<rparr>"
  have asked: "R 0 1 w ?w" using choice_related[of w ctx ?vs cs] chosen by simp
  have stay: "R (Suc n) (Suc n) w w" and stop: "R (Suc n) (Suc n) w ?w"
    using relax[OF still] relax[OF asked] by simp_all
  have shot: "R (Suc n) (Suc n) w w1" and more: "R (Suc n) (Suc n) w (snd (adaptive_rounds deps input finding ctx n tried' v' cs' w1))"
    if "choice = Inr (Try a)" "w1 = snd (fire deps input finding (aa_probe a) s x ?w)" for a s x w1 tried' v' cs'
  proof -
    have "allowed (aa_probe a)" using choice_allowed[of ctx ?vs cs "wd_env w" a e1] chosen that(1) by auto
    from compose[OF asked probing[OF this]] have one: "R 1 1 w w1" using that(2) by simp
    show "R (Suc n) (Suc n) w w1" using relax[OF one] by simp
    show "R (Suc n) (Suc n) w (snd (adaptive_rounds deps input finding ctx n tried' v' cs' w1))"
      using compose[OF one Suc.IH[of w1 tried' v' cs']] by simp
  qed
  show ?case using stay stop shot[OF _ refl] more[OF _ refl]
    by (auto simp: chosen Let_def split: sum.split round_choice.split fired.split prod.split if_splits) (metis snd_conv)+
qed

lemma crafted_at_most_two: "length (craftProbes finding session ctx c) \<le> 2"
  by (cases c) (auto simp: xxe_probes_def deserialization_probes_def Let_def)

lemma login_related: "R 0 0 w (snd (live_login deps route target w))"
  using still[of w] login[of w] by (auto simp: live_login_def split: sum.split prod.split option.split) (metis snd_conv)+

lemma after_fixed_related: "R 3 3 w (snd (after_fixed deps input finding ctx cs w))"
  using relax[OF still, of 3 3 w] adaptive_rounds_related[of 3 w ctx "[]"]
  by (simp add: after_fixed_def runAdaptiveLoop_def MAX_ADAPTIVE_ROUNDS_def Let_def)

lemma probe_live_related: "R 5 3 w (snd (probe_live deps input target finding w))"
proof -
  let ?route = "findRoute (cs_appMap input) finding"
  obtain s w1 where logged: "live_login deps ?route target w = (s, w1)" by fastforce
  then have before: "R 0 0 w w1" using login_related[of w ?route target] by simp
  then have stop: "R 5 3 w w1" by (rule relax) simp_all
  show ?thesis
  proof (cases "\<exists>session. s = Inr (Some session)")
    case False
    then show ?thesis using stop by (auto simp: probe_live_def logged split: sum.split option.split)
  next
    case True
    then obtain session where session: "s = Inr (Some session)" ..
    let ?ctx = "live_ctx (cs_appMap input) finding ?route target session (id_marker ''montrAdapt'' finding)"
    let ?ps = "craftProbes finding session ?ctx (pf_category finding)"
    obtain r w2 where fixed: "fixed_probes deps input finding ?ps [] w1 = (r, w2)" by fastforce
    have "list_all allowed ?ps" using crafted by (simp add: list_all_iff)
    then have "R (length ?ps) 0 w1 w2" using fixed_probes_related[of ?ps w1 "[]"] fixed by simp
    then have "R 2 0 w1 w2" by (rule relax) (simp_all add: crafted_at_most_two)
    from compose[OF before this] have mid: "R 2 0 w w2" by (simp only: add_0)
    then have stop2: "R 5 3 w w2" by (rule relax) simp_all
    have "R 5 3 w (snd (after_fixed deps input finding ?ctx cs w2))" for cs
      using compose[OF mid after_fixed_related[of w2 ?ctx cs]] by simp
    then show ?thesis using stop stop2
      by (auto simp: probe_live_def logged session fixed Let_def split: sum.split dast_end.split prod.split) (metis snd_conv)+
  qed
qed

end

section \<open>Requests stay in the scope\<close>

text \<open>Where a probe comes from: the fixed set of its category, the catalogue, or a payload that the predicate found safe.\<close>

definition vetted :: "'e dast_deps \<Rightarrow> probable_finding \<Rightarrow> live_probe \<Rightarrow> bool" where
  "vetted deps finding p \<longleftrightarrow>
     (\<exists>session ctx. p \<in> set (craftProbes finding session ctx (pf_category finding)))
     \<or> (\<exists>v ctx. v \<in> set (PAYLOAD_VARIANTS (pf_category finding)) \<and> p = va_build v ctx)
     \<or> (\<exists>text ctx. is_safe (evaluateComposedPayloadSafety (dd_read_url deps) (pf_category finding) text (Some (vx_marker ctx)))
          \<and> p = buildComposedProbe (pf_category finding) ctx text)"

interpretation scoped: live_relation deps input finding "vetted deps finding" "\<lambda>a b. sends deps (vetted deps finding) a"
  for deps :: "'e dast_deps" and input :: "'s confirm_scope_scheme" and finding
proof
  show "sends deps (vetted deps finding) a w w1 \<Longrightarrow> a \<le> c \<Longrightarrow> b \<le> d \<Longrightarrow> sends deps (vetted deps finding) c w w1"
    for a b c d :: nat and w w1 :: "'e live_world" by (rule sends_mono)
  show "vetted deps finding p \<Longrightarrow> sends deps (vetted deps finding) 1 w (snd (fire deps input finding p summary extra w))"
    for p summary extra and w :: "'e live_world" by (rule fire_sends)
qed (auto simp: vetted_def intro: sends_refl sends_env elim: sends_trans)

text \<open>The calls of the gateway on a meter that nothing else moves.\<close>

definition metered_dast :: "'e dast_deps \<Rightarrow> ('e \<Rightarrow> nat) \<Rightarrow> bool" where
  "metered_dast deps calls \<longleftrightarrow>
     (\<forall>u e. calls (snd (dd_login deps u e)) = calls e) \<and> (\<forall>q e. calls (snd (dd_send deps q e)) = calls e)
     \<and> (\<forall>ms e. calls (snd (dd_sleep deps ms e)) = calls e) \<and> (\<forall>e. calls (snd (dd_now deps e)) = calls e)
     \<and> (\<forall>ev e. calls (dd_audit deps ev e) = calls e)
     \<and> (\<forall>n f c e. calls (snd (dd_resolvePrompt deps n f c e)) = calls e)
     \<and> (\<forall>send q e. dd_complete deps = Some send \<longrightarrow> calls (snd (send q e)) \<le> calls e + 1)"

abbreviation meter :: "('e \<Rightarrow> nat) \<Rightarrow> 'e live_world \<Rightarrow> nat" where "meter calls w \<equiv> calls (wd_env w)"

lemma metered_throttle:
  assumes "metered_dast deps calls"
  shows "meter calls (snd (live_throttle deps w)) = meter calls w"
proof -
  obtain now e1 where now: "dd_now deps (wd_env w) = (now, e1)" by fastforce
  have e1: "calls e1 = meter calls w" using assms now unfolding metered_dast_def by (metis snd_conv)
  have slept: "calls e2 = calls e1" if "dd_sleep deps ms e1 = (x, e2)" for ms x e2
    using assms that unfolding metered_dast_def by (metis snd_conv)
  show ?thesis using e1 slept by (auto simp: live_throttle_def now Let_def split: option.split sum.split prod.split)
qed

lemma metered_fire:
  assumes "metered_dast deps calls"
  shows "meter calls (snd (fire deps input finding p summary extra w)) = meter calls w"
proof -
  obtain r w1 where gate: "live_gate deps (lb_request p) w = (r, w1)" by fastforce
  have w1: "meter calls w1 = meter calls w"
    using gate metered_throttle[OF assms, of w]
    by (cases "live_throttle deps w") (auto simp: live_gate_def split: sum.splits)
  have audited: "calls (dd_audit deps ev e) = calls e" for ev e using assms unfolding metered_dast_def by blast
  obtain answer e2 where sent: "dd_send deps (lb_request p) (wd_env w1) = (answer, e2)" by fastforce
  have e2: "calls e2 = meter calls w" using assms w1 sent unfolding metered_dast_def by (metis snd_conv)
  obtain now e3 where recorded: "dd_now deps e2 = (now, e3)" by fastforce
  have e3: "calls e3 = meter calls w" using assms e2 recorded unfolding metered_dast_def by (metis snd_conv)
  show ?thesis using w1 e2 e3
    by (auto simp: fire_def gate sent recorded live_audit_event_def live_record_def audited Let_def split: sum.split option.split)
qed

lemma metered_gateway:
  assumes "metered_dast deps calls" "dd_complete deps = Some send"
  shows "calls (snd (ask_gateway deps input send prompt fallback payload maxTokens schema e)) \<le> calls e + 1"
proof -
  obtain r e1 where resolved: "dd_resolvePrompt deps prompt fallback (cs_clientId input) e = (r, e1)" by fastforce
  have e1: "calls e1 = calls e" using assms(1) resolved unfolding metered_dast_def by (metis snd_conv)
  have "calls e2 \<le> calls e1 + 1" if "send q e1 = (x, e2)" for q x e2
    using assms that unfolding metered_dast_def by (metis snd_conv)
  then show ?thesis using e1 by (auto simp: ask_gateway_def resolved split: sum.split prod.split)
qed

interpretation metered: live_relation deps input finding "\<lambda>p. True" "\<lambda>a b w w'. metered_dast deps calls \<longrightarrow> meter calls w' \<le> meter calls w + b"
  for deps :: "'e dast_deps" and input :: "'s confirm_scope_scheme" and finding and calls :: "'e \<Rightarrow> nat"
proof
  show "metered_dast deps calls \<longrightarrow> meter calls (w\<lparr>wd_env := snd (dd_login deps url (wd_env w))\<rparr>) \<le> meter calls w + 0" for w url
    by (auto simp: metered_dast_def)
  show "metered_dast deps calls \<longrightarrow> meter calls (snd (fire deps input finding p summary extra w)) \<le> meter calls w + 0" for p summary extra w
    using metered_fire[of deps calls input finding p summary extra w] by simp
  show "metered_dast deps calls \<longrightarrow>
      meter calls (w\<lparr>wd_env := snd (ask_gateway deps input send prompt fallback payload maxTokens schema (wd_env w))\<rparr>) \<le> meter calls w + 1"
    if "dd_complete deps = Some send" for send prompt fallback payload maxTokens schema w
    using metered_gateway[OF _ that, of calls input prompt fallback payload maxTokens schema "wd_env w"] by simp
qed auto

section \<open>What a verdict rests on\<close>

lemma fire_wire:
  assumes "fire deps input finding p summary extra w = (r, w')"
  shows "\<exists>ps. wd_wire w' = wd_wire w @ ps \<and> (\<forall>a. r = Fired_answered a \<longrightarrow> ps = [p])"
proof -
  obtain g w1 where gate: "live_gate deps (lb_request p) w = (g, w1)" by fastforce
  have "wd_wire w1 = wd_wire w" using live_gate_frame(3)[of deps "lb_request p" w] gate by simp
  then show ?thesis using assms
    by (auto simp: fire_def gate live_audit_event_def live_record_def Let_def split: sum.splits if_splits prod.splits option.splits)
qed

text \<open>Every collected answer belongs to a probe that left the process behind the first \<open>n\<close>.\<close>

definition collected_after :: "nat \<Rightarrow> 'e live_world \<Rightarrow> collected list \<Rightarrow> bool" where
  "collected_after n w cs \<longleftrightarrow> n \<le> length (wd_wire w) \<and> (\<forall>c \<in> set cs. co_probe c \<in> set (drop n (wd_wire w)))"

lemma collected_env [simp]: "collected_after n (w\<lparr>wd_env := e\<rparr>) cs = collected_after n w cs"
  by (simp add: collected_after_def)

lemma collected_fire:
  assumes "collected_after n w cs" "fire deps input finding p summary extra w = (r, w')"
  shows "collected_after n w' cs" and "r = Fired_answered a \<Longrightarrow> collected_after n w' (cs @ [\<lparr>co_probe = p, co_response = a\<rparr>])"
proof -
  from fire_wire[OF assms(2)] obtain ps where ps: "wd_wire w' = wd_wire w @ ps" "\<And>a. r = Fired_answered a \<Longrightarrow> ps = [p]" by blast
  then show "collected_after n w' cs" using assms(1) by (auto simp: collected_after_def)
  then show "r = Fired_answered a \<Longrightarrow> collected_after n w' (cs @ [\<lparr>co_probe = p, co_response = a\<rparr>])"
    using ps assms(1) by (auto simp: collected_after_def)
qed

lemma fixed_collected:
  "fixed_probes deps input finding ps cs w = (r, w') \<Longrightarrow> collected_after n w cs
    \<Longrightarrow> (\<forall>cs'. r = Inr cs' \<or> (\<exists>reason. r = Inl (Dast_stopped reason cs')) \<longrightarrow> collected_after n w' cs')"
proof (induction ps arbitrary: cs w)
  case (Cons p ps)
  obtain f w1 where shot: "fire deps input finding p (probe_summary p) [] w = (f, w1)" by fastforce
  note kept = collected_fire[OF Cons.prems(2) shot]
  show ?case using Cons.prems(1) kept Cons.IH[of cs w1] Cons.IH[OF _ kept(2)]
    by (cases f) (auto simp: shot)
qed auto

lemma rounds_verdict:
  "adaptive_rounds deps input finding ctx k tried (live_oracle (pf_category finding) cs) cs w = (Inr (v, cs'), w') \<Longrightarrow> collected_after n w cs
    \<Longrightarrow> v = live_oracle (pf_category finding) cs' \<and> collected_after n w' cs'"
proof (induction k arbitrary: tried cs w)
  case (Suc k)
  let ?vs = "filter (\<lambda>v. va_id v \<notin> set tried) (PAYLOAD_VARIANTS (pf_category finding))"
  obtain choice e1 where chosen: "choose_action deps input finding ctx ?vs cs (wd_env w) = (choice, e1)" by fastforce
  show ?case
  proof (cases "\<exists>a. choice = Inr (Try a) \<and> assertNotKilled (dd_signal deps (wd_env w)) = Inr ()
      \<and> \<not> (\<not> isComposableLiveCategory (pf_category finding) \<and> ?vs = []) \<and> assertNotKilled (dd_signal deps e1) = Inr ()")
    case False
    then show ?thesis using Suc.prems
      by (auto simp: chosen Let_def split: sum.splits round_choice.splits if_splits)
  next
    case True
    then obtain a where a: "choice = Inr (Try a)" by blast
    let ?tried = "case aa_variantId a of Some i \<Rightarrow> i # tried | None \<Rightarrow> tried"
    obtain f w1 where shot: "fire deps input finding (aa_probe a) (adaptive_summary a) (adaptive_extra a (MAX_ADAPTIVE_ROUNDS - k)) (w\<lparr>wd_env := e1\<rparr>) = (f, w1)"
      by fastforce
    have at: "collected_after n (w\<lparr>wd_env := e1\<rparr>) cs" using Suc.prems(2) by simp
    note kept = collected_fire[OF at shot]
    show ?thesis
    proof (cases f)
      case (Fired_answered r)
      then show ?thesis using Suc.prems True a kept(2)[OF Fired_answered] Suc.IH[of ?tried "cs @ [\<lparr>co_probe = aa_probe a, co_response = r\<rparr>]" w1]
        by (auto simp: chosen shot Let_def split: if_splits)
    next
      case Fired_lost
      then show ?thesis using Suc.prems True a kept(1) Suc.IH[of ?tried cs w1] by (auto simp: chosen shot Let_def split: if_splits)
    qed (use Suc.prems True a kept(1) in \<open>auto simp: chosen shot Let_def split: if_splits\<close>)
  qed
qed simp

lemma after_fixed_verdict:
  "after_fixed deps input finding ctx cs w = (Inr (v, cs'), w') \<Longrightarrow> collected_after n w cs
    \<Longrightarrow> v = live_oracle (pf_category finding) cs' \<and> collected_after n w' cs'"
  using rounds_verdict[of deps input finding ctx 3 "[]" cs w v cs' w' n]
  by (auto simp: after_fixed_def runAdaptiveLoop_def MAX_ADAPTIVE_ROUNDS_def Let_def split: if_splits)

lemma login_wire: "wd_wire (snd (live_login deps route target w)) = wd_wire w"
  by (auto simp: live_login_def split: sum.split prod.split)

lemma verdict_rests_on:
  assumes "probe_live deps input target finding w = (Inr v, w')"
  shows "\<exists>cs. lw_transcript v = transcript cs \<and> (lw_success v \<longrightarrow> ov_success (live_oracle (pf_category finding) cs))
     \<and> (\<forall>c \<in> set cs. co_probe c \<in> set (drop (length (wd_wire w)) (wd_wire w')))"
proof -
  let ?route = "findRoute (cs_appMap input) finding"
  obtain s w1 where logged: "live_login deps ?route target w = (s, w1)" by fastforce
  have start: "collected_after (length (wd_wire w)) w1 []"
    using login_wire[of deps ?route target w] logged by (simp add: collected_after_def)
  show ?thesis
  proof (cases "\<exists>session. s = Inr (Some session)")
    case False
    then show ?thesis using assms
      by (auto simp: probe_live_def logged live_failed_def transcript_def split: sum.splits option.splits intro!: exI[of _ "[]"])
  next
    case True
    then obtain session where session: "s = Inr (Some session)" ..
    let ?ctx = "live_ctx (cs_appMap input) finding ?route target session (id_marker ''montrAdapt'' finding)"
    let ?ps = "craftProbes finding session ?ctx (pf_category finding)"
    obtain r w2 where fixed: "fixed_probes deps input finding ?ps [] w1 = (r, w2)" by fastforce
    note kept = fixed_collected[OF fixed start]
    show ?thesis
    proof (cases "?ps = []")
      case True
      then show ?thesis using assms
        by (auto simp: probe_live_def logged session live_failed_def transcript_def Let_def intro!: exI[of _ "[]"])
    next
      case False
      show ?thesis
      proof (cases r)
        case (Inl stop)
        then obtain reason cs where stopped: "stop = Dast_stopped reason cs"
          using assms False by (cases stop) (auto simp: probe_live_def logged session fixed Let_def)
        then have "v = live_failed reason cs" "w' = w2" using assms False Inl by (auto simp: probe_live_def logged session fixed Let_def)
        then show ?thesis using kept Inl stopped by (auto simp: live_failed_def collected_after_def)
      next
        case (Inr cs)
        then obtain v0 cs' where ended: "after_fixed deps input finding ?ctx cs w2 = (Inr (v0, cs'), w')" and v: "v = conclude (v0, cs')"
          using assms False by (auto simp: probe_live_def logged session fixed Let_def split: sum.splits prod.splits)
        have "collected_after (length (wd_wire w)) w2 cs" using kept Inr by blast
        from after_fixed_verdict[OF ended this] v show ?thesis
          by (auto simp: conclude_def live_failed_def collected_after_def intro!: exI[of _ cs'])
      qed
    qed
  qed
qed

lemma oracle_has_answer: "ov_success (live_oracle c cs) \<Longrightarrow> \<exists>p \<in> set cs. latest_payload cs = Some p"
  by (auto simp: live_oracle_def latest_payload_def split: option.splits dest!: find_Some_mem)

end
