(* ===== verification/LiveDastProps.thy ===== *)
theory LiveDastProps
  imports LiveDastFacts ConfirmProps
begin

text \<open>
  The properties of a live confirmation: where its requests go and come from, what it costs, what a
  confirmed finding rests on, and what the catalogue and the default scope make impossible.
\<close>

section \<open>A run\<close>

text \<open>A service that answers with another record for the identifier 2.\<close>

definition ex4_answer :: "probe_request \<Rightarrow> live_response" where
  "ex4_answer q = \<lparr>lp_status = 200, lp_headers = Some [(''Set-Cookie'', ''sid=1'')],
     lp_body = (if js_endsWith (pq_url q) ''=2'' then ''bob'' else ''alice'')\<rparr>"

definition ex4_dast :: "nat dast_deps" where
  "ex4_dast = \<lparr>dd_parse = ex_parse, dd_read_url = (\<lambda>u. None), dd_scope = ex_scope\<lparr>go_scope := default_dast_scope\<rparr>,
     dd_signal = (\<lambda>e. Not_aborted), dd_now = (\<lambda>e. (int e, e)), dd_sleep = (\<lambda>ms e. (None, e)), dd_send = (\<lambda>q e. (Inr (ex4_answer q), e)),
     dd_login = (\<lambda>u e. (Inr \<lparr>sn_headers = Some [(''cookie'', ''sid=1'')]\<rparr>, e)),
     dd_complete = None, dd_resolvePrompt = (\<lambda>n f c e. (Inr f, e)), dd_audit = (\<lambda>ev e. e), dd_num = (\<lambda>n. ''0''), dd_parse_json = (\<lambda>s. None)\<rparr>"

definition ex4_world :: "nat live_world" where
  "ex4_world = \<lparr>wd_guard = new_scope_guard, wd_wire = [], wd_env = 0\<rparr>"

definition ex4_review :: "nat live_world review_deps" where
  "ex4_review = \<lparr>cd_llm = None, cd_resolvePrompt = None, cd_idFactory = None, cd_now = (\<lambda>p. ''t''), cd_useLlmCrossCheck = None,
     cd_learnedSanitizers = [], cd_num = (\<lambda>r. ''1''), cd_parse = (\<lambda>s. None), cd_datetime = (\<lambda>s. s \<noteq> [])\<rparr>"

definition ex4_deps :: "nat live_world confirm_deps" where
  "ex4_deps = \<lparr>kd_review = ex4_review, kd_stream = (\<lambda>r w. (([], True), w)), kd_tool = (\<lambda>t v w. ([], w)), kd_toolDefinitions = [],
     kd_testProcess = (\<lambda>d t ms w. (No_binary d, w)), kd_testRunner = None,
     kd_probe = (\<lambda>t p w. (Inr \<lparr>lw_success = False, lw_reason = [], lw_transcript = []\<rparr>, w)), kd_audit = None,
     kd_signal = (\<lambda>w. Not_aborted), kd_egress = Inr (), kd_parse_url = ex_parse,
     kd_isKnownFalsePositive = None, kd_investigation = None, kd_priorConfirmedShapes = None\<rparr>"

definition ex4_input :: confirm_input where
  "ex4_input = ex3_input [ex3_finding ''p2'' Idor ''b.ts'' 2]"

definition ex4_finding :: probable_finding where
  "ex4_finding = ex3_finding ''p2'' Idor ''b.ts'' 2"

definition ex4_view :: "js_error + layer3_out \<Rightarrow> (string option \<times> (string \<times> int) list) list" where
  "ex4_view r = (case r of Inl e \<Rightarrow> [] | Inr out \<Rightarrow> map (\<lambda>f. (cn_probableId f, (case cn_proofArtifact f of
       Live_proof t xs \<Rightarrow> map (\<lambda>x. (rq_url (ex_request x), rs_status (ex_response x))) xs | Static_proof a hops s \<Rightarrow> []))) (l3_confirmed out))"

lemma ex4_evaluated:
  "ex4_view (fst (confirmFindings (with_live_probes ex4_dast ex4_input ex4_deps) ex4_input ex4_world))
     = [(Some ''p2'', [(''https://staging.acme.io/app/q/?id=1'', 200), (''https://staging.acme.io/app/q/?id=2'', 200)])]"
  by code_simp

lemma ex4_run:
  obtains out w f t xs where "confirmFindings (with_live_probes ex4_dast ex4_input ex4_deps) ex4_input ex4_world = (Inr out, w)"
    and "f \<in> set (l3_confirmed out)" and "cn_proofArtifact f = Live_proof t xs" and "length xs = 2"
proof -
  obtain r w where r: "confirmFindings (with_live_probes ex4_dast ex4_input ex4_deps) ex4_input ex4_world = (r, w)" by fastforce
  with ex4_evaluated obtain out where out: "r = Inr out" by (cases r) (simp_all add: ex4_view_def)
  with r ex4_evaluated obtain f where f: "l3_confirmed out = [f]" and view: "(case cn_proofArtifact f of
       Live_proof t xs \<Rightarrow> map (\<lambda>x. (rq_url (ex_request x), rs_status (ex_response x))) xs | Static_proof a hops s \<Rightarrow> [])
      = [(''https://staging.acme.io/app/q/?id=1'', 200), (''https://staging.acme.io/app/q/?id=2'', 200)]"
    by (auto simp: ex4_view_def)
  then obtain t xs where proof_of: "cn_proofArtifact f = Live_proof t xs" by (cases "cn_proofArtifact f") auto
  then have "length xs = 2" using view by (auto dest!: map_eq_imp_length_eq)
  then show ?thesis using that[of out w f t xs] r out f proof_of by simp
qed

section \<open>Requests\<close>



text \<open>The calls of the gateway for one finding.\<close>

lemma live_calls_bounded:
  assumes "metered_dast deps calls"
  shows "calls (wd_env (snd (probe_live deps input target finding w))) \<le> calls (wd_env w) + 3"
  using metered.probe_live_related[where deps = deps and calls = calls and w = w and input = input and target = target and finding = finding] assms by simp

section \<open>Verdicts\<close>

text \<open>C20. A finding that layer 3 confirms live, with the probes of this library, was probed on the authorized target; its
  proof is the transcript of requests that the guard let through and that come from a vetted source;
  and the answer to the latest attack among them satisfies the oracle of the finding's category.\<close>

theorem live_confirmations_are_backed:
  assumes "confirmFindings (with_live_probes deps input kd) input w = (Inr out, w')"
    and "f \<in> set (l3_confirmed out)" and "cn_proofArtifact f = Live_proof t xs"
  shows "assertLiveAuthorized (kd_parse_url kd) (ki_config input) (ki_allowLive input) (ki_stagingUrl input) = Inr t
    \<and> (\<exists>p \<in> set (ki_probable input). \<exists>cs c. cn_probableId f = Some (pf_id p) \<and> isLiveEligible (pf_category p) \<and> xs = transcript cs
         \<and> latest_payload cs = Some c
         \<and> ov_success (category_oracle (pf_category p) (or_empty (lb_marker (co_probe c))) (co_response c) (map_option co_response (baseline_of cs)))
         \<and> (\<forall>d \<in> set cs. sanctioned deps (co_probe d) \<and> vetted deps p (co_probe d)))"
proof -
  let ?kd = "with_live_probes deps input kd"
  obtain target rs where r: "list_all2 (settles ?kd input target) (js_sort (\<lambda>a b. pf_rank a \<le> pf_rank b) (ki_probable input)) rs"
    "l3_confirmed out = the_confirmed rs"
    and t: "\<And>t. target = Some t \<Longrightarrow>
      assertLiveAuthorized (kd_parse_url ?kd) (ki_config input) (ki_allowLive input) (ki_stagingUrl input) = Inr t"
    using run_verdicts[OF assms(1)] by metis
  from confirmed_verdict[OF r(1)] assms(2) r(2) obtain p where p: "p \<in> set (ki_probable input)" "settles ?kd input target p (Inr f)"
    by auto
  then have "live_evidence ?kd target p f"
    using assms(3) by (auto simp: static_evidence_def investigation_evidence_def investigation_proof_def)
  then obtain v u u' where v: "target = Some t" "isLiveEligible (pf_category p)" "probe_live deps input t p u = (Inr v, u')"
    "lw_success v" "xs = lw_transcript v"
    using assms(3) by (auto simp: live_evidence_def with_live_probes_def)
  from verdict_rests_on[OF v(3)] v(4) obtain cs where cs: "lw_transcript v = transcript cs" "ov_success (live_oracle (pf_category p) cs)"
    "\<And>d. d \<in> set cs \<Longrightarrow> co_probe d \<in> set (drop (length (wd_wire u)) (wd_wire u'))" by blast
  from scoped.probe_live_related[of deps p u input t] v(3)
  have sent: "sanctioned deps q \<and> vetted deps p q" if "q \<in> set (drop (length (wd_wire u)) (wd_wire u'))" for q
    using that by (auto simp: sends_def)
  from oracle_has_answer[OF cs(2)] obtain c where "latest_payload cs = Some c" by blast
  then show ?thesis using p v t cs sent by (auto simp: with_live_probes_def live_oracle_def intro!: bexI[of _ p] exI[of _ cs])
qed

lemma live_confirmations_are_backed_witness:
  "\<exists>(t :: string) p (cs :: collected list) c. p = ex4_finding \<and> length cs = 2 \<and> latest_payload cs = Some c
     \<and> ov_success (category_oracle (pf_category p) (or_empty (lb_marker (co_probe c))) (co_response c) (map_option co_response (baseline_of cs)))"
proof (rule ex4_run)
  fix out w f t xs
  assume run: "confirmFindings (with_live_probes ex4_dast ex4_input ex4_deps) ex4_input ex4_world = (Inr out, w)"
    "f \<in> set (l3_confirmed out)" "cn_proofArtifact f = Live_proof t xs" "length xs = 2"
  from live_confirmations_are_backed[OF run(1-3)] obtain p cs c where "p \<in> set (ki_probable ex4_input)" "xs = transcript cs"
    "latest_payload cs = Some c"
    "ov_success (category_oracle (pf_category p) (or_empty (lb_marker (co_probe c))) (co_response c) (map_option co_response (baseline_of cs)))"
    by blast
  moreover from this(1) have "p = ex4_finding" by (simp add: ex4_input_def ex4_finding_def ex3_input_def)
  ultimately show ?thesis using run(4) by (auto simp: transcript_def)
qed

text \<open>The categories whose probes carry a body.\<close>

lemma body_probes_mutate:
  assumes "vetted deps finding p" "pf_category finding \<in> {Xxe, Insecure_deserialization}"
  shows "is_mutating (pq_method (lb_request p))"
proof -
  have posted: "pq_method (lb_request p) = ''POST''"
    using assms by (auto simp: vetted_def post_probe_def xxe_probes_def deserialization_probes_def xxe_variants_def deserialization_variants_def Let_def)
  show ?thesis unfolding posted by code_simp
qed

text \<open>C21. With no mutating requests allowed, which is the default scope, a finding of external entities or insecure
  deserialization is never probed and never confirmed live, whatever the target answers.\<close>

theorem body_categories_need_mutating_budget:
  assumes "maxMutatingRequests (go_scope (dd_scope deps)) = 0" and "pf_category finding \<in> {Xxe, Insecure_deserialization}"
    and "probe_live deps input target finding w = (r, w')"
  shows "wd_wire w' = wd_wire w \<and> (\<forall>v. r = Inr v \<longrightarrow> \<not> lw_success v)"
proof -
  obtain ps where ps: "wd_wire w' = wd_wire w @ ps" "\<And>p. p \<in> set ps \<Longrightarrow> sanctioned deps p \<and> vetted deps finding p"
    using scoped.probe_live_related[of deps finding w input target] assms(3) by (auto simp: sends_def)
  have "p \<notin> set ps" for p using ps(2)[of p] body_probes_mutate[OF _ assms(2)] assms(1) by (auto simp: sanctioned_def)
  then have "ps = []" by (cases ps) auto
  moreover have "\<not> lw_success v" if "r = Inr v" for v
  proof
    assume "lw_success v"
    with verdict_rests_on[OF assms(3)[unfolded that]] obtain cs where "ov_success (live_oracle (pf_category finding) cs)"
      "\<forall>c \<in> set cs. co_probe c \<in> set (drop (length (wd_wire w)) (wd_wire w'))" by blast
    then show False using ps(1) \<open>ps = []\<close> oracle_has_answer by fastforce
  qed
  ultimately show ?thesis using ps(1) by simp
qed

lemma body_categories_need_mutating_budget_witness:
  "wd_wire (snd (probe_live ex4_dast ex4_input (pq_url ex_probe) (ex4_finding\<lparr>pf_category := Xxe\<rparr>) ex4_world)) = []
   \<and> (case fst (probe_live ex4_dast ex4_input (pq_url ex_probe) (ex4_finding\<lparr>pf_category := Xxe\<rparr>) ex4_world) of Inl e \<Rightarrow> False | Inr v \<Rightarrow> \<not> lw_success v)"
proof -
  let ?run = "probe_live ex4_dast ex4_input (pq_url ex_probe) (ex4_finding\<lparr>pf_category := Xxe\<rparr>) ex4_world"
  have "maxMutatingRequests (go_scope (dd_scope ex4_dast)) = 0" by code_simp
  from body_categories_need_mutating_budget[OF this _ prod.collapse[symmetric, of ?run]]
  have "wd_wire (snd ?run) = wd_wire ex4_world \<and> (\<forall>v. fst ?run = Inr v \<longrightarrow> \<not> lw_success v)" by simp
  moreover have "\<not> isl (fst ?run)" by code_simp
  ultimately show ?thesis by (cases "fst ?run") (auto simp: ex4_world_def)
qed

section \<open>What the oracles and the catalogue make of answers\<close>

text \<open>A page that repeats its parameter holds the marker, which is all the oracle of command injection looks for.\<close>

lemma echoed_command_is_confirmed:
  assumes "marker \<noteq> []"
  shows "ov_success (category_oracle Command_injection marker
     \<lparr>lp_status = 404, lp_headers = None, lp_body = ''no results for montr_baseline; echo '' @ marker\<rparr> base)"
proof -
  have "js_includes (''no results for montr_baseline; echo '' @ marker) marker"
    unfolding includes_iff by (rule exI[of _ "''no results for montr_baseline; echo ''"], rule exI[of _ "[]"]) simp
  then show ?thesis using assms by (simp add: judge_def)
qed

text \<open>Without an \<open>authorization\<close> header, stripping it resends the baseline request, and a session that works is a finding.\<close>

lemma unchanged_request_is_confirmed:
  assumes "jm_get (vx_headers ctx) ''authorization'' = None" and "in_2xx r"
  shows "\<exists>v \<in> set (PAYLOAD_VARIANTS Broken_access_control).
      lb_request (va_build v ctx) = lb_request (plain_probe ctx (vx_headers ctx) Baseline_role note)
      \<and> ov_success (category_oracle Broken_access_control marker r (Some r))"
proof -
  have "jm_delete ''authorization'' (vx_headers ctx) = vx_headers ctx"
    using assms(1) by (force simp: jm_get_def jm_delete_def AList.delete_eq map_of_eq_None_iff filter_id_conv)
  then show ?thesis using assms(2) by (auto simp: access_variants_def plain_probe_def judge_def)
qed

text \<open>A page that reflects a variant of cross-site scripting word for word does not satisfy the oracle, which wants a script element.\<close>

lemma reflected_variants_are_missed:
  "list_all (\<lambda>body. \<not> ov_success (category_oracle Xss ''montrAdaptf1'' \<lparr>lp_status = 200, lp_headers = None, lp_body = body\<rparr> None))
     [quotes ''` onmouseover=montrAdaptf1 x=`'', ''<img src=x onerror=montrAdaptf1>'', ''<svg onload=montrAdaptf1>'']"
  by code_simp

text \<open>Both variants for external entities read the name of the host, which no marker of disclosure is in.\<close>

lemma disclosed_hostname_is_missed:
  "\<not> ov_success (category_oracle Xxe [] \<lparr>lp_status = 200, lp_headers = None, lp_body = ''<value>staging-web-1</value>''\<rparr> None)"
  by code_simp

end
