(* ===== verification/Spec2Isabelle.thy ===== *)
theory Spec2Isabelle
  imports OrchestratorOutcomes AuditVerify LiveGuard LlmGateway FixGenerate ReportBuilder ConfirmRuns PayloadProps LiveDastProps
begin

text \<open>
  Montr Secure scans a repository in six layers under an orchestrator: layer 0 builds the
  application map, 1 discovers candidates, 2 correlates them, 3 confirms them, 4 writes
  fixes, 5 reports and opens pull requests. Every layer calls language models through one
  gateway, meters what it spends and writes to a tamper-evident audit log. This development
  models the platform's own logic, translated from \<open>src/packages\<close>.

  Foundations.

  \<^item> \<open>Prelude\<close>: JavaScript maps as association lists in insertion order, outcomes (a state
    with an optional error), stable sorting by a comparator, reachability and the locale of
    step invariants. \<open>Float64\<close>: rounding of rationals to doubles (round half to even, no
    overflow or subnormals). \<open>JsString\<close>: the string operations the code uses. \<open>Regex\<close>: regular
    expressions with an executable matcher, proved sound and complete for a relational
    semantics. \<open>JsonCanon\<close>: JSON values and their canonical text.
  \<^item> \<open>Contracts\<close>, \<open>Taxonomy\<close>, \<open>ScanContracts\<close>, \<open>QueueContracts\<close>: the data model of
    \<open>contracts/src\<close> and the parts of \<open>config/src/schema.ts\<close> that are read.

  Orchestrator and cost.

  \<^item> \<open>Pricing\<close>, \<open>CostMeter\<close>: \<open>cost-meter/src\<close>; money is a rational holding the value of a
    double, every arithmetic operation on it rounds.
  \<^item> \<open>StateStore\<close>: the repositories and row mappers of \<open>state-store/src\<close> the orchestrator
    calls; a table is a map from its primary key.
  \<^item> \<open>Fsm\<close>, \<open>Retry\<close>, \<open>KillSwitch\<close>, \<open>EventBus\<close>: the decisions and services of
    \<open>orchestrator/src\<close>.
  \<^item> \<open>Controller\<close>: \<open>controller.ts\<close>, \<open>persist.ts\<close> and the in-process scheduler, every public
    operation a step on one state record; a layer job is two steps, \<open>beginLayerJob\<close> and
    \<open>finishLayerJob\<close>, so that any operation may land while a layer runs.
    \<open>ControllerFacts\<close> turns it into a labelled transition system and proves the frame of
    every operation; \<open>ControllerProps\<close> proves the invariant; \<open>OrchestratorProps\<close>,
    \<open>OrchestratorRuns\<close> and \<open>OrchestratorOutcomes\<close> hold the properties: kill switch, gates,
    progress, resume, budget halt, failure, isolation, and the runs where the code departs
    from what it documents.

  Audit and egress.

  \<^item> \<open>HashChain\<close>, \<open>AuditLog\<close>: \<open>state-store/src/hash-chain.ts\<close> and \<open>audit.ts\<close>; an append is three steps
    (begin, read the last row, create in a transaction), so appends interleave and race for a
    sequence number. The properties: the chain of a client always verifies, acknowledged
    events stay. \<open>AuditVerify\<close>: the offline verifier of \<open>security/src\<close>, tamper evidence, the CSV
    export. The hash function is a parameter, assumed injective only where a property says so.
  \<^item> \<open>Scrubber\<close>, \<open>EgressGuard\<close>: \<open>security/src/scrubber.ts\<close> and \<open>egress-guard.ts\<close>; what the redactor
    returns passes the verifier, egress is denied by default.
  \<^item> \<open>LiveGuard\<close>: the guardrails and the probe loop of live confirmation (\<open>confirm/src\<close>).

  Correlation, layer 2 (\<open>correlation/src\<close>).

  \<^item> \<open>Grounding\<close>: the application map, its index and \<open>groundCandidate\<close>; \<open>Correlation\<close>: root causes, identifiers
    (words of 32 bits), scores, hypotheses, the request to the model and the reading of its answer;
    \<open>Correlate\<close>: the run, with the gateway, the prompt registry, the audit log and the semantic index as
    effects that may be absent or fail.
  \<^item> \<open>CorrelateFacts\<close>: the index against a filter, the grouping against a partition, the reach of a nudge on
    doubles, the shape of a run. \<open>CorrelateProps\<close>: no candidate is lost; no effect changes which findings
    there are; scores stay near those of the map; findings are corroborated, well formed and ranked;
    and three places where the code departs from its documentation.

  Confirmation, layer 3 (\<open>confirm/src\<close>).

  \<^item> \<open>ConfirmStatic\<close>: \<open>taxonomy.ts\<close>, the heuristics of the languages, \<open>structural-gate.ts\<close> and \<open>static.ts\<close>; effects are
    functions of a world that return an error or a value. \<open>Confirm\<close>: \<open>evidence.ts\<close>, \<open>adversarial.ts\<close>, \<open>investigate.ts\<close>,
    \<open>investigation-pipeline.ts\<close>, the ends of \<open>live.ts\<close>, and \<open>confirm.ts\<close> with its three paths. The gateway, its
    stream, the tools, the test process, the probing of a finding, the audit log and the kill signal are
    parameters.
  \<^item> \<open>ConfirmFacts\<close>: what each path leaves behind, and the locale \<open>verdict_loop\<close> of a loop that decides item by item.
    \<open>ConfirmProps\<close>: nothing is confirmed without a proof and no finding is lost; the model and what was
    learned may only veto; what a static proof says, and what it does not look at. \<open>ConfirmRuns\<close>: runs
    return, ask the model at most 21 times per finding besides live probing, need a strict majority of the
    panel, and give every finding of layer 2 its verdict.
  \<^item> \<open>PayloadSafety\<close>, \<open>PayloadProps\<close>: \<open>payload-safety.ts\<close>, what a payload composed by a model must satisfy, and what a
    payload that passes cannot contain.
  \<^item> \<open>LiveProbes\<close>: the probes, the catalogue of variants, the oracles and the transcript of \<open>live.ts\<close>. \<open>LiveDast\<close>:
    \<open>confirmLive\<close> on a world of the scope guard, the probes that were sent and an environment; it instantiates
    the parameter \<open>kd_probe\<close> of \<open>Confirm\<close>. \<open>LiveDastFacts\<close>: the locale \<open>live_relation\<close> of relations along the steps
    of a live confirmation, interpreted for the requests it sends and the calls it makes, and what a
    verdict rests on. \<open>LiveDastProps\<close>: requests stay in the scope and come from vetted sources, a confirmed
    finding has an answer that satisfies its oracle, and categories whose probes need a body are never
    probed in the default scope.

  Language models and fixes.

  \<^item> \<open>LlmModels\<close>, \<open>LlmGateway\<close>: \<open>llm-gateway/src\<close>; the adapter of a provider is a function of the number of
    calls so far. The properties: the calls of a completion are bounded, and the spend of a
    scan stays within its ceiling up to one call.
  \<^item> \<open>LineEdits\<close>, \<open>FixRisk\<close>, \<open>FixProof\<close>, \<open>FixGenerate\<close>: \<open>fix/src\<close>, layer 4. Line edits against a one-pass
    reference; risk classes; the runs of the proof-of-fix test in a subprocess, which is a
    parameter; the bounded agent loop; one fix per finding. The effects of the layer are two
    functions on a world, instantiated by the gateway where its bounds are needed. No fix is
    auto-eligible on the word of a model.

  Report.

  \<^item> \<open>VcsOpeners\<close>: \<open>report/src/vcs.ts\<close>; every call that leaves the process is an event of a trace and an
    environment answers it. The locale \<open>pull_request_opener\<close> is the interface of an opener, with
    an interpretation for each host.
  \<^item> \<open>PrGate\<close>: \<open>gate.ts\<close> and \<open>auto-fix.ts\<close>; only gated plans reach git and the host, and, composed with
    \<open>FixGenerate\<close>, only proven patches are written.
  \<^item> \<open>ReportBuilder\<close>: \<open>report-builder.ts\<close> and \<open>headline.ts\<close>; the report counts confirmed findings only, in
    priority order, and shows as opened only what was opened.

  Assumptions of the model. An operation reads the clock once. An operation of the controller
  is atomic; only a running layer interleaves with others. The scheduler is the in-process
  one, and remote kill signals are a step of their own. Layer runners are a parameter of the
  controller: what they return, meter and report is any value, except that they see an abort
  only when their signal is aborted and meter valid usage. Token counts stay below \<open>2 ^ 53\<close>.
  Strings are Latin-1 (dashes and signs outside it in messages are written in ASCII). Logging
  and metrics are left out. Bounds: retry rounds as the policies fix them, three or fewer; the
  agent loop ends by a measure on its two counters, an investigation counts down its turns, at
  most eight, the adaptive loop its three rounds; no definition carries fuel.

  Not modelled: the language-model adapters, parsers and detectors (calls of libraries and
  external tools), the tools of the investigation, the attack scenarios, the transforms of the fix strategies and the container proof, the exports
  and blue-team sections of the report, the web application, the HTTP API, Redis and
  Postgres themselves, and the configuration loader (input and output).
\<close>

end
